(* ===== verification/Prelude.thy ===== *)
theory Prelude
  imports Main
begin

text \<open>
  Shared vocabulary of the development: the operations of Go's \<open>strings\<close> package that the
  modelled code calls, maps with a finite key list, and the generic lemmas about them.

  A Go string is a byte sequence; it is modelled by the type \<open>string\<close>, a list of
  characters of 8 bits each, so that \<open>length\<close> is Go's \<open>len\<close> and the order of two
  strings is the order of their bytes. A Go map that is only read and written by key is a
  partial function; a map that the code also counts or ranges over, or over whose keys a
  graph walk must terminate, is an association list read by \<open>map_of\<close>.
\<close>

named_theorems body_simps "reading a body map"
named_theorems frame_simps "fields that an operation leaves alone"

type_synonym body_map = "(string \<times> string) list"

section \<open>Reading a map of strings\<close>

text \<open>\<open>m[k]\<close> of a \<open>map[string]string\<close>: the zero value is the empty string.\<close>

definition body_get :: "body_map \<Rightarrow> string \<Rightarrow> string" where
  "body_get b k = (case map_of b k of None \<Rightarrow> [] | Some v \<Rightarrow> v)"

text \<open>The second result of \<open>_, ok := m[k]\<close>.\<close>

definition body_has :: "body_map \<Rightarrow> string \<Rightarrow> bool" where
  "body_has b k \<longleftrightarrow> map_of b k \<noteq> None"

lemma body_get_Nil [body_simps]: "body_get [] k = []"
  by (simp add: body_get_def)

lemma body_get_Cons [body_simps]:
  "body_get ((k', v) # b) k = (if k = k' then v else body_get b k)"
  by (simp add: body_get_def)

lemma body_has_Nil [body_simps]: "\<not> body_has [] k"
  by (simp add: body_has_def)

lemma body_has_Cons [body_simps]: "body_has ((k', v) # b) k \<longleftrightarrow> k = k' \<or> body_has b k"
  by (simp add: body_has_def)

lemma body_get_nonempty_has: "body_get b k \<noteq> [] \<Longrightarrow> body_has b k"
  by (auto simp: body_get_def body_has_def split: option.splits)

section \<open>Strings\<close>

definition has_prefix :: "string \<Rightarrow> string \<Rightarrow> bool" where
  "has_prefix p s \<longleftrightarrow> length p \<le> length s \<and> take (length p) s = p"

definition trim_prefix :: "string \<Rightarrow> string \<Rightarrow> string" where
  "trim_prefix p s = (if has_prefix p s then drop (length p) s else s)"

definition trim_suffix_char :: "char \<Rightarrow> string \<Rightarrow> string" where
  "trim_suffix_char c s = (if s \<noteq> [] \<and> last s = c then butlast s else s)"

text \<open>\<open>strings.Contains\<close>.\<close>

fun has_substring :: "string \<Rightarrow> string \<Rightarrow> bool" where
  "has_substring sub [] \<longleftrightarrow> sub = []"
| "has_substring sub (c # s) \<longleftrightarrow> has_prefix sub (c # s) \<or> has_substring sub s"

text \<open>\<open>strings.Cut\<close> at a one-byte separator: the part before it, the part after it, found.\<close>

fun cut_char :: "char \<Rightarrow> string \<Rightarrow> string \<times> string \<times> bool" where
  "cut_char c [] = ([], [], False)"
| "cut_char c (x # s) =
     (if x = c then ([], s, True)
      else (case cut_char c s of (a, b, found) \<Rightarrow> (x # a, b, found)))"

text \<open>\<open>strings.Split\<close> at a one-byte separator: never the empty list.\<close>

fun split_char :: "char \<Rightarrow> string \<Rightarrow> string list" where
  "split_char c [] = [[]]"
| "split_char c (x # s) =
     (if x = c then [] # split_char c s
      else (case split_char c s of [] \<Rightarrow> [[x]] | w # ws \<Rightarrow> (x # w) # ws))"

text \<open>\<open>strings.LastIndexByte\<close>: \<open>None\<close> for Go's \<open>-1\<close>.\<close>

fun last_index :: "char \<Rightarrow> string \<Rightarrow> nat option" where
  "last_index c [] = None"
| "last_index c (x # s) =
     (case last_index c s of
        Some i \<Rightarrow> Some (Suc i)
      | None \<Rightarrow> if x = c then Some 0 else None)"

text \<open>The order of Go's string comparison: bytewise lexicographic.\<close>

fun str_less :: "string \<Rightarrow> string \<Rightarrow> bool" where
  "str_less _ [] \<longleftrightarrow> False"
| "str_less [] (_ # _) \<longleftrightarrow> True"
| "str_less (a # s) (b # t) \<longleftrightarrow>
     (of_char a :: nat) < of_char b \<or> (a = b \<and> str_less s t)"

text \<open>\<open>sort.Strings\<close> on a list: insertion keeps the result independent of the input order.\<close>

fun str_insert :: "string \<Rightarrow> string list \<Rightarrow> string list" where
  "str_insert x [] = [x]"
| "str_insert x (y # ys) = (if str_less y x then y # str_insert x ys else x # y # ys)"

fun sort_strings :: "string list \<Rightarrow> string list" where
  "sort_strings [] = []"
| "sort_strings (x # xs) = str_insert x (sort_strings xs)"

lemma has_prefix_Nil [simp]: "has_prefix [] s"
  by (simp add: has_prefix_def)

lemma has_prefix_append [simp]: "has_prefix p (p @ s)"
  by (simp add: has_prefix_def)

lemma has_prefixD: "has_prefix p s \<Longrightarrow> \<exists>t. s = p @ t"
  by (metis append_take_drop_id has_prefix_def)

lemma has_prefix_code [simp]:
  "has_prefix (a # p) (b # s) \<longleftrightarrow> a = b \<and> has_prefix p s"
  "\<not> has_prefix (a # p) []"
  by (auto simp: has_prefix_def)

lemma cut_char_found:
  "cut_char c s = (a, b, True) \<Longrightarrow> s = a @ c # b \<and> c \<notin> set a"
  by (induction s arbitrary: a) (auto split: prod.splits if_splits)

lemma cut_char_not_found: "cut_char c s = (a, b, False) \<Longrightarrow> c \<notin> set s"
  by (induction s arbitrary: a) (auto split: prod.splits if_splits)

lemma split_char_nonempty [simp]: "split_char c s \<noteq> []"
  by (induction s) (auto split: list.splits)

lemma split_char_no_sep: "w \<in> set (split_char c s) \<Longrightarrow> c \<notin> set w"
  by (induction s arbitrary: w) (auto split: if_splits list.splits)

lemma last_index_bound: "last_index c s = Some i \<Longrightarrow> i < length s \<and> s ! i = c"
  by (induction s arbitrary: i) (auto split: option.splits if_splits)

lemma str_less_irrefl [simp]: "\<not> str_less s s"
  by (induction s) auto

lemma str_less_trans: "str_less a b \<Longrightarrow> str_less b c \<Longrightarrow> str_less a c"
proof (induction a b arbitrary: c rule: str_less.induct)
  case (3 x s y t)
  then show ?case by (cases c) auto
qed (auto elim: str_less.elims)

lemma str_less_linear: "a \<noteq> b \<Longrightarrow> str_less a b \<or> str_less b a"
proof (induction a b rule: str_less.induct)
  case (1 a)
  then show ?case by (cases a) auto
next
  case (3 x s y t)
  then show ?case by (metis linorder_neqE_nat of_char_eq_iff str_less.simps(3))
qed auto

lemma set_str_insert [simp]: "set (str_insert x xs) = insert x (set xs)"
  by (induction xs) auto

lemma set_sort_strings [simp]: "set (sort_strings xs) = set xs"
  by (induction xs) auto

lemma length_str_insert [simp]: "length (str_insert x xs) = Suc (length xs)"
  by (induction xs) auto

lemma length_sort_strings [simp]: "length (sort_strings xs) = length xs"
  by (induction xs) auto

lemma distinct_str_insert: "x \<notin> set xs \<Longrightarrow> distinct xs \<Longrightarrow> distinct (str_insert x xs)"
  by (induction xs) auto

lemma distinct_sort_strings: "distinct xs \<Longrightarrow> distinct (sort_strings xs)"
  by (induction xs) (auto intro: distinct_str_insert)

text \<open>A list in strictly increasing order, which is a sorted list without duplicates.\<close>

definition strictly_sorted :: "string list \<Rightarrow> bool" where
  "strictly_sorted = sorted_wrt str_less"

lemma strictly_sorted_Nil [simp]: "strictly_sorted []"
  by (simp add: strictly_sorted_def)

lemma strictly_sorted_insert:
  "strictly_sorted xs \<Longrightarrow> x \<notin> set xs \<Longrightarrow> strictly_sorted (str_insert x xs)"
  unfolding strictly_sorted_def
  by (induction xs) (auto dest: str_less_trans str_less_linear)

lemma strictly_sorted_sort_strings:
  "distinct xs \<Longrightarrow> strictly_sorted (sort_strings xs)"
  by (induction xs) (auto intro: strictly_sorted_insert)

lemma strictly_sorted_unique:
  "strictly_sorted xs \<Longrightarrow> strictly_sorted ys \<Longrightarrow> set xs = set ys \<Longrightarrow> xs = ys"
  unfolding strictly_sorted_def
proof (induction xs arbitrary: ys)
  case Nil
  then show ?case by simp
next
  case (Cons x xs)
  then obtain y ys' where ys: "ys = y # ys'"
    by (cases ys) auto
  have "x = y"
    using Cons.prems ys str_less_trans str_less_irrefl by (metis insert_iff list.simps(15) sorted_wrt.simps(2))
  moreover from this have "set xs = set ys'"
    using Cons.prems ys by (metis insert_ident list.simps(15) sorted_wrt.simps(2) str_less_irrefl)
  ultimately show ?case
    using Cons ys by simp
qed

section \<open>Lists of strings\<close>

text \<open>\<open>contains\<close> and \<open>countExact\<close> of the workroom package.\<close>

fun contains :: "string list \<Rightarrow> string \<Rightarrow> bool" where
  "contains [] wanted = False"
| "contains (v # vs) wanted = (if v = wanted then True else contains vs wanted)"

fun count_exact :: "string list \<Rightarrow> string \<Rightarrow> nat" where
  "count_exact [] wanted = 0"
| "count_exact (v # vs) wanted =
     (if v = wanted then Suc (count_exact vs wanted) else count_exact vs wanted)"

lemma contains_iff [simp]: "contains vs w \<longleftrightarrow> w \<in> set vs"
  by (induction vs) auto

lemma count_exact_list [simp]: "count_exact vs w = count_list vs w"
  by (induction vs) auto

section \<open>Walking the keys of a finite map\<close>

text \<open>
  The graph walks of the code stop because each record is expanded at most once. Their
  measure is the number of keys not yet visited.
\<close>

definition unvisited :: "('k \<times> 'v) list \<Rightarrow> 'k list \<Rightarrow> nat" where
  "unvisited m seen = card (fst ` set m - set seen)"

lemma unvisited_less:
  "map_of m k \<noteq> None \<Longrightarrow> k \<notin> set seen \<Longrightarrow> unvisited m (k # seen) < unvisited m seen"
proof -
  assume "map_of m k \<noteq> None" and k: "k \<notin> set seen"
  then have "k \<in> fst ` set m"
    by (simp add: map_of_eq_None_iff)
  with k have "fst ` set m - set (k # seen) \<subset> fst ` set m - set seen"
    by auto
  then show ?thesis
    unfolding unvisited_def by (intro psubset_card_mono) auto
qed

lemma unvisited_le: "unvisited m (k # seen) \<le> unvisited m seen"
  unfolding unvisited_def by (intro card_mono) auto

end
