(* ===== verification/GoLib.thy ===== *)
theory GoLib
  imports Prelude
begin

text \<open>
  The part of Go's standard library whose code is not in the repository and whose result the
  workroom fold only consumes: the JSON text parser and printer and the regular expression
  engine. They are arguments of the model, collected in one record \<open>golib\<close>; nothing is assumed
  about them except where a lemma says so. What the source does with a parsed value (the
  conversion of a JSON value into a Go map or slice, with Go's treatment of \<open>null\<close>) is
  modelled here.
\<close>

datatype json =
  JNull | JBool bool | JNum string | JStr string | JArr "json list" | JObj "(string \<times> json) list"

text \<open>
  \<open>json.Unmarshal\<close> into a \<open>string\<close>: \<open>null\<close> leaves the zero value.
\<close>

fun unmarshal_string :: "json \<Rightarrow> string option" where
  "unmarshal_string (JStr s) = Some s"
| "unmarshal_string JNull = Some []"
| "unmarshal_string _ = None"

fun unmarshal_all :: "(json \<Rightarrow> 'a option) \<Rightarrow> json list \<Rightarrow> 'a list option" where
  "unmarshal_all f [] = Some []"
| "unmarshal_all f (v # vs) =
     (case f v of None \<Rightarrow> None
      | Some x \<Rightarrow> (case unmarshal_all f vs of None \<Rightarrow> None | Some xs \<Rightarrow> Some (x # xs)))"

text \<open>
  \<open>json.Unmarshal\<close> into a nil \<open>[]string\<close>. The outer option is the error, the inner one
  the nil slice that \<open>null\<close> leaves.
\<close>

fun unmarshal_strings :: "json \<Rightarrow> string list option option" where
  "unmarshal_strings JNull = Some None"
| "unmarshal_strings (JArr vs) = map_option Some (unmarshal_all unmarshal_string vs)"
| "unmarshal_strings _ = None"

text \<open>
  \<open>json.Unmarshal\<close> into a nil \<open>map[string]T\<close>. A repeated key takes its last value.
\<close>

fun unmarshal_entries ::
  "(json \<Rightarrow> 'a option) \<Rightarrow> (string \<times> json) list \<Rightarrow> (string \<times> 'a) list option" where
  "unmarshal_entries f [] = Some []"
| "unmarshal_entries f ((k, v) # es) =
     (case f v of None \<Rightarrow> None
      | Some x \<Rightarrow> (case unmarshal_entries f es of None \<Rightarrow> None
                  | Some xs \<Rightarrow> Some (if k \<in> fst ` set xs then xs else (k, x) # xs)))"

fun unmarshal_map :: "(json \<Rightarrow> 'a option) \<Rightarrow> json \<Rightarrow> (string \<times> 'a) list option option" where
  "unmarshal_map f JNull = Some None"
| "unmarshal_map f (JObj es) = map_option Some (unmarshal_entries f es)"
| "unmarshal_map f _ = None"

lemma unmarshal_entries_distinct:
  "unmarshal_entries f es = Some xs \<Longrightarrow> distinct (map fst xs)"
  by (induction f es arbitrary: xs rule: unmarshal_entries.induct)
     (auto split: option.splits if_splits)

end
