(* ===== verification/WorkroomKinds.thy ===== *)
theory WorkroomKinds
  imports GoLib
begin

text \<open>
  \<open>internal/workroom/kinds.go\<close>: the declarative vocabulary the fold interprets. A kind is an
  open set of names (Go's \<open>type Kind string\<close>), so it stays a string; the enumerated words of a
  definition are datatypes with one extra constructor for a word that no constant names, which
  is what an unvalidated definition may hold.
\<close>

section \<open>Kinds, fields, definitions\<close>

definition kind_assert :: string where "kind_assert = ''assert''"
definition kind_propose :: string where "kind_propose = ''propose''"
definition kind_request :: string where "kind_request = ''request''"
definition kind_promise :: string where "kind_promise = ''promise''"
definition kind_report :: string where "kind_report = ''report''"
definition kind_dissent :: string where "kind_dissent = ''dissent''"
definition kind_artifact :: string where "kind_artifact = ''artifact''"
definition kind_roster :: string where "kind_roster = ''roster''"
definition kind_infra_key :: string where "kind_infra_key = ''infra-key''"
definition kind_seal :: string where "kind_seal = ''seal''"
definition kind_admission_profile :: string where "kind_admission_profile = ''admission-profile''"
definition kind_kind_def :: string where "kind_kind_def = ''kind-def''"
definition kind_fold_activation :: string where "kind_fold_activation = ''fold-activation''"

lemmas kind_names = kind_assert_def kind_propose_def kind_request_def kind_promise_def
  kind_report_def kind_dissent_def kind_artifact_def kind_roster_def kind_infra_key_def
  kind_seal_def kind_admission_profile_def kind_kind_def_def kind_fold_activation_def

datatype field_operator =
  FieldPresent | FieldType | FieldMatches | FieldOneOf | FieldOther string

datatype value_type =
  ValueString | ValueEventID | ValueActorRef | ValuePathCommit | ValueOther string

record field_constraint =
  fc_op :: field_operator
  fc_name :: string
  fc_type :: value_type
  fc_pattern :: string
  fc_values :: "string list"

record basis_constraint =
  bc_kinds :: "string list"
  bc_min :: int
  bc_max :: int

datatype render_class =
  RenderNote | RenderProposal | RenderCommitment | RenderResult | RenderDissent
| RenderArtifact | RenderGovernance | RenderOther string

datatype staleness_mode =
  StalenessPropagates | StalenessTerminal | StalenessExempt | StalenessOther string

datatype lifecycle =
  LifecycleNone | LifecycleRequest | LifecyclePromise | LifecycleReport | LifecycleOther string

definition satisfier_none :: string where "satisfier_none = ''none''"
definition satisfier_originating_requester :: string where
  "satisfier_originating_requester = ''originating-requester''"

definition role_prefix :: string where "role_prefix = ''role:''"

record kind_definition =
  kd_name :: string
  kd_fields :: "field_constraint list"
  kd_basis :: "basis_constraint list"
  kd_satisfier :: string
  kd_render :: render_class
  kd_staleness :: staleness_mode
  kd_lifecycle :: lifecycle
  kd_guidance :: string
  kd_source :: string
  kd_ratified_by :: string

text \<open>The conversions \<open>RenderClass(s)\<close>, \<open>StalenessMode(s)\<close> and \<open>Lifecycle(s)\<close>.\<close>

definition render_of :: "string \<Rightarrow> render_class" where
  "render_of s =
     (if s = ''note'' then RenderNote else if s = ''proposal'' then RenderProposal
      else if s = ''commitment'' then RenderCommitment else if s = ''result'' then RenderResult
      else if s = ''dissent'' then RenderDissent else if s = ''artifact'' then RenderArtifact
      else if s = ''governance'' then RenderGovernance else RenderOther s)"

definition staleness_of :: "string \<Rightarrow> staleness_mode" where
  "staleness_of s =
     (if s = ''propagates'' then StalenessPropagates
      else if s = ''terminal'' then StalenessTerminal
      else if s = ''exempt'' then StalenessExempt else StalenessOther s)"

definition lifecycle_of_word :: "string \<Rightarrow> lifecycle" where
  "lifecycle_of_word s =
     (if s = ''none'' then LifecycleNone else if s = ''request'' then LifecycleRequest
      else if s = ''promise'' then LifecyclePromise
      else if s = ''report'' then LifecycleReport else LifecycleOther s)"

section \<open>The starter catalog\<close>

definition present :: "string list \<Rightarrow> field_constraint list" where
  "present names =
     map (\<lambda>n. \<lparr>fc_op = FieldPresent, fc_name = n, fc_type = ValueOther [], fc_pattern = [],
               fc_values = []\<rparr>) names"

definition field_type :: "string \<Rightarrow> value_type \<Rightarrow> field_constraint" where
  "field_type n t =
     \<lparr>fc_op = FieldType, fc_name = n, fc_type = t, fc_pattern = [], fc_values = []\<rparr>"

definition field_one_of :: "string \<Rightarrow> string list \<Rightarrow> field_constraint" where
  "field_one_of n vs =
     \<lparr>fc_op = FieldOneOf, fc_name = n, fc_type = ValueOther [], fc_pattern = [], fc_values = vs\<rparr>"

definition count_kinds :: "int \<Rightarrow> int \<Rightarrow> string list \<Rightarrow> basis_constraint list" where
  "count_kinds minimum maximum kinds =
     [\<lparr>bc_kinds = kinds, bc_min = minimum, bc_max = maximum\<rparr>]"

definition source_starter :: string where "source_starter = ''starter''"

definition starter ::
  "string \<Rightarrow> field_constraint list \<Rightarrow> basis_constraint list \<Rightarrow> string \<Rightarrow> render_class \<Rightarrow>
   lifecycle \<Rightarrow> string \<Rightarrow> kind_definition" where
  "starter name fs basis satisfier render lc guidance =
     \<lparr>kd_name = name, kd_fields = fs, kd_basis = basis, kd_satisfier = satisfier,
      kd_render = render, kd_staleness = StalenessPropagates, kd_lifecycle = lc,
      kd_guidance = guidance, kd_source = source_starter, kd_ratified_by = []\<rparr>"

definition starter_definitions :: "kind_definition list" where
  "starter_definitions =
   [starter kind_assert [] [] ''role:ratifier'' RenderNote LifecycleNone
      ''Record a durable claim. Ratification marks a claim as adopted; cite the acts that ground it.'',
    starter kind_propose [] [] ''role:ratifier'' RenderProposal LifecycleNone
      ''Offer a decision for ratification. State the choice and the consequences it adopts.'',
    starter kind_request
      (present [''to''] @ [field_type ''to'' ValueActorRef] @ present [''conditions'']) []
      satisfier_none RenderCommitment LifecycleRequest
      ''Ask a named participant for an outcome and state observable conditions of satisfaction.'',
    starter kind_promise [] (count_kinds 1 1 [kind_request]) satisfier_none RenderCommitment
      LifecyclePromise
      ''Accept exactly one request. Rest on that request and promise only work you can own.'',
    starter kind_report [] (count_kinds 1 2 [kind_promise, kind_request])
      satisfier_originating_requester RenderResult LifecycleReport
      ''Report the result of exactly one promise, or of the request you were asked directly, with the tests and conditions actually met.'',
    starter kind_dissent [] [] satisfier_none RenderDissent LifecycleNone
      ''Preserve a concrete disagreement against the act it concerns; dissent does not rewrite history.'',
    starter kind_artifact (present [''path'', ''commit'']) [] satisfier_none RenderArtifact
      LifecycleNone
      ''Point to an exact repository path and commit that a reader can inspect.'',
    starter kind_roster (present [''actor'', ''name'', ''role'']) [] ''role:ratifier''
      RenderGovernance LifecycleNone
      ''Govern durable membership and authority. Participant grants also carry the actor kind.'',
    starter kind_infra_key (present [''service'', ''public_key'']) [] ''role:ratifier''
      RenderGovernance LifecycleNone
      ''Bind an infrastructure service name to its public key.'',
    starter kind_seal [] [] ''role:ratifier'' RenderGovernance LifecycleNone
      ''Record a governed seal over the workroom state.'',
    starter kind_admission_profile (present [''bundle'', ''contract'', ''genesis'']) []
      ''role:ratifier'' RenderGovernance LifecycleNone
      ''Activate an admission profile. The newest ratified profile matching this genesis governs; retiring one restores its predecessor.'',
    starter kind_kind_def
      (present [''name'', ''fields'', ''basis'', ''satisfier'', ''render'', ''staleness'',
                ''lifecycle'', ''guidance'']) []
      ''role:ratifier'' RenderGovernance LifecycleNone
      ''Declare a kind using the finite constraint algebra. Guidance is visible to actors and powerless in the fold.'']"

text \<open>The map built by ranging over the list: no name occurs twice in it.\<close>

definition starter_catalog :: "string \<Rightarrow> kind_definition option" where
  "starter_catalog name = map_of (map (\<lambda>d. (kd_name d, d)) starter_definitions) name"

definition legacy_fold_activation_definition :: kind_definition where
  "legacy_fold_activation_definition =
     starter kind_fold_activation
       (present [''fold''] @ [field_type ''fold'' ValuePathCommit]
        @ present [''entry'', ''interface'', ''toolchain'', ''prefix'']
        @ [field_one_of ''prefix'' [''genesis'']]) []
       ''role:ratifier'' RenderGovernance LifecycleNone
       ''Historical state@0 fold activation retained for deterministic replay; new upgrades use the host binding.''"

definition starter_lifecycle :: "string \<Rightarrow> lifecycle option" where
  "starter_lifecycle kind = map_option kd_lifecycle (starter_catalog kind)"

section \<open>Validating a definition\<close>

text \<open>
  The regular expression \<open>^[a-z][a-z0-9]*([-_][a-z0-9]+)*$\<close> as a matcher with one bit of
  state: whether the text may end, or a separator may follow, after the characters read so far.
\<close>

definition is_lower_ascii :: "char \<Rightarrow> bool" where
  "is_lower_ascii c \<longleftrightarrow> (97::nat) \<le> of_char c \<and> (of_char c :: nat) \<le> 122"

definition is_digit_ascii :: "char \<Rightarrow> bool" where
  "is_digit_ascii c \<longleftrightarrow> (48::nat) \<le> of_char c \<and> (of_char c :: nat) \<le> 57"

fun identifier_tail :: "bool \<Rightarrow> string \<Rightarrow> bool" where
  "identifier_tail word [] = word"
| "identifier_tail word (c # s) =
     (if is_lower_ascii c \<or> is_digit_ascii c then identifier_tail True s
      else if word \<and> (c = CHR ''-'' \<or> c = CHR ''_'') then identifier_tail False s
      else False)"

definition is_identifier :: "string \<Rightarrow> bool" where
  "is_identifier s = (case s of [] \<Rightarrow> False | c # r \<Rightarrow> is_lower_ascii c \<and> identifier_tail True r)"

definition fold_interpreted :: "string \<Rightarrow> bool" where
  "fold_interpreted k \<longleftrightarrow> k = kind_kind_def \<or> k = kind_fold_activation \<or> k = kind_roster"

text \<open>The errors of the package, one constructor per message.\<close>

datatype kind_error =
  FoldNotDeclarative | FieldsUndecodable | FieldsNotArray | BasisUndecodable | BasisNotArray
| GuidanceRequired | KindReserved string | KindNotIdentifier string
| FieldNotIdentifier string | PresentCarriesOperands string | UnsupportedType value_type
| TypeCarriesOperands string | MatchesRequiresPattern string | MatchesBadPattern string
| MatchesCarriesOperands string | OneOfRequiresValues string | OneOfCarriesOperands string
| UnsupportedOperator string | BasisCountRange | BasisKindsNotUnique
| BasisKindNotIdentifier string | UnsupportedSatisfier string | RoleNotIdentifier string
| UnsupportedRender string | UnsupportedStaleness string | UnsupportedLifecycle string

record kind_lib =
  parse_json :: "string \<Rightarrow> json option"
  re_compiles :: "string \<Rightarrow> bool"
  re_matches :: "string \<Rightarrow> string \<Rightarrow> bool"
  decode_fields :: "string \<Rightarrow> field_constraint list option option"
  encode_fields :: "field_constraint list option \<Rightarrow> string"
  decode_basis :: "string \<Rightarrow> basis_constraint list option option"
  encode_basis :: "basis_constraint list option \<Rightarrow> string"

abbreviation no_type :: value_type where "no_type \<equiv> ValueOther []"

definition validate_field :: "('l) kind_lib_scheme \<Rightarrow> field_constraint \<Rightarrow> kind_error option" where
  "validate_field L f =
     (if \<not> is_identifier (fc_name f) then Some (FieldNotIdentifier (fc_name f))
      else case fc_op f of
        FieldPresent \<Rightarrow>
          if fc_type f \<noteq> no_type \<or> fc_pattern f \<noteq> [] \<or> fc_values f \<noteq> []
          then Some (PresentCarriesOperands (fc_name f)) else None
      | FieldType \<Rightarrow>
          (case fc_type f of
             ValueOther t \<Rightarrow> Some (UnsupportedType (fc_type f))
           | _ \<Rightarrow> if fc_pattern f \<noteq> [] \<or> fc_values f \<noteq> []
                  then Some (TypeCarriesOperands (fc_name f)) else None)
      | FieldMatches \<Rightarrow>
          if fc_pattern f = [] then Some (MatchesRequiresPattern (fc_name f))
          else if \<not> re_compiles L (fc_pattern f) then Some (MatchesBadPattern (fc_name f))
          else if fc_type f \<noteq> no_type \<or> fc_values f \<noteq> []
          then Some (MatchesCarriesOperands (fc_name f)) else None
      | FieldOneOf \<Rightarrow>
          if fc_values f = [] then Some (OneOfRequiresValues (fc_name f))
          else if fc_type f \<noteq> no_type \<or> fc_pattern f \<noteq> []
          then Some (OneOfCarriesOperands (fc_name f)) else None
      | FieldOther w \<Rightarrow> Some (UnsupportedOperator w))"

text \<open>The first error of a loop that returns at the first failure.\<close>

fun first_error :: "('a \<Rightarrow> 'e option) \<Rightarrow> 'a list \<Rightarrow> 'e option" where
  "first_error f [] = None"
| "first_error f (x # xs) = (case f x of Some e \<Rightarrow> Some e | None \<Rightarrow> first_error f xs)"

fun validate_basis_kinds :: "string list \<Rightarrow> string list \<Rightarrow> kind_error option" where
  "validate_basis_kinds seen [] = None"
| "validate_basis_kinds seen (k # ks) =
     (if k \<in> set seen then Some BasisKindsNotUnique
      else if \<not> is_identifier k then Some (BasisKindNotIdentifier k)
      else validate_basis_kinds (k # seen) ks)"

definition validate_basis_constraint :: "basis_constraint \<Rightarrow> kind_error option" where
  "validate_basis_constraint b =
     (if bc_kinds b = [] \<or> bc_min b < 0 \<or> bc_max b < bc_min b then Some BasisCountRange
      else validate_basis_kinds [] (bc_kinds b))"

definition validate_words :: "kind_definition \<Rightarrow> kind_error option" where
  "validate_words d =
     (if kd_satisfier d \<noteq> satisfier_none \<and> kd_satisfier d \<noteq> satisfier_originating_requester
         \<and> \<not> has_prefix role_prefix (kd_satisfier d)
      then Some (UnsupportedSatisfier (kd_satisfier d))
      else if has_prefix role_prefix (kd_satisfier d)
              \<and> \<not> is_identifier (trim_prefix role_prefix (kd_satisfier d))
      then Some (RoleNotIdentifier (trim_prefix role_prefix (kd_satisfier d)))
      else case kd_render d of
        RenderOther w \<Rightarrow> Some (UnsupportedRender w)
      | _ \<Rightarrow> (case kd_staleness d of
          StalenessOther w \<Rightarrow> Some (UnsupportedStaleness w)
        | _ \<Rightarrow> (case kd_lifecycle d of
            LifecycleOther w \<Rightarrow> Some (UnsupportedLifecycle w)
          | _ \<Rightarrow> None)))"

definition validate_definition :: "('l) kind_lib_scheme \<Rightarrow> kind_definition \<Rightarrow> kind_error option" where
  "validate_definition L d =
     (if kd_guidance d = [] then Some GuidanceRequired
      else if fold_interpreted (kd_name d) then Some (KindReserved (kd_name d))
      else if \<not> is_identifier (kd_name d) then Some (KindNotIdentifier (kd_name d))
      else case first_error (validate_field L) (kd_fields d) of
        Some e \<Rightarrow> Some e
      | None \<Rightarrow> (case first_error validate_basis_constraint (kd_basis d) of
          Some e \<Rightarrow> Some e
        | None \<Rightarrow> validate_words d))"

text \<open>
  \<open>decodeCanonicalString\<close>: one JSON value, nothing after it, and its canonical encoding is the
  input itself.
\<close>

definition decode_canonical :: "(string \<Rightarrow> 'a option option) \<Rightarrow> ('a option \<Rightarrow> string) \<Rightarrow> string \<Rightarrow>
    'a option option" where
  "decode_canonical dec enc v =
     (case dec v of None \<Rightarrow> None | Some x \<Rightarrow> if enc x = v then Some x else None)"

definition decode_kind_definition ::
  "('l) kind_lib_scheme \<Rightarrow> body_map \<Rightarrow> string \<Rightarrow> kind_error + kind_definition" where
  "decode_kind_definition L b source =
     (if body_has b ''fold'' then Inl FoldNotDeclarative
      else case decode_canonical (decode_fields L) (encode_fields L) (body_get b ''fields'') of
        None \<Rightarrow> Inl FieldsUndecodable
      | Some None \<Rightarrow> Inl FieldsNotArray
      | Some (Some fs) \<Rightarrow>
         (case decode_canonical (decode_basis L) (encode_basis L) (body_get b ''basis'') of
            None \<Rightarrow> Inl BasisUndecodable
          | Some None \<Rightarrow> Inl BasisNotArray
          | Some (Some bs) \<Rightarrow>
             (let d = \<lparr>kd_name = body_get b ''name'', kd_fields = fs, kd_basis = bs,
                       kd_satisfier = body_get b ''satisfier'',
                       kd_render = render_of (body_get b ''render''),
                       kd_staleness = staleness_of (body_get b ''staleness''),
                       kd_lifecycle = lifecycle_of_word (body_get b ''lifecycle''),
                       kd_guidance = body_get b ''guidance'', kd_source = source,
                       kd_ratified_by = []\<rparr>
              in case validate_definition L d of Some e \<Rightarrow> Inl e | None \<Rightarrow> Inr d)))"

section \<open>Validating the body of a statement\<close>

datatype field_error =
  FieldRequired string string | FieldNotType string string value_type
| FieldNoMatch string string | FieldNotOneOf string string

definition is_blank :: "char \<Rightarrow> bool" where
  "is_blank c \<longleftrightarrow> c \<in> set [CHR 0x0D, CHR 0x0A, CHR 0x09, CHR '' '']"

fun matches_type :: "value_type \<Rightarrow> string \<Rightarrow> bool" where
  "matches_type ValueString v \<longleftrightarrow> v \<noteq> []"
| "matches_type ValueEventID v \<longleftrightarrow> v \<noteq> [] \<and> \<not> list_ex is_blank v"
| "matches_type ValueActorRef v \<longleftrightarrow> v \<noteq> [] \<and> \<not> list_ex is_blank v"
| "matches_type ValuePathCommit v \<longleftrightarrow>
     (case last_index (CHR ''@'') v of None \<Rightarrow> False | Some i \<Rightarrow> 0 < i \<and> Suc i < length v)"
| "matches_type (ValueOther _) v \<longleftrightarrow> False"

definition check_field ::
  "('l) kind_lib_scheme \<Rightarrow> string \<Rightarrow> body_map \<Rightarrow> field_constraint \<Rightarrow> field_error option" where
  "check_field L kind b c =
     (let n = fc_name c; held = body_has b n; v = body_get b n in
      case fc_op c of
        FieldPresent \<Rightarrow> if \<not> held \<or> v = [] then Some (FieldRequired kind n) else None
      | FieldType \<Rightarrow> if \<not> held then None
                     else if \<not> matches_type (fc_type c) v
                     then Some (FieldNotType kind n (fc_type c)) else None
      | FieldMatches \<Rightarrow> if held \<and> \<not> re_matches L (fc_pattern c) v
                        then Some (FieldNoMatch kind n) else None
      | FieldOneOf \<Rightarrow> if held \<and> \<not> contains (fc_values c) v
                      then Some (FieldNotOneOf kind n) else None
      | FieldOther _ \<Rightarrow> None)"

definition validate_fields ::
  "('l) kind_lib_scheme \<Rightarrow> kind_definition \<Rightarrow> body_map \<Rightarrow> field_error option" where
  "validate_fields L d b = first_error (check_field L (kd_name d) b) (kd_fields d)"

text \<open>\<open>sortedDefinitions\<close>: the definitions of a catalog in the order of their names.\<close>

fun insert_definition :: "kind_definition \<Rightarrow> kind_definition list \<Rightarrow> kind_definition list" where
  "insert_definition d [] = [d]"
| "insert_definition d (e # es) =
     (if str_less (kd_name e) (kd_name d) then e # insert_definition d es else d # e # es)"

fun sorted_definitions :: "kind_definition list \<Rightarrow> kind_definition list" where
  "sorted_definitions [] = []"
| "sorted_definitions (d # ds) = insert_definition d (sorted_definitions ds)"

section \<open>Lemmas\<close>

lemma first_error_None: "first_error f xs = None \<longleftrightarrow> (\<forall>x\<in>set xs. f x = None)"
  by (induction xs) (auto split: option.splits)

lemma first_error_Some: "first_error f xs = Some e \<Longrightarrow> \<exists>x\<in>set xs. f x = Some e"
  by (induction xs) (auto split: option.splits)

text \<open>
  The grammar of names without the automaton: non-empty words of lower case letters and digits,
  joined by single separators, the first one opening with a letter.
\<close>

definition is_separator :: "char \<Rightarrow> bool" where
  "is_separator c \<longleftrightarrow> c = CHR ''-'' \<or> c = CHR ''_''"

definition is_word_char :: "char \<Rightarrow> bool" where
  "is_word_char c \<longleftrightarrow> is_lower_ascii c \<or> is_digit_ascii c"

fun name_words :: "string \<Rightarrow> string list" where
  "name_words [] = [[]]"
| "name_words (c # s) =
     (if is_separator c then [] # name_words s
      else (case name_words s of [] \<Rightarrow> [[c]] | w # ws \<Rightarrow> (c # w) # ws))"

definition name_shape :: "string \<Rightarrow> bool" where
  "name_shape s \<longleftrightarrow> s \<noteq> [] \<and> is_lower_ascii (hd s)
     \<and> list_all (\<lambda>w. w \<noteq> [] \<and> list_all is_word_char w) (name_words s)"

lemma separator_not_word [simp]: "is_separator c \<Longrightarrow> \<not> is_word_char c"
  by (auto simp: is_separator_def is_word_char_def is_lower_ascii_def is_digit_ascii_def)

lemma name_words_nonempty [simp]: "name_words s \<noteq> []"
  by (induction s) (auto split: list.splits)

lemma identifier_tail_Cons:
  "identifier_tail word (c # s) \<longleftrightarrow>
     (if is_word_char c then identifier_tail True s
      else word \<and> is_separator c \<and> identifier_tail False s)"
  by (simp add: is_word_char_def is_separator_def)

lemma name_words_Cons:
  "name_words (c # s) =
     (if is_separator c then [] # name_words s
      else (c # hd (name_words s)) # tl (name_words s))"
  by (cases "name_words s") auto

lemma identifier_tail_words:
  "identifier_tail word s \<longleftrightarrow>
     list_all is_word_char (hd (name_words s)) \<and> (word \<or> hd (name_words s) \<noteq> [])
     \<and> list_all (\<lambda>w. w \<noteq> [] \<and> list_all is_word_char w) (tl (name_words s))"
proof (induction s arbitrary: word)
  case Nil
  then show ?case by simp
next
  case (Cons c s)
  have cons: "list_all P (name_words s) \<longleftrightarrow> P (hd (name_words s)) \<and> list_all P (tl (name_words s))"
    for P by (cases "name_words s") auto
  show ?case
  proof (cases "is_separator c")
    case True
    then show ?thesis
      by (auto simp: identifier_tail_Cons name_words_Cons Cons cons simp del: name_words.simps identifier_tail.simps)
  next
    case False
    then show ?thesis
      by (auto simp: identifier_tail_Cons name_words_Cons Cons simp del: name_words.simps identifier_tail.simps)
  qed
qed

lemma lower_not_separator: "is_lower_ascii c \<Longrightarrow> is_word_char c \<and> \<not> is_separator c"
  by (auto simp: is_separator_def is_word_char_def is_lower_ascii_def)

lemma identifier_name_shape: "is_identifier s \<longleftrightarrow> name_shape s"
proof (cases s)
  case Nil
  then show ?thesis by (simp add: is_identifier_def name_shape_def)
next
  case (Cons c r)
  have words: "list_all P (name_words (c # r)) \<longleftrightarrow>
      P (c # hd (name_words r)) \<and> list_all P (tl (name_words r))"
    if "\<not> is_separator c" for P
    using that by (simp only: name_words_Cons if_False list.pred_inject)
  show ?thesis
    unfolding Cons is_identifier_def name_shape_def list.case identifier_tail_words list.sel
    using words lower_not_separator [of c] by (cases "is_lower_ascii c") auto
qed

lemma validate_basis_kinds_None:
  "validate_basis_kinds seen ks = None \<longleftrightarrow>
     distinct ks \<and> set seen \<inter> set ks = {} \<and> (\<forall>k\<in>set ks. is_identifier k)"
  by (induction seen ks rule: validate_basis_kinds.induct) auto

text \<open>What a declared kind promises, stated without the order of the checks.\<close>

definition field_ok :: "('l) kind_lib_scheme \<Rightarrow> field_constraint \<Rightarrow> bool" where
  "field_ok L f \<longleftrightarrow> is_identifier (fc_name f) \<and>
     ((fc_op f = FieldPresent \<and> fc_type f = no_type \<and> fc_pattern f = [] \<and> fc_values f = [])
    \<or> (fc_op f = FieldType \<and> (\<forall>t. fc_type f \<noteq> ValueOther t) \<and> fc_pattern f = [] \<and> fc_values f = [])
    \<or> (fc_op f = FieldMatches \<and> fc_type f = no_type \<and> fc_pattern f \<noteq> []
         \<and> re_compiles L (fc_pattern f) \<and> fc_values f = [])
    \<or> (fc_op f = FieldOneOf \<and> fc_type f = no_type \<and> fc_pattern f = [] \<and> fc_values f \<noteq> []))"

definition basis_ok :: "basis_constraint \<Rightarrow> bool" where
  "basis_ok b \<longleftrightarrow> bc_kinds b \<noteq> [] \<and> distinct (bc_kinds b) \<and> (\<forall>k\<in>set (bc_kinds b). is_identifier k)
     \<and> 0 \<le> bc_min b \<and> bc_min b \<le> bc_max b"

definition words_ok :: "kind_definition \<Rightarrow> bool" where
  "words_ok d \<longleftrightarrow>
     (kd_satisfier d \<in> {satisfier_none, satisfier_originating_requester}
      \<or> (\<exists>role. is_identifier role \<and> kd_satisfier d = role_prefix @ role))
     \<and> (\<forall>w. kd_render d \<noteq> RenderOther w) \<and> (\<forall>w. kd_staleness d \<noteq> StalenessOther w)
     \<and> (\<forall>w. kd_lifecycle d \<noteq> LifecycleOther w)"

definition definition_ok :: "('l) kind_lib_scheme \<Rightarrow> kind_definition \<Rightarrow> bool" where
  "definition_ok L d \<longleftrightarrow> kd_guidance d \<noteq> [] \<and> \<not> fold_interpreted (kd_name d)
     \<and> is_identifier (kd_name d) \<and> (\<forall>f\<in>set (kd_fields d). field_ok L f)
     \<and> (\<forall>b\<in>set (kd_basis d). basis_ok b) \<and> words_ok d"

lemma validate_field_None: "validate_field L f = None \<longleftrightarrow> field_ok L f"
  by (cases "fc_op f"; cases "fc_type f") (auto simp: validate_field_def field_ok_def)

lemma validate_basis_constraint_None: "validate_basis_constraint b = None \<longleftrightarrow> basis_ok b"
  by (auto simp: validate_basis_constraint_def basis_ok_def validate_basis_kinds_None)

lemma role_prefix_iff:
  "has_prefix p s \<and> P (trim_prefix p s) \<longleftrightarrow> (\<exists>r. P r \<and> s = p @ r)"
  by (auto simp: trim_prefix_def dest: has_prefixD)

lemma not_role_satisfier [simp]:
  "\<not> has_prefix role_prefix satisfier_none"
  "\<not> has_prefix role_prefix satisfier_originating_requester"
  by (simp_all add: satisfier_none_def satisfier_originating_requester_def role_prefix_def)

definition satisfier_ok :: "string \<Rightarrow> bool" where
  "satisfier_ok s \<longleftrightarrow> s = satisfier_none \<or> s = satisfier_originating_requester
     \<or> (has_prefix role_prefix s \<and> is_identifier (trim_prefix role_prefix s))"

lemma satisfier_ok_iff:
  "satisfier_ok s \<longleftrightarrow> s \<in> {satisfier_none, satisfier_originating_requester}
     \<or> (\<exists>role. is_identifier role \<and> s = role_prefix @ role)"
  using role_prefix_iff [of role_prefix s is_identifier] by (simp add: satisfier_ok_def)

lemma satisfier_check:
  "\<not> (s \<noteq> satisfier_none \<and> s \<noteq> satisfier_originating_requester \<and> \<not> has_prefix role_prefix s)
   \<and> \<not> (has_prefix role_prefix s \<and> \<not> is_identifier (trim_prefix role_prefix s))
   \<longleftrightarrow> satisfier_ok s"
  using not_role_satisfier by (auto simp: satisfier_ok_def)

lemma if_if_None:
  "(if A then Some x else if B then Some y else X) = None \<longleftrightarrow> (\<not> A \<and> \<not> B) \<and> X = None"
  by simp

lemma validate_words_None: "validate_words d = None \<longleftrightarrow> words_ok d"
  unfolding validate_words_def if_if_None satisfier_check words_ok_def satisfier_ok_iff [symmetric]
  by (cases "kd_render d"; cases "kd_staleness d"; cases "kd_lifecycle d"; simp)

lemma fields_ok_first_error:
  "(\<forall>f\<in>set fs. field_ok L f) \<longleftrightarrow> first_error (validate_field L) fs = None"
  by (simp add: first_error_None validate_field_None)

lemma bases_ok_first_error:
  "(\<forall>b\<in>set bs. basis_ok b) \<longleftrightarrow> first_error validate_basis_constraint bs = None"
  by (simp add: first_error_None validate_basis_constraint_None)

lemma validate_definition_None: "validate_definition L d = None \<longleftrightarrow> definition_ok L d"
  unfolding validate_definition_def definition_ok_def fields_ok_first_error bases_ok_first_error
  by (simp add: validate_words_None split: option.splits)

lemma decode_kind_definition_ok:
  assumes "decode_kind_definition L b source = Inr d"
  shows "definition_ok L d \<and> kd_source d = source \<and> kd_name d = body_get b ''name''
    \<and> \<not> body_has b ''fold''"
  using assms validate_definition_None
  unfolding decode_kind_definition_def
  by (auto simp: Let_def split: if_splits option.splits)

end
