(* ===== verification/WorkroomSchema.thy ===== *)
theory WorkroomSchema
  imports WorkroomKinds
begin

text \<open>
  \<open>internal/workroom/schema.go\<close>: the payloads of the workroom profile, their validation, and
  the canonical decoding every fold input passes through. The reflective conversion between JSON
  text and a payload struct is \<open>encoding/json\<close>'s and is a parameter (\<open>unmarshal_payload\<close>,
  \<open>marshal_payload\<close>). The string pool of \<open>decode\<close> only shares storage and is left out.
\<close>

section \<open>Schemas and payloads\<close>

definition schema_state_legacy :: string where "schema_state_legacy = ''workroom/state@0''"
definition schema_state_v1 :: string where "schema_state_v1 = ''workroom/state@1''"
definition schema_state :: string where "schema_state = ''workroom/state@2''"
definition schema_state_v3 :: string where "schema_state_v3 = ''workroom/state@3''"
definition schema_ratify_legacy :: string where "schema_ratify_legacy = ''workroom/ratify@0''"
definition schema_ratify :: string where "schema_ratify = ''workroom/ratify@1''"
definition schema_supersede :: string where "schema_supersede = ''workroom/supersede@0''"
definition schema_supersede_v1 :: string where "schema_supersede_v1 = ''workroom/supersede@1''"
definition schema_retire_unclaimed :: string where
  "schema_retire_unclaimed = ''workroom/retire-if-unclaimed@0''"
definition schema_reassign_request :: string where
  "schema_reassign_request = ''workroom/reassign-if-unclaimed@0''"
definition schema_reassign_request_v1 :: string where
  "schema_reassign_request_v1 = ''workroom/reassign-if-unclaimed@1''"

lemmas schema_names = schema_state_legacy_def schema_state_v1_def schema_state_def
  schema_state_v3_def schema_ratify_legacy_def schema_ratify_def schema_supersede_def
  schema_supersede_v1_def schema_retire_unclaimed_def schema_reassign_request_def
  schema_reassign_request_v1_def

record state_payload =
  st_kind :: string
  st_text :: string
  st_body :: body_map

definition commitment_absent :: string where "commitment_absent = ''absent''"

record unclaimed_expectation =
  ux_request :: string
  ux_retirement :: string
  ux_promise :: string
  ux_completion :: string

datatype payload =
  PState state_payload
| PRatify (pr_target: string)
| PSupersede (ps_target: string) (ps_text: string)
| PSupersedeV1 string string body_map
| PRetireIfUnclaimed string string bool unclaimed_expectation
| PReassignIfUnclaimed string body_map unclaimed_expectation

text \<open>The Go type a schema decodes into.\<close>

datatype payload_class =
  ClassState | ClassRatify | ClassSupersede | ClassSupersedeV1 | ClassRetire | ClassReassign

definition schema_class :: "string \<Rightarrow> payload_class option" where
  "schema_class s =
     (if s = schema_state_legacy \<or> s = schema_state_v1 \<or> s = schema_state \<or> s = schema_state_v3
      then Some ClassState
      else if s = schema_ratify_legacy \<or> s = schema_ratify then Some ClassRatify
      else if s = schema_supersede then Some ClassSupersede
      else if s = schema_supersede_v1 then Some ClassSupersedeV1
      else if s = schema_retire_unclaimed then Some ClassRetire
      else if s = schema_reassign_request \<or> s = schema_reassign_request_v1
      then Some ClassReassign
      else None)"

record fold_lib = kind_lib +
  unmarshal_payload :: "payload_class \<Rightarrow> string \<Rightarrow> payload option"
  marshal_payload :: "payload \<Rightarrow> string"
  marshal_strings :: "string list \<Rightarrow> string"

section \<open>Validation\<close>

datatype payload_error =
  RatifyTargetRequired | SupersedeFieldsRequired | SupersedeBodyEmpty
| RetireFieldsRequired | ReplacementTextRequired | StateFieldsRequired | StateBodyEmpty
| ExpectationRequestRequired | ExpectationRetirementRequired | ExpectationRetirementForbidden
| ExpectationAbsenceRequired | UnsupportedSchema string | JsonRefused | NotCanonical

definition has_empty_entry :: "body_map \<Rightarrow> bool" where
  "has_empty_entry b \<longleftrightarrow> list_ex (\<lambda>(k, v). k = [] \<or> v = []) b"

definition validate_state :: "state_payload \<Rightarrow> payload_error option" where
  "validate_state s =
     (if st_kind s = [] \<or> st_text s = [] then Some StateFieldsRequired
      else if has_empty_entry (st_body s) then Some StateBodyEmpty else None)"

definition validate_unclaimed_expectation ::
  "unclaimed_expectation \<Rightarrow> bool \<Rightarrow> payload_error option" where
  "validate_unclaimed_expectation e replacement =
     (if ux_request e = [] then Some ExpectationRequestRequired
      else if replacement \<and> ux_retirement e = [] then Some ExpectationRetirementRequired
      else if \<not> replacement \<and> ux_retirement e \<noteq> [] then Some ExpectationRetirementForbidden
      else if ux_promise e \<noteq> commitment_absent \<or> ux_completion e \<noteq> commitment_absent
      then Some ExpectationAbsenceRequired else None)"

fun validate_payload :: "payload \<Rightarrow> payload_error option" where
  "validate_payload (PState s) = validate_state s"
| "validate_payload (PRatify t) = (if t = [] then Some RatifyTargetRequired else None)"
| "validate_payload (PSupersede t x) =
     (if t = [] \<or> x = [] then Some SupersedeFieldsRequired else None)"
| "validate_payload (PSupersedeV1 t x b) =
     (if t = [] \<or> x = [] then Some SupersedeFieldsRequired
      else if has_empty_entry b then Some SupersedeBodyEmpty else None)"
| "validate_payload (PRetireIfUnclaimed t x cited e) =
     (if t = [] \<or> x = [] then Some RetireFieldsRequired
      else validate_unclaimed_expectation e False)"
| "validate_payload (PReassignIfUnclaimed x b e) =
     (if x = [] then Some ReplacementTextRequired
      else case validate_state \<lparr>st_kind = kind_request, st_text = x, st_body = b\<rparr> of
        Some err \<Rightarrow> Some err
      | None \<Rightarrow> validate_unclaimed_expectation e True)"

section \<open>Canonical decoding\<close>

text \<open>
  \<open>canonicalJSONComparison\<close>: the writer that compares what the encoder writes with the bytes it
  was given, and tolerates exactly one newline after them.
\<close>

record comparison =
  cmp_want :: string
  cmp_offset :: nat
  cmp_equal :: bool

fun comparison_write :: "comparison \<Rightarrow> string \<Rightarrow> comparison" where
  "comparison_write c [] = c"
| "comparison_write c (v # content) =
     comparison_write
       (c\<lparr>cmp_equal := cmp_equal c \<and>
            (if cmp_offset c < length (cmp_want c) then v = cmp_want c ! cmp_offset c
             else if cmp_offset c = length (cmp_want c) then v = CHR 0x0A
             else False),
          cmp_offset := Suc (cmp_offset c)\<rparr>) content"

definition canonical_json_equal :: "('l) fold_lib_scheme \<Rightarrow> payload \<Rightarrow> string \<Rightarrow> bool" where
  "canonical_json_equal L v data =
     (let c = comparison_write \<lparr>cmp_want = data, cmp_offset = 0, cmp_equal = True\<rparr>
                (marshal_payload L v @ [CHR 0x0A])
      in cmp_equal c \<and> cmp_offset c = length data + 1)"

definition encode :: "('l) fold_lib_scheme \<Rightarrow> payload \<Rightarrow> payload_error + string" where
  "encode L v = (case validate_payload v of Some e \<Rightarrow> Inl e | None \<Rightarrow> Inr (marshal_payload L v))"

definition decode :: "('l) fold_lib_scheme \<Rightarrow> string \<Rightarrow> string \<Rightarrow> payload_error + payload" where
  "decode L schema data =
     (case schema_class schema of
        None \<Rightarrow> Inl (UnsupportedSchema schema)
      | Some cls \<Rightarrow>
         (case unmarshal_payload L cls data of
            None \<Rightarrow> Inl JsonRefused
          | Some v \<Rightarrow>
             (case validate_payload v of
                Some e \<Rightarrow> Inl e
              | None \<Rightarrow> if canonical_json_equal L v data then Inr v else Inl NotCanonical)))"

definition sorted_body_keys :: "body_map \<Rightarrow> string list" where
  "sorted_body_keys b = sort_strings (map fst b)"

section \<open>Lemmas\<close>

text \<open>The writer accepts exactly the wanted bytes and one newline, however they are split.\<close>

lemma comparison_write_append:
  "comparison_write c (xs @ ys) = comparison_write (comparison_write c xs) ys"
  by (induction c xs rule: comparison_write.induct) auto

lemma comparison_write_offset: "cmp_offset (comparison_write c xs) = cmp_offset c + length xs"
  by (induction c xs rule: comparison_write.induct) auto

lemma comparison_write_want [simp]: "cmp_want (comparison_write c xs) = cmp_want c"
  by (induction c xs rule: comparison_write.induct) auto

lemma comparison_write_equal:
  "cmp_offset c + length xs \<le> length (cmp_want c) \<Longrightarrow>
   cmp_equal (comparison_write c xs) \<longleftrightarrow>
     cmp_equal c \<and> xs = take (length xs) (drop (cmp_offset c) (cmp_want c))"
proof (induction c xs rule: comparison_write.induct)
  case (1 c)
  then show ?case by simp
next
  case (2 c v content)
  then have "drop (cmp_offset c) (cmp_want c) =
      cmp_want c ! cmp_offset c # drop (Suc (cmp_offset c)) (cmp_want c)"
    by (simp add: Cons_nth_drop_Suc)
  with 2 show ?case by auto
qed

lemma canonical_json_equal_iff: "canonical_json_equal L v data \<longleftrightarrow> marshal_payload L v = data"
proof -
  let ?c = "\<lparr>cmp_want = data, cmp_offset = 0, cmp_equal = True\<rparr>"
  let ?m = "marshal_payload L v"
  have len: "cmp_offset (comparison_write ?c (?m @ [CHR 0x0A])) = length ?m + 1"
    by (simp add: comparison_write_offset)
  show ?thesis
  proof (cases "length ?m = length data")
    case True
    then have "cmp_equal (comparison_write ?c ?m) \<longleftrightarrow> ?m = data"
      using comparison_write_equal [of ?c ?m] by simp
    with True len show ?thesis
      unfolding canonical_json_equal_def Let_def comparison_write_append
      by (simp add: comparison_write_offset)
  next
    case False
    with len show ?thesis
      unfolding canonical_json_equal_def Let_def by auto
  qed
qed

text \<open>
  Decoding is the exact inverse of encoding wherever the JSON library reads back what it wrote,
  and it accepts one byte string per payload.
\<close>

lemma decode_Inr:
  "decode L schema data = Inr v \<longleftrightarrow>
     (\<exists>cls. schema_class schema = Some cls \<and> unmarshal_payload L cls data = Some v)
     \<and> encode L v = Inr data"
  by (auto simp: decode_def encode_def canonical_json_equal_iff split: option.splits if_splits)

lemma decode_injective: "decode L s data = Inr v \<Longrightarrow> decode L s' data' = Inr v \<Longrightarrow> data = data'"
  by (auto simp: decode_Inr)

end
