(* ===== verification/WorkroomState.thy ===== *)
theory WorkroomState
  imports WorkroomSchema
begin

text \<open>
  The state of the workroom fold (\<open>internal/workroom/fold.go\<close>): the records it is fed, the
  decision it keeps for each, and the indexes it maintains. A \<open>*parsedRecord\<close> that sits in an
  index is never written again once its record has been appended, so the indexes hold the record
  by value. A Go map that is only looked up is a function or an option-valued function; one whose
  keys bound a walk (\<open>byID\<close>, \<open>effectiveSup\<close>) or that is ranged over (\<open>admittedClaims\<close>) is an
  association list. The string pool \<open>strings\<close> has no effect beyond sharing and is left out.
\<close>

section \<open>Verdicts and reasons\<close>

datatype verdict = Effective | Ineffective | Disputed | UndefinedKind | Uninterpretable

datatype choice_refusal =
  TargetNotInherit | NoGitArtifactNotTrue | NoResultStated | ManyResultsStated
| TripleIncomplete | TargetRepoMismatch | TargetRefInvalid | TargetHeadInvalid
| LandingNotHeld | HoldWithoutLanding | HoldOwnerWithoutHold

datatype result_refusal =
  ChoiceRefused choice_refusal | NoTargetToInherit | ConflictingTargetAncestry
| ConflictingHoldAncestry | HoldOwnerNeedsHold | HoldOwnerInherited | HoldOwnerNotLive

datatype release_refusal =
  OnlyHoldOwnerReleases string | ReleaseNeedsAuthorization | AuthorizationNotPerformers
| ReleaseRepoMismatch | ReleaseRefMismatch

datatype claim_refusal =
  ManyPromises | OnlyPromisorReports | NoUniqueRequest | ForeignRequestCited | ManyRequests
| OnlyPerformerReports | PromiseStillLive string | NoClaimCited

datatype basis_refusal =
  BasisCount string nat int int "string list"
| DanglingPromise | PromiseManyRequests | ReportNoClaim | ReportManyClaims

datatype state_reason =
  StatementRecorded | DepartedAuthor | UndefinedKindNamed string | WholeRepositoryPath
| CommaJoinedPath | FieldRefused field_error | KindUninterpretable kind_error
| BasisKindUndefined string | FirstEventNotSeed | OperatorSeed | BasisRefused basis_refusal
| PerformerNotLive | ResultRefused result_refusal | ReleaseRefused release_refusal
| PromiseRequestCount nat | PromiseNotPerformer | ClaimRefused claim_refusal
| OwesLandingVerdict string | OwesLandingReport string | ParticipantNeedsKind

datatype ratify_reason =
  RatifyUnknown | RatifyBasis | RatifyNotStatement | RatifyNotEffective | ActivationMoved
| RatifyRetired | LivePredecessor | BeneficiaryGrant | OperatorNeededToRatify
| NoOriginatingRequester | OnlyRequesterSatisfies | DepartedRequester | RequesterSatisfied
| LacksRole string | AuthorizedRatification | NotRatifiable

datatype supersede_reason =
  SupersedeUnknown | SupersedeBasis | DispositionNotAbandoned | DispositionWithoutHead
| HoldsApprovedHead string | SeedNotRetirable | OperatorNeededForMembership
| OperatorNeededToRestore | OperatorNeededForGrant | OperatorNeededToRestoreMembership
| RatifierNeeded | AuthorizedGovernance | AuthorizedSupersession | DepartedReceipt
| MergeAuthorized | MayNotSupersede

datatype unclaimed_reason =
  ExpectationMissing | NotOneRequest | RequestAmbiguous | AbsenceNotExplicit
| AdmittedPromises nat | AdmittedCompletions nat | RetirementNotExact | RequestNotLive
| RetirementBasis | NoRetirementNamed | RetirementNotGuarded | RetirementOtherRequest
| RetirementOtherAuthor | RetirementNotLast | ReplacementBasis

datatype reason =
  NoReason | VerdictWord verdict | IdActorRequired | DuplicateEvent
| PayloadRefused payload_error | InterpreterNotHeld
| StateReason state_reason | RatifyReason ratify_reason | SupersedeReason supersede_reason
| UnclaimedReason unclaimed_reason

record decision =
  dc_event :: string
  dc_verdict :: verdict
  dc_reason :: reason

section \<open>Records\<close>

record log_record =
  lr_id :: string
  lr_timestamp :: int
  lr_actor :: string
  lr_schema :: string
  lr_rests_on :: "string list"
  lr_payload :: string

datatype body =
  BState state_payload | BRatify string | BSupersede string string

record request_result =
  rr_landing :: bool
  rr_target_repo :: string
  rr_target_ref :: string
  rr_target_head :: string
  rr_inherited :: bool
  rr_held :: bool
  rr_hold_owner :: string
  rr_legacy :: bool
  rr_stated :: bool

datatype left_live_reason =
  LeftLiveNoReason | LeftLiveAbsent | LeftLiveNotJson | ChangedPathsInvalid
| ArtifactUnresolved | ArtifactNotLive | ArtifactAlsoRetired | NoChangedPathCovered
| CarriedNamesCommitment | CarriedNotWider | SiblingNamesNone | CommitmentNotUnsettled
| CommitmentNotReaching | AbandonedNamesCommitment | ProtectedByCommitment string
| UnknownLeftLiveClass | NotClassified

record left_live =
  ll_artifact :: string
  ll_class :: string
  ll_commitment :: string
  ll_verified :: bool
  ll_reason :: left_live_reason
  ll_path :: string
  ll_successor :: string
  ll_declared_deletion :: bool

record parsed_record =
  pr_record :: log_record
  pr_body :: "body option"
  pr_index :: nat
  pr_decision :: decision
  pr_definition :: "kind_definition option"
  pr_declared :: "kind_definition option"
  pr_merge_plan :: "body_map option"
  pr_published_paths :: "string list"
  pr_merge_artifacts :: body_map
  pr_accounting_present :: bool
  pr_left_live_present :: bool
  pr_changed_paths_present :: bool
  pr_changed_paths_valid :: bool
  pr_changed_paths :: "string list"
  pr_left_live :: "left_live list"
  pr_unaccounted :: "(string \<times> nat) list"
  pr_expectation :: "unclaimed_expectation option"
  pr_guarded_retirement :: bool
  pr_guarded_replacement :: bool
  pr_linked_successor :: string
  pr_result :: "request_result option"
  pr_own_standing :: bool
  pr_supersede_body :: body_map
  pr_carried_successor :: string
  pr_abandoned :: bool

definition no_decision :: decision where
  "no_decision = \<lparr>dc_event = [], dc_verdict = Ineffective, dc_reason = NoReason\<rparr>"

definition new_parsed :: "log_record \<Rightarrow> body option \<Rightarrow> nat \<Rightarrow> parsed_record" where
  "new_parsed r b i =
     \<lparr>pr_record = r, pr_body = b, pr_index = i, pr_decision = no_decision,
      pr_definition = None, pr_declared = None, pr_merge_plan = None, pr_published_paths = [],
      pr_merge_artifacts = [], pr_accounting_present = False, pr_left_live_present = False,
      pr_changed_paths_present = False, pr_changed_paths_valid = False, pr_changed_paths = [],
      pr_left_live = [], pr_unaccounted = [], pr_expectation = None,
      pr_guarded_retirement = False, pr_guarded_replacement = False,
      pr_linked_successor = [], pr_result = None, pr_own_standing = False,
      pr_supersede_body = [], pr_carried_successor = [], pr_abandoned = False\<rparr>"

abbreviation pr_id :: "parsed_record \<Rightarrow> string" where
  "pr_id r \<equiv> lr_id (pr_record r)"

abbreviation pr_actor :: "parsed_record \<Rightarrow> string" where
  "pr_actor r \<equiv> lr_actor (pr_record r)"

abbreviation pr_rests_on :: "parsed_record \<Rightarrow> string list" where
  "pr_rests_on r \<equiv> lr_rests_on (pr_record r)"

abbreviation pr_verdict :: "parsed_record \<Rightarrow> verdict" where
  "pr_verdict r \<equiv> dc_verdict (pr_decision r)"

text \<open>\<open>sequence\<close>: the position as a reader says it, counting the seed as 1.\<close>

definition pr_sequence :: "parsed_record \<Rightarrow> nat" where
  "pr_sequence r = pr_index r + 1"

section \<open>Role grants and the fold state\<close>

record role_grant =
  rg_actor :: string
  rg_name :: string
  rg_kind :: string
  rg_role :: string
  rg_statement :: string
  rg_ratification :: string
  rg_membership :: bool
  rg_membership_basis :: string

record report_claim =
  rc_claim :: parsed_record
  rc_request :: parsed_record
  rc_direct :: bool

record fold_transition =
  ft_activation :: string
  ft_ratification :: string
  ft_fold :: string
  ft_entry :: string
  ft_interface :: string
  ft_toolchain :: string
  ft_prefix :: bool

record fold_state =
  fs_records :: "parsed_record list"
  fs_byID :: "(string \<times> parsed_record) list"
  fs_decisions :: "string \<Rightarrow> decision option"
  fs_effective_sup :: "(string \<times> string) list"
  fs_supersessions :: "parsed_record list"
  fs_supersessions_by_target :: "string \<Rightarrow> parsed_record list"
  fs_retirement_causes :: "string \<Rightarrow> int"
  fs_role_grants :: "role_grant list"
  fs_role_grants_by_role :: "string \<times> string \<Rightarrow> role_grant list"
  fs_membership_grants :: "string \<times> string \<Rightarrow> role_grant list"
  fs_ratifications :: "string \<Rightarrow> string list"
  fs_admitted_claims :: "(string \<times> report_claim) list"
  fs_authorizations :: "string \<Rightarrow> parsed_record list"
  fs_abandonments :: "string \<Rightarrow> parsed_record list"
  fs_dependents :: "string \<times> lifecycle \<Rightarrow> parsed_record list"
  fs_definitions :: "string \<Rightarrow> kind_definition option"
  fs_definition_versions :: "string \<Rightarrow> parsed_record list"
  fs_transitions :: "fold_transition list"
  fs_beyond_seam :: bool

text \<open>The state \<open>NewFolder\<close> starts from.\<close>

definition new_fold_state :: fold_state where
  "new_fold_state =
     \<lparr>fs_records = [], fs_byID = [], fs_decisions = (\<lambda>_. None), fs_effective_sup = [],
      fs_supersessions = [], fs_supersessions_by_target = (\<lambda>_. []),
      fs_retirement_causes = (\<lambda>_. 0), fs_role_grants = [], fs_role_grants_by_role = (\<lambda>_. []),
      fs_membership_grants = (\<lambda>_. []), fs_ratifications = (\<lambda>_. []), fs_admitted_claims = [],
      fs_authorizations = (\<lambda>_. []), fs_abandonments = (\<lambda>_. []), fs_dependents = (\<lambda>_. []),
      fs_definitions = starter_catalog, fs_definition_versions = (\<lambda>_. []),
      fs_transitions = [], fs_beyond_seam = False\<rparr>"

section \<open>Reading the state\<close>

definition lookup :: "fold_state \<Rightarrow> string \<Rightarrow> parsed_record option" where
  "lookup f e = map_of (fs_byID f) e"

text \<open>\<open>f.decisions[e].Verdict == Effective\<close>; a missing key reads as the empty verdict.\<close>

definition effective_decision :: "fold_state \<Rightarrow> string \<Rightarrow> bool" where
  "effective_decision f e = (case fs_decisions f e of None \<Rightarrow> False | Some d \<Rightarrow> dc_verdict d = Effective)"

definition is_retired :: "fold_state \<Rightarrow> string \<Rightarrow> bool" where
  "is_retired f e \<longleftrightarrow> fs_retirement_causes f e \<noteq> 0"

definition state_of :: "parsed_record \<Rightarrow> state_payload option" where
  "state_of r = (case pr_body r of Some (BState s) \<Rightarrow> Some s | _ \<Rightarrow> None)"

text \<open>\<open>record.body.(*State).Body[k]\<close>; used only where the code has established a state body.\<close>

definition state_field :: "parsed_record \<Rightarrow> string \<Rightarrow> string" where
  "state_field r k = (case state_of r of None \<Rightarrow> [] | Some s \<Rightarrow> body_get (st_body s) k)"

definition lifecycle_of :: "parsed_record \<Rightarrow> lifecycle" where
  "lifecycle_of r = (case pr_definition r of None \<Rightarrow> LifecycleNone | Some d \<Rightarrow> kd_lifecycle d)"

definition satisfier_of :: "parsed_record \<Rightarrow> string" where
  "satisfier_of r = (case pr_definition r of None \<Rightarrow> [] | Some d \<Rightarrow> kd_satisfier d)"

definition renders_artifact :: "parsed_record \<Rightarrow> bool" where
  "renders_artifact r \<longleftrightarrow>
     (case pr_definition r of None \<Rightarrow> False | Some d \<Rightarrow> kd_render d = RenderArtifact)"

definition direct_dependents :: "fold_state \<Rightarrow> string \<Rightarrow> lifecycle \<Rightarrow> parsed_record list" where
  "direct_dependents f target lc = fs_dependents f (target, lc)"

fun bases_of_lifecycle :: "fold_state \<Rightarrow> string list \<Rightarrow> lifecycle \<Rightarrow> parsed_record list" where
  "bases_of_lifecycle f [] lc = []"
| "bases_of_lifecycle f (ref # refs) lc =
     (case lookup f ref of
        None \<Rightarrow> bases_of_lifecycle f refs lc
      | Some r \<Rightarrow>
          if \<not> effective_decision f ref \<or> pr_definition r = None
          then bases_of_lifecycle f refs lc
          else if lifecycle_of r = lc then r # bases_of_lifecycle f refs lc
          else bases_of_lifecycle f refs lc)"

definition live_claims :: "fold_state \<Rightarrow> string \<Rightarrow> parsed_record list" where
  "live_claims f request =
     filter (\<lambda>p. \<not> (is_retired f (pr_id p) \<or> \<not> effective_decision f (pr_id p)))
       (direct_dependents f request LifecyclePromise)"

text \<open>\<open>activeRatification\<close> walks the ratifications backwards; the empty string is "none".\<close>

definition active_ratification :: "fold_state \<Rightarrow> string \<Rightarrow> string" where
  "active_ratification f target =
     (case List.find (\<lambda>e. \<not> is_retired f e \<and> effective_decision f e)
             (rev (fs_ratifications f target)) of
        None \<Rightarrow> [] | Some e \<Rightarrow> e)"

definition is_ratified :: "fold_state \<Rightarrow> string \<Rightarrow> bool" where
  "is_ratified f target \<longleftrightarrow> active_ratification f target \<noteq> []"

definition is_artifact :: "fold_state \<Rightarrow> string \<Rightarrow> bool" where
  "is_artifact f e =
     (case lookup f e of
        None \<Rightarrow> False
      | Some r \<Rightarrow> pr_verdict r = Effective \<and> state_of r \<noteq> None \<and> renders_artifact r)"

text \<open>\<open>artifactPath\<close>: the path when there is one, which is the second result.\<close>

definition artifact_path :: "fold_state \<Rightarrow> string \<Rightarrow> string option" where
  "artifact_path f e =
     (case lookup f e of
        None \<Rightarrow> None
      | Some r \<Rightarrow> if \<not> renders_artifact r \<or> state_of r = None then None
                  else if state_field r ''path'' = [] then None
                  else Some (state_field r ''path''))"

section \<open>Paths\<close>

text \<open>
  \<open>pathCovers\<close>: the same path, or a directory that contains it. The directory is the successor
  without one trailing slash.
\<close>

definition path_covers :: "string \<Rightarrow> string \<Rightarrow> bool" where
  "path_covers successor predecessor =
     (if successor = [] \<or> predecessor = [] then False
      else if successor = predecessor then True
      else (let directory = trim_suffix_char (CHR ''/'') successor in
            length predecessor > length directory
            \<and> predecessor ! length directory = CHR ''/''
            \<and> take (length directory) predecessor = directory))"

definition same_tree_lineage :: "string \<Rightarrow> string \<Rightarrow> bool" where
  "same_tree_lineage one other \<longleftrightarrow> path_covers one other \<or> path_covers other one"

end
