(* ===== verification/WorkroomRetire.thy ===== *)
theory WorkroomRetire
  imports WorkroomState
begin

text \<open>
  Retirement (\<open>changeRetirement\<close> and \<open>retired\<close> of \<open>internal/workroom/fold.go\<close>). The fold keeps, for
  every event, the number of live supersessions naming it, and updates that counter along the
  chain of supersessions each time one lands. The counter is compared here with what retirement
  means: an event is retired exactly when a supersession that is not itself retired names it.

  The loop follows \<open>effectiveSup\<close> and has no bound of its own, so it is a partial function whose
  value \<open>None\<close> is "does not return"; it returns whenever supersessions name earlier events.
\<close>

section \<open>The loop\<close>

partial_function (option) propagate ::
  "(string \<times> string) list \<Rightarrow> (string \<Rightarrow> int) \<Rightarrow> string \<Rightarrow> int \<Rightarrow> string list \<Rightarrow>
   ((string \<Rightarrow> int) \<times> string list) option" where
  "propagate sups causes target delta changed =
     (if target = [] then Some (causes, changed)
      else (let held = causes target;
                after = (if held + delta \<le> 0 then 0 else held + delta);
                causes' = causes(target := after)
            in if (held \<noteq> 0) = (after \<noteq> 0) then Some (causes', changed)
               else (case map_of sups target of
                       None \<Rightarrow> Some (causes', changed @ [target])
                     | Some nxt \<Rightarrow> propagate sups causes' nxt (if after \<noteq> 0 then -1 else 1)
                                     (changed @ [target]))))"

declare propagate.simps [code]

definition change_retirement ::
  "fold_state \<Rightarrow> string \<Rightarrow> int \<Rightarrow> (fold_state \<times> string list) option" where
  "change_retirement f target delta =
     map_option (\<lambda>(causes, changed). (f\<lparr>fs_retirement_causes := causes\<rparr>, changed))
       (propagate (fs_effective_sup f) (fs_retirement_causes f) target delta [])"

lemmas propagate_step = propagate.simps [of sups causes target delta changed]
  for sups causes target delta changed

section \<open>What retirement means\<close>

text \<open>
  The supersessions of a log, newest first. Whether one is live is decided by the newer ones
  alone, so one pass from the newest to the oldest settles them all.
\<close>

fun live_from :: "(string \<times> string) list \<Rightarrow> (string \<times> string) list \<Rightarrow> (string \<times> string) list" where
  "live_from live [] = live"
| "live_from live ((i, t) # older) =
     live_from (if i \<in> snd ` set live then live else (i, t) # live) older"

definition live_supersessions :: "(string \<times> string) list \<Rightarrow> (string \<times> string) list" where
  "live_supersessions sups = live_from [] sups"

definition live_causes :: "(string \<times> string) list \<Rightarrow> string \<Rightarrow> nat" where
  "live_causes sups t = length (filter (\<lambda>(i, t'). t' = t) (live_supersessions sups))"

text \<open>The number of superseders the counters themselves call live.\<close>

definition counted :: "(string \<times> string) list \<Rightarrow> (string \<Rightarrow> int) \<Rightarrow> string \<Rightarrow> int" where
  "counted sups causes t = int (length (filter (\<lambda>(i, t'). t' = t \<and> causes i = 0) sups))"

definition balanced :: "(string \<times> string) list \<Rightarrow> (string \<Rightarrow> int) \<Rightarrow> bool" where
  "balanced sups causes \<longleftrightarrow> (\<forall>t. causes t = counted sups causes t)"

text \<open>
  Every supersession names something, ids are not repeated, and it names an event that is not a
  newer supersession nor itself.
\<close>

fun earlier_targets :: "(string \<times> string) list \<Rightarrow> bool" where
  "earlier_targets [] \<longleftrightarrow> True"
| "earlier_targets ((i, t) # older) \<longleftrightarrow>
     t \<noteq> [] \<and> i \<noteq> t \<and> i \<notin> fst ` set older \<and> i \<notin> snd ` set older \<and> earlier_targets older"

section \<open>Partial correctness of the loop\<close>

lemma counted_nonneg [simp]: "0 \<le> counted sups causes t"
  by (simp add: counted_def)

lemma counted_Nil [simp]: "counted [] causes t = 0"
  by (simp add: counted_def)

lemma counted_Cons:
  "counted ((i, t') # sups) causes t =
     (if t' = t \<and> causes i = 0 then 1 else 0) + counted sups causes t"
  by (simp add: counted_def)

lemma counted_unchanged:
  "(causes x = 0) = (v = 0) \<Longrightarrow> counted sups (causes(x := v)) t = counted sups causes t"
  by (induction sups) (auto simp: counted_Cons)

lemma counted_other:
  "x \<notin> fst ` set sups \<Longrightarrow> counted sups (causes(x := v)) t = counted sups causes t"
  by (induction sups) (auto simp: counted_Cons)

lemma counted_flip:
  assumes "distinct (map fst sups)" and "map_of sups x = Some nxt"
    and "(causes x = 0) \<noteq> (v = 0)"
  shows "counted sups (causes(x := v)) t =
    counted sups causes t + (if t = nxt then (if v = 0 then 1 else - 1) else 0)"
  using assms
proof (induction sups)
  case Nil
  then show ?case by simp
next
  case (Cons p sups)
  obtain i u where p: "p = (i, u)" by fastforce
  show ?case
  proof (cases "i = x")
    case True
    with Cons.prems p have "x \<notin> fst ` set sups" and "u = nxt" by auto
    then have "counted sups (causes(x := v)) t = counted sups causes t" and "u = nxt"
      using counted_other by auto
    with True Cons.prems(3) p show ?thesis
      unfolding counted_Cons p by (cases "v = 0"; cases "t = nxt") simp_all
  next
    case False
    with Cons p show ?thesis
      by (auto simp: counted_Cons)
  qed
qed

text \<open>
  The loop's invariant: the counters are exact except at the target it holds, where the change
  still to be made is the difference.
\<close>

definition off_by :: "(string \<times> string) list \<Rightarrow> (string \<Rightarrow> int) \<Rightarrow> string \<Rightarrow> int \<Rightarrow> bool" where
  "off_by sups causes target delta \<longleftrightarrow>
     (\<forall>t. causes t + (if t = target then delta else 0) = counted sups causes t)"

lemma balancedI: "(\<And>t. causes t = counted sups causes t) \<Longrightarrow> balanced sups causes"
  unfolding balanced_def by (rule allI)

lemma balancedD: "balanced sups causes \<Longrightarrow> causes t = counted sups causes t"
  by (simp only: balanced_def)

lemma off_byI:
  "(\<And>t. causes t + (if t = target then delta else 0) = counted sups causes t) \<Longrightarrow>
   off_by sups causes target delta"
  unfolding off_by_def by (rule allI)

lemma off_byD:
  "off_by sups causes target delta \<Longrightarrow>
   counted sups causes t = causes t + (if t = target then delta else 0)"
  by (simp only: off_by_def)

lemma off_by_settled:
  assumes "off_by sups causes target delta" and "after = causes target + delta"
    and "(causes target \<noteq> 0) = (after \<noteq> 0)"
  shows "balanced sups (causes(target := after))"
proof (rule balancedI)
  fix t
  have "counted sups (causes(target := after)) t = counted sups causes t"
    using assms(3) by (intro counted_unchanged) simp
  then show "(causes(target := after)) t = counted sups (causes(target := after)) t"
    by (simp only: off_byD [OF assms(1)]) (simp add: assms(2))
qed

lemma off_by_step:
  assumes "off_by sups causes target delta" and "after = causes target + delta"
    and "(causes target \<noteq> 0) \<noteq> (after \<noteq> 0)"
    and "distinct (map fst sups)" and "map_of sups target = Some nxt"
  shows "off_by sups (causes(target := after)) nxt (if after \<noteq> 0 then - 1 else 1)"
proof (rule off_byI)
  fix t
  have "counted sups (causes(target := after)) t =
      counted sups causes t + (if t = nxt then (if after = 0 then 1 else - 1) else 0)"
    using assms(3-5) by (intro counted_flip) simp_all
  then show "(causes(target := after)) t + (if t = nxt then if after \<noteq> 0 then - 1 else 1 else 0)
      = counted sups (causes(target := after)) t"
    by (simp only: off_byD [OF assms(1)]) (simp add: assms(2))
qed

lemma off_by_last:
  assumes "off_by sups causes target delta" and "after = causes target + delta"
    and "map_of sups target = None"
  shows "balanced sups (causes(target := after))"
proof (rule balancedI)
  fix t
  have "counted sups (causes(target := after)) t = counted sups causes t"
    using assms(3) by (simp add: counted_other map_of_eq_None_iff)
  then show "(causes(target := after)) t = counted sups (causes(target := after)) t"
    by (simp only: off_byD [OF assms(1)]) (simp add: assms(2))
qed

lemma off_by_after:
  assumes "off_by sups causes target delta"
  shows "(if causes target + delta \<le> 0 then 0 else causes target + delta) = causes target + delta"
  using counted_nonneg [of sups causes target] off_byD [OF assms, of target] by auto

lemma propagate_unfold:
  assumes "off_by sups causes target delta" and "target \<noteq> []"
  shows "propagate sups causes target delta changed =
    (let after = causes target + delta; causes' = causes(target := after)
     in if (causes target \<noteq> 0) = (after \<noteq> 0) then Some (causes', changed)
        else (case map_of sups target of
                None \<Rightarrow> Some (causes', changed @ [target])
              | Some nxt \<Rightarrow> propagate sups causes' nxt (if after \<noteq> 0 then -1 else 1)
                              (changed @ [target])))"
  by (subst propagate_step) (simp only: Let_def off_by_after [OF assms(1)] assms(2) if_False)

section \<open>Termination\<close>

fun position_of :: "(string \<times> string) list \<Rightarrow> string \<Rightarrow> nat" where
  "position_of [] x = 0"
| "position_of ((i, t) # older) x = (if i = x then Suc (length older) else position_of older x)"

lemma position_of_le: "position_of sups x \<le> length sups"
  by (induction sups x rule: position_of.induct) auto

lemma position_of_decreases:
  "earlier_targets sups \<Longrightarrow> map_of sups x = Some nxt \<Longrightarrow> position_of sups nxt < position_of sups x"
proof (induction sups x rule: position_of.induct)
  case (2 i t older x)
  then show ?case
  proof (cases "i = x")
    case True
    then show ?thesis
      using 2(2,3) position_of_le [of older nxt] by auto
  next
    case False
    moreover from this have "i \<noteq> nxt"
      using 2(2,3) by (auto dest!: map_of_SomeD simp: rev_image_eqI)
    ultimately show ?thesis
      using 2 by auto
  qed
qed simp

lemma earlier_targets_distinct: "earlier_targets sups \<Longrightarrow> distinct (map fst sups)"
  by (induction sups rule: earlier_targets.induct) auto

lemma earlier_targets_nonempty: "earlier_targets sups \<Longrightarrow> map_of sups x = Some t \<Longrightarrow> t \<noteq> []"
  by (induction sups rule: earlier_targets.induct) (auto split: if_splits)

lemma propagate_balances:
  assumes "earlier_targets sups" and "off_by sups causes target delta" and "target \<noteq> []"
  shows "\<exists>causes' changed'. propagate sups causes target delta changed = Some (causes', changed')
    \<and> balanced sups causes'"
  using assms
proof (induction "position_of sups target" arbitrary: causes target delta changed
       rule: less_induct)
  case less
  note unfold = propagate_unfold [OF less.prems(2,3), of changed]
  show ?case
  proof (cases "(causes target \<noteq> 0) = (causes target + delta \<noteq> 0)")
    case True
    then show ?thesis
      using unfold off_by_settled [OF less.prems(2) refl True] by simp
  next
    case False
    show ?thesis
    proof (cases "map_of sups target")
      case None
      then show ?thesis
        using unfold off_by_last [OF less.prems(2) refl None] False by simp
    next
      case (Some nxt)
      note step = off_by_step [OF less.prems(2) refl False
          earlier_targets_distinct [OF less.prems(1)] Some]
      show ?thesis
        using less.hyps [OF position_of_decreases [OF less.prems(1) Some] less.prems(1) step
            earlier_targets_nonempty [OF less.prems(1) Some], of "changed @ [target]"]
          unfold False Some by (simp add: Let_def)
    qed
  qed
qed

section \<open>The counters are the number of live superseders\<close>

lemma live_from_append: "live_from live (xs @ ys) = live_from (live_from live xs) ys"
  by (induction live xs rule: live_from.induct) auto

definition superseded :: "(string \<times> string) list \<Rightarrow> (string \<Rightarrow> int) \<Rightarrow> string \<Rightarrow> bool" where
  "superseded sups causes x \<longleftrightarrow> (\<exists>j. (j, x) \<in> set sups \<and> causes j = 0)"

lemma superseded_Nil [simp]: "\<not> superseded [] causes x"
  by (simp add: superseded_def)

lemma superseded_Cons [simp]:
  "superseded ((i, t) # sups) causes x \<longleftrightarrow> (t = x \<and> causes i = 0) \<or> superseded sups causes x"
  by (auto simp: superseded_def)

lemma superseded_target: "superseded sups causes x \<Longrightarrow> x \<in> snd ` set sups"
  by (force simp: superseded_def)

lemma counted_zero: "counted sups causes t = 0 \<longleftrightarrow> \<not> superseded sups causes t"
proof (induction sups)
  case (Cons p sups)
  obtain i u where p: "p = (i, u)" by fastforce
  have "1 + counted sups causes t \<noteq> 0"
    using counted_nonneg [of sups causes t] by linarith
  with Cons show ?case
    by (simp add: p counted_Cons)
qed simp

text \<open>Balanced counters decide liveness the way the pass from the newest does.\<close>

lemma live_from_counted:
  assumes "earlier_targets sups"
    and "\<And>i t. (i, t) \<in> set sups \<Longrightarrow>
           causes i = 0 \<longleftrightarrow> i \<notin> snd ` set live \<and> \<not> superseded sups causes i"
  shows "int (length (filter (\<lambda>(i, t'). t' = t) (live_from live sups))) =
    int (length (filter (\<lambda>(i, t'). t' = t) live)) + counted sups causes t"
  using assms
proof (induction live sups rule: live_from.induct)
  case (1 live)
  then show ?case by simp
next
  case (2 live i t' older)
  let ?live = "if i \<in> snd ` set live then live else (i, t') # live"
  have older: "earlier_targets older" and fresh: "i \<noteq> t'" "i \<notin> snd ` set older"
    using 2(2) by auto
  then have now: "causes i = 0 \<longleftrightarrow> i \<notin> snd ` set live"
    using 2(3) [of i t'] superseded_target [of older causes i] by auto
  have rest: "causes j = 0 \<longleftrightarrow> j \<notin> snd ` set ?live \<and> \<not> superseded older causes j"
    if "(j, u) \<in> set older" for j u
    using 2(3) [of j u] that now by auto
  show ?case
    using 2(1) [OF older rest] now by (simp add: counted_Cons)
qed

lemma balanced_live_causes:
  assumes "earlier_targets sups" and "balanced sups causes"
  shows "causes t = int (live_causes sups t)"
proof -
  have "causes i = 0 \<longleftrightarrow> i \<notin> snd ` set [] \<and> \<not> superseded sups causes i" for i
    using balancedD [OF assms(2), of i] counted_zero [of sups causes i] by simp
  then show ?thesis
    using live_from_counted [OF assms(1), of causes "[]" t] balancedD [OF assms(2), of t]
    by (simp add: live_causes_def live_supersessions_def)
qed

text \<open>Landing one more supersession, in the terms of the fold: the loop and the new entry.\<close>

lemma balanced_new:
  assumes "balanced sups causes" and "i \<notin> snd ` set sups"
  shows "off_by ((i, t) # sups) causes t 1"
proof (rule off_byI)
  fix u
  have "causes i = 0"
    using assms counted_zero [of sups causes i] superseded_target [of sups causes i]
      balancedD [OF assms(1), of i] by auto
  then show "causes u + (if u = t then 1 else 0) = counted ((i, t) # sups) causes u"
    using balancedD [OF assms(1), of u] by (simp add: counted_Cons)
qed

lemma propagate_new:
  assumes "balanced sups causes" and "earlier_targets ((i, t) # sups)"
  shows "\<exists>causes' changed. propagate ((i, t) # sups) causes t 1 [] = Some (causes', changed)
    \<and> balanced ((i, t) # sups) causes'"
proof (rule propagate_balances [OF assms(2)])
  show "off_by ((i, t) # sups) causes t 1" and "t \<noteq> []"
    using assms(2) by (auto intro: balanced_new [OF assms(1)])
qed

end
