(* ===== verification/WorkroomRoles.thy ===== *)
theory WorkroomRoles
  imports WorkroomRetire
begin

text \<open>
  Roster authority and commitment claims of \<open>internal/workroom/fold.go\<close>: the compatibility reading of a
  roster statement, the grants it gives once in force, who holds a role now, which roster
  statement an act of governance changes, the bases a definition asks for, and the commitment a
  report answers.
\<close>

section \<open>Roster vocabulary\<close>

definition role_operator :: string where "role_operator = ''operator''"
definition role_participant :: string where "role_participant = ''participant''"
definition role_ratifier :: string where "role_ratifier = ''ratifier''"
definition actor_human :: string where "actor_human = ''human''"
definition actor_agent :: string where "actor_agent = ''agent''"
definition actor_service :: string where "actor_service = ''service''"
definition actor_unspecified :: string where "actor_unspecified = ''unspecified''"

lemmas role_names = role_operator_def role_participant_def role_ratifier_def
  actor_human_def actor_agent_def actor_service_def actor_unspecified_def

lemma role_names_distinct [simp]:
  "role_operator \<noteq> role_participant" "role_participant \<noteq> role_operator"
  "role_operator \<noteq> role_ratifier" "role_ratifier \<noteq> role_operator"
  "role_participant \<noteq> role_ratifier" "role_ratifier \<noteq> role_participant"
  "role_operator \<noteq> []" "role_participant \<noteq> []" "role_ratifier \<noteq> []"
  by (simp_all add: role_names)

record normalized_roster =
  nr_membership :: bool
  nr_kind :: string
  nr_role :: string

definition normalize_roster_state :: "string \<Rightarrow> string \<Rightarrow> normalized_roster" where
  "normalize_roster_state kind role =
     (let base = \<lparr>nr_membership = (kind = [] \<or> role = role_participant),
                  nr_kind = kind, nr_role = role\<rparr>;
          legacy = (if kind = [] then
                      if role = actor_agent \<or> role = actor_human \<or> role = actor_service
                      then base\<lparr>nr_kind := role, nr_role := []\<rparr>
                      else if role = role_operator then base\<lparr>nr_kind := actor_human\<rparr>
                      else base\<lparr>nr_kind := actor_unspecified\<rparr>
                    else base)
      in if role = role_participant then legacy\<lparr>nr_role := []\<rparr> else legacy)"

definition is_actor_kind :: "string \<Rightarrow> bool" where
  "is_actor_kind word \<longleftrightarrow>
     nr_kind (normalize_roster_state [] word) = word \<and> nr_role (normalize_roster_state [] word) = []"

section \<open>Grants\<close>

definition index_role_grant :: "role_grant \<Rightarrow> string \<Rightarrow> fold_state \<Rightarrow> fold_state" where
  "index_role_grant grant role f =
     (let key = (rg_actor grant, role); held = fs_role_grants_by_role f in
      f\<lparr>fs_role_grants_by_role := held(key := held key @ [grant])\<rparr>)"

definition make_role_grant ::
  "string \<Rightarrow> string \<Rightarrow> string \<Rightarrow> string \<Rightarrow> string \<Rightarrow> string \<Rightarrow> string list \<Rightarrow> role_grant" where
  "make_role_grant actor name kind role statement ratification rests_on =
     (let n = normalize_roster_state kind role;
          membership = (nr_membership n \<or> ratification = [])
      in \<lparr>rg_actor = actor, rg_name = name, rg_kind = nr_kind n,
          rg_role = (if nr_role n = [] then role_participant else nr_role n),
          rg_statement = statement, rg_ratification = ratification, rg_membership = membership,
          rg_membership_basis = (if \<not> membership \<and> rests_on \<noteq> [] then hd rests_on else [])\<rparr>)"

definition store_role_grant :: "role_grant \<Rightarrow> fold_state \<Rightarrow> fold_state" where
  "store_role_grant g f =
     (let f1 = index_role_grant g (rg_role g) (f\<lparr>fs_role_grants := fs_role_grants f @ [g]\<rparr>);
          f2 = (if rg_membership g \<and> rg_role g \<noteq> role_participant
                then index_role_grant g role_participant f1 else f1);
          f3 = (if rg_role g = role_operator then index_role_grant g role_ratifier f2 else f2);
          key = (rg_actor g, rg_statement g)
      in if rg_membership g
         then f3\<lparr>fs_membership_grants :=
                  (fs_membership_grants f3)(key := fs_membership_grants f3 key @ [g])\<rparr>
         else f3)"

definition add_role_grant ::
  "string \<Rightarrow> string \<Rightarrow> string \<Rightarrow> string \<Rightarrow> string \<Rightarrow> string \<Rightarrow> string list \<Rightarrow>
   fold_state \<Rightarrow> fold_state" where
  "add_role_grant actor name kind role statement ratification rests_on f =
     (if actor = [] \<or> role = [] then f
      else store_role_grant (make_role_grant actor name kind role statement ratification rests_on) f)"

definition role_grant_direct_active :: "fold_state \<Rightarrow> role_grant \<Rightarrow> bool" where
  "role_grant_direct_active f g \<longleftrightarrow>
     (if is_retired f (rg_statement g) \<or> \<not> effective_decision f (rg_statement g) then False
      else if rg_ratification g = [] then True
      else \<not> is_retired f (rg_ratification g) \<and> effective_decision f (rg_ratification g))"

definition membership_grant_active :: "fold_state \<Rightarrow> string \<Rightarrow> string \<Rightarrow> bool" where
  "membership_grant_active f actor statement \<longleftrightarrow>
     list_ex (role_grant_direct_active f) (fs_membership_grants f (actor, statement))"

definition role_grant_active :: "fold_state \<Rightarrow> role_grant \<Rightarrow> bool" where
  "role_grant_active f g \<longleftrightarrow>
     (if \<not> role_grant_direct_active f g then False
      else if rg_membership g then True
      else rg_membership_basis g \<noteq> []
           \<and> membership_grant_active f (rg_actor g) (rg_membership_basis g))"

definition has_role :: "fold_state \<Rightarrow> string \<Rightarrow> string \<Rightarrow> bool" where
  "has_role f actor role \<longleftrightarrow> list_ex (role_grant_active f) (fs_role_grants_by_role f (actor, role))"

definition has_actor :: "fold_state \<Rightarrow> string \<Rightarrow> bool" where
  "has_actor f actor \<longleftrightarrow> has_role f actor role_participant"

definition membership_carries_operator :: "fold_state \<Rightarrow> string \<Rightarrow> string \<Rightarrow> bool" where
  "membership_carries_operator f actor statement \<longleftrightarrow>
     has_role f actor role_operator
     \<or> list_ex (\<lambda>g. rg_membership_basis g = statement \<and> role_grant_direct_active f g)
         (fs_role_grants_by_role f (actor, role_operator))"

text \<open>
  \<open>governanceTarget\<close> follows targets without remembering where it has been, so it is partial; the
  inner option is its \<open>ok\<close> result.
\<close>

partial_function (option) governance_walk ::
  "fold_state \<Rightarrow> bool \<Rightarrow> string \<Rightarrow> (parsed_record \<times> bool) option option" where
  "governance_walk f restoring event =
     (if event = [] then Some None
      else (case lookup f event of
              None \<Rightarrow> Some None
            | Some r \<Rightarrow>
                (case pr_body r of
                   None \<Rightarrow> Some None
                 | Some (BState s) \<Rightarrow>
                     if st_kind s \<noteq> kind_roster then Some None else Some (Some (r, restoring))
                 | Some (BRatify t) \<Rightarrow> governance_walk f restoring t
                 | Some (BSupersede t x) \<Rightarrow> governance_walk f (\<not> restoring) t)))"

declare governance_walk.simps [code]

definition governance_target ::
  "fold_state \<Rightarrow> string \<Rightarrow> (parsed_record \<times> bool) option option" where
  "governance_target f event = governance_walk f False event"

section \<open>Bases and claims\<close>

text \<open>\<open>validateBasis\<close>: the first constraint of the definition whose count is out of range.\<close>

definition basis_count :: "fold_state \<Rightarrow> parsed_record \<Rightarrow> string list \<Rightarrow> nat" where
  "basis_count f r kinds =
     length (filter
       (\<lambda>ref. case lookup f ref of
                None \<Rightarrow> False
              | Some b \<Rightarrow> effective_decision f ref
                          \<and> (case state_of b of None \<Rightarrow> False | Some s \<Rightarrow> st_kind s \<in> set kinds))
       (pr_rests_on r))"

definition basis_reason :: "kind_definition \<Rightarrow> basis_constraint \<Rightarrow> nat \<Rightarrow> basis_refusal" where
  "basis_reason d c count =
     (case kd_lifecycle d of
        LifecyclePromise \<Rightarrow> if count = 0 then DanglingPromise else PromiseManyRequests
      | LifecycleReport \<Rightarrow> if count = 0 then ReportNoClaim else ReportManyClaims
      | _ \<Rightarrow> BasisCount (kd_name d) count (bc_min c) (bc_max c) (bc_kinds c))"

fun validate_basis ::
  "fold_state \<Rightarrow> parsed_record \<Rightarrow> kind_definition \<Rightarrow> basis_constraint list \<Rightarrow>
   (verdict \<times> basis_refusal) option" where
  "validate_basis f r d [] = None"
| "validate_basis f r d (c # cs) =
     (let count = basis_count f r (bc_kinds c) in
      if bc_min c \<le> int count \<and> int count \<le> bc_max c then validate_basis f r d cs
      else Some (if bc_max c < int count then Disputed else Ineffective, basis_reason d c count))"

text \<open>\<open>reportClaim\<close>: the commitment a report answers, or why it answers none.\<close>

definition report_claim ::
  "fold_state \<Rightarrow> parsed_record \<Rightarrow> (verdict \<times> claim_refusal) + report_claim" where
  "report_claim f r =
     (let promises = bases_of_lifecycle f (pr_rests_on r) LifecyclePromise;
          requests = bases_of_lifecycle f (pr_rests_on r) LifecycleRequest
      in case promises of
           _ # _ # _ \<Rightarrow> Inl (Disputed, ManyPromises)
         | [promise] \<Rightarrow>
             if pr_actor promise \<noteq> pr_actor r then Inl (Ineffective, OnlyPromisorReports)
             else (case bases_of_lifecycle f (pr_rests_on promise) LifecycleRequest of
                     [governing] \<Rightarrow>
                       if list_ex (\<lambda>cited. pr_id cited \<noteq> pr_id governing) requests
                       then Inl (Ineffective, ForeignRequestCited)
                       else Inr \<lparr>rc_claim = promise, rc_request = governing, rc_direct = False\<rparr>
                   | _ \<Rightarrow> Inl (Ineffective, NoUniqueRequest))
         | [] \<Rightarrow>
             (case requests of
                _ # _ # _ \<Rightarrow> Inl (Disputed, ManyRequests)
              | [request] \<Rightarrow>
                  if state_field request ''to'' \<noteq> pr_actor r
                  then Inl (Ineffective, OnlyPerformerReports)
                  else (case List.find (\<lambda>p. pr_actor p = pr_actor r)
                               (live_claims f (pr_id request)) of
                          Some p \<Rightarrow> Inl (Ineffective, PromiseStillLive (pr_id p))
                        | None \<Rightarrow> Inr \<lparr>rc_claim = request, rc_request = request,
                                       rc_direct = True\<rparr>)
              | [] \<Rightarrow> Inl (Ineffective, NoClaimCited)))"

section \<open>Lemmas\<close>

text \<open>The four descriptive kinds of the vocabulary: \<open>unspecified\<close> is not one of them.\<close>

lemma is_actor_kind_iff:
  "is_actor_kind word \<longleftrightarrow> word = actor_agent \<or> word = actor_human \<or> word = actor_service"
  unfolding is_actor_kind_def normalize_roster_state_def Let_def
  by (auto simp: role_names)

lemma index_role_grant_frame [frame_simps]:
  "fs_records (index_role_grant g role f) = fs_records f"
  "fs_byID (index_role_grant g role f) = fs_byID f"
  "fs_decisions (index_role_grant g role f) = fs_decisions f"
  "fs_effective_sup (index_role_grant g role f) = fs_effective_sup f"
  "fs_retirement_causes (index_role_grant g role f) = fs_retirement_causes f"
  "fs_role_grants (index_role_grant g role f) = fs_role_grants f"
  "fs_membership_grants (index_role_grant g role f) = fs_membership_grants f"
  "fs_definitions (index_role_grant g role f) = fs_definitions f"
  "fs_transitions (index_role_grant g role f) = fs_transitions f"
  "fs_ratifications (index_role_grant g role f) = fs_ratifications f"
  by (simp_all add: index_role_grant_def Let_def)

lemma add_role_grant_frame [frame_simps]:
  "fs_records (add_role_grant a n k r s t b f) = fs_records f"
  "fs_byID (add_role_grant a n k r s t b f) = fs_byID f"
  "fs_decisions (add_role_grant a n k r s t b f) = fs_decisions f"
  "fs_effective_sup (add_role_grant a n k r s t b f) = fs_effective_sup f"
  "fs_retirement_causes (add_role_grant a n k r s t b f) = fs_retirement_causes f"
  "fs_definitions (add_role_grant a n k r s t b f) = fs_definitions f"
  "fs_transitions (add_role_grant a n k r s t b f) = fs_transitions f"
  "fs_ratifications (add_role_grant a n k r s t b f) = fs_ratifications f"
  by (simp_all add: add_role_grant_def store_role_grant_def Let_def frame_simps)

text \<open>Every grant under a role key belongs to the actor of the key.\<close>

definition grants_indexed :: "fold_state \<Rightarrow> bool" where
  "grants_indexed f \<longleftrightarrow>
     (\<forall>actor role g. g \<in> set (fs_role_grants_by_role f (actor, role)) \<longrightarrow>
        rg_actor g = actor \<and> g \<in> set (fs_role_grants f)
        \<and> (role = rg_role g \<or> (role = role_participant \<and> rg_membership g)
           \<or> (role = role_ratifier \<and> rg_role g = role_operator)))
     \<and> (\<forall>actor s g. g \<in> set (fs_membership_grants f (actor, s)) \<longrightarrow>
          rg_actor g = actor \<and> rg_statement g = s \<and> rg_membership g \<and> g \<in> set (fs_role_grants f))"

lemma bases_of_lifecycle_sound:
  "r \<in> set (bases_of_lifecycle f refs lc) \<Longrightarrow>
   \<exists>ref \<in> set refs. lookup f ref = Some r \<and> effective_decision f ref
     \<and> pr_definition r \<noteq> None \<and> lifecycle_of r = lc"
  by (induction f refs lc rule: bases_of_lifecycle.induct) (auto split: option.splits if_splits)

text \<open>
  What an admitted claim guarantees: the request is a request this record can reach, and the
  reporter is the promisor of the one promise cited, or the performer the request names, with no
  live promise of its own on that request.
\<close>

lemma report_claim_promised:
  assumes "report_claim f r = Inr c" and "\<not> rc_direct c"
  shows "bases_of_lifecycle f (pr_rests_on r) LifecyclePromise = [rc_claim c]
    \<and> bases_of_lifecycle f (pr_rests_on (rc_claim c)) LifecycleRequest = [rc_request c]
    \<and> pr_actor (rc_claim c) = pr_actor r"
  using assms by (auto simp: report_claim_def Let_def split: list.splits if_splits option.splits)

lemma report_claim_direct:
  assumes "report_claim f r = Inr c" and "rc_direct c"
  shows "bases_of_lifecycle f (pr_rests_on r) LifecyclePromise = []
    \<and> bases_of_lifecycle f (pr_rests_on r) LifecycleRequest = [rc_request c]
    \<and> rc_claim c = rc_request c \<and> state_field (rc_request c) ''to'' = pr_actor r
    \<and> (\<forall>p \<in> set (live_claims f (pr_id (rc_request c))). pr_actor p \<noteq> pr_actor r)"
  using assms
  by (auto simp: report_claim_def Let_def find_None_iff split: list.splits if_splits option.splits)

end
