(* ===== verification/WorkroomLanding.thy ===== *)
theory WorkroomLanding
  imports WorkroomRoles
begin

text \<open>
  \<open>internal/workroom/landing.go\<close>: the result choice a request states, the destination and hold it
  may inherit, the release of a hold, the approved head a commitment carries, and what a
  supersession must say about it. An empty refusal string is \<open>None\<close>.
\<close>

definition target_inherit_depth :: nat where "target_inherit_depth = 8"
definition branch_ref_prefix :: string where "branch_ref_prefix = ''refs/heads/''"
definition legacy_target_ref :: string where "legacy_target_ref = ''refs/heads/main''"
definition incorporation_prior :: string where "incorporation_prior = ''prior''"

definition no_result :: request_result where
  "no_result = \<lparr>rr_landing = False, rr_target_repo = [], rr_target_ref = [], rr_target_head = [],
                rr_inherited = False, rr_held = False, rr_hold_owner = [], rr_legacy = False,
                rr_stated = False\<rparr>"

definition same_destination :: "request_result \<Rightarrow> request_result \<Rightarrow> bool" where
  "same_destination r other \<longleftrightarrow>
     rr_target_repo r = rr_target_repo other \<and> rr_target_ref r = rr_target_ref other"

definition same_target :: "request_result \<Rightarrow> request_result \<Rightarrow> bool" where
  "same_target r other \<longleftrightarrow> same_destination r other \<and> rr_target_head r = rr_target_head other"

definition states_request_result :: "string \<Rightarrow> bool" where
  "states_request_result schema \<longleftrightarrow>
     schema = schema_state_v3 \<or> schema = schema_reassign_request_v1"

definition workroom_of :: "string \<Rightarrow> string" where
  "workroom_of event =
     (case cut_char (CHR ''#'') event of (workroom, rest, found) \<Rightarrow>
        if \<not> found then [] else workroom)"

section \<open>The shapes a body may state\<close>

definition valid_branch_ref :: "string \<Rightarrow> bool" where
  "valid_branch_ref ref \<longleftrightarrow>
     (if \<not> has_prefix branch_ref_prefix ref \<or> length ref > 256 then False
      else if has_substring ''..'' ref then False
      else if list_ex (\<lambda>c. (of_char c :: nat) < 32 \<or> (of_char c :: nat) = 127) ref then False
      else \<not> list_ex (\<lambda>component. component = [] \<or> component = ''.'')
               (split_char (CHR ''/'') (trim_prefix branch_ref_prefix ref)))"

definition is_object_id :: "string \<Rightarrow> bool" where
  "is_object_id v \<longleftrightarrow>
     (if length v \<noteq> 40 \<and> length v \<noteq> 64 then False
      else \<not> list_ex (\<lambda>c. ((of_char c :: nat) < 48 \<or> (of_char c :: nat) > 57)
                          \<and> ((of_char c :: nat) < 97 \<or> (of_char c :: nat) > 102)) v)"

record request_choice =
  ch_landing :: bool
  ch_inherit :: bool
  ch_no_git :: bool
  ch_target_repo :: string
  ch_target_ref :: string
  ch_target_head :: string
  ch_held :: bool
  ch_hold_owner :: string

definition no_choice :: request_choice where
  "no_choice = \<lparr>ch_landing = False, ch_inherit = False, ch_no_git = False, ch_target_repo = [],
                ch_target_ref = [], ch_target_head = [], ch_held = False, ch_hold_owner = []\<rparr>"

text \<open>\<open>body[k]\<close> in the two-result form.\<close>

definition stated :: "body_map \<Rightarrow> string \<Rightarrow> string option" where
  "stated b k = (if body_has b k then Some (body_get b k) else None)"

definition read_encoding ::
  "body_map \<Rightarrow> choice_refusal + request_choice" where
  "read_encoding b =
     (case stated b ''target'' of
        Some v \<Rightarrow> if v \<noteq> ''inherit'' then Inl TargetNotInherit else
                  (case stated b ''no_git_artifact'' of
                     Some w \<Rightarrow> if w \<noteq> ''true'' then Inl NoGitArtifactNotTrue
                               else Inr (no_choice\<lparr>ch_inherit := True, ch_no_git := True\<rparr>)
                   | None \<Rightarrow> Inr (no_choice\<lparr>ch_inherit := True\<rparr>))
      | None \<Rightarrow> (case stated b ''no_git_artifact'' of
                   Some w \<Rightarrow> if w \<noteq> ''true'' then Inl NoGitArtifactNotTrue
                             else Inr (no_choice\<lparr>ch_no_git := True\<rparr>)
                 | None \<Rightarrow> Inr no_choice))"

definition encodings :: "bool list \<Rightarrow> nat" where
  "encodings bs = length (filter id bs)"

definition read_triple ::
  "string \<Rightarrow> body_map \<Rightarrow> request_choice \<Rightarrow> choice_refusal + request_choice" where
  "read_triple workroom b choice =
     (let repo = body_get b ''target_repo''; ref = body_get b ''target_ref'';
          head = body_get b ''target_head'' in
      if repo = [] \<or> ref = [] \<or> head = [] then Inl TripleIncomplete
      else if workroom = [] \<or> repo \<noteq> workroom then Inl TargetRepoMismatch
      else if \<not> valid_branch_ref ref then Inl TargetRefInvalid
      else if \<not> is_object_id head then Inl TargetHeadInvalid
      else Inr (choice\<lparr>ch_landing := True, ch_target_repo := repo, ch_target_ref := ref,
                       ch_target_head := head\<rparr>))"

definition read_hold :: "body_map \<Rightarrow> request_choice \<Rightarrow> choice_refusal + request_choice" where
  "read_hold b choice =
     (let held = (case stated b ''landing'' of
                    None \<Rightarrow> Inr choice
                  | Some v \<Rightarrow> if v \<noteq> ''held'' then Inl LandingNotHeld
                              else if ch_no_git choice then Inl HoldWithoutLanding
                              else Inr (choice\<lparr>ch_held := True\<rparr>))
      in case held of
           Inl e \<Rightarrow> Inl e
         | Inr c \<Rightarrow> (case stated b ''hold_owner'' of
                       None \<Rightarrow> Inr c
                     | Some owner \<Rightarrow> if \<not> ch_held c \<and> \<not> ch_inherit c
                                     then Inl HoldOwnerWithoutHold
                                     else Inr (c\<lparr>ch_hold_owner := owner\<rparr>)))"

definition read_request_choice :: "string \<Rightarrow> body_map \<Rightarrow> choice_refusal + request_choice" where
  "read_request_choice workroom b =
     (let triple = (body_get b ''target_repo'' \<noteq> [] \<or> body_get b ''target_ref'' \<noteq> []
                    \<or> body_get b ''target_head'' \<noteq> [])
      in case read_encoding b of
           Inl e \<Rightarrow> Inl e
         | Inr choice \<Rightarrow>
             (let n = encodings [triple, ch_inherit choice, ch_no_git choice] in
              if n = 0 then Inl NoResultStated
              else if n > 1 then Inl ManyResultsStated
              else (case (if triple then read_triple workroom b choice else Inr choice) of
                      Inl e \<Rightarrow> Inl e
                    | Inr c \<Rightarrow> read_hold b c)))"

section \<open>The ancestry walk\<close>

text \<open>
  The queue of \<open>inheritTarget\<close>. Its elements are events and depths; \<open>seen\<close> holds every event ever
  enqueued. A hold is kept with its depth until the destination is known.
\<close>

fun enqueue :: "string list \<Rightarrow> nat \<Rightarrow> string list \<Rightarrow> (string \<times> nat) list \<Rightarrow>
    string list \<times> (string \<times> nat) list" where
  "enqueue [] depth seen queue = (seen, queue)"
| "enqueue (e # es) depth seen queue =
     (if contains seen e then enqueue es depth seen queue
      else enqueue es depth (e # seen) (queue @ [(e, depth)]))"

text \<open>
  How far the walk still has to go: the log's events not yet enqueued, and the elements of the
  queue. Taking one element off and enqueueing its unseen bases lowers the first by the number
  of log events added and the second by one; an event the log does not hold is never expanded.
\<close>

definition walk_work :: "fold_state \<Rightarrow> string list \<Rightarrow> (string \<times> nat) list \<Rightarrow> nat" where
  "walk_work f seen queue =
     unvisited (fs_byID f) seen + length (filter (\<lambda>(e, d). lookup f e \<noteq> None) queue)"

lemma enqueue_work:
  "walk_work f (fst (enqueue es d seen queue)) (snd (enqueue es d seen queue)) \<le> walk_work f seen queue"
proof (induction es d seen queue rule: enqueue.induct)
  case (2 e es depth seen queue)
  show ?case
  proof (cases "e \<in> set seen")
    case True
    then show ?thesis using 2(1) by simp
  next
    case False
    have "walk_work f (e # seen) (queue @ [(e, depth)]) \<le> walk_work f seen queue"
      using unvisited_less [of "fs_byID f" e seen] unvisited_le [of "fs_byID f" e seen] False
      by (auto simp: walk_work_def lookup_def)
    then show ?thesis
      using 2(2) False by simp
  qed
qed simp

function (sequential) inherit_walk ::
  "fold_state \<Rightarrow> string list \<Rightarrow> (string \<times> nat) list \<Rightarrow> nat \<Rightarrow>
   request_result list \<Rightarrow> (request_result \<times> nat) list \<Rightarrow>
   request_result list \<times> (request_result \<times> nat) list" where
  "inherit_walk f seen [] nearest_depth nearest holds = (nearest, holds)"
| "inherit_walk f seen ((event, depth) # queue) nearest_depth nearest holds =
     (if depth > target_inherit_depth then inherit_walk f seen queue nearest_depth nearest holds
      else if nearest_depth \<noteq> 0 \<and> depth > nearest_depth then (nearest, holds)
      else (case lookup f event of
              None \<Rightarrow> inherit_walk f seen queue nearest_depth nearest holds
            | Some basis \<Rightarrow>
                if pr_verdict basis \<noteq> Effective \<or> lifecycle_of basis \<noteq> LifecycleRequest
                then inherit_walk f seen queue nearest_depth nearest holds
                else (case pr_result basis of
                        None \<Rightarrow>
                          (case enqueue (pr_rests_on basis) (depth + 1) seen queue of
                             (seen', queue') \<Rightarrow>
                               inherit_walk f seen' queue' nearest_depth nearest holds)
                      | Some result \<Rightarrow>
                          if \<not> rr_landing result
                          then inherit_walk f seen queue nearest_depth nearest holds
                          else (let holds' = (if rr_held result then holds @ [(result, depth)]
                                              else holds)
                                in if \<not> rr_inherited result
                                   then inherit_walk f seen queue depth (nearest @ [result]) holds'
                                   else (case enqueue (pr_rests_on basis) (depth + 1) seen queue of
                                           (seen', queue') \<Rightarrow>
                                             inherit_walk f seen' queue' nearest_depth nearest
                                               holds')))))"
  by pat_completeness auto

lemma enqueue_work_less:
  assumes "(seen', queue') = enqueue es d seen queue" and "lookup f event = Some b"
  shows "walk_work f seen' queue' < walk_work f seen ((event, depth) # queue)"
proof -
  have "walk_work f seen' queue' \<le> walk_work f seen queue"
    using enqueue_work [of f es d seen queue] assms(1) by (metis fst_conv snd_conv)
  also have "\<dots> < walk_work f seen ((event, depth) # queue)"
    using assms(2) by (simp add: walk_work_def)
  finally show ?thesis .
qed

lemma pop_work: "walk_work f seen queue \<le> walk_work f seen (x # queue)"
  by (simp add: walk_work_def split_beta)

definition walk_order :: "((nat \<times> nat) \<times> (nat \<times> nat)) set" where
  "walk_order = less_than <*lex*> less_than"

lemma walk_pop:
  "((walk_work f seen queue, length queue), (walk_work f seen (x # queue), length (x # queue)))
     \<in> walk_order"
  using pop_work [of f seen queue x] by (auto simp: walk_order_def)

lemma walk_enqueue:
  "(seen', queue') = enqueue es d seen queue \<Longrightarrow> lookup f event = Some b \<Longrightarrow>
   ((walk_work f seen' queue', n), (walk_work f seen ((event, depth) # queue), m)) \<in> walk_order"
  using enqueue_work_less [of seen' queue' es d seen queue f event b depth]
  by (simp add: walk_order_def)

termination inherit_walk
  by (relation "inv_image walk_order (\<lambda>(f, seen, queue, _). (walk_work f seen queue, length queue))")
     (simp_all only: in_inv_image prod.case walk_pop walk_enqueue,
      auto simp: walk_order_def)

text \<open>Which of the holds met speaks for the destination chosen: the nearest, if it has no rival.\<close>

fun choose_hold ::
  "request_result \<Rightarrow> (request_result \<times> nat) list \<Rightarrow> string \<Rightarrow> nat \<Rightarrow> (string \<times> nat) option" where
  "choose_hold inherited [] owner owner_depth = Some (owner, owner_depth)"
| "choose_hold inherited ((r, depth) # holds) owner owner_depth =
     (if \<not> same_destination r inherited then choose_hold inherited holds owner owner_depth
      else if owner_depth = 0 then choose_hold inherited holds (rr_hold_owner r) depth
      else if depth = owner_depth \<and> rr_hold_owner r \<noteq> owner then None
      else choose_hold inherited holds owner owner_depth)"

definition inherit_target :: "fold_state \<Rightarrow> parsed_record \<Rightarrow> result_refusal + request_result" where
  "inherit_target f r =
     (case enqueue (pr_rests_on r) 1 [pr_id r] [] of
        (seen, queue) \<Rightarrow>
          (case inherit_walk f seen queue 0 [] [] of
             ([], holds) \<Rightarrow> Inl NoTargetToInherit
           | (n # ns, holds) \<Rightarrow>
               if list_ex (\<lambda>c. \<not> same_target c n) ns then Inl ConflictingTargetAncestry
               else (let inherited = n\<lparr>rr_held := False, rr_hold_owner := []\<rparr> in
                     (case choose_hold inherited holds [] 0 of
                        None \<Rightarrow> Inl ConflictingHoldAncestry
                      | Some (owner, owner_depth) \<Rightarrow>
                          Inr (if owner_depth \<noteq> 0
                               then inherited\<lparr>rr_held := True, rr_hold_owner := owner\<rparr>
                               else inherited)))))"

definition decide_request_result ::
  "fold_state \<Rightarrow> parsed_record \<Rightarrow> body_map \<Rightarrow> result_refusal + request_result" where
  "decide_request_result f r b =
     (case read_request_choice (workroom_of (pr_id r)) b of
        Inl e \<Rightarrow> Inl (ChoiceRefused e)
      | Inr choice \<Rightarrow>
          (let base = (if ch_landing choice then
                         Inr (no_result\<lparr>rr_landing := True, rr_target_repo := ch_target_repo choice,
                                        rr_target_ref := ch_target_ref choice,
                                        rr_target_head := ch_target_head choice\<rparr>)
                       else if ch_inherit choice then
                         (case inherit_target f r of
                            Inl e \<Rightarrow> Inl e
                          | Inr inherited \<Rightarrow>
                              Inr (inherited\<lparr>rr_inherited := True, rr_legacy := False\<rparr>))
                       else Inr no_result)
           in case base of
                Inl e \<Rightarrow> Inl e
              | Inr result0 \<Rightarrow>
                  (let inherited_hold = rr_held result0;
                       result1 = (if ch_held choice then result0\<lparr>rr_held := True\<rparr> else result0);
                       owned = (if ch_hold_owner choice = [] then Inr result1
                                else if \<not> rr_held result1 then Inl HoldOwnerNeedsHold
                                else if inherited_hold then Inl HoldOwnerInherited
                                else if \<not> has_actor f (ch_hold_owner choice) then Inl HoldOwnerNotLive
                                else Inr (result1\<lparr>rr_hold_owner := ch_hold_owner choice\<rparr>))
                   in case owned of
                        Inl e \<Rightarrow> Inl e
                      | Inr result2 \<Rightarrow>
                          (let result3 = (if rr_held result2 \<and> rr_hold_owner result2 = []
                                          then result2\<lparr>rr_hold_owner := pr_actor r\<rparr> else result2)
                           in Inr (result3\<lparr>rr_stated := True\<rparr>)))))"

definition landing_result :: "fold_state \<Rightarrow> string \<Rightarrow> request_result option" where
  "landing_result f event =
     (case lookup f event of
        None \<Rightarrow> None
      | Some r \<Rightarrow> if pr_verdict r \<noteq> Effective \<or> lifecycle_of r \<noteq> LifecycleRequest then None
                  else pr_result r)"

section \<open>Releases\<close>

record release_claim =
  rl_request :: string
  rl_candidate :: string
  rl_approval :: string
  rl_authorization :: parsed_record
  rl_requester :: string

definition read_release_claim ::
  "fold_state \<Rightarrow> parsed_record \<Rightarrow> state_payload \<Rightarrow> release_refusal + release_claim option" where
  "read_release_claim f r s =
     (let request = body_get (st_body s) ''authorizes_request'' in
      if request = [] then Inr None
      else (case landing_result f request of
              None \<Rightarrow> Inr None
            | Some result \<Rightarrow>
                if \<not> rr_held result then Inr None
                else if st_kind s \<noteq> kind_report \<or> pr_definition r = None
                        \<or> lifecycle_of r \<noteq> LifecycleReport then Inr None
                else if pr_actor r \<noteq> rr_hold_owner result
                then Inl (OnlyHoldOwnerReleases request)
                else (case report_claim f r of
                        Inl e \<Rightarrow> Inr None
                      | Inr claim \<Rightarrow>
                          (let authorization = rc_request claim;
                               performer = (case lookup f request of None \<Rightarrow> []
                                            | Some q \<Rightarrow> state_field q ''to'')
                           in case pr_result authorization of
                                None \<Rightarrow> Inl ReleaseNeedsAuthorization
                              | Some owed \<Rightarrow>
                                  if rr_landing owed
                                     \<or> state_field authorization ''to'' \<noteq> rr_hold_owner result
                                  then Inl ReleaseNeedsAuthorization
                                  else if pr_actor authorization \<noteq> performer
                                  then Inl AuthorizationNotPerformers
                                  else if body_has (st_body s) ''target_repo''
                                          \<and> body_get (st_body s) ''target_repo''
                                              \<noteq> rr_target_repo result
                                  then Inl ReleaseRepoMismatch
                                  else if body_has (st_body s) ''target_ref''
                                          \<and> body_get (st_body s) ''target_ref''
                                              \<noteq> rr_target_ref result
                                  then Inl ReleaseRefMismatch
                                  else Inr (Some
                                    \<lparr>rl_request = request,
                                     rl_candidate = body_get (st_body s) ''authorizes_candidate'',
                                     rl_approval = body_get (st_body s) ''authorizes_approval'',
                                     rl_authorization = authorization,
                                     rl_requester = pr_actor authorization\<rparr>)))))"

definition release_authorship_refusal ::
  "fold_state \<Rightarrow> parsed_record \<Rightarrow> state_payload \<Rightarrow> release_refusal option" where
  "release_authorship_refusal f r s =
     (case read_release_claim f r s of Inl e \<Rightarrow> Some e | Inr _ \<Rightarrow> None)"

definition releases :: "fold_state \<Rightarrow> string \<Rightarrow> string \<Rightarrow> parsed_record \<Rightarrow> bool" where
  "releases f candidate approval r \<longleftrightarrow>
     (case state_of r of
        None \<Rightarrow> False
      | Some s \<Rightarrow>
          pr_verdict r = Effective \<and>
          (case read_release_claim f r s of
             Inr (Some claim) \<Rightarrow>
               rl_candidate claim = candidate \<and> rl_approval claim = approval
               \<and> \<not> is_retired f (pr_id r)
               \<and> (case lookup f (active_ratification f (pr_id r)) of
                    None \<Rightarrow> False | Some q \<Rightarrow> pr_actor q = rl_requester claim)
           | _ \<Rightarrow> False))"

definition release_for ::
  "fold_state \<Rightarrow> string \<Rightarrow> string \<Rightarrow> string \<Rightarrow> parsed_record option" where
  "release_for f request candidate approval =
     List.find (releases f candidate approval) (fs_authorizations f request)"

section \<open>Approved heads\<close>

text \<open>The loops that keep the record of the greatest index, the first one on a tie.\<close>

fun newest_from :: "parsed_record option \<Rightarrow> parsed_record list \<Rightarrow> parsed_record option" where
  "newest_from best [] = best"
| "newest_from best (r # rs) =
     (case best of
        None \<Rightarrow> newest_from (Some r) rs
      | Some b \<Rightarrow> newest_from (if pr_index r > pr_index b then Some r else Some b) rs)"

definition reviewed_head :: "state_payload \<Rightarrow> string" where
  "reviewed_head report =
     (if body_get (st_body report) ''head'' = [] then body_get (st_body report) ''commit''
      else body_get (st_body report) ''head'')"

text \<open>
  The shape both \<open>ratifiedApproval\<close> and \<open>requestHasRatifiedChangesRequestedArtifact\<close> ask of a verdict:
  a live ratified report naming this artifact at its exact head with this word.
\<close>

definition verdict_names ::
  "fold_state \<Rightarrow> string \<Rightarrow> parsed_record \<Rightarrow> state_payload \<Rightarrow> parsed_record \<Rightarrow> bool" where
  "verdict_names f word artifact s v \<longleftrightarrow>
     (case state_of v of
        None \<Rightarrow> False
      | Some report \<Rightarrow>
          st_kind report = kind_report \<and> body_get (st_body report) ''verdict'' = word
          \<and> body_get (st_body report) ''artifact'' = pr_id artifact
          \<and> \<not> is_retired f (pr_id v) \<and> is_ratified f (pr_id v)
          \<and> reviewed_head report = body_get (st_body s) ''commit'')"

definition ratified_approval :: "fold_state \<Rightarrow> parsed_record \<Rightarrow> parsed_record option" where
  "ratified_approval f artifact =
     (case state_of artifact of
        None \<Rightarrow> None
      | Some s \<Rightarrow>
          newest_from None
            (filter (verdict_names f ''approved'' artifact s)
               (direct_dependents f (pr_id artifact) LifecycleReport)))"

definition is_reporting_artifact ::
  "fold_state \<Rightarrow> parsed_record \<Rightarrow> parsed_record \<Rightarrow> string \<Rightarrow> bool" where
  "is_reporting_artifact f r claim performer \<longleftrightarrow>
     (case state_of r of
        None \<Rightarrow> False
      | Some s \<Rightarrow>
          renders_artifact r \<and> body_get (st_body s) ''commit'' \<noteq> [] \<and> pr_actor r = performer
          \<and> (case map_of (fs_admitted_claims f) (pr_id r) of
               None \<Rightarrow> False | Some admitted \<Rightarrow> pr_id (rc_claim admitted) = pr_id claim))"

text \<open>The newest reporting artifact at an approved head, with its approval.\<close>

fun approved_from ::
  "fold_state \<Rightarrow> (parsed_record \<times> parsed_record) option \<Rightarrow> parsed_record list \<Rightarrow>
   (parsed_record \<times> parsed_record) option" where
  "approved_from f best [] = best"
| "approved_from f best (r # rs) =
     (case ratified_approval f r of
        None \<Rightarrow> approved_from f best rs
      | Some approval \<Rightarrow>
          (case best of
             None \<Rightarrow> approved_from f (Some (r, approval)) rs
           | Some (b, a) \<Rightarrow>
               approved_from f (if pr_index r > pr_index b then Some (r, approval)
                                else Some (b, a)) rs))"

definition approved_reporting_artifact ::
  "fold_state \<Rightarrow> parsed_record \<Rightarrow> string \<Rightarrow> (parsed_record \<times> parsed_record) option" where
  "approved_reporting_artifact f claim performer =
     approved_from f None
       (filter (\<lambda>r. is_reporting_artifact f r claim performer)
          (direct_dependents f (pr_id claim) LifecycleNone))"

definition claim_carried_reporting_artifact ::
  "fold_state \<Rightarrow> parsed_record \<Rightarrow> string \<Rightarrow> bool" where
  "claim_carried_reporting_artifact f claim performer \<longleftrightarrow>
     list_ex (\<lambda>r. is_reporting_artifact f r claim performer)
       (direct_dependents f (pr_id claim) LifecycleNone)"

definition commitment_result ::
  "fold_state \<Rightarrow> parsed_record \<Rightarrow> parsed_record \<Rightarrow> string \<Rightarrow> request_result" where
  "commitment_result f request claim performer =
     (case pr_result request of
        Some result \<Rightarrow> result
      | None \<Rightarrow>
          if \<not> claim_carried_reporting_artifact f claim performer then no_result
          else no_result\<lparr>rr_landing := True, rr_legacy := True,
                         rr_target_repo := workroom_of (pr_id request),
                         rr_target_ref := legacy_target_ref\<rparr>)"

definition is_resolution :: "fold_state \<Rightarrow> parsed_record \<Rightarrow> parsed_record \<Rightarrow> bool" where
  "is_resolution f claim r \<longleftrightarrow>
     state_of r \<noteq> None \<and> state_field r ''resolution'' \<noteq> [] \<and> \<not> is_retired f (pr_id r)
     \<and> (case map_of (fs_admitted_claims f) (pr_id r) of
          None \<Rightarrow> False | Some admitted \<Rightarrow> pr_id (rc_claim admitted) = pr_id claim)"

definition latest_resolution :: "fold_state \<Rightarrow> parsed_record \<Rightarrow> parsed_record option" where
  "latest_resolution f claim =
     newest_from None
       (filter (is_resolution f claim) (direct_dependents f (pr_id claim) LifecycleReport))"

definition landing_report_refusal ::
  "fold_state \<Rightarrow> report_claim \<Rightarrow> state_payload \<Rightarrow> state_reason option" where
  "landing_report_refusal f claim s =
     (case landing_result f (pr_id (rc_request claim)) of
        None \<Rightarrow> None
      | Some result \<Rightarrow>
          if \<not> rr_landing result then None
          else if body_get (st_body s) ''resolution'' \<noteq> [] then None
          else if body_get (st_body s) ''verdict'' \<noteq> []
          then Some (OwesLandingVerdict (rr_target_ref result))
          else Some (OwesLandingReport (rr_target_ref result)))"

section \<open>Superseding a request that holds an approved head\<close>

fun first_approved ::
  "fold_state \<Rightarrow> (parsed_record \<times> string) list \<Rightarrow> parsed_record option" where
  "first_approved f [] = None"
| "first_approved f ((claim, performer) # rest) =
     (case approved_reporting_artifact f claim performer of
        Some (approved, _) \<Rightarrow> Some approved
      | None \<Rightarrow> first_approved f rest)"

definition approved_held_head :: "fold_state \<Rightarrow> parsed_record \<Rightarrow> parsed_record option" where
  "approved_held_head f request =
     (case state_of request of
        None \<Rightarrow> None
      | Some s \<Rightarrow>
          first_approved f
            ((request, body_get (st_body s) ''to'')
             # map (\<lambda>p. (p, pr_actor p)) (direct_dependents f (pr_id request) LifecyclePromise)))"

text \<open>The one request cited that carries the head; a second one makes the answer none.\<close>

fun carrying_successor :: "fold_state \<Rightarrow> string \<Rightarrow> string \<Rightarrow> string list \<Rightarrow> string" where
  "carrying_successor f artifact successor [] = successor"
| "carrying_successor f artifact successor (basis # rest) =
     (case lookup f basis of
        None \<Rightarrow> carrying_successor f artifact successor rest
      | Some candidate \<Rightarrow>
          if pr_verdict candidate \<noteq> Effective \<or> lifecycle_of candidate \<noteq> LifecycleRequest
          then carrying_successor f artifact successor rest
          else if \<not> contains (pr_rests_on candidate) artifact
          then carrying_successor f artifact successor rest
          else if successor \<noteq> [] then []
          else carrying_successor f artifact (pr_id candidate) rest)"

definition carried_or_abandoned ::
  "fold_state \<Rightarrow> parsed_record \<Rightarrow> string \<Rightarrow> parsed_record option \<Rightarrow> string \<times> bool" where
  "carried_or_abandoned f r target artifact =
     (case artifact of
        None \<Rightarrow> ([], False)
      | Some a \<Rightarrow>
          if body_get (pr_supersede_body r) ''disposition'' = ''abandoned'' then ([], True)
          else if length (pr_rests_on r) < 2 \<or> hd (pr_rests_on r) \<noteq> target then ([], False)
          else (carrying_successor f (pr_id a) [] (tl (pr_rests_on r)), False))"

definition carried_or_abandoned_refusal ::
  "fold_state \<Rightarrow> parsed_record \<Rightarrow> string \<Rightarrow> supersede_reason option" where
  "carried_or_abandoned_refusal f r target =
     (let declared = body_has (pr_supersede_body r) ''disposition'';
          disposition = body_get (pr_supersede_body r) ''disposition'';
          artifact = (case lookup f target of
                        None \<Rightarrow> None
                      | Some t \<Rightarrow> (case pr_result t of
                                     None \<Rightarrow> None
                                   | Some result \<Rightarrow> if rr_landing result
                                                    then approved_held_head f t else None))
      in if declared \<and> disposition \<noteq> ''abandoned'' then Some DispositionNotAbandoned
         else (case artifact of
                 None \<Rightarrow> if declared then Some DispositionWithoutHead else None
               | Some a \<Rightarrow>
                   (case carried_or_abandoned f r target artifact of
                      (successor, abandoned) \<Rightarrow>
                        if successor \<noteq> [] \<or> abandoned then None
                        else Some (HoldsApprovedHead (state_field a ''commit'')))))"

definition abandoned_request :: "fold_state \<Rightarrow> string \<Rightarrow> bool" where
  "abandoned_request f request \<longleftrightarrow>
     list_ex (\<lambda>s. \<not> is_retired f (pr_id s)) (fs_abandonments f request)"

definition receipt_target :: "parsed_record \<Rightarrow> string \<times> string" where
  "receipt_target receipt =
     (case state_of receipt of
        None \<Rightarrow> ([], [])
      | Some s \<Rightarrow>
          (let repo = body_get (st_body s) ''merge_target_repo'';
               ref = body_get (st_body s) ''merge_target_ref''
           in (if repo = [] then workroom_of (pr_id receipt) else repo,
               if ref = [] then legacy_target_ref else ref)))"

end
