(* ===== verification/WorkroomStale.thy ===== *)
theory WorkroomStale
  imports WorkroomLanding
begin

text \<open>
  Staleness (\<open>internal/workroom/fold.go\<close>, \<open>stalenessScope\<close> and the functions on it): which records rest on
  something retired, judged as of a position of the log, the merge-plan exemption, the receipt
  checkpoint, and the explanation of a stale row. The memo of narrowed plans is a cache of a pure
  function and is left out; the memo of receipt checkpoints is kept, because its reuse inside a
  pass is argued for in the code rather than obvious.
\<close>

section \<open>The scope\<close>

text \<open>\<open>asOf\<close>: \<open>None\<close> is the unbounded scope (\<open>math.MaxInt\<close>). A date of 0 is a missing map entry.\<close>

record staleness_scope =
  sc_state :: fold_state
  sc_as_of :: "nat option"
  sc_active :: "string \<Rightarrow> nat"
  sc_transfers :: "(string \<times> string) list"

definition landed_by :: "nat \<Rightarrow> nat option \<Rightarrow> bool" where
  "landed_by n as_of \<longleftrightarrow> (case as_of of None \<Rightarrow> True | Some a \<Rightarrow> n \<le> a)"

fun active_from :: "fold_state \<Rightarrow> (string \<Rightarrow> nat) \<Rightarrow> (string \<times> string) list \<Rightarrow> string \<Rightarrow> nat" where
  "active_from f earliest [] = earliest"
| "active_from f earliest ((i, target) # rest) =
     (if is_retired f i then active_from f earliest rest
      else (case lookup f i of
              None \<Rightarrow> active_from f earliest rest
            | Some cause \<Rightarrow>
                (let at = pr_sequence cause; known = earliest target in
                 active_from f (if known = 0 \<or> at < known then earliest(target := at) else earliest)
                   rest)))"

definition active_retirements :: "fold_state \<Rightarrow> string \<Rightarrow> nat" where
  "active_retirements f = active_from f (\<lambda>_. 0) (fs_effective_sup f)"

text \<open>The target of a supersession record.\<close>

definition supersede_target :: "parsed_record \<Rightarrow> string option" where
  "supersede_target r = (case pr_body r of Some (BSupersede t x) \<Rightarrow> Some t | _ \<Rightarrow> None)"

fun transfers_from ::
  "fold_state \<Rightarrow> nat option \<Rightarrow> (string \<times> string) list \<Rightarrow> parsed_record list \<Rightarrow> (string \<times> string) list"
where
  "transfers_from f as_of transfers [] = transfers"
| "transfers_from f as_of transfers (s # rest) =
     (if \<not> landed_by (pr_sequence s) as_of \<or> pr_linked_successor s = [] \<or> is_retired f (pr_id s)
      then transfers_from f as_of transfers rest
      else (case supersede_target s of
              None \<Rightarrow> transfers_from f as_of transfers rest
            | Some t \<Rightarrow>
                if map_of transfers t \<noteq> None then transfers_from f as_of transfers rest
                else transfers_from f as_of ((t, pr_linked_successor s) # transfers) rest))"

definition transfer_successors :: "fold_state \<Rightarrow> nat option \<Rightarrow> (string \<times> string) list" where
  "transfer_successors f as_of = transfers_from f as_of [] (fs_supersessions f)"

definition staleness_as_of :: "fold_state \<Rightarrow> nat option \<Rightarrow> staleness_scope" where
  "staleness_as_of f as_of =
     \<lparr>sc_state = f, sc_as_of = as_of, sc_active = active_retirements f,
      sc_transfers = transfer_successors f as_of\<rparr>"

definition staleness_now :: "fold_state \<Rightarrow> staleness_scope" where
  "staleness_now f = staleness_as_of f None"

definition scope_retired :: "staleness_scope \<Rightarrow> string \<Rightarrow> bool" where
  "scope_retired s event \<longleftrightarrow>
     (if \<not> is_retired (sc_state s) event then False
      else sc_active s event = 0 \<or> landed_by (sc_active s event) (sc_as_of s))"

section \<open>Succession\<close>

text \<open>
  \<open>succeededRetirements\<close>: the artifact a retirement says took over, if the supersession rests on one that
  covers the retired path. The scoped form also asks that act and successor landed by the position.
\<close>

definition successor_basis ::
  "fold_state \<Rightarrow> nat option \<Rightarrow> string \<Rightarrow> string \<Rightarrow> string \<Rightarrow> bool" where
  "successor_basis f as_of target retired_path basis \<longleftrightarrow>
     basis \<noteq> target \<and> is_artifact f basis
     \<and> (case lookup f basis of None \<Rightarrow> False | Some b \<Rightarrow> landed_by (pr_sequence b) as_of)
     \<and> (case artifact_path f basis of None \<Rightarrow> False | Some p \<Rightarrow> path_covers p retired_path)"

fun succeeded_from ::
  "fold_state \<Rightarrow> nat option \<Rightarrow> (string \<times> string) list \<Rightarrow> parsed_record list \<Rightarrow> (string \<times> string) list"
where
  "succeeded_from f as_of succeeded [] = succeeded"
| "succeeded_from f as_of succeeded (r # rest) =
     (if \<not> landed_by (pr_sequence r) as_of then succeeded_from f as_of succeeded rest
      else (case supersede_target r of
              None \<Rightarrow> succeeded_from f as_of succeeded rest
            | Some target \<Rightarrow>
                (case artifact_path f target of
                   None \<Rightarrow> succeeded_from f as_of succeeded rest
                 | Some retired_path \<Rightarrow>
                     if \<not> is_artifact f target \<or> map_of succeeded target \<noteq> None
                     then succeeded_from f as_of succeeded rest
                     else (case List.find (successor_basis f as_of target retired_path)
                                  (pr_rests_on r) of
                             None \<Rightarrow> succeeded_from f as_of succeeded rest
                           | Some basis \<Rightarrow>
                               succeeded_from f as_of ((target, basis) # succeeded) rest))))"

definition scope_succeeded_retirements :: "staleness_scope \<Rightarrow> (string \<times> string) list" where
  "scope_succeeded_retirements s =
     succeeded_from (sc_state s) (sc_as_of s) [] (fs_supersessions (sc_state s))"

definition succeeded_retirements :: "fold_state \<Rightarrow> (string \<times> string) list" where
  "succeeded_retirements f = succeeded_from f None [] (fs_supersessions f)"

function (sequential) condemned_walk ::
  "staleness_scope \<Rightarrow> (string \<times> string) list \<Rightarrow> string list \<Rightarrow> string \<Rightarrow> bool" where
  "condemned_walk s successors visited current =
     (case map_of successors current of
        None \<Rightarrow> scope_retired s current
      | Some nxt \<Rightarrow> if contains visited nxt then False
                    else condemned_walk s successors (nxt # visited) nxt)"
  by pat_completeness auto

termination
proof (relation "measure (\<lambda>(s, successors, visited, current).
    unvisited successors visited + (if map_of successors current = None then 0 else 1))", simp)
  fix s :: staleness_scope and successors :: "(string \<times> string) list" and visited current nxt
  assume "map_of successors current = Some nxt" and "\<not> contains visited nxt"
  then show "((s, successors, nxt # visited, nxt), (s, successors, visited, current))
      \<in> measure (\<lambda>(s, successors, visited, current).
          unvisited successors visited + (if map_of successors current = None then 0 else 1))"
    using unvisited_less [of successors nxt visited] unvisited_le [of successors nxt visited]
    by auto
qed

definition succession_condemned :: "staleness_scope \<Rightarrow> string \<Rightarrow> (string \<times> string) list \<Rightarrow> bool" where
  "succession_condemned s artifact successors = condemned_walk s successors [artifact] artifact"

section \<open>Merge plans\<close>

definition receipt_plan :: "staleness_scope \<Rightarrow> parsed_record \<Rightarrow> body_map option" where
  "receipt_plan s receipt =
     (if scope_retired s (pr_id receipt) then None else pr_merge_plan receipt)"

definition without_condemned ::
  "staleness_scope \<Rightarrow> (string \<times> string) list \<Rightarrow> body_map \<Rightarrow> body_map" where
  "without_condemned s successors plan =
     filter (\<lambda>(artifact, path). \<not> (map_of successors artifact \<noteq> None
                                    \<and> succession_condemned s artifact successors)) plan"

definition narrowed_receipt_plan ::
  "staleness_scope \<Rightarrow> (string \<times> string) list \<Rightarrow> parsed_record \<Rightarrow> body_map option" where
  "narrowed_receipt_plan s successors receipt =
     map_option (without_condemned s successors) (receipt_plan s receipt)"

definition published_by_merge :: "parsed_record \<Rightarrow> parsed_record \<Rightarrow> bool" where
  "published_by_merge r receipt \<longleftrightarrow>
     renders_artifact r \<and> state_of r \<noteq> None \<and> state_of receipt \<noteq> None
     \<and> state_field receipt ''merge_head'' \<noteq> []
     \<and> state_field r ''commit'' = state_field receipt ''merge_head''
     \<and> contains (pr_published_paths receipt) (state_field r ''path'')"

definition borrowed_plans ::
  "staleness_scope \<Rightarrow> (string \<times> string) list \<Rightarrow> parsed_record \<Rightarrow> body_map list" where
  "borrowed_plans s successors r =
     List.map_filter
       (\<lambda>basis. case lookup (sc_state s) basis of
                  None \<Rightarrow> None
                | Some receipt \<Rightarrow>
                    (case receipt_plan s receipt of
                       None \<Rightarrow> None
                     | Some plan \<Rightarrow> if plan = [] \<or> \<not> published_by_merge r receipt then None
                                    else narrowed_receipt_plan s successors receipt))
       (pr_rests_on r)"

text \<open>\<open>mergeSuccessionPlan\<close>: a later plan wins where two name one artifact.\<close>

definition merge_succession_plan ::
  "staleness_scope \<Rightarrow> (string \<times> string) list \<Rightarrow> parsed_record \<Rightarrow> body_map option" where
  "merge_succession_plan s successors r =
     (let own = (case narrowed_receipt_plan s successors r of None \<Rightarrow> [] | Some p \<Rightarrow> [p]);
          plans = own @ borrowed_plans s successors r
      in if plans = [] then None else Some (concat (rev plans)))"

definition staleness_mode_of :: "fold_state \<Rightarrow> string \<Rightarrow> staleness_mode" where
  "staleness_mode_of f basis =
     (case lookup f basis of
        None \<Rightarrow> StalenessPropagates
      | Some b \<Rightarrow> (case pr_definition b of None \<Rightarrow> StalenessPropagates | Some d \<Rightarrow> kd_staleness d))"

text \<open>The bases through which a walk below a record may meet a live cause.\<close>

definition cause_bases ::
  "staleness_scope \<Rightarrow> (string \<Rightarrow> bool) \<Rightarrow> parsed_record \<Rightarrow> string list" where
  "cause_bases s stale r =
     filter (\<lambda>basis. let mode = staleness_mode_of (sc_state s) basis in
        \<not> (mode = StalenessExempt
            \<or> (\<not> scope_retired s basis \<and> \<not> (stale basis \<and> mode = StalenessPropagates))))
       (pr_rests_on r)"

function (sequential) covered_by_plan ::
  "staleness_scope \<Rightarrow> body_map \<Rightarrow> (string \<Rightarrow> bool) \<Rightarrow> string list \<Rightarrow> string \<Rightarrow> bool" where
  "covered_by_plan s plan stale visiting event =
     (if contains visiting event then True
      else if scope_retired s event \<and> \<not> body_has plan event then False
      else (case lookup (sc_state s) event of
              None \<Rightarrow> scope_retired s event
            | Some r \<Rightarrow>
                list_all (covered_by_plan s plan stale (event # visiting)) (cause_bases s stale r)
                \<and> (scope_retired s event \<or> cause_bases s stale r \<noteq> [])))"
  by pat_completeness auto

termination
  by (relation "measure (\<lambda>(s, plan, stale, visiting, event). unvisited (fs_byID (sc_state s)) visiting)")
     (auto simp: lookup_def intro: unvisited_less)

text \<open>
  \<open>causesSettledAtReceipt\<close> abandons the whole walk at the first unsettled cause, so its depth-first
  recursion is a stack. \<open>at\<close> is the receipt's sequence.
\<close>

definition cause_unsettled ::
  "staleness_scope \<Rightarrow> body_map \<Rightarrow> nat \<Rightarrow> string \<Rightarrow> bool" where
  "cause_unsettled s plan at event \<longleftrightarrow>
     scope_retired s event \<and> \<not> body_has plan event
     \<and> (sc_active s event = 0 \<or> sc_active s event > at)"

function (sequential) settled_walk ::
  "staleness_scope \<Rightarrow> body_map \<Rightarrow> (string \<Rightarrow> bool) \<Rightarrow> nat \<Rightarrow> string list \<Rightarrow> string list \<Rightarrow> bool" where
  "settled_walk s plan stale at visited [] = True"
| "settled_walk s plan stale at visited (event # stack) =
     (if contains visited event then settled_walk s plan stale at visited stack
      else if cause_unsettled s plan at event then False
      else (case lookup (sc_state s) event of
              None \<Rightarrow> settled_walk s plan stale at (event # visited) stack
            | Some r \<Rightarrow>
                settled_walk s plan stale at (event # visited) (cause_bases s stale r @ stack)))"
  by pat_completeness auto

definition stack_order :: "((nat \<times> nat) \<times> (nat \<times> nat)) set" where
  "stack_order = less_than <*lex*> less_than"

lemma stack_expand:
  "lookup f event = Some r \<Longrightarrow> event \<notin> set visited \<Longrightarrow>
   ((unvisited (fs_byID f) (event # visited), n), (unvisited (fs_byID f) visited, m)) \<in> stack_order"
  by (simp add: stack_order_def lookup_def unvisited_less)

lemma stack_pop:
  "((unvisited m visited, length stack), (unvisited m visited, length (event # stack))) \<in> stack_order"
  "((unvisited m (event # visited), length stack), (unvisited m visited, length (event # stack)))
     \<in> stack_order"
  using unvisited_le [of m event visited] by (auto simp: stack_order_def)

lemma wf_stack_order [simp]: "wf (inv_image stack_order g)"
  by (auto simp: stack_order_def)

termination settled_walk
  by (relation "inv_image stack_order
        (\<lambda>(s, plan, stale, at, visited, stack).
           (unvisited (fs_byID (sc_state s)) visited, length stack))")
     (simp_all only: in_inv_image prod.case contains_iff stack_expand stack_pop wf_stack_order
        not_False_eq_True)

text \<open>\<open>receiptCheckpointSettles\<close>, with the pass's memo by receipt.\<close>

definition receipt_checkpoint_settles ::
  "staleness_scope \<Rightarrow> (string \<times> string) list \<Rightarrow> (string \<Rightarrow> bool) \<Rightarrow> (string \<times> bool) list \<Rightarrow>
   parsed_record \<Rightarrow> parsed_record option \<Rightarrow> bool \<times> (string \<times> bool) list" where
  "receipt_checkpoint_settles s successors stale settled successor receipt_opt =
     (case receipt_opt of
        None \<Rightarrow> (False, settled)
      | Some receipt \<Rightarrow>
          if \<not> pr_left_live_present receipt \<or> \<not> pr_changed_paths_valid receipt
          then (False, settled)
          else (case pr_merge_plan receipt of
                  None \<Rightarrow> (False, settled)
                | Some plan \<Rightarrow>
                    if pr_actor successor \<noteq> pr_actor receipt then (False, settled)
                    else if \<not> published_by_merge successor receipt then (False, settled)
                    else (case map_of settled (pr_id receipt) of
                            Some answer \<Rightarrow> (answer, settled)
                          | None \<Rightarrow>
                              (let answer = settled_walk s (without_condemned s successors plan)
                                     stale (pr_sequence receipt) [] [pr_id receipt]
                               in (answer, (pr_id receipt, answer) # settled)))))"

section \<open>The pass\<close>

record staleness_pass =
  sp_stale :: "string \<Rightarrow> bool"
  sp_world :: "string \<Rightarrow> bool"
  sp_caused_at :: "string \<Rightarrow> nat"
  sp_causes :: "string \<Rightarrow> (string \<times> bool) list"
  sp_settled :: "(string \<times> bool) list"

definition empty_pass :: staleness_pass where
  "empty_pass = \<lparr>sp_stale = (\<lambda>_. False), sp_world = (\<lambda>_. False), sp_caused_at = (\<lambda>_. 0),
                 sp_causes = (\<lambda>_. []), sp_settled = []\<rparr>"

definition retired_basis ::
  "staleness_scope \<Rightarrow> (string \<times> string) list \<Rightarrow> parsed_record \<Rightarrow> string \<Rightarrow> bool" where
  "retired_basis s successors r basis \<longleftrightarrow>
     (let f = sc_state s;
          provenance = (is_artifact f basis \<and> is_artifact f (pr_id r)) in
      scope_retired s basis \<and> staleness_mode_of f basis \<noteq> StalenessExempt
      \<and> \<not> (\<not> provenance \<and> map_of successors basis \<noteq> None
             \<and> \<not> succession_condemned s basis successors)
      \<and> map_of (sc_transfers s) basis \<noteq> Some (pr_id r))"

definition mark_stale ::
  "staleness_scope \<Rightarrow> bool \<Rightarrow> parsed_record \<Rightarrow> string \<Rightarrow> bool \<Rightarrow> staleness_pass \<Rightarrow> staleness_pass" where
  "mark_stale s explain r basis direct p =
     (let f = sc_state s; e = pr_id r;
          provenance = (is_artifact f basis \<and> is_artifact f e);
          p1 = p\<lparr>sp_stale := (sp_stale p)(e := True),
                 sp_causes := (if explain
                   then (sp_causes p)(e := sp_causes p e @ [(basis, direct)]) else sp_causes p)\<rparr>
      in if (sp_world p1 basis \<and> provenance) \<or> (direct \<and> is_artifact f basis)
         then (let at0 = sc_active s basis;
                   inherited = sp_caused_at p1 basis;
                   at1 = (if inherited \<noteq> 0 \<and> provenance
                             \<and> staleness_mode_of f basis \<noteq> StalenessTerminal
                             \<and> (at0 = 0 \<or> inherited < at0) then inherited else at0)
               in p1\<lparr>sp_world := (sp_world p1)(e := True),
                     sp_caused_at := (if at1 \<noteq> 0 \<and> (sp_caused_at p1 e = 0 \<or> at1 < sp_caused_at p1 e)
                                      then (sp_caused_at p1)(e := at1) else sp_caused_at p1)\<rparr>)
         else p1)"

definition stale_edge ::
  "staleness_scope \<Rightarrow> (string \<times> string) list \<Rightarrow> bool \<Rightarrow> parsed_record \<Rightarrow> body_map option \<Rightarrow>
   string \<Rightarrow> staleness_pass \<Rightarrow> staleness_pass" where
  "stale_edge s successors explain r plan basis p =
     (let f = sc_state s in
      if (case plan of None \<Rightarrow> False | Some pl \<Rightarrow> body_has pl basis \<and> scope_retired s basis) then p
      else if map_of (fs_effective_sup f) (pr_id r) = Some basis then p
      else (let direct = retired_basis s successors r basis;
                stale_basis = (sp_stale p basis
                               \<and> staleness_mode_of f basis = StalenessPropagates)
            in if (case plan of None \<Rightarrow> False
                   | Some pl \<Rightarrow> stale_basis \<and> covered_by_plan s pl (sp_stale p) [] basis) then p
               else (case (if stale_basis
                           then receipt_checkpoint_settles s successors (sp_stale p) (sp_settled p) r
                                  (lookup f basis)
                           else (False, sp_settled p)) of
                       (settles, settled) \<Rightarrow>
                         (let p1 = p\<lparr>sp_settled := settled\<rparr> in
                          if settles \<or> (\<not> direct \<and> \<not> stale_basis) then p1
                          else mark_stale s explain r basis direct p1))))"

fun stale_edges ::
  "staleness_scope \<Rightarrow> (string \<times> string) list \<Rightarrow> bool \<Rightarrow> parsed_record \<Rightarrow> body_map option \<Rightarrow>
   string list \<Rightarrow> staleness_pass \<Rightarrow> staleness_pass" where
  "stale_edges s successors explain r plan [] p = p"
| "stale_edges s successors explain r plan (basis # bases) p =
     stale_edges s successors explain r plan bases (stale_edge s successors explain r plan basis p)"

definition stale_record ::
  "staleness_scope \<Rightarrow> (string \<times> string) list \<Rightarrow> bool \<Rightarrow> parsed_record \<Rightarrow> staleness_pass \<Rightarrow>
   staleness_pass" where
  "stale_record s successors explain r p =
     (if pr_verdict r \<noteq> Effective then p
      else if (case pr_definition r of None \<Rightarrow> False | Some d \<Rightarrow> kd_staleness d = StalenessExempt)
      then p
      else stale_edges s successors explain r (merge_succession_plan s successors r)
             (pr_rests_on r) p)"

fun stale_records ::
  "staleness_scope \<Rightarrow> (string \<times> string) list \<Rightarrow> bool \<Rightarrow> parsed_record list \<Rightarrow> staleness_pass \<Rightarrow>
   staleness_pass" where
  "stale_records s successors explain [] p = p"
| "stale_records s successors explain (r # rs) p =
     (if \<not> landed_by (pr_sequence r) (sc_as_of s) then p
      else stale_records s successors explain rs (stale_record s successors explain r p))"

section \<open>The closure of a question\<close>

text \<open>\<open>closure\<close>: the records reachable from the targets through bases, in order of position.\<close>

fun closure_add ::
  "fold_state \<Rightarrow> string list \<Rightarrow> string list \<Rightarrow> nat list \<Rightarrow> parsed_record list \<Rightarrow>
   string list \<times> nat list \<times> parsed_record list" where
  "closure_add f [] seen indices stack = (seen, indices, stack)"
| "closure_add f (e # es) seen indices stack =
     (if contains seen e then closure_add f es seen indices stack
      else (case lookup f e of
              None \<Rightarrow> closure_add f es (e # seen) indices stack
            | Some r \<Rightarrow> closure_add f es (e # seen) (indices @ [pr_index r]) (r # stack)))"

lemma closure_add_work:
  "(seen', indices', stack') = closure_add f es seen indices stack \<Longrightarrow>
   unvisited (fs_byID f) seen' + length stack' \<le> unvisited (fs_byID f) seen + length stack"
proof (induction f es seen indices stack rule: closure_add.induct)
  case (2 f e es seen indices stack)
  show ?case
  proof (cases "e \<in> set seen")
    case True
    then show ?thesis using 2 by simp
  next
    case False
    show ?thesis
    proof (cases "lookup f e")
      case None
      then show ?thesis
        using 2(2) 2(4) False unvisited_le [of "fs_byID f" e seen] by simp
    next
      case (Some r)
      then have "unvisited (fs_byID f) (e # seen) < unvisited (fs_byID f) seen"
        using False by (simp add: unvisited_less lookup_def)
      then show ?thesis
        using 2(3) 2(4) False Some by simp
    qed
  qed
qed simp

function (sequential) closure_walk ::
  "fold_state \<Rightarrow> string list \<Rightarrow> nat list \<Rightarrow> parsed_record list \<Rightarrow> nat list" where
  "closure_walk f seen indices [] = indices"
| "closure_walk f seen indices (r # stack) =
     (case closure_add f (pr_rests_on r) seen indices stack of
        (seen', indices', stack') \<Rightarrow> closure_walk f seen' indices' stack')"
  by pat_completeness auto

lemma closure_add_measure:
  "(seen', rest) = closure_add f es seen indices stack \<Longrightarrow> (indices', stack') = rest \<Longrightarrow>
   unvisited (fs_byID f) seen' + length stack' < Suc (unvisited (fs_byID f) seen + length stack)"
  using closure_add_work [of seen' indices' stack' f es seen indices stack] by simp

termination closure_walk
proof (relation "measure (\<lambda>(f, seen, indices, stack). unvisited (fs_byID f) seen + length stack)", simp)
  fix f :: fold_state and seen seen' :: "string list" and indices indices' :: "nat list"
    and r :: parsed_record and stack stack' :: "parsed_record list" and rest
  assume added: "(seen', rest) = closure_add f (pr_rests_on r) seen indices stack"
    and rest: "(indices', stack') = rest"
  show "((f, seen', indices', stack'), (f, seen, indices, r # stack)) \<in>
      measure (\<lambda>(f, seen, indices, stack). unvisited (fs_byID f) seen + length stack)"
    using closure_add_measure [OF added rest] by (simp only: in_measure prod.case length_Cons add_Suc_right)
qed

definition closure :: "fold_state \<Rightarrow> string list option \<Rightarrow> nat list" where
  "closure f targets =
     (case targets of
        None \<Rightarrow> [0..<length (fs_records f)]
      | Some ts \<Rightarrow> (case closure_add f ts [] [] [] of
                      (seen, indices, stack) \<Rightarrow> sort (closure_walk f seen indices stack)))"

definition compute_staleness ::
  "staleness_scope \<Rightarrow> string list option \<Rightarrow> (string \<times> string) list \<Rightarrow> bool \<Rightarrow> staleness_pass" where
  "compute_staleness s targets successors explain =
     stale_records s successors explain
       (map (\<lambda>i. fs_records (sc_state s) ! i) (closure (sc_state s) targets)) empty_pass"

section \<open>Explaining a stale row\<close>

definition stale_cause_hop_limit :: nat where "stale_cause_hop_limit = 4"

fun scan_edges ::
  "(string \<times> bool) list \<Rightarrow> string list \<Rightarrow> string list \<Rightarrow> string + (string list \<times> string list)" where
  "scan_edges [] visited nxt = Inr (visited, nxt)"
| "scan_edges ((basis, direct) # edges) visited nxt =
     (if direct then Inl basis
      else if contains visited basis then scan_edges edges visited nxt
      else scan_edges edges (basis # visited) (nxt @ [basis]))"

fun scan_frontier ::
  "(string \<Rightarrow> (string \<times> bool) list) \<Rightarrow> string list \<Rightarrow> string list \<Rightarrow> string list \<Rightarrow>
   string + (string list \<times> string list)" where
  "scan_frontier causes [] visited nxt = Inr (visited, nxt)"
| "scan_frontier causes (e # es) visited nxt =
     (case scan_edges (causes e) visited nxt of
        Inl basis \<Rightarrow> Inl basis
      | Inr (visited', nxt') \<Rightarrow> scan_frontier causes es visited' nxt')"

fun nearest_from ::
  "(string \<Rightarrow> (string \<times> bool) list) \<Rightarrow> nat \<Rightarrow> string list \<Rightarrow> string list \<Rightarrow> string option \<times> bool" where
  "nearest_from causes 0 visited frontier = (None, frontier \<noteq> [])"
| "nearest_from causes (Suc hops) visited frontier =
     (if frontier = [] then (None, False)
      else (case scan_frontier causes frontier visited [] of
              Inl basis \<Rightarrow> (Some basis, False)
            | Inr (visited', nxt) \<Rightarrow> nearest_from causes hops visited' nxt))"

definition nearest_retired_cause ::
  "fold_state \<Rightarrow> string \<Rightarrow> (string \<Rightarrow> (string \<times> bool) list) \<Rightarrow> string \<times> string \<times> bool" where
  "nearest_retired_cause f event causes =
     (case nearest_from causes stale_cause_hop_limit [event] [event] of
        (None, truncated) \<Rightarrow> ([], [], truncated)
      | (Some basis, _) \<Rightarrow>
          (basis, (case artifact_path f basis of None \<Rightarrow> [] | Some p \<Rightarrow> p), False))"

end
