(* ===== verification/WorkroomCommit.thy ===== *)
theory WorkroomCommit
  imports WorkroomStale
begin

text \<open>
  The commitment board of \<open>internal/workroom/fold.go\<close>: deliveries by sealed merge receipts, the record that
  completes a claim, the state table of a row, the fields of the landing obligation, and
  \<open>projectCommitments\<close>, which gives one row per direct claim and one per promise.
\<close>

datatype commit_status =
  StOpen | StPromised | StReported | StAwaitingReview | StAwaitingAuthorization
| StAwaitingLanding | StSatisfied | StStale | StAbandoned | StSuperseded | StWithdrawn
| StCancelled | StReneged

datatype terminal = TermNone | TermLanded | TermReported | TermAbandoned

record commitment =
  cm_request :: string
  cm_requester :: string
  cm_addressed_to :: string
  cm_performer :: string
  cm_promise :: string
  cm_report :: string
  cm_status :: commit_status
  cm_successor :: string
  cm_stale :: bool
  cm_waiting_on :: string
  cm_target_repo :: string
  cm_target_ref :: string
  cm_legacy :: bool
  cm_hold_owner :: string
  cm_release :: string
  cm_approval :: string
  cm_candidate :: string
  cm_resolution :: string
  cm_terminal :: terminal
  cm_approved_not_landed :: bool
  cm_landing_receipt :: string

definition new_commitment :: "string \<Rightarrow> string \<Rightarrow> commit_status \<Rightarrow> commitment" where
  "new_commitment request requester status =
     \<lparr>cm_request = request, cm_requester = requester, cm_addressed_to = [], cm_performer = [],
      cm_promise = [], cm_report = [], cm_status = status, cm_successor = [], cm_stale = False,
      cm_waiting_on = [], cm_target_repo = [], cm_target_ref = [], cm_legacy = False,
      cm_hold_owner = [], cm_release = [], cm_approval = [], cm_candidate = [],
      cm_resolution = [], cm_terminal = TermNone, cm_approved_not_landed = False,
      cm_landing_receipt = []\<rparr>"

section \<open>Deliveries\<close>

type_synonym delivery_target = "string \<times> string \<times> string"

record merge_deliveries =
  md_by_target :: "(delivery_target \<times> parsed_record) list"
  md_artifacts :: "string list"

definition delivered_at ::
  "merge_deliveries \<Rightarrow> string \<Rightarrow> request_result \<Rightarrow> parsed_record option" where
  "delivered_at m artifact result =
     map_of (md_by_target m) (artifact, rr_target_repo result, rr_target_ref result)"

definition delivered :: "merge_deliveries \<Rightarrow> string \<Rightarrow> bool" where
  "delivered m artifact \<longleftrightarrow> contains (md_artifacts m) artifact"

text \<open>A later receipt for the same artifact and destination replaces an earlier one.\<close>

fun deliveries_from :: "fold_state \<Rightarrow> merge_deliveries \<Rightarrow> parsed_record list \<Rightarrow> merge_deliveries" where
  "deliveries_from f m [] = m"
| "deliveries_from f m (receipt # rest) =
     (if pr_merge_plan receipt = None \<or> is_retired f (pr_id receipt) then deliveries_from f m rest
      else (case receipt_target receipt of
              (repo, ref) \<Rightarrow>
                deliveries_from f
                  \<lparr>md_by_target = map (\<lambda>(a, p). ((a, repo, ref), receipt)) (pr_merge_artifacts receipt)
                                  @ md_by_target m,
                   md_artifacts = map fst (pr_merge_artifacts receipt) @ md_artifacts m\<rparr> rest))"

definition merged_artifacts :: "fold_state \<Rightarrow> merge_deliveries" where
  "merged_artifacts f = deliveries_from f \<lparr>md_by_target = [], md_artifacts = []\<rparr> (fs_records f)"

section \<open>Completions\<close>

record completion_scan =
  cs_report :: "parsed_record option"
  cs_artifact :: "parsed_record option"
  cs_approved :: "parsed_record option"
  cs_merged :: "parsed_record option"

definition admitted_against :: "fold_state \<Rightarrow> parsed_record \<Rightarrow> parsed_record \<Rightarrow> bool" where
  "admitted_against f r claim \<longleftrightarrow>
     (case map_of (fs_admitted_claims f) (pr_id r) of
        None \<Rightarrow> False | Some admitted \<Rightarrow> pr_id (rc_claim admitted) = pr_id claim)"

definition is_report_of :: "fold_state \<Rightarrow> parsed_record \<Rightarrow> parsed_record \<Rightarrow> bool" where
  "is_report_of f claim r \<longleftrightarrow> lifecycle_of r = LifecycleReport \<and> admitted_against f r claim"

definition is_artifact_report_of ::
  "fold_state \<Rightarrow> parsed_record \<Rightarrow> string \<Rightarrow> parsed_record \<Rightarrow> bool" where
  "is_artifact_report_of f claim performer r \<longleftrightarrow>
     renders_artifact r \<and> state_field r ''commit'' \<noteq> [] \<and> pr_actor r = performer
     \<and> admitted_against f r claim"

definition newer :: "parsed_record \<Rightarrow> parsed_record option \<Rightarrow> bool" where
  "newer r best \<longleftrightarrow> (case best of None \<Rightarrow> True | Some b \<Rightarrow> pr_index r > pr_index b)"

definition delivery_index :: "merge_deliveries \<Rightarrow> request_result \<Rightarrow> parsed_record \<Rightarrow> nat" where
  "delivery_index m result r =
     (case delivered_at m (pr_id r) result of None \<Rightarrow> 0 | Some receipt \<Rightarrow> pr_index receipt)"

definition scan_completion ::
  "fold_state \<Rightarrow> parsed_record \<Rightarrow> string \<Rightarrow> merge_deliveries \<Rightarrow> request_result \<Rightarrow> bool \<Rightarrow>
   parsed_record \<Rightarrow> completion_scan \<Rightarrow> completion_scan" where
  "scan_completion f claim performer m result landing r c =
     (if state_of r = None \<or> pr_definition r = None then c
      else (let is_report = is_report_of f claim r;
                is_art = is_artifact_report_of f claim performer r in
            if \<not> is_report \<and> \<not> is_art then c
            else if is_retired f (pr_id r) \<and> (\<not> is_art \<or> \<not> delivered m (pr_id r)) then c
            else (case delivered_at m (pr_id r) result of
                    Some receipt \<Rightarrow>
                      (case cs_merged c of
                         None \<Rightarrow> c\<lparr>cs_merged := Some r\<rparr>
                       | Some best \<Rightarrow>
                           (let at = delivery_index m result best in
                            if pr_index receipt > at
                               \<or> (pr_index receipt = at \<and> pr_index r > pr_index best)
                            then c\<lparr>cs_merged := Some r\<rparr> else c))
                  | None \<Rightarrow>
                      (let c1 = (if is_report \<and> newer r (cs_report c)
                                 then c\<lparr>cs_report := Some r\<rparr> else c);
                           c2 = (if is_art \<and> newer r (cs_artifact c1)
                                 then c1\<lparr>cs_artifact := Some r\<rparr> else c1)
                       in if landing \<and> is_art \<and> newer r (cs_approved c2)
                             \<and> ratified_approval f r \<noteq> None
                          then c2\<lparr>cs_approved := Some r\<rparr> else c2))))"

fun scan_completions ::
  "fold_state \<Rightarrow> parsed_record \<Rightarrow> string \<Rightarrow> merge_deliveries \<Rightarrow> request_result \<Rightarrow> bool \<Rightarrow>
   parsed_record list \<Rightarrow> completion_scan \<Rightarrow> completion_scan" where
  "scan_completions f claim performer m result landing [] c = c"
| "scan_completions f claim performer m result landing (r # rs) c =
     scan_completions f claim performer m result landing rs
       (scan_completion f claim performer m result landing r c)"

definition latest_completion ::
  "fold_state \<Rightarrow> parsed_record \<Rightarrow> string \<Rightarrow> merge_deliveries \<Rightarrow> request_result \<Rightarrow>
   parsed_record option" where
  "latest_completion f claim performer m result =
     (let landing = (rr_landing result \<and> \<not> rr_legacy result);
          stated_no_artifact = (rr_stated result \<and> \<not> rr_landing result);
          candidates = direct_dependents f (pr_id claim) LifecycleReport
                       @ direct_dependents f (pr_id claim) LifecycleNone;
          c = scan_completions f claim performer m result landing candidates
                \<lparr>cs_report = None, cs_artifact = None, cs_approved = None, cs_merged = None\<rparr>
      in if stated_no_artifact then cs_report c
         else if cs_merged c \<noteq> None then cs_merged c
         else if landing then (if cs_approved c \<noteq> None then cs_approved c else cs_artifact c)
         else if cs_report c \<noteq> None then cs_report c
         else cs_artifact c)"

section \<open>One row\<close>

definition landing_fields ::
  "fold_state \<Rightarrow> commitment \<Rightarrow> parsed_record \<Rightarrow> parsed_record \<Rightarrow> string \<Rightarrow>
   commitment \<times> request_result \<times> parsed_record option" where
  "landing_fields f entry request claim performer =
     (let result = commitment_result f request claim performer;
          e1 = entry\<lparr>cm_target_repo := rr_target_repo result, cm_target_ref := rr_target_ref result,
                     cm_legacy := rr_legacy result, cm_hold_owner := rr_hold_owner result\<rparr>;
          e2 = (case latest_resolution f claim of
                  None \<Rightarrow> e1 | Some q \<Rightarrow> e1\<lparr>cm_resolution := pr_id q\<rparr>)
      in if \<not> rr_landing result then (e2, result, None)
         else (case approved_reporting_artifact f claim performer of
                 None \<Rightarrow> (e2, result, None)
               | Some (approved, approval) \<Rightarrow>
                   (let e3 = e2\<lparr>cm_approval := pr_id approval,
                                cm_candidate := state_field approved ''commit''\<rparr>;
                        e4 = (if rr_held result
                              then (case release_for f (pr_id request) (cm_candidate e3)
                                           (cm_approval e3) of
                                      None \<Rightarrow> e3
                                    | Some release \<Rightarrow> e3\<lparr>cm_release := pr_id release\<rparr>)
                              else e3)
                    in (e4, result, Some approved))))"

definition completion_status ::
  "fold_state \<Rightarrow> commitment \<Rightarrow> request_result \<Rightarrow> parsed_record \<Rightarrow> string \<Rightarrow> string \<Rightarrow> commitment" where
  "completion_status f entry result completion requester performer =
     (if lifecycle_of completion = LifecycleReport then
        if is_ratified f (pr_id completion)
        then entry\<lparr>cm_status := StSatisfied, cm_terminal := TermReported, cm_waiting_on := []\<rparr>
        else entry\<lparr>cm_status := StReported, cm_waiting_on := requester\<rparr>
      else if ratified_approval f completion = None
      then entry\<lparr>cm_status := StAwaitingReview, cm_waiting_on := performer\<rparr>
      else if rr_held result \<and> cm_release entry = []
      then entry\<lparr>cm_status := StAwaitingAuthorization, cm_waiting_on := rr_hold_owner result\<rparr>
      else entry\<lparr>cm_status := StAwaitingLanding, cm_waiting_on := performer\<rparr>)"

definition mark_approved_not_landed ::
  "merge_deliveries \<Rightarrow> commitment \<Rightarrow> request_result \<Rightarrow> parsed_record option \<Rightarrow> commitment" where
  "mark_approved_not_landed m entry result approved =
     (let receipt = (case delivered_at m (cm_report entry) result of
                       Some r \<Rightarrow> Some r
                     | None \<Rightarrow> (case approved of None \<Rightarrow> None
                                | Some a \<Rightarrow> delivered_at m (pr_id a) result));
          e1 = (case receipt of None \<Rightarrow> entry | Some r \<Rightarrow> entry\<lparr>cm_landing_receipt := pr_id r\<rparr>)
      in case approved of
           None \<Rightarrow> e1
         | Some a \<Rightarrow>
             if \<not> rr_landing result \<or> cm_status e1 = StAbandoned then e1
             else e1\<lparr>cm_approved_not_landed := (delivered_at m (pr_id a) result = None)\<rparr>)"

section \<open>The rows of one request\<close>

definition landed_by_receipt ::
  "merge_deliveries \<Rightarrow> parsed_record \<Rightarrow> request_result \<Rightarrow> commitment \<Rightarrow> parsed_record option" where
  "landed_by_receipt m completion result entry =
     (if cm_status entry = StSatisfied then None else delivered_at m (pr_id completion) result)"

definition satisfied_by_landing :: "commitment \<Rightarrow> commitment" where
  "satisfied_by_landing entry =
     entry\<lparr>cm_status := StSatisfied, cm_terminal := TermLanded, cm_waiting_on := []\<rparr>"

definition name_completion :: "parsed_record option \<Rightarrow> (string \<Rightarrow> bool) \<Rightarrow> commitment \<Rightarrow> commitment" where
  "name_completion completion stale entry =
     (case completion of
        None \<Rightarrow> entry
      | Some c \<Rightarrow> entry\<lparr>cm_performer := pr_actor c, cm_report := pr_id c,
                        cm_stale := (cm_stale entry \<or> stale (pr_id c))\<rparr>)"

definition direct_row ::
  "fold_state \<Rightarrow> merge_deliveries \<Rightarrow> (string \<Rightarrow> bool) \<Rightarrow> parsed_record \<Rightarrow> bool \<Rightarrow> string \<Rightarrow>
   commitment list" where
  "direct_row f m stale request abandoned successor =
     (let performer = state_field request ''to'';
          entry0 = (new_commitment (pr_id request) (pr_actor request) StOpen)
                     \<lparr>cm_addressed_to := performer, cm_stale := stale (pr_id request)\<rparr>
      in case landing_fields f entry0 request request performer of
           (entry, result, approved) \<Rightarrow>
             (let completion = latest_completion f request performer m result in
              if completion = None \<and> direct_dependents f (pr_id request) LifecyclePromise \<noteq> []
              then []
              else (let e1 =
                (if abandoned
                 then name_completion completion stale
                        (entry\<lparr>cm_status := StAbandoned, cm_terminal := TermAbandoned,
                               cm_waiting_on := []\<rparr>)
                 else if successor \<noteq> []
                 then name_completion completion stale
                        (entry\<lparr>cm_status := StSuperseded, cm_successor := successor,
                               cm_waiting_on := []\<rparr>)
                 else if is_retired f (pr_id request) then entry\<lparr>cm_status := StWithdrawn\<rparr>
                 else (case completion of
                         Some c \<Rightarrow>
                           (let e2 = (completion_status f
                                  (entry\<lparr>cm_performer := pr_actor c, cm_report := pr_id c\<rparr>)
                                  result c (pr_actor request) (pr_actor c))
                                 \<lparr>cm_stale := (stale (pr_id request) \<or> stale (pr_id c))\<rparr>
                            in case landed_by_receipt m c result e2 of
                                 None \<Rightarrow> e2 | Some receipt \<Rightarrow> satisfied_by_landing e2)
                       | None \<Rightarrow> if stale (pr_id request) then entry\<lparr>cm_status := StStale\<rparr>
                                 else entry))
               in [mark_approved_not_landed m e1 result approved])))"

definition report_completion ::
  "parsed_record option \<Rightarrow> (string \<Rightarrow> bool) \<Rightarrow> bool \<Rightarrow> commitment \<Rightarrow> commitment" where
  "report_completion completion stale base entry =
     (case completion of
        None \<Rightarrow> entry
      | Some c \<Rightarrow> entry\<lparr>cm_report := pr_id c, cm_stale := (base \<or> stale (pr_id c))\<rparr>)"

definition promise_row ::
  "fold_state \<Rightarrow> merge_deliveries \<Rightarrow> (string \<Rightarrow> bool) \<Rightarrow> parsed_record \<Rightarrow> bool \<Rightarrow> string \<Rightarrow>
   parsed_record \<Rightarrow> commitment" where
  "promise_row f m stale request abandoned successor promise =
     (let performer = pr_actor promise;
          entry0 = (new_commitment (pr_id request) (pr_actor request) StPromised)
                     \<lparr>cm_performer := performer, cm_promise := pr_id promise,
                      cm_waiting_on := performer\<rparr>;
          base = (stale (pr_id request) \<or> stale (pr_id promise))
      in case landing_fields f entry0 request promise performer of
           (entry, result, approved) \<Rightarrow>
             (let completion = latest_completion f promise performer m result;
                  e1 =
                (if abandoned
                 then report_completion completion stale base
                        (entry\<lparr>cm_status := StAbandoned, cm_terminal := TermAbandoned,
                               cm_waiting_on := []\<rparr>)
                 else if successor \<noteq> []
                 then report_completion completion stale base
                        (entry\<lparr>cm_status := StSuperseded, cm_successor := successor,
                               cm_waiting_on := []\<rparr>)
                 else if is_retired f (pr_id request)
                 then entry\<lparr>cm_status := StCancelled, cm_waiting_on := []\<rparr>
                 else if is_retired f (pr_id promise)
                 then entry\<lparr>cm_status := StReneged, cm_waiting_on := []\<rparr>
                 else (let e2 = (case completion of
                         None \<Rightarrow> entry
                       | Some c \<Rightarrow>
                           (let e3 = (completion_status f (entry\<lparr>cm_report := pr_id c\<rparr>) result c
                                        (pr_actor request) performer)
                                       \<lparr>cm_stale := (base \<or> stale (pr_id c))\<rparr>
                            in case landed_by_receipt m c result e3 of
                                 None \<Rightarrow> e3
                               | Some receipt \<Rightarrow>
                                   (satisfied_by_landing e3)
                                     \<lparr>cm_stale := (cm_stale e3 \<or> stale (pr_id receipt))\<rparr>))
                       in if cm_report e2 = [] \<and> base
                          then e2\<lparr>cm_status := StStale, cm_stale := True\<rparr> else e2))
              in mark_approved_not_landed m e1 result approved))"

fun linked_from :: "fold_state \<Rightarrow> parsed_record list \<Rightarrow> string" where
  "linked_from f [] = []"
| "linked_from f (s # rest) =
     (if is_retired f (pr_id s) then linked_from f rest
      else if pr_linked_successor s \<noteq> [] then pr_linked_successor s
      else if pr_carried_successor s \<noteq> [] then pr_carried_successor s
      else linked_from f rest)"

definition linked_request_successor :: "fold_state \<Rightarrow> string \<Rightarrow> string" where
  "linked_request_successor f request = linked_from f (fs_supersessions_by_target f request)"

definition is_request_row :: "parsed_record \<Rightarrow> bool" where
  "is_request_row r \<longleftrightarrow>
     state_of r \<noteq> None \<and> pr_definition r \<noteq> None \<and> lifecycle_of r = LifecycleRequest
     \<and> pr_verdict r = Effective"

definition request_rows ::
  "fold_state \<Rightarrow> merge_deliveries \<Rightarrow> (string \<Rightarrow> bool) \<Rightarrow> parsed_record \<Rightarrow> commitment list" where
  "request_rows f m stale request =
     (let successor = linked_request_successor f (pr_id request);
          abandoned = abandoned_request f (pr_id request)
      in direct_row f m stale request abandoned successor
         @ map (promise_row f m stale request abandoned successor)
             (direct_dependents f (pr_id request) LifecyclePromise))"

definition project_commitments :: "fold_state \<Rightarrow> (string \<Rightarrow> bool) \<Rightarrow> commitment list" where
  "project_commitments f stale =
     concat (map (request_rows f (merged_artifacts f) stale) (filter is_request_row (fs_records f)))"

definition unsettled_status :: "commit_status \<Rightarrow> bool" where
  "unsettled_status s \<longleftrightarrow>
     s \<in> {StOpen, StPromised, StReported, StAwaitingReview, StAwaitingAuthorization,
           StAwaitingLanding, StStale}"

definition unsettled_events_of :: "commitment \<Rightarrow> string list" where
  "unsettled_events_of c =
     (if unsettled_status (cm_status c)
      then cm_request c # (if cm_promise c \<noteq> [] then [cm_promise c] else [])
           @ (if cm_report c \<noteq> [] then [cm_report c] else [])
      else [])"

definition unsettled_commitment_events :: "fold_state \<Rightarrow> string list" where
  "unsettled_commitment_events f =
     concat (map unsettled_events_of (project_commitments f (\<lambda>_. False)))"

section \<open>Lemmas\<close>

text \<open>
  What staleness can change in a row: its flag, and the status words \<open>open\<close>, \<open>promised\<close> and \<open>stale\<close>
  among themselves. The rows, their order and the events they name do not depend on it.
\<close>

definition same_but_stale :: "commitment \<Rightarrow> commitment \<Rightarrow> bool" where
  "same_but_stale c d \<longleftrightarrow>
     c\<lparr>cm_stale := False, cm_status := StOpen\<rparr> = d\<lparr>cm_stale := False, cm_status := StOpen\<rparr>
     \<and> (cm_status c = cm_status d
        \<or> {cm_status c, cm_status d} \<subseteq> {StOpen, StPromised, StStale})"

lemma same_but_stale_refl: "same_but_stale c c"
  by (simp add: same_but_stale_def)

end
