(* ===== verification/WorkroomReceipt.thy ===== *)
theory WorkroomReceipt
  imports WorkroomCommit
begin

text \<open>
  Merge receipts (\<open>internal/workroom/fold.go\<close>): the retirement plan a receipt may authorize, the cross-author
  supersession it lends its signer, and the accounting of the artifacts it left live. JSON text is
  read by the parser of \<open>fold_lib\<close>; the conversion into Go maps, slices and the claim struct is
  modelled, with Go's \<open>null\<close> and field-name matching.
\<close>

section \<open>Signed JSON fields\<close>

definition json_map :: "('l) fold_lib_scheme \<Rightarrow> string \<Rightarrow> (string \<times> json) list option option" where
  "json_map L raw = (case parse_json L raw of None \<Rightarrow> None | Some v \<Rightarrow> unmarshal_map Some v)"

definition json_string_map :: "('l) fold_lib_scheme \<Rightarrow> string \<Rightarrow> body_map option option" where
  "json_string_map L raw =
     (case parse_json L raw of None \<Rightarrow> None | Some v \<Rightarrow> unmarshal_map unmarshal_string v)"

definition json_strings :: "('l) fold_lib_scheme \<Rightarrow> string \<Rightarrow> string list option option" where
  "json_strings L raw = (case parse_json L raw of None \<Rightarrow> None | Some v \<Rightarrow> unmarshal_strings v)"

text \<open>
  Field names of a struct match without regard to case; the one non-ASCII letter that folds to a
  letter of these names is the long s, the bytes C5 BF.
\<close>

definition lower_ascii :: "char \<Rightarrow> char" where
  "lower_ascii c =
     (let n = (of_char c :: nat) in if 65 \<le> n \<and> n \<le> 90 then char_of (n + 32) else c)"

fun fold_name :: "string \<Rightarrow> string" where
  "fold_name [] = []"
| "fold_name [c] = [lower_ascii c]"
| "fold_name (c # d # s) =
     (if (of_char c :: nat) = 197 \<and> (of_char d :: nat) = 191 then CHR ''s'' # fold_name s
      else lower_ascii c # fold_name (d # s))"

fun claim_fields :: "(string \<times> json) list \<Rightarrow> string \<times> string \<Rightarrow> (string \<times> string) option" where
  "claim_fields [] claim = Some claim"
| "claim_fields ((k, v) # es) (cls, commitment) =
     (let name = fold_name k in
      if name \<noteq> ''class'' \<and> name \<noteq> ''commitment'' then claim_fields es (cls, commitment)
      else (case v of
              JNull \<Rightarrow> claim_fields es (cls, commitment)
            | JStr s \<Rightarrow> claim_fields es (if name = ''class'' then (s, commitment) else (cls, s))
            | _ \<Rightarrow> None))"

fun unmarshal_claim :: "json \<Rightarrow> (string \<times> string) option" where
  "unmarshal_claim JNull = Some ([], [])"
| "unmarshal_claim (JObj es) = claim_fields es ([], [])"
| "unmarshal_claim _ = None"

definition published_path_set :: "('l) fold_lib_scheme \<Rightarrow> string \<Rightarrow> string list" where
  "published_path_set L raw =
     (case json_strings L raw of
        Some (Some successors) \<Rightarrow> filter (\<lambda>p. p \<noteq> []) successors
      | _ \<Rightarrow> [])"

fun increasing_paths :: "string list \<Rightarrow> bool" where
  "increasing_paths [] \<longleftrightarrow> True"
| "increasing_paths [p] \<longleftrightarrow> p \<noteq> []"
| "increasing_paths (p # q # ps) \<longleftrightarrow> p \<noteq> [] \<and> str_less p q \<and> increasing_paths (q # ps)"

definition parse_merge_changed_paths ::
  "('l) fold_lib_scheme \<Rightarrow> string \<Rightarrow> bool \<Rightarrow> string list option" where
  "parse_merge_changed_paths L raw present_field =
     (if \<not> present_field then None
      else (case json_strings L raw of
              Some (Some paths) \<Rightarrow>
                if increasing_paths paths \<and> marshal_strings L paths = raw then Some paths else None
            | _ \<Rightarrow> None))"

definition merge_successor_paths :: "('l) fold_lib_scheme \<Rightarrow> parsed_record \<Rightarrow> string list" where
  "merge_successor_paths L receipt =
     (case state_of receipt of
        None \<Rightarrow> []
      | Some s \<Rightarrow> (case json_strings L (body_get (st_body s) ''merge_successors'') of
                     Some (Some paths) \<Rightarrow> paths
                   | _ \<Rightarrow> []))"

text \<open>\<open>declaredDeletions\<close>: the artifacts whose planned successor is the explicit empty string.\<close>

definition declared_deletions :: "('l) fold_lib_scheme \<Rightarrow> parsed_record \<Rightarrow> string list" where
  "declared_deletions L receipt =
     (case state_of receipt of
        None \<Rightarrow> []
      | Some s \<Rightarrow> (case json_map L (body_get (st_body s) ''merge_retirements'') of
                     Some (Some plan) \<Rightarrow> map fst (filter (\<lambda>(a, v). v = JStr []) plan)
                   | _ \<Rightarrow> []))"

section \<open>The authority of a receipt\<close>

definition valid_incorporation :: "('l) fold_lib_scheme \<Rightarrow> body_map \<Rightarrow> body_map \<Rightarrow> bool" where
  "valid_incorporation L b plan \<longleftrightarrow>
     (let word = body_get b ''merge_incorporation'' in
      if word = [] then True
      else if word = incorporation_prior then
        (if body_get b ''merge_head'' \<noteq> body_get b ''merge_candidate'' \<or> plan \<noteq> [] then False
         else if (case json_strings L (body_get b ''merge_successors'') of
                    None \<Rightarrow> True | Some None \<Rightarrow> False | Some (Some ss) \<Rightarrow> ss \<noteq> []) then False
         else if body_has b ''merge_left_live''
                 \<and> json_map L (body_get b ''merge_left_live'') \<noteq> Some (Some []) then False
         else if body_has b ''merge_changed_paths''
                 \<and> json_strings L (body_get b ''merge_changed_paths'') \<noteq> Some (Some []) then False
         else True)
      else False)"

fun reviewed_from ::
  "fold_state \<Rightarrow> string \<Rightarrow> string \<Rightarrow> (string \<Rightarrow> bool) \<Rightarrow> body_map \<Rightarrow> string list \<Rightarrow> body_map" where
  "reviewed_from f implementer head world artifacts [] = artifacts"
| "reviewed_from f implementer head world artifacts (basis # rest) =
     (case lookup f basis of
        None \<Rightarrow> reviewed_from f implementer head world artifacts rest
      | Some cited \<Rightarrow>
          if pr_verdict cited \<noteq> Effective \<or> is_retired f basis \<or> world basis
             \<or> pr_actor cited \<noteq> implementer \<or> \<not> renders_artifact cited \<or> state_of cited = None
             \<or> state_field cited ''commit'' \<noteq> head \<or> state_field cited ''path'' = []
             \<or> body_has artifacts basis
          then reviewed_from f implementer head world artifacts rest
          else reviewed_from f implementer head world
                 ((basis, state_field cited ''path'') # artifacts) rest)"

definition reviewed_artifacts_with ::
  "fold_state \<Rightarrow> parsed_record \<Rightarrow> string \<Rightarrow> string \<Rightarrow> (string \<Rightarrow> bool) \<Rightarrow> body_map" where
  "reviewed_artifacts_with f approval implementer head world =
     reviewed_from f implementer head world [] (pr_rests_on approval)"

text \<open>The approval a receipt names, with the verdict that says it approves the candidate.\<close>

definition receipt_approval ::
  "fold_state \<Rightarrow> parsed_record \<Rightarrow> state_payload \<Rightarrow> (parsed_record \<times> state_payload) option" where
  "receipt_approval f receipt s =
     (let approval_id = body_get (st_body s) ''merge_approval'' in
      if \<not> contains (pr_rests_on receipt) approval_id then None
      else (case lookup f approval_id of
              None \<Rightarrow> None
            | Some approval \<Rightarrow>
                if pr_verdict approval \<noteq> Effective \<or> is_retired f approval_id
                   \<or> \<not> is_ratified f approval_id then None
                else (case state_of approval of
                        None \<Rightarrow> None
                      | Some v \<Rightarrow>
                          if st_kind v \<noteq> kind_report \<or> body_get (st_body v) ''verdict'' \<noteq> ''approved''
                             \<or> body_get (st_body v) ''head'' \<noteq> body_get (st_body s) ''merge_candidate''
                          then None else Some (approval, v))))"

text \<open>The implementation artifact the verdict names, independent of the approver.\<close>

definition receipt_artifact ::
  "fold_state \<Rightarrow> parsed_record \<Rightarrow> state_payload \<Rightarrow> parsed_record \<Rightarrow> state_payload \<Rightarrow>
   parsed_record option" where
  "receipt_artifact f receipt s approval v =
     (let artifact_id = body_get (st_body v) ''artifact'' in
      case lookup f artifact_id of
        None \<Rightarrow> None
      | Some artifact \<Rightarrow>
          if pr_verdict artifact \<noteq> Effective \<or> is_retired f artifact_id
             \<or> \<not> contains (pr_rests_on approval) artifact_id then None
          else if state_of artifact = None \<or> \<not> renders_artifact artifact
                  \<or> state_field artifact ''commit'' \<noteq> body_get (st_body s) ''merge_candidate''
                  \<or> pr_actor artifact = pr_actor approval then None
          else if pr_actor receipt \<noteq> pr_actor artifact then None
          else if state_field artifact ''path'' = [] then None
          else Some artifact)"

definition reached_plan :: "fold_state \<Rightarrow> body_map \<Rightarrow> body_map \<Rightarrow> body_map" where
  "reached_plan f reviewed plan =
     filter (\<lambda>(target, successor).
               case artifact_path f target of
                 None \<Rightarrow> False
               | Some path \<Rightarrow> list_ex (\<lambda>(a, within). same_tree_lineage within path) reviewed) plan"

text \<open>The plan and the reviewed artifacts, or \<open>None\<close> for a receipt that authorizes nothing.\<close>

definition validate_merge_receipt_now ::
  "('l) fold_lib_scheme \<Rightarrow> fold_state \<Rightarrow> parsed_record \<Rightarrow> (body_map \<times> body_map) option" where
  "validate_merge_receipt_now L f receipt =
     (if pr_verdict receipt \<noteq> Effective \<or> is_retired f (pr_id receipt) then None
      else (case state_of receipt of
        None \<Rightarrow> None
      | Some s \<Rightarrow>
          if st_kind s \<noteq> kind_assert \<or> body_get (st_body s) ''merge_head'' = []
             \<or> body_get (st_body s) ''merge_target_pre_head'' = []
             \<or> body_get (st_body s) ''merge_candidate'' = []
             \<or> body_get (st_body s) ''merge_approval'' = [] then None
          else (case receipt_approval f receipt s of
            None \<Rightarrow> None
          | Some (approval, v) \<Rightarrow>
             (case receipt_artifact f receipt s approval v of
                None \<Rightarrow> None
              | Some artifact \<Rightarrow>
                 (let scope = staleness_as_of f (Some (pr_sequence approval));
                      world = sp_world (compute_staleness scope (Some (pr_rests_on approval))
                                (scope_succeeded_retirements scope) False)
                  in if world (body_get (st_body v) ''artifact'') then None
                     else (let reviewed = reviewed_artifacts_with f approval (pr_actor artifact)
                                 (body_get (st_body s) ''merge_candidate'') world
                           in if reviewed = [] then None
                              else (case json_string_map L
                                      (body_get (st_body s) ''merge_retirements'') of
                                      Some (Some plan) \<Rightarrow>
                                        if \<not> valid_incorporation L (st_body s) plan then None
                                        else Some (reached_plan f reviewed plan, reviewed)
                                    | _ \<Rightarrow> None)))))))"

definition merge_receipt_plan :: "fold_state \<Rightarrow> parsed_record \<Rightarrow> body_map option" where
  "merge_receipt_plan f receipt =
     (if is_retired f (pr_id receipt) then None else pr_merge_plan receipt)"

definition cites_merge_successor ::
  "fold_state \<Rightarrow> parsed_record \<Rightarrow> parsed_record \<Rightarrow> string \<Rightarrow> bool" where
  "cites_merge_successor f r receipt path \<longleftrightarrow>
     list_ex (\<lambda>basis. case lookup f basis of
          None \<Rightarrow> False
        | Some c \<Rightarrow>
            pr_verdict c = Effective \<and> \<not> is_retired f basis \<and> renders_artifact c
            \<and> state_of c \<noteq> None \<and> state_field c ''path'' = path
            \<and> state_field c ''commit'' = state_field receipt ''merge_head''
            \<and> contains (pr_rests_on c) (pr_id receipt))
       (tl (pr_rests_on r))"

definition receipt_authorizes ::
  "fold_state \<Rightarrow> parsed_record \<Rightarrow> string \<Rightarrow> string \<Rightarrow> string \<Rightarrow> bool" where
  "receipt_authorizes f r target target_path basis \<longleftrightarrow>
     (case lookup f basis of
        None \<Rightarrow> False
      | Some receipt \<Rightarrow>
          pr_verdict receipt = Effective \<and> \<not> is_retired f basis \<and> pr_actor receipt = pr_actor r
          \<and> (case merge_receipt_plan f receipt of
               None \<Rightarrow> False
             | Some plan \<Rightarrow>
                 (case map_of plan target of
                    None \<Rightarrow> False
                  | Some successor_path \<Rightarrow>
                      path_covers successor_path target_path
                      \<and> cites_merge_successor f r receipt successor_path)))"

definition has_authorized_merge_receipt :: "fold_state \<Rightarrow> parsed_record \<Rightarrow> string \<Rightarrow> bool" where
  "has_authorized_merge_receipt f r target \<longleftrightarrow>
     (case lookup f target of
        None \<Rightarrow> False
      | Some t \<Rightarrow>
          state_field t ''path'' \<noteq> []
          \<and> list_ex (receipt_authorizes f r target (state_field t ''path'')) (tl (pr_rests_on r)))"

section \<open>Which commitment protects an artifact\<close>

function (sequential) provenance_walk ::
  "fold_state \<Rightarrow> string \<Rightarrow> string list \<Rightarrow> string list \<Rightarrow> bool" where
  "provenance_walk f target seen [] = False"
| "provenance_walk f target seen (current # stack) =
     (if current = target then True
      else if contains seen current then provenance_walk f target seen stack
      else (case lookup f current of
              None \<Rightarrow> provenance_walk f target (current # seen) stack
            | Some r \<Rightarrow>
                if pr_verdict r \<noteq> Effective then provenance_walk f target (current # seen) stack
                else provenance_walk f target (current # seen) (pr_rests_on r @ stack)))"
  by pat_completeness auto

termination
  by (relation "inv_image stack_order
        (\<lambda>(f, target, seen, stack). (unvisited (fs_byID f) seen, length stack))")
     (simp_all only: in_inv_image prod.case contains_iff stack_expand stack_pop wf_stack_order
        not_False_eq_True)

definition effective_provenance_reaches :: "fold_state \<Rightarrow> string \<Rightarrow> string \<Rightarrow> bool" where
  "effective_provenance_reaches f from target = provenance_walk f target [] [from]"

definition commitment_protects_artifact :: "fold_state \<Rightarrow> string \<Rightarrow> parsed_record \<Rightarrow> bool" where
  "commitment_protects_artifact f commitment artifact \<longleftrightarrow>
     (case lookup f commitment of
        None \<Rightarrow> False
      | Some r \<Rightarrow>
          if pr_verdict r \<noteq> Effective \<or> pr_definition r = None then False
          else if lifecycle_of r \<notin> {LifecycleRequest, LifecyclePromise, LifecycleReport} then False
          else if state_of r = None \<or> state_of artifact = None then False
          else (let commit = state_field artifact ''commit'' in
                if commit \<noteq> [] \<and> (state_field r ''head'' = commit \<or> state_field r ''commit'' = commit)
                then True
                else effective_provenance_reaches f commitment (pr_id artifact)
                     \<or> effective_provenance_reaches f (pr_id artifact) commitment))"

definition live_protector :: "fold_state \<Rightarrow> parsed_record \<Rightarrow> string list \<Rightarrow> string" where
  "live_protector f artifact unsettled =
     (case List.find (\<lambda>i. commitment_protects_artifact f i artifact)
             (sort_strings (remdups unsettled)) of
        None \<Rightarrow> [] | Some i \<Rightarrow> i)"

section \<open>Accounting for what was left live\<close>

definition artifact_covers_changed_path :: "string \<Rightarrow> string list \<Rightarrow> bool" where
  "artifact_covers_changed_path artifact changed \<longleftrightarrow> list_ex (path_covers artifact) changed"

fun closest_from :: "string \<Rightarrow> string list \<Rightarrow> string \<Rightarrow> string" where
  "closest_from winner [] predecessor = winner"
| "closest_from winner (successor # rest) predecessor =
     (if \<not> path_covers successor predecessor then closest_from winner rest predecessor
      else if winner = [] \<or> (successor \<noteq> winner \<and> path_covers winner successor)
      then closest_from successor rest predecessor
      else closest_from winner rest predecessor)"

definition closest_covering_path :: "string list \<Rightarrow> string \<Rightarrow> string" where
  "closest_covering_path successors predecessor = closest_from [] successors predecessor"

definition left_live_successor ::
  "('l) fold_lib_scheme \<Rightarrow> parsed_record \<Rightarrow> string \<Rightarrow> string" where
  "left_live_successor L receipt predecessor =
     closest_covering_path (merge_successor_paths L receipt) predecessor"

definition unverified :: "left_live_reason \<Rightarrow> left_live" where
  "unverified why =
     \<lparr>ll_artifact = [], ll_class = [], ll_commitment = [], ll_verified = False, ll_reason = why,
      ll_path = [], ll_successor = [], ll_declared_deletion = False\<rparr>"

definition plan_has :: "parsed_record \<Rightarrow> string \<Rightarrow> bool" where
  "plan_has receipt e \<longleftrightarrow>
     (case pr_merge_plan receipt of None \<Rightarrow> False | Some plan \<Rightarrow> body_has plan e)"

text \<open>A live effective artifact older than the receipt that covers a changed path.\<close>

definition live_covered_artifact :: "fold_state \<Rightarrow> parsed_record \<Rightarrow> parsed_record \<Rightarrow> bool" where
  "live_covered_artifact f receipt r \<longleftrightarrow>
     pr_index r < pr_index receipt \<and> pr_verdict r = Effective \<and> renders_artifact r
     \<and> \<not> is_retired f (pr_id r) \<and> state_of r \<noteq> None
     \<and> artifact_covers_changed_path (state_field r ''path'') (pr_changed_paths receipt)"

definition missing_left_live ::
  "('l) fold_lib_scheme \<Rightarrow> fold_state \<Rightarrow> parsed_record \<Rightarrow> string list \<Rightarrow> left_live list" where
  "missing_left_live L f receipt classified =
     (if \<not> pr_changed_paths_valid receipt then []
      else map (\<lambda>r. (unverified NotClassified)
                  \<lparr>ll_artifact := pr_id r, ll_path := state_field r ''path'',
                   ll_successor := left_live_successor L receipt (state_field r ''path''),
                   ll_declared_deletion := contains (declared_deletions L receipt) (pr_id r)\<rparr>)
             (filter (\<lambda>r. live_covered_artifact f receipt r \<and> \<not> contains classified (pr_id r)
                           \<and> \<not> plan_has receipt (pr_id r)) (fs_records f)))"

fun bump :: "string \<Rightarrow> (string \<times> nat) list \<Rightarrow> (string \<times> nat) list" where
  "bump k [] = [(k, 1)]"
| "bump k ((k', n) # rest) = (if k = k' then (k', Suc n) # rest else (k', n) # bump k rest)"

definition unaccounted_at_receipt ::
  "('l) fold_lib_scheme \<Rightarrow> fold_state \<Rightarrow> parsed_record \<Rightarrow> string list \<Rightarrow> (string \<times> nat) list" where
  "unaccounted_at_receipt L f receipt verified =
     (let paths = merge_successor_paths L receipt in
      if \<not> pr_changed_paths_valid receipt
      then (let named = map (\<lambda>p. (p, 1)) (remdups (filter (\<lambda>p. p \<noteq> []) paths))
            in if named = [] then [([], 1)] else named)
      else if paths = [] then []
      else foldl (\<lambda>tally r. bump (closest_covering_path paths (state_field r ''path'')) tally) []
             (filter (\<lambda>r. live_covered_artifact f receipt r \<and> \<not> plan_has receipt (pr_id r)
                           \<and> \<not> contains verified (pr_id r)) (fs_records f)))"

text \<open>The judgement of one claim whose artifact stands, by its class.\<close>

definition class_reason ::
  "fold_state \<Rightarrow> string list \<Rightarrow> parsed_record \<Rightarrow> string \<Rightarrow> string \<Rightarrow> string \<Rightarrow> string \<Rightarrow>
   left_live_reason" where
  "class_reason f unsettled artifact path successor cls commitment =
     (if cls = ''carried'' then
        if commitment \<noteq> [] then CarriedNamesCommitment
        else if successor \<noteq> [] \<and> (path = successor \<or> \<not> path_covers path successor)
        then CarriedNotWider else LeftLiveNoReason
      else if cls = ''sibling'' then
        if commitment = [] then SiblingNamesNone
        else if \<not> contains unsettled commitment then CommitmentNotUnsettled
        else if \<not> commitment_protects_artifact f commitment artifact then CommitmentNotReaching
        else LeftLiveNoReason
      else if cls = ''abandoned'' then
        if commitment \<noteq> [] then AbandonedNamesCommitment
        else (let protector = live_protector f artifact unsettled in
              if protector \<noteq> [] then ProtectedByCommitment protector else LeftLiveNoReason)
      else UnknownLeftLiveClass)"

definition judge_left_live ::
  "('l) fold_lib_scheme \<Rightarrow> fold_state \<Rightarrow> parsed_record \<Rightarrow> string list \<Rightarrow> string \<Rightarrow> string \<times> string \<Rightarrow>
   left_live" where
  "judge_left_live L f receipt unsettled i claim =
     (let entry = (unverified LeftLiveNoReason)
            \<lparr>ll_artifact := i, ll_class := fst claim, ll_commitment := snd claim\<rparr>
      in case (artifact_path f i, lookup f i) of
           (Some path, Some artifact) \<Rightarrow>
             (let placed = entry\<lparr>ll_path := path\<rparr> in
              if pr_verdict artifact \<noteq> Effective \<or> pr_index artifact \<ge> pr_index receipt
              then entry\<lparr>ll_reason := ArtifactUnresolved\<rparr>
              else if is_retired f i then placed\<lparr>ll_reason := ArtifactNotLive\<rparr>
              else if plan_has receipt i then placed\<lparr>ll_reason := ArtifactAlsoRetired\<rparr>
              else if \<not> pr_changed_paths_valid receipt
              then placed\<lparr>ll_reason := ChangedPathsInvalid\<rparr>
              else if \<not> artifact_covers_changed_path path (pr_changed_paths receipt)
              then placed\<lparr>ll_reason := NoChangedPathCovered\<rparr>
              else (let successor = left_live_successor L receipt path;
                        why = class_reason f unsettled artifact path successor (fst claim)
                                (snd claim)
                    in placed\<lparr>ll_successor := successor, ll_reason := why,
                              ll_verified := (why = LeftLiveNoReason)\<rparr>))
         | _ \<Rightarrow> entry\<lparr>ll_reason := ArtifactUnresolved\<rparr>)"

definition validate_merge_left_live_now ::
  "('l) fold_lib_scheme \<Rightarrow> fold_state \<Rightarrow> parsed_record \<Rightarrow> string option \<Rightarrow> string list \<Rightarrow>
   left_live list \<times> (string \<times> nat) list" where
  "validate_merge_left_live_now L f receipt raw unsettled =
     (case raw of
        None \<Rightarrow> (unverified LeftLiveAbsent # missing_left_live L f receipt [],
                 unaccounted_at_receipt L f receipt [])
      | Some text \<Rightarrow>
          (case (case parse_json L text of None \<Rightarrow> None | Some v \<Rightarrow> unmarshal_map unmarshal_claim v) of
             Some (Some claims) \<Rightarrow>
               if \<not> pr_changed_paths_valid receipt \<and> claims = []
               then ([unverified ChangedPathsInvalid], unaccounted_at_receipt L f receipt [])
               else (let ids = sort_strings (map fst claims);
                         accounting = map (\<lambda>i. judge_left_live L f receipt unsettled i
                           (case map_of claims i of None \<Rightarrow> ([], []) | Some c \<Rightarrow> c)) ids;
                         verified = map ll_artifact (filter ll_verified accounting)
                     in (accounting @ missing_left_live L f receipt ids,
                         unaccounted_at_receipt L f receipt verified))
           | _ \<Rightarrow> (unverified LeftLiveNotJson # missing_left_live L f receipt [],
                   unaccounted_at_receipt L f receipt [])))"

definition retirement_on_own_standing :: "fold_state \<Rightarrow> string \<Rightarrow> bool" where
  "retirement_on_own_standing f artifact \<longleftrightarrow>
     is_retired f artifact
     \<and> list_ex (\<lambda>s. pr_own_standing s \<and> \<not> is_retired f (pr_id s))
         (fs_supersessions_by_target f artifact)"

definition accounted_deletion :: "fold_state \<Rightarrow> left_live \<Rightarrow> bool" where
  "accounted_deletion f entry \<longleftrightarrow>
     ll_declared_deletion entry \<and> retirement_on_own_standing f (ll_artifact entry)"

definition accounted_deletions :: "fold_state \<Rightarrow> parsed_record \<Rightarrow> string \<Rightarrow> nat" where
  "accounted_deletions f receipt path =
     length (filter (\<lambda>e. ll_successor e = path \<and> accounted_deletion f e) (pr_left_live receipt))"

end
