(* ===== verification/WorkroomDecide.thy ===== *)
theory WorkroomDecide
  imports WorkroomReceipt
begin

text \<open>
  The decisions of the fold and its \<open>append\<close> (\<open>internal/workroom/fold.go\<close>): \<open>judge\<close> decodes one record and
  decides it, \<open>append\<close> applies what an admitted record does to the state. A decision function
  returns the state (\<open>decideState\<close> remembers admitted claims), the record with the fields it seals,
  and the decision. The two loops without a bound of their own make \<open>judge\<close> and \<open>append\<close>
  option-valued.
\<close>

section \<open>Statements\<close>

definition decided :: "parsed_record \<Rightarrow> verdict \<Rightarrow> reason \<Rightarrow> decision" where
  "decided r v why = \<lparr>dc_event = pr_id r, dc_verdict = v, dc_reason = why\<rparr>"

abbreviation stated_decision :: "parsed_record \<Rightarrow> verdict \<Rightarrow> state_reason \<Rightarrow> decision" where
  "stated_decision r v why \<equiv> decided r v (StateReason why)"

definition governing_definition ::
  "fold_state \<Rightarrow> parsed_record \<Rightarrow> state_payload \<Rightarrow> kind_definition option" where
  "governing_definition f r s =
     (case fs_definitions f (st_kind s) of
        Some d \<Rightarrow> Some d
      | None \<Rightarrow>
          if st_kind s = kind_fold_activation
             \<and> (lr_schema (pr_record r) = schema_state_legacy
                \<or> lr_schema (pr_record r) = schema_state_v1)
          then Some legacy_fold_activation_definition else None)"

definition path_refusal :: "parsed_record \<Rightarrow> kind_definition \<Rightarrow> body_map \<Rightarrow> state_reason option" where
  "path_refusal r d b =
     (if lr_schema (pr_record r) \<noteq> schema_state_legacy \<and> kd_render d = RenderArtifact then
        if body_get b ''path'' = ''.'' then Some WholeRepositoryPath
        else if CHR '','' \<in> set (body_get b ''path'') then Some CommaJoinedPath else None
      else None)"

text \<open>The first basis kind of a declaration that nothing defines here.\<close>

definition undefined_basis_kind :: "fold_state \<Rightarrow> kind_definition \<Rightarrow> string option" where
  "undefined_basis_kind f d =
     List.find (\<lambda>k. fs_definitions f k = None) (concat (map bc_kinds (kd_basis d)))"

definition declare_kind ::
  "('l) fold_lib_scheme \<Rightarrow> fold_state \<Rightarrow> parsed_record \<Rightarrow> state_payload \<Rightarrow>
   state_reason + kind_definition option" where
  "declare_kind L f r s =
     (if st_kind s \<noteq> kind_kind_def then Inr None
      else (case decode_kind_definition L (st_body s) (pr_id r) of
              Inl e \<Rightarrow> Inl (KindUninterpretable e)
            | Inr d \<Rightarrow> (case undefined_basis_kind f d of
                          Some k \<Rightarrow> Inl (BasisKindUndefined k)
                        | None \<Rightarrow> Inr (Some d))))"

definition remember_claim :: "fold_state \<Rightarrow> string \<Rightarrow> report_claim \<Rightarrow> fold_state" where
  "remember_claim f e c = f\<lparr>fs_admitted_claims := (e, c) # fs_admitted_claims f\<rparr>"

text \<open>
  What follows the common checks: the commitment rules of the definition's lifecycle. \<open>claimed\<close> is
  the claim a report must have; the artifact that carries a commit remembers one when it can.
\<close>

definition request_refusal ::
  "fold_state \<Rightarrow> parsed_record \<Rightarrow> kind_definition \<Rightarrow> state_payload \<Rightarrow>
   state_reason + request_result option" where
  "request_refusal f r d s =
     (if kd_lifecycle d = LifecycleRequest \<and> \<not> has_actor f (body_get (st_body s) ''to'')
      then Inl PerformerNotLive
      else if kd_lifecycle d = LifecycleRequest \<and> states_request_result (lr_schema (pr_record r))
      then (case decide_request_result f r (st_body s) of
              Inl e \<Rightarrow> Inl (ResultRefused e) | Inr result \<Rightarrow> Inr (Some result))
      else Inr None)"

definition promise_refusal ::
  "fold_state \<Rightarrow> parsed_record \<Rightarrow> kind_definition \<Rightarrow> (verdict \<times> state_reason) option" where
  "promise_refusal f r d =
     (if kd_lifecycle d \<noteq> LifecyclePromise then None
      else (case bases_of_lifecycle f (pr_rests_on r) LifecycleRequest of
              [request] \<Rightarrow>
                if state_field request ''to'' \<noteq> pr_actor r
                then Some (Ineffective, PromiseNotPerformer) else None
            | requests \<Rightarrow> Some (if length requests > 1 then Disputed else Ineffective,
                               PromiseRequestCount (length requests))))"

definition report_refusal ::
  "fold_state \<Rightarrow> parsed_record \<Rightarrow> kind_definition \<Rightarrow> state_payload \<Rightarrow>
   (verdict \<times> state_reason) + report_claim option" where
  "report_refusal f r d s =
     (if kd_lifecycle d \<noteq> LifecycleReport then Inr None
      else (case report_claim f r of
              Inl (v, e) \<Rightarrow> Inl (v, ClaimRefused e)
            | Inr claim \<Rightarrow> (case landing_report_refusal f claim s of
                              Some e \<Rightarrow> Inl (Ineffective, e)
                            | None \<Rightarrow> Inr (Some claim))))"

definition artifact_claim ::
  "fold_state \<Rightarrow> parsed_record \<Rightarrow> kind_definition \<Rightarrow> state_payload \<Rightarrow> report_claim option" where
  "artifact_claim f r d s =
     (if kd_render d = RenderArtifact \<and> body_get (st_body s) ''commit'' \<noteq> [] then
        (case report_claim f r of
           Inl _ \<Rightarrow> None
         | Inr claim \<Rightarrow>
             if pr_actor (rc_claim claim) = pr_actor r
                \<or> (rc_direct claim \<and> state_field (rc_request claim) ''to'' = pr_actor r)
             then Some claim else None)
      else None)"

definition remember_claims ::
  "fold_state \<Rightarrow> string \<Rightarrow> report_claim option \<Rightarrow> fold_state" where
  "remember_claims f e c = (case c of None \<Rightarrow> f | Some claim \<Rightarrow> remember_claim f e claim)"

definition roster_needs_kind :: "state_payload \<Rightarrow> bool" where
  "roster_needs_kind s \<longleftrightarrow>
     st_kind s = kind_roster \<and> body_get (st_body s) ''role'' = role_participant
     \<and> body_get (st_body s) ''kind'' = []"

definition commitment_rules ::
  "fold_state \<Rightarrow> parsed_record \<Rightarrow> kind_definition \<Rightarrow> state_payload \<Rightarrow>
   fold_state \<times> parsed_record \<times> decision" where
  "commitment_rules f r d s =
     (case request_refusal f r d s of
        Inl why \<Rightarrow> (f, r, stated_decision r Ineffective why)
      | Inr result \<Rightarrow>
          (let r1 = (case result of None \<Rightarrow> r | Some _ \<Rightarrow> r\<lparr>pr_result := result\<rparr>) in
           case release_authorship_refusal f r1 s of
             Some e \<Rightarrow> (f, r1, stated_decision r Ineffective (ReleaseRefused e))
           | None \<Rightarrow>
               (case promise_refusal f r1 d of
                  Some (v, why) \<Rightarrow> (f, r1, stated_decision r v why)
                | None \<Rightarrow>
                    (case report_refusal f r1 d s of
                       Inl (v, why) \<Rightarrow> (f, r1, stated_decision r v why)
                     | Inr reported \<Rightarrow>
                         (let f1 = remember_claims f (pr_id r) reported;
                              f2 = remember_claims f1 (pr_id r) (artifact_claim f1 r1 d s)
                          in if roster_needs_kind s
                             then (f2, r1, stated_decision r Ineffective ParticipantNeedsKind)
                             else (f2, r1, stated_decision r Effective StatementRecorded))))))"

definition seeds_operator :: "parsed_record \<Rightarrow> state_payload \<Rightarrow> bool" where
  "seeds_operator r s \<longleftrightarrow>
     st_kind s = kind_roster \<and> body_get (st_body s) ''actor'' = pr_actor r
     \<and> body_get (st_body s) ''role'' = role_operator"

definition decide_state ::
  "('l) fold_lib_scheme \<Rightarrow> fold_state \<Rightarrow> parsed_record \<Rightarrow> state_payload \<Rightarrow>
   fold_state \<times> parsed_record \<times> decision" where
  "decide_state L f r s =
     (if pr_index r > 0 \<and> \<not> has_actor f (pr_actor r)
      then (f, r, stated_decision r Ineffective DepartedAuthor)
      else (case governing_definition f r s of
        None \<Rightarrow> (f, r, stated_decision r UndefinedKind (UndefinedKindNamed (st_kind s)))
      | Some d \<Rightarrow>
          (let r1 = r\<lparr>pr_definition := Some d\<rparr> in
           case path_refusal r d (st_body s) of
             Some why \<Rightarrow> (f, r1, stated_decision r Ineffective why)
           | None \<Rightarrow>
              (case validate_fields L d (st_body s) of
                 Some e \<Rightarrow>
                   (f, r1, stated_decision r
                      (if st_kind s = kind_kind_def \<or> st_kind s = kind_fold_activation
                       then Uninterpretable else Ineffective) (FieldRefused e))
               | None \<Rightarrow>
                  (case declare_kind L f r s of
                     Inl why \<Rightarrow> (f, r1, stated_decision r Uninterpretable why)
                   | Inr declared \<Rightarrow>
                      (let r2 = (case declared of None \<Rightarrow> r1
                                 | Some _ \<Rightarrow> r1\<lparr>pr_declared := declared\<rparr>) in
                       if pr_index r = 0 then
                         (if \<not> seeds_operator r s
                          then (f, r2, stated_decision r Ineffective FirstEventNotSeed)
                          else (f, r2, stated_decision r Effective OperatorSeed))
                       else (case validate_basis f r d (kd_basis d) of
                               Some (v, e) \<Rightarrow> (f, r2, stated_decision r v (BasisRefused e))
                             | None \<Rightarrow> commitment_rules f r2 d s)))))))"

section \<open>Ratification\<close>

abbreviation ratify_decision :: "parsed_record \<Rightarrow> verdict \<Rightarrow> ratify_reason \<Rightarrow> decision" where
  "ratify_decision r v why \<equiv> decided r v (RatifyReason why)"

text \<open>The refusals of \<open>decideRatify\<close> before the satisfier is read.\<close>

definition ratify_authority :: "fold_state \<Rightarrow> parsed_record \<Rightarrow> parsed_record \<Rightarrow> state_payload \<Rightarrow>
    ratify_reason option" where
  "ratify_authority f r target s =
     (if st_kind s \<noteq> kind_roster then None
      else (let n = normalize_roster_state (body_get (st_body s) ''kind'') (body_get (st_body s) ''role'');
                beneficiary = body_get (st_body s) ''actor''
            in if nr_role n = [] then None
               else if beneficiary = pr_actor target \<or> beneficiary = pr_actor r
               then Some BeneficiaryGrant
               else if nr_role n = role_operator \<and> \<not> has_role f (pr_actor r) role_operator
               then Some OperatorNeededToRatify else None))"

definition live_predecessor :: "fold_state \<Rightarrow> parsed_record \<Rightarrow> bool" where
  "live_predecessor f target \<longleftrightarrow>
     (case pr_declared target of
        None \<Rightarrow> False
      | Some d \<Rightarrow> (case fs_definitions f (kd_name d) of
                     None \<Rightarrow> False
                   | Some active \<Rightarrow> kd_source active \<noteq> source_starter
                                    \<and> kd_source active \<noteq> pr_id target))"

definition originating_request :: "fold_state \<Rightarrow> parsed_record \<Rightarrow> parsed_record option" where
  "originating_request f report = map_option rc_request (map_of (fs_admitted_claims f) (pr_id report))"

definition ratify_satisfier :: "fold_state \<Rightarrow> parsed_record \<Rightarrow> parsed_record \<Rightarrow> decision" where
  "ratify_satisfier f r target =
     (let satisfier = satisfier_of target in
      if satisfier = satisfier_originating_requester then
        (case originating_request f target of
           None \<Rightarrow> ratify_decision r Disputed NoOriginatingRequester
         | Some request \<Rightarrow>
             if pr_actor request \<noteq> pr_actor r
             then ratify_decision r Ineffective OnlyRequesterSatisfies
             else if \<not> has_actor f (pr_actor r)
             then ratify_decision r Ineffective DepartedRequester
             else ratify_decision r Effective RequesterSatisfied)
      else if has_prefix role_prefix satisfier then
        (let role = trim_prefix role_prefix satisfier in
         if \<not> has_role f (pr_actor r) role then ratify_decision r Ineffective (LacksRole role)
         else ratify_decision r Effective AuthorizedRatification)
      else ratify_decision r Ineffective NotRatifiable)"

definition decide_ratify :: "fold_state \<Rightarrow> parsed_record \<Rightarrow> string \<Rightarrow> decision" where
  "decide_ratify f r target_id =
     (case lookup f target_id of
        None \<Rightarrow> ratify_decision r Ineffective RatifyUnknown
      | Some target \<Rightarrow>
          if pr_rests_on r \<noteq> [target_id] then ratify_decision r Ineffective RatifyBasis
          else (case state_of target of
                  None \<Rightarrow> ratify_decision r Ineffective RatifyNotStatement
                | Some s \<Rightarrow>
                    if pr_verdict target \<noteq> Effective
                    then ratify_decision r Ineffective RatifyNotEffective
                    else if st_kind s = kind_fold_activation
                            \<and> lr_schema (pr_record r) \<noteq> schema_ratify_legacy
                    then ratify_decision r Ineffective ActivationMoved
                    else if is_retired f target_id then ratify_decision r Ineffective RatifyRetired
                    else if live_predecessor f target
                    then ratify_decision r Disputed LivePredecessor
                    else (case ratify_authority f r target s of
                            Some why \<Rightarrow> ratify_decision r Ineffective why
                          | None \<Rightarrow> ratify_satisfier f r target)))"

section \<open>Supersession\<close>

abbreviation supersede_decision :: "parsed_record \<Rightarrow> verdict \<Rightarrow> supersede_reason \<Rightarrow> decision" where
  "supersede_decision r v why \<equiv> decided r v (SupersedeReason why)"

definition decide_governance ::
  "fold_state \<Rightarrow> parsed_record \<Rightarrow> parsed_record \<Rightarrow> bool \<Rightarrow> decision" where
  "decide_governance f r governance restoring =
     (if pr_index governance = 0 then supersede_decision r Ineffective SeedNotRetirable
      else (let n = normalize_roster_state (state_field governance ''kind'')
                      (state_field governance ''role'');
                operator_membership = (nr_membership n
                  \<and> membership_carries_operator f (state_field governance ''actor'')
                      (pr_id governance));
                why = (if nr_role n = role_operator \<and> restoring then OperatorNeededToRestore
                       else if nr_role n = role_operator then OperatorNeededForGrant
                       else if restoring then OperatorNeededToRestoreMembership
                       else OperatorNeededForMembership)
            in if nr_role n = role_operator \<or> operator_membership then
                 (if \<not> has_role f (pr_actor r) role_operator
                  then supersede_decision r Ineffective why
                  else supersede_decision r Effective AuthorizedGovernance)
               else if \<not> has_role f (pr_actor r) role_ratifier
               then supersede_decision r Ineffective RatifierNeeded
               else supersede_decision r Effective AuthorizedGovernance))"

definition decide_ordinary ::
  "fold_state \<Rightarrow> parsed_record \<Rightarrow> string \<Rightarrow> parsed_record \<Rightarrow> parsed_record \<times> decision" where
  "decide_ordinary f r target_id target =
     (if pr_actor target = pr_actor r \<or> has_role f (pr_actor r) role_ratifier
      then (r\<lparr>pr_own_standing := True\<rparr>, supersede_decision r Effective AuthorizedSupersession)
      else if is_artifact f target_id \<and> has_authorized_merge_receipt f r target_id then
        (if \<not> has_actor f (pr_actor r) then (r, supersede_decision r Ineffective DepartedReceipt)
         else (r, supersede_decision r Effective MergeAuthorized))
      else (r, supersede_decision r Ineffective MayNotSupersede))"

definition decide_supersede ::
  "fold_state \<Rightarrow> parsed_record \<Rightarrow> string \<Rightarrow> (parsed_record \<times> decision) option" where
  "decide_supersede f r target_id =
     (case lookup f target_id of
        None \<Rightarrow> Some (r, supersede_decision r Ineffective SupersedeUnknown)
      | Some target \<Rightarrow>
          if pr_rests_on r = [] \<or> hd (pr_rests_on r) \<noteq> target_id
          then Some (r, supersede_decision r Ineffective SupersedeBasis)
          else (case carried_or_abandoned_refusal f r target_id of
                  Some why \<Rightarrow> Some (r, supersede_decision r Ineffective why)
                | None \<Rightarrow>
                    (case governance_target f target_id of
                       None \<Rightarrow> None
                     | Some (Some (governance, restoring)) \<Rightarrow>
                         Some (r, decide_governance f r governance restoring)
                     | Some None \<Rightarrow> Some (decide_ordinary f r target_id target))))"

section \<open>The rejected-round transfer\<close>

definition changes_requested :: "fold_state \<Rightarrow> parsed_record \<Rightarrow> parsed_record \<Rightarrow> bool" where
  "changes_requested f request artifact \<longleftrightarrow>
     (case state_of artifact of
        None \<Rightarrow> False
      | Some s \<Rightarrow>
          renders_artifact artifact \<and> body_get (st_body s) ''commit'' \<noteq> []
          \<and> (case map_of (fs_admitted_claims f) (pr_id artifact) of
               None \<Rightarrow> False | Some admitted \<Rightarrow> pr_id (rc_request admitted) = pr_id request)
          \<and> \<not> is_retired f (pr_id artifact)
          \<and> list_ex (verdict_names f ''changes-requested'' artifact s)
              (direct_dependents f (pr_id artifact) LifecycleReport))"

definition request_has_changes_requested :: "fold_state \<Rightarrow> parsed_record \<Rightarrow> bool" where
  "request_has_changes_requested f request \<longleftrightarrow>
     list_ex (\<lambda>claim. list_ex (changes_requested f request)
                (direct_dependents f (pr_id claim) LifecycleNone))
       (request # direct_dependents f (pr_id request) LifecyclePromise)"

text \<open>The one effective request among the bases; the outer \<open>None\<close> is a second one.\<close>

fun sole_request ::
  "fold_state \<Rightarrow> parsed_record option \<Rightarrow> string list \<Rightarrow> parsed_record option option" where
  "sole_request f successor [] = Some successor"
| "sole_request f successor (basis # rest) =
     (case lookup f basis of
        None \<Rightarrow> sole_request f successor rest
      | Some c \<Rightarrow>
          if pr_verdict c \<noteq> Effective \<or> lifecycle_of c \<noteq> LifecycleRequest
          then sole_request f successor rest
          else if successor \<noteq> None then None
          else sole_request f (Some c) rest)"

definition qualifying_request_successor ::
  "fold_state \<Rightarrow> parsed_record \<Rightarrow> string \<Rightarrow> string" where
  "qualifying_request_successor f r target_id =
     (case lookup f target_id of
        None \<Rightarrow> []
      | Some target \<Rightarrow>
          if pr_verdict target \<noteq> Effective \<or> lifecycle_of target \<noteq> LifecycleRequest
             \<or> is_retired f (pr_id target) then []
          else if count_exact (pr_rests_on r) (pr_id target) \<noteq> 1 \<or> length (pr_rests_on r) < 2
                  \<or> hd (pr_rests_on r) \<noteq> pr_id target then []
          else (case sole_request f None (tl (pr_rests_on r)) of
                  Some (Some successor) \<Rightarrow>
                    if pr_index successor \<le> pr_index target \<or> pr_actor successor \<noteq> pr_actor target
                       \<or> count_exact (pr_rests_on successor) (pr_id target) = 0 then []
                    else if \<not> request_has_changes_requested f target then []
                    else pr_id successor
                | _ \<Rightarrow> []))"

section \<open>Guarded reassignment\<close>

definition unclaimed_expectation_reason ::
  "fold_state \<Rightarrow> parsed_record \<Rightarrow> bool \<Rightarrow> unclaimed_reason option" where
  "unclaimed_expectation_reason f r replacement =
     (case pr_expectation r of
        None \<Rightarrow> Some ExpectationMissing
      | Some e \<Rightarrow>
         (case lookup f (ux_request e) of
            None \<Rightarrow> Some NotOneRequest
          | Some request \<Rightarrow>
             if pr_verdict request \<noteq> Effective \<or> lifecycle_of request \<noteq> LifecycleRequest
             then Some NotOneRequest
             else if (case state_of request of None \<Rightarrow> True | Some s \<Rightarrow> st_kind s = [])
             then Some RequestAmbiguous
             else if ux_promise e \<noteq> commitment_absent \<or> ux_completion e \<noteq> commitment_absent
             then Some AbsenceNotExplicit
             else (let promises = direct_dependents f (ux_request e) LifecyclePromise;
                       completions = filter (\<lambda>(i, c). rc_direct c
                                       \<and> pr_id (rc_request c) = ux_request e
                                       \<and> map_of (fs_admitted_claims f) i = Some c)
                                       (fs_admitted_claims f);
                       named = card (fst ` set completions)
                   in if promises \<noteq> [] then Some (AdmittedPromises (length promises))
                      else if named \<noteq> 0 then Some (AdmittedCompletions named)
                      else if \<not> replacement then
                        (if ux_retirement e \<noteq> [] then Some RetirementNotExact
                         else if supersede_target r \<noteq> Some (ux_request e)
                         then Some RetirementNotExact
                         else if is_retired f (ux_request e) then Some RequestNotLive
                         else if count_exact (pr_rests_on r) (ux_request e) \<noteq> 1
                                 \<or> pr_rests_on r = [] \<or> hd (pr_rests_on r) \<noteq> ux_request e
                         then Some RetirementBasis else None)
                      else if ux_retirement e = [] then Some NoRetirementNamed
                      else (case lookup f (ux_retirement e) of
                         None \<Rightarrow> Some RetirementNotGuarded
                       | Some retirement \<Rightarrow>
                           if pr_verdict retirement \<noteq> Effective \<or> \<not> pr_guarded_retirement retirement
                           then Some RetirementNotGuarded
                           else if supersede_target retirement \<noteq> Some (ux_request e)
                                   \<or> map_option ux_request (pr_expectation retirement)
                                       \<noteq> Some (ux_request e)
                           then Some RetirementOtherRequest
                           else if pr_actor retirement \<noteq> pr_actor r then Some RetirementOtherAuthor
                           else if is_retired f (ux_retirement e) \<or> \<not> is_retired f (ux_request e)
                                   \<or> fs_retirement_causes f (ux_request e) \<noteq> 1
                           then Some RetirementNotLast
                           else if count_exact (pr_rests_on r) (ux_retirement e) \<noteq> 1
                                   \<or> pr_rests_on r = [] \<or> hd (pr_rests_on r) \<noteq> ux_retirement e
                           then Some ReplacementBasis else None))))"

definition decide_retire_if_unclaimed ::
  "fold_state \<Rightarrow> parsed_record \<Rightarrow> string \<Rightarrow> (parsed_record \<times> decision) option" where
  "decide_retire_if_unclaimed f r target =
     (case unclaimed_expectation_reason f r False of
        Some why \<Rightarrow> Some (r, decided r Ineffective (UnclaimedReason why))
      | None \<Rightarrow> decide_supersede f r target)"

definition decide_reassign_if_unclaimed ::
  "('l) fold_lib_scheme \<Rightarrow> fold_state \<Rightarrow> parsed_record \<Rightarrow> state_payload \<Rightarrow>
   fold_state \<times> parsed_record \<times> decision" where
  "decide_reassign_if_unclaimed L f r s =
     (case unclaimed_expectation_reason f r True of
        Some why \<Rightarrow> (f, r, decided r Ineffective (UnclaimedReason why))
      | None \<Rightarrow> decide_state L f r s)"

text \<open>\<open>AdmitRetireIfUnclaimed\<close>, \<open>AdmitReassignIfUnclaimed\<close>: the guard asked of an unsequenced act.\<close>

definition unsequenced :: "string \<Rightarrow> string list \<Rightarrow> body \<Rightarrow> unclaimed_expectation \<Rightarrow> parsed_record" where
  "unsequenced actor rests_on b e =
     (new_parsed \<lparr>lr_id = [], lr_timestamp = 0, lr_actor = actor, lr_schema = [],
                  lr_rests_on = rests_on, lr_payload = []\<rparr> (Some b) 0)
       \<lparr>pr_expectation := Some e\<rparr>"

definition admit_retire_if_unclaimed ::
  "fold_state \<Rightarrow> string \<Rightarrow> string \<Rightarrow> string \<Rightarrow> unclaimed_expectation \<Rightarrow> string list \<Rightarrow>
   unclaimed_reason option" where
  "admit_retire_if_unclaimed f actor target text e rests_on =
     unclaimed_expectation_reason f
       ((unsequenced actor rests_on (BSupersede target text) e)\<lparr>pr_guarded_retirement := True\<rparr>) False"

definition admit_reassign_if_unclaimed ::
  "fold_state \<Rightarrow> string \<Rightarrow> string \<Rightarrow> body_map \<Rightarrow> unclaimed_expectation \<Rightarrow> string list \<Rightarrow>
   unclaimed_reason option" where
  "admit_reassign_if_unclaimed f actor text b e rests_on =
     unclaimed_expectation_reason f
       ((unsequenced actor rests_on
           (BState \<lparr>st_kind = kind_request, st_text = text, st_body = b\<rparr>) e)
         \<lparr>pr_guarded_replacement := True\<rparr>) True"

end
