(* ===== verification/WorkroomFold.thy ===== *)
theory WorkroomFold
  imports WorkroomDecide
begin

text \<open>
  \<open>judge\<close>, \<open>append\<close>, the refresh of the governing definitions and \<open>preview\<close>
  (\<open>internal/workroom/fold.go\<close>, \<open>internal/workroom/preview.go\<close>). \<open>None\<close> is an append that does not return: the two
  loops that follow targets have no bound of their own.
\<close>

section \<open>Judging one record\<close>

record judgement =
  jd_state :: fold_state
  jd_record :: log_record
  jd_parsed :: "parsed_record option"
  jd_decision :: decision
  jd_settled :: bool

text \<open>The guarded schemas and \<open>supersede@1\<close> are lowered to the two ordinary bodies.\<close>

fun lower_payload :: "payload \<Rightarrow> parsed_record \<Rightarrow> parsed_record" where
  "lower_payload (PState s) p = p\<lparr>pr_body := Some (BState s)\<rparr>"
| "lower_payload (PRatify t) p = p\<lparr>pr_body := Some (BRatify t)\<rparr>"
| "lower_payload (PSupersede t x) p = p\<lparr>pr_body := Some (BSupersede t x)\<rparr>"
| "lower_payload (PSupersedeV1 t x b) p =
     p\<lparr>pr_body := Some (BSupersede t x), pr_supersede_body := b\<rparr>"
| "lower_payload (PRetireIfUnclaimed t x cited e) p =
     p\<lparr>pr_body := Some (BSupersede t x), pr_expectation := Some e, pr_guarded_retirement := True\<rparr>"
| "lower_payload (PReassignIfUnclaimed x b e) p =
     p\<lparr>pr_body := Some (BState \<lparr>st_kind = kind_request, st_text = x, st_body = b\<rparr>),
       pr_expectation := Some e, pr_guarded_replacement := True\<rparr>"

definition judge_body ::
  "('l) fold_lib_scheme \<Rightarrow> fold_state \<Rightarrow> parsed_record \<Rightarrow> (fold_state \<times> parsed_record \<times> decision) option"
where
  "judge_body L f p =
     (case pr_body p of
        Some (BState s) \<Rightarrow>
          Some (if pr_guarded_replacement p then decide_reassign_if_unclaimed L f p s
                else decide_state L f p s)
      | Some (BRatify t) \<Rightarrow> Some (f, p, decide_ratify f p t)
      | Some (BSupersede t x) \<Rightarrow>
          map_option (\<lambda>(p', d). (f, p', d))
            (if pr_guarded_retirement p then decide_retire_if_unclaimed f p t
             else decide_supersede f p t)
      | None \<Rightarrow> Some (f, p, decided p Ineffective NoReason))"

definition judge ::
  "('l) fold_lib_scheme \<Rightarrow> fold_state \<Rightarrow> nat \<Rightarrow> log_record \<Rightarrow> judgement option" where
  "judge L f index r =
     (let settled = (\<lambda>f r p v why. Some \<lparr>jd_state = f, jd_record = r, jd_parsed = p,
            jd_decision = \<lparr>dc_event = lr_id r, dc_verdict = v, dc_reason = why\<rparr>,
            jd_settled = True\<rparr>)
      in if lr_id r = [] \<or> lr_actor r = [] then settled f r None Ineffective IdActorRequired
         else if map_of (fs_byID f) (lr_id r) \<noteq> None
         then settled f r None Disputed DuplicateEvent
         else (let r' = r\<lparr>lr_payload := []\<rparr> in
               case decode L (lr_schema r) (lr_payload r) of
                 Inl e \<Rightarrow> settled f r' None Ineffective (PayloadRefused e)
               | Inr v \<Rightarrow>
                   (let p = lower_payload v (new_parsed r' None index) in
                    if fs_transitions f \<noteq> []
                    then settled (f\<lparr>fs_beyond_seam := True\<rparr>) r' (Some p) Uninterpretable
                           InterpreterNotHeld
                    else map_option (\<lambda>(f', p', d).
                           \<lparr>jd_state = f', jd_record = r', jd_parsed = Some p', jd_decision = d,
                            jd_settled = False\<rparr>) (judge_body L f p))))"

section \<open>Keeping a decision\<close>

definition stamp_decision :: "log_record \<Rightarrow> decision \<Rightarrow> decision" where
  "stamp_decision r d =
     d\<lparr>dc_event := (if dc_event d = [] then lr_id r else dc_event d),
       dc_reason := (if dc_reason d = NoReason then VerdictWord (dc_verdict d) else dc_reason d)\<rparr>"

definition add_decision :: "fold_state \<Rightarrow> log_record \<Rightarrow> parsed_record \<Rightarrow> decision \<Rightarrow> fold_state" where
  "add_decision f r p d =
     (let d' = stamp_decision r d; p' = p\<lparr>pr_decision := d'\<rparr>;
          f' = f\<lparr>fs_records := fs_records f @ [p']\<rparr>
      in if lr_id r \<noteq> [] \<and> map_of (fs_byID f) (lr_id r) = None
         then f'\<lparr>fs_byID := (lr_id r, p') # fs_byID f,
                 fs_decisions := (fs_decisions f)(lr_id r := Some d')\<rparr>
         else f')"

section \<open>Governing definitions\<close>

text \<open>Among the surviving ratified versions, the one whose live ratification stands latest.\<close>

fun governing_from ::
  "fold_state \<Rightarrow> (kind_definition \<times> string \<times> nat) option \<Rightarrow> parsed_record list \<Rightarrow>
   (kind_definition \<times> string \<times> nat) option" where
  "governing_from f best [] = best"
| "governing_from f best (r # rs) =
     (if pr_verdict r \<noteq> Effective \<or> is_retired f (pr_id r) then governing_from f best rs
      else (let ratification = active_ratification f (pr_id r) in
            case (lookup f ratification, pr_declared r) of
              (Some q, Some d) \<Rightarrow>
                if ratification = [] \<or> (case best of None \<Rightarrow> False
                                          | Some (_, _, at) \<Rightarrow> pr_index q < at)
                then governing_from f best rs
                else governing_from f (Some (d, ratification, pr_index q)) rs
            | _ \<Rightarrow> governing_from f best rs))"

definition refreshed_definition :: "fold_state \<Rightarrow> string \<Rightarrow> kind_definition option" where
  "refreshed_definition f name =
     (case governing_from f None (fs_definition_versions f name) of
        None \<Rightarrow> starter_catalog name
      | Some (d, ratified_by, at) \<Rightarrow> Some (d\<lparr>kd_ratified_by := ratified_by\<rparr>))"

definition refresh_definition :: "fold_state \<Rightarrow> string \<Rightarrow> fold_state" where
  "refresh_definition f name =
     f\<lparr>fs_definitions := (fs_definitions f)(name := refreshed_definition f name)\<rparr>"

definition declared_name :: "parsed_record \<Rightarrow> string list" where
  "declared_name r = (case pr_declared r of None \<Rightarrow> [] | Some d \<Rightarrow> [kd_name d])"

definition affected_names :: "fold_state \<Rightarrow> string \<Rightarrow> string list" where
  "affected_names f event =
     (case lookup f event of
        None \<Rightarrow> []
      | Some r \<Rightarrow>
          declared_name r
          @ (case pr_body r of
               Some (BRatify t) \<Rightarrow> (case lookup f t of None \<Rightarrow> [] | Some target \<Rightarrow> declared_name target)
             | _ \<Rightarrow> []))"

definition refresh_definitions_affected_by :: "fold_state \<Rightarrow> string list \<Rightarrow> fold_state" where
  "refresh_definitions_affected_by f events =
     foldl refresh_definition f (remdups (concat (map (affected_names f) events)))"

section \<open>Sealing what only admission knows\<close>

text \<open>The succession facts of an effective supersession.\<close>

definition seal_supersession :: "fold_state \<Rightarrow> parsed_record \<Rightarrow> string \<Rightarrow> parsed_record" where
  "seal_supersession f p target_id =
     (let p1 = p\<lparr>pr_linked_successor := qualifying_request_successor f p target_id\<rparr> in
      case lookup f target_id of
        None \<Rightarrow> p1
      | Some target \<Rightarrow>
          (case pr_result target of
             None \<Rightarrow> p1
           | Some result \<Rightarrow>
               if \<not> rr_landing result then p1
               else (case carried_or_abandoned f p target_id (approved_held_head f target) of
                       (successor, abandoned) \<Rightarrow>
                         p1\<lparr>pr_carried_successor := successor, pr_abandoned := abandoned\<rparr>)))"

text \<open>The plan of an effective assertion, read before it enters the fold.\<close>

definition seal_receipt ::
  "('l) fold_lib_scheme \<Rightarrow> fold_state \<Rightarrow> parsed_record \<Rightarrow> state_payload \<Rightarrow> decision \<Rightarrow>
   parsed_record" where
  "seal_receipt L f p s d =
     (let p1 = p\<lparr>pr_decision := d\<rparr>;
          p2 = p1\<lparr>pr_published_paths :=
                    published_path_set L (body_get (st_body s) ''merge_successors'')\<rparr>
      in case validate_merge_receipt_now L f p1 of
           None \<Rightarrow> p2
         | Some (plan, reviewed) \<Rightarrow>
             p2\<lparr>pr_merge_plan := Some plan, pr_merge_artifacts := reviewed\<rparr>)"

definition accounting_fields :: "state_payload \<Rightarrow> bool \<times> bool" where
  "accounting_fields s =
     (body_has (st_body s) ''merge_left_live'', body_has (st_body s) ''merge_changed_paths'')"

definition incoming_unsettled ::
  "fold_state \<Rightarrow> parsed_record \<Rightarrow> state_payload \<Rightarrow> string list" where
  "incoming_unsettled f p s =
     (case accounting_fields s of
        (left_present, changed_present) \<Rightarrow>
          if pr_merge_plan p \<noteq> None \<and> (left_present \<or> changed_present)
          then unsettled_commitment_events f else [])"

text \<open>The testimony, judged once the receipt stands in the log.\<close>

definition seal_accounting ::
  "('l) fold_lib_scheme \<Rightarrow> fold_state \<Rightarrow> parsed_record \<Rightarrow> state_payload \<Rightarrow> string list \<Rightarrow>
   parsed_record" where
  "seal_accounting L f p s unsettled =
     (case accounting_fields s of
        (left_present, changed_present) \<Rightarrow>
          if pr_merge_plan p = None then p
          else (let p1 = p\<lparr>pr_accounting_present := (left_present \<or> changed_present),
                          pr_left_live_present := left_present,
                          pr_changed_paths_present := changed_present\<rparr>
                in if \<not> (left_present \<or> changed_present) then p1
                   else (let paths = parse_merge_changed_paths L
                               (body_get (st_body s) ''merge_changed_paths'') changed_present;
                             p2 = p1\<lparr>pr_changed_paths := (case paths of None \<Rightarrow> [] | Some ps \<Rightarrow> ps),
                                     pr_changed_paths_valid := (paths \<noteq> None)\<rparr>
                         in case validate_merge_left_live_now L f p2
                               (if left_present
                                then Some (body_get (st_body s) ''merge_left_live'') else None)
                               unsettled of
                              (accounting, unaccounted) \<Rightarrow>
                                p2\<lparr>pr_left_live := accounting, pr_unaccounted := unaccounted\<rparr>)))"

definition store_sealed :: "fold_state \<Rightarrow> parsed_record \<Rightarrow> fold_state" where
  "store_sealed f p =
     f\<lparr>fs_records := butlast (fs_records f) @ [p],
       fs_byID := map (\<lambda>(k, q). if k = pr_id p then (k, p) else (k, q)) (fs_byID f)\<rparr>"

section \<open>Applying an admitted record\<close>

definition index_dependents :: "fold_state \<Rightarrow> parsed_record \<Rightarrow> fold_state" where
  "index_dependents f p =
     (case pr_definition p of
        None \<Rightarrow> f
      | Some d \<Rightarrow>
          f\<lparr>fs_dependents :=
              (\<lambda>key. if fst key \<in> set (pr_rests_on p) \<and> snd key = kd_lifecycle d
                     then fs_dependents f key @ [p] else fs_dependents f key)\<rparr>)"

definition index_authorization :: "fold_state \<Rightarrow> parsed_record \<Rightarrow> state_payload \<Rightarrow> fold_state" where
  "index_authorization f p s =
     (let request = body_get (st_body s) ''authorizes_request'' in
      if request = [] then f
      else f\<lparr>fs_authorizations :=
               (fs_authorizations f)(request := fs_authorizations f request @ [p])\<rparr>)"

definition apply_statement :: "fold_state \<Rightarrow> parsed_record \<Rightarrow> state_payload \<Rightarrow> fold_state" where
  "apply_statement f p s =
     (let f1 = index_authorization (index_dependents f p) p s;
          b = st_body s;
          f2 = (if st_kind s = kind_roster \<and> pr_index p = 0
                then add_role_grant (body_get b ''actor'') (body_get b ''name'') (body_get b ''kind'')
                       (body_get b ''role'') (pr_id p) [] (pr_rests_on p) f1
                else f1)
      in case pr_declared p of
           Some d \<Rightarrow>
             if st_kind s = kind_kind_def
             then f2\<lparr>fs_definition_versions := (fs_definition_versions f2)
                       (kd_name d := fs_definition_versions f2 (kd_name d) @ [p])\<rparr>
             else f2
         | None \<Rightarrow> f2)"

definition apply_ratification :: "fold_state \<Rightarrow> parsed_record \<Rightarrow> string \<Rightarrow> fold_state" where
  "apply_ratification f p target_id =
     (let f1 = f\<lparr>fs_ratifications := (fs_ratifications f)
                   (target_id := fs_ratifications f target_id @ [pr_id p])\<rparr>
      in case lookup f target_id of
           None \<Rightarrow> f1
         | Some target \<Rightarrow>
             (case state_of target of
                None \<Rightarrow> f1
              | Some s \<Rightarrow>
                  (let b = st_body s;
                       f2 = (if st_kind s = kind_roster
                             then add_role_grant (body_get b ''actor'') (body_get b ''name'')
                                    (body_get b ''kind'') (body_get b ''role'') target_id (pr_id p)
                                    (pr_rests_on target) f1
                             else f1);
                       f3 = (if st_kind s = kind_kind_def
                             then foldl refresh_definition f2 (declared_name target) else f2)
                   in if st_kind s = kind_fold_activation
                      then f3\<lparr>fs_transitions := fs_transitions f3 @
                             [\<lparr>ft_activation = target_id, ft_ratification = pr_id p,
                               ft_fold = body_get b ''fold'', ft_entry = body_get b ''entry'',
                               ft_interface = body_get b ''interface'',
                               ft_toolchain = body_get b ''toolchain'',
                               ft_prefix = (body_get b ''prefix'' = ''genesis'')\<rparr>]\<rparr>
                      else f3)))"

definition apply_supersession :: "fold_state \<Rightarrow> parsed_record \<Rightarrow> string \<Rightarrow> fold_state option" where
  "apply_supersession f p target_id =
     (let f1 = f\<lparr>fs_effective_sup := (pr_id p, target_id) # fs_effective_sup f,
                 fs_supersessions := fs_supersessions f @ [p],
                 fs_supersessions_by_target := (fs_supersessions_by_target f)
                   (target_id := fs_supersessions_by_target f target_id @ [p]),
                 fs_abandonments := (if pr_abandoned p
                   then (fs_abandonments f)(target_id := fs_abandonments f target_id @ [p])
                   else fs_abandonments f)\<rparr>
      in map_option (\<lambda>(f2, changed). refresh_definitions_affected_by f2 changed)
           (change_retirement f1 target_id 1))"

definition apply_record ::
  "('l) fold_lib_scheme \<Rightarrow> fold_state \<Rightarrow> log_record \<Rightarrow> parsed_record \<Rightarrow> decision \<Rightarrow>
   fold_state option" where
  "apply_record L f r p d =
     (if dc_verdict d \<noteq> Effective then Some (add_decision f r p d)
      else (case pr_body p of
        Some (BState s) \<Rightarrow>
          Some (if st_kind s = kind_assert
                then (let p1 = seal_receipt L f p s d;
                          unsettled = incoming_unsettled f p1 s;
                          f1 = add_decision f r p1 d;
                          p2 = seal_accounting L f1 (p1\<lparr>pr_decision := stamp_decision r d\<rparr>) s
                                 unsettled
                      in apply_statement (store_sealed f1 p2) p2 s)
                else apply_statement (add_decision f r p d)
                       (p\<lparr>pr_decision := stamp_decision r d\<rparr>) s)
      | Some (BRatify t) \<Rightarrow>
          Some (apply_ratification (add_decision f r p d) (p\<lparr>pr_decision := stamp_decision r d\<rparr>) t)
      | Some (BSupersede t x) \<Rightarrow>
          (let p1 = seal_supersession f p t in
           apply_supersession (add_decision f r p1 d) (p1\<lparr>pr_decision := stamp_decision r d\<rparr>) t)
      | None \<Rightarrow> Some (add_decision f r p d)))"

definition append_record ::
  "('l) fold_lib_scheme \<Rightarrow> fold_state \<Rightarrow> log_record \<Rightarrow> fold_state option" where
  "append_record L f r =
     (let index = length (fs_records f) in
      case judge L f index r of
        None \<Rightarrow> None
      | Some j \<Rightarrow>
          if jd_settled j
          then Some (add_decision (jd_state j) (jd_record j)
                 (case jd_parsed j of None \<Rightarrow> new_parsed (jd_record j) None index | Some p \<Rightarrow> p)
                 (jd_decision j))
          else (case jd_parsed j of
                  None \<Rightarrow> None
                | Some p \<Rightarrow> apply_record L (jd_state j) (jd_record j) p (jd_decision j)))"

fun fold_log :: "('l) fold_lib_scheme \<Rightarrow> fold_state \<Rightarrow> log_record list \<Rightarrow> fold_state option" where
  "fold_log L f [] = Some f"
| "fold_log L f (r # rs) =
     (case append_record L f r of None \<Rightarrow> None | Some f' \<Rightarrow> fold_log L f' rs)"

definition new_folder :: "('l) fold_lib_scheme \<Rightarrow> log_record list \<Rightarrow> fold_state option" where
  "new_folder L records = fold_log L new_fold_state records"

section \<open>Preview\<close>

text \<open>\<open>preview\<close> judges a record and restores the two things judging may write.\<close>

definition preview ::
  "('l) fold_lib_scheme \<Rightarrow> fold_state \<Rightarrow> log_record \<Rightarrow> (decision \<times> fold_state) option" where
  "preview L f r =
     (case judge L f (length (fs_records f)) r of
        None \<Rightarrow> None
      | Some j \<Rightarrow>
          (let others = filter (\<lambda>(i, c). i \<noteq> lr_id r) (fs_admitted_claims (jd_state j)) in
           Some (jd_decision j,
             (jd_state j)\<lparr>fs_beyond_seam := fs_beyond_seam f,
               fs_admitted_claims :=
                 (case map_of (fs_admitted_claims f) (lr_id r) of
                    Some claim \<Rightarrow> (lr_id r, claim) # others
                  | None \<Rightarrow> others)\<rparr>)))"

definition decision_of :: "fold_state \<Rightarrow> string \<Rightarrow> decision option" where
  "decision_of f e = fs_decisions f e"

section \<open>The vocabulary\<close>

datatype binding_status = Unbound | Bound | BeyondSeam

record fold_binding =
  fb_status :: binding_status
  fb_transitions :: "fold_transition list"

definition vocabulary_binding :: "fold_state \<Rightarrow> fold_binding" where
  "vocabulary_binding f =
     (if fs_transitions f = [] then \<lparr>fb_status = Unbound, fb_transitions = []\<rparr>
      else \<lparr>fb_status = (if fs_beyond_seam f then BeyondSeam else Bound),
            fb_transitions = fs_transitions f\<rparr>)"

end
