(* ===== verification/WorkroomFrame.thy ===== *)
theory WorkroomFrame
  imports WorkroomFold
begin

text \<open>
  What one \<open>append\<close> changes. Judging writes only the admitted claims and the seam flag; adding the
  decision extends the log and its index by one record; applying an admitted record touches the
  indexes of its body. The lemmas here are what every invariant of the fold rests on.
\<close>

section \<open>Judging\<close>

definition judged_from :: "fold_state \<Rightarrow> fold_state \<Rightarrow> bool" where
  "judged_from f g \<longleftrightarrow>
     (\<exists>claims beyond. g = f\<lparr>fs_admitted_claims := claims, fs_beyond_seam := beyond\<rparr>)"

lemma judged_from_refl [simp]: "judged_from f f"
  unfolding judged_from_def
  by (rule exI [of _ "fs_admitted_claims f"], rule exI [of _ "fs_beyond_seam f"]) simp

lemma judged_from_fields:
  assumes "judged_from f g"
  shows "fs_records g = fs_records f" "fs_byID g = fs_byID f" "fs_decisions g = fs_decisions f"
    "fs_effective_sup g = fs_effective_sup f" "fs_retirement_causes g = fs_retirement_causes f"
    "fs_supersessions g = fs_supersessions f"
    "fs_supersessions_by_target g = fs_supersessions_by_target f"
    "fs_role_grants g = fs_role_grants f"
    "fs_role_grants_by_role g = fs_role_grants_by_role f"
    "fs_membership_grants g = fs_membership_grants f" "fs_ratifications g = fs_ratifications f"
    "fs_definitions g = fs_definitions f" "fs_definition_versions g = fs_definition_versions f"
    "fs_transitions g = fs_transitions f" "fs_dependents g = fs_dependents f"
    "fs_authorizations g = fs_authorizations f" "fs_abandonments g = fs_abandonments f"
  using assms by (auto simp: judged_from_def)

lemma judged_from_reads:
  assumes "judged_from f g"
  shows "lookup g e = lookup f e" "is_retired g e = is_retired f e"
    "effective_decision g e = effective_decision f e"
  using judged_from_fields [OF assms] by (simp_all add: lookup_def is_retired_def effective_decision_def)

lemma remember_claims_judged [simp]: "judged_from f (remember_claims f e c)"
  unfolding judged_from_def remember_claims_def remember_claim_def
  by (cases c; rule exI [of _ "fs_admitted_claims (remember_claims f e c)"];
      rule exI [of _ "fs_beyond_seam f"]) (simp_all add: remember_claims_def remember_claim_def)

lemma judged_from_trans: "judged_from f g \<Longrightarrow> judged_from g h \<Longrightarrow> judged_from f h"
  unfolding judged_from_def by (elim exE, simp) blast

text \<open>The decision functions keep the record they are given, but for the fields they seal.\<close>

definition sealed_from :: "parsed_record \<Rightarrow> parsed_record \<Rightarrow> bool" where
  "sealed_from p q \<longleftrightarrow>
     pr_record q = pr_record p \<and> pr_index q = pr_index p \<and> pr_body q = pr_body p
     \<and> pr_supersede_body q = pr_supersede_body p \<and> pr_expectation q = pr_expectation p
     \<and> pr_guarded_retirement q = pr_guarded_retirement p"

lemma sealed_from_refl [simp]: "sealed_from p p"
  by (simp add: sealed_from_def)

lemma sealed_from_trans: "sealed_from p q \<Longrightarrow> sealed_from q r \<Longrightarrow> sealed_from p r"
  by (simp add: sealed_from_def)

lemma sealed_from_updates [simp]:
  "sealed_from p (q\<lparr>pr_definition := d\<rparr>) \<longleftrightarrow> sealed_from p q"
  "sealed_from p (q\<lparr>pr_declared := d\<rparr>) \<longleftrightarrow> sealed_from p q"
  "sealed_from p (q\<lparr>pr_result := rr\<rparr>) \<longleftrightarrow> sealed_from p q"
  "sealed_from p (q\<lparr>pr_own_standing := b\<rparr>) \<longleftrightarrow> sealed_from p q"
  "sealed_from p (q\<lparr>pr_decision := dc\<rparr>) \<longleftrightarrow> sealed_from p q"
  "sealed_from p (q\<lparr>pr_linked_successor := s\<rparr>) \<longleftrightarrow> sealed_from p q"
  "sealed_from p (q\<lparr>pr_carried_successor := s\<rparr>) \<longleftrightarrow> sealed_from p q"
  "sealed_from p (q\<lparr>pr_abandoned := b\<rparr>) \<longleftrightarrow> sealed_from p q"
  "sealed_from p (q\<lparr>pr_merge_plan := mp\<rparr>) \<longleftrightarrow> sealed_from p q"
  "sealed_from p (q\<lparr>pr_merge_artifacts := ma\<rparr>) \<longleftrightarrow> sealed_from p q"
  "sealed_from p (q\<lparr>pr_published_paths := pp\<rparr>) \<longleftrightarrow> sealed_from p q"
  "sealed_from p (q\<lparr>pr_accounting_present := b\<rparr>) \<longleftrightarrow> sealed_from p q"
  "sealed_from p (q\<lparr>pr_left_live_present := b\<rparr>) \<longleftrightarrow> sealed_from p q"
  "sealed_from p (q\<lparr>pr_changed_paths_present := b\<rparr>) \<longleftrightarrow> sealed_from p q"
  "sealed_from p (q\<lparr>pr_changed_paths_valid := b\<rparr>) \<longleftrightarrow> sealed_from p q"
  "sealed_from p (q\<lparr>pr_changed_paths := ps\<rparr>) \<longleftrightarrow> sealed_from p q"
  "sealed_from p (q\<lparr>pr_left_live := ll\<rparr>) \<longleftrightarrow> sealed_from p q"
  "sealed_from p (q\<lparr>pr_unaccounted := ua\<rparr>) \<longleftrightarrow> sealed_from p q"
  by (simp_all add: sealed_from_def)

lemma sealed_from_source [simp]:
  "sealed_from (p\<lparr>pr_definition := d\<rparr>) q \<longleftrightarrow> sealed_from p q"
  "sealed_from (p\<lparr>pr_declared := d\<rparr>) q \<longleftrightarrow> sealed_from p q"
  "sealed_from (p\<lparr>pr_decision := dc\<rparr>) q \<longleftrightarrow> sealed_from p q"
  by (simp_all add: sealed_from_def)

lemma commitment_rules_frame:
  assumes "commitment_rules f r d s = (g, q, dc)"
  shows "judged_from f g \<and> sealed_from r q"
  using assms unfolding commitment_rules_def Let_def
  by (auto split: sum.splits option.splits if_splits prod.splits
      intro: judged_from_trans remember_claims_judged)

lemma decide_state_frame:
  assumes "decide_state L f r s = (g, q, dc)"
  shows "judged_from f g \<and> sealed_from r q"
  using assms unfolding decide_state_def Let_def
  by (auto split: sum.splits option.splits if_splits
      dest!: commitment_rules_frame)

lemma decide_reassign_frame:
  assumes "decide_reassign_if_unclaimed L f r s = (g, q, dc)"
  shows "judged_from f g \<and> sealed_from r q"
  using assms unfolding decide_reassign_if_unclaimed_def
  by (auto split: option.splits dest: decide_state_frame)

lemma decide_supersede_frame: "decide_supersede f r t = Some (q, dc) \<Longrightarrow> sealed_from r q"
  unfolding decide_supersede_def decide_ordinary_def
  by (auto split: option.splits if_splits prod.splits)

lemma decide_retire_frame: "decide_retire_if_unclaimed f r t = Some (q, dc) \<Longrightarrow> sealed_from r q"
  unfolding decide_retire_if_unclaimed_def
  by (auto split: option.splits dest: decide_supersede_frame)

lemma judge_body_frame:
  assumes "judge_body L f p = Some (g, q, dc)"
  shows "judged_from f g \<and> sealed_from p q"
  using assms unfolding judge_body_def
  by (auto split: option.splits body.splits if_splits
      dest: decide_state_frame decide_reassign_frame decide_supersede_frame decide_retire_frame)

lemma lower_payload_frame [simp]:
  "pr_record (lower_payload v p) = pr_record p" "pr_index (lower_payload v p) = pr_index p"
  "pr_body (lower_payload v p) \<noteq> None"
  by (cases v; simp)+

lemma new_parsed_frame [simp]:
  "pr_record (new_parsed r b i) = r" "pr_index (new_parsed r b i) = i"
  "pr_body (new_parsed r b i) = b" "pr_decision (new_parsed r b i) = no_decision"
  by (simp_all add: new_parsed_def)

definition same_envelope :: "log_record \<Rightarrow> log_record \<Rightarrow> bool" where
  "same_envelope r q \<longleftrightarrow>
     lr_id q = lr_id r \<and> lr_actor q = lr_actor r \<and> lr_schema q = lr_schema r
     \<and> lr_rests_on q = lr_rests_on r \<and> lr_timestamp q = lr_timestamp r"

lemma judge_frame:
  assumes "judge L f index r = Some j"
  shows "judged_from f (jd_state j) \<and> same_envelope r (jd_record j)
    \<and> (\<forall>p. jd_parsed j = Some p \<longrightarrow> pr_record p = jd_record j \<and> pr_index p = index)"
proof -
  note body = judge_body_frame [of L f]
  have beyond: "judged_from f (f\<lparr>fs_beyond_seam := b\<rparr>)" for b
    unfolding judged_from_def by (rule exI [of _ "fs_admitted_claims f"]) auto
  from assms beyond show ?thesis
    unfolding judge_def Let_def
    by (auto split: if_splits sum.splits simp: same_envelope_def sealed_from_def dest!: body)
qed

text \<open>A judgement that is not settled is of a fresh, well-formed record of an open log.\<close>

lemma judge_open:
  assumes "judge L f index r = Some j" and "\<not> jd_settled j"
  obtains v p q d where "decode L (lr_schema r) (lr_payload r) = Inr v"
    "lr_id r \<noteq> []" "lr_actor r \<noteq> []" "map_of (fs_byID f) (lr_id r) = None"
    "p = lower_payload v (new_parsed (r\<lparr>lr_payload := []\<rparr>) None index)"
    "judge_body L f p = Some (jd_state j, q, d)"
    "jd_parsed j = Some q" "jd_decision j = d" "jd_record j = r\<lparr>lr_payload := []\<rparr>"
    "fs_transitions f = []"
  using assms unfolding judge_def Let_def
  by (auto split: if_splits sum.splits)

section \<open>Applying\<close>

definition same_log :: "fold_state \<Rightarrow> fold_state \<Rightarrow> bool" where
  "same_log f g \<longleftrightarrow>
     fs_records g = fs_records f \<and> fs_byID g = fs_byID f \<and> fs_decisions g = fs_decisions f"

lemma same_log_refl [simp]: "same_log f f"
  by (simp add: same_log_def)

lemma same_log_trans: "same_log f g \<Longrightarrow> same_log g h \<Longrightarrow> same_log f h"
  by (simp add: same_log_def)

lemma index_role_grant_indexes [frame_simps]:
  "fs_supersessions (index_role_grant g role f) = fs_supersessions f"
  "fs_supersessions_by_target (index_role_grant g role f) = fs_supersessions_by_target f"
  "fs_definition_versions (index_role_grant g role f) = fs_definition_versions f"
  "fs_admitted_claims (index_role_grant g role f) = fs_admitted_claims f"
  "fs_dependents (index_role_grant g role f) = fs_dependents f"
  "fs_abandonments (index_role_grant g role f) = fs_abandonments f"
  "fs_authorizations (index_role_grant g role f) = fs_authorizations f"
  by (simp_all add: index_role_grant_def Let_def)

lemma add_role_grant_indexes [frame_simps]:
  "fs_supersessions (add_role_grant a n k r s t b f) = fs_supersessions f"
  "fs_supersessions_by_target (add_role_grant a n k r s t b f) = fs_supersessions_by_target f"
  "fs_definition_versions (add_role_grant a n k r s t b f) = fs_definition_versions f"
  "fs_admitted_claims (add_role_grant a n k r s t b f) = fs_admitted_claims f"
  "fs_dependents (add_role_grant a n k r s t b f) = fs_dependents f"
  "fs_abandonments (add_role_grant a n k r s t b f) = fs_abandonments f"
  "fs_authorizations (add_role_grant a n k r s t b f) = fs_authorizations f"
  by (simp_all add: add_role_grant_def store_role_grant_def Let_def frame_simps)

text \<open>Refreshing definitions writes the vocabulary and nothing else.\<close>

definition vocabulary_only :: "fold_state \<Rightarrow> fold_state \<Rightarrow> bool" where
  "vocabulary_only f g \<longleftrightarrow> (\<exists>d. g = f\<lparr>fs_definitions := d\<rparr>)"

lemma foldl_refresh_vocabulary: "vocabulary_only f (foldl refresh_definition f names)"
proof (induction names arbitrary: f)
  case Nil
  show ?case
    unfolding vocabulary_only_def by (rule exI [of _ "fs_definitions f"]) simp
next
  case (Cons name names)
  then obtain d where "foldl refresh_definition (refresh_definition f name) names =
      (refresh_definition f name)\<lparr>fs_definitions := d\<rparr>"
    by (auto simp: vocabulary_only_def)
  then show ?case
    unfolding vocabulary_only_def refresh_definition_def by auto
qed

lemma vocabulary_only_fields:
  assumes "vocabulary_only f g"
  shows "fs_records g = fs_records f" "fs_byID g = fs_byID f" "fs_decisions g = fs_decisions f"
    "fs_effective_sup g = fs_effective_sup f" "fs_retirement_causes g = fs_retirement_causes f"
    "fs_supersessions g = fs_supersessions f" "fs_role_grants g = fs_role_grants f"
    "fs_supersessions_by_target g = fs_supersessions_by_target f"
    "fs_role_grants_by_role g = fs_role_grants_by_role f"
    "fs_membership_grants g = fs_membership_grants f" "fs_ratifications g = fs_ratifications f"
    "fs_definition_versions g = fs_definition_versions f" "fs_transitions g = fs_transitions f"
    "fs_dependents g = fs_dependents f" "fs_admitted_claims g = fs_admitted_claims f"
    "fs_authorizations g = fs_authorizations f" "fs_abandonments g = fs_abandonments f"
  using assms by (auto simp: vocabulary_only_def)

lemma index_dependents_frame [frame_simps]:
  "fs_records (index_dependents f p) = fs_records f" "fs_byID (index_dependents f p) = fs_byID f"
  "fs_decisions (index_dependents f p) = fs_decisions f"
  "fs_effective_sup (index_dependents f p) = fs_effective_sup f"
  "fs_retirement_causes (index_dependents f p) = fs_retirement_causes f"
  "fs_role_grants (index_dependents f p) = fs_role_grants f"
  "fs_role_grants_by_role (index_dependents f p) = fs_role_grants_by_role f"
  "fs_membership_grants (index_dependents f p) = fs_membership_grants f"
  "fs_definitions (index_dependents f p) = fs_definitions f"
  "fs_definition_versions (index_dependents f p) = fs_definition_versions f"
  "fs_ratifications (index_dependents f p) = fs_ratifications f"
  "fs_transitions (index_dependents f p) = fs_transitions f"
  "fs_admitted_claims (index_dependents f p) = fs_admitted_claims f"
  by (simp_all add: index_dependents_def split: option.splits)

lemma index_authorization_frame [frame_simps]:
  "fs_records (index_authorization f p s) = fs_records f"
  "fs_byID (index_authorization f p s) = fs_byID f"
  "fs_decisions (index_authorization f p s) = fs_decisions f"
  "fs_effective_sup (index_authorization f p s) = fs_effective_sup f"
  "fs_retirement_causes (index_authorization f p s) = fs_retirement_causes f"
  "fs_role_grants (index_authorization f p s) = fs_role_grants f"
  "fs_role_grants_by_role (index_authorization f p s) = fs_role_grants_by_role f"
  "fs_membership_grants (index_authorization f p s) = fs_membership_grants f"
  "fs_definitions (index_authorization f p s) = fs_definitions f"
  "fs_definition_versions (index_authorization f p s) = fs_definition_versions f"
  "fs_ratifications (index_authorization f p s) = fs_ratifications f"
  "fs_transitions (index_authorization f p s) = fs_transitions f"
  "fs_admitted_claims (index_authorization f p s) = fs_admitted_claims f"
  "fs_dependents (index_authorization f p s) = fs_dependents f"
  by (simp_all add: index_authorization_def Let_def)

lemma apply_statement_frame [frame_simps]:
  "fs_records (apply_statement f p s) = fs_records f"
  "fs_byID (apply_statement f p s) = fs_byID f"
  "fs_decisions (apply_statement f p s) = fs_decisions f"
  "fs_effective_sup (apply_statement f p s) = fs_effective_sup f"
  "fs_retirement_causes (apply_statement f p s) = fs_retirement_causes f"
  "fs_definitions (apply_statement f p s) = fs_definitions f"
  "fs_ratifications (apply_statement f p s) = fs_ratifications f"
  "fs_transitions (apply_statement f p s) = fs_transitions f"
  "fs_admitted_claims (apply_statement f p s) = fs_admitted_claims f"
  by (simp_all add: apply_statement_def Let_def frame_simps split: option.splits)

lemma apply_ratification_frame:
  shows "fs_records (apply_ratification f p t) = fs_records f"
    "fs_byID (apply_ratification f p t) = fs_byID f"
    "fs_decisions (apply_ratification f p t) = fs_decisions f"
    "fs_effective_sup (apply_ratification f p t) = fs_effective_sup f"
    "fs_retirement_causes (apply_ratification f p t) = fs_retirement_causes f"
    "fs_definition_versions (apply_ratification f p t) = fs_definition_versions f"
    "fs_admitted_claims (apply_ratification f p t) = fs_admitted_claims f"
    "fs_dependents (apply_ratification f p t) = fs_dependents f"
  by (simp_all add: apply_ratification_def Let_def frame_simps
      vocabulary_only_fields [OF foldl_refresh_vocabulary] split: option.splits)

lemma change_retirement_frame:
  assumes "change_retirement f t d = Some (g, changed)"
  obtains causes where "g = f\<lparr>fs_retirement_causes := causes\<rparr>"
    "propagate (fs_effective_sup f) (fs_retirement_causes f) t d [] = Some (causes, changed)"
  using assms unfolding change_retirement_def by auto

lemma apply_supersession_frame:
  assumes "apply_supersession f p t = Some g"
  shows "same_log f g"
    "fs_effective_sup g = (pr_id p, t) # fs_effective_sup f"
    "\<exists>changed. propagate ((pr_id p, t) # fs_effective_sup f) (fs_retirement_causes f) t 1 [] =
       Some (fs_retirement_causes g, changed)"
    "fs_role_grants g = fs_role_grants f"
    "fs_role_grants_by_role g = fs_role_grants_by_role f"
    "fs_membership_grants g = fs_membership_grants f" "fs_ratifications g = fs_ratifications f"
    "fs_definition_versions g = fs_definition_versions f"
    "fs_admitted_claims g = fs_admitted_claims f" "fs_dependents g = fs_dependents f"
  using assms unfolding apply_supersession_def Let_def refresh_definitions_affected_by_def
  by (auto elim!: change_retirement_frame simp: same_log_def
      vocabulary_only_fields [OF foldl_refresh_vocabulary])

section \<open>One append\<close>

text \<open>The log and its index after an append: one record more, indexed if its id is new.\<close>

definition extends_by :: "fold_state \<Rightarrow> log_record \<Rightarrow> parsed_record \<Rightarrow> fold_state \<Rightarrow> bool" where
  "extends_by f r p g \<longleftrightarrow>
     fs_records g = fs_records f @ [p] \<and> pr_index p = length (fs_records f)
     \<and> same_envelope r (pr_record p)
     \<and> (if lr_id r \<noteq> [] \<and> map_of (fs_byID f) (lr_id r) = None
        then fs_byID g = (lr_id r, p) # fs_byID f
             \<and> fs_decisions g = (fs_decisions f)(lr_id r := Some (pr_decision p))
        else fs_byID g = fs_byID f \<and> fs_decisions g = fs_decisions f)"

lemma same_envelope_id: "same_envelope r q \<Longrightarrow> lr_id q = lr_id r"
  by (simp add: same_envelope_def)

lemma add_decision_extends:
  assumes "same_envelope r r'" and "pr_record p = r'" and "pr_index p = length (fs_records f)"
  shows "extends_by f r (p\<lparr>pr_decision := stamp_decision r' d\<rparr>) (add_decision f r' p d)"
  using assms same_envelope_id [OF assms(1)] by (simp add: extends_by_def add_decision_def Let_def)

lemma add_decision_frame [frame_simps]:
  "fs_effective_sup (add_decision f r p d) = fs_effective_sup f"
  "fs_retirement_causes (add_decision f r p d) = fs_retirement_causes f"
  "fs_role_grants (add_decision f r p d) = fs_role_grants f"
  "fs_role_grants_by_role (add_decision f r p d) = fs_role_grants_by_role f"
  "fs_membership_grants (add_decision f r p d) = fs_membership_grants f"
  "fs_ratifications (add_decision f r p d) = fs_ratifications f"
  "fs_definitions (add_decision f r p d) = fs_definitions f"
  "fs_definition_versions (add_decision f r p d) = fs_definition_versions f"
  "fs_transitions (add_decision f r p d) = fs_transitions f"
  "fs_admitted_claims (add_decision f r p d) = fs_admitted_claims f"
  "fs_dependents (add_decision f r p d) = fs_dependents f"
  "fs_beyond_seam (add_decision f r p d) = fs_beyond_seam f"
  by (simp_all add: add_decision_def Let_def)

lemma extends_by_same_log: "extends_by f r p g \<Longrightarrow> same_log g h \<Longrightarrow> extends_by f r p h"
  by (auto simp: extends_by_def same_log_def)

lemma extends_by_judged: "judged_from f f0 \<Longrightarrow> extends_by f0 r p g \<Longrightarrow> extends_by f r p g"
  using judged_from_fields [of f f0] by (simp add: extends_by_def)

lemma store_sealed_extends:
  assumes "extends_by f r p g" and "pr_id q = lr_id r" and "pr_index q = pr_index p"
    and "pr_record q = pr_record p" and "pr_decision q = pr_decision p"
    and "lr_id r \<noteq> []" and "map_of (fs_byID f) (lr_id r) = None"
  shows "extends_by f r q (store_sealed g q)"
proof -
  have "map (\<lambda>(k, x). if k = lr_id r then (k, q) else (k, x)) (fs_byID f) = fs_byID f"
    using assms(7) by (intro map_idI) (force simp: map_of_eq_None_iff)
  moreover have "pr_id p = lr_id r"
    using assms by simp
  ultimately have "map (\<lambda>(k, x). if k = pr_id p then (k, q) else (k, x)) (fs_byID f) = fs_byID f"
    by simp
  then show ?thesis
    using assms \<open>pr_id p = lr_id r\<close> [symmetric] by (simp add: extends_by_def store_sealed_def)
qed

lemma seal_receipt_frame [simp]:
  "sealed_from p (seal_receipt L f p s d)"
  by (simp add: seal_receipt_def Let_def split: option.splits prod.splits)

lemma seal_accounting_frame [simp]:
  "sealed_from p (seal_accounting L f p s u)"
  by (simp add: seal_accounting_def Let_def split: option.splits prod.splits)

lemma seal_accounting_decision [simp]:
  "pr_decision (seal_accounting L f p s u) = pr_decision p"
  by (simp add: seal_accounting_def Let_def split: option.splits prod.splits)

lemma seal_supersession_frame [simp]:
  "sealed_from p (seal_supersession f p t)"
  by (simp add: seal_supersession_def Let_def split: option.splits prod.splits)

lemma sealed_fields:
  assumes "sealed_from p q"
  shows "pr_record q = pr_record p" "pr_index q = pr_index p" "pr_body q = pr_body p"
  using assms by (simp_all add: sealed_from_def)

lemmas seal_fields [simp] = sealed_fields [OF seal_receipt_frame] sealed_fields [OF seal_accounting_frame]
  sealed_fields [OF seal_supersession_frame]

lemma apply_statement_log: "same_log f (apply_statement f p s)"
  by (simp add: same_log_def frame_simps)

lemma apply_ratification_log: "same_log f (apply_ratification f p t)"
  by (simp add: same_log_def apply_ratification_frame)

lemma apply_record_extends:
  assumes "apply_record L f r' p d = Some g" and "same_envelope r r'" and "pr_record p = r'"
    and "pr_index p = length (fs_records f)"
    and "lr_id r \<noteq> []" and "map_of (fs_byID f) (lr_id r) = None"
  obtains q where "extends_by f r q g" "sealed_from p q" "pr_decision q = stamp_decision r' d"
proof (cases "dc_verdict d = Effective")
  case False
  then show ?thesis
    using assms that [of "p\<lparr>pr_decision := stamp_decision r' d\<rparr>"] add_decision_extends
    by (auto simp: apply_record_def)
next
  case True
  have add: "extends_by f r (x\<lparr>pr_decision := stamp_decision r' d\<rparr>) (add_decision f r' x d)"
    if "sealed_from p x" for x
    using assms sealed_fields [OF that] by (intro add_decision_extends) auto
  show ?thesis
  proof (cases "pr_body p")
    case None
    then show ?thesis
      using assms(1) True that add [of p] by (auto simp: apply_record_def)
  next
    case (Some b)
    show ?thesis
    proof (cases b)
      case (BState s)
      show ?thesis
      proof (cases "st_kind s = kind_assert")
        case False
        then have "g = apply_statement (add_decision f r' p d)
            (p\<lparr>pr_decision := stamp_decision r' d\<rparr>) s"
          using assms(1) True Some BState by (simp add: apply_record_def)
        then show ?thesis
          using extends_by_same_log [OF add [of p] apply_statement_log] by (intro that) auto
      next
        case assert: True
        let ?p1 = "seal_receipt L f p s d"
        let ?f1 = "add_decision f r' ?p1 d"
        let ?p2 = "seal_accounting L ?f1 (?p1\<lparr>pr_decision := stamp_decision r' d\<rparr>) s
          (incoming_unsettled f ?p1 s)"
        have sealed: "sealed_from p ?p2"
          using sealed_from_trans [OF seal_receipt_frame] by (metis seal_accounting_frame sealed_from_source(3))
        have stored: "extends_by f r ?p2 (store_sealed ?f1 ?p2)"
          using add [of ?p1] assms same_envelope_id [OF assms(2)]
          by (intro store_sealed_extends [where p = "?p1\<lparr>pr_decision := stamp_decision r' d\<rparr>"])
             simp_all
        have "g = apply_statement (store_sealed ?f1 ?p2) ?p2 s"
          using assms(1) True Some BState assert by (simp add: apply_record_def Let_def)
        then have "extends_by f r ?p2 g"
          by (simp only: extends_by_same_log [OF stored apply_statement_log])
        then show ?thesis
          using sealed by (rule that) simp
      qed
    next
      case (BRatify t)
      then have "g = apply_ratification (add_decision f r' p d)
          (p\<lparr>pr_decision := stamp_decision r' d\<rparr>) t"
        using assms(1) True Some by (simp add: apply_record_def)
      then show ?thesis
        using extends_by_same_log [OF add [of p] apply_ratification_log] by (intro that) auto
    next
      case (BSupersede t x)
      then have "apply_supersession (add_decision f r' (seal_supersession f p t) d)
          ((seal_supersession f p t)\<lparr>pr_decision := stamp_decision r' d\<rparr>) t = Some g"
        using assms(1) True Some by (simp add: apply_record_def Let_def)
      from extends_by_same_log [OF add [OF seal_supersession_frame] apply_supersession_frame(1) [OF this]]
      show ?thesis
        by (rule that) simp_all
    qed
  qed
qed

end
