(* ===== verification/Machines.thy ===== *)
theory Machines
  imports Main
begin

text \<open>
  The interfaces the components share. A component is a state and a partial step; a run feeds it a
  list of inputs. The locales state what a step promises, and their lemmas say what every run then
  satisfies: an invariant, returning at all, and a log that only grows. Each component interprets
  them on its own step.
\<close>

fun run_steps :: "('s \<Rightarrow> 'e \<Rightarrow> 's option) \<Rightarrow> 's \<Rightarrow> 'e list \<Rightarrow> 's option" where
  "run_steps step s [] = Some s"
| "run_steps step s (e # es) = (case step s e of None \<Rightarrow> None | Some s' \<Rightarrow> run_steps step s' es)"

lemma run_steps_append:
  "run_steps step s (es @ fs) =
     (case run_steps step s es of None \<Rightarrow> None | Some s' \<Rightarrow> run_steps step s' fs)"
  by (induction step s es rule: run_steps.induct) (auto split: option.splits)

section \<open>An invariant\<close>

text \<open>\<open>fits\<close> says which inputs the component is promised.\<close>

locale invariant_machine =
  fixes step :: "'s \<Rightarrow> 'e \<Rightarrow> 's option"
    and inv :: "'s \<Rightarrow> bool"
    and fits :: "'e \<Rightarrow> bool"
  assumes step_inv: "inv s \<Longrightarrow> fits e \<Longrightarrow> step s e = Some s' \<Longrightarrow> inv s'"
begin

lemma run_inv: "inv s \<Longrightarrow> list_all fits es \<Longrightarrow> run_steps step s es = Some s' \<Longrightarrow> inv s'"
  by (induction es arbitrary: s) (auto split: option.splits dest: step_inv)

end

section \<open>Returning\<close>

locale total_machine = invariant_machine +
  assumes step_total: "inv s \<Longrightarrow> fits e \<Longrightarrow> \<exists>s'. step s e = Some s'"
begin

lemma run_total: "inv s \<Longrightarrow> list_all fits es \<Longrightarrow> \<exists>s'. run_steps step s es = Some s'"
proof (induction es arbitrary: s)
  case (Cons e es)
  then obtain s' where "step s e = Some s'"
    using step_total by fastforce
  with Cons show ?case
    using step_inv by auto
qed simp

end

section \<open>A log that only grows\<close>

locale append_only =
  fixes step :: "'s \<Rightarrow> 'e \<Rightarrow> 's option"
    and entries :: "'s \<Rightarrow> 'i list"
  assumes step_grows: "step s e = Some s' \<Longrightarrow> \<exists>new. entries s' = entries s @ new"
begin

lemma run_grows: "run_steps step s es = Some s' \<Longrightarrow> \<exists>new. entries s' = entries s @ new"
proof (induction es arbitrary: s)
  case (Cons e es)
  then obtain s1 where "step s e = Some s1" and "run_steps step s1 es = Some s'"
    by (auto split: option.splits)
  then show ?case
    using Cons.IH step_grows by (metis append.assoc)
qed simp

lemma run_keeps:
  "run_steps step s es = Some s' \<Longrightarrow> i < length (entries s) \<Longrightarrow>
   i < length (entries s') \<and> entries s' ! i = entries s ! i"
  using run_grows by (fastforce simp: nth_append)

end

section \<open>A relation every step keeps\<close>

locale preorder_machine =
  fixes step :: "'s \<Rightarrow> 'e \<Rightarrow> 's option"
    and inv :: "'s \<Rightarrow> bool"
    and rel :: "'s \<Rightarrow> 's \<Rightarrow> bool"
  assumes inv_kept: "inv s \<Longrightarrow> step s e = Some s' \<Longrightarrow> inv s'"
    and step_rel: "inv s \<Longrightarrow> step s e = Some s' \<Longrightarrow> rel s s'"
    and rel_refl: "rel s s"
    and rel_trans: "rel s t \<Longrightarrow> rel t u \<Longrightarrow> rel s u"
begin

lemma run_rel: "inv s \<Longrightarrow> run_steps step s es = Some s' \<Longrightarrow> rel s s'"
proof (induction es arbitrary: s)
  case Nil
  then show ?case by (simp add: rel_refl)
next
  case (Cons e es)
  then obtain s1 where step: "step s e = Some s1" and run: "run_steps step s1 es = Some s'"
    by (auto split: option.splits)
  show ?case
    using step_rel [OF Cons.prems(1) step] Cons.IH [OF inv_kept [OF Cons.prems(1) step] run]
    by (rule rel_trans)
qed

end

section \<open>A relation that rests on the invariant and on what is promised of the inputs\<close>

locale tracking_machine = invariant_machine step inv fits
  for step :: "'s \<Rightarrow> 'e \<Rightarrow> 's option" and inv :: "'s \<Rightarrow> bool" and fits :: "'e \<Rightarrow> bool" +
  fixes tracks :: "'s \<Rightarrow> 's \<Rightarrow> bool"
  assumes step_tracks: "inv s \<Longrightarrow> fits e \<Longrightarrow> step s e = Some s' \<Longrightarrow> tracks s s'"
    and tracks_refl: "inv s \<Longrightarrow> tracks s s"
    and tracks_trans: "tracks s t \<Longrightarrow> tracks t u \<Longrightarrow> tracks s u"
begin

lemma run_tracks:
  "inv s \<Longrightarrow> list_all fits es \<Longrightarrow> run_steps step s es = Some s' \<Longrightarrow> tracks s s'"
proof (induction es arbitrary: s)
  case Nil
  then show ?case by (simp add: tracks_refl)
next
  case (Cons e es)
  then obtain s1 where step: "step s e = Some s1" and run: "run_steps step s1 es = Some s'"
    by (auto split: option.splits)
  have fit: "fits e" "list_all fits es"
    using Cons.prems(2) by simp_all
  show ?case
    using tracks_trans [OF step_tracks [OF Cons.prems(1) fit(1) step]
        Cons.IH [OF step_inv [OF Cons.prems(1) fit(1) step] fit(2) run]] .
qed

end

end
