(* ===== verification/WorkroomInv.thy ===== *)
theory WorkroomInv
  imports WorkroomFrame Machines
begin

text \<open>
  The invariant of the fold and what it gives: the positions and the index of the log, the ledger of
  supersessions, the counters of retirement, and that an append of a well-founded record returns.
\<close>

section \<open>The invariant\<close>

definition log_inv :: "fold_state \<Rightarrow> bool" where
  "log_inv f \<longleftrightarrow>
     (\<forall>i < length (fs_records f). pr_index (fs_records f ! i) = i)
     \<and> distinct (map fst (fs_byID f))
     \<and> (\<forall>(e, p) \<in> set (fs_byID f). e \<noteq> [] \<and> pr_id p = e \<and> p \<in> set (fs_records f))
     \<and> (\<forall>e. fs_decisions f e = map_option pr_decision (lookup f e))"

definition ledger_inv :: "fold_state \<Rightarrow> bool" where
  "ledger_inv f \<longleftrightarrow>
     earlier_targets (fs_effective_sup f)
     \<and> balanced (fs_effective_sup f) (fs_retirement_causes f)
     \<and> (\<forall>(i, t) \<in> set (fs_effective_sup f). lookup f t \<noteq> None \<and>
          (\<exists>p. lookup f i = Some p \<and> pr_verdict p = Effective \<and> supersede_target p = Some t))"

definition fold_inv :: "fold_state \<Rightarrow> bool" where
  "fold_inv f \<longleftrightarrow> log_inv f \<and> ledger_inv f"

lemma new_fold_state_fields:
  "fs_records new_fold_state = []" "fs_byID new_fold_state = []"
  "fs_decisions new_fold_state e = None" "fs_effective_sup new_fold_state = []"
  "fs_retirement_causes new_fold_state e = 0" "lookup new_fold_state e = None"
  "fs_role_grants new_fold_state = []" "fs_role_grants_by_role new_fold_state k = []"
  "fs_membership_grants new_fold_state k = []" "fs_ratifications new_fold_state e = []"
  "fs_definitions new_fold_state = starter_catalog"
  "fs_definition_versions new_fold_state e = []" "fs_transitions new_fold_state = []"
  "fs_admitted_claims new_fold_state = []" "fs_dependents new_fold_state d = []"
  by (simp_all add: new_fold_state_def lookup_def)

lemma fold_inv_start: "fold_inv new_fold_state"
proof -
  have "balanced (fs_effective_sup new_fold_state) (fs_retirement_causes new_fold_state)"
    by (rule balancedI) (simp add: new_fold_state_fields)
  then show ?thesis
    unfolding fold_inv_def log_inv_def ledger_inv_def by (simp add: new_fold_state_fields)
qed

section \<open>The index of the log\<close>

lemma log_inv_lookup:
  assumes "log_inv f" and "lookup f e = Some p"
  shows "pr_id p = e" "e \<noteq> []" "p \<in> set (fs_records f)"
proof -
  have "(e, p) \<in> set (fs_byID f)"
    using assms(2) by (simp add: lookup_def map_of_SomeD)
  moreover have "\<forall>(e, p) \<in> set (fs_byID f). e \<noteq> [] \<and> pr_id p = e \<and> p \<in> set (fs_records f)"
    using assms(1) unfolding log_inv_def by blast
  ultimately have entry: "e \<noteq> [] \<and> pr_id p = e \<and> p \<in> set (fs_records f)"
    by blast
  then show "pr_id p = e" "e \<noteq> []" "p \<in> set (fs_records f)"
    by blast+
qed

lemma log_inv_position:
  assumes "log_inv f" and "p \<in> set (fs_records f)"
  shows "pr_index p < length (fs_records f)" "fs_records f ! pr_index p = p"
  using assms unfolding log_inv_def by (metis in_set_conv_nth)+

lemma log_inv_effective:
  assumes "log_inv f"
  shows "effective_decision f e \<longleftrightarrow> (\<exists>p. lookup f e = Some p \<and> pr_verdict p = Effective)"
  using assms by (auto simp: log_inv_def effective_decision_def split: option.splits)

lemma extends_by_lookup:
  assumes "extends_by f r p g" and "lookup f e = Some q"
  shows "lookup g e = Some q"
  using assms by (auto simp: extends_by_def lookup_def split: if_splits)

lemma extends_by_new:
  assumes "extends_by f r p g" and "lr_id r \<noteq> []" and "lookup f (lr_id r) = None"
  shows "lookup g (lr_id r) = Some p"
  using assms by (simp add: extends_by_def lookup_def)

lemma log_inv_extends:
  assumes "log_inv f" and "extends_by f r p g"
  shows "log_inv g"
proof (cases "lr_id r \<noteq> [] \<and> map_of (fs_byID f) (lr_id r) = None")
  case True
  then have "lr_id r \<notin> fst ` set (fs_byID f)"
    by (simp add: map_of_eq_None_iff)
  moreover have "pr_id p = lr_id r"
    using assms(2) same_envelope_id by (simp add: extends_by_def)
  moreover note True assms
  ultimately show ?thesis
    by (auto simp: log_inv_def extends_by_def nth_append less_Suc_eq lookup_def)
next
  case False
  with assms show ?thesis
    by (auto simp: log_inv_def extends_by_def nth_append less_Suc_eq lookup_def)
qed

section \<open>What one append does\<close>

lemma decide_supersede_effective:
  "decide_supersede f p t = Some (q, d) \<Longrightarrow> dc_verdict d = Effective \<Longrightarrow> lookup f t \<noteq> None"
  by (auto simp: decide_supersede_def decided_def split: option.splits)

lemma judge_body_supersede:
  assumes "judge_body L f p = Some (g, q, d)" and "pr_body p = Some (BSupersede t x)"
    and "dc_verdict d = Effective"
  shows "lookup f t \<noteq> None" "decide_supersede f p t = Some (q, d)"
  using assms decide_supersede_effective
  by (auto simp: judge_body_def decide_retire_if_unclaimed_def decided_def
      split: option.splits if_splits)

definition supersedes :: "fold_state \<Rightarrow> parsed_record \<Rightarrow> string \<Rightarrow> fold_state \<Rightarrow> bool" where
  "supersedes f p t g \<longleftrightarrow>
     lookup f (pr_id p) = None \<and> pr_id p \<noteq> [] \<and> lookup f t \<noteq> None
     \<and> pr_verdict p = Effective \<and> supersede_target p = Some t
     \<and> fs_effective_sup g = (pr_id p, t) # fs_effective_sup f
     \<and> (\<exists>changed. propagate ((pr_id p, t) # fs_effective_sup f) (fs_retirement_causes f) t 1 [] =
          Some (fs_retirement_causes g, changed))"

lemma add_decision_ledger:
  "fs_effective_sup (add_decision f r p d) = fs_effective_sup f"
  "fs_retirement_causes (add_decision f r p d) = fs_retirement_causes f"
  by (simp_all add: frame_simps)

lemma apply_record_ledger:
  assumes "apply_record L f r p d = Some g"
    and "\<nexists>t x. pr_body p = Some (BSupersede t x) \<and> dc_verdict d = Effective"
  shows "fs_effective_sup g = fs_effective_sup f \<and> fs_retirement_causes g = fs_retirement_causes f"
  using assms unfolding apply_record_def
  by (auto split: if_splits option.splits body.splits
      simp: frame_simps apply_ratification_frame store_sealed_def Let_def)

fun payload_body :: "payload \<Rightarrow> body" where
  "payload_body (PState s) = BState s"
| "payload_body (PRatify t) = BRatify t"
| "payload_body (PSupersede t x) = BSupersede t x"
| "payload_body (PSupersedeV1 t x b) = BSupersede t x"
| "payload_body (PRetireIfUnclaimed t x cited e) = BSupersede t x"
| "payload_body (PReassignIfUnclaimed x b e) =
     BState \<lparr>st_kind = kind_request, st_text = x, st_body = b\<rparr>"

lemma lower_payload_body [simp]: "pr_body (lower_payload v p) = Some (payload_body v)"
  by (cases v) simp_all

text \<open>The record's body, if it has one, is what its payload decodes to.\<close>

definition decodes_to :: "('l) fold_lib_scheme \<Rightarrow> log_record \<Rightarrow> body option \<Rightarrow> bool" where
  "decodes_to L r b \<longleftrightarrow>
     (\<forall>x. b = Some x \<longrightarrow>
        (\<exists>v. decode L (lr_schema r) (lr_payload r) = Inr v \<and> x = payload_body v))"

lemma judge_settled:
  assumes "judge L f index r = Some j" and "jd_settled j"
  shows "dc_verdict (jd_decision j) \<noteq> Effective"
  using assms unfolding judge_def Let_def
  by (auto split: if_splits sum.splits)

lemma judge_settled_body:
  assumes "judge L f index r = Some j" and "jd_settled j" and "jd_parsed j = Some p"
  shows "decodes_to L r (pr_body p)"
proof (cases "decode L (lr_schema r) (lr_payload r)")
  case (Inl e)
  then show ?thesis
    using assms unfolding judge_def Let_def by (auto split: if_splits)
next
  case (Inr v)
  then have "pr_body p = Some (payload_body v)"
    using assms unfolding judge_def Let_def by (auto split: if_splits)
  with Inr show ?thesis
    by (simp add: decodes_to_def)
qed

lemma append_cases:
  assumes "append_record L f r = Some g"
  obtains
    (settled) f0 r' p d where "judged_from f f0" "same_envelope r r'" "pr_record p = r'"
      "pr_index p = length (fs_records f)" "g = add_decision f0 r' p d"
      "dc_verdict d \<noteq> Effective"
      "decodes_to L r (pr_body p)"
  | (judged) v p f0 q d where "decode L (lr_schema r) (lr_payload r) = Inr v"
      "lr_id r \<noteq> []" "lr_actor r \<noteq> []" "lookup f (lr_id r) = None" "fs_transitions f = []"
      "p = lower_payload v (new_parsed (r\<lparr>lr_payload := []\<rparr>) None (length (fs_records f)))"
      "judge_body L f p = Some (f0, q, d)"
      "apply_record L f0 (r\<lparr>lr_payload := []\<rparr>) q d = Some g"
proof -
  obtain j where j: "judge L f (length (fs_records f)) r = Some j"
    using assms by (auto simp: append_record_def Let_def split: option.splits)
  show ?thesis
  proof (cases "jd_settled j")
    case True
    let ?p = "case jd_parsed j of
        None \<Rightarrow> new_parsed (jd_record j) None (length (fs_records f)) | Some p \<Rightarrow> p"
    note frame = judge_frame [OF j]
    have g: "g = add_decision (jd_state j) (jd_record j) ?p (jd_decision j)"
      using True assms j by (simp add: append_record_def Let_def)
    have rec: "pr_record ?p = jd_record j" "pr_index ?p = length (fs_records f)"
      using frame by (simp_all split: option.split)
    have body: "decodes_to L r (pr_body ?p)"
      using judge_settled_body [OF j True] by (simp add: decodes_to_def split: option.split)
    show ?thesis
      using conjunct1 [OF frame] conjunct1 [OF conjunct2 [OF frame]] rec g
        judge_settled [OF j True] body
      by (rule settled)
  next
    case False
    from j False show ?thesis
    proof (rule judge_open)
      fix v p q d
      assume "decode L (lr_schema r) (lr_payload r) = Inr v"
        "lr_id r \<noteq> []" "lr_actor r \<noteq> []" "map_of (fs_byID f) (lr_id r) = None"
        "p = lower_payload v (new_parsed (r\<lparr>lr_payload := []\<rparr>) None (length (fs_records f)))"
        "judge_body L f p = Some (jd_state j, q, d)"
        "jd_parsed j = Some q" "jd_decision j = d" "jd_record j = r\<lparr>lr_payload := []\<rparr>"
        "fs_transitions f = []"
      then show ?thesis
        using assms j False
        by (intro judged) (auto simp: append_record_def Let_def lookup_def)
    qed
  qed
qed

lemma append_effect:
  assumes "append_record L f r = Some g"
  obtains p where "extends_by f r p g"
    "decodes_to L r (pr_body p)"
    "(fs_effective_sup g = fs_effective_sup f \<and> fs_retirement_causes g = fs_retirement_causes f)
     \<or> (\<exists>t. supersedes f p t g)"
  using assms
proof (cases rule: append_cases)
  case (settled f0 r' p d)
  have "extends_by f r (p\<lparr>pr_decision := stamp_decision r' d\<rparr>) g"
    using settled judged_from_fields [OF settled(1)]
    by (auto intro!: extends_by_judged [OF settled(1)] add_decision_extends)
  then show ?thesis
    using settled(5,7) judged_from_fields(4,5) [OF settled(1)]
    by (elim that) (simp_all add: frame_simps)
next
  case (judged v p f0 q d)
  note frame = judge_body_frame [OF judged(7)]
  note fields = judged_from_fields [OF conjunct1 [OF frame]] sealed_fields [OF conjunct2 [OF frame]]
  have env: "same_envelope r (r\<lparr>lr_payload := []\<rparr>)"
    by (simp add: same_envelope_def)
  have rec: "pr_record q = r\<lparr>lr_payload := []\<rparr>" "pr_index q = length (fs_records f0)"
    using fields judged(6) by simp_all
  have fresh: "map_of (fs_byID f0) (lr_id r) = None"
    using judged(4) fields(2) by (simp add: lookup_def)
  obtain q' where q': "extends_by f0 r q' g" "sealed_from q q'"
    "pr_decision q' = stamp_decision (r\<lparr>lr_payload := []\<rparr>) d"
    by (rule apply_record_extends [OF judged(8) env rec judged(2) fresh])
  have ext: "extends_by f r q' g"
    using extends_by_judged [OF conjunct1 [OF frame] q'(1)] .
  have body: "decodes_to L r (pr_body q')"
    using judged(1,6) sealed_fields(3) [OF q'(2)] sealed_fields(3) [OF conjunct2 [OF frame]]
    by (simp add: decodes_to_def)
  show ?thesis
  proof (cases "\<exists>t x. pr_body q = Some (BSupersede t x) \<and> dc_verdict d = Effective")
    case False
    then show ?thesis
      using that [OF ext body] apply_record_ledger [OF judged(8)] fields by auto
  next
    case True
    then obtain t x where tx: "pr_body q = Some (BSupersede t x)" and eff: "dc_verdict d = Effective"
      by blast
    let ?p1 = "(seal_supersession f0 q t)\<lparr>pr_decision := stamp_decision (r\<lparr>lr_payload := []\<rparr>) d\<rparr>"
    have app: "apply_supersession
        (add_decision f0 (r\<lparr>lr_payload := []\<rparr>) (seal_supersession f0 q t) d) ?p1 t = Some g"
      using judged(8) tx eff by (simp add: apply_record_def Let_def)
    have id: "pr_id ?p1 = lr_id r" "pr_id q' = lr_id r"
      using rec sealed_fields [OF q'(2)] by simp_all
    have "pr_body p = Some (BSupersede t x)"
      using tx sealed_fields(3) [OF conjunct2 [OF frame]] by simp
    then have "lookup f t \<noteq> None"
      by (rule judge_body_supersede(1) [OF judged(7) _ eff])
    moreover have "supersede_target q' = Some t" "pr_verdict q' = Effective"
      using tx sealed_fields(3) [OF q'(2)] q'(3) eff
      by (simp_all add: supersede_target_def stamp_decision_def)
    moreover have "fs_effective_sup f0 = fs_effective_sup f"
      "fs_retirement_causes f0 = fs_retirement_causes f"
      by (rule fields(4,5))+
    ultimately have "supersedes f q' t g"
      using id judged(2,4) apply_supersession_frame(2,3) [OF app]
      unfolding supersedes_def by (simp add: frame_simps)
    then show ?thesis
      using that [OF ext body] by blast
  qed
qed

lemma ledger_grows:
  assumes "fold_inv f" and "lookup f i = None" and "lookup f t \<noteq> None"
  shows "earlier_targets ((i, t) # fs_effective_sup f)"
proof -
  have ledger: "earlier_targets (fs_effective_sup f)" and log: "log_inv f"
    and entries: "\<And>i t. (i, t) \<in> set (fs_effective_sup f) \<Longrightarrow>
      lookup f t \<noteq> None \<and> lookup f i \<noteq> None"
    using assms(1) by (fastforce simp: fold_inv_def ledger_inv_def)+
  have "t \<noteq> []"
    using assms(3) log_inv_lookup(2) [OF log] by auto
  moreover have "i \<noteq> t"
    using assms by auto
  moreover have "i \<notin> fst ` set (fs_effective_sup f)" "i \<notin> snd ` set (fs_effective_sup f)"
    using assms(2) entries by force+
  ultimately show ?thesis
    using ledger by simp
qed

lemma ledger_inv_append:
  assumes "fold_inv f" and "append_record L f r = Some g"
  shows "ledger_inv g"
  using assms(2)
proof (cases rule: append_effect)
  case ext: (1 p)
  have ledger: "earlier_targets (fs_effective_sup f)"
    "balanced (fs_effective_sup f) (fs_retirement_causes f)"
    and log: "log_inv f"
    and entries: "\<And>i t. (i, t) \<in> set (fs_effective_sup f) \<Longrightarrow> lookup f t \<noteq> None \<and>
          (\<exists>p. lookup f i = Some p \<and> pr_verdict p = Effective \<and> supersede_target p = Some t)"
    using assms(1) by (auto simp: fold_inv_def ledger_inv_def)
  note kept = extends_by_lookup [OF ext(1)]
  have old: "lookup g t \<noteq> None \<and>
      (\<exists>p. lookup g i = Some p \<and> pr_verdict p = Effective \<and> supersede_target p = Some t)"
    if "(i, t) \<in> set (fs_effective_sup f)" for i t
    using entries [OF that] kept by fastforce
  from ext(3) show ?thesis
  proof
    assume "fs_effective_sup g = fs_effective_sup f \<and> fs_retirement_causes g = fs_retirement_causes f"
    then show ?thesis
      using ledger old by (auto simp: ledger_inv_def)
  next
    assume "\<exists>t. supersedes f p t g"
    then obtain t where s: "supersedes f p t g" ..
    have id: "pr_id p = lr_id r"
      using ext(1) same_envelope_id by (simp add: extends_by_def)
    have earlier: "earlier_targets ((pr_id p, t) # fs_effective_sup f)"
      using s by (intro ledger_grows [OF assms(1)]) (simp_all add: supersedes_def)
    have "balanced (fs_effective_sup g) (fs_retirement_causes g)"
      using propagate_new [OF ledger(2) earlier] s by (auto simp: supersedes_def)
    moreover have "lookup g (pr_id p) = Some p"
      using extends_by_new [OF ext(1)] s id by (simp add: supersedes_def)
    moreover have "lookup g t \<noteq> None"
      using s kept by (auto simp: supersedes_def)
    ultimately show ?thesis
      using s earlier old by (auto simp: ledger_inv_def supersedes_def)
  qed
qed

lemma fold_inv_append: "fold_inv f \<Longrightarrow> append_record L f r = Some g \<Longrightarrow> fold_inv g"
proof -
  assume inv: "fold_inv f" and app: "append_record L f r = Some g"
  from app obtain p where "extends_by f r p g"
    by (rule append_effect)
  then show ?thesis
    using inv ledger_inv_append [OF inv app] log_inv_extends by (auto simp: fold_inv_def)
qed

section \<open>Returning\<close>

text \<open>
  The targets a log's payloads name. Identifiers of real events are digests of content that holds
  the target, so following targets strictly descends in some order; \<open>rank\<close> is such an order.
\<close>

fun body_target :: "body \<Rightarrow> string option" where
  "body_target (BState s) = None"
| "body_target (BRatify t) = Some t"
| "body_target (BSupersede t x) = Some t"

definition refers_back :: "('l) fold_lib_scheme \<Rightarrow> (string \<Rightarrow> nat) \<Rightarrow> log_record \<Rightarrow> bool" where
  "refers_back L rank r \<longleftrightarrow>
     (case decode L (lr_schema r) (lr_payload r) of
        Inl e \<Rightarrow> True
      | Inr v \<Rightarrow> (case body_target (payload_body v) of
                    None \<Rightarrow> True | Some t \<Rightarrow> rank t < rank (lr_id r)))"

definition targets_ranked :: "(string \<Rightarrow> nat) \<Rightarrow> fold_state \<Rightarrow> bool" where
  "targets_ranked rank f \<longleftrightarrow>
     (\<forall>e p b t. lookup f e = Some p \<and> pr_body p = Some b \<and> body_target b = Some t \<longrightarrow>
        rank t < rank e)"

lemmas governance_step = governance_walk.simps [of f restoring event] for f restoring event

lemma governance_walk_total:
  assumes "targets_ranked rank f"
  shows "governance_walk f restoring event \<noteq> None"
proof (induction "rank event" arbitrary: restoring event rule: less_induct)
  case less
  have "rank t < rank event"
    if "lookup f event = Some p" "pr_body p = Some b" "body_target b = Some t" for p b t
    using assms that by (auto simp: targets_ranked_def)
  then show ?case
    using less by (subst governance_step) (auto split: option.split body.split)
qed

lemma decide_supersede_total:
  assumes "targets_ranked rank f"
  shows "decide_supersede f p t \<noteq> None"
proof -
  obtain y where "governance_walk f False t = Some y"
    using governance_walk_total [OF assms] by blast
  then show ?thesis
    unfolding decide_supersede_def governance_target_def by (simp split: option.split)
qed

lemma judge_body_total: "targets_ranked rank f \<Longrightarrow> judge_body L f p \<noteq> None"
  using decide_supersede_total [of rank f p]
  unfolding judge_body_def decide_retire_if_unclaimed_def
  by (simp split: option.split body.split) (metis prod_cases3)

lemma judge_total: "targets_ranked rank f \<Longrightarrow> \<exists>j. judge L f index r = Some j"
  using judge_body_total [of rank f L]
  unfolding judge_def Let_def by (simp split: sum.split)

lemma apply_supersession_total:
  assumes "fold_inv f" and "fs_effective_sup g = fs_effective_sup f"
    and "fs_retirement_causes g = fs_retirement_causes f"
    and "lookup f (pr_id p) = None" and "lookup f t \<noteq> None"
  shows "apply_supersession g p t \<noteq> None"
proof -
  have "balanced (fs_effective_sup f) (fs_retirement_causes f)"
    using assms(1) by (simp only: fold_inv_def ledger_inv_def)
  from propagate_new [OF this ledger_grows [OF assms(1,4,5)]] assms(2,3) show ?thesis
    by (auto simp: apply_supersession_def change_retirement_def Let_def)
qed

lemma append_total:
  assumes "fold_inv f" and "targets_ranked rank f"
  shows "\<exists>g. append_record L f r = Some g"
proof -
  obtain j where j: "judge L f (length (fs_records f)) r = Some j"
    using judge_total [OF assms(2)] by blast
  show ?thesis
  proof (cases "jd_settled j")
    case True
    with j show ?thesis by (simp add: append_record_def Let_def)
  next
    case False
    from j False show ?thesis
    proof (rule judge_open)
      fix v p q d
      assume o: "lr_id r \<noteq> []" "map_of (fs_byID f) (lr_id r) = None"
        "p = lower_payload v (new_parsed (r\<lparr>lr_payload := []\<rparr>) None (length (fs_records f)))"
        "judge_body L f p = Some (jd_state j, q, d)"
        "jd_parsed j = Some q" "jd_decision j = d" "jd_record j = r\<lparr>lr_payload := []\<rparr>"
      note frame = judge_body_frame [OF o(4)]
      note fields = judged_from_fields(4,5) [OF conjunct1 [OF frame]]
      have id: "pr_id q = lr_id r" and same: "pr_body q = pr_body p"
        using sealed_fields [OF conjunct2 [OF frame]] o(3) by simp_all
      have "apply_record L (jd_state j) (r\<lparr>lr_payload := []\<rparr>) q d \<noteq> None"
      proof (cases "\<exists>t x. pr_body q = Some (BSupersede t x) \<and> dc_verdict d = Effective")
        case True
        then obtain t x where "pr_body q = Some (BSupersede t x)" "dc_verdict d = Effective"
          by blast
        moreover from this have "lookup f t \<noteq> None"
          using judge_body_supersede(1) [OF o(4)] same by simp
        ultimately show ?thesis
          using apply_supersession_total [OF assms(1)] fields id o(2)
          by (simp add: apply_record_def Let_def frame_simps lookup_def)
      qed (auto simp: apply_record_def split: option.split body.split)
      then show ?thesis
        using j False o(5-7) by (simp add: append_record_def Let_def)
    qed
  qed
qed

lemma targets_ranked_append:
  assumes "targets_ranked rank f" and "refers_back L rank r" and "append_record L f r = Some g"
  shows "targets_ranked rank g"
  using assms(3)
proof (cases rule: append_effect)
  case (1 p)
  have "rank t < rank (lr_id r)" if "pr_body p = Some b" "body_target b = Some t" for b t
    using 1(2) that assms(2) by (auto simp: decodes_to_def refers_back_def)
  then show ?thesis
    using 1(1) assms(1) by (auto simp: targets_ranked_def extends_by_def lookup_def split: if_splits)
qed

section \<open>Runs of the fold\<close>

lemma fold_log_run: "fold_log L f rs = run_steps (append_record L) f rs"
  by (induction L f rs rule: fold_log.induct) (auto split: option.splits)

interpretation fold_machine: invariant_machine "append_record L" fold_inv "\<lambda>_. True" for L
  by unfold_locales (rule fold_inv_append)

interpretation fold_history: append_only "append_record L" fs_records for L
proof unfold_locales
  fix f r g
  assume "append_record L f r = Some g"
  then obtain p where "extends_by f r p g"
    by (rule append_effect)
  then show "\<exists>new. fs_records g = fs_records f @ new"
    by (auto simp: extends_by_def)
qed

interpretation fold_returning: total_machine "append_record L"
  "\<lambda>f. fold_inv f \<and> targets_ranked rank f" "refers_back L rank" for L rank
proof unfold_locales
  fix f r g
  assume "fold_inv f \<and> targets_ranked rank f" "refers_back L rank r" "append_record L f r = Some g"
  then show "fold_inv g \<and> targets_ranked rank g"
    using fold_inv_append targets_ranked_append by blast
qed (use append_total in blast)

text \<open>What a reader of one event sees never changes once it is there.\<close>

definition keeps_index :: "fold_state \<Rightarrow> fold_state \<Rightarrow> bool" where
  "keeps_index f g \<longleftrightarrow>
     (\<forall>e p. lookup f e = Some p \<longrightarrow> lookup g e = Some p)
     \<and> (\<forall>e d. fs_decisions f e = Some d \<longrightarrow> fs_decisions g e = Some d)"

interpretation fold_index: preorder_machine "append_record L" fold_inv keeps_index for L
proof unfold_locales
  fix f r g
  assume inv: "fold_inv f" and app: "append_record L f r = Some g"
  then show "fold_inv g"
    by (rule fold_inv_append)
  from app obtain p where ext: "extends_by f r p g"
    by (rule append_effect)
  have dec: "fs_decisions h e = map_option pr_decision (lookup h e)" if "fold_inv h" for h e
    using that by (simp add: fold_inv_def log_inv_def)
  show "keeps_index f g"
    using extends_by_lookup [OF ext] dec [OF inv] dec [OF \<open>fold_inv g\<close>]
    by (auto simp: keeps_index_def)
qed (auto simp: keeps_index_def)

definition reachable :: "('l) fold_lib_scheme \<Rightarrow> fold_state \<Rightarrow> bool" where
  "reachable L f \<longleftrightarrow> (\<exists>rs. new_folder L rs = Some f)"

lemma reachable_inv: "reachable L f \<Longrightarrow> fold_inv f"
  using fold_machine.run_inv [OF fold_inv_start]
  by (auto simp: list_all_iff reachable_def new_folder_def fold_log_run)

end
