(* ===== verification/WorkroomDemo.thy ===== *)
theory WorkroomDemo
  imports WorkroomInv
begin

text \<open>
  A small log on which the theorems of the fold are applied: an operator seeds the roster, admits a
  second actor, asks it for something, is answered by a promise, and withdraws and restores the
  request; then it declares and ratifies a kind, and accepts the report of the promise. The JSON
  library is a finite table of payloads.
\<close>

definition demo_lib_of :: "(string \<times> payload) list \<Rightarrow> fold_lib" where
  "demo_lib_of table =
     \<lparr>parse_json = (\<lambda>s. if s = ''{}'' then Some (JObj []) else if s = ''[]'' then Some (JArr []) else None),
      re_compiles = (\<lambda>_. False), re_matches = (\<lambda>_ _. False),
      decode_fields = (\<lambda>s. if s = ''[]'' then Some (Some []) else None),
      encode_fields = (\<lambda>_. ''[]''),
      decode_basis = (\<lambda>s. if s = ''[]'' then Some (Some []) else None),
      encode_basis = (\<lambda>_. ''[]''),
      unmarshal_payload = (\<lambda>_ data. map_of table data),
      marshal_payload = (\<lambda>v. case List.find (\<lambda>(k, w). w = v) table of
                               None \<Rightarrow> [] | Some (k, w) \<Rightarrow> k),
      marshal_strings = (\<lambda>_. ''[]'')\<rparr>"

definition demo_payloads :: "(string \<times> payload) list" where
  "demo_payloads =
     [(''seed'', PState \<lparr>st_kind = kind_roster, st_text = ''seed'',
         st_body = [(''actor'', ''A''), (''name'', ''Ann''), (''role'', role_operator)]\<rparr>),
      (''join'', PState \<lparr>st_kind = kind_roster, st_text = ''join'',
         st_body = [(''actor'', ''B''), (''name'', ''Bob''), (''role'', role_participant),
                    (''kind'', ''human'')]\<rparr>),
      (''yes'', PRatify ''j''),
      (''ask'', PState \<lparr>st_kind = kind_request, st_text = ''ask'',
         st_body = [(''to'', ''B''), (''conditions'', ''done'')]\<rparr>),
      (''take'', PState \<lparr>st_kind = kind_promise, st_text = ''take'', st_body = []\<rparr>),
      (''drop'', PSupersede ''q'' ''drop''), (''undo'', PSupersede ''qx'' ''undo''),
      (''define'', PState \<lparr>st_kind = kind_kind_def, st_text = ''define'',
         st_body = [(''name'', ''review''), (''fields'', ''[]''), (''basis'', ''[]''),
                    (''satisfier'', ''none''), (''render'', ''note''), (''staleness'', ''exempt''),
                    (''lifecycle'', ''none''), (''guidance'', ''look again'')]\<rparr>),
      (''rule'', PRatify ''k''),
      (''done'', PState \<lparr>st_kind = kind_report, st_text = ''done'', st_body = []\<rparr>),
      (''fine'', PRatify ''d'')]"

definition demo_lib :: fold_lib where
  "demo_lib = demo_lib_of demo_payloads"

definition demo_record :: "string \<Rightarrow> string \<Rightarrow> string \<Rightarrow> string \<Rightarrow> string list \<Rightarrow> log_record" where
  "demo_record i actor schema payload rests_on =
     \<lparr>lr_id = i, lr_timestamp = 0, lr_actor = actor, lr_schema = schema, lr_rests_on = rests_on,
      lr_payload = payload\<rparr>"

definition demo_log :: "log_record list" where
  "demo_log =
     [demo_record ''s'' ''A'' schema_state ''seed'' [],
      demo_record ''j'' ''A'' schema_state ''join'' [],
      demo_record ''jy'' ''A'' schema_ratify ''yes'' [''j''],
      demo_record ''q'' ''A'' schema_state ''ask'' [],
      demo_record ''p'' ''B'' schema_state ''take'' [''q''],
      demo_record ''qx'' ''A'' schema_supersede ''drop'' [''q''],
      demo_record ''qxz'' ''A'' schema_supersede ''undo'' [''qx''],
      demo_record ''k'' ''A'' schema_state ''define'' [],
      demo_record ''ky'' ''A'' schema_ratify ''rule'' [''k''],
      demo_record ''d'' ''B'' schema_state ''done'' [''p''],
      demo_record ''dy'' ''A'' schema_ratify ''fine'' [''d'']]"

text \<open>The state after the first \<open>n\<close> records.\<close>

definition demo_state :: "nat \<Rightarrow> fold_state" where
  "demo_state n = the (new_folder demo_lib (take n demo_log))"

lemma demo_runs: "new_folder demo_lib demo_log \<noteq> None"
  by code_simp

lemma demo_folds: "new_folder demo_lib (take n demo_log) = Some (demo_state n)"
proof -
  have "run_steps (append_record demo_lib) new_fold_state (take n demo_log) \<noteq> None"
    using demo_runs run_steps_append [of "append_record demo_lib" new_fold_state
        "take n demo_log" "drop n demo_log"]
    by (auto simp: new_folder_def fold_log_run split: option.splits)
  then show ?thesis
    by (auto simp: demo_state_def new_folder_def fold_log_run)
qed

lemma demo_reachable: "reachable demo_lib (demo_state n)"
  using demo_folds by (auto simp: reachable_def)

lemma demo_step:
  assumes "n \<le> m"
  shows "fold_log demo_lib (demo_state n) (drop n (take m demo_log)) = Some (demo_state m)"
proof -
  have "take m demo_log = take n demo_log @ drop n (take m demo_log)"
    using assms by (metis append_take_drop_id min.absorb1 take_take)
  then have "new_folder demo_lib (take m demo_log) =
      (case new_folder demo_lib (take n demo_log) of None \<Rightarrow> None
       | Some f \<Rightarrow> fold_log demo_lib f (drop n (take m demo_log)))"
    unfolding new_folder_def fold_log_run by (metis run_steps_append)
  with demo_folds [of n] demo_folds [of m] show ?thesis
    by simp
qed

lemma demo_append:
  assumes "n < 11"
  shows "append_record demo_lib (demo_state n) (demo_log ! n) = Some (demo_state (Suc n))"
proof -
  have "length demo_log = 11"
    by (simp add: demo_log_def)
  with assms have "drop n (take (Suc n) demo_log) = [demo_log ! n]"
    by (simp add: take_Suc_conv_app_nth)
  then show ?thesis
    using demo_step [of n "Suc n"] by (simp split: option.splits)
qed

lemmas demo_defs = demo_lib_def demo_lib_of_def demo_payloads_def demo_record_def demo_log_def

end
