(* ===== verification/FoldHistory.thy ===== *)
theory FoldHistory
  imports WorkroomDemo
begin

text \<open>
  Properties of the fold as a history: what the retirement counters mean, that folding returns, that
  a decision is final, how a repeated identifier is treated, and that a preview is exactly the
  decision the log would give and leaves the fold as it was.
\<close>

text \<open>
  C3: in every state the fold can reach, the counter it keeps for an event is the number of live
  supersessions naming it, where a supersession is live exactly when no live supersession newer
  than it names it. The counters are updated incrementally along chains; this is what they mean.
\<close>

theorem retirement_counts:
  assumes "reachable L f"
  shows "fs_retirement_causes f t = int (live_causes (fs_effective_sup f) t)"
proof -
  have "earlier_targets (fs_effective_sup f)"
    and "balanced (fs_effective_sup f) (fs_retirement_causes f)"
    using reachable_inv [OF assms] by (simp_all only: fold_inv_def ledger_inv_def)
  then show ?thesis
    by (rule balanced_live_causes)
qed

theorem retirement_counts_witness:
  "fs_retirement_causes (demo_state 6) ''q'' = int (live_causes (fs_effective_sup (demo_state 6)) ''q'')
   \<and> live_causes (fs_effective_sup (demo_state 6)) ''q'' = 1
   \<and> live_causes (fs_effective_sup (demo_state 7)) ''q'' = 0"
proof -
  have "live_causes (fs_effective_sup (demo_state 6)) ''q'' = 1
      \<and> live_causes (fs_effective_sup (demo_state 7)) ''q'' = 0"
    by code_simp
  then show ?thesis
    using retirement_counts [OF demo_reachable, of 6 "''q''"] by simp
qed

text \<open>
  C4: folding a whole log returns. The retirement loop and the governance loop have no bound in the
  code; they end whenever the targets named in payloads descend in some order of the identifiers,
  which content addressing gives. Nothing is asked of the bases, the actors or the schemas.
\<close>

theorem fold_returns:
  assumes "list_all (refers_back L rank) rs"
  shows "\<exists>f. new_folder L rs = Some f"
proof -
  have "fold_inv new_fold_state \<and> targets_ranked rank new_fold_state"
    using fold_inv_start by (simp add: targets_ranked_def new_fold_state_fields)
  from fold_returning.run_total [OF this assms] show ?thesis
    by (simp add: new_folder_def fold_log_run)
qed

theorem fold_returns_witness: "\<exists>f. new_folder demo_lib demo_log = Some f"
proof (rule fold_returns)
  show "list_all (refers_back demo_lib length) demo_log"
    by code_simp
qed

text \<open>
  C5: a record once indexed keeps its place and its decision through every later append; no later
  record can change what an earlier one was decided to be.
\<close>

theorem decisions_final:
  assumes "reachable L f" and "fold_log L f rs = Some g" and "lookup f e = Some p"
  shows "lookup g e = Some p \<and> fs_decisions g e = Some (pr_decision p)
    \<and> fs_records g ! pr_index p = p"
proof -
  have inv: "fold_inv f"
    using reachable_inv [OF assms(1)] .
  have log: "log_inv f"
    using inv by (simp only: fold_inv_def)
  have run: "run_steps (append_record L) f rs = Some g"
    using assms(2) by (simp add: fold_log_run)
  have "fs_decisions f e = Some (pr_decision p)"
    using log assms(3) by (auto simp: log_inv_def)
  moreover have "fs_records g ! pr_index p = p"
    using fold_history.run_keeps [OF run] log_inv_position [OF log log_inv_lookup(3) [OF log assms(3)]]
    by metis
  ultimately show ?thesis
    using fold_index.run_rel [OF inv run] assms(3) by (auto simp: keeps_index_def)
qed

theorem decisions_final_witness:
  "lookup (demo_state 7) ''q'' = lookup (demo_state 4) ''q''
   \<and> fs_decisions (demo_state 7) ''q'' \<noteq> None"
proof -
  have "lookup (demo_state 4) ''q'' \<noteq> None"
    by code_simp
  then obtain p where p: "lookup (demo_state 4) ''q'' = Some p"
    by blast
  have "fold_log demo_lib (demo_state 4) (drop 4 (take 7 demo_log)) = Some (demo_state 7)"
    by (rule demo_step) simp_all
  from decisions_final [OF demo_reachable this p] p show ?thesis by simp
qed

section \<open>Repeated identifiers\<close>

text \<open>
  C7: a record whose identifier the log already holds is kept as an entry without effect: disputed,
  or ineffective when it names no actor, which is tested first. Every index, grant, counter and
  definition stays as it was, so the first record of an identifier is the one that counts.
\<close>

theorem duplicate_disputed:
  assumes "reachable L f" and "lookup f (lr_id r) \<noteq> None"
  shows "\<exists>p. append_record L f r = Some (f\<lparr>fs_records := fs_records f @ [p]\<rparr>) \<and> pr_record p = r
    \<and> pr_decision p = (if lr_actor r = []
         then \<lparr>dc_event = lr_id r, dc_verdict = Ineffective, dc_reason = IdActorRequired\<rparr>
         else \<lparr>dc_event = lr_id r, dc_verdict = Disputed, dc_reason = DuplicateEvent\<rparr>)"
proof -
  have "log_inv f"
    using reachable_inv [OF assms(1)] by (simp only: fold_inv_def)
  then have "lr_id r \<noteq> []"
    using assms(2) log_inv_lookup(2) by blast
  with assms(2) show ?thesis
    by (cases "lr_actor r = []")
      (auto simp: append_record_def judge_def Let_def lookup_def add_decision_def stamp_decision_def)
qed

theorem duplicate_disputed_witness:
  "\<exists>p q. append_record demo_lib (demo_state 4) (demo_record ''q'' ''B'' schema_state ''take'' []) =
       Some ((demo_state 4)\<lparr>fs_records := fs_records (demo_state 4) @ [p]\<rparr>) \<and> pr_verdict p = Disputed
     \<and> append_record demo_lib (demo_state 4) (demo_record ''q'' [] schema_state ''take'' []) =
       Some ((demo_state 4)\<lparr>fs_records := fs_records (demo_state 4) @ [q]\<rparr>) \<and> pr_verdict q = Ineffective"
proof -
  have "lookup (demo_state 4) ''q'' \<noteq> None"
    by code_simp
  then have held: "lookup (demo_state 4) (lr_id (demo_record ''q'' a schema_state ''take'' [])) \<noteq> None" for a
    by (simp add: demo_record_def)
  obtain p where "append_record demo_lib (demo_state 4) (demo_record ''q'' ''B'' schema_state ''take'' []) =
      Some ((demo_state 4)\<lparr>fs_records := fs_records (demo_state 4) @ [p]\<rparr>)" "pr_verdict p = Disputed"
    using duplicate_disputed [OF demo_reachable held, of "''B''"] by (auto simp: demo_record_def)
  moreover obtain q where "append_record demo_lib (demo_state 4) (demo_record ''q'' [] schema_state ''take'' []) =
      Some ((demo_state 4)\<lparr>fs_records := fs_records (demo_state 4) @ [q]\<rparr>)" "pr_verdict q = Ineffective"
    using duplicate_disputed [OF demo_reachable held, of "[]"] by (auto simp: demo_record_def)
  ultimately show ?thesis
    by blast
qed

section \<open>Preview\<close>

definition other_claims :: "string \<Rightarrow> fold_state \<Rightarrow> fold_state \<Rightarrow> bool" where
  "other_claims i f g \<longleftrightarrow>
     (\<forall>e. e \<noteq> i \<longrightarrow> map_of (fs_admitted_claims g) e = map_of (fs_admitted_claims f) e)"

lemma other_claims_refl [simp]: "other_claims i f f"
  by (simp add: other_claims_def)

lemma remember_other_claims [simp]: "other_claims i f (remember_claims f i c)"
  by (cases c) (simp_all add: remember_claims_def remember_claim_def other_claims_def)

lemma other_claims_trans: "other_claims i f g \<Longrightarrow> other_claims i g h \<Longrightarrow> other_claims i f h"
  by (simp add: other_claims_def)

lemma commitment_rules_claims:
  "commitment_rules f r d s = (g, q, dc) \<Longrightarrow> other_claims (pr_id r) f g"
  unfolding commitment_rules_def Let_def
  by (auto split: sum.splits option.splits if_splits prod.splits
      intro: other_claims_trans remember_other_claims)

lemma decide_state_claims:
  "decide_state L f r s = (g, q, dc) \<Longrightarrow> other_claims (pr_id r) f g"
  unfolding decide_state_def Let_def
  by (auto split: sum.splits option.splits if_splits dest!: commitment_rules_claims)

lemma judge_body_claims:
  assumes "judge_body L f p = Some (g, q, dc)"
  shows "other_claims (pr_id p) f g"
  using assms decide_state_claims
  unfolding judge_body_def decide_reassign_if_unclaimed_def
  by (fastforce split: option.splits body.splits if_splits)

lemma judge_claims:
  assumes "judge L f index r = Some j"
  shows "other_claims (lr_id r) f (jd_state j)"
proof (cases "jd_settled j")
  case True
  with assms have "fs_admitted_claims (jd_state j) = fs_admitted_claims f"
    unfolding judge_def Let_def by (auto split: if_splits sum.splits)
  then show ?thesis
    by (simp add: other_claims_def)
next
  case False
  from assms False show ?thesis
    by (rule judge_open) (auto dest!: judge_body_claims)
qed

text \<open>The same state to every reader: the order of an index read by key is not observable.\<close>

definition same_to_readers :: "fold_state \<Rightarrow> fold_state \<Rightarrow> bool" where
  "same_to_readers f g \<longleftrightarrow>
     g = f\<lparr>fs_admitted_claims := fs_admitted_claims g\<rparr>
     \<and> (\<forall>e. map_of (fs_admitted_claims g) e = map_of (fs_admitted_claims f) e)"

lemma map_of_others: "map_of (filter (\<lambda>(i, c). i \<noteq> k) m) e = (if e = k then None else map_of m e)"
  by (induction m) auto

lemma preview_state:
  assumes "preview L f r = Some (d, h)"
  shows "same_to_readers f h"
proof -
  obtain j where j: "judge L f (length (fs_records f)) r = Some j"
    using assms by (auto simp: preview_def split: option.splits)
  have "judged_from f (jd_state j)"
    using judge_frame [OF j] by blast
  then obtain claims beyond
    where state: "jd_state j = f\<lparr>fs_admitted_claims := claims, fs_beyond_seam := beyond\<rparr>"
    by (auto simp: judged_from_def)
  have "map_of claims e = map_of (fs_admitted_claims f) e" if "e \<noteq> lr_id r" for e
    using judge_claims [OF j] that state by (simp add: other_claims_def)
  then show ?thesis
    using assms j state
    by (auto simp: preview_def Let_def same_to_readers_def map_of_others split: option.splits)
qed

text \<open>
  C6: a preview answers with the decision the log gives when the same record is appended next, and
  afterwards every reader of the fold sees what it saw before. A write boundary may therefore refuse
  an act before it is signed, with the reason the log would have given.
\<close>

theorem preview_agrees:
  assumes "append_record L f r = Some g"
  shows "\<exists>d h. preview L f r = Some (d, h) \<and> same_to_readers f h
    \<and> pr_decision (last (fs_records g)) = stamp_decision r d"
proof -
  obtain j where j: "judge L f (length (fs_records f)) r = Some j"
    using assms by (auto simp: append_record_def Let_def split: option.splits)
  obtain h where h: "preview L f r = Some (jd_decision j, h)"
    using j by (simp add: preview_def Let_def)
  note frame = judge_frame [OF j]
  have stamp: "stamp_decision (jd_record j) d = stamp_decision r d" for d
    using frame same_envelope_id by (simp add: stamp_decision_def)
  have "pr_decision (last (fs_records g)) = stamp_decision r (jd_decision j)"
  proof (cases "jd_settled j")
    case True
    then show ?thesis
      using assms j stamp by (auto simp: append_record_def Let_def add_decision_def)
  next
    case False
    have "\<exists>q. fs_records g = fs_records f @ [q] \<and> pr_decision q = stamp_decision r (jd_decision j)"
      using j False
    proof (rule judge_open)
      fix v p q d
      assume o: "lr_id r \<noteq> []" "map_of (fs_byID f) (lr_id r) = None"
        "p = lower_payload v (new_parsed (r\<lparr>lr_payload := []\<rparr>) None (length (fs_records f)))"
        "judge_body L f p = Some (jd_state j, q, d)"
        "jd_parsed j = Some q" "jd_decision j = d" "jd_record j = r\<lparr>lr_payload := []\<rparr>"
      note body = judge_body_frame [OF o(4)]
      note fields = judged_from_fields(1,2) [OF conjunct1 [OF body]]
        sealed_fields [OF conjunct2 [OF body]]
      have app: "apply_record L (jd_state j) (r\<lparr>lr_payload := []\<rparr>) q d = Some g"
        using assms j False o(5-7) by (simp add: append_record_def Let_def)
      obtain q' where "extends_by (jd_state j) r q' g"
        "pr_decision q' = stamp_decision (r\<lparr>lr_payload := []\<rparr>) d"
        by (rule apply_record_extends [OF app, of r])
           (use o fields in \<open>simp_all add: same_envelope_def\<close>)
      then show ?thesis
        using fields stamp o(6,7) by (auto simp: extends_by_def)
    qed
    then show ?thesis by auto
  qed
  then show ?thesis
    using h preview_state [OF h] by blast
qed

theorem preview_agrees_witness:
  "\<exists>d h. preview demo_lib (demo_state 4) (demo_log ! 4) = Some (d, h)
     \<and> same_to_readers (demo_state 4) h
     \<and> pr_decision (last (fs_records (demo_state 5))) = stamp_decision (demo_log ! 4) d"
proof (rule preview_agrees)
  show "append_record demo_lib (demo_state 4) (demo_log ! 4) = Some (demo_state 5)"
    using demo_append [of 4] by simp
qed

end
