(* ===== verification/WorkroomCases.thy ===== *)
theory WorkroomCases
  imports WorkroomInv
begin

text \<open>
  The four things an append can be: a record that is not admitted, an admitted statement, an
  admitted ratification, and an admitted supersession. Each case gives the record as the log keeps
  it, the decision that admitted it, and the state the indexes are then written into. Properties of
  the whole fold are proved by these four cases.
\<close>

section \<open>What sealing keeps\<close>

definition kept_from :: "parsed_record \<Rightarrow> parsed_record \<Rightarrow> bool" where
  "kept_from p q \<longleftrightarrow>
     sealed_from p q \<and> pr_definition q = pr_definition p \<and> pr_declared q = pr_declared p
     \<and> pr_result q = pr_result p \<and> pr_own_standing q = pr_own_standing p"

lemma kept_from_refl [simp]: "kept_from p p"
  by (simp add: kept_from_def)

lemma kept_from_decision [simp]: "kept_from p (q\<lparr>pr_decision := d\<rparr>) \<longleftrightarrow> kept_from p q"
  by (simp add: kept_from_def)

lemma kept_from_trans: "kept_from p q \<Longrightarrow> kept_from q r \<Longrightarrow> kept_from p r"
  using sealed_from_trans [of p q r] by (simp add: kept_from_def)

lemma kept_from_fields:
  assumes "kept_from p q"
  shows "pr_record q = pr_record p" "pr_index q = pr_index p" "pr_body q = pr_body p"
    "pr_definition q = pr_definition p" "pr_declared q = pr_declared p"
    "pr_result q = pr_result p" "pr_own_standing q = pr_own_standing p"
    "pr_expectation q = pr_expectation p" "pr_guarded_retirement q = pr_guarded_retirement p"
  using assms by (auto simp: kept_from_def sealed_from_def)

lemma seal_receipt_kept: "kept_from p (seal_receipt L f p s d)"
  by (simp add: kept_from_def seal_receipt_def Let_def split: option.splits prod.splits)

lemma seal_accounting_kept: "kept_from p (seal_accounting L f p s u)"
  by (simp add: kept_from_def seal_accounting_def Let_def split: option.splits prod.splits)

lemma seal_supersession_kept: "kept_from p (seal_supersession f p t)"
  by (simp add: kept_from_def seal_supersession_def Let_def split: option.splits prod.splits)

section \<open>The indexes of the fold\<close>

text \<open>All that is kept beside the log, its index, its decisions and the admitted claims.\<close>

definition same_indexes :: "fold_state \<Rightarrow> fold_state \<Rightarrow> bool" where
  "same_indexes f g \<longleftrightarrow>
     (\<exists>rs ids ds claims beyond. g = f\<lparr>fs_records := rs, fs_byID := ids, fs_decisions := ds,
        fs_admitted_claims := claims, fs_beyond_seam := beyond\<rparr>)"

lemma same_indexes_fields:
  assumes "same_indexes f g"
  shows "fs_effective_sup g = fs_effective_sup f" "fs_retirement_causes g = fs_retirement_causes f"
    "fs_supersessions g = fs_supersessions f"
    "fs_supersessions_by_target g = fs_supersessions_by_target f"
    "fs_role_grants g = fs_role_grants f" "fs_role_grants_by_role g = fs_role_grants_by_role f"
    "fs_membership_grants g = fs_membership_grants f" "fs_ratifications g = fs_ratifications f"
    "fs_definitions g = fs_definitions f" "fs_definition_versions g = fs_definition_versions f"
    "fs_transitions g = fs_transitions f" "fs_dependents g = fs_dependents f"
    "fs_authorizations g = fs_authorizations f" "fs_abandonments g = fs_abandonments f"
    "is_retired g e = is_retired f e"
  using assms by (auto simp: same_indexes_def is_retired_def)

lemma same_indexes_log:
  "same_indexes f (f\<lparr>fs_records := rs, fs_byID := ids, fs_decisions := ds,
     fs_admitted_claims := claims, fs_beyond_seam := beyond\<rparr>)"
  unfolding same_indexes_def by blast

lemma same_indexes_judged:
  assumes "judged_from f f0"
  shows "same_indexes f (add_decision f0 r p d)"
    "same_indexes f (store_sealed (add_decision f0 r p d) q)"
proof -
  obtain claims beyond where f0: "f0 = f\<lparr>fs_admitted_claims := claims, fs_beyond_seam := beyond\<rparr>"
    using assms by (auto simp: judged_from_def)
  let ?g = "add_decision f0 r p d"
  have "?g = f\<lparr>fs_records := fs_records ?g, fs_byID := fs_byID ?g, fs_decisions := fs_decisions ?g,
      fs_admitted_claims := claims, fs_beyond_seam := beyond\<rparr>"
    unfolding f0 add_decision_def Let_def by simp
  then show "same_indexes f ?g"
    using same_indexes_log by metis
  let ?h = "store_sealed ?g q"
  have "?h = f\<lparr>fs_records := fs_records ?h, fs_byID := fs_byID ?h, fs_decisions := fs_decisions ?h,
      fs_admitted_claims := claims, fs_beyond_seam := beyond\<rparr>"
    unfolding f0 add_decision_def store_sealed_def Let_def by simp
  then show "same_indexes f ?h"
    using same_indexes_log by metis
qed

section \<open>The cases\<close>

text \<open>The record as \<open>judge\<close> hands it to the decisions.\<close>

definition judged_record :: "fold_state \<Rightarrow> log_record \<Rightarrow> payload \<Rightarrow> parsed_record" where
  "judged_record f r v =
     lower_payload v (new_parsed (r\<lparr>lr_payload := []\<rparr>) None (length (fs_records f)))"

lemma judged_record_fields [simp]:
  "pr_record (judged_record f r v) = r\<lparr>lr_payload := []\<rparr>"
  "pr_index (judged_record f r v) = length (fs_records f)"
  "pr_body (judged_record f r v) = Some (payload_body v)"
  by (simp_all add: judged_record_def)

lemma judge_body_effective_state:
  assumes "judge_body L f p = Some (g, q, d)" and "pr_body p = Some (BState s)"
    and "dc_verdict d = Effective"
  shows "decide_state L f p s = (g, q, d)"
  using assms
  by (auto simp: judge_body_def decide_reassign_if_unclaimed_def decided_def
      split: if_splits option.splits)

lemma judge_body_effective_other:
  assumes "judge_body L f p = Some (g, q, d)" and "dc_verdict d = Effective"
  shows "pr_body p = Some (BRatify t) \<Longrightarrow> g = f \<and> q = p \<and> decide_ratify f p t = d"
    and "pr_body p = Some (BSupersede t x) \<Longrightarrow> g = f \<and> decide_supersede f p t = Some (q, d)"
  using assms judge_body_supersede(2) [OF assms(1) _ assms(2)]
  by (auto simp: judge_body_def split: if_splits)

text \<open>An admitted statement: the state its record is indexed into.\<close>

lemma apply_record_statement:
  assumes "judged_from f f0" and "pr_record q = r" and "pr_index q = length (fs_records f0)"
    and "lr_id r \<noteq> []" and "map_of (fs_byID f0) (lr_id r) = None"
    and "pr_body q = Some (BState s)" and "dc_verdict d = Effective"
    and "apply_record L f0 r q d = Some g"
  obtains p h where "g = apply_statement h p s" "same_indexes f h" "kept_from q p"
    "extends_by f0 r p g" "pr_decision p = stamp_decision r d"
proof -
  have env: "same_envelope r r"
    by (simp add: same_envelope_def)
  show ?thesis
  proof (cases "st_kind s = kind_assert")
    case False
    have "extends_by f0 r (q\<lparr>pr_decision := stamp_decision r d\<rparr>) (add_decision f0 r q d)"
      by (rule add_decision_extends [OF env assms(2,3)])
    from extends_by_same_log [OF this apply_statement_log] show ?thesis
      using assms False same_indexes_judged(1) [OF assms(1)]
      by (intro that) (auto simp: apply_record_def)
  next
    case True
    let ?p1 = "seal_receipt L f0 q s d"
    let ?f1 = "add_decision f0 r ?p1 d"
    let ?p2 = "seal_accounting L ?f1 (?p1\<lparr>pr_decision := stamp_decision r d\<rparr>) s
      (incoming_unsettled f0 ?p1 s)"
    have kept: "kept_from q ?p2"
      using kept_from_trans [OF seal_receipt_kept] kept_from_decision seal_accounting_kept
      by (metis kept_from_refl kept_from_trans)
    have "extends_by f0 r (?p1\<lparr>pr_decision := stamp_decision r d\<rparr>) ?f1"
      by (rule add_decision_extends [OF env]) (simp_all add: assms(2,3))
    then have "extends_by f0 r ?p2 (store_sealed ?f1 ?p2)"
      by (rule store_sealed_extends) (use assms(2-5) in simp_all)
    from extends_by_same_log [OF this apply_statement_log] show ?thesis
      using assms(6-8) True same_indexes_judged(2) [OF assms(1)] kept
      by (intro that) (auto simp: apply_record_def Let_def)
  qed
qed

lemma append_record_cases:
  assumes "append_record L f r = Some g"
  obtains
    (refused) p where "extends_by f r p g" "pr_verdict p \<noteq> Effective" "same_indexes f g"
  | (statement) v s f0 q d p h where "decode L (lr_schema r) (lr_payload r) = Inr v"
      "payload_body v = BState s" "lookup f (lr_id r) = None" "lr_id r \<noteq> []"
      "judge_body L f (judged_record f r v) = Some (f0, q, d)"
      "decide_state L f (judged_record f r v) s = (f0, q, d)" "dc_verdict d = Effective"
      "extends_by f r p g" "pr_verdict p = Effective" "pr_body p = Some (BState s)"
      "kept_from q p" "same_indexes f h" "same_log h g" "g = apply_statement h p s"
    | (ratification) v t d p h where "decode L (lr_schema r) (lr_payload r) = Inr v"
      "payload_body v = BRatify t" "lookup f (lr_id r) = None" "lr_id r \<noteq> []"
      "decide_ratify f (judged_record f r v) t = d" "dc_verdict d = Effective"
      "extends_by f r p g" "pr_verdict p = Effective" "pr_body p = Some (BRatify t)"
      "kept_from (judged_record f r v) p" "same_indexes f h" "same_log h g"
      "g = apply_ratification h p t"
  | (supersession) v t x q d p h where "decode L (lr_schema r) (lr_payload r) = Inr v"
      "payload_body v = BSupersede t x" "lookup f (lr_id r) = None" "lr_id r \<noteq> []"
      "judge_body L f (judged_record f r v) = Some (f, q, d)"
      "decide_supersede f (judged_record f r v) t = Some (q, d)" "dc_verdict d = Effective"
      "extends_by f r p g" "pr_verdict p = Effective" "pr_body p = Some (BSupersede t x)"
      "kept_from q p" "p = (seal_supersession f q t)\<lparr>pr_decision := pr_decision p\<rparr>"
      "same_indexes f h" "same_log h g" "apply_supersession h p t = Some g"
  using assms
proof (cases rule: append_cases)
  case (settled f0 r' p d)
  have "extends_by f r (p\<lparr>pr_decision := stamp_decision r' d\<rparr>) g"
    using settled judged_from_fields [OF settled(1)]
    by (auto intro!: extends_by_judged [OF settled(1)] add_decision_extends)
  then show ?thesis
    using settled(5,6) same_indexes_judged(1) [OF settled(1)]
    by (elim refused) (simp_all add: stamp_decision_def)
next
  case (judged v p0 f0 q d)
  let ?r = "r\<lparr>lr_payload := []\<rparr>"
  have p0: "p0 = judged_record f r v"
    using judged(6) by (simp add: judged_record_def)
  note body = judged(7) [unfolded p0]
  note frame = judge_body_frame [OF body]
  note same = judged_from_fields(1,2,3) [OF conjunct1 [OF frame]]
  have rec: "pr_record q = ?r" "pr_index q = length (fs_records f0)"
    "pr_body q = Some (payload_body v)" "map_of (fs_byID f0) (lr_id ?r) = None"
    using sealed_fields [OF conjunct2 [OF frame]] same judged(4) by (simp_all add: lookup_def)
  have env: "same_envelope r ?r" "same_envelope ?r ?r"
    by (simp_all add: same_envelope_def)
  have lifted: "extends_by f r p g" if "extends_by f0 ?r p g" for p
    using that same by (simp add: extends_by_def same_envelope_def)
  show ?thesis
  proof (cases "dc_verdict d = Effective")
    case False
    have "g = add_decision f0 ?r q d"
      using judged(8) False by (simp add: apply_record_def)
    then show ?thesis
      using lifted add_decision_extends [OF env(2) rec(1,2)] False
        same_indexes_judged(1) [OF conjunct1 [OF frame]]
      by (intro refused) (auto simp: stamp_decision_def)
  next
    case eff: True
    show ?thesis
    proof (cases "payload_body v")
      case (BState s)
      have id: "lr_id ?r \<noteq> []" and b: "pr_body q = Some (BState s)"
        using judged(2) rec(3) BState by simp_all
      obtain p h where "g = apply_statement h p s" "same_indexes f h" "kept_from q p"
        "extends_by f0 ?r p g" "pr_decision p = stamp_decision ?r d"
        by (rule apply_record_statement [OF conjunct1 [OF frame] rec(1,2) id rec(4) b eff judged(8)])
      moreover from this have "pr_body p = Some (BState s)"
        using kept_from_fields(3) rec(3) BState by simp
      ultimately show ?thesis
        using judged(1,2,4) BState body judge_body_effective_state [OF body _ eff] eff lifted
        by (intro statement) (auto simp: stamp_decision_def apply_statement_log)
    next
      case (BRatify t)
      note dec = judge_body_effective_other(1) [OF body eff, of t]
      have "f0 = f" "q = judged_record f r v" "decide_ratify f (judged_record f r v) t = d"
        using dec BRatify by simp_all
      then show ?thesis
        using judged(1,2,4,8) BRatify eff lifted add_decision_extends [OF env(2) rec(1,2), of d]
          same_indexes_judged(1) [OF judged_from_refl] rec(3)
          extends_by_same_log [OF _ apply_ratification_log]
        by (intro ratification [where h = "add_decision f ?r q d"
              and p = "q\<lparr>pr_decision := stamp_decision ?r d\<rparr>"])
           (auto simp: apply_record_def stamp_decision_def apply_ratification_log)
    next
      case (BSupersede t x)
      note dec = judge_body_effective_other(2) [OF body eff, of t x]
      have f0: "f0 = f" and sup: "decide_supersede f (judged_record f r v) t = Some (q, d)"
        using dec BSupersede by simp_all
      let ?p = "seal_supersession f q t"
      let ?q = "?p\<lparr>pr_decision := stamp_decision ?r d\<rparr>"
      let ?h = "add_decision f ?r ?p d"
      have app: "apply_supersession ?h ?q t = Some g"
        using judged(8) eff rec(3) BSupersede f0 by (simp add: apply_record_def Let_def)
      have "extends_by f ?r ?q ?h"
        using rec(1,2) f0 by (intro add_decision_extends [OF env(2)]) simp_all
      then have "extends_by f r ?q g"
        using extends_by_same_log [OF _ apply_supersession_frame(1) [OF app]] lifted f0 by simp
      then show ?thesis
        using judged(1,2,4) BSupersede eff sup app body f0 rec(3)
          apply_supersession_frame(1) [OF app] same_indexes_judged(1) [OF judged_from_refl]
          seal_supersession_kept
        by (intro supersession) (auto simp: stamp_decision_def)
    qed
  qed
qed

text \<open>The entry an append adds; an admitted one was not known before.\<close>

lemma append_entry:
  assumes "append_record L f r = Some g"
  obtains p where "extends_by f r p g" "fs_records g = fs_records f @ [p]" "pr_id p = lr_id r"
    "pr_actor p = lr_actor r"
    "pr_verdict p = Effective \<longrightarrow> lr_id r \<noteq> [] \<and> lookup f (lr_id r) = None"
proof -
  have "\<exists>p. extends_by f r p g
      \<and> (pr_verdict p = Effective \<longrightarrow> lr_id r \<noteq> [] \<and> lookup f (lr_id r) = None)"
    using assms
  proof (cases rule: append_record_cases)
    case (refused p)
    then show ?thesis by blast
  next
    case (statement v s f0 q d p h)
    then show ?thesis by blast
  next
    case (ratification v t d p h)
    then show ?thesis by blast
  next
    case (supersession v t x q d p h)
    then show ?thesis by blast
  qed
  then obtain p where "extends_by f r p g"
    "pr_verdict p = Effective \<longrightarrow> lr_id r \<noteq> [] \<and> lookup f (lr_id r) = None"
    by blast
  then show ?thesis
    using that by (simp add: extends_by_def same_envelope_def)
qed

end
