(* ===== verification/FoldIndex.thy ===== *)
theory FoldIndex
  imports WorkroomCases WorkroomDemo
begin

text \<open>
  The indexes of the fold against the log. The code keeps eight indexes up to date as records are
  admitted; each of them is, at every moment, a selection of the log that could be made from
  scratch.
\<close>

section \<open>Selections of the log\<close>

definition ratifies :: "string \<Rightarrow> parsed_record \<Rightarrow> bool" where
  "ratifies t p \<longleftrightarrow> pr_verdict p = Effective \<and> pr_body p = Some (BRatify t)"

definition superseding :: "parsed_record \<Rightarrow> bool" where
  "superseding p \<longleftrightarrow> pr_verdict p = Effective \<and> supersede_target p \<noteq> None"

definition supersedes_event :: "string \<Rightarrow> parsed_record \<Rightarrow> bool" where
  "supersedes_event t p \<longleftrightarrow> pr_verdict p = Effective \<and> supersede_target p = Some t"

definition declares :: "string \<Rightarrow> parsed_record \<Rightarrow> bool" where
  "declares n p \<longleftrightarrow> pr_verdict p = Effective
     \<and> map_option st_kind (state_of p) = Some kind_kind_def
     \<and> map_option kd_name (pr_declared p) = Some n"

definition depends :: "string \<Rightarrow> lifecycle \<Rightarrow> parsed_record \<Rightarrow> bool" where
  "depends t lc p \<longleftrightarrow> pr_verdict p = Effective \<and> state_of p \<noteq> None \<and> t \<in> set (pr_rests_on p)
     \<and> map_option kd_lifecycle (pr_definition p) = Some lc"

definition authorizes :: "string \<Rightarrow> parsed_record \<Rightarrow> bool" where
  "authorizes q p \<longleftrightarrow> pr_verdict p = Effective \<and> q \<noteq> []
     \<and> map_option (\<lambda>s. body_get (st_body s) ''authorizes_request'') (state_of p) = Some q"

lemmas selections = ratifies_def superseding_def supersedes_event_def declares_def depends_def
  authorizes_def supersede_target_def state_of_def

definition indexed :: "fold_state \<Rightarrow> bool" where
  "indexed f \<longleftrightarrow>
     (\<forall>t. fs_ratifications f t = map pr_id (filter (ratifies t) (fs_records f)))
     \<and> (\<forall>n. fs_definition_versions f n = filter (declares n) (fs_records f))
     \<and> (\<forall>t lc. fs_dependents f (t, lc) = filter (depends t lc) (fs_records f))
     \<and> (\<forall>q. fs_authorizations f q = filter (authorizes q) (fs_records f))
     \<and> fs_supersessions f = filter superseding (fs_records f)
     \<and> (\<forall>t. fs_supersessions_by_target f t = filter (supersedes_event t) (fs_records f))
     \<and> (\<forall>t. fs_abandonments f t
            = filter (\<lambda>p. supersedes_event t p \<and> pr_abandoned p) (fs_records f))
     \<and> fs_effective_sup f
         = rev (map (\<lambda>p. (pr_id p, the (supersede_target p))) (filter superseding (fs_records f)))"

lemma indexed_start: "indexed new_fold_state"
  by (simp add: indexed_def new_fold_state_def)

text \<open>What each of the four operations writes into the indexes.\<close>

lemma apply_statement_indexes:
  "fs_ratifications (apply_statement h p s) = fs_ratifications h"
  "fs_supersessions (apply_statement h p s) = fs_supersessions h"
  "fs_supersessions_by_target (apply_statement h p s) = fs_supersessions_by_target h"
  "fs_abandonments (apply_statement h p s) = fs_abandonments h"
  "fs_dependents (apply_statement h p s) = fs_dependents (index_dependents h p)"
  "fs_authorizations (apply_statement h p s) = fs_authorizations (index_authorization h p s)"
  "fs_definition_versions (apply_statement h p s) =
     (case pr_declared p of
        Some d \<Rightarrow> if st_kind s = kind_kind_def
                  then (fs_definition_versions h)(kd_name d := fs_definition_versions h (kd_name d) @ [p])
                  else fs_definition_versions h
      | None \<Rightarrow> fs_definition_versions h)"
  by (simp_all add: apply_statement_def Let_def frame_simps index_authorization_def
      index_dependents_def split: option.split)

lemma dependents_selected:
  "fs_dependents (index_dependents h p) (t, lc) = fs_dependents h (t, lc)
     @ (if t \<in> set (pr_rests_on p) \<and> map_option kd_lifecycle (pr_definition p) = Some lc
        then [p] else [])"
  by (simp add: index_dependents_def eq_commute [of lc] split: option.split)

lemma authorizations_selected:
  "fs_authorizations (index_authorization h p s) q = fs_authorizations h q
     @ (if q \<noteq> [] \<and> body_get (st_body s) ''authorizes_request'' = q then [p] else [])"
  by (auto simp: index_authorization_def Let_def)

lemma apply_ratification_indexes:
  "fs_ratifications (apply_ratification h p t) =
     (fs_ratifications h)(t := fs_ratifications h t @ [pr_id p])"
  "fs_supersessions (apply_ratification h p t) = fs_supersessions h"
  "fs_supersessions_by_target (apply_ratification h p t) = fs_supersessions_by_target h"
  "fs_abandonments (apply_ratification h p t) = fs_abandonments h"
  "fs_authorizations (apply_ratification h p t) = fs_authorizations h"
  by (simp_all add: apply_ratification_def Let_def frame_simps add_role_grant_def
      store_role_grant_def vocabulary_only_fields [OF foldl_refresh_vocabulary]
      split: option.split)

lemma apply_supersession_indexes:
  assumes "apply_supersession h p t = Some g"
  shows "fs_supersessions g = fs_supersessions h @ [p]"
    "fs_supersessions_by_target g =
       (fs_supersessions_by_target h)(t := fs_supersessions_by_target h t @ [p])"
    "fs_abandonments g = (if pr_abandoned p
       then (fs_abandonments h)(t := fs_abandonments h t @ [p]) else fs_abandonments h)"
    "fs_authorizations g = fs_authorizations h"
  using assms unfolding apply_supersession_def Let_def refresh_definitions_affected_by_def
  by (auto elim!: change_retirement_frame
      simp: vocabulary_only_fields [OF foldl_refresh_vocabulary])

lemma unselected:
  assumes "pr_verdict p \<noteq> Effective"
  shows "\<not> ratifies t p" "\<not> superseding p" "\<not> supersedes_event t p" "\<not> declares n p"
    "\<not> depends t lc p" "\<not> authorizes q p"
  using assms by (simp_all add: selections)

lemma indexed_append:
  assumes "indexed f" and "append_record L f r = Some g"
  shows "indexed g"
  using assms(2)
proof (cases rule: append_record_cases)
  case (refused p)
  have "fs_records g = fs_records f @ [p]"
    using refused(1) by (simp add: extends_by_def)
  then show ?thesis
    using assms(1) same_indexes_fields [OF refused(3)] unselected [OF refused(2)]
    by (simp add: indexed_def)
next
  case (statement v s f0 q d p h)
  have "fs_records g = fs_records f @ [p]"
    using statement(8) by (simp add: extends_by_def)
  then show ?thesis
    using assms(1) same_indexes_fields [OF statement(12)] statement(9,10)
    unfolding statement(14) indexed_def apply_statement_indexes apply_statement_frame
    by (simp add: selections dependents_selected authorizations_selected split: option.split)
next
  case (ratification v t d p h)
  have "fs_records g = fs_records f @ [p]"
    using ratification(7) by (simp add: extends_by_def)
  then show ?thesis
    using assms(1) same_indexes_fields [OF ratification(11)] ratification(8,9)
    unfolding ratification(13) indexed_def apply_ratification_indexes apply_ratification_frame
    by (simp add: selections)
next
  case (supersession v t x q d p h)
  have "fs_records g = fs_records f @ [p]"
    using supersession(8) by (simp add: extends_by_def)
  then show ?thesis
    using assms(1) same_indexes_fields [OF supersession(13)] supersession(9,10)
    unfolding indexed_def apply_supersession_indexes [OF supersession(15)]
      apply_supersession_frame(2,7,8,10) [OF supersession(15)]
    by (simp add: selections)
qed

text \<open>Every admitted record is found by its identifier.\<close>

definition findable :: "fold_state \<Rightarrow> bool" where
  "findable f \<longleftrightarrow> (\<forall>p \<in> set (fs_records f). pr_verdict p = Effective \<longrightarrow> lookup f (pr_id p) = Some p)"

lemma findable_append:
  assumes "findable f" and "append_record L f r = Some g"
  shows "findable g"
proof -
  obtain p where p: "extends_by f r p g" "fs_records g = fs_records f @ [p]" "pr_id p = lr_id r"
    "pr_actor p = lr_actor r" "pr_verdict p = Effective \<longrightarrow> lr_id r \<noteq> [] \<and> lookup f (lr_id r) = None"
    using assms(2) by (rule append_entry)
  then show ?thesis
    using assms(1) extends_by_lookup [OF p(1)] extends_by_new [OF p(1)]
    by (auto simp: findable_def)
qed

interpretation fold_indexes: invariant_machine "append_record L"
  "\<lambda>f. fold_inv f \<and> indexed f \<and> findable f" "\<lambda>_. True" for L
  by unfold_locales (blast intro: fold_inv_append indexed_append findable_append)

text \<open>
  C8: in every reachable state, each index the fold maintains as records are admitted (the
  ratifications of a target, the versions of a kind, the dependents of an event by lifecycle, the
  authorizations of a request, the supersessions in order and by target, the abandonments, and the
  supersession ledger) is exactly the selection of the log it stands for.
\<close>

theorem indexes_rebuilt:
  assumes "reachable L f"
  shows "indexed f"
proof -
  obtain rs where "run_steps (append_record L) new_fold_state rs = Some f"
    using assms by (auto simp: reachable_def new_folder_def fold_log_run)
  from fold_indexes.run_inv [OF _ _ this] show ?thesis
    using fold_inv_start indexed_start by (simp add: findable_def new_fold_state_fields list_all_iff)
qed

theorem indexes_rebuilt_witness:
  "map pr_id (fs_dependents (demo_state 7) (''q'', LifecyclePromise)) = [''p'']
   \<and> map pr_id (fs_supersessions (demo_state 7)) = [''qx'', ''qxz'']"
proof -
  have "map pr_id (filter (depends ''q'' LifecyclePromise) (fs_records (demo_state 7))) = [''p'']
      \<and> map pr_id (filter superseding (fs_records (demo_state 7))) = [''qx'', ''qxz'']"
    by code_simp
  then show ?thesis
    using indexes_rebuilt [OF demo_reachable, of 7] by (simp only: indexed_def)
qed

lemma reachable_indexed:
  assumes "reachable L f"
  shows "fold_inv f \<and> indexed f \<and> findable f"
proof -
  obtain rs where "run_steps (append_record L) new_fold_state rs = Some f"
    using assms by (auto simp: reachable_def new_folder_def fold_log_run)
  from fold_indexes.run_inv [OF _ _ this] show ?thesis
    using fold_inv_start indexed_start by (simp add: findable_def new_fold_state_fields list_all_iff)
qed

end
