(* ===== verification/FoldMembership.thy ===== *)
theory FoldMembership
  imports WorkroomDemo
begin

text \<open>
  Who may speak and who may grant: properties of the roster boundary of the fold. Every statement
  admitted after the seed is by a live participant, the founding operator cannot be removed, and
  an authority grant needs two people, one of them an operator when it is an operator grant.
\<close>

section \<open>What an admitted record was judged to be\<close>

lemma admitted_cases:
  assumes "append_record L f r = Some g" and "pr_verdict (last (fs_records g)) = Effective"
  obtains v p f0 q d where "decode L (lr_schema r) (lr_payload r) = Inr v"
    "lr_id r \<noteq> []" "lr_actor r \<noteq> []" "lookup f (lr_id r) = None"
    "p = lower_payload v (new_parsed (r\<lparr>lr_payload := []\<rparr>) None (length (fs_records f)))"
    "judge_body L f p = Some (f0, q, d)" "dc_verdict d = Effective"
    "apply_record L f0 (r\<lparr>lr_payload := []\<rparr>) q d = Some g"
    "judged_from f f0" "sealed_from p q" "pr_body (last (fs_records g)) = pr_body p"
  using assms(1)
proof (cases rule: append_cases)
  case (settled f0 r' p d)
  have "pr_verdict (last (fs_records g)) = dc_verdict d"
    using settled(5) by (simp add: add_decision_def Let_def stamp_decision_def)
  then show ?thesis
    using settled(6) assms(2) by simp
next
  case (judged v p f0 q d)
  note frame = judge_body_frame [OF judged(7)]
  note fields = judged_from_fields(1,2) [OF conjunct1 [OF frame]] sealed_fields [OF conjunct2 [OF frame]]
  obtain q' where q': "extends_by f0 r q' g" "sealed_from q q'"
    "pr_decision q' = stamp_decision (r\<lparr>lr_payload := []\<rparr>) d"
    by (rule apply_record_extends [OF judged(8), of r])
       (use judged fields in \<open>simp_all add: same_envelope_def lookup_def\<close>)
  have last: "last (fs_records g) = q'"
    using q'(1) by (simp add: extends_by_def)
  have "dc_verdict d = Effective"
    using assms(2) last q'(3) by (simp add: stamp_decision_def)
  moreover have "pr_body (last (fs_records g)) = pr_body p"
    using last sealed_fields(3) [OF q'(2)] fields by simp
  ultimately show ?thesis
    using that judged frame by blast
qed

lemma commitment_rules_sealed:
  "commitment_rules f (r\<lparr>pr_definition := Some def\<rparr>) def s = X \<Longrightarrow>
   \<exists>r2. pr_definition r2 = Some def \<and> sealed_from r r2 \<and> commitment_rules f r2 def s = X"
  "commitment_rules f (r\<lparr>pr_definition := Some def, pr_declared := d\<rparr>) def s = X \<Longrightarrow>
   \<exists>r2. pr_definition r2 = Some def \<and> sealed_from r r2 \<and> commitment_rules f r2 def s = X"
  by (rule exI, rule conjI [rotated], rule conjI [rotated], assumption, simp_all)+

lemma validate_basis_verdict: "validate_basis f r d cs \<noteq> Some (Effective, e)"
  by (induction f r d cs rule: validate_basis.induct) (simp_all add: Let_def)

lemma report_claim_verdict: "report_claim f r \<noteq> Inl (Effective, e)"
  by (auto simp: report_claim_def Let_def split: list.split option.split)

lemma promise_refusal_verdict: "promise_refusal f r d \<noteq> Some (Effective, e)"
  by (auto simp: promise_refusal_def split: list.split)

lemma report_refusal_verdict: "report_refusal f r d s \<noteq> Inl (Effective, e)"
  using report_claim_verdict by (auto simp: report_refusal_def split: sum.split option.split)

lemmas refusal_verdicts [simp] = validate_basis_verdict report_claim_verdict
  promise_refusal_verdict report_refusal_verdict

lemma decide_state_effective:
  assumes "decide_state L f r s = (g, q, d)" and "dc_verdict d = Effective"
  shows "(pr_index r = 0 \<and> seeds_operator r s \<and> g = f)
    \<or> (pr_index r > 0 \<and> has_actor f (pr_actor r)
       \<and> (\<exists>def r2. governing_definition f r s = Some def \<and> pr_definition r2 = Some def
           \<and> validate_fields L def (st_body s) = None \<and> validate_basis f r def (kd_basis def) = None
           \<and> sealed_from r r2 \<and> commitment_rules f r2 def s = (g, q, d)))"
proof -
  obtain def where def: "governing_definition f r s = Some def"
    "validate_fields L def (st_body s) = None"
    using assms unfolding decide_state_def Let_def decided_def
    by (auto split: if_splits option.splits)
  with assms show ?thesis
    unfolding decide_state_def Let_def decided_def
    by (auto split: if_splits option.splits sum.splits intro: commitment_rules_sealed)
qed

lemma judge_body_state:
  assumes "judge_body L f p = Some (g, q, d)" and "pr_body p = Some (BState s)"
    and "dc_verdict d = Effective"
  shows "decide_state L f p s = (g, q, d)"
    and "pr_guarded_replacement p \<Longrightarrow> unclaimed_expectation_reason f p True = None"
  using assms
  by (auto simp: judge_body_def decide_reassign_if_unclaimed_def decided_def
      split: if_splits option.splits)

text \<open>
  C1: a statement the fold admits after the first record was written by an actor who was a live
  participant at that moment. Holding a key is not enough: removal from the roster ends the right
  to make statements of any kind.
\<close>

theorem statement_author_live:
  assumes "append_record L f r = Some g" and "fs_records f \<noteq> []"
    and "pr_verdict (last (fs_records g)) = Effective"
    and "pr_body (last (fs_records g)) = Some (BState s)"
  shows "has_actor f (lr_actor r)"
  using assms(1,3)
proof (cases rule: admitted_cases)
  case (1 v p f0 q d)
  have "decide_state L f p s = (f0, q, d)"
    using judge_body_state(1) [OF 1(6) _ 1(7)] 1(11) assms(4) by simp
  from decide_state_effective [OF this 1(7)] show ?thesis
    using 1(5) assms(2) by auto
qed

theorem statement_author_live_witness: "has_actor (demo_state 4) ''B''"
proof -
  have step: "append_record demo_lib (demo_state 4) (demo_log ! 4) = Some (demo_state 5)"
    using demo_append [of 4] by simp
  have "fs_records (demo_state 4) \<noteq> []
      \<and> pr_verdict (last (fs_records (demo_state 5))) = Effective
      \<and> pr_body (last (fs_records (demo_state 5))) =
          Some (BState \<lparr>st_kind = kind_promise, st_text = ''take'', st_body = []\<rparr>)"
    by code_simp
  then show ?thesis
    using statement_author_live [OF step] by (simp add: demo_log_def demo_record_def)
qed

section \<open>Grants only accumulate\<close>

definition grants_grow :: "fold_state \<Rightarrow> fold_state \<Rightarrow> bool" where
  "grants_grow f g \<longleftrightarrow> (\<forall>k. set (fs_role_grants_by_role f k) \<subseteq> set (fs_role_grants_by_role g k))"

lemma grants_grow_refl [simp]: "grants_grow f f"
  by (simp add: grants_grow_def)

lemma grants_grow_trans: "grants_grow f g \<Longrightarrow> grants_grow g h \<Longrightarrow> grants_grow f h"
  unfolding grants_grow_def by (meson subset_trans)

lemma grants_grow_same: "fs_role_grants_by_role g = fs_role_grants_by_role f \<Longrightarrow> grants_grow f g"
  by (simp add: grants_grow_def)

lemma index_role_grant_grows: "grants_grow f (index_role_grant g role f)"
  by (auto simp: grants_grow_def index_role_grant_def Let_def)

lemma store_role_grant_indexes:
  "set (fs_role_grants_by_role (store_role_grant x f) k) =
     set (fs_role_grants_by_role f k)
     \<union> (if k = (rg_actor x, rg_role x)
           \<or> (rg_membership x \<and> k = (rg_actor x, role_participant))
           \<or> (rg_role x = role_operator \<and> k = (rg_actor x, role_ratifier)) then {x} else {})"
  by (auto simp: store_role_grant_def index_role_grant_def Let_def)

lemma add_role_grant_grows: "grants_grow f (add_role_grant a n k r s t b f)"
  by (simp add: grants_grow_def add_role_grant_def store_role_grant_indexes)

lemma apply_statement_grows: "grants_grow f (apply_statement f p s)"
  unfolding apply_statement_def Let_def grants_grow_def
  by (auto split: option.split simp: frame_simps add_role_grant_def store_role_grant_indexes)

lemma apply_ratification_grows: "grants_grow f (apply_ratification f p t)"
  unfolding apply_ratification_def Let_def
  by (auto split: option.split simp: grants_grow_def frame_simps add_role_grant_def
      store_role_grant_indexes vocabulary_only_fields [OF foldl_refresh_vocabulary])

lemma append_grants_grow:
  assumes "append_record L f r = Some g"
  shows "grants_grow f g"
  using assms
proof (cases rule: append_cases)
  case (settled f0 r' p d)
  then show ?thesis
    using judged_from_fields(9) [OF settled(1)] by (intro grants_grow_same) (simp add: frame_simps)
next
  case (judged v p f0 q d)
  have same: "fs_role_grants_by_role f0 = fs_role_grants_by_role f"
    using judge_body_frame [OF judged(7)] judged_from_fields(9) by blast
  have added: "grants_grow f h" if "grants_grow h' h"
    "fs_role_grants_by_role h' = fs_role_grants_by_role f0" for h h'
    using that same by (simp add: grants_grow_def)
  show ?thesis
    using judged(8) unfolding apply_record_def Let_def
    by (auto split: if_splits option.splits body.splits
        intro: added [OF apply_statement_grows] added [OF apply_ratification_grows]
          added [OF grants_grow_refl] grants_grow_same
        simp: frame_simps store_sealed_def same
        dest!: apply_supersession_frame(5))
qed

section \<open>The founding operator\<close>

definition seed_grant :: "string \<Rightarrow> string \<Rightarrow> role_grant \<Rightarrow> fold_state \<Rightarrow> bool" where
  "seed_grant actor e g f \<longleftrightarrow>
     rg_statement g = e \<and> rg_ratification g = [] \<and> rg_membership g
     \<and> (\<forall>role \<in> {role_operator, role_ratifier, role_participant}.
          g \<in> set (fs_role_grants_by_role f (actor, role)))"

definition founded :: "string \<Rightarrow> string \<Rightarrow> fold_state \<Rightarrow> bool" where
  "founded actor e f \<longleftrightarrow>
     (\<exists>p s. lookup f e = Some p \<and> pr_verdict p = Effective \<and> pr_index p = 0
        \<and> pr_body p = Some (BState s) \<and> st_kind s = kind_roster)
     \<and> e \<noteq> [] \<and> e \<notin> snd ` set (fs_effective_sup f) \<and> (\<exists>g. seed_grant actor e g f)"

lemma founder_not_supersedable:
  assumes "founded actor e f" and "decide_supersede f r e = Some (q, d)"
  shows "dc_verdict d \<noteq> Effective"
proof -
  obtain p s where p: "lookup f e = Some p" "pr_index p = 0" "pr_body p = Some (BState s)"
    "st_kind s = kind_roster" and e: "e \<noteq> []"
    using assms(1) by (auto simp: founded_def)
  then have "governance_target f e = Some (Some (p, False))"
    unfolding governance_target_def by (subst governance_step) simp
  with assms(2) p show ?thesis
    by (auto simp: decide_supersede_def decide_governance_def decided_def
        split: if_splits option.splits)
qed

lemma admitted_supersession:
  assumes "append_record L f r = Some g" and "supersedes f p t g" and "extends_by f r p g"
  obtains q d p0 where "decide_supersede f p0 t = Some (q, d)" "dc_verdict d = Effective"
    "pr_record p0 = r\<lparr>lr_payload := []\<rparr>"
proof -
  have last: "last (fs_records g) = p"
    using assms(3) by (simp add: extends_by_def)
  have "pr_verdict (last (fs_records g)) = Effective"
    using assms(2) last by (simp add: supersedes_def)
  with assms(1) show ?thesis
  proof (cases rule: admitted_cases)
    case (1 v p0 f0 q d)
    obtain x where "pr_body p0 = Some (BSupersede t x)"
      using assms(2) last 1(11)
      by (auto simp: supersedes_def supersede_target_def split: option.splits body.splits)
    from judge_body_supersede(2) [OF 1(6) this 1(7)] show ?thesis
      using that 1(5,7) by simp
  qed
qed

lemma founded_append:
  assumes "founded actor e f" and "append_record L f r = Some g"
  shows "founded actor e g"
  using assms(2)
proof (cases rule: append_effect)
  case (1 p)
  obtain x where x: "seed_grant actor e x f"
    using assms(1) by (auto simp: founded_def)
  have "seed_grant actor e x g"
    using x append_grants_grow [OF assms(2)] by (auto simp: seed_grant_def grants_grow_def)
  moreover have "e \<notin> snd ` set (fs_effective_sup g)"
    using 1(3)
  proof
    assume "\<exists>t. supersedes f p t g"
    then obtain t where t: "supersedes f p t g" ..
    from assms(2) t 1(1) obtain q d p0 where "decide_supersede f p0 t = Some (q, d)"
      "dc_verdict d = Effective"
      by (rule admitted_supersession)
    then have "t \<noteq> e"
      using founder_not_supersedable [OF assms(1)] by blast
    then show ?thesis
      using t assms(1) by (auto simp: supersedes_def founded_def)
  qed (use assms(1) in \<open>auto simp: founded_def\<close>)
  ultimately show ?thesis
    using assms(1) extends_by_lookup [OF 1(1)] unfolding founded_def by blast
qed

interpretation founding: invariant_machine "append_record L"
  "\<lambda>f. fold_inv f \<and> founded actor e f" "\<lambda>_. True" for L actor e
  by unfold_locales (blast intro: fold_inv_append founded_append)

text \<open>The seed itself: the only shape the first admitted record can have.\<close>

lemma seed_shape:
  assumes "append_record L new_fold_state r = Some g"
    and "pr_verdict (last (fs_records g)) = Effective"
  obtains s q d where "pr_body (last (fs_records g)) = Some (BState s)" "seeds_operator q s"
    "pr_record q = r\<lparr>lr_payload := []\<rparr>" "pr_index q = 0" "lr_actor r \<noteq> []" "lr_id r \<noteq> []"
    "dc_verdict d = Effective"
    "g = apply_statement (add_decision new_fold_state (r\<lparr>lr_payload := []\<rparr>) q d)
           (q\<lparr>pr_decision := stamp_decision (r\<lparr>lr_payload := []\<rparr>) d\<rparr>) s"
  using assms
proof (cases rule: admitted_cases)
  case (1 v p f0 q d)
  have rec: "pr_record q = r\<lparr>lr_payload := []\<rparr>" "pr_index q = 0" "pr_body q = pr_body p"
    using 1(5) sealed_fields [OF 1(10)] by (simp_all add: new_fold_state_fields)
  show ?thesis
  proof (cases "pr_body p")
    case None
    with 1(5) show ?thesis by simp
  next
    case (Some b)
    show ?thesis
    proof (cases b)
      case (BState s)
      with Some have state: "decide_state L new_fold_state p s = (f0, q, d)"
        using judge_body_state(1) [OF 1(6) _ 1(7)] by simp
      have "seeds_operator p s" "f0 = new_fold_state"
        using decide_state_effective [OF state 1(7)] 1(5) by (auto simp: new_fold_state_fields)
      then have "seeds_operator q s"
        using sealed_fields [OF 1(10)] by (simp add: seeds_operator_def)
      moreover from this have "st_kind s \<noteq> kind_assert"
        by (simp add: seeds_operator_def kind_names)
      moreover have "pr_body q = Some (BState s)" "pr_body (last (fs_records g)) = Some (BState s)"
        using rec(3) 1(11) Some BState by simp_all
      moreover from calculation have
        "g = apply_statement (add_decision new_fold_state (r\<lparr>lr_payload := []\<rparr>) q d)
           (q\<lparr>pr_decision := stamp_decision (r\<lparr>lr_payload := []\<rparr>) d\<rparr>) s"
        using 1(7,8) \<open>f0 = new_fold_state\<close> by (simp add: apply_record_def)
      ultimately show ?thesis
        using that rec(1,2) 1(2,3,7) by blast
    next
      case (BRatify t)
      then show ?thesis
        using 1(6,7) Some
        by (auto simp: judge_body_def decide_ratify_def decided_def new_fold_state_fields)
    next
      case (BSupersede t x)
      then show ?thesis
        using judge_body_supersede(1) [OF 1(6) _ 1(7)] Some by (simp add: new_fold_state_fields)
    qed
  qed
qed

lemma seed_founds:
  assumes "append_record L new_fold_state r = Some g"
    and "pr_verdict (last (fs_records g)) = Effective"
  shows "founded (lr_actor r) (lr_id r) g"
  using assms
proof (cases rule: seed_shape)
  case (1 s q d)
  let ?b = "st_body s"
  let ?x = "make_role_grant (body_get ?b ''actor'') (body_get ?b ''name'') (body_get ?b ''kind'')
      (body_get ?b ''role'') (lr_id r) [] (lr_rests_on r)"
  have body: "body_get ?b ''actor'' = lr_actor r" "body_get ?b ''role'' = role_operator"
    "st_kind s = kind_roster"
    using 1(2,3) by (simp_all add: seeds_operator_def)
  have role: "rg_role ?x = role_operator" "rg_actor ?x = lr_actor r" "rg_membership ?x"
    "rg_statement ?x = lr_id r" "rg_ratification ?x = []"
    using body by (simp_all add: make_role_grant_def normalize_roster_state_def Let_def role_names)
  have "seed_grant (lr_actor r) (lr_id r) ?x g"
    using 1(3-5) body role
    by (auto simp: seed_grant_def 1(8) apply_statement_def Let_def add_role_grant_def
        store_role_grant_indexes split: option.split)
  moreover from assms(1) have "lookup g (lr_id r) = Some (last (fs_records g))
      \<and> pr_index (last (fs_records g)) = 0 \<and> fs_effective_sup g = []"
  proof (cases rule: append_effect)
    case ext: (1 p)
    have "\<not> supersedes new_fold_state p t g" for t
      by (simp add: supersedes_def new_fold_state_fields)
    then have "fs_effective_sup g = []"
      using ext(3) by (simp add: new_fold_state_fields)
    then show ?thesis
      using ext(1) 1(6) extends_by_new [OF ext(1)]
      by (simp add: extends_by_def new_fold_state_fields)
  qed
  ultimately show ?thesis
    using 1(1,6) body(3) assms(2) unfolding founded_def by auto
qed

text \<open>
  C2: the operator the first record seeds keeps operator, ratifier and participant standing for the
  whole life of the log, whatever is appended afterwards: no record, by anyone, can retire the seed
  or any grant it carries.
\<close>

theorem founder_permanent:
  assumes "new_folder L (r # rs) = Some f" and "pr_verdict (hd (fs_records f)) = Effective"
  shows "has_role f (lr_actor r) role_operator \<and> has_role f (lr_actor r) role_ratifier
    \<and> has_actor f (lr_actor r) \<and> \<not> is_retired f (lr_id r)"
proof -
  obtain f1 where first: "append_record L new_fold_state r = Some f1"
    and rest: "run_steps (append_record L) f1 rs = Some f"
    using assms(1) by (auto simp: new_folder_def fold_log_run split: option.splits)
  obtain p where p: "fs_records f1 = [p]"
    using first by (cases rule: append_effect) (auto simp: extends_by_def new_fold_state_fields)
  obtain more where "fs_records f = fs_records f1 @ more"
    using fold_history.run_grows [OF rest] by blast
  then have "pr_verdict (last (fs_records f1)) = Effective"
    using assms(2) p by simp
  then have "fold_inv f1 \<and> founded (lr_actor r) (lr_id r) f1"
    using seed_founds [OF first] fold_inv_append [OF fold_inv_start first] by blast
  then have inv: "fold_inv f" and founded: "founded (lr_actor r) (lr_id r) f"
    using founding.run_inv [OF _ _ rest] by (auto simp: list_all_iff)
  have log: "log_inv f" and balanced: "balanced (fs_effective_sup f) (fs_retirement_causes f)"
    using inv by (simp_all only: fold_inv_def ledger_inv_def)
  obtain x where x: "seed_grant (lr_actor r) (lr_id r) x f"
    using founded by (auto simp: founded_def)
  have live: "\<not> is_retired f (lr_id r)"
    using founded balancedD [OF balanced, of "lr_id r"] counted_zero superseded_target
    by (auto simp: founded_def is_retired_def)
  moreover have "effective_decision f (lr_id r)"
    using founded log_inv_effective [OF log] by (auto simp: founded_def)
  ultimately have "role_grant_active f x"
    using x by (simp add: role_grant_active_def role_grant_direct_active_def seed_grant_def)
  then show ?thesis
    using x live unfolding has_actor_def has_role_def seed_grant_def by (auto simp: list_ex_iff)
qed

theorem founder_permanent_witness:
  "has_role (demo_state 7) ''A'' role_operator \<and> has_role (demo_state 7) ''A'' role_ratifier
   \<and> has_actor (demo_state 7) ''A'' \<and> \<not> is_retired (demo_state 7) ''s''"
proof -
  have run: "new_folder demo_lib (hd demo_log # tl (take 7 demo_log)) = Some (demo_state 7)"
    using demo_folds [of 7] by (simp add: demo_log_def)
  have "pr_verdict (hd (fs_records (demo_state 7))) = Effective"
    by code_simp
  from founder_permanent [OF run this] show ?thesis
    by (simp add: demo_log_def demo_record_def)
qed

end
