(* ===== verification/FoldVocabulary.thy ===== *)
theory FoldVocabulary
  imports FoldIndex
begin

text \<open>
  Which definition governs a kind. The code refreshes the entry of a kind when an admission may have
  changed it; here the table it keeps is shown to be, at every moment, the one a fresh reading of
  the log would give, and that reading is characterised without the loop: the version whose live
  ratification stands latest, or the starter's when no version is in force.
\<close>

section \<open>What refreshing reads\<close>

definition same_standing :: "fold_state \<Rightarrow> fold_state \<Rightarrow> parsed_record \<Rightarrow> bool" where
  "same_standing f g p \<longleftrightarrow>
     is_retired g (pr_id p) = is_retired f (pr_id p)
     \<and> active_ratification g (pr_id p) = active_ratification f (pr_id p)
     \<and> lookup g (active_ratification f (pr_id p)) = lookup f (active_ratification f (pr_id p))"

lemma governing_from_cong:
  "list_all (same_standing f g) rs \<Longrightarrow> governing_from g best rs = governing_from f best rs"
  by (induction f best rs rule: governing_from.induct)
     (simp_all add: same_standing_def Let_def split: option.split)

lemma refreshed_cong:
  assumes "fs_definition_versions g n = fs_definition_versions f n"
    and "list_all (same_standing f g) (fs_definition_versions f n)"
  shows "refreshed_definition g n = refreshed_definition f n"
  using assms governing_from_cong by (simp add: refreshed_definition_def)

text \<open>A version that is not ratified is passed over.\<close>

lemma governing_from_append:
  "governing_from f best (rs @ qs) = governing_from f (governing_from f best rs) qs"
  by (induction f best rs rule: governing_from.induct) (simp_all add: Let_def split: option.split)

lemma governing_from_unratified:
  "active_ratification f (pr_id p) = [] \<Longrightarrow> governing_from f best [p] = best"
  by (simp split: option.split)

section \<open>Ratifications\<close>

lemma ratification_known:
  assumes "indexed f" and "findable f" and "e \<in> set (fs_ratifications f t)"
  obtains q where "lookup f e = Some q" "pr_verdict q = Effective" "pr_body q = Some (BRatify t)"
    "q \<in> set (fs_records f)" "pr_id q = e"
  using assms by (auto simp: indexed_def findable_def ratifies_def)

lemma find_SomeD: "List.find P xs = Some x \<Longrightarrow> x \<in> set xs \<and> P x"
  by (induction xs) (auto split: if_splits)

lemma active_ratification_known:
  assumes "active_ratification f t \<noteq> []"
  shows "active_ratification f t \<in> set (fs_ratifications f t)
    \<and> \<not> is_retired f (active_ratification f t) \<and> effective_decision f (active_ratification f t)"
  using assms
  by (auto simp: active_ratification_def dest!: find_SomeD split: option.splits)

lemma active_ratification_cong:
  assumes "fs_ratifications g t = fs_ratifications f t"
    and "\<And>e. e \<in> set (fs_ratifications f t) \<Longrightarrow>
      is_retired g e = is_retired f e \<and> effective_decision g e = effective_decision f e"
  shows "active_ratification g t = active_ratification f t"
proof -
  have "List.find (\<lambda>e. \<not> is_retired g e \<and> effective_decision g e) (rev (fs_ratifications f t))
      = List.find (\<lambda>e. \<not> is_retired f e \<and> effective_decision f e) (rev (fs_ratifications f t))"
    using assms(2) by (intro find_cong) auto
  then show ?thesis
    by (simp add: active_ratification_def assms(1))
qed

text \<open>Extending the log changes no standing by itself.\<close>

lemma effective_kept:
  assumes "log_inv f" and "log_inv g" and "extends_by f r p g" and "lookup f e \<noteq> None"
  shows "effective_decision g e = effective_decision f e"
  using assms extends_by_lookup [OF assms(3)] by (auto simp: log_inv_effective)

lemma standing_kept:
  assumes "log_inv f" and "log_inv g" and "indexed f" and "findable f" and "extends_by f r p g"
    and "fs_ratifications g (pr_id x) = fs_ratifications f (pr_id x)"
    and "\<And>e. e = pr_id x \<or> e \<in> set (fs_ratifications f (pr_id x)) \<Longrightarrow> is_retired g e = is_retired f e"
  shows "same_standing f g x"
proof -
  have "effective_decision g e = effective_decision f e"
    if "e \<in> set (fs_ratifications f (pr_id x))" for e
  proof -
    note member = that
    obtain q where "lookup f e = Some q"
      by (rule ratification_known [OF assms(3,4) member])
    then show ?thesis
      by (intro effective_kept [OF assms(1,2,5)]) simp
  qed
  then have active: "active_ratification g (pr_id x) = active_ratification f (pr_id x)"
    using assms(6,7) by (intro active_ratification_cong) auto
  moreover have "lookup g (active_ratification f (pr_id x)) = lookup f (active_ratification f (pr_id x))"
  proof (cases "active_ratification f (pr_id x) = []")
    case True
    have "lookup h [] = None" if "log_inv h" for h
      using log_inv_lookup(2) [OF that, of "[]"] by (cases "lookup h []") simp_all
    from this [OF assms(1)] this [OF assms(2)] show ?thesis
      by (simp only: True)
  next
    case False
    then obtain q where "lookup f (active_ratification f (pr_id x)) = Some q"
      using active_ratification_known ratification_known [OF assms(3,4)] by metis
    then show ?thesis
      using extends_by_lookup [OF assms(5)] by simp
  qed
  ultimately show ?thesis
    using assms(7) by (simp add: same_standing_def)
qed

section \<open>Which events a retirement changes\<close>

lemma propagate_changed:
  assumes "propagate sups causes target delta changed = Some y"
  shows "set changed \<subseteq> set (snd y)
    \<and> (\<forall>x. x \<notin> set (snd y) \<longrightarrow> (fst y x \<noteq> 0) = (causes x \<noteq> 0))"
proof (rule propagate.raw_induct [where P = "\<lambda>sups causes target delta changed y.
      set changed \<subseteq> set (snd y)
      \<and> (\<forall>x. x \<notin> set (snd y) \<longrightarrow> (fst y x \<noteq> 0) = (causes x \<noteq> 0))", OF _ assms], goal_cases)
  case (1 walk sups causes target delta changed y)
  let ?after = "if causes target + delta \<le> 0 then 0 else causes target + delta"
  let ?causes = "causes(target := ?after)"
  show ?case
  proof (cases "target = []")
    case True
    with 1(2) show ?thesis by auto
  next
    case False
    show ?thesis
    proof (cases "(causes target \<noteq> 0) = (?after \<noteq> 0)")
      case True
      then have "y = (?causes, changed)"
        using 1(2) False by (simp add: Let_def split: if_splits)
      then show ?thesis using True by simp
    next
      case flips: False
      show ?thesis
      proof (cases "map_of sups target")
        case None
        then have "y = (?causes, changed @ [target])"
          using 1(2) False flips by (simp only: Let_def if_False option.case option.inject)
        then show ?thesis by auto
      next
        case (Some nxt)
        then have "walk sups ?causes nxt (if ?after \<noteq> 0 then -1 else 1) (changed @ [target]) = Some y"
          using 1(2) False flips by (simp only: Let_def if_False option.case)
        from 1(1) [OF this] show ?thesis
          by (auto split: if_splits)
      qed
    qed
  qed
qed

section \<open>Refreshing\<close>

text \<open>The five indexes a refresh reads.\<close>

lemma refreshed_reads:
  assumes "fs_definition_versions g = fs_definition_versions f"
    and "fs_retirement_causes g = fs_retirement_causes f"
    and "fs_ratifications g = fs_ratifications f" and "fs_byID g = fs_byID f"
    and "fs_decisions g = fs_decisions f"
  shows "refreshed_definition g n = refreshed_definition f n"
proof (rule refreshed_cong)
  have "active_ratification g t = active_ratification f t" for t
    using assms by (intro active_ratification_cong)
      (simp_all add: is_retired_def effective_decision_def)
  then show "list_all (same_standing f g) (fs_definition_versions f n)"
    using assms by (simp add: list_all_iff same_standing_def lookup_def is_retired_def)
qed (simp add: assms(1))

lemma refreshed_vocabulary_only:
  assumes "vocabulary_only f g"
  shows "refreshed_definition g n = refreshed_definition f n"
  using vocabulary_only_fields [OF assms] by (intro refreshed_reads) simp_all

lemma foldl_refresh_definitions:
  "fs_definitions (foldl refresh_definition f ns) n =
     (if n \<in> set ns then refreshed_definition f n else fs_definitions f n)"
proof (induction ns arbitrary: f)
  case (Cons m ns)
  have "vocabulary_only f (refresh_definition f m)"
    using foldl_refresh_vocabulary [of f "[m]"] by simp
  then show ?case
    using Cons refreshed_vocabulary_only by (simp add: refresh_definition_def)
qed simp

definition vocab_inv :: "('l) kind_lib_scheme \<Rightarrow> fold_state \<Rightarrow> bool" where
  "vocab_inv L f \<longleftrightarrow>
     (\<forall>n. fs_definitions f n = refreshed_definition f n)
     \<and> (\<forall>t. fs_ratifications f t \<noteq> [] \<longrightarrow> lookup f t \<noteq> None)
     \<and> (\<forall>n. \<forall>p \<in> set (fs_definition_versions f n).
          \<exists>d. pr_declared p = Some d \<and> kd_name d = n \<and> kd_source d = pr_id p
              \<and> definition_ok L d)"

lemma version_known:
  assumes "indexed f" and "findable f" and "p \<in> set (fs_definition_versions f n)"
  shows "lookup f (pr_id p) = Some p" "pr_verdict p = Effective"
    "map_option st_kind (state_of p) = Some kind_kind_def" "declared_name p = [n]"
proof -
  have "p \<in> set (fs_records f)" "declares n p"
    using assms(1,3) by (auto simp: indexed_def)
  then show "lookup f (pr_id p) = Some p" "pr_verdict p = Effective"
    "map_option st_kind (state_of p) = Some kind_kind_def" "declared_name p = [n]"
    using assms(2) by (auto simp: findable_def declares_def declared_name_def)
qed

text \<open>Everything the step needs to know of the state it starts from.\<close>

definition vocab_ready :: "('l) kind_lib_scheme \<Rightarrow> fold_state \<Rightarrow> bool" where
  "vocab_ready L f \<longleftrightarrow> fold_inv f \<and> indexed f \<and> findable f \<and> vocab_inv L f"

lemma vocab_ready_parts:
  assumes "vocab_ready L f"
  shows "log_inv f" "fold_inv f" "indexed f" "findable f" "vocab_inv L f"
  using assms by (simp_all add: vocab_ready_def fold_inv_def)

lemma standing_step:
  assumes "vocab_ready L f" and "append_record L f r = Some g" and "extends_by f r p g"
    and "fs_ratifications g (pr_id x) = fs_ratifications f (pr_id x)"
    and "\<And>e. e = pr_id x \<or> e \<in> set (fs_ratifications f (pr_id x)) \<Longrightarrow> is_retired g e = is_retired f e"
  shows "same_standing f g x"
proof -
  note parts = vocab_ready_parts [OF assms(1)]
  have "log_inv g"
    using fold_inv_append [OF parts(2) assms(2)] by (simp add: fold_inv_def)
  then show ?thesis
    using standing_kept [OF parts(1) _ parts(3,4) assms(3-5)] by blast
qed

text \<open>A step that changes neither the versions nor any standing keeps the table right.\<close>

lemma vocab_step:
  assumes "vocab_ready L f" and "append_record L f r = Some g" and "extends_by f r p g"
    and "fs_definition_versions g n = fs_definition_versions f n"
    and "\<And>x. x \<in> set (fs_definition_versions f n) \<Longrightarrow>
      fs_ratifications g (pr_id x) = fs_ratifications f (pr_id x)
      \<and> (\<forall>e \<in> insert (pr_id x) (set (fs_ratifications f (pr_id x))). is_retired g e = is_retired f e)"
  shows "refreshed_definition g n = refreshed_definition f n"
proof (rule refreshed_cong [OF assms(4)])
  have "same_standing f g x" if "x \<in> set (fs_definition_versions f n)" for x
    by (rule standing_step [OF assms(1,2,3)]) (use assms(5) [OF that] in blast)+
  then show "list_all (same_standing f g) (fs_definition_versions f n)"
    by (simp add: list_all_iff)
qed

section \<open>The four cases\<close>

lemma vocab_refused:
  assumes "vocab_ready L f" and "append_record L f r = Some g" and "extends_by f r p g"
    and "same_indexes f g"
  shows "vocab_inv L g"
proof -
  note same = same_indexes_fields [OF assms(4)] and parts = vocab_ready_parts [OF assms(1)]
  have "refreshed_definition g n = refreshed_definition f n" for n
    by (rule vocab_step [OF assms(1-3)]) (simp_all add: same)
  moreover have "lookup g t \<noteq> None" if "lookup f t \<noteq> None" for t
    using extends_by_lookup [OF assms(3)] that by auto
  ultimately show ?thesis
    using parts(5) by (simp add: vocab_inv_def same)
qed

lemma declared_sound:
  assumes "decide_state L f p s = (g, q, d)" and "pr_declared p = None" and "pr_declared q = Some x"
  shows "st_kind s = kind_kind_def \<and> decode_kind_definition L (st_body s) (pr_id p) = Inr x"
proof -
  have "commitment_rules f r def s = (g, q, d) \<Longrightarrow> pr_declared q = pr_declared r" for r def
    unfolding commitment_rules_def Let_def by (auto split: sum.splits option.splits if_splits)
  then have "declare_kind L f p s = Inr (Some x)"
    using assms unfolding decide_state_def Let_def
    by (auto split: if_splits option.splits sum.splits)
  then show ?thesis
    by (auto simp: declare_kind_def split: if_splits sum.splits option.splits)
qed

lemma judged_record_declared [simp]: "pr_declared (judged_record f r v) = None"
  unfolding judged_record_def by (cases v) (simp_all add: new_parsed_def)

lemma vocab_statement:
  assumes "vocab_ready L f" and "append_record L f r = Some g" and "extends_by f r p g"
    and "decide_state L f (judged_record f r v) s = (f0, q, d)" and "kept_from q p"
    and "lookup f (lr_id r) = None" and "same_indexes f h" and "g = apply_statement h p s"
  shows "vocab_inv L g"
proof -
  note same = same_indexes_fields [OF assms(7)] and parts = vocab_ready_parts [OF assms(1)]
  have id: "pr_id p = lr_id r"
    using assms(3) same_envelope_id by (simp add: extends_by_def)
  have fields: "fs_definitions g = fs_definitions f" "fs_ratifications g = fs_ratifications f"
    "is_retired g e = is_retired f e" for e
    using same by (simp_all add: assms(8) apply_statement_frame is_retired_def)
  have unratified: "fs_ratifications f (pr_id p) = []"
    using parts(5) assms(6) id by (auto simp: vocab_inv_def)
  have versions: "fs_definition_versions g n = fs_definition_versions f n
      \<or> (fs_definition_versions g n = fs_definition_versions f n @ [p]
          \<and> (\<exists>x. pr_declared p = Some x \<and> kd_name x = n))" for n
    using same unfolding assms(8) apply_statement_indexes(7)
    by (auto split: option.split)
  have standing: "list_all (same_standing f g) (fs_definition_versions f n)" for n
    unfolding list_all_iff
    by (intro ballI standing_step [OF assms(1-3)]) (simp_all add: fields)
  have "active_ratification g (pr_id p) = []"
    by (simp add: active_ratification_def fields unratified)
  then have "refreshed_definition g n = refreshed_definition f n" for n
    using versions [of n] governing_from_cong [OF standing [of n]]
    by (auto simp: refreshed_definition_def governing_from_append governing_from_unratified
        simp del: governing_from.simps)
  moreover have "lookup g t \<noteq> None" if "lookup f t \<noteq> None" for t
    using extends_by_lookup [OF assms(3)] that by auto
  moreover have "kd_source x = pr_id p \<and> definition_ok L x"
    if "pr_declared p = Some x" for x
  proof -
    have "pr_declared q = Some x"
      using that kept_from_fields(5) [OF assms(5)] by simp
    from declared_sound [OF assms(4) judged_record_declared this] show ?thesis
      using id decode_kind_definition_ok by auto
  qed
  ultimately show ?thesis
    using parts(5) versions by (auto simp: vocab_inv_def fields) (metis UnE set_append set_ConsD empty_iff empty_set)
qed

lemma apply_ratification_definitions:
  assumes "lookup h t = Some x"
  shows "fs_definitions (apply_ratification h p t) n =
    (if map_option st_kind (state_of x) = Some kind_kind_def \<and> n \<in> set (declared_name x)
     then refreshed_definition (apply_ratification h p t) n else fs_definitions h n)"
proof (cases "map_option st_kind (state_of x) = Some kind_kind_def")
  case True
  let ?f1 = "h\<lparr>fs_ratifications := (fs_ratifications h)(t := fs_ratifications h t @ [pr_id p])\<rparr>"
  have "apply_ratification h p t = foldl refresh_definition ?f1 (declared_name x)"
    using assms True by (auto simp: apply_ratification_def Let_def kind_names)
  then show ?thesis
    using True refreshed_vocabulary_only [OF foldl_refresh_vocabulary]
    by (simp add: foldl_refresh_definitions)
next
  case False
  then show ?thesis
    using assms by (simp add: apply_ratification_def Let_def frame_simps split: option.split)
qed

lemma vocab_ratification:
  assumes "vocab_ready L f" and "append_record L f r = Some g" and "extends_by f r p g"
    and "lookup f t \<noteq> None" and "same_indexes f h" and "same_log h g"
    and "g = apply_ratification h p t"
  shows "vocab_inv L g"
proof -
  note same = same_indexes_fields [OF assms(5)] and parts = vocab_ready_parts [OF assms(1)]
  obtain x where x: "lookup f t = Some x"
    using assms(4) by blast
  have held: "lookup h e = lookup g e" for e
    using assms(6) by (simp add: same_log_def lookup_def)
  have target: "lookup h t = Some x"
    using extends_by_lookup [OF assms(3) x] by (simp add: held)
  have fields: "fs_definition_versions g = fs_definition_versions f"
    "fs_ratifications g = (fs_ratifications f)(t := fs_ratifications f t @ [pr_id p])"
    "is_retired g e = is_retired f e" for e
    using same by (simp_all add: assms(7) apply_ratification_frame apply_ratification_indexes is_retired_def)
  have refreshed: "fs_definitions g n =
      (if map_option st_kind (state_of x) = Some kind_kind_def \<and> n \<in> set (declared_name x)
       then refreshed_definition g n else fs_definitions f n)" for n
    unfolding assms(7) apply_ratification_definitions [OF target] same(9) ..
  have "fs_definitions g n = refreshed_definition g n" for n
  proof (cases "map_option st_kind (state_of x) = Some kind_kind_def \<and> n \<in> set (declared_name x)")
    case True
    then show ?thesis by (subst refreshed) simp
  next
    case False
    have "refreshed_definition g n = refreshed_definition f n"
    proof (rule vocab_step [OF assms(1-3)])
      fix y
      assume "y \<in> set (fs_definition_versions f n)"
      note known = version_known [OF parts(3,4) this]
      have "pr_id y \<noteq> t"
        using known False x by auto
      then show "fs_ratifications g (pr_id y) = fs_ratifications f (pr_id y)
          \<and> (\<forall>e \<in> insert (pr_id y) (set (fs_ratifications f (pr_id y))). is_retired g e = is_retired f e)"
        by (simp add: fields)
    qed (simp add: fields)
    then show ?thesis
      using parts(5) False unfolding refreshed by (auto simp: vocab_inv_def)
  qed
  moreover have "lookup g e \<noteq> None" if "lookup f e \<noteq> None" for e
    using extends_by_lookup [OF assms(3)] that by auto
  ultimately show ?thesis
    using parts(5) assms(4) by (auto simp: vocab_inv_def fields)
qed

lemma vocab_supersession:
  assumes "vocab_ready L f" and "append_record L f r = Some g" and "extends_by f r p g"
    and "same_indexes f h" and "same_log h g" and "apply_supersession h p t = Some g"
  shows "vocab_inv L g"
proof -
  note same = same_indexes_fields [OF assms(4)] and parts = vocab_ready_parts [OF assms(1)]
  note frame = apply_supersession_frame [OF assms(6)]
  obtain f2 changed where g: "g = refresh_definitions_affected_by f2 changed"
    and log: "same_log h f2" and defs: "fs_definitions f2 = fs_definitions h"
    and walk: "propagate ((pr_id p, t) # fs_effective_sup h) (fs_retirement_causes h) t 1 []
      = Some (fs_retirement_causes f2, changed)"
  proof -
    from assms(6) obtain f2 changed where g: "g = refresh_definitions_affected_by f2 changed"
      and c: "change_retirement (h\<lparr>fs_effective_sup := (pr_id p, t) # fs_effective_sup h,
          fs_supersessions := fs_supersessions h @ [p],
          fs_supersessions_by_target := (fs_supersessions_by_target h)
            (t := fs_supersessions_by_target h t @ [p]),
          fs_abandonments := (if pr_abandoned p
            then (fs_abandonments h)(t := fs_abandonments h t @ [p])
            else fs_abandonments h)\<rparr>) t 1 = Some (f2, changed)"
      unfolding apply_supersession_def Let_def by auto
    from c show ?thesis
      by (rule change_retirement_frame) (rule that [OF g], simp_all add: same_log_def)
  qed
  have only: "vocabulary_only f2 g"
    using foldl_refresh_vocabulary by (simp add: g refresh_definitions_affected_by_def)
  have retired: "is_retired g e = is_retired f e" if "e \<notin> set changed" for e
    using propagate_changed [OF walk] that same vocabulary_only_fields(5) [OF only]
    by (simp add: is_retired_def)
  have fields: "fs_definition_versions g = fs_definition_versions f"
    "fs_ratifications g = fs_ratifications f"
    using frame same by simp_all
  have names: "affected_names f2 e = affected_names g e" for e
    using vocabulary_only_fields(2) [OF only]
    by (simp add: affected_names_def lookup_def split: option.split body.split)
  have refreshed: "fs_definitions g n =
      (if \<exists>e \<in> set changed. n \<in> set (affected_names g e) then refreshed_definition g n
       else fs_definitions f n)" for n
    using refreshed_vocabulary_only [OF only] defs same names
    by (auto simp: g refresh_definitions_affected_by_def foldl_refresh_definitions)
  have "fs_definitions g n = refreshed_definition g n" for n
  proof (cases "\<exists>e \<in> set changed. n \<in> set (affected_names g e)")
    case True
    then show ?thesis by (subst refreshed) simp
  next
    case False
    have "refreshed_definition g n = refreshed_definition f n"
    proof (rule vocab_step [OF assms(1-3)])
      fix y
      assume "y \<in> set (fs_definition_versions f n)"
      note known = version_known [OF parts(3,4) this]
      have y: "lookup g (pr_id y) = Some y"
        by (rule extends_by_lookup [OF assms(3) known(1)])
      then have "n \<in> set (affected_names g (pr_id y))"
        using known(4) by (simp add: affected_names_def)
      moreover have "n \<in> set (affected_names g e)" if "e \<in> set (fs_ratifications f (pr_id y))" for e
      proof -
        note member = that
        obtain q where q: "lookup f e = Some q" "pr_body q = Some (BRatify (pr_id y))"
          by (rule ratification_known [OF parts(3,4) member])
        show ?thesis
          using extends_by_lookup [OF assms(3) q(1)] q(2) y known(4)
          by (simp add: affected_names_def)
      qed
      ultimately show "fs_ratifications g (pr_id y) = fs_ratifications f (pr_id y)
          \<and> (\<forall>e \<in> insert (pr_id y) (set (fs_ratifications f (pr_id y))). is_retired g e = is_retired f e)"
        using False retired by (auto simp: fields)
    qed (simp add: fields)
    then show ?thesis
      using parts(5) False unfolding refreshed by (auto simp: vocab_inv_def)
  qed
  moreover have "lookup g e \<noteq> None" if "lookup f e \<noteq> None" for e
    using extends_by_lookup [OF assms(3)] that by auto
  ultimately show ?thesis
    using parts(5) by (auto simp: vocab_inv_def fields)
qed

lemma decide_ratify_effective: "dc_verdict (decide_ratify f p t) = Effective \<Longrightarrow> lookup f t \<noteq> None"
  by (cases "lookup f t") (simp_all add: decide_ratify_def decided_def)

lemma vocab_ready_append:
  assumes "vocab_ready L f" and "append_record L f r = Some g"
  shows "vocab_ready L g"
proof -
  note parts = vocab_ready_parts [OF assms(1)]
  have "vocab_inv L g"
    using assms(2)
  proof (cases rule: append_record_cases)
    case (refused p)
    then show ?thesis
      by (intro vocab_refused [OF assms])
  next
    case (statement v s f0 q d p h)
    then show ?thesis
      by (intro vocab_statement [OF assms])
  next
    case (ratification v t d p h)
    then show ?thesis
      using decide_ratify_effective by (intro vocab_ratification [OF assms]) auto
  next
    case (supersession v t x q d p h)
    then show ?thesis
      by (intro vocab_supersession [OF assms])
  qed
  then show ?thesis
    using parts fold_inv_append [OF _ assms(2)] indexed_append [OF _ assms(2)]
      findable_append [OF _ assms(2)] by (simp add: vocab_ready_def)
qed

interpretation fold_vocabulary: invariant_machine "append_record L" "vocab_ready L" "\<lambda>_. True" for L
  by unfold_locales (blast intro: vocab_ready_append)

lemma vocab_ready_start: "vocab_ready L new_fold_state"
  using fold_inv_start indexed_start
  by (simp add: vocab_ready_def vocab_inv_def findable_def new_fold_state_fields
      refreshed_definition_def)

lemma reachable_vocab:
  assumes "reachable L f"
  shows "vocab_ready L f"
proof -
  obtain rs where "run_steps (append_record L) new_fold_state rs = Some f"
    using assms by (auto simp: reachable_def new_folder_def fold_log_run)
  from fold_vocabulary.run_inv [OF vocab_ready_start _ this] show ?thesis
    by (simp add: list_all_iff)
qed

section \<open>Which version governs\<close>

text \<open>
  A version is in force while it stands and its latest standing ratification is \<open>e\<close>. It governs when
  no version in force has a later one.
\<close>

definition in_force :: "fold_state \<Rightarrow> string \<Rightarrow> parsed_record \<Rightarrow> string \<Rightarrow> bool" where
  "in_force f n p e \<longleftrightarrow>
     p \<in> set (fs_records f) \<and> declares n p \<and> \<not> is_retired f (pr_id p)
     \<and> e \<noteq> [] \<and> active_ratification f (pr_id p) = e"

definition position_in :: "fold_state \<Rightarrow> string \<Rightarrow> nat" where
  "position_in f e = (case lookup f e of None \<Rightarrow> 0 | Some q \<Rightarrow> pr_index q)"

definition governs :: "fold_state \<Rightarrow> string \<Rightarrow> kind_definition \<Rightarrow> bool" where
  "governs f n d \<longleftrightarrow>
     (\<exists>p e x. in_force f n p e \<and> pr_declared p = Some x \<and> d = x\<lparr>kd_ratified_by := e\<rparr>
        \<and> (\<forall>p' e'. in_force f n p' e' \<longrightarrow> position_in f e' \<le> position_in f e))
     \<or> ((\<nexists>p e. in_force f n p e) \<and> starter_catalog n = Some d)"

text \<open>What the loop carries: the version in force, among those read, whose ratification is latest.\<close>

definition standing_version :: "fold_state \<Rightarrow> parsed_record \<Rightarrow> string \<Rightarrow> bool" where
  "standing_version f p e \<longleftrightarrow>
     \<not> is_retired f (pr_id p) \<and> e \<noteq> [] \<and> active_ratification f (pr_id p) = e"

definition best_of ::
  "fold_state \<Rightarrow> parsed_record set \<Rightarrow> (kind_definition \<times> string \<times> nat) option \<Rightarrow> bool" where
  "best_of f P best \<longleftrightarrow>
     (case best of
        None \<Rightarrow> \<forall>p \<in> P. \<forall>e. \<not> standing_version f p e
      | Some (d, e, at) \<Rightarrow>
          (\<exists>p \<in> P. standing_version f p e \<and> pr_declared p = Some d \<and> at = position_in f e)
          \<and> (\<forall>p \<in> P. \<forall>e'. standing_version f p e' \<longrightarrow> position_in f e' \<le> at))"

lemma best_of_step:
  assumes "pr_verdict p = Effective" and "pr_declared p = Some d"
    and "\<And>e. standing_version f p e \<Longrightarrow> lookup f e \<noteq> None"
    and "best_of f P best" and "lookup f [] = None"
  shows "best_of f (insert p P) (governing_from f best [p])"
proof (cases "is_retired f (pr_id p) \<or> active_ratification f (pr_id p) = []")
  case True
  then have "governing_from f best [p] = best"
    using assms(5) by (auto split: option.split)
  moreover have "\<not> standing_version f p e" for e
    using True by (auto simp: standing_version_def)
  ultimately show ?thesis
    using assms(4) by (auto simp: best_of_def split: option.splits)
next
  case False
  define e where "e = active_ratification f (pr_id p)"
  have stands: "standing_version f p e' \<longleftrightarrow> e' = e" for e'
    using False by (auto simp: standing_version_def e_def)
  then obtain q where q: "lookup f e = Some q"
    using assms(3) by blast
  then have at: "position_in f e = pr_index q" "e \<noteq> []"
    using False by (simp_all add: position_in_def e_def)
  have "governing_from f best [p] =
      (if \<exists>b i at. best = Some (b, i, at) \<and> pr_index q < at then best else Some (d, e, pr_index q))"
    using False q assms(1,2) by (auto simp: e_def split: option.split)
  moreover have "best_of f (insert p P) (Some (d, e, pr_index q))"
    if "\<nexists>b i at. best = Some (b, i, at) \<and> pr_index q < at"
  proof -
    have "position_in f e' \<le> pr_index q" if "p' \<in> P" "standing_version f p' e'" for p' e'
      using \<open>\<nexists>b i at. best = Some (b, i, at) \<and> pr_index q < at\<close> assms(4) that
      by (fastforce simp: best_of_def split: option.splits)
    then show ?thesis
      using assms(2) stands at by (auto simp: best_of_def)
  qed
  moreover have "best_of f (insert p P) best"
    if "best = Some (b, i, at')" "pr_index q < at'" for b i at'
    using that assms(4) stands at by (auto simp: best_of_def)
  ultimately show ?thesis
    by (simp only: split: if_split) blast
qed

lemma governing_from_best:
  assumes "\<forall>p \<in> set rs. pr_verdict p = Effective \<and> pr_declared p \<noteq> None
      \<and> (\<forall>e. standing_version f p e \<longrightarrow> lookup f e \<noteq> None)"
    and "best_of f P best" and "lookup f [] = None"
  shows "best_of f (P \<union> set rs) (governing_from f best rs)"
  using assms
proof (induction rs arbitrary: P best)
  case (Cons p rs)
  then have "best_of f (insert p P) (governing_from f best [p])"
    by (auto intro!: best_of_step simp del: governing_from.simps)
  from Cons.IH [OF _ this] Cons.prems show ?case
    using governing_from_append [of f best "[p]" rs] by simp
qed simp

lemma ready_best:
  assumes "vocab_ready L f"
  shows "best_of f {p \<in> set (fs_records f). declares n p}
    (governing_from f None (fs_definition_versions f n))"
proof -
  note parts = vocab_ready_parts [OF assms]
  have versions: "set (fs_definition_versions f n) = {p \<in> set (fs_records f). declares n p}"
    using parts(3) by (simp add: indexed_def)
  have "lookup f [] = None"
    using log_inv_lookup(2) [OF parts(1), of "[]"] by (cases "lookup f []") simp_all
  moreover have "lookup f e \<noteq> None" if "standing_version f p e" for p e
  proof -
    have "e \<in> set (fs_ratifications f (pr_id p))"
      using that active_ratification_known by (auto simp: standing_version_def)
    then show ?thesis
      using ratification_known [OF parts(3,4)] by blast
  qed
  ultimately have "best_of f ({} \<union> set (fs_definition_versions f n))
      (governing_from f None (fs_definition_versions f n))"
    by (intro governing_from_best)
       (auto simp: versions declares_def best_of_def)
  then show ?thesis by (simp add: versions)
qed

text \<open>Two versions in force with ratifications at the same place are one.\<close>

lemma in_force_unique:
  assumes "vocab_ready L f" and "in_force f n p e" and "in_force f n p' e'"
    and "position_in f e = position_in f e'"
  shows "p = p' \<and> e = e'"
proof -
  note parts = vocab_ready_parts [OF assms(1)]
  have known: "\<exists>q. lookup f e = Some q \<and> pr_body q = Some (BRatify (pr_id p)) \<and> pr_id q = e
      \<and> q \<in> set (fs_records f) \<and> lookup f (pr_id p) = Some p" if "in_force f n p e" for p e
  proof -
    have "e \<in> set (fs_ratifications f (pr_id p))"
      using that active_ratification_known by (auto simp: in_force_def)
    moreover have "lookup f (pr_id p) = Some p"
      using that parts(4) by (auto simp: in_force_def declares_def findable_def)
    ultimately show ?thesis
      using ratification_known [OF parts(3,4)] by metis
  qed
  from known [OF assms(2)] obtain q where q: "lookup f e = Some q" "pr_id q = e"
    "pr_body q = Some (BRatify (pr_id p))" "q \<in> set (fs_records f)" "lookup f (pr_id p) = Some p"
    by blast
  from known [OF assms(3)] obtain q' where q': "lookup f e' = Some q'" "pr_id q' = e'"
    "pr_body q' = Some (BRatify (pr_id p'))" "q' \<in> set (fs_records f)" "lookup f (pr_id p') = Some p'"
    by blast
  have "pr_index q = pr_index q'"
    using assms(4) q(1) q'(1) by (simp add: position_in_def)
  then have "q = q'"
    using log_inv_position(2) [OF parts(1) q(4)] log_inv_position(2) [OF parts(1) q'(4)] by metis
  then have "e = e'" and "Some (BRatify (pr_id p)) = Some (BRatify (pr_id p'))"
    using q(2,3) q'(2,3) by simp_all
  moreover from this(2) have "Some p = Some p'"
    unfolding q(5) [symmetric] q'(5) [symmetric] by simp
  ultimately show ?thesis by simp
qed

text \<open>
  C9: which definition governs a kind. In every reachable state the table the fold maintains
  incrementally holds, for each kind, the declaration in force whose live ratification stands latest
  in the log, marked with that ratification, or the starter's definition when no declaration is in
  force. A declaration is in force while neither it nor its ratification has been retired.
\<close>

theorem governing_definition_current:
  assumes "reachable L f"
  shows "fs_definitions f n = Some d \<longleftrightarrow> governs f n d"
proof -
  have ready: "vocab_ready L f"
    using assms by (rule reachable_vocab)
  have table: "fs_definitions f n = refreshed_definition f n"
    using vocab_ready_parts(5) [OF ready] by (simp add: vocab_inv_def)
  have force: "in_force f n p e \<longleftrightarrow>
      p \<in> {p \<in> set (fs_records f). declares n p} \<and> standing_version f p e" for p e
    by (auto simp: in_force_def standing_version_def)
  show ?thesis
  proof (cases "governing_from f None (fs_definition_versions f n)")
    case None
    then have "\<not> in_force f n p e" for p e
      using ready_best [OF ready, of n] by (auto simp: best_of_def force)
    with None show ?thesis
      by (simp add: table refreshed_definition_def governs_def)
  next
    case (Some b)
    obtain x e at where b: "b = (x, e, at)"
      by (cases b)
    obtain p where p: "in_force f n p e" "pr_declared p = Some x" "at = position_in f e"
      and latest: "\<And>p' e'. in_force f n p' e' \<Longrightarrow> position_in f e' \<le> at"
      using ready_best [OF ready, of n] Some b by (auto simp: best_of_def force)
    have "governs f n d \<longleftrightarrow> d = x\<lparr>kd_ratified_by := e\<rparr>"
    proof
      assume "governs f n d"
      then obtain p' e' x' where "in_force f n p' e'" "pr_declared p' = Some x'"
        "d = x'\<lparr>kd_ratified_by := e'\<rparr>" "position_in f e \<le> position_in f e'"
        using p(1) latest p(3) unfolding governs_def by blast
      moreover from this have "p' = p \<and> e' = e"
        using in_force_unique [OF ready _ p(1)] latest p(3) by (metis order_antisym)
      ultimately show "d = x\<lparr>kd_ratified_by := e\<rparr>"
        using p(2) by simp
    next
      assume "d = x\<lparr>kd_ratified_by := e\<rparr>"
      then show "governs f n d"
        using p latest unfolding governs_def by blast
    qed
    then show ?thesis
      using Some b by (auto simp: table refreshed_definition_def)
  qed
qed

theorem governing_definition_current_witness:
  "\<exists>d. governs (demo_state 9) ''review'' d \<and> kd_source d = ''k'' \<and> kd_ratified_by d = ''ky''"
proof -
  have "map_option (\<lambda>d. (kd_source d, kd_ratified_by d)) (fs_definitions (demo_state 9) ''review'')
      = Some (''k'', ''ky'')"
    by code_simp
  then show ?thesis
    using governing_definition_current [OF demo_reachable, of 9 "''review''"] by auto
qed

text \<open>
  C10: the kinds the fold itself interprets keep their starter meaning for the whole life of the
  log: no declaration, however ratified, can redefine what a roster statement, a kind declaration or
  a fold activation is. Authority over the roster rests on this.
\<close>

theorem interpreted_kinds_fixed:
  assumes "reachable L f" and "fold_interpreted n"
  shows "fs_definitions f n = starter_catalog n"
proof -
  have ready: "vocab_ready L f"
    using assms(1) by (rule reachable_vocab)
  note inv = vocab_ready_parts(5) [OF ready]
  have "\<not> (\<exists>p. p \<in> set (fs_definition_versions f n))"
    using inv assms(2) unfolding vocab_inv_def definition_ok_def by metis
  then have "fs_definition_versions f n = []"
    by (cases "fs_definition_versions f n") auto
  then show ?thesis
    using inv by (simp add: vocab_inv_def refreshed_definition_def)
qed

theorem interpreted_kinds_fixed_witness:
  "fs_definitions (demo_state 9) kind_roster = starter_catalog kind_roster"
  by (rule interpreted_kinds_fixed [OF demo_reachable]) (simp add: fold_interpreted_def)

end
