(* ===== verification/WorkroomProject.thy ===== *)
theory WorkroomProject
  imports WorkroomFold GoBytes
begin

text \<open>
  The projection of \<open>internal/workroom/fold.go\<close>: \<open>project\<close> reads a complete fold into the rows a
  display shows - decisions, acts, statements, reviews, artifacts, actors, provenance, commitments
  and the number of retirements still owed. The memo \<open>receiptScans\<close>, whose entries are resumed, is
  threaded through as it is in the code; \<open>currentUnsettled\<close> and \<open>liveArtifactIndex\<close>, whose entries are
  written once and never again, are the values they hold. A map that is ranged over is an association list.
\<close>

section \<open>Rows\<close>

record decision_row =
  dr_event :: string
  dr_sequence :: nat
  dr_verdict :: verdict
  dr_reason :: reason

record act_row =
  ar_event :: string
  ar_timestamp :: int
  ar_actor :: string
  ar_supersedes :: bool
  ar_target :: string
  ar_text :: string
  ar_verdict :: verdict
  ar_reason :: reason

record left_live_row =
  lv_artifact :: string
  lv_class :: string
  lv_commitment :: string
  lv_verified :: bool
  lv_reason :: left_live_reason

record statement_row =
  sr_event :: string
  sr_sequence :: nat
  sr_timestamp :: int
  sr_actor :: string
  sr_kind :: string
  sr_lifecycle :: lifecycle
  sr_satisfier :: string
  sr_text :: string
  sr_body :: body_map
  sr_ratified :: bool
  sr_ratified_by :: string
  sr_retired :: bool
  sr_stale :: bool
  sr_world :: bool
  sr_world_at :: nat
  sr_left_live :: "left_live_row list"
  sr_because :: string
  sr_because_path :: string
  sr_truncated :: bool
  sr_ineffective :: "string list"

record artifact_row =
  at_event :: string
  at_path :: string
  at_commit :: string
  at_retired :: bool
  at_succeeded :: bool
  at_stale :: bool
  at_world :: bool
  at_world_at :: nat
  at_because :: string
  at_because_path :: string
  at_truncated :: bool
  at_unable :: bool
  at_unrecorded :: bool
  at_predecessors :: nat
  at_left_live :: "left_live_row list"
  at_ineffective :: "string list"

datatype independence = Independent | SelfReview | Unresolved

datatype resolution = ByNothing | ByName | ByBasis | ByHead

record review_row =
  rv_report :: string
  rv_timestamp :: int
  rv_reviewer :: string
  rv_verdict :: string
  rv_head :: string
  rv_artifact :: string
  rv_implementer :: string
  rv_resolved_by :: resolution
  rv_independence :: independence
  rv_ratified :: bool
  rv_retired :: bool
  rv_stale :: bool

record actor_state =
  as_name :: string
  as_kind :: string
  as_roles :: "string list"
  as_membership :: string
  as_sources :: "(string \<times> string list) list"
  as_dormant :: "(string \<times> string list) list"
  as_retired_sources :: "(string \<times> string list) list"
  as_retired :: bool

record projection =
  pn_decisions :: "decision_row list"
  pn_acts :: "act_row list"
  pn_statements :: "statement_row list"
  pn_commitments :: "commitment list"
  pn_reviews :: "review_row list"
  pn_artifacts :: "artifact_row list"
  pn_actors :: "(string \<times> actor_state) list"
  pn_provenance :: "(string \<times> string list) list"
  pn_opaque :: "(string \<times> string list) list"
  pn_omitted :: nat

section \<open>Lists under a key\<close>

definition listed :: "'k \<Rightarrow> ('k \<times> 'v list) list \<Rightarrow> 'v list" where
  "listed k m = (case map_of m k of None \<Rightarrow> [] | Some vs \<Rightarrow> vs)"

text \<open>\<open>m[k] = append(m[k], v)\<close>.\<close>

definition enlist :: "'k \<Rightarrow> 'v \<Rightarrow> ('k \<times> 'v list) list \<Rightarrow> ('k \<times> 'v list) list" where
  "enlist k v m = put k (listed k m @ [v]) m"

definition append_unique :: "string list \<Rightarrow> string \<Rightarrow> string list" where
  "append_unique vs v = (if contains vs v then vs else vs @ [v])"

definition enlist_unique :: "string \<Rightarrow> string \<Rightarrow> (string \<times> string list) list \<Rightarrow>
   (string \<times> string list) list" where
  "enlist_unique k v m = put k (append_unique (listed k m) v) m"

section \<open>Bases\<close>

fun ineffective_from :: "fold_state \<Rightarrow> string list \<Rightarrow> string list \<Rightarrow> string list" where
  "ineffective_from f seen [] = []"
| "ineffective_from f seen (basis # rest) =
     (case lookup f basis of
        None \<Rightarrow> ineffective_from f seen rest
      | Some r \<Rightarrow>
          if pr_verdict r = Effective \<or> contains seen basis then ineffective_from f seen rest
          else basis # ineffective_from f (basis # seen) rest)"

definition ineffective_bases :: "fold_state \<Rightarrow> string list \<Rightarrow> string list" where
  "ineffective_bases f rests_on = ineffective_from f [] rests_on"

definition unable_to_flare :: "fold_state \<Rightarrow> string list \<Rightarrow> bool" where
  "unable_to_flare f rests_on \<longleftrightarrow> list_all (\<lambda>b. lookup f b = None) rests_on"

section \<open>What a receipt accounts for\<close>

definition left_live_row_of :: "left_live \<Rightarrow> left_live_row" where
  "left_live_row_of e =
     \<lparr>lv_artifact = ll_artifact e, lv_class = ll_class e, lv_commitment = ll_commitment e,
      lv_verified = ll_verified e, lv_reason = ll_reason e\<rparr>"

definition project_left_live :: "fold_state \<Rightarrow> left_live list \<Rightarrow> string \<Rightarrow> left_live_row list" where
  "project_left_live f entries path =
     map left_live_row_of
       (filter (\<lambda>e. \<not> (path \<noteq> [] \<and> ll_successor e \<noteq> path) \<and> \<not> accounted_deletion f e) entries)"

fun receipt_from :: "fold_state \<Rightarrow> parsed_record \<Rightarrow> parsed_record option \<Rightarrow> string list \<Rightarrow>
   parsed_record option" where
  "receipt_from f artifact latest [] = latest"
| "receipt_from f artifact latest (basis # rest) =
     (case lookup f basis of
        None \<Rightarrow> receipt_from f artifact latest rest
      | Some receipt \<Rightarrow>
          if \<not> pr_accounting_present receipt \<or> pr_merge_plan receipt = None
             \<or> \<not> published_by_merge artifact receipt
          then receipt_from f artifact latest rest
          else receipt_from f artifact
                 (case latest of
                    None \<Rightarrow> Some receipt
                  | Some best \<Rightarrow> if pr_index receipt > pr_index best then Some receipt else latest)
                 rest)"

definition left_live_receipt_for :: "fold_state \<Rightarrow> parsed_record \<Rightarrow> parsed_record option" where
  "left_live_receipt_for f artifact = receipt_from f artifact None (pr_rests_on artifact)"

record covered_artifact =
  ca_index :: nat
  ca_event :: string
  ca_retired :: bool

record receipt_scan =
  rs_cursor :: nat
  rs_successors :: "string list"
  rs_by_path :: "(string \<times> covered_artifact list) list"

type_synonym receipt_scans = "(string \<times> receipt_scan) list"

text \<open>One step of the walk of \<open>upTo\<close>, at the record under the cursor.\<close>

definition accounts_for :: "parsed_record \<Rightarrow> parsed_record \<Rightarrow> bool" where
  "accounts_for receipt r \<longleftrightarrow>
     pr_verdict r = Effective \<and> renders_artifact r \<and> state_of r \<noteq> None
     \<and> artifact_covers_changed_path (state_field r ''path'') (pr_changed_paths receipt)"

definition scan_step :: "fold_state \<Rightarrow> parsed_record \<Rightarrow> receipt_scan \<Rightarrow> receipt_scan" where
  "scan_step f receipt scan =
     (let i = rs_cursor scan; r = fs_records f ! i; next = scan\<lparr>rs_cursor := Suc i\<rparr> in
      if \<not> accounts_for receipt r then next
      else next\<lparr>rs_by_path := enlist (closest_covering_path (rs_successors scan) (state_field r ''path''))
                   \<lparr>ca_index = i, ca_event = pr_id r, ca_retired = is_retired f (pr_id r)\<rparr>
                   (rs_by_path scan)\<rparr>)"

definition up_to :: "('l) fold_lib_scheme \<Rightarrow> fold_state \<Rightarrow> parsed_record \<Rightarrow> nat \<Rightarrow> receipt_scans \<Rightarrow>
   (string \<times> covered_artifact list) list \<times> receipt_scans" where
  "up_to L f receipt limit scans =
     (let start = (case map_of scans (pr_id receipt) of
                     Some scan \<Rightarrow> scan
                   | None \<Rightarrow> \<lparr>rs_cursor = Suc (pr_index receipt),
                              rs_successors = merge_successor_paths L receipt, rs_by_path = []\<rparr>);
          scan = (scan_step f receipt ^^ (limit - rs_cursor start)) start
      in (rs_by_path scan, put (pr_id receipt) scan scans))"

definition post_receipt_accounting ::
  "('l) fold_lib_scheme \<Rightarrow> fold_state \<Rightarrow> parsed_record \<Rightarrow> parsed_record \<Rightarrow> string \<Rightarrow> receipt_scans \<Rightarrow>
   (nat \<times> string list) \<times> receipt_scans" where
  "post_receipt_accounting L f receipt successor path scans =
     (if pr_index successor \<le> pr_index receipt + 1 then ((0, []), scans)
      else (case up_to L f receipt (pr_index successor) scans of
              (by_path, scans') \<Rightarrow>
                (let covered = takeWhile (\<lambda>c. ca_index c < pr_index successor) (listed path by_path)
                 in ((length covered, map ca_event (filter (\<lambda>c. \<not> ca_retired c) covered)), scans'))))"

text \<open>\<open>liveArtifactIndex.at\<close>: the positions of the live effective artifacts at exactly a path.\<close>

definition live_at :: "fold_state \<Rightarrow> string \<Rightarrow> nat list" where
  "live_at f path =
     filter (\<lambda>i. let r = fs_records f ! i in
                 pr_verdict r = Effective \<and> renders_artifact r \<and> \<not> is_retired f (pr_id r)
                 \<and> state_of r \<noteq> None \<and> state_field r ''path'' = path)
       [0..<length (fs_records f)]"

definition has_post_receipt_live_artifact ::
  "fold_state \<Rightarrow> parsed_record \<Rightarrow> parsed_record \<Rightarrow> parsed_record \<Rightarrow> bool" where
  "has_post_receipt_live_artifact f receipt artifact successor \<longleftrightarrow>
     state_of artifact \<noteq> None
     \<and> list_ex (\<lambda>i. i > pr_index receipt \<and> pr_id (fs_records f ! i) \<noteq> pr_id successor)
         (live_at f (state_field artifact ''path''))"

section \<open>Reviews\<close>

record review_basis =
  rb_named :: string
  rb_rests_on :: "string list"

record reviewed =
  rd_implementers :: "(string \<times> string) list"
  rd_commits :: "(string \<times> string) list"
  rd_by_commit :: "(string \<times> string list) list"

definition implementer :: "reviewed \<Rightarrow> string \<Rightarrow> string" where
  "implementer d a = body_get (rd_implementers d) a"

definition judges_head :: "reviewed \<Rightarrow> string \<Rightarrow> string \<Rightarrow> bool" where
  "judges_head d head artifact \<longleftrightarrow>
     body_has (rd_implementers d) artifact
     \<and> (head = [] \<or> body_get (rd_commits d) artifact = head)"

definition cited_artifacts :: "reviewed \<Rightarrow> string list \<Rightarrow> string list" where
  "cited_artifacts d rests_on =
     foldl append_unique [] (filter (body_has (rd_implementers d)) rests_on)"

definition resolve_reviewed :: "reviewed \<Rightarrow> review_basis \<Rightarrow> string \<Rightarrow> string \<times> resolution" where
  "resolve_reviewed d basis head =
     (if judges_head d head (rb_named basis) \<and> contains (rb_rests_on basis) (rb_named basis)
      then (rb_named basis, ByName)
      else (let cited = cited_artifacts d (rb_rests_on basis) in
            if length cited = 1 \<and> judges_head d head (hd cited) then (hd cited, ByBasis)
            else if cited \<noteq> [] \<or> head = [] then ([], ByNothing)
            else (case listed head (rd_by_commit d) of
                    [] \<Rightarrow> ([], ByNothing)
                  | c # cs \<Rightarrow>
                      if list_ex (\<lambda>a. implementer d a \<noteq> implementer d c) (c # cs)
                      then ([], ByNothing) else (c, ByHead))))"

definition resolve_review :: "reviewed \<Rightarrow> review_basis \<Rightarrow> review_row \<Rightarrow> review_row" where
  "resolve_review d basis review =
     (case resolve_reviewed d basis (rv_head review) of
        (artifact, how) \<Rightarrow>
          if artifact = [] then review
          else review\<lparr>rv_artifact := artifact, rv_resolved_by := how,
                      rv_implementer := implementer d artifact,
                      rv_independence := (if implementer d artifact = rv_reviewer review
                                          then SelfReview else Independent)\<rparr>)"

definition resolve_reviews :: "reviewed \<Rightarrow> review_row list \<Rightarrow> review_basis list \<Rightarrow> review_row list" where
  "resolve_reviews d reviews bases = map (\<lambda>(review, basis). resolve_review d basis review) (zip reviews bases)"

section \<open>One record\<close>

text \<open>What the loop of \<open>project\<close> carries from record to record.\<close>

record projecting =
  pg_decisions :: "decision_row list"
  pg_acts :: "act_row list"
  pg_statements :: "statement_row list"
  pg_reviews :: "review_row list"
  pg_artifacts :: "artifact_row list"
  pg_provenance :: "(string \<times> string list) list"
  pg_opaque :: "(string \<times> string list) list"
  pg_live :: "(string \<times> string list) list"
  pg_protected :: "string list"
  pg_debts :: "string list"
  pg_scans :: receipt_scans
  pg_reviewed :: reviewed
  pg_bases :: "review_basis list"

definition nothing_projected :: projecting where
  "nothing_projected =
     \<lparr>pg_decisions = [], pg_acts = [], pg_statements = [], pg_reviews = [], pg_artifacts = [],
      pg_provenance = [], pg_opaque = [], pg_live = [], pg_protected = [], pg_debts = [],
      pg_scans = [],
      pg_reviewed = \<lparr>rd_implementers = [], rd_commits = [], rd_by_commit = []\<rparr>, pg_bases = []\<rparr>"

definition decision_row_of :: "parsed_record \<Rightarrow> decision_row" where
  "decision_row_of r =
     \<lparr>dr_event = dc_event (pr_decision r), dr_sequence = pr_sequence r,
      dr_verdict = pr_verdict r, dr_reason = dc_reason (pr_decision r)\<rparr>"

definition act_rows_of :: "parsed_record \<Rightarrow> act_row list" where
  "act_rows_of r =
     (let act = (\<lambda>supersedes target words.
            \<lparr>ar_event = pr_id r, ar_timestamp = lr_timestamp (pr_record r), ar_actor = pr_actor r,
             ar_supersedes = supersedes, ar_target = target, ar_text = words,
             ar_verdict = pr_verdict r, ar_reason = dc_reason (pr_decision r)\<rparr>)
      in case pr_body r of
           Some (BRatify target) \<Rightarrow> [act False target []]
         | Some (BSupersede target words) \<Rightarrow> [act True target words]
         | _ \<Rightarrow> [])"

definition project_record :: "parsed_record \<Rightarrow> projecting \<Rightarrow> projecting" where
  "project_record r g =
     g\<lparr>pg_decisions := pg_decisions g @ [decision_row_of r],
       pg_provenance := (if map_of (pg_provenance g) (pr_id r) = None
                         then pg_provenance g @ [(pr_id r, pr_rests_on r)] else pg_provenance g),
       pg_acts := pg_acts g @ act_rows_of r\<rparr>"

definition statement_row_of ::
  "fold_state \<Rightarrow> staleness_pass \<Rightarrow> parsed_record \<Rightarrow> state_payload \<Rightarrow> statement_row" where
  "statement_row_of f pass r s =
     (let e = pr_id r; ratification = active_ratification f e;
          (because, path, truncated) =
            (if sp_stale pass e then nearest_retired_cause f e (sp_causes pass) else ([], [], False))
      in \<lparr>sr_event = e, sr_sequence = pr_sequence r, sr_timestamp = lr_timestamp (pr_record r),
          sr_actor = pr_actor r, sr_kind = st_kind s, sr_lifecycle = lifecycle_of r,
          sr_satisfier = satisfier_of r, sr_text = st_text s, sr_body = st_body s,
          sr_ratified = (ratification \<noteq> []), sr_ratified_by = ratification,
          sr_retired = is_retired f e, sr_stale = sp_stale pass e, sr_world = sp_world pass e,
          sr_world_at = sp_caused_at pass e, sr_left_live = project_left_live f (pr_left_live r) [],
          sr_because = because, sr_because_path = path, sr_truncated = truncated,
          sr_ineffective = (if pr_verdict r = Effective then ineffective_bases f (pr_rests_on r) else [])\<rparr>)"

text \<open>What one entry of a live successor's receipt protects, and what it turns into a debt.\<close>

definition receipt_entry ::
  "fold_state \<Rightarrow> parsed_record \<Rightarrow> parsed_record \<Rightarrow> string \<Rightarrow> left_live \<Rightarrow>
   string list \<times> string list \<Rightarrow> string list \<times> string list" where
  "receipt_entry f receipt r path entry owed =
     (if \<not> ll_verified entry \<or> ll_successor entry \<noteq> path \<or> is_retired f (ll_artifact entry) then owed
      else if ll_class entry = ''sibling'' then
        (if contains (unsettled_commitment_events f) (ll_commitment entry)
            \<and> (case lookup f (ll_artifact entry) of
                 None \<Rightarrow> False
               | Some artifact \<Rightarrow>
                   commitment_protects_artifact f (ll_commitment entry) artifact
                   \<and> \<not> has_post_receipt_live_artifact f receipt artifact r)
         then (ll_artifact entry # fst owed, snd owed)
         else (fst owed, ll_artifact entry # snd owed))
      else if ll_class entry = ''abandoned'' then (fst owed, ll_artifact entry # snd owed)
      else owed)"

definition unaccounted_at :: "parsed_record \<Rightarrow> string \<Rightarrow> nat" where
  "unaccounted_at receipt path =
     (case map_of (pr_unaccounted receipt) path of None \<Rightarrow> 0 | Some n \<Rightarrow> n)"

text \<open>
  The succession part of an artifact's row: how many live predecessors it leaves, what its receipt
  said of them, and what they add to the protected artifacts and the debts.
\<close>

definition succession_of ::
  "('l) fold_lib_scheme \<Rightarrow> fold_state \<Rightarrow> parsed_record \<Rightarrow> string \<Rightarrow> projecting \<Rightarrow>
   nat \<times> left_live_row list \<times> projecting" where
  "succession_of L f r path g =
     (case left_live_receipt_for f r of
        None \<Rightarrow> (length (listed path (pg_live g)), [], g)
      | Some receipt \<Rightarrow>
          (case post_receipt_accounting L f receipt r path (pg_scans g) of
             ((count, live), scans) \<Rightarrow>
               (let n = unaccounted_at receipt path + count - accounted_deletions f receipt path;
                    rows = project_left_live f (pr_left_live receipt) path;
                    (protected, debts) =
                      (if is_retired f (pr_id r) then (pg_protected g, pg_debts g)
                       else fold (receipt_entry f receipt r path) (pr_left_live receipt)
                              (pg_protected g, live @ pg_debts g))
                in (n, rows, g\<lparr>pg_scans := scans, pg_protected := protected, pg_debts := debts\<rparr>))))"

definition note_artifact :: "parsed_record \<Rightarrow> state_payload \<Rightarrow> reviewed \<Rightarrow> reviewed" where
  "note_artifact r s d =
     (let e = pr_id r; head = body_get (st_body s) ''commit'';
          d1 = d\<lparr>rd_implementers := put e (pr_actor r) (rd_implementers d)\<rparr>
      in if head = [] then d1
         else d1\<lparr>rd_commits := put e head (rd_commits d),
                 rd_by_commit := enlist head e (rd_by_commit d)\<rparr>)"

definition project_artifact ::
  "('l) fold_lib_scheme \<Rightarrow> fold_state \<Rightarrow> (string \<times> string) list \<Rightarrow> staleness_pass \<Rightarrow>
   parsed_record \<Rightarrow> state_payload \<Rightarrow> statement_row \<Rightarrow> projecting \<Rightarrow> projecting" where
  "project_artifact L f succeeded pass r s row g =
     (let e = pr_id r; path = body_get (st_body s) ''path'' in
      case succession_of L f r path g of
        (n, rows, g1) \<Rightarrow>
          g1\<lparr>pg_artifacts := pg_artifacts g1 @
               [\<lparr>at_event = e, at_path = path, at_commit = body_get (st_body s) ''commit'',
                 at_retired = is_retired f e,
                 at_succeeded = (is_retired f e \<and> body_get succeeded e \<noteq> []),
                 at_stale = sp_stale pass e, at_world = sp_world pass e,
                 at_world_at = sp_caused_at pass e, at_because = sr_because row,
                 at_because_path = sr_because_path row, at_truncated = sr_truncated row,
                 at_unable = unable_to_flare f (pr_rests_on r), at_unrecorded = (n > 0),
                 at_predecessors = n, at_left_live = rows, at_ineffective = sr_ineffective row\<rparr>],
             pg_live := (if is_retired f e then pg_live g1 else enlist path e (pg_live g1)),
             pg_reviewed := note_artifact r s (pg_reviewed g1)\<rparr>)"

text \<open>A report carrying a verdict is a review; what it judges is resolved after the loop.\<close>

definition is_review :: "parsed_record \<Rightarrow> state_payload \<Rightarrow> bool" where
  "is_review r s \<longleftrightarrow>
     st_kind s = kind_report \<and> body_get (st_body s) ''verdict'' \<noteq> [] \<and> pr_verdict r = Effective"

definition judged_head :: "state_payload \<Rightarrow> string" where
  "judged_head s =
     (let head = body_get (st_body s) ''head'' in
      if head = [] then body_get (st_body s) ''commit'' else head)"

definition review_row_of ::
  "fold_state \<Rightarrow> staleness_pass \<Rightarrow> parsed_record \<Rightarrow> state_payload \<Rightarrow> review_row" where
  "review_row_of f pass r s =
     (let e = pr_id r in
      \<lparr>rv_report = e, rv_timestamp = lr_timestamp (pr_record r), rv_reviewer = pr_actor r,
       rv_verdict = body_get (st_body s) ''verdict'', rv_head = judged_head s, rv_artifact = [],
       rv_implementer = [], rv_resolved_by = ByNothing, rv_independence = Unresolved,
       rv_ratified = is_ratified f e, rv_retired = is_retired f e, rv_stale = sp_stale pass e\<rparr>)"

definition review_basis_of :: "parsed_record \<Rightarrow> state_payload \<Rightarrow> review_basis" where
  "review_basis_of r s =
     \<lparr>rb_named = body_get (st_body s) ''artifact'', rb_rests_on = pr_rests_on r\<rparr>"

definition project_review ::
  "fold_state \<Rightarrow> staleness_pass \<Rightarrow> parsed_record \<Rightarrow> state_payload \<Rightarrow> projecting \<Rightarrow> projecting" where
  "project_review f pass r s g =
     (if is_review r s
      then g\<lparr>pg_reviews := pg_reviews g @ [review_row_of f pass r s],
             pg_bases := pg_bases g @ [review_basis_of r s]\<rparr>
      else g)"

definition project_statement ::
  "('l) fold_lib_scheme \<Rightarrow> fold_state \<Rightarrow> (string \<times> string) list \<Rightarrow> staleness_pass \<Rightarrow>
   parsed_record \<Rightarrow> state_payload \<Rightarrow> projecting \<Rightarrow> projecting" where
  "project_statement L f succeeded pass r s g =
     (let row = statement_row_of f pass r s;
          g1 = g\<lparr>pg_statements := pg_statements g @ [row],
                 pg_opaque := (if pr_verdict r = UndefinedKind
                               then enlist (st_kind s) (pr_id r) (pg_opaque g) else pg_opaque g)\<rparr>;
          g2 = (if pr_verdict r = Effective \<and> renders_artifact r
                then project_artifact L f succeeded pass r s row g1 else g1)
      in project_review f pass r s g2)"

definition project_step ::
  "('l) fold_lib_scheme \<Rightarrow> fold_state \<Rightarrow> (string \<times> string) list \<Rightarrow> staleness_pass \<Rightarrow>
   parsed_record \<Rightarrow> projecting \<Rightarrow> projecting" where
  "project_step L f succeeded pass r g =
     (case state_of r of
        None \<Rightarrow> project_record r g
      | Some s \<Rightarrow> project_statement L f succeeded pass r s (project_record r g))"

section \<open>Retirements owed\<close>

definition omitted_supersessions :: "projecting \<Rightarrow> nat" where
  "omitted_supersessions g =
     (let owed = concat (map (\<lambda>(path, artifacts). if length artifacts < 2 then [] else butlast artifacts)
                   (pg_live g))
      in length (remdups (filter (\<lambda>e. \<not> contains (pg_protected g) e) owed @ pg_debts g)))"

section \<open>Actors\<close>

definition no_actor :: actor_state where
  "no_actor = \<lparr>as_name = [], as_kind = [], as_roles = [], as_membership = [], as_sources = [],
               as_dormant = [], as_retired_sources = [], as_retired = False\<rparr>"

definition actor_at :: "string \<Rightarrow> (string \<times> actor_state) list \<Rightarrow> actor_state" where
  "actor_at a actors = (case map_of actors a of None \<Rightarrow> no_actor | Some st \<Rightarrow> st)"

definition add_actor_role :: "string \<Rightarrow> string \<Rightarrow> actor_state \<Rightarrow> actor_state" where
  "add_actor_role role source st =
     (let st1 = st\<lparr>as_roles := append_unique (as_roles st) role\<rparr> in
      if source = [] then st1
      else st1\<lparr>as_sources := enlist_unique role source (as_sources st)\<rparr>)"

definition grant_actor :: "role_grant \<Rightarrow> actor_state \<Rightarrow> actor_state" where
  "grant_actor g st =
     (let st1 = add_actor_role (rg_role g) (rg_statement g) st;
          st2 = (if rg_membership g
                 then add_actor_role role_participant (rg_statement g)
                        (st1\<lparr>as_name := (if rg_name g \<noteq> [] then rg_name g else as_name st1),
                             as_kind := (if rg_kind g \<noteq> [] then rg_kind g else as_kind st1),
                             as_membership := rg_statement g\<rparr>)
                 else st1)
      in if rg_role g = role_operator then add_actor_role role_ratifier [] st2 else st2)"

definition live_grant :: "fold_state \<Rightarrow> role_grant \<Rightarrow> (string \<times> actor_state) list \<Rightarrow>
   (string \<times> actor_state) list" where
  "live_grant f g actors =
     (if \<not> role_grant_active f g then actors
      else put (rg_actor g) (grant_actor g (actor_at (rg_actor g) actors)) actors)"

definition retired_member :: "fold_state \<Rightarrow> string list \<Rightarrow> role_grant \<Rightarrow> (string \<times> actor_state) list \<Rightarrow>
   (string \<times> actor_state) list" where
  "retired_member f live g actors =
     (if \<not> rg_membership g \<or> contains live (rg_actor g) \<or> role_grant_active f g then actors
      else put (rg_actor g)
             (no_actor\<lparr>as_name := rg_name g, as_kind := rg_kind g, as_membership := rg_statement g,
                       as_retired := True\<rparr>) actors)"

definition past_grant :: "fold_state \<Rightarrow> role_grant \<Rightarrow> (string \<times> actor_state) list \<Rightarrow>
   (string \<times> actor_state) list" where
  "past_grant f g actors =
     (case map_of actors (rg_actor g) of
        None \<Rightarrow> actors
      | Some st \<Rightarrow>
          if role_grant_active f g then actors
          else put (rg_actor g)
                 (if role_grant_direct_active f g
                  then st\<lparr>as_dormant := enlist_unique (rg_role g) (rg_statement g) (as_dormant st)\<rparr>
                  else st\<lparr>as_retired_sources :=
                            enlist_unique (rg_role g) (rg_statement g) (as_retired_sources st)\<rparr>)
                 actors)"

definition sorted_actor :: "actor_state \<Rightarrow> actor_state" where
  "sorted_actor st =
     (let sources = map (\<lambda>(role, es). (role, sort_strings es)) in
      st\<lparr>as_roles := sort_strings (as_roles st), as_sources := sources (as_sources st),
         as_dormant := sources (as_dormant st), as_retired_sources := sources (as_retired_sources st)\<rparr>)"

definition project_actors :: "fold_state \<Rightarrow> (string \<times> actor_state) list" where
  "project_actors f =
     (let grants = fs_role_grants f;
          live = fold (live_grant f) grants [];
          members = fold (retired_member f (map fst live)) grants live
      in map (\<lambda>(a, st). (a, sorted_actor st)) (fold (past_grant f) grants members))"

section \<open>The projection\<close>

definition project :: "('l) fold_lib_scheme \<Rightarrow> fold_state \<Rightarrow> projection" where
  "project L f =
     (let succeeded = succeeded_retirements f;
          pass = compute_staleness (staleness_now f) None succeeded True;
          g = fold (project_step L f succeeded pass) (fs_records f) nothing_projected
      in \<lparr>pn_decisions = pg_decisions g, pn_acts = pg_acts g, pn_statements = pg_statements g,
          pn_commitments = project_commitments f (sp_stale pass),
          pn_reviews = resolve_reviews (pg_reviewed g) (pg_reviews g) (pg_bases g),
          pn_artifacts = pg_artifacts g, pn_actors = project_actors f,
          pn_provenance = pg_provenance g, pn_opaque = pg_opaque g,
          pn_omitted = omitted_supersessions g\<rparr>)"

end
