(* ===== verification/FoldRoster.thy ===== *)
theory FoldRoster
  imports FoldMembership FoldIndex WorkroomProject
begin

text \<open>
  The roster a reader is shown against the authority the fold enforces. The fold answers
  \<open>hasRole\<close> from an index of grants by actor and role; the projection walks all grants. Both give
  every actor the same roles in every reachable state.
\<close>

section \<open>The index of grants\<close>

definition carries :: "role_grant \<Rightarrow> string \<Rightarrow> bool" where
  "carries g role \<longleftrightarrow> role = rg_role g \<or> (role = role_participant \<and> rg_membership g)
     \<or> (role = role_ratifier \<and> rg_role g = role_operator)"

definition roles_indexed :: "fold_state \<Rightarrow> bool" where
  "roles_indexed f \<longleftrightarrow>
     (\<forall>actor role. set (fs_role_grants_by_role f (actor, role)) =
        {g \<in> set (fs_role_grants f). rg_actor g = actor \<and> carries g role})"

lemma roles_indexed_same:
  "fs_role_grants g = fs_role_grants f \<Longrightarrow> fs_role_grants_by_role g = fs_role_grants_by_role f
    \<Longrightarrow> roles_indexed g \<longleftrightarrow> roles_indexed f"
  by (simp add: roles_indexed_def)

lemma roles_indexed_store: "roles_indexed f \<Longrightarrow> roles_indexed (store_role_grant x f)"
proof -
  assume "roles_indexed f"
  moreover have "fs_role_grants (store_role_grant x f) = fs_role_grants f @ [x]"
    by (simp add: store_role_grant_def index_role_grant_def Let_def)
  ultimately show ?thesis
    by (auto simp: roles_indexed_def store_role_grant_indexes carries_def)
qed

lemma roles_indexed_add: "roles_indexed f \<Longrightarrow> roles_indexed (add_role_grant a n k r s t b f)"
  by (simp add: add_role_grant_def roles_indexed_store)

lemma roles_indexed_statement: "roles_indexed f \<Longrightarrow> roles_indexed (apply_statement f p s)"
  unfolding apply_statement_def Let_def
  by (auto split: option.split intro!: roles_indexed_add
      simp: roles_indexed_same [of "index_authorization (index_dependents f p) p s" f]
        roles_indexed_same [of "_\<lparr>fs_definition_versions := _\<rparr>"] index_authorization_frame
        index_dependents_frame)

lemma roles_indexed_ratification: "roles_indexed f \<Longrightarrow> roles_indexed (apply_ratification f p t)"
  unfolding apply_ratification_def Let_def
  by (auto split: option.split intro!: roles_indexed_add
      simp: roles_indexed_same [of "_\<lparr>fs_ratifications := _\<rparr>"] roles_indexed_same [of "_\<lparr>fs_transitions := _\<rparr>"]
        roles_indexed_same [OF vocabulary_only_fields(7) [OF foldl_refresh_vocabulary]
          vocabulary_only_fields(9) [OF foldl_refresh_vocabulary]])

lemma roles_indexed_append:
  assumes "roles_indexed f" and "append_record L f r = Some g"
  shows "roles_indexed g"
  using assms(2)
proof (cases rule: append_record_cases)
  case (refused p)
  then show ?thesis
    using assms(1) same_indexes_fields(5,6) roles_indexed_same by metis
next
  case (statement v s f0 q d p h)
  then have "roles_indexed h"
    using assms(1) same_indexes_fields(5,6) roles_indexed_same by metis
  then show ?thesis
    unfolding statement(14) by (rule roles_indexed_statement)
next
  case (ratification v t d p h)
  then have "roles_indexed h"
    using assms(1) same_indexes_fields(5,6) roles_indexed_same by metis
  then show ?thesis
    unfolding ratification(13) by (rule roles_indexed_ratification)
next
  case (supersession v t x q d p h)
  then have "roles_indexed h"
    using assms(1) same_indexes_fields(5,6) roles_indexed_same by metis
  then show ?thesis
    using apply_supersession_frame(4,5) [OF supersession(15)] roles_indexed_same by metis
qed

interpretation fold_roles: invariant_machine "append_record L" roles_indexed "\<lambda>_. True" for L
  by unfold_locales (rule roles_indexed_append)

lemma reachable_roles:
  assumes "reachable L f"
  shows "roles_indexed f"
proof -
  obtain rs where "run_steps (append_record L) new_fold_state rs = Some f"
    using assms by (auto simp: reachable_def new_folder_def fold_log_run)
  from fold_roles.run_inv [OF _ _ this] show ?thesis
    by (simp add: roles_indexed_def new_fold_state_fields new_fold_state_def list_all_iff)
qed

lemma has_role_granted:
  assumes "roles_indexed f"
  shows "has_role f actor role \<longleftrightarrow>
    (\<exists>g \<in> set (fs_role_grants f). rg_actor g = actor \<and> carries g role \<and> role_grant_active f g)"
  using assms by (auto simp: has_role_def roles_indexed_def list_ex_iff)

section \<open>The projected roster\<close>

lemma set_append_unique [simp]: "set (append_unique vs v) = insert v (set vs)"
  by (auto simp: append_unique_def)

lemma distinct_append_unique: "distinct vs \<Longrightarrow> distinct (append_unique vs v)"
  by (simp add: append_unique_def)

lemma add_actor_role_roles [simp]:
  "as_roles (add_actor_role role source st) = append_unique (as_roles st) role"
  by (simp add: add_actor_role_def Let_def)

lemma grant_actor_roles:
  "set (as_roles (grant_actor g st)) = set (as_roles st) \<union> {role. carries g role}"
  "distinct (as_roles st) \<Longrightarrow> distinct (as_roles (grant_actor g st))"
  by (auto simp: grant_actor_def Let_def carries_def distinct_append_unique)

definition roles_at :: "string \<Rightarrow> (string \<times> actor_state) list \<Rightarrow> string list" where
  "roles_at a actors = as_roles (actor_at a actors)"

lemma roles_at_put: "roles_at a (put b st actors) = (if a = b then as_roles st else roles_at a actors)"
  by (simp add: roles_at_def actor_at_def map_of_put)

lemma live_grants:
  "set (roles_at a (fold (live_grant f) gs actors)) = set (roles_at a actors)
     \<union> {role. \<exists>g \<in> set gs. rg_actor g = a \<and> carries g role \<and> role_grant_active f g}"
proof (induction gs arbitrary: actors)
  case (Cons g gs)
  have "set (roles_at a (live_grant f g actors)) = set (roles_at a actors)
      \<union> {role. rg_actor g = a \<and> carries g role \<and> role_grant_active f g}"
    by (auto simp: live_grant_def roles_at_put grant_actor_roles(1) roles_at_def [symmetric])
  then show ?case
    using Cons by auto
qed simp

lemma live_grants_distinct:
  "(\<And>b. distinct (roles_at b actors)) \<Longrightarrow> distinct (roles_at a (fold (live_grant f) gs actors))"
proof (induction gs arbitrary: actors)
  case (Cons g gs)
  have "distinct (roles_at b (live_grant f g actors))" for b
    using Cons.prems grant_actor_roles(2) [OF Cons.prems [unfolded roles_at_def]]
    by (simp add: live_grant_def roles_at_put)
  then show ?case
    using Cons.IH by simp
qed simp

lemma retired_members:
  assumes "\<And>b. b \<notin> set live \<Longrightarrow> roles_at b actors = []"
  shows "roles_at a (fold (retired_member f live) gs actors) = roles_at a actors"
  using assms
proof (induction gs arbitrary: actors)
  case (Cons g gs)
  have one: "roles_at b (retired_member f live g actors) = roles_at b actors" for b
    using Cons.prems by (auto simp: retired_member_def roles_at_put no_actor_def)
  then have "roles_at a (fold (retired_member f live) gs (retired_member f live g actors))
      = roles_at a (retired_member f live g actors)"
    using Cons.prems by (intro Cons.IH) simp
  then show ?case
    using one by simp
qed simp

lemma past_grants: "roles_at a (fold (past_grant f) gs actors) = roles_at a actors"
proof (induction gs arbitrary: actors)
  case (Cons g gs)
  have "roles_at a (past_grant f g actors) = roles_at a actors"
    by (auto simp: past_grant_def roles_at_def actor_at_def map_of_put split: option.split)
  then show ?case
    using Cons by simp
qed simp

lemma absent_no_roles: "b \<notin> set (map fst actors) \<Longrightarrow> roles_at b actors = []"
proof -
  assume "b \<notin> set (map fst actors)"
  then have "map_of actors b = None"
    by (simp add: map_of_eq_None_iff)
  then show ?thesis
    by (simp add: roles_at_def actor_at_def no_actor_def)
qed

lemma projected_roles:
  "roles_at a (project_actors f) = sort_strings (roles_at a (fold (live_grant f) (fs_role_grants f) []))"
proof -
  have sorted: "roles_at a (map (\<lambda>(a, st). (a, sorted_actor st)) actors) = sort_strings (roles_at a actors)"
    for actors
    using map_of_map [of sorted_actor actors]
    by (simp add: roles_at_def actor_at_def sorted_actor_def Let_def no_actor_def split: option.split)
  show ?thesis
    unfolding project_actors_def Let_def sorted past_grants
    by (subst retired_members) (simp_all add: absent_no_roles)
qed

text \<open>
  C39: in every reachable state the roster that project shows gives an actor exactly the roles
  for which hasRole answers true, each once and in the order of their names.
\<close>

theorem displayed_roles_enforced:
  assumes "reachable L f"
  shows "set (as_roles (actor_at a (project_actors f))) = {role. has_role f a role}
    \<and> strictly_sorted (as_roles (actor_at a (project_actors f)))"
proof -
  have "distinct (roles_at a (fold (live_grant f) (fs_role_grants f) []))"
    by (rule live_grants_distinct) (simp add: roles_at_def actor_at_def no_actor_def)
  then show ?thesis
    using projected_roles [of a f] live_grants [of a f "fs_role_grants f" "[]"]
      has_role_granted [OF reachable_roles [OF assms]] strictly_sorted_sort_strings
    by (auto simp: roles_at_def actor_at_def no_actor_def)
qed

theorem displayed_roles_enforced_witness:
  "{role. has_role (demo_state 3) ''A'' role} = {role_operator, role_participant, role_ratifier}
   \<and> {role. has_role (demo_state 3) ''B'' role} = {role_participant}"
proof -
  have "as_roles (actor_at ''A'' (project_actors (demo_state 3))) = [''operator'', ''participant'', ''ratifier'']
      \<and> as_roles (actor_at ''B'' (project_actors (demo_state 3))) = [''participant'']"
    by code_simp
  then show ?thesis
    using displayed_roles_enforced [where a = "''A''", OF demo_reachable [of 3]]
      displayed_roles_enforced [where a = "''B''", OF demo_reachable [of 3]]
    by (simp add: role_operator_def role_participant_def role_ratifier_def)
qed

end
