(* ===== verification/GoCodec.thy ===== *)
theory GoCodec
  imports GoBytes
begin

text \<open>
  More of Go's standard library on bytes: results that may be an error, \<open>encoding/base64\<close> in its raw
  URL and its padded standard form, \<open>strings.Fields\<close>, \<open>strings.Index\<close>, \<open>strconv.ParseInt\<close> and the
  big-endian length prefix of the SSH wire format. The round trips the kernel relies on are here.
\<close>

section \<open>A result or an error\<close>

text \<open>Go's \<open>v, err := f(); if err != nil { return err }\<close> is \<open>and_then\<close>; an early return is \<open>require\<close>.\<close>

fun and_then :: "'e + 'a \<Rightarrow> ('a \<Rightarrow> 'e + 'b) \<Rightarrow> 'e + 'b" where
  "and_then (Inl e) f = Inl e"
| "and_then (Inr a) f = f a"

definition require :: "bool \<Rightarrow> 'e \<Rightarrow> 'e + unit" where
  "require c e = (if c then Inr () else Inl e)"

definition of_option :: "'e \<Rightarrow> 'a option \<Rightarrow> 'e + 'a" where
  "of_option e x = (case x of None \<Rightarrow> Inl e | Some a \<Rightarrow> Inr a)"

lemma and_then_Inr: "and_then m f = Inr b \<longleftrightarrow> (\<exists>a. m = Inr a \<and> f a = Inr b)"
  by (cases m) auto

lemma require_Inr [simp]: "require c e = Inr u \<longleftrightarrow> c"
  by (simp add: require_def)

lemma require_simps [simp]: "require True e = Inr ()" "require False e = Inl e"
  by (simp_all add: require_def)

lemma of_option_Inr [simp]: "of_option e x = Inr a \<longleftrightarrow> x = Some a"
  by (auto simp: of_option_def split: option.splits)

lemma of_option_simps [simp]: "of_option e (Some a) = Inr a" "of_option e None = Inl e"
  by (simp_all add: of_option_def)

section \<open>Base64\<close>

definition b64_code :: "bool \<Rightarrow> nat \<Rightarrow> nat" where
  "b64_code url n =
     (if n < 26 then 65 + n else if n < 52 then 71 + n else if n < 62 then n - 4
      else if n = 62 then (if url then 45 else 43) else (if url then 95 else 47))"

definition b64_char :: "bool \<Rightarrow> nat \<Rightarrow> char" where
  "b64_char url n = char_of (b64_code url n)"

definition b64_value :: "bool \<Rightarrow> char \<Rightarrow> nat option" where
  "b64_value url c =
     (let n = byte_val c in
      if 65 \<le> n \<and> n \<le> 90 then Some (n - 65)
      else if 97 \<le> n \<and> n \<le> 122 then Some (n - 71)
      else if 48 \<le> n \<and> n \<le> 57 then Some (n + 4)
      else if n = (if url then 45 else 43) then Some 62
      else if n = (if url then 95 else 47) then Some 63 else None)"

text \<open>Three bytes make four characters; one or two left over make two or three.\<close>

fun b64_groups :: "bool \<Rightarrow> bytes \<Rightarrow> string" where
  "b64_groups url [] = []"
| "b64_groups url [a] =
     [b64_char url (byte_val a div 4), b64_char url (byte_val a mod 4 * 16)]"
| "b64_groups url [a, b] =
     [b64_char url (byte_val a div 4), b64_char url (byte_val a mod 4 * 16 + byte_val b div 16),
      b64_char url (byte_val b mod 16 * 4)]"
| "b64_groups url (a # b # c # s) =
     b64_char url (byte_val a div 4) # b64_char url (byte_val a mod 4 * 16 + byte_val b div 16)
     # b64_char url (byte_val b mod 16 * 4 + byte_val c div 64) # b64_char url (byte_val c mod 64)
     # b64_groups url s"

text \<open>The decoder does not ask for zero in the bits that are left over.\<close>

fun b64_values :: "nat list \<Rightarrow> bytes option" where
  "b64_values [] = Some []"
| "b64_values [p] = None"
| "b64_values [p, q] = Some [char_of (p * 4 + q div 16)]"
| "b64_values [p, q, r] = Some [char_of (p * 4 + q div 16), char_of (q mod 16 * 16 + r div 4)]"
| "b64_values (p # q # r # t # s) =
     map_option (\<lambda>d. char_of (p * 4 + q div 16) # char_of (q mod 16 * 16 + r div 4)
                     # char_of (r mod 4 * 64 + t) # d) (b64_values s)"

fun read_values :: "bool \<Rightarrow> string \<Rightarrow> nat list option" where
  "read_values url [] = Some []"
| "read_values url (c # s) =
     (case (b64_value url c, read_values url s) of
        (Some v, Some vs) \<Rightarrow> Some (v # vs) | _ \<Rightarrow> None)"

definition without_breaks :: "string \<Rightarrow> string" where
  "without_breaks s = filter (\<lambda>c. byte_val c \<noteq> 10 \<and> byte_val c \<noteq> 13) s"

text \<open>\<open>base64.RawURLEncoding\<close>: no padding; line breaks are skipped.\<close>

definition b64_encode :: "bytes \<Rightarrow> string" where
  "b64_encode s = b64_groups True s"

definition b64_decode :: "string \<Rightarrow> bytes option" where
  "b64_decode s = Option.bind (read_values True (without_breaks s)) b64_values"

text \<open>\<open>base64.StdEncoding\<close>: padded to a multiple of four, with at most two characters of padding.\<close>

definition b64_std_encode :: "bytes \<Rightarrow> string" where
  "b64_std_encode s = b64_groups False s @ replicate ((3 - length s mod 3) mod 3) (CHR ''='')"

definition b64_std_decode :: "string \<Rightarrow> bytes option" where
  "b64_std_decode s0 =
     (let s = without_breaks s0;
          body = (if has_suffix ''=='' s then take (length s - 2) s
                  else if has_suffix ''='' s then take (length s - 1) s else s)
      in if length s mod 4 \<noteq> 0 then None
         else Option.bind (read_values False body) b64_values)"

lemma b64_code_range:
  "n < 64 \<Longrightarrow> 43 \<le> b64_code url n \<and> b64_code url n \<le> 122
    \<and> b64_code url n \<noteq> 58 \<and> b64_code url n \<noteq> 61"
  unfolding b64_code_def by (cases url) auto

lemma byte_of_b64_char: "n < 64 \<Longrightarrow> byte_val (b64_char url n) = b64_code url n"
  using b64_code_range [of n url] by (simp add: b64_char_def)

lemma b64_value_char [simp]:
  assumes "n < 64"
  shows "b64_value url (b64_char url n) = Some n"
proof -
  consider "n < 26" | "26 \<le> n" "n < 52" | "52 \<le> n" "n < 62" | "n = 62" | "n = 63"
    using assms by linarith
  then show ?thesis
    unfolding b64_value_def byte_of_b64_char [OF assms] Let_def b64_code_def
    by cases auto
qed

lemma b64_char_printable:
  "n < 64 \<Longrightarrow> 43 \<le> byte_val (b64_char url n) \<and> byte_val (b64_char url n) \<le> 122
    \<and> byte_val (b64_char url n) \<noteq> 58 \<and> byte_val (b64_char url n) \<noteq> 61"
  using b64_code_range [of n url] by (simp add: byte_of_b64_char)

lemma byte_quotients:
  "byte_val c div 16 div 16 = 0" "byte_val c div 64 div 4 = 0"
  "byte_val c div 16 mod 16 = byte_val c div 16" "byte_val c div 64 mod 4 = byte_val c div 64"
  "byte_val c div 4 < 64" "byte_val c div 16 < 16" "byte_val c div 64 < 4"
  using byte_val_less [of c] by (simp_all add: div_mult2_eq [symmetric] less_mult_imp_div_less)

lemma six_bits:
  "byte_val c div 4 < 64" "byte_val c mod 4 * 16 < 64" "byte_val c mod 16 * 4 < 64"
  "byte_val c mod 4 * 16 + byte_val d div 16 < 64" "byte_val c mod 16 * 4 + byte_val d div 64 < 64"
  "byte_val c mod 64 < 64"
proof -
  have "byte_val c mod 4 < 4" "byte_val c mod 16 < 16"
    by simp_all
  then show "byte_val c div 4 < 64" "byte_val c mod 4 * 16 < 64" "byte_val c mod 16 * 4 < 64"
    "byte_val c mod 4 * 16 + byte_val d div 16 < 64" "byte_val c mod 16 * 4 + byte_val d div 64 < 64"
    "byte_val c mod 64 < 64"
    using byte_quotients(5) [of c] byte_quotients(6,7) [of d] by linarith+
qed

lemma b64_groups_values:
  "\<exists>vs. b64_groups url s = map (b64_char url) vs \<and> (\<forall>v\<in>set vs. v < 64) \<and> b64_values vs = Some s"
proof (induction url s rule: b64_groups.induct)
  case (1 url)
  show ?case by (intro exI [of _ "[]"]) simp
next
  case (2 url a)
  show ?case
    by (intro exI [of _ "[byte_val a div 4, byte_val a mod 4 * 16]"]) (simp add: six_bits byte_quotients)
next
  case (3 url a b)
  show ?case
    by (intro exI [of _ "[byte_val a div 4, byte_val a mod 4 * 16 + byte_val b div 16,
          byte_val b mod 16 * 4]"]) (simp add: six_bits byte_quotients)
next
  case (4 url a b c s)
  then obtain vs where
    "b64_groups url s = map (b64_char url) vs" "\<forall>v\<in>set vs. v < 64" "b64_values vs = Some s"
    by blast
  then show ?case
    by (intro exI [of _ "byte_val a div 4 # (byte_val a mod 4 * 16 + byte_val b div 16)
          # (byte_val b mod 16 * 4 + byte_val c div 64) # (byte_val c mod 64) # vs"])
       (simp add: six_bits byte_quotients)
qed

lemma read_values_chars:
  "\<forall>v\<in>set vs. v < 64 \<Longrightarrow> read_values url (map (b64_char url) vs) = Some vs"
  by (induction vs) auto

lemma read_groups: "\<exists>vs. read_values url (b64_groups url s) = Some vs \<and> b64_values vs = Some s"
  using b64_groups_values [of url s] read_values_chars by metis

lemma b64_groups_printable:
  assumes "c \<in> set (b64_groups url s)"
  shows "43 \<le> byte_val c \<and> byte_val c \<le> 122 \<and> byte_val c \<noteq> 58 \<and> byte_val c \<noteq> 61"
  using b64_groups_values [of url s] assms b64_char_printable by auto

lemma without_breaks_groups [simp]: "without_breaks (b64_groups url s) = b64_groups url s"
  unfolding without_breaks_def using b64_groups_printable [of _ url s]
  by (intro filter_True) fastforce

lemma b64_decode_encode [simp]: "b64_decode (b64_encode s) = Some s"
  using read_groups [of True s] by (auto simp: b64_decode_def b64_encode_def)

lemma b64_encode_inject [simp]: "b64_encode s = b64_encode t \<longleftrightarrow> s = t"
  using b64_decode_encode by (metis option.inject)

lemma b64_encode_printable:
  "c \<in> set (b64_encode s) \<Longrightarrow>
     43 \<le> byte_val c \<and> byte_val c \<le> 122 \<and> byte_val c \<noteq> 58 \<and> byte_val c \<noteq> 61"
  using b64_groups_printable by (simp add: b64_encode_def)

lemma length_b64_groups: "length (b64_groups url s) = (4 * length s + 2) div 3"
  by (induction url s rule: b64_groups.induct) auto

section \<open>Words and positions\<close>

definition starts_white :: "bytes \<Rightarrow> bool" where
  "starts_white s \<longleftrightarrow> list_ex (\<lambda>w. has_prefix w s) white_space"

fun word_of :: "bytes \<Rightarrow> bytes" where
  "word_of [] = []"
| "word_of (c # s) = (if starts_white (c # s) then [] else c # word_of s)"

text \<open>\<open>strings.Fields\<close>.\<close>

function str_fields :: "bytes \<Rightarrow> bytes list" where
  "str_fields s =
     (let t = trim_left s; w = word_of t
      in if w = [] then [] else w # str_fields (drop (length w) t))"
  by pat_completeness auto

lemma length_trim_left: "length (trim_left s) \<le> length s"
proof (induction s rule: trim_left.induct)
  case (1 s)
  then show ?case
    by (subst trim_left.simps) (fastforce split: option.splits)
qed

termination str_fields
proof (relation "measure length")
  fix s t w
  assume "t = trim_left s" "w = word_of t" "w \<noteq> []"
  moreover from this have "t \<noteq> []"
    by auto
  ultimately have "length t \<le> length s" "0 < length t" "0 < length w"
    using length_trim_left [of s] by simp_all
  then have "length t - length w < length s"
    by linarith
  then show "(drop (length w) t, s) \<in> measure length"
    by simp
qed simp

declare str_fields.simps [simp del]

text \<open>\<open>bytes.Index\<close> of two line feeds: the parts before and after them.\<close>

fun cut_blank_line :: "bytes \<Rightarrow> (bytes \<times> bytes) option" where
  "cut_blank_line (a # b # s) =
     (if byte_val a = 10 \<and> byte_val b = 10 then Some ([], s)
      else map_option (\<lambda>(h, m). (a # h, m)) (cut_blank_line (b # s)))"
| "cut_blank_line _ = None"

text \<open>\<open>strings.Cut\<close> at the two bytes colon and space.\<close>

fun cut_colon :: "string \<Rightarrow> (string \<times> string) option" where
  "cut_colon (a # b # s) =
     (if a = CHR '':'' \<and> b = CHR '' '' then Some ([], s)
      else map_option (\<lambda>(k, v). (a # k, v)) (cut_colon (b # s)))"
| "cut_colon _ = None"

definition contains_any :: "nat list \<Rightarrow> string \<Rightarrow> bool" where
  "contains_any codes s \<longleftrightarrow> list_ex (\<lambda>c. byte_val c \<in> set codes) s"

text \<open>\<open>strconv.ParseInt(s, 10, 64)\<close>: an optional sign, and the range of a signed 64-bit integer.\<close>

definition parse_int :: "string \<Rightarrow> int option" where
  "parse_int s =
     (let sign = (case s of c # _ \<Rightarrow> if c = CHR ''-'' then - 1 else 1 | [] \<Rightarrow> 1);
          digits = (case s of c # r \<Rightarrow> if c = CHR ''-'' \<or> c = CHR ''+'' then r else s | [] \<Rightarrow> [])
      in if digits = [] then None
         else (case digits_value 0 digits of
                 None \<Rightarrow> None
               | Some n \<Rightarrow>
                   if sign * int n < - (2 ^ 63) \<or> sign * int n \<ge> 2 ^ 63 then None
                   else Some (sign * int n)))"

section \<open>Length-prefixed strings\<close>

definition be32 :: "nat \<Rightarrow> bytes" where
  "be32 n = [char_of (n div 16777216), char_of (n div 65536), char_of (n div 256), char_of n]"

definition read_be32 :: "bytes \<Rightarrow> nat" where
  "read_be32 s = (case s of
       a # b # c # d # _ \<Rightarrow>
         ((byte_val a * 256 + byte_val b) * 256 + byte_val c) * 256 + byte_val d
     | _ \<Rightarrow> 0)"

lemma length_be32 [simp]: "length (be32 n) = 4"
  by (simp add: be32_def)

lemma read_be32_append [simp]:
  assumes "n < 2 ^ 32"
  shows "read_be32 (be32 n @ s) = n"
proof -
  have "n div 65536 = n div 256 div 256" "n div 16777216 = n div 256 div 256 div 256"
    by (simp_all add: div_mult2_eq [symmetric])
  moreover have "n div 256 div 256 div 256 mod 256 = n div 256 div 256 div 256"
    using assms by (simp add: div_mult2_eq [symmetric] less_mult_imp_div_less)
  ultimately show ?thesis
    using mult_div_mod_eq [of 256 n] mult_div_mod_eq [of 256 "n div 256"]
      mult_div_mod_eq [of 256 "n div 256 div 256"]
    by (simp add: be32_def read_be32_def, linarith)
qed

section \<open>Splitting what was joined\<close>

abbreviation newline :: char where "newline \<equiv> CHR 0x0A"
abbreviation zero_byte :: char where "zero_byte \<equiv> CHR 0x00"
abbreviation tab :: char where "tab \<equiv> CHR 0x09"

fun join_lines :: "string list \<Rightarrow> string" where
  "join_lines [] = []"
| "join_lines [l] = l"
| "join_lines (l # ls) = l @ newline # join_lines ls"

lemma split_char_end: "c \<notin> set w \<Longrightarrow> split_char c w = [w]"
  by (induction w) auto

lemma split_char_Cons: "c \<notin> set w \<Longrightarrow> split_char c (w @ c # s) = w # split_char c s"
  by (induction w) auto

lemma split_join_lines:
  "ls \<noteq> [] \<Longrightarrow> \<forall>l\<in>set ls. newline \<notin> set l \<Longrightarrow> split_char newline (join_lines ls) = ls"
  by (induction ls rule: join_lines.induct) (auto simp: split_char_end split_char_Cons)

lemma cut_colon_found:
  assumes "CHR '':'' \<notin> set k"
  shows "cut_colon (k @ CHR '':'' # CHR '' '' # v) = Some (k, v)"
  using assms
proof (induction k)
  case (Cons a k)
  then show ?case by (cases k) auto
qed simp

end
