(* ===== verification/Intents.thy ===== *)
theory Intents
  imports GoCodec "HOL-Library.Word"
begin

text \<open>
  Signed intents (\<open>internal/intent/intent.go\<close>) and the commit message that carries one
  (\<open>internal/intent/envelope.go\<close>): validation, canonical encoding, signing and verification, the
  retry identity of a submission, and the envelope with its parser.

  \<open>kernel_lib\<close> collects the code that is not in the repository and that the kernel calls: the CBOR
  encoder and decoder, the hashes, Ed25519 and the PEM reader.
\<close>

section \<open>Intents\<close>

text \<open>
  The versions are naturals below 2^64: one is fixed by \<open>validate\<close>, the other only carried. The
  ceiling of a log, which is computed with, is a 64-bit word.
\<close>

record intent =
  in_version :: nat
  in_target :: string
  in_schema :: string
  in_envelope_version :: nat
  in_payload_tree :: string
  in_rests_on :: "string list"
  in_namespace :: string
  in_key :: string
  in_capability_hash :: bytes

record signed =
  sg_intent :: bytes
  sg_actor_key :: bytes
  sg_signature :: bytes

record genesis_descriptor =
  gd_version :: nat
  gd_object_format :: string
  gd_payload_ceiling :: "64 word"
  gd_sequencer_key :: string
  gd_predecessor :: string
  gd_sealed_head :: string

record rotation_descriptor =
  rd_version :: nat
  rd_sequencer_key :: string

record pem_block =
  pb_type :: string
  pb_headers :: nat
  pb_bytes :: bytes
  pb_rest :: bytes

record kernel_lib =
  kl_sha1 :: "bytes \<Rightarrow> bytes"
  kl_sha256 :: "bytes \<Rightarrow> bytes"
  kl_sha512 :: "bytes \<Rightarrow> bytes"
  kl_ed25519_verify :: "bytes \<Rightarrow> bytes \<Rightarrow> bytes \<Rightarrow> bool"
  kl_ed25519_sign :: "bytes \<Rightarrow> bytes \<Rightarrow> bytes"
  kl_ed25519_public :: "bytes \<Rightarrow> bytes"
  kl_pem :: "bytes \<Rightarrow> pem_block option"
  kl_intent :: "intent \<Rightarrow> bytes option"
  kl_read_intent :: "bytes \<Rightarrow> intent option"
  kl_genesis :: "genesis_descriptor \<Rightarrow> bytes option"
  kl_read_genesis :: "bytes \<Rightarrow> genesis_descriptor option"
  kl_rotation :: "rotation_descriptor \<Rightarrow> bytes option"
  kl_read_rotation :: "bytes \<Rightarrow> rotation_descriptor option"

datatype intent_error =
  UnsupportedVersion nat
| FieldRequired string
| FieldTooLong string
| FieldForbidden string
| TooManyReferences
| InvalidReference
| NotEncodable
| NotDecodable
| NotCanonical
| BadActorKey
| BadSignatureLength
| BadSignature
| EnvelopeTooLong
| NotAnEnvelope
| MalformedLine string
| DuplicateField string
| MissingFields
| BadBase64

definition intent_version :: nat where "intent_version = 0"
definition domain_tag :: string where "domain_tag = ''gitseq.intent.v0'' @ [zero_byte]"
definition max_string_bytes :: nat where "max_string_bytes = 32768"
definition max_causal_references :: nat where "max_causal_references = 4096"

abbreviation forbidden_bytes :: "nat list" where "forbidden_bytes \<equiv> [13, 10, 0]"

definition field_error :: "string \<times> string \<Rightarrow> intent_error option" where
  "field_error nv =
     (let (name, v) = nv in
      if v = [] then Some (FieldRequired name)
      else if length v > max_string_bytes then Some (FieldTooLong name)
      else if contains_any forbidden_bytes v then Some (FieldForbidden name)
      else None)"

definition valid_reference :: "string \<Rightarrow> bool" where
  "valid_reference ref \<longleftrightarrow>
     \<not> (ref = [] \<or> length ref > max_string_bytes \<or> contains_any forbidden_bytes ref)"

text \<open>
  The five named fields are ranged over as a Go map: when several are bad, which of them the error
  names is left open by the language; here it is the first as written. That there is an error does
  not depend on it.
\<close>

definition validate :: "intent \<Rightarrow> intent_error option" where
  "validate i =
     (if in_version i \<noteq> intent_version then Some (UnsupportedVersion (in_version i))
      else (case List.find (\<lambda>nv. field_error nv \<noteq> None)
                  [(''target'', in_target i), (''schema'', in_schema i),
                   (''payload tree'', in_payload_tree i),
                   (''idempotency namespace'', in_namespace i),
                   (''idempotency key'', in_key i)] of
              Some nv \<Rightarrow> field_error nv
            | None \<Rightarrow>
                if length (in_rests_on i) > max_causal_references then Some TooManyReferences
                else if list_ex (\<lambda>r. \<not> valid_reference r) (in_rests_on i) then Some InvalidReference
                else None))"

definition encode_intent :: "('l) kernel_lib_scheme \<Rightarrow> intent \<Rightarrow> intent_error + bytes" where
  "encode_intent L i =
     (case validate i of Some e \<Rightarrow> Inl e | None \<Rightarrow> of_option NotEncodable (kl_intent L i))"

definition decode_intent :: "('l) kernel_lib_scheme \<Rightarrow> bytes \<Rightarrow> intent_error + intent" where
  "decode_intent L data =
     (case kl_read_intent L data of
        None \<Rightarrow> Inl NotDecodable
      | Some i \<Rightarrow>
          (case validate i of
             Some e \<Rightarrow> Inl e
           | None \<Rightarrow>
               (case kl_intent L i of
                  None \<Rightarrow> Inl NotEncodable
                | Some canonical \<Rightarrow> if canonical \<noteq> data then Inl NotCanonical else Inr i)))"

definition signing_bytes :: "('l) kernel_lib_scheme \<Rightarrow> bytes \<Rightarrow> intent_error + bytes" where
  "signing_bytes L encoded =
     (case decode_intent L encoded of Inl e \<Rightarrow> Inl e | Inr _ \<Rightarrow> Inr (domain_tag @ encoded))"

definition sign_encoded :: "('l) kernel_lib_scheme \<Rightarrow> bytes \<Rightarrow> bytes \<Rightarrow> intent_error + signed" where
  "sign_encoded L encoded private =
     (case signing_bytes L encoded of
        Inl e \<Rightarrow> Inl e
      | Inr message \<Rightarrow>
          Inr \<lparr>sg_intent = encoded, sg_actor_key = kl_ed25519_public L private,
               sg_signature = kl_ed25519_sign L private message\<rparr>)"

definition sign_intent :: "('l) kernel_lib_scheme \<Rightarrow> intent \<Rightarrow> bytes \<Rightarrow> intent_error + signed" where
  "sign_intent L i private =
     and_then (encode_intent L i) (\<lambda>encoded. sign_encoded L encoded private)"

definition key_size :: nat where "key_size = 32"
definition sig_size :: nat where "sig_size = 64"

definition verify_signed :: "('l) kernel_lib_scheme \<Rightarrow> signed \<Rightarrow> intent_error + intent" where
  "verify_signed L s =
     (if length (sg_actor_key s) \<noteq> key_size then Inl BadActorKey
      else if length (sg_signature s) \<noteq> sig_size then Inl BadSignatureLength
      else (case decode_intent L (sg_intent s) of
              Inl e \<Rightarrow> Inl e
            | Inr i \<Rightarrow>
                (case signing_bytes L (sg_intent s) of
                   Inl e \<Rightarrow> Inl e
                 | Inr message \<Rightarrow>
                     if \<not> kl_ed25519_verify L (sg_actor_key s) message (sg_signature s)
                     then Inl BadSignature else Inr i)))"

section \<open>The retry identity\<close>

definition fingerprint_of :: "('l) kernel_lib_scheme \<Rightarrow> bytes \<Rightarrow> string" where
  "fingerprint_of L key = hex_encode (kl_sha256 L key)"

definition dedup_identity_for :: "string \<Rightarrow> string \<Rightarrow> string \<Rightarrow> string \<Rightarrow> string" where
  "dedup_identity_for target fingerprint namespace key =
     target @ zero_byte # fingerprint @ zero_byte # namespace
       @ zero_byte # key"

definition dedup_identity ::
  "('l) kernel_lib_scheme \<Rightarrow> string \<Rightarrow> bytes \<Rightarrow> string \<Rightarrow> string \<Rightarrow> string" where
  "dedup_identity L target actor_key namespace key =
     dedup_identity_for target (fingerprint_of L actor_key) namespace key"

definition dedup_key :: "('l) kernel_lib_scheme \<Rightarrow> signed \<Rightarrow> intent_error + string" where
  "dedup_key L s =
     (case verify_signed L s of
        Inl e \<Rightarrow> Inl e
      | Inr i \<Rightarrow> Inr (dedup_identity L (in_target i) (sg_actor_key s) (in_namespace i) (in_key i)))"

definition signed_equal :: "signed \<Rightarrow> signed \<Rightarrow> bool" where
  "signed_equal s t \<longleftrightarrow> sg_intent s = sg_intent t \<and> sg_actor_key s = sg_actor_key t
     \<and> sg_signature s = sg_signature t"

section \<open>The envelope\<close>

definition event_marker :: string where "event_marker = ''gitseq-event-v0''"

definition envelope :: "signed \<Rightarrow> string list \<Rightarrow> string" where
  "envelope s rests =
     event_marker
     @ newline # ''Intent: '' @ b64_encode (sg_intent s)
     @ newline # ''Actor-Key: '' @ b64_encode (sg_actor_key s)
     @ newline # ''Actor-Signature: '' @ b64_encode (sg_signature s)
     @ concat (map (\<lambda>r. newline # ''Rests-On: '' @ r) rests)
     @ [newline]"

text \<open>The lines after the marker: the signed fields so far, and the references in order.\<close>

fun envelope_lines ::
  "body_map \<Rightarrow> string list \<Rightarrow> string list \<Rightarrow> intent_error + body_map \<times> string list" where
  "envelope_lines values rests [] = Inr (values, rests)"
| "envelope_lines values rests (line # ls) =
     (if line = [] then envelope_lines values rests ls
      else (case cut_colon line of
              None \<Rightarrow> Inl (MalformedLine line)
            | Some (key, v) \<Rightarrow>
                if key = ''Rests-On'' then envelope_lines values (rests @ [v]) ls
                else if body_has values key then Inl (DuplicateField key)
                else envelope_lines ((key, v) # values) rests ls))"

definition parse_envelope :: "string \<Rightarrow> nat \<Rightarrow> intent_error + signed \<times> string list" where
  "parse_envelope message max_bytes =
     (if max_bytes = 0 \<or> length message > max_bytes then Inl EnvelopeTooLong
      else (case split_char newline message of
              [] \<Rightarrow> Inl NotAnEnvelope
            | first # ls \<Rightarrow>
                if first \<noteq> event_marker then Inl NotAnEnvelope
                else and_then (envelope_lines [] [] ls) (\<lambda>(values, rests).
                  if length values \<noteq> 3 then Inl MissingFields
                  else and_then (of_option BadBase64 (b64_decode (body_get values ''Intent''))) (\<lambda>encoded.
                       and_then (of_option BadBase64 (b64_decode (body_get values ''Actor-Key''))) (\<lambda>actor.
                       and_then (of_option BadBase64 (b64_decode (body_get values ''Actor-Signature''))) (\<lambda>sig.
                         Inr (\<lparr>sg_intent = encoded, sg_actor_key = actor, sg_signature = sig\<rparr>,
                              rests)))))))"

definition equal_refs :: "string list \<Rightarrow> string list \<Rightarrow> bool" where
  "equal_refs a b \<longleftrightarrow> a = b"

end
