(* ===== verification/GitObjects.thy ===== *)
theory GitObjects
  imports Intents
begin

text \<open>
  The Git object reader of the kernel (\<open>internal/gitstore/audit.go\<close>, \<open>internal/gitstore/gitstore.go\<close>):
  typed object names, the answer of \<open>git cat-file --batch\<close> with its framing and its hash check, the
  parser of commit and tree objects, the payload tree with its bound, and the verification of an
  OpenSSH signature over the exact bytes of a commit.

  \<open>git\<close> collects the commands of the Git program, which is not in the repository. A command reads the
  world \<open>'w\<close> (the repository and whatever else uses it) or also changes it; what other processes do in
  the meantime is part of the world a command leaves.
\<close>

datatype git_error =
  InvalidTypedOid string
| InvalidObjectId string
| CatFileFailed
| MalformedHeader string
| InvalidSize string
| SizeExceedsLimit
| ShortObject
| MalformedFraming
| HashDiffers
| UnsupportedFormat string
| NoMessageSeparator
| MalformedContinuation
| MalformedCommitHeader
| MultipleSignatures
| MultipleTrees
| MultipleCommitters
| MalformedCommitter
| MalformedTimestamp
| MissingMetadata
| MalformedTree
| InvalidPayloadPath string
| NoEventBlob
| PayloadExceedsCeiling
| BadPublicKey string
| BadSshSignature string
| InvalidAttachmentName string
| GitFailed

section \<open>The Git program\<close>

record commit_identity =
  ci_author_name :: string
  ci_author_email :: string
  ci_committer_name :: string
  ci_committer_email :: string

record commit_request =
  cr_tree :: string
  cr_parent :: string
  cr_message :: string
  cr_signing_key :: string
  cr_identity :: commit_identity

text \<open>
  \<open>gt_head\<close> and \<open>gt_update_ref\<close> are \<open>rev-parse --verify\<close> and \<open>update-ref ref new old\<close>; \<open>gt_commit\<close> is
  \<open>commit-tree -S\<close>, giving the object name and the time written; \<open>gt_cat\<close> is what the batch reader
  answers to one object name; \<open>gt_rev_list\<close> and \<open>gt_log_after\<close> list first parents oldest first, the
  second with a flag for a walk that ended without an error.
\<close>

record 'w git =
  gt_format :: "'w \<Rightarrow> string option"
  gt_head :: "string \<Rightarrow> 'w \<Rightarrow> string option \<times> 'w"
  gt_rev_list :: "string \<Rightarrow> 'w \<Rightarrow> string list option"
  gt_log_after :: "string \<Rightarrow> string \<Rightarrow> 'w \<Rightarrow> string list \<times> bool"
  gt_show :: "string \<Rightarrow> 'w \<Rightarrow> bytes option"
  gt_cat :: "string \<Rightarrow> 'w \<Rightarrow> bytes option"
  gt_batch_ends :: "'w \<Rightarrow> bool"
  gt_hash_object :: "bytes \<Rightarrow> 'w \<Rightarrow> string option \<times> 'w"
  gt_mktree :: "bytes \<Rightarrow> 'w \<Rightarrow> string option \<times> 'w"
  gt_commit :: "commit_request \<Rightarrow> 'w \<Rightarrow> (string \<times> int) option \<times> 'w"
  gt_verify_commit :: "string \<Rightarrow> string \<Rightarrow> 'w \<Rightarrow> bool"
  gt_update_ref :: "string \<Rightarrow> string \<Rightarrow> string \<Rightarrow> 'w \<Rightarrow> bool \<times> 'w"

section \<open>Object names\<close>

definition parse_typed_oid :: "string \<Rightarrow> git_error + string \<times> string" where
  "parse_typed_oid v =
     (case split_char (CHR '':'') v of
        [a, b, c] \<Rightarrow>
          if a \<noteq> ''git'' \<or> (b \<noteq> ''sha1'' \<and> b \<noteq> ''sha256'') \<or> c = [] then Inl (InvalidTypedOid v)
          else Inr (b, c)
      | _ \<Rightarrow> Inl (InvalidTypedOid v))"

definition typed_oid :: "string \<Rightarrow> string \<Rightarrow> string" where
  "typed_oid format oid = ''git:'' @ format @ CHR '':'' # oid"

definition valid_object_id :: "string \<Rightarrow> nat \<Rightarrow> bool" where
  "valid_object_id oid object_bytes \<longleftrightarrow>
     length oid = object_bytes * 2 \<and> list_all is_lower_hex oid"

definition object_bytes_of :: "string \<Rightarrow> nat option" where
  "object_bytes_of format =
     (if format = ''sha1'' then Some 20 else if format = ''sha256'' then Some 32 else None)"

definition git_hash :: "('l) kernel_lib_scheme \<Rightarrow> string \<Rightarrow> string \<Rightarrow> bytes \<Rightarrow> git_error + string" where
  "git_hash L format kind content =
     (let framed = kind @ CHR '' '' # format_uint (length content) @ zero_byte # content in
      if format = ''sha1'' then Inr (hex_encode (kl_sha1 L framed))
      else if format = ''sha256'' then Inr (hex_encode (kl_sha256 L framed))
      else Inl (UnsupportedFormat format))"

section \<open>Reading one object\<close>

definition max_int :: nat where "max_int = 2 ^ 63 - 1"
definition max_uint64 :: nat where "max_uint64 = 2 ^ 64 - 1"

text \<open>The header line without its line feed.\<close>

definition parse_cat_file_header ::
  "string \<Rightarrow> string \<Rightarrow> string \<Rightarrow> nat \<Rightarrow> git_error + nat" where
  "parse_cat_file_header line oid want_type max_bytes =
     (case split_char (CHR '' '') line of
        [a, b, c] \<Rightarrow>
          if a \<noteq> oid \<or> b \<noteq> want_type then Inl (MalformedHeader line)
          else (case parse_uint c of
                  None \<Rightarrow> Inl (InvalidSize c)
                | Some n \<Rightarrow>
                    if n > max_bytes \<or> n > max_int then Inl SizeExceedsLimit else Inr n)
      | _ \<Rightarrow> Inl (MalformedHeader line))"

text \<open>
  One answer of the batch process: a header up to its line feed, the content, one line feed. An
  error poisons the process, and every caller gives up with it.
\<close>

definition read_object ::
  "('l) kernel_lib_scheme \<Rightarrow> 'w git \<Rightarrow> 'w \<Rightarrow> string \<Rightarrow> string \<Rightarrow> string \<Rightarrow> nat \<Rightarrow> git_error + bytes" where
  "read_object L G w format oid want_type max_bytes =
     (case object_bytes_of format of
        None \<Rightarrow> Inl (UnsupportedFormat format)
      | Some n \<Rightarrow>
          if \<not> valid_object_id oid n then Inl (InvalidObjectId oid)
          else (case gt_cat G oid w of
            None \<Rightarrow> Inl CatFileFailed
          | Some answer \<Rightarrow>
              (case cut_char newline answer of
                 (header, body, found) \<Rightarrow>
                   if \<not> found then Inl CatFileFailed
                   else and_then (parse_cat_file_header header oid want_type max_bytes) (\<lambda>size.
                     let content = take size body in
                     if length body < size then Inl ShortObject
                     else if take 1 (drop size body) \<noteq> [newline] then Inl MalformedFraming
                     else and_then (git_hash L format want_type content) (\<lambda>actual.
                       if actual \<noteq> oid then Inl HashDiffers else Inr content)))))"

section \<open>Commits\<close>

record commit_metadata =
  cx_oid :: string
  cx_tree :: string
  cx_parents :: "string list"
  cx_timestamp :: int
  cx_message :: string

record audited_commit = commit_metadata +
  ac_signed_content :: bytes
  ac_signature :: bytes

record commit_headers =
  ch_tree :: string
  ch_parents :: "string list"
  ch_timestamp :: int
  ch_signature :: bytes
  ch_seen_sig :: bool
  ch_seen_time :: bool
  ch_continued :: bool
  ch_unsigned :: bytes

definition no_headers :: commit_headers where
  "no_headers = \<lparr>ch_tree = [], ch_parents = [], ch_timestamp = 0, ch_signature = [],
     ch_seen_sig = False, ch_seen_time = False, ch_continued = False, ch_unsigned = []\<rparr>"

definition continues :: "bytes \<Rightarrow> bool" where
  "continues line \<longleftrightarrow> (case line of [] \<Rightarrow> False | c # _ \<Rightarrow> c = CHR '' '')"

definition keep_line :: "bytes \<Rightarrow> commit_headers \<Rightarrow> commit_headers" where
  "keep_line line h = h\<lparr>ch_unsigned := ch_unsigned h @ line @ [newline]\<rparr>"

text \<open>The meaning of one kept header; headers of other names are kept and ignored.\<close>

definition read_header :: "bytes \<Rightarrow> bytes \<Rightarrow> commit_headers \<Rightarrow> git_error + commit_headers" where
  "read_header name v h =
     (if name = ''tree'' then
        (if ch_tree h \<noteq> [] then Inl MultipleTrees else Inr (h\<lparr>ch_tree := v\<rparr>))
      else if name = ''parent'' then Inr (h\<lparr>ch_parents := ch_parents h @ [v]\<rparr>)
      else if name = ''committer'' then
        (if ch_seen_time h then Inl MultipleCommitters
         else (let fs = str_fields v in
               if length fs < 2 then Inl MalformedCommitter
               else (case parse_int (fs ! (length fs - 2)) of
                       None \<Rightarrow> Inl MalformedTimestamp
                     | Some t \<Rightarrow> Inr (h\<lparr>ch_timestamp := t, ch_seen_time := True\<rparr>))))
      else Inr h)"

function header_lines :: "bytes list \<Rightarrow> commit_headers \<Rightarrow> git_error + commit_headers" where
  "header_lines [] h = Inr h"
| "header_lines (line # ls) h =
     (if continues line then
        (if \<not> ch_continued h then Inl MalformedContinuation
         else header_lines ls (keep_line line h))
      else (case cut_char (CHR '' '') line of
        (name, v, ok) \<Rightarrow>
          if \<not> ok \<or> name = [] \<or> v = [] then Inl MalformedCommitHeader
          else if name = ''gpgsig'' \<or> name = ''gpgsig-sha256'' then
            (if ch_seen_sig h then Inl MultipleSignatures
             else header_lines (dropWhile continues ls)
                    (h\<lparr>ch_seen_sig := True, ch_continued := False,
                       ch_signature := v @ [newline]
                         @ concat (map (\<lambda>l. tl l @ [newline]) (takeWhile continues ls))\<rparr>))
          else and_then (read_header name v (keep_line line h\<lparr>ch_continued := True\<rparr>)) (header_lines ls)))"
  by pat_completeness auto

termination header_lines
  by (relation "measure (length \<circ> fst)") (auto simp: length_dropWhile_le le_imp_less_Suc)

definition parse_audited_commit :: "string \<Rightarrow> bytes \<Rightarrow> git_error + audited_commit" where
  "parse_audited_commit oid content =
     (case cut_blank_line content of
        None \<Rightarrow> Inl NoMessageSeparator
      | Some (headers, message) \<Rightarrow>
          and_then (header_lines (split_char newline headers) no_headers) (\<lambda>h.
            if ch_tree h = [] \<or> \<not> ch_seen_time h \<or> \<not> ch_seen_sig h then Inl MissingMetadata
            else Inr \<lparr>cx_oid = oid, cx_tree = ch_tree h, cx_parents = ch_parents h,
                      cx_timestamp = ch_timestamp h, cx_message = message,
                      ac_signed_content = ch_unsigned h @ newline # message,
                      ac_signature = ch_signature h\<rparr>))"

definition read_commit ::
  "('l) kernel_lib_scheme \<Rightarrow> 'w git \<Rightarrow> 'w \<Rightarrow> string \<Rightarrow> string \<Rightarrow> git_error + audited_commit" where
  "read_commit L G w format oid =
     and_then (read_object L G w format oid ''commit'' max_uint64) (parse_audited_commit oid)"

section \<open>The signature of the sequencer\<close>

definition ssh_wire_string :: "bytes \<Rightarrow> (bytes \<times> bytes) option" where
  "ssh_wire_string s =
     (if length s < 4 then None
      else (let size = read_be32 (take 4 s) in
            if size > length s - 4 then None
            else Some (take size (drop 4 s), drop (4 + size) s)))"

definition append_ssh_string :: "bytes \<Rightarrow> bytes \<Rightarrow> bytes" where
  "append_ssh_string target v = target @ be32 (length v mod 2 ^ 32) @ v"

definition parse_ssh_public_key :: "string \<Rightarrow> git_error + bytes \<times> bytes" where
  "parse_ssh_public_key public_key =
     (case split_char (CHR '' '') public_key of
        [a, b] \<Rightarrow>
          if a \<noteq> ''ssh-ed25519'' then Inl (BadPublicKey ''form'')
          else (case b64_std_decode b of
                  None \<Rightarrow> Inl (BadPublicKey ''base64'')
                | Some raw \<Rightarrow>
                    if b64_std_encode raw \<noteq> b then Inl (BadPublicKey ''base64'')
                    else (case ssh_wire_string raw of
                            None \<Rightarrow> Inl (BadPublicKey ''algorithm'')
                          | Some (algorithm, r1) \<Rightarrow>
                              if algorithm \<noteq> a then Inl (BadPublicKey ''algorithm'')
                              else (case ssh_wire_string r1 of
                                      None \<Rightarrow> Inl (BadPublicKey ''body'')
                                    | Some (key, r2) \<Rightarrow>
                                        if length key \<noteq> key_size \<or> r2 \<noteq> []
                                        then Inl (BadPublicKey ''body'') else Inr (raw, key))))
      | _ \<Rightarrow> Inl (BadPublicKey ''form''))"

definition valid_ssh_public_key :: "string \<Rightarrow> bool" where
  "valid_ssh_public_key k \<longleftrightarrow> (case parse_ssh_public_key k of Inl _ \<Rightarrow> False | Inr _ \<Rightarrow> True)"

text \<open>One field of the signature: the error names the field.\<close>

definition ssh_field :: "string \<Rightarrow> bytes \<Rightarrow> git_error + bytes \<times> bytes" where
  "ssh_field what s = of_option (BadSshSignature what) (ssh_wire_string s)"

definition ssh_check :: "bool \<Rightarrow> string \<Rightarrow> git_error + unit" where
  "ssh_check c what = require c (BadSshSignature what)"

definition ssh_digest :: "('l) kernel_lib_scheme \<Rightarrow> bytes \<Rightarrow> bytes \<Rightarrow> git_error + bytes" where
  "ssh_digest L algorithm content =
     (if algorithm = ''sha256'' then Inr (kl_sha256 L content)
      else if algorithm = ''sha512'' then Inr (kl_sha512 L content)
      else Inl (BadSshSignature ''hash''))"

definition verify_ssh_signature ::
  "('l) kernel_lib_scheme \<Rightarrow> audited_commit \<Rightarrow> string \<Rightarrow> git_error + unit" where
  "verify_ssh_signature L c public_key =
     and_then (parse_ssh_public_key public_key) (\<lambda>(expected_wire, expected_key).
     and_then (of_option (BadSshSignature ''armor'') (kl_pem L (ac_signature c))) (\<lambda>block.
     and_then (ssh_check (pb_type block = ''SSH SIGNATURE'' \<and> pb_rest block = [] \<and> pb_headers block = 0)
       ''armor'') (\<lambda>_.
     and_then (ssh_check (has_prefix ''SSHSIG'' (pb_bytes block)) ''magic'') (\<lambda>_.
     let d0 = drop 6 (pb_bytes block) in
     and_then (ssh_check (length d0 \<ge> 4 \<and> read_be32 (take 4 d0) = 1) ''version'') (\<lambda>_.
     and_then (ssh_field ''key'' (drop 4 d0)) (\<lambda>(embedded, d1).
     and_then (ssh_check (embedded = expected_wire) ''key'') (\<lambda>_.
     and_then (ssh_field ''namespace'' d1) (\<lambda>(namespace, d2).
     and_then (ssh_check (namespace = ''git'') ''namespace'') (\<lambda>_.
     and_then (ssh_field ''reserved'' d2) (\<lambda>(reserved, d3).
     and_then (ssh_check (reserved = []) ''reserved'') (\<lambda>_.
     and_then (ssh_field ''hash'' d3) (\<lambda>(algorithm, d4).
     and_then (ssh_field ''body'' d4) (\<lambda>(sig, d5).
     and_then (ssh_check (d5 = []) ''body'') (\<lambda>_.
     and_then (ssh_field ''signature algorithm'' sig) (\<lambda>(sig_algorithm, s1).
     and_then (ssh_check (sig_algorithm = ''ssh-ed25519'') ''signature algorithm'') (\<lambda>_.
     and_then (ssh_field ''ed25519'' s1) (\<lambda>(raw, s2).
     and_then (ssh_check (s2 = [] \<and> length raw = sig_size) ''ed25519'') (\<lambda>_.
     and_then (ssh_digest L algorithm (ac_signed_content c)) (\<lambda>digest.
       ssh_check
         (kl_ed25519_verify L expected_key
            (append_ssh_string (append_ssh_string (append_ssh_string
               (append_ssh_string ''SSHSIG'' namespace) reserved) algorithm) digest) raw)
         ''signature'')))))))))))))))))))"

section \<open>Trees\<close>

record tree_entry =
  te_mode :: string
  te_name :: string
  te_oid :: string

text \<open>The two separators are looked for independently, as \<open>IndexByte\<close> does.\<close>

definition index_byte :: "char \<Rightarrow> bytes \<Rightarrow> nat option" where
  "index_byte c s =
     (let n = length (takeWhile (\<lambda>x. x \<noteq> c) s) in if n < length s then Some n else None)"

function tree_entries :: "nat \<Rightarrow> bytes \<Rightarrow> git_error + tree_entry list" where
  "tree_entries n content =
     (if content = [] then Inr []
      else (case (index_byte (CHR '' '') content, index_byte zero_byte content) of
        (Some space, Some nul) \<Rightarrow>
          if space = 0 \<or> nul \<le> space + 1 \<or> length content < nul + 1 + n then Inl MalformedTree
          else and_then (tree_entries n (drop (nul + 1 + n) content)) (\<lambda>es.
            Inr (\<lparr>te_mode = take space content,
                  te_name = drop (space + 1) (take nul content),
                  te_oid = hex_encode (take n (drop (nul + 1) content))\<rparr> # es))
      | _ \<Rightarrow> Inl MalformedTree))"
  by pat_completeness auto

termination tree_entries
  by (relation "measure (length \<circ> snd)") auto

declare tree_entries.simps [simp del]

definition read_tree ::
  "('l) kernel_lib_scheme \<Rightarrow> 'w git \<Rightarrow> 'w \<Rightarrow> string \<Rightarrow> string \<Rightarrow> git_error + tree_entry list" where
  "read_tree L G w format oid =
     and_then (read_object L G w format oid ''tree'' max_uint64) (\<lambda>content.
       tree_entries (case object_bytes_of format of None \<Rightarrow> 0 | Some n \<Rightarrow> n) content)"

definition tree_is_empty ::
  "('l) kernel_lib_scheme \<Rightarrow> 'w git \<Rightarrow> 'w \<Rightarrow> string \<Rightarrow> string \<Rightarrow> git_error + bool" where
  "tree_is_empty L G w format oid =
     and_then (read_object L G w format oid ''tree'' max_uint64) (\<lambda>content. Inr (content = []))"

definition is_blob_mode :: "string \<Rightarrow> bool" where
  "is_blob_mode m \<longleftrightarrow> m = ''100644'' \<or> m = ''100755'' \<or> m = ''120000''"

text \<open>\<open>^[A-Za-z0-9][A-Za-z0-9._-]{0,127}$\<close>.\<close>

definition is_alnum :: "char \<Rightarrow> bool" where
  "is_alnum c \<longleftrightarrow> byte_in 48 57 c \<or> byte_in 65 90 c \<or> byte_in 97 122 c"

definition attachment_name :: "string \<Rightarrow> bool" where
  "attachment_name s \<longleftrightarrow>
     (case s of [] \<Rightarrow> False
      | c # r \<Rightarrow> is_alnum c \<and> length r \<le> 127
          \<and> list_all (\<lambda>x. is_alnum x \<or> x = CHR ''.'' \<or> x = CHR ''_'' \<or> x = CHR ''-'') r)"

section \<open>The payload tree\<close>

fun payload_root ::
  "string \<Rightarrow> string \<Rightarrow> tree_entry list \<Rightarrow> git_error + string \<times> string" where
  "payload_root event attachments [] = Inr (event, attachments)"
| "payload_root event attachments (e # es) =
     (if te_name e = ''event'' \<and> is_blob_mode (te_mode e) \<and> event = []
      then payload_root (te_oid e) attachments es
      else if te_name e = ''attachments'' \<and> te_mode e = ''40000'' \<and> attachments = []
      then payload_root event (te_oid e) es
      else Inl (InvalidPayloadPath (te_name e)))"

definition read_payload_blob ::
  "('l) kernel_lib_scheme \<Rightarrow> 'w git \<Rightarrow> 'w \<Rightarrow> string \<Rightarrow> string \<Rightarrow> nat \<Rightarrow> git_error + bytes" where
  "read_payload_blob L G w format oid remaining =
     (case read_object L G w format oid ''blob'' remaining of
        Inl SizeExceedsLimit \<Rightarrow> Inl PayloadExceedsCeiling
      | r \<Rightarrow> r)"

type_synonym attachments = "(string \<times> bytes) list"

text \<open>\<open>used\<close> (the \<open>total\<close> of the code) never exceeds the ceiling, so the remaining budget of the code does not wrap.\<close>

fun read_attachments ::
  "('l) kernel_lib_scheme \<Rightarrow> 'w git \<Rightarrow> 'w \<Rightarrow> string \<Rightarrow> nat \<Rightarrow> nat \<Rightarrow> tree_entry list \<Rightarrow> attachments
   \<Rightarrow> git_error + attachments" where
  "read_attachments L G w format ceiling used [] got = Inr got"
| "read_attachments L G w format ceiling used (e # es) got =
     (if \<not> is_blob_mode (te_mode e) \<or> \<not> attachment_name (te_name e)
      then Inl (InvalidPayloadPath (''attachments/'' @ te_name e))
      else and_then (read_payload_blob L G w format (te_oid e) (ceiling - used)) (\<lambda>content.
             read_attachments L G w format ceiling (used + length content) es
               (put (te_name e) content got)))"

definition payload_tree ::
  "('l) kernel_lib_scheme \<Rightarrow> 'w git \<Rightarrow> 'w \<Rightarrow> string \<Rightarrow> string \<Rightarrow> nat \<Rightarrow> bool
   \<Rightarrow> git_error + bytes \<times> attachments" where
  "payload_tree L G w format tree ceiling load =
     and_then (read_tree L G w format tree) (\<lambda>root.
     and_then (payload_root [] [] root) (\<lambda>(event_oid, attachments_oid).
       if event_oid = [] then Inl NoEventBlob
       else and_then (read_payload_blob L G w format event_oid ceiling) (\<lambda>event.
         and_then (if attachments_oid = [] then Inr []
                   else and_then (read_tree L G w format attachments_oid) (\<lambda>entries.
                     read_attachments L G w format ceiling (length event) entries []))
           (\<lambda>got. Inr (if load then (event, got) else ([], []))))))"

section \<open>Writing a payload tree\<close>

fun write_blobs ::
  "'w git \<Rightarrow> (string \<times> bytes) list \<Rightarrow> bytes \<Rightarrow> 'w \<Rightarrow> (git_error + bytes) \<times> 'w" where
  "write_blobs G [] text w = (Inr text, w)"
| "write_blobs G ((name, content) # es) text w =
     (case gt_hash_object G content w of
        (None, w1) \<Rightarrow> (Inl GitFailed, w1)
      | (Some oid, w1) \<Rightarrow>
          write_blobs G es (text @ ''100644 blob '' @ oid @ [tab] @ name @ [newline]) w1)"

definition sorted_attachments :: "attachments \<Rightarrow> attachments" where
  "sorted_attachments as =
     map (\<lambda>n. (n, case map_of as n of None \<Rightarrow> [] | Some c \<Rightarrow> c)) (sort_strings (map fst as))"

text \<open>The names are checked while they are collected, so before anything but the event is written.\<close>

definition write_payload_tree ::
  "'w git \<Rightarrow> bytes \<Rightarrow> attachments \<Rightarrow> 'w \<Rightarrow> (git_error + string) \<times> 'w" where
  "write_payload_tree G event as w =
     (case gt_hash_object G event w of
        (None, w1) \<Rightarrow> (Inl GitFailed, w1)
      | (Some event_oid, w1) \<Rightarrow>
          (let root = ''100644 blob '' @ event_oid @ [tab] @ ''event'' @ [newline];
               finish = (\<lambda>text w2. case gt_mktree G text w2 of
                           (None, w3) \<Rightarrow> (Inl GitFailed, w3) | (Some oid, w3) \<Rightarrow> (Inr oid, w3))
           in if as = [] then finish root w1
              else (case List.find (\<lambda>(n, c). \<not> attachment_name n) as of
                Some (n, c) \<Rightarrow> (Inl (InvalidAttachmentName n), w1)
              | None \<Rightarrow>
                  (case write_blobs G (sorted_attachments as) [] w1 of
                     (Inl e, w2) \<Rightarrow> (Inl e, w2)
                   | (Inr nested, w2) \<Rightarrow>
                       (case gt_mktree G nested w2 of
                          (None, w3) \<Rightarrow> (Inl GitFailed, w3)
                        | (Some subtree, w3) \<Rightarrow>
                            finish (root @ ''040000 tree '' @ subtree @ [tab]
                                     @ ''attachments'' @ [newline]) w3)))))"

text \<open>\<open>HashPayloadTree\<close>: the same object identity without writing anything.\<close>

record hash_entry = tree_entry +
  he_directory :: bool

definition entry_key :: "hash_entry \<Rightarrow> string" where
  "entry_key e = (if he_directory e then te_name e @ ''/'' else te_name e)"

fun insert_entry :: "hash_entry \<Rightarrow> hash_entry list \<Rightarrow> hash_entry list" where
  "insert_entry x [] = [x]"
| "insert_entry x (y # ys) =
     (if str_less (entry_key y) (entry_key x) then y # insert_entry x ys else x # y # ys)"

fun sort_entries :: "hash_entry list \<Rightarrow> hash_entry list" where
  "sort_entries [] = []"
| "sort_entries (x # xs) = insert_entry x (sort_entries xs)"

fun tree_content :: "hash_entry list \<Rightarrow> git_error + bytes" where
  "tree_content [] = Inr []"
| "tree_content (e # es) =
     (case hex_decode (te_oid e) of
        None \<Rightarrow> Inl (InvalidObjectId (te_oid e))
      | Some raw \<Rightarrow>
          and_then (tree_content es) (\<lambda>rest.
            Inr (te_mode e @ CHR '' '' # te_name e @ zero_byte # raw @ rest)))"

definition hash_tree :: "('l) kernel_lib_scheme \<Rightarrow> string \<Rightarrow> hash_entry list \<Rightarrow> git_error + string" where
  "hash_tree L format entries =
     and_then (tree_content (sort_entries entries)) (git_hash L format ''tree'')"

fun hash_blobs ::
  "('l) kernel_lib_scheme \<Rightarrow> string \<Rightarrow> attachments \<Rightarrow> git_error + hash_entry list" where
  "hash_blobs L format [] = Inr []"
| "hash_blobs L format ((name, content) # as) =
     and_then (git_hash L format ''blob'' content) (\<lambda>oid.
     and_then (hash_blobs L format as) (\<lambda>es.
       Inr (\<lparr>te_mode = ''100644'', te_name = name, te_oid = oid, he_directory = False\<rparr> # es)))"

definition hash_payload_tree ::
  "('l) kernel_lib_scheme \<Rightarrow> string \<Rightarrow> bytes \<Rightarrow> attachments \<Rightarrow> git_error + string" where
  "hash_payload_tree L format event as =
     and_then (git_hash L format ''blob'' event) (\<lambda>event_oid.
     and_then (if as = [] then Inr []
               else (case List.find (\<lambda>(n, c). \<not> attachment_name n) as of
                  Some (n, c) \<Rightarrow> Inl (InvalidAttachmentName n)
                | None \<Rightarrow>
                    and_then (hash_blobs L format (sorted_attachments as)) (\<lambda>entries.
                    and_then (hash_tree L format entries) (\<lambda>oid.
                      Inr [\<lparr>te_mode = ''40000'', te_name = ''attachments'', te_oid = oid,
                            he_directory = True\<rparr>]))))
       (\<lambda>sub. hash_tree L format
          (\<lparr>te_mode = ''100644'', te_name = ''event'', te_oid = event_oid, he_directory = False\<rparr> # sub)))"

section \<open>The remaining commands\<close>

definition store_head :: "'w git \<Rightarrow> string \<Rightarrow> 'w \<Rightarrow> (git_error + string) \<times> 'w" where
  "store_head G ref w = (case gt_head G ref w of (r, w1) \<Rightarrow> (of_option GitFailed r, w1))"

text \<open>\<open>Store.run\<close> trims what the command printed; \<open>CommitMessage\<close> puts one line feed back.\<close>

definition commit_message :: "'w git \<Rightarrow> string \<Rightarrow> 'w \<Rightarrow> git_error + string" where
  "commit_message G oid w =
     and_then (of_option GitFailed (gt_show G oid w)) (\<lambda>output. Inr (trim_space output @ [newline]))"

definition verify_ssh_commit :: "'w git \<Rightarrow> string \<Rightarrow> string \<Rightarrow> string \<Rightarrow> 'w \<Rightarrow> git_error + unit" where
  "verify_ssh_commit G oid who public_key w =
     and_then (parse_ssh_public_key public_key) (\<lambda>_.
       require (gt_verify_commit G oid (who @ CHR '' '' # trim_space public_key @ [newline]) w)
         GitFailed)"

end
