(* ===== verification/WorkroomViews.thy ===== *)
theory WorkroomViews
  imports WorkroomProject GitObjects
begin

text \<open>
  What readers ask of a projection: the lookups and the walk over provenance of \<open>fold.go\<close> and
  \<open>render.go\<close>, the named populations of commitments (\<open>work.go\<close>), the citations that were dead when an
  act rested on them (\<open>dead_bases.go\<close>), and the admission profile in force (\<open>admission_profile.go\<close>).
\<close>

section \<open>Words\<close>

fun status_word :: "commit_status \<Rightarrow> string" where
  "status_word StOpen = ''open''"
| "status_word StPromised = ''promised''"
| "status_word StReported = ''reported''"
| "status_word StAwaitingReview = ''awaiting-review''"
| "status_word StAwaitingAuthorization = ''awaiting-authorization''"
| "status_word StAwaitingLanding = ''awaiting-landing''"
| "status_word StSatisfied = ''satisfied''"
| "status_word StStale = ''stale''"
| "status_word StAbandoned = ''abandoned''"
| "status_word StSuperseded = ''superseded''"
| "status_word StWithdrawn = ''withdrawn''"
| "status_word StCancelled = ''cancelled''"
| "status_word StReneged = ''reneged''"

fun verdict_word :: "verdict \<Rightarrow> string" where
  "verdict_word Effective = ''effective''"
| "verdict_word Ineffective = ''ineffective''"
| "verdict_word Disputed = ''disputed''"
| "verdict_word UndefinedKind = ''undefined-kind''"
| "verdict_word Uninterpretable = ''uninterpretable''"

definition join_with :: "string \<Rightarrow> string list \<Rightarrow> string" where
  "join_with sep parts = concat (case parts of [] \<Rightarrow> [] | p # ps \<Rightarrow> p # map ((@) sep) ps)"

section \<open>Lookups\<close>

definition projected_review :: "projection \<Rightarrow> string \<Rightarrow> review_row option" where
  "projected_review p report = List.find (\<lambda>r. rv_report r = report) (pn_reviews p)"

definition projected_decision :: "projection \<Rightarrow> string \<Rightarrow> decision_row option" where
  "projected_decision p event = List.find (\<lambda>d. dr_event d = event) (pn_decisions p)"

definition sequence_of :: "projection \<Rightarrow> string \<Rightarrow> nat" where
  "sequence_of p event =
     (case map_of (rev (map (\<lambda>d. (dr_event d, dr_sequence d)) (pn_decisions p))) event of
        None \<Rightarrow> 0 | Some n \<Rightarrow> n)"

definition name_of :: "projection \<Rightarrow> string \<Rightarrow> string" where
  "name_of p event =
     (let n = sequence_of p event in
      if n > 0 then CHR ''#'' # format_uint n @ CHR '' '' # event else event)"

section \<open>Provenance\<close>

lemma marked_more: "(k :: string) \<notin> set seen \<Longrightarrow> map_of m k = Some v \<Longrightarrow>
    unvisited m (k # seen) < unvisited m seen"
  by (rule unvisited_less) simp_all

text \<open>
  The recursive \<open>walk\<close>: the list holds the events still to be walked, so that it is the stack of
  calls; an event is marked before its bases are walked.
\<close>

function (sequential) explain_walk ::
  "(string \<times> string list) list \<Rightarrow> string list \<Rightarrow> string list \<Rightarrow> string list" where
  "explain_walk provenance seen [] = []"
| "explain_walk provenance seen (current # stack) =
     (if current = [] \<or> contains seen current then explain_walk provenance seen stack
      else current #
        (case map_of provenance current of
           None \<Rightarrow> explain_walk provenance (current # seen) stack
         | Some bases \<Rightarrow> explain_walk provenance (current # seen) (bases @ stack)))"
  by pat_completeness auto

termination
  by (relation "measures [\<lambda>(provenance, seen, _). unvisited provenance seen, \<lambda>(_, _, stack). length stack]")
     (auto simp: le_less [symmetric] unvisited_le intro: marked_more)

definition explain :: "projection \<Rightarrow> string \<Rightarrow> string list" where
  "explain p event = explain_walk (pn_provenance p) [] [event]"

text \<open>\<open>RenderProvenance\<close>: the lines of the tree, each with its depth and whether it was shown before.\<close>

function (sequential) provenance_lines ::
  "(string \<times> string list) list \<Rightarrow> string list \<Rightarrow> (string \<times> nat) list \<Rightarrow> (nat \<times> string \<times> bool) list" where
  "provenance_lines provenance seen [] = []"
| "provenance_lines provenance seen ((current, depth) # stack) =
     (if current = [] then provenance_lines provenance seen stack
      else if contains seen current
      then (depth, current, True) # provenance_lines provenance seen stack
      else (depth, current, False) #
        (case map_of provenance current of
           None \<Rightarrow> provenance_lines provenance (current # seen) stack
         | Some bases \<Rightarrow>
             provenance_lines provenance (current # seen) (map (\<lambda>b. (b, Suc depth)) bases @ stack)))"
  by pat_completeness auto

termination
  by (relation "measures [\<lambda>(provenance, seen, _). unvisited provenance seen, \<lambda>(_, _, stack). length stack]")
     (auto simp: le_less [symmetric] unvisited_le intro: marked_more)

fun repeated :: "nat \<Rightarrow> string \<Rightarrow> string" where
  "repeated 0 s = []"
| "repeated (Suc n) s = s @ repeated n s"

definition render_provenance :: "projection \<Rightarrow> string \<Rightarrow> string" where
  "render_provenance p event =
     concat (map (\<lambda>(depth, e, shown). repeated depth ''  '' @ e
                    @ (if shown then '' (already shown)'' else []) @ [CHR 0x0A])
       (provenance_lines (pn_provenance p) [] [(event, 0)]))"

section \<open>The populations of commitments\<close>

definition open_lifecycles :: "string list" where
  "open_lifecycles = [''open'', ''promised'', ''reported'', ''awaiting-review'',
     ''awaiting-authorization'', ''awaiting-landing'']"

definition closed_not_completed :: "string list" where
  "closed_not_completed = [''superseded'', ''cancelled'', ''reneged'', ''withdrawn'', ''abandoned'']"

record work_summary =
  ws_commitments :: nat
  ws_open :: nat
  ws_lanes :: "(string \<times> nat) list"
  ws_completed :: nat
  ws_closed :: nat
  ws_stale :: nat
  ws_other :: nat
  ws_moved :: nat
  ws_audit :: nat

definition count_work :: "commitment \<Rightarrow> work_summary \<Rightarrow> work_summary" where
  "count_work c w =
     (let w1 = (if cm_approved_not_landed c then w\<lparr>ws_audit := ws_audit w + 1\<rparr> else w);
          word = status_word (cm_status c)
      in case map_of (ws_lanes w1) word of
           Some n \<Rightarrow> w1\<lparr>ws_open := ws_open w1 + 1, ws_lanes := put word (n + 1) (ws_lanes w1),
                       ws_moved := (if cm_stale c then ws_moved w1 + 1 else ws_moved w1)\<rparr>
         | None \<Rightarrow>
             if word = ''satisfied'' then w1\<lparr>ws_completed := ws_completed w1 + 1\<rparr>
             else if contains closed_not_completed word then w1\<lparr>ws_closed := ws_closed w1 + 1\<rparr>
             else if word = ''stale'' then w1\<lparr>ws_stale := ws_stale w1 + 1\<rparr>
             else w1\<lparr>ws_other := ws_other w1 + 1\<rparr>)"

definition work_of :: "projection \<Rightarrow> work_summary" where
  "work_of p =
     fold count_work (pn_commitments p)
       \<lparr>ws_commitments = length (pn_commitments p), ws_open = 0,
        ws_lanes = map (\<lambda>status. (status, 0)) open_lifecycles, ws_completed = 0, ws_closed = 0,
        ws_stale = 0, ws_other = 0, ws_moved = 0, ws_audit = 0\<rparr>"

definition summary :: "projection \<Rightarrow> string" where
  "summary p =
     (let words = map (\<lambda>c. status_word (cm_status c)) (pn_commitments p)
      in join_with '' '' (map (\<lambda>w. w @ ''='' @ format_uint (count_exact words w))
           (sort_strings (remdups words))))"

section \<open>Dead citations\<close>

datatype dead_basis = DeadRetired | DeadStale | DeadIneffective | DeadSupersede

definition any_statement :: "(statement_row \<Rightarrow> bool) \<Rightarrow> projection \<Rightarrow> string \<Rightarrow> bool" where
  "any_statement q p e =
     (case map_of (rev (map (\<lambda>s. (sr_event s, s)) (pn_statements p))) e of
        None \<Rightarrow> False | Some s \<Rightarrow> q s)"

definition any_artifact :: "(artifact_row \<Rightarrow> bool) \<Rightarrow> projection \<Rightarrow> string \<Rightarrow> bool" where
  "any_artifact q p e =
     (case map_of (rev (map (\<lambda>a. (at_event a, a)) (pn_artifacts p))) e of
        None \<Rightarrow> False | Some a \<Rightarrow> q a)"

definition classify_basis :: "projection \<Rightarrow> string \<Rightarrow> dead_basis option" where
  "classify_basis p e =
     (if any_statement sr_retired p e \<or> any_artifact at_retired p e then Some DeadRetired
      else if any_statement sr_stale p e \<or> any_artifact at_stale p e then Some DeadStale
      else if list_ex (\<lambda>d. dr_event d = e \<and> dr_verdict d \<noteq> Effective) (pn_decisions p)
      then Some DeadIneffective
      else if list_ex (\<lambda>a. ar_event a = e \<and> ar_supersedes a \<and> ar_verdict a = Effective) (pn_acts p)
      then Some DeadSupersede
      else None)"

definition dead_bases :: "projection \<Rightarrow> string list \<Rightarrow> (string \<times> dead_basis) list" where
  "dead_bases p rests_on =
     fold (\<lambda>e dead. case classify_basis p e of None \<Rightarrow> dead | Some why \<Rightarrow> put e why dead) rests_on []"

section \<open>One word per record\<close>

text \<open>\<open>recordStates\<close>, built by its three loops.\<close>

definition refused_states :: "projection \<Rightarrow> (string \<times> string) list" where
  "refused_states p =
     fold (\<lambda>d. if dr_verdict d \<noteq> Effective then put (dr_event d) (verdict_word (dr_verdict d)) else id)
       (pn_decisions p) []"

text \<open>A statement whose key is already present is passed over, whichever loop wrote the key.\<close>

definition statement_state :: "statement_row \<Rightarrow> (string \<times> string) list \<Rightarrow> (string \<times> string) list" where
  "statement_state s states =
     (if map_of states (sr_event s) \<noteq> None then states
      else put (sr_event s)
             (if sr_retired s then ''retired'' else if sr_stale s then ''stale'' else ''current'') states)"

definition act_word :: "act_row \<Rightarrow> string" where
  "act_word a = (if ar_supersedes a then ''supersede'' else ''ratify'') @ '' act''"

definition act_state :: "act_row \<Rightarrow> (string \<times> string) list \<Rightarrow> (string \<times> string) list" where
  "act_state a states =
     (case map_of states (ar_event a) of
        Some word \<Rightarrow> put (ar_event a) (word @ CHR '' '' # act_word a) states
      | None \<Rightarrow> put (ar_event a) (act_word a) states)"

definition record_states :: "projection \<Rightarrow> (string \<times> string) list" where
  "record_states p = fold act_state (pn_acts p) (fold statement_state (pn_statements p) (refused_states p))"

section \<open>The admission profile in force\<close>

record admission_profile =
  ap_event :: string
  ap_bundle :: string
  ap_contract :: string
  ap_genesis :: string
  ap_bootstrap :: bool

datatype profile_error = NotCanonicalHex | UnsupportedWidth nat

definition genesis_admission_contract :: string where
  "genesis_admission_contract = ''gitseq-genesis-v0''"

definition profile_body :: "string \<Rightarrow> string \<Rightarrow> bytes" where
  "profile_body empty_tree genesis =
     ''tree '' @ empty_tree @ [newline]
     @ ''author gitseq <gitseq@invalid> 0 +0000'' @ [newline]
     @ ''committer gitseq <gitseq@invalid> 0 +0000'' @ [newline, newline]
     @ ''gitseq-admission-profile-v0 '' @ genesis @ [newline]"

definition profile_object :: "string \<Rightarrow> string \<Rightarrow> bytes" where
  "profile_object empty_tree genesis =
     (let b = profile_body empty_tree genesis in
      ''commit '' @ format_uint (length b) @ zero_byte # b)"

definition bootstrap_admission_profile_oid ::
  "('l) kernel_lib_scheme \<Rightarrow> string \<Rightarrow> profile_error + string" where
  "bootstrap_admission_profile_oid K genesis =
     (case hex_decode genesis of
        None \<Rightarrow> Inl NotCanonicalHex
      | Some decoded \<Rightarrow>
          if hex_encode decoded \<noteq> genesis then Inl NotCanonicalHex
          else if length decoded = 20
          then Inr (hex_encode (kl_sha1 K
                 (profile_object ''4b825dc642cb6eb9a060e54bf8d69288fbee4904'' genesis)))
          else if length decoded = 32
          then Inr (hex_encode (kl_sha256 K
                 (profile_object ''6ef19b41225c5369f1c104d45d8d85efa9b057b53b14b4b9b939dd74decc5321''
                    genesis)))
          else Inl (UnsupportedWidth (length decoded)))"

definition activates :: "fold_state \<Rightarrow> string \<Rightarrow> parsed_record \<Rightarrow> bool" where
  "activates f genesis r \<longleftrightarrow>
     (case state_of r of
        None \<Rightarrow> False
      | Some s \<Rightarrow>
          st_kind s = kind_admission_profile \<and> pr_verdict r = Effective
          \<and> body_get (st_body s) ''genesis'' = genesis
          \<and> \<not> is_retired f (pr_id r) \<and> is_ratified f (pr_id r))"

definition admission_profile_of ::
  "('l) kernel_lib_scheme \<Rightarrow> fold_state \<Rightarrow> string \<Rightarrow> profile_error + admission_profile" where
  "admission_profile_of K f genesis =
     (case List.find (activates f genesis) (rev (fs_records f)) of
        Some r \<Rightarrow> Inr \<lparr>ap_event = pr_id r, ap_bundle = state_field r ''bundle'',
                        ap_contract = state_field r ''contract'', ap_genesis = genesis,
                        ap_bootstrap = False\<rparr>
      | None \<Rightarrow> map_sum (\<lambda>e. e) (\<lambda>bundle.
                  \<lparr>ap_event = [], ap_bundle = bundle, ap_contract = genesis_admission_contract,
                   ap_genesis = genesis, ap_bootstrap = True\<rparr>)
                  (bootstrap_admission_profile_oid K genesis))"

definition select_admission_profile ::
  "('l) fold_lib_scheme \<Rightarrow> ('k) kernel_lib_scheme \<Rightarrow> log_record list \<Rightarrow> string \<Rightarrow>
   (profile_error + admission_profile) option" where
  "select_admission_profile L K records genesis =
     map_option (\<lambda>f. admission_profile_of K f genesis) (new_folder L records)"

definition resolve_admission_profile ::
  "('l) fold_lib_scheme \<Rightarrow> ('k) kernel_lib_scheme \<Rightarrow> log_record list \<Rightarrow> string \<Rightarrow>
   (string \<Rightarrow> bool) option \<Rightarrow> (profile_error + admission_profile \<times> bool) option" where
  "resolve_admission_profile L K records genesis interpreter =
     map_option (map_sum (\<lambda>e. e) (\<lambda>profile.
         (profile, case interpreter of None \<Rightarrow> False | Some held \<Rightarrow> held (ap_contract profile))))
       (select_admission_profile L K records genesis)"

end
