(* ===== verification/EventRefs.thy ===== *)
theory EventRefs
  imports WorkroomViews
begin

text \<open>
  Event references at a human-input boundary (\<open>internal/eventref\<close>): how a typed string is classified,
  the searchable set built from a projection, the resolution of a record number or a hash fragment,
  and the resolver that answers every reference of one act from one set. The identifier syntax is
  that of \<open>host/identifier.go\<close>. A refusal is a value; the sentence \<open>Refusal.Error\<close> prints for it is
  not modelled.
\<close>

section \<open>Identifiers\<close>

definition event_object_name :: "string \<Rightarrow> string option" where
  "event_object_name token =
     (case split_char (CHR '':'') token of
        [git, format, oid] \<Rightarrow>
          if git \<noteq> ''git'' then None
          else if format = ''sha1'' \<or> format = ''sha256'' then
            (if length oid \<noteq> (if format = ''sha1'' then 40 else 64) \<or> \<not> list_all is_lower_hex oid
             then None else Some format)
          else None
      | _ \<Rightarrow> None)"

definition valid_event_id :: "string \<Rightarrow> bool" where
  "valid_event_id token \<longleftrightarrow>
     (case split_char (CHR ''#'') token of
        [genesis, event] \<Rightarrow>
          event_object_name genesis \<noteq> None \<and> event_object_name event = event_object_name genesis
      | _ \<Rightarrow> False)"

definition event_id :: "string \<Rightarrow> string \<Rightarrow> string \<Rightarrow> string" where
  "event_id format genesis event =
     ''git:'' @ format @ CHR '':'' # genesis @ ''#git:'' @ format @ CHR '':'' # event"

section \<open>The room and the forms of a reference\<close>

datatype form = FormOpaque | FormCanonical | FormExternal | FormNumber | FormHash

record room =
  rm_genesis :: string
  rm_format :: string

definition hash_width :: "room \<Rightarrow> nat" where
  "hash_width r = (if rm_format r = ''sha256'' then 64 else 40)"

definition room_prefix :: "room \<Rightarrow> string" where
  "room_prefix r = ''git:'' @ rm_format r @ CHR '':'' # rm_genesis r @ ''#''"

definition genesis_event :: "room \<Rightarrow> string" where
  "genesis_event r = room_prefix r @ ''git:'' @ rm_format r @ CHR '':'' # rm_genesis r"

definition hash_fragment :: "room \<Rightarrow> string \<Rightarrow> bool" where
  "hash_fragment r selector \<longleftrightarrow>
     selector \<noteq> [] \<and> length selector \<le> hash_width r \<and> list_all is_lower_hex selector"

definition form_of :: "room \<Rightarrow> string \<Rightarrow> form" where
  "form_of r selector =
     (if selector = [] then FormOpaque
      else if has_prefix ''#'' selector then FormNumber
      else if valid_event_id selector then
        (if has_prefix (room_prefix r) selector then FormCanonical else FormExternal)
      else if hash_fragment r selector then FormHash
      else FormOpaque)"

section \<open>The searchable set\<close>

definition max_candidates :: nat where "max_candidates = 8"

record named_event =
  ne_sequence :: nat
  ne_id :: string
  ne_hash :: string

record event_set =
  es_room :: room
  es_held :: "string list"
  es_events :: "named_event list"
  es_highest :: nat

definition new_membership :: "projection \<Rightarrow> string list" where
  "new_membership p = map dr_event (pn_decisions p)"

definition unresolved :: "string list \<Rightarrow> string list \<Rightarrow> string list" where
  "unresolved held rests_on = filter (\<lambda>b. \<not> contains held b) rests_on"

definition named_event_of :: "room \<Rightarrow> decision_row \<Rightarrow> named_event" where
  "named_event_of r d =
     \<lparr>ne_sequence = dr_sequence d, ne_id = dr_event d,
      ne_hash = trim_prefix (''git:'' @ rm_format r @ '':'') (trim_prefix (room_prefix r) (dr_event d))\<rparr>"

definition from_projection :: "room \<Rightarrow> projection \<Rightarrow> event_set" where
  "from_projection r p =
     \<lparr>es_room = r, es_held = new_membership p,
      es_events = map (named_event_of r) (pn_decisions p),
      es_highest = foldl (\<lambda>highest d. if dr_sequence d > highest then dr_sequence d else highest) 0
                     (pn_decisions p)\<rparr>"

text \<open>\<open>bySequence\<close>: the entry a number names is the last one written under it.\<close>

definition by_sequence :: "event_set \<Rightarrow> nat \<Rightarrow> named_event option" where
  "by_sequence s n = map_of (rev (map (\<lambda>e. (ne_sequence e, e)) (es_events s))) n"

definition resolvable :: "event_set \<Rightarrow> string \<Rightarrow> bool" where
  "resolvable s i \<longleftrightarrow> contains (es_held s) i \<or> i = genesis_event (es_room s)"

section \<open>Resolution\<close>

datatype refusal_detail =
  NotARecordNumber nat | NamesNoRecord nat | MatchesNoHash | MatchesMany nat

record refusal =
  rf_selector :: string
  rf_detail :: refusal_detail
  rf_candidates :: "named_event list"
  rf_omitted :: nat

definition refuse :: "string \<Rightarrow> refusal_detail \<Rightarrow> refusal + 'a" where
  "refuse selector why =
     Inl \<lparr>rf_selector = selector, rf_detail = why, rf_candidates = [], rf_omitted = 0\<rparr>"

definition print_number :: "int \<Rightarrow> string" where
  "print_number n = (if n < 0 then CHR ''-'' # format_uint (nat (- n)) else format_uint (nat n))"

definition resolve_number :: "event_set \<Rightarrow> string \<Rightarrow> refusal + string" where
  "resolve_number s selector =
     (let digits = trim_prefix ''#'' selector in
      case parse_int digits of
        None \<Rightarrow> refuse selector (NotARecordNumber (es_highest s))
      | Some number \<Rightarrow>
          if digits \<noteq> print_number number \<or> number < 1
          then refuse selector (NotARecordNumber (es_highest s))
          else (case by_sequence s (nat number) of
                  None \<Rightarrow> refuse selector (NamesNoRecord (es_highest s))
                | Some e \<Rightarrow> Inr (ne_id e)))"

definition matches :: "string \<Rightarrow> named_event \<Rightarrow> bool" where
  "matches selector e \<longleftrightarrow> has_prefix selector (ne_hash e) \<or> has_suffix selector (ne_hash e)"

definition resolve_hash :: "event_set \<Rightarrow> string \<Rightarrow> refusal + string" where
  "resolve_hash s selector =
     (let matched = filter (matches selector) (es_events s) in
      case matched of
        [] \<Rightarrow> refuse selector MatchesNoHash
      | [e] \<Rightarrow> Inr (ne_id e)
      | _ \<Rightarrow> Inl \<lparr>rf_selector = selector, rf_detail = MatchesMany (length matched),
                   rf_candidates = take max_candidates (sort_key ne_sequence matched),
                   rf_omitted = length matched - max_candidates\<rparr>)"

definition resolve :: "event_set \<Rightarrow> string \<Rightarrow> refusal + string" where
  "resolve s selector =
     (case form_of (es_room s) selector of
        FormNumber \<Rightarrow> resolve_number s selector
      | FormHash \<Rightarrow> resolve_hash s selector
      | _ \<Rightarrow> Inr selector)"

section \<open>The references of one act\<close>

text \<open>
  Reading the verified set is a parameter: it takes the world as it is and gives an answer and the
  world after it, so that a model of it may count its calls.
\<close>

datatype 'e reference_error = SetUnread string 'e | Refused refusal | BodyField string "'e reference_error"

record 'e resolver =
  rl_room :: room
  rl_set :: "event_set option"
  rl_failed :: "'e option"
  rl_lines :: "string list"
  rl_said :: "string list"

definition new_resolver :: "room \<Rightarrow> 'e resolver" where
  "new_resolver r = \<lparr>rl_room = r, rl_set = None, rl_failed = None, rl_lines = [], rl_said = []\<rparr>"

definition set_or_zero :: "'e resolver \<Rightarrow> event_set" where
  "set_or_zero r =
     (case rl_set r of
        None \<Rightarrow> \<lparr>es_room = rl_room r, es_held = [], es_events = [], es_highest = 0\<rparr>
      | Some s \<Rightarrow> s)"

definition read_set :: "('w \<Rightarrow> ('e + event_set) \<times> 'w) \<Rightarrow> 'e resolver \<Rightarrow> 'w \<Rightarrow>
   (event_set \<times> 'e option) \<times> 'e resolver \<times> 'w" where
  "read_set load r w =
     (let (r1, w1) = (if rl_set r = None \<and> rl_failed r = None
                      then (case load w of
                              (Inl why, w') \<Rightarrow> (r\<lparr>rl_failed := Some why\<rparr>, w')
                            | (Inr s, w') \<Rightarrow> (r\<lparr>rl_set := Some s\<rparr>, w'))
                      else (r, w))
      in ((set_or_zero r1, rl_failed r1), r1, w1))"

definition resolve_one :: "('w \<Rightarrow> ('e + event_set) \<times> 'w) \<Rightarrow> string \<Rightarrow> 'e resolver \<Rightarrow> 'w \<Rightarrow>
   ('e reference_error + string) \<times> 'e resolver \<times> 'w" where
  "resolve_one load selector r w =
     (if form_of (rl_room r) selector \<noteq> FormNumber \<and> form_of (rl_room r) selector \<noteq> FormHash
      then (Inr selector, r, w)
      else (case read_set load r w of
              ((s, Some why), r1, w1) \<Rightarrow> (Inl (SetUnread selector why), r1, w1)
            | ((s, None), r1, w1) \<Rightarrow>
                (case resolve s selector of
                   Inl no \<Rightarrow> (Inl (Refused no), r1, w1)
                 | Inr resolved \<Rightarrow>
                     (Inr resolved,
                      if contains (rl_said r1) selector then r1
                      else r1\<lparr>rl_said := selector # rl_said r1,
                              rl_lines := rl_lines r1 @
                                [''resolved '' @ selector @ '' -> '' @ resolved]\<rparr>,
                      w1))))"

fun resolve_many :: "('w \<Rightarrow> ('e + event_set) \<times> 'w) \<Rightarrow> string list \<Rightarrow> 'e resolver \<Rightarrow> 'w \<Rightarrow>
   ('e reference_error + string list) \<times> 'e resolver \<times> 'w" where
  "resolve_many load [] r w = (Inr [], r, w)"
| "resolve_many load (selector # selectors) r w =
     (case resolve_one load selector r w of
        (Inl why, r1, w1) \<Rightarrow> (Inl why, r1, w1)
      | (Inr one, r1, w1) \<Rightarrow>
          (case resolve_many load selectors r1 w1 of
             (Inl why, r2, w2) \<Rightarrow> (Inl why, r2, w2)
           | (Inr rest, r2, w2) \<Rightarrow> (Inr (one # rest), r2, w2)))"

definition event_body_fields :: "string list" where
  "event_body_fields = [''artifact'', ''authorizes_request'', ''authorizes_approval'',
     ''merge_approval'', ''merge_authorization'', ''merge_authorization_ratification'']"

text \<open>\<open>Body\<close> works in place: a refusal leaves the fields before it rewritten.\<close>

fun resolve_fields :: "('w \<Rightarrow> ('e + event_set) \<times> 'w) \<Rightarrow> string list \<Rightarrow> body_map \<Rightarrow> 'e resolver \<Rightarrow> 'w \<Rightarrow>
   'e reference_error option \<times> body_map \<times> 'e resolver \<times> 'w" where
  "resolve_fields load [] b r w = (None, b, r, w)"
| "resolve_fields load (field # rest) b r w =
     (if body_get b field = [] then resolve_fields load rest b r w
      else (case resolve_one load (body_get b field) r w of
              (Inl why, r1, w1) \<Rightarrow> (Some (BodyField field why), b, r1, w1)
            | (Inr resolved, r1, w1) \<Rightarrow> resolve_fields load rest (put field resolved b) r1 w1))"

definition resolve_body :: "('w \<Rightarrow> ('e + event_set) \<times> 'w) \<Rightarrow> body_map \<Rightarrow> 'e resolver \<Rightarrow> 'w \<Rightarrow>
   'e reference_error option \<times> body_map \<times> 'e resolver \<times> 'w" where
  "resolve_body load b r w = resolve_fields load event_body_fields b r w"

section \<open>Notes about citations\<close>

datatype basis_note = NotAnIdentifier string | OtherWorkroom string | NamesNoEvent string

fun notes_from :: "event_set \<Rightarrow> string list \<Rightarrow> string list \<Rightarrow> basis_note list" where
  "notes_from s said [] = []"
| "notes_from s said (basis # rest) =
     (if basis = [] \<or> contains said basis then notes_from s said rest
      else (case form_of (es_room s) basis of
              FormOpaque \<Rightarrow> [NotAnIdentifier basis]
            | FormExternal \<Rightarrow> [OtherWorkroom basis]
            | FormCanonical \<Rightarrow> if resolvable s basis then [] else [NamesNoEvent basis]
            | _ \<Rightarrow> []) @ notes_from s (basis # said) rest)"

definition basis_notes :: "event_set \<Rightarrow> string list \<Rightarrow> basis_note list" where
  "basis_notes s rests_on = notes_from s [] rests_on"

end
