(* ===== verification/ProjectFacts.thy ===== *)
theory ProjectFacts
  imports FoldIndex WorkroomViews
begin

text \<open>
  What the projection shows against the log it shows. The resumed walks \<open>receiptScans\<close> answer as a
  plain selection of the log; the running counts and maps that \<open>project\<close> fills are selections as
  well; so each figure on a row is a closed expression over the records.
\<close>

section \<open>The plain answer to a receipt's question\<close>

definition attaches :: "('l) fold_lib_scheme \<Rightarrow> parsed_record \<Rightarrow> string \<Rightarrow> parsed_record \<Rightarrow> bool" where
  "attaches L receipt path r \<longleftrightarrow>
     accounts_for receipt r
     \<and> closest_covering_path (merge_successor_paths L receipt) (state_field r ''path'') = path"

definition covered_at :: "fold_state \<Rightarrow> nat \<Rightarrow> covered_artifact" where
  "covered_at f i =
     \<lparr>ca_index = i, ca_event = pr_id (fs_records f ! i),
      ca_retired = is_retired f (pr_id (fs_records f ! i))\<rparr>"

definition bucket :: "('l) fold_lib_scheme \<Rightarrow> fold_state \<Rightarrow> parsed_record \<Rightarrow> string \<Rightarrow> nat \<Rightarrow>
   covered_artifact list" where
  "bucket L f receipt path limit =
     map (covered_at f) (filter (\<lambda>i. attaches L receipt path (fs_records f ! i))
       [Suc (pr_index receipt)..<limit])"

definition plain_accounting :: "('l) fold_lib_scheme \<Rightarrow> fold_state \<Rightarrow> parsed_record \<Rightarrow> parsed_record \<Rightarrow>
   string \<Rightarrow> nat \<times> string list" where
  "plain_accounting L f receipt successor path =
     (let covered = bucket L f receipt path (pr_index successor)
      in (length covered, map ca_event (filter (\<lambda>c. \<not> ca_retired c) covered)))"

lemma listed_put [simp]: "listed k (put k' vs m) = (if k = k' then vs else listed k m)"
  by (simp add: listed_def map_of_put)

lemma listed_enlist [simp]:
  "listed k (enlist k' v m) = listed k m @ (if k = k' then [v] else [])"
  by (simp add: enlist_def)

lemma listed_Nil [simp]: "listed k [] = []"
  by (simp add: listed_def)

section \<open>The memo\<close>

text \<open>An entry is good when it is what a walk from the frontier to its cursor would have found.\<close>

definition scan_good :: "('l) fold_lib_scheme \<Rightarrow> fold_state \<Rightarrow> parsed_record \<Rightarrow> receipt_scan \<Rightarrow> bool" where
  "scan_good L f receipt scan \<longleftrightarrow>
     Suc (pr_index receipt) \<le> rs_cursor scan \<and> rs_successors scan = merge_successor_paths L receipt
     \<and> (\<forall>path. listed path (rs_by_path scan) = bucket L f receipt path (rs_cursor scan))"

definition scans_good :: "('l) fold_lib_scheme \<Rightarrow> fold_state \<Rightarrow> receipt_scans \<Rightarrow> bool" where
  "scans_good L f scans \<longleftrightarrow>
     (\<forall>i scan. map_of scans i = Some scan \<longrightarrow>
        (\<exists>receipt. lookup f i = Some receipt \<and> scan_good L f receipt scan))"

lemma scan_step_good: "scan_good L f receipt scan \<Longrightarrow> scan_good L f receipt (scan_step f receipt scan)"
  by (auto simp: scan_good_def scan_step_def Let_def bucket_def attaches_def covered_at_def)

lemma scan_walk_good:
  "scan_good L f receipt scan \<Longrightarrow> scan_good L f receipt ((scan_step f receipt ^^ n) scan)
    \<and> rs_cursor ((scan_step f receipt ^^ n) scan) = rs_cursor scan + n"
proof (induction n)
  case (Suc n)
  have "rs_cursor (scan_step f receipt s) = Suc (rs_cursor s)" for s
    by (simp add: scan_step_def Let_def)
  with Suc show ?case
    by (simp add: scan_step_good)
qed simp

lemma up_to_good:
  assumes good: "scans_good L f scans" and receipt: "lookup f (pr_id receipt) = Some receipt"
    and answer: "up_to L f receipt limit scans = (by_path, scans')"
  obtains reached where "limit \<le> reached" "\<And>path. listed path by_path = bucket L f receipt path reached"
    "scans_good L f scans'"
proof -
  define start where "start = (case map_of scans (pr_id receipt) of
      Some scan \<Rightarrow> scan
    | None \<Rightarrow> \<lparr>rs_cursor = Suc (pr_index receipt), rs_successors = merge_successor_paths L receipt,
               rs_by_path = []\<rparr>)"
  define scan where "scan = (scan_step f receipt ^^ (limit - rs_cursor start)) start"
  have "scan_good L f receipt start"
  proof (cases "map_of scans (pr_id receipt)")
    case None
    then show ?thesis
      by (simp add: start_def scan_good_def bucket_def)
  next
    case (Some scan0)
    then show ?thesis
      using good receipt unfolding scans_good_def start_def by fastforce
  qed
  then have walked: "scan_good L f receipt scan" "limit \<le> rs_cursor scan"
    unfolding scan_def using scan_walk_good [of L f receipt start "limit - rs_cursor start"] by auto
  moreover have "by_path = rs_by_path scan" "scans' = put (pr_id receipt) scan scans"
    using answer by (simp_all add: up_to_def Let_def scan_def start_def)
  ultimately show ?thesis
    using good receipt by (intro that [of "rs_cursor scan"]) (auto simp: scan_good_def scans_good_def map_of_put)
qed

lemma takeWhile_below:
  "k \<le> m \<Longrightarrow> takeWhile (\<lambda>c. ca_index c < k) (bucket L f receipt path m) = bucket L f receipt path k"
proof -
  assume "k \<le> m"
  have below: "takeWhile (\<lambda>i. i < k) (filter P [a..<m]) = filter P [a..<k]" for P and a
  proof (cases "a \<le> k")
    case True
    then have "[a..<m] = [a..<k] @ [k..<m]"
      using \<open>k \<le> m\<close> by (metis le_iff_add upt_add_eq_append)
    moreover have "takeWhile (\<lambda>i. i < k) (filter P [b..<m]) = []" if "k \<le> b" for b
      using that by (simp add: takeWhile_eq_Nil_iff) (metis atLeastLessThan_iff filter_is_subset
        hd_in_set leD order_trans set_upt subsetD)
    ultimately show ?thesis
      using takeWhile_append2 [of "filter P [a..<k]" "\<lambda>i. i < k" "filter P [k..<m]"] by simp
  next
    case False
    then have "\<forall>i \<in> set (filter P [a..<m]). \<not> i < k"
      by simp
    then show ?thesis
      using False hd_in_set [of "filter P [a..<m]"] by (auto simp: takeWhile_eq_Nil_iff)
  qed
  show ?thesis
    unfolding bucket_def takeWhile_map by (simp add: comp_def covered_at_def below)
qed

lemma accounting_plain:
  assumes "scans_good L f scans" and "lookup f (pr_id receipt) = Some receipt"
    and "post_receipt_accounting L f receipt successor path scans = (answer, scans')"
  shows "answer = plain_accounting L f receipt successor path \<and> scans_good L f scans'"
proof (cases "pr_index successor \<le> pr_index receipt + 1")
  case True
  then have "bucket L f receipt path (pr_index successor) = []"
    by (simp add: bucket_def)
  then show ?thesis
    using assms True by (auto simp: post_receipt_accounting_def plain_accounting_def)
next
  case False
  obtain by_path scans1 where up: "up_to L f receipt (pr_index successor) scans = (by_path, scans1)"
    by fastforce
  from up_to_good [OF assms(1,2) up] obtain reached where
    "pr_index successor \<le> reached" "listed path by_path = bucket L f receipt path reached"
    "scans_good L f scans1"
    by metis
  then show ?thesis
    using assms(3) False up takeWhile_below [of "pr_index successor" reached L f receipt path]
    by (auto simp: post_receipt_accounting_def plain_accounting_def Let_def)
qed

section \<open>One step of the projection\<close>

definition stands :: "parsed_record \<Rightarrow> bool" where
  "stands r \<longleftrightarrow> pr_verdict r = Effective \<and> renders_artifact r \<and> state_of r \<noteq> None"

lemma left_live_receipt_found:
  "left_live_receipt_for f r = Some receipt \<Longrightarrow> \<exists>e. lookup f e = Some receipt"
proof -
  have "receipt_from f r latest bases = Some receipt \<Longrightarrow>
      (\<And>x. latest = Some x \<Longrightarrow> \<exists>e. lookup f e = Some x) \<Longrightarrow> \<exists>e. lookup f e = Some receipt"
    for latest bases
    by (induction f r latest bases rule: receipt_from.induct) (auto split: option.splits if_splits)
  then show "left_live_receipt_for f r = Some receipt \<Longrightarrow> ?thesis"
    by (auto simp: left_live_receipt_for_def)
qed

lemma succession_frame:
  "succession_of L f r path g = (n, rows, g1) \<Longrightarrow>
    \<exists>scans ps ds. g1 = g\<lparr>pg_scans := scans, pg_protected := ps, pg_debts := ds\<rparr>"
proof -
  assume *: "succession_of L f r path g = (n, rows, g1)"
  have "g1 = g\<lparr>pg_scans := pg_scans g1, pg_protected := pg_protected g1, pg_debts := pg_debts g1\<rparr>"
    using * by (auto simp: succession_of_def Let_def split: option.splits prod.splits if_splits)
  then show ?thesis
    by blast
qed

definition reviews_of :: "parsed_record \<Rightarrow> state_payload list" where
  "reviews_of r = (case state_of r of None \<Rightarrow> [] | Some s \<Rightarrow> if is_review r s then [s] else [])"

lemma project_step_fields:
  "pg_decisions (project_step L f succeeded pass r g) = pg_decisions g @ [decision_row_of r]"
  "pg_reviewed (project_step L f succeeded pass r g) =
     (if stands r then note_artifact r (the (state_of r)) (pg_reviewed g) else pg_reviewed g)"
  "pg_live (project_step L f succeeded pass r g) =
     (if stands r \<and> \<not> is_retired f (pr_id r)
      then enlist (state_field r ''path'') (pr_id r) (pg_live g) else pg_live g)"
  "pg_reviews (project_step L f succeeded pass r g) =
     pg_reviews g @ map (review_row_of f pass r) (reviews_of r)"
  "pg_bases (project_step L f succeeded pass r g) = pg_bases g @ map (review_basis_of r) (reviews_of r)"
  by (auto simp: project_step_def project_record_def project_statement_def project_artifact_def
      project_review_def stands_def state_field_def reviews_of_def Let_def split: option.split prod.split
      dest!: succession_frame)

section \<open>Live predecessors\<close>

definition live_beside :: "fold_state \<Rightarrow> parsed_record \<Rightarrow> parsed_record \<Rightarrow> bool" where
  "live_beside f r other \<longleftrightarrow>
     stands other \<and> \<not> is_retired f (pr_id other) \<and> state_field other ''path'' = state_field r ''path''"

text \<open>
  How many live predecessors an artifact leaves: what its receipt sealed as unaccounted and what
  the log put between the two, less the deletions the receipt accounted for; or, without such a
  receipt, the live artifacts before it at its path.
\<close>

definition predecessors_of :: "('l) fold_lib_scheme \<Rightarrow> fold_state \<Rightarrow> parsed_record list \<Rightarrow> parsed_record \<Rightarrow> nat" where
  "predecessors_of L f before r =
     (case left_live_receipt_for f r of
        None \<Rightarrow> length (filter (live_beside f r) before)
      | Some receipt \<Rightarrow>
          (let path = state_field r ''path'' in
           unaccounted_at receipt path + fst (plain_accounting L f receipt r path)
             - accounted_deletions f receipt path))"

definition predecessor_figures :: "('l) fold_lib_scheme \<Rightarrow> fold_state \<Rightarrow> parsed_record list \<Rightarrow>
   (string \<times> nat \<times> bool) list" where
  "predecessor_figures L f rs =
     map (\<lambda>i. let n = predecessors_of L f (take i rs) (rs ! i) in (pr_id (rs ! i), n, n > 0))
       (filter (\<lambda>i. stands (rs ! i)) [0..<length rs])"

definition shown_figures :: "artifact_row list \<Rightarrow> (string \<times> nat \<times> bool) list" where
  "shown_figures rows = map (\<lambda>a. (at_event a, at_predecessors a, at_unrecorded a)) rows"

lemma predecessor_figures_snoc:
  "predecessor_figures L f (rs @ [r]) = predecessor_figures L f rs
     @ (if stands r then let n = predecessors_of L f rs r in [(pr_id r, n, n > 0)] else [])"
proof -
  have "filter (\<lambda>i. stands ((rs @ [r]) ! i)) [0..<length rs] = filter (\<lambda>i. stands (rs ! i)) [0..<length rs]"
    by (rule filter_cong) (simp_all add: nth_append)
  then show ?thesis
    by (auto simp: predecessor_figures_def nth_append Let_def)
qed

lemma succession_plain:
  assumes "log_inv f" and "scans_good L f (pg_scans g)"
    and "\<And>path. length (listed path (pg_live g)) =
      length (filter (\<lambda>o'. stands o' \<and> \<not> is_retired f (pr_id o') \<and> state_field o' ''path'' = path) before)"
    and "succession_of L f r (state_field r ''path'') g = (n, rows, g1)"
  shows "n = predecessors_of L f before r \<and> scans_good L f (pg_scans g1)"
proof (cases "left_live_receipt_for f r")
  case None
  then show ?thesis
    using assms(2-4) by (simp add: succession_of_def predecessors_of_def live_beside_def [abs_def])
next
  case (Some receipt)
  have found: "lookup f (pr_id receipt) = Some receipt"
    using left_live_receipt_found [OF Some] log_inv_lookup(1) [OF assms(1)] by auto
  obtain answer scans where asked:
    "post_receipt_accounting L f receipt r (state_field r ''path'') (pg_scans g) = (answer, scans)"
    by fastforce
  show ?thesis
    using assms(4) Some accounting_plain [OF assms(2) found asked] asked
    by (auto simp: succession_of_def predecessors_of_def Let_def split: prod.splits if_splits)
qed

lemma projected_figures:
  fixes L :: "('l) fold_lib_scheme" and succeeded pass
  assumes "log_inv f"
  defines "step \<equiv> project_step L f succeeded pass"
  shows "scans_good L f (pg_scans (fold step rs nothing_projected))
    \<and> (\<forall>path. listed path (pg_live (fold step rs nothing_projected)) =
         map pr_id (filter (\<lambda>r. stands r \<and> \<not> is_retired f (pr_id r) \<and> state_field r ''path'' = path) rs))
    \<and> shown_figures (pg_artifacts (fold step rs nothing_projected)) = predecessor_figures L f rs"
proof (induction rs rule: rev_induct)
  case Nil
  then show ?case
    by (simp add: nothing_projected_def scans_good_def shown_figures_def predecessor_figures_def)
next
  case (snoc r rs)
  define g where "g = fold step rs nothing_projected"
  have good: "scans_good L f (pg_scans g)"
    and live: "listed path (pg_live g) =
      map pr_id (filter (\<lambda>r. stands r \<and> \<not> is_retired f (pr_id r) \<and> state_field r ''path'' = path) rs)"
    and figures: "shown_figures (pg_artifacts g) = predecessor_figures L f rs" for path
    using snoc by (simp_all add: g_def)
  have "scans_good L f (pg_scans (step r g))
      \<and> shown_figures (pg_artifacts (step r g)) = predecessor_figures L f (rs @ [r])"
  proof (cases "stands r")
    case False
    then have "pg_scans (step r g) = pg_scans g" "pg_artifacts (step r g) = pg_artifacts g"
      by (auto simp: step_def project_step_def project_record_def project_statement_def
          project_review_def stands_def Let_def split: option.split)
    with False good figures show ?thesis
      by (simp add: predecessor_figures_snoc)
  next
    case True
    then obtain s where s: "state_of r = Some s"
      by (auto simp: stands_def)
    define g' where "g' = project_record r g
      \<lparr>pg_statements := pg_statements (project_record r g) @ [statement_row_of f pass r s],
       pg_opaque := pg_opaque (project_record r g)\<rparr>"
    have path: "body_get (st_body s) ''path'' = state_field r ''path''"
      using s by (simp add: state_field_def)
    obtain n rows g1 where succ: "succession_of L f r (state_field r ''path'') g' = (n, rows, g1)"
      using prod_cases3 by blast
    have same: "pg_scans g' = pg_scans g" "pg_live g' = pg_live g" "pg_artifacts g' = pg_artifacts g"
      by (simp_all add: g'_def project_record_def)
    have plain: "n = predecessors_of L f rs r \<and> scans_good L f (pg_scans g1)"
      by (rule succession_plain [OF assms(1) _ _ succ]) (simp_all only: same good live length_map)
    have "pg_artifacts g1 = pg_artifacts g"
      using succession_frame [OF succ] same(3) by auto
    moreover have "pg_scans (step r g) = pg_scans g1"
      "shown_figures (pg_artifacts (step r g)) = shown_figures (pg_artifacts g1) @ [(pr_id r, n, n > 0)]"
      using True succ by (simp_all add: step_def project_step_def s project_statement_def Let_def
          stands_def project_artifact_def project_review_def path shown_figures_def g'_def)
    ultimately show ?thesis
      using plain figures True by (simp add: predecessor_figures_snoc Let_def)
  qed
  moreover have "listed path (pg_live (step r g)) = map pr_id
      (filter (\<lambda>r. stands r \<and> \<not> is_retired f (pr_id r) \<and> state_field r ''path'' = path) (rs @ [r]))" for path
    using live [of path] by (simp add: step_def project_step_fields(3))
  moreover have "fold step (rs @ [r]) nothing_projected = step r g"
    by (simp add: g_def)
  ultimately show ?case
    by simp
qed

section \<open>Reviews\<close>

text \<open>What the three indexes of artifacts hold after a prefix of the log.\<close>

definition reviewed_in :: "parsed_record list \<Rightarrow> reviewed \<Rightarrow> bool" where
  "reviewed_in rs d \<longleftrightarrow>
     (\<forall>e a. map_of (rd_implementers d) e = Some a \<longrightarrow> (\<exists>r \<in> set rs. stands r \<and> pr_id r = e \<and> pr_actor r = a))
     \<and> (\<forall>r \<in> set rs. stands r \<longrightarrow> body_has (rd_implementers d) (pr_id r))
     \<and> (\<forall>e c. map_of (rd_commits d) e = Some c \<longrightarrow>
          (\<exists>r \<in> set rs. stands r \<and> pr_id r = e \<and> state_field r ''commit'' = c))
     \<and> (\<forall>c. c \<noteq> [] \<longrightarrow> listed c (rd_by_commit d) =
          map pr_id (filter (\<lambda>r. stands r \<and> state_field r ''commit'' = c) rs))"

lemma reviewed_in_note:
  assumes "reviewed_in rs d" and "stands r"
  shows "reviewed_in (rs @ [r]) (note_artifact r (the (state_of r)) d)"
proof -
  obtain s where s: "state_of r = Some s"
    using assms(2) by (auto simp: stands_def)
  then have commit: "body_get (st_body s) ''commit'' = state_field r ''commit''"
    by (simp add: state_field_def)
  show ?thesis
    using assms unfolding reviewed_in_def
    by (intro conjI) (auto simp: note_artifact_def Let_def s commit map_of_put body_has_def
        split: if_splits)
qed

lemma reviewed_in_other: "reviewed_in rs d \<Longrightarrow> \<not> stands r \<Longrightarrow> reviewed_in (rs @ [r]) d"
  unfolding reviewed_in_def by (intro conjI) auto

lemma projected_reviews:
  "reviewed_in rs (pg_reviewed (fold (project_step L f succeeded pass) rs nothing_projected))
   \<and> pg_reviews (fold (project_step L f succeeded pass) rs nothing_projected) =
       concat (map (\<lambda>r. map (review_row_of f pass r) (reviews_of r)) rs)
   \<and> pg_bases (fold (project_step L f succeeded pass) rs nothing_projected) =
       concat (map (\<lambda>r. map (review_basis_of r) (reviews_of r)) rs)"
proof (induction rs rule: rev_induct)
  case Nil
  then show ?case
    by (simp add: nothing_projected_def reviewed_in_def)
next
  case (snoc r rs)
  then show ?case
    by (simp add: project_step_fields reviewed_in_note reviewed_in_other)
qed

lemma resolved_reviews:
  "set (resolve_reviews d (concat (map (\<lambda>r. map (row r) (reviews_of r)) rs))
      (concat (map (\<lambda>r. map (basis r) (reviews_of r)) rs))) =
    {resolve_review d (basis r s) (row r s) | r s. r \<in> set rs \<and> s \<in> set (reviews_of r)}"
proof -
  have zipped: "zip (concat (map (\<lambda>r. map (row r) (reviews_of r)) rs))
      (concat (map (\<lambda>r. map (basis r) (reviews_of r)) rs)) =
      concat (map (\<lambda>r. map (\<lambda>s. (row r s, basis r s)) (reviews_of r)) rs)"
    by (induction rs) (simp_all add: zip_append zip_map_map zip_same_conv_map)
  show ?thesis
    unfolding resolve_reviews_def zipped by (auto simp: image_UN image_image)
qed

text \<open>The indexes \<open>project\<close> fills for its reviews, by themselves.\<close>

definition artifact_index :: "parsed_record list \<Rightarrow> reviewed" where
  "artifact_index rs =
     fold (\<lambda>r d. if stands r then note_artifact r (the (state_of r)) d else d) rs
       \<lparr>rd_implementers = [], rd_commits = [], rd_by_commit = []\<rparr>"

lemma projected_index:
  "pg_reviewed (fold (project_step L f succeeded pass) rs nothing_projected) = artifact_index rs"
proof -
  have "pg_reviewed (fold (project_step L f succeeded pass) rs g) =
      fold (\<lambda>r d. if stands r then note_artifact r (the (state_of r)) d else d) rs (pg_reviewed g)" for g
    by (induction rs arbitrary: g) (simp_all add: project_step_fields(2))
  then show ?thesis
    by (simp add: artifact_index_def nothing_projected_def)
qed

lemma artifact_index_reviewed: "reviewed_in rs (artifact_index rs)"
  by (rule conjunct1 [OF projected_reviews, unfolded projected_index])

lemma shown_reviews:
  obtains pass where "set (pn_reviews (project L f)) =
    {resolve_review (artifact_index (fs_records f)) (review_basis_of r s) (review_row_of f pass r s)
      | r s. r \<in> set (fs_records f) \<and> s \<in> set (reviews_of r)}"
proof -
  define succeeded where "succeeded = succeeded_retirements f"
  define pass where "pass = compute_staleness (staleness_now f) None succeeded True"
  have "pn_reviews (project L f) = resolve_reviews (artifact_index (fs_records f))
      (concat (map (\<lambda>r. map (review_row_of f pass r) (reviews_of r)) (fs_records f)))
      (concat (map (\<lambda>r. map (review_basis_of r) (reviews_of r)) (fs_records f)))"
    using projected_reviews [of "fs_records f" L f succeeded pass]
    by (simp add: project_def Let_def projected_index succeeded_def pass_def)
  with that [of pass] show thesis
    by (simp add: resolved_reviews)
qed

text \<open>What a resolution says: the artifact is known at the judged head, and is cited or the only choice.\<close>

lemma cited_artifacts_set:
  "set (cited_artifacts d rests_on) = {e \<in> set rests_on. body_has (rd_implementers d) e}"
proof -
  have "set (foldl append_unique vs es) = set vs \<union> set es" for vs es
    by (induction es arbitrary: vs) (auto simp: append_unique_def)
  then show ?thesis
    by (simp add: cited_artifacts_def)
qed

lemma resolve_reviewed_cases:
  assumes "resolve_reviewed d basis head = (artifact, how)" and "artifact \<noteq> []"
  obtains (cited) "judges_head d head artifact" "artifact \<in> set (rb_rests_on basis)" "how \<noteq> ByHead"
  | (by_head) "how = ByHead" "head \<noteq> []" "artifact \<in> set (listed head (rd_by_commit d))"
      "\<forall>e \<in> set (rb_rests_on basis). \<not> body_has (rd_implementers d) e"
      "\<forall>e \<in> set (listed head (rd_by_commit d)). implementer d e = implementer d artifact"
proof (cases "judges_head d head (rb_named basis) \<and> contains (rb_rests_on basis) (rb_named basis)")
  case True
  then show ?thesis
    using assms(1) by (intro cited) (auto simp: resolve_reviewed_def)
next
  case unnamed: False
  show ?thesis
  proof (cases "length (cited_artifacts d (rb_rests_on basis)) = 1
      \<and> judges_head d head (hd (cited_artifacts d (rb_rests_on basis)))")
    case True
    then have "hd (cited_artifacts d (rb_rests_on basis)) \<in> set (cited_artifacts d (rb_rests_on basis))"
      by (intro hd_in_set) auto
    then show ?thesis
      using assms(1) unnamed True cited_artifacts_set [of d]
      by (intro cited) (auto simp: resolve_reviewed_def Let_def)
  next
    case False
    then have answer: "(artifact, how) =
        (if cited_artifacts d (rb_rests_on basis) \<noteq> [] \<or> head = [] then ([], ByNothing)
         else (case listed head (rd_by_commit d) of
                 [] \<Rightarrow> ([], ByNothing)
               | c # cs \<Rightarrow> if list_ex (\<lambda>a. implementer d a \<noteq> implementer d c) (c # cs)
                           then ([], ByNothing) else (c, ByHead)))"
      using assms(1) unnamed by (simp only: resolve_reviewed_def Let_def if_False)
    then have none: "cited_artifacts d (rb_rests_on basis) = []" and head: "head \<noteq> []"
      using assms(2) by (auto split: if_splits)
    then obtain cs where rest: "listed head (rd_by_commit d) = artifact # cs" "how = ByHead"
        "\<forall>e \<in> set cs. implementer d e = implementer d artifact"
      using answer assms(2) by (auto simp: list_ex_iff split: list.splits if_splits)
    have "\<forall>e \<in> set (rb_rests_on basis). \<not> body_has (rd_implementers d) e"
      using cited_artifacts_set [of d "rb_rests_on basis"] none by auto
    then show ?thesis
      using rest head by (intro by_head) auto
  qed
qed

lemma review_placed:
  assumes index: "reviewed_in rs d"
    and unique: "\<And>x y. x \<in> set rs \<Longrightarrow> stands x \<Longrightarrow> y \<in> set rs \<Longrightarrow> stands y \<Longrightarrow> pr_id x = pr_id y \<Longrightarrow> x = y"
    and res: "resolve_reviewed d basis head = (artifact, how)" and named: "artifact \<noteq> []"
  obtains x where "x \<in> set rs" "stands x" "pr_id x = artifact" "pr_actor x = implementer d artifact"
    "head = [] \<or> state_field x ''commit'' = head"
    "artifact \<in> set (rb_rests_on basis) \<or> (\<forall>y \<in> set rs. stands y \<longrightarrow> pr_id y \<notin> set (rb_rests_on basis)
       \<and> (state_field y ''commit'' = head \<longrightarrow> pr_actor y = implementer d artifact))"
proof -
  have author: "implementer d (pr_id x) = pr_actor x" and noted: "body_has (rd_implementers d) (pr_id x)"
    if "x \<in> set rs" "stands x" for x
  proof -
    show noted: "body_has (rd_implementers d) (pr_id x)"
      using index that by (simp add: reviewed_in_def)
    then obtain a where a: "map_of (rd_implementers d) (pr_id x) = Some a"
      by (auto simp: body_has_def)
    then obtain y where y: "y \<in> set rs" "stands y" "pr_id y = pr_id x" "pr_actor y = a"
      using index unfolding reviewed_in_def by blast
    have "x = y"
      by (rule unique [OF that y(1,2)]) (simp only: y(3))
    then show "implementer d (pr_id x) = pr_actor x"
      using a y(4) by (simp add: implementer_def body_get_def)
  qed
  from res named show thesis
  proof (cases rule: resolve_reviewed_cases)
    case cited
    then obtain a where "map_of (rd_implementers d) artifact = Some a"
      by (auto simp: judges_head_def body_has_def)
    then obtain x where x: "x \<in> set rs" "stands x" "pr_id x = artifact"
      using index unfolding reviewed_in_def by blast
    have "state_field x ''commit'' = head" if "head \<noteq> []"
    proof -
      have "map_of (rd_commits d) artifact = Some head"
        using cited(1) that by (auto simp: judges_head_def body_get_def split: option.splits)
      then obtain y where "y \<in> set rs" "stands y" "pr_id y = artifact" "state_field y ''commit'' = head"
        using index unfolding reviewed_in_def by blast
      then show ?thesis
        using unique [of x y] x by simp
    qed
    moreover have "pr_actor x = implementer d artifact"
      using author [OF x(1,2)] x(3) by simp
    ultimately show thesis
      using x cited(2) by (intro that [of x]) auto
  next
    case by_head
    have listed: "set (listed head (rd_by_commit d)) =
        pr_id ` {r \<in> set rs. stands r \<and> state_field r ''commit'' = head}"
      using index by_head(2) by (simp add: reviewed_in_def)
    then obtain x where x: "x \<in> set rs" "stands x" "pr_id x = artifact" "state_field x ''commit'' = head"
      using by_head(3) by auto
    have "pr_id y \<notin> set (rb_rests_on basis)
        \<and> (state_field y ''commit'' = head \<longrightarrow> pr_actor y = implementer d artifact)"
      if "y \<in> set rs" "stands y" for y
    proof (intro conjI impI)
      show "pr_id y \<notin> set (rb_rests_on basis)"
        using by_head(4) noted [OF that] by blast
    next
      assume "state_field y ''commit'' = head"
      then have "pr_id y \<in> set (listed head (rd_by_commit d))"
        using listed that by blast
      then show "pr_actor y = implementer d artifact"
        using by_head(5) author [OF that] by simp
    qed
    moreover have "pr_actor x = implementer d artifact"
      using author [OF x(1,2)] x(3) by simp
    ultimately show thesis
      using x by (intro that [of x]) simp_all
  qed
qed

section \<open>The step of a reader through provenance\<close>

definition rests :: "(string \<times> string list) list \<Rightarrow> (string \<times> string) set" where
  "rests provenance = {(e, b). b \<noteq> [] \<and> b \<in> set (case map_of provenance e of None \<Rightarrow> [] | Some bs \<Rightarrow> bs)}"

lemma explain_walk_facts:
  "distinct (explain_walk provenance seen stack) \<and> set (explain_walk provenance seen stack) \<inter> set seen = {}
   \<and> {e \<in> set stack. e \<noteq> []} \<subseteq> set (explain_walk provenance seen stack) \<union> set seen
   \<and> (\<forall>e \<in> set (explain_walk provenance seen stack). \<forall>b. (e, b) \<in> rests provenance \<longrightarrow>
        b \<in> set (explain_walk provenance seen stack) \<union> set seen)
   \<and> set (explain_walk provenance seen stack) \<subseteq> (rests provenance)\<^sup>* `` {e \<in> set stack. e \<noteq> []}"
proof (induction provenance seen stack rule: explain_walk.induct)
  case (2 provenance seen current stack)
  show ?case
  proof (cases "current = [] \<or> contains seen current")
    case True
    with 2(1) show ?thesis
      by auto
  next
    case False
    define bases where "bases = (case map_of provenance current of None \<Rightarrow> [] | Some bs \<Rightarrow> bs)"
    define more where "more = explain_walk provenance (current # seen) (bases @ stack)"
    have walk: "explain_walk provenance seen (current # stack) = current # more"
      using False by (simp add: more_def bases_def split: option.split)
    have ih: "distinct more" "set more \<inter> set (current # seen) = {}"
      "{e \<in> set (bases @ stack). e \<noteq> []} \<subseteq> set more \<union> set (current # seen)"
      "\<forall>e \<in> set more. \<forall>b. (e, b) \<in> rests provenance \<longrightarrow> b \<in> set more \<union> set (current # seen)"
      "set more \<subseteq> (rests provenance)\<^sup>* `` {e \<in> set (bases @ stack). e \<noteq> []}"
      using 2(2,3) False unfolding more_def bases_def by (auto split: option.splits)
    have step: "(current, b) \<in> rests provenance \<longleftrightarrow> b \<in> set bases \<and> b \<noteq> []" for b
      by (auto simp: rests_def bases_def)
    have "(rests provenance)\<^sup>* `` {e \<in> set (bases @ stack). e \<noteq> []}
        \<subseteq> (rests provenance)\<^sup>* `` {e \<in> set (current # stack). e \<noteq> []}"
      using False step by (auto intro: converse_rtrancl_into_rtrancl)
    then show ?thesis
      unfolding walk using ih False step by auto
  qed
qed simp

end
