(* ===== verification/EventFacts.thy ===== *)
theory EventFacts
  imports EventRefs ProjectFacts
begin

text \<open>
  Facts about event references: the number a display prints resolves to the event beside it, and
  one act is answered from one reading of the event set.
\<close>

section \<open>Record numbers\<close>

lemma projected_decisions:
  "pn_decisions (project L f) = map decision_row_of (fs_records f)"
proof -
  have "pg_decisions (fold (project_step L f succeeded pass) rs g) = pg_decisions g @ map decision_row_of rs"
    for succeeded pass rs g
    by (induction rs arbitrary: g) (simp_all add: project_step_fields(1))
  then show ?thesis
    by (simp add: project_def Let_def nothing_projected_def)
qed

lemma parse_number:
  "parse_int (format_uint n) = (if n < 2 ^ 63 then Some (int n) else None)"
proof -
  obtain c s where digits: "format_uint n = c # s"
    by (cases "format_uint n") auto
  have "c \<noteq> CHR ''-''" "c \<noteq> CHR ''+''"
    using format_uint_digits [of c n] by (auto simp: digits)
  then have "parse_int (format_uint n) = (case digits_value 0 (format_uint n) of
      None \<Rightarrow> None | Some n \<Rightarrow> if int n < - (2 ^ 63) \<or> int n \<ge> 2 ^ 63 then None else Some (int n))"
    by (auto simp: parse_int_def digits Let_def split: option.split)
  then show ?thesis
    by (simp add: digits_value_format)
qed

text \<open>The rows of a reachable state are numbered in order from one.\<close>

lemma numbered:
  assumes "log_inv f"
  shows "map dr_sequence (pn_decisions (project L f)) = [1..<Suc (length (fs_records f))]"
  using assms
  by (intro nth_equalityI) (simp_all add: projected_decisions decision_row_of_def pr_sequence_def log_inv_def
      del: upt_Suc)

lemma by_sequence_numbered:
  assumes "log_inv f"
  shows "map_option ne_id (by_sequence (from_projection room (project L f)) n) =
    (if 1 \<le> n \<and> n \<le> length (fs_records f) then Some (dr_event (pn_decisions (project L f) ! (n - 1))) else None)"
proof -
  define rows where "rows = pn_decisions (project L f)"
  have len: "length rows = length (fs_records f)"
    by (simp add: rows_def projected_decisions)
  have at: "dr_sequence (rows ! i) = Suc i" if "i < length rows" for i
    using numbered [OF assms, of L] that len
    by (metis One_nat_def add.commute length_map nth_map nth_upt plus_1_eq_Suc rows_def add_less_cancel_left)
  define table where "table = rev (map (\<lambda>d. (dr_sequence d, named_event_of room d)) rows)"
  have entries: "(k, e) \<in> set table \<longleftrightarrow> (\<exists>i < length rows. k = Suc i \<and> e = named_event_of room (rows ! i))" for k e
  proof -
    have "(k, e) \<in> set table \<longleftrightarrow> (\<exists>d \<in> set rows. k = dr_sequence d \<and> e = named_event_of room d)"
      by (auto simp: table_def)
    then show ?thesis
      using at by (metis in_set_conv_nth)
  qed
  have "distinct (map dr_sequence rows)"
    using numbered [OF assms, of L] by (simp add: rows_def del: upt_Suc)
  then have "distinct (map fst table)"
    by (simp add: table_def comp_def distinct_map flip: rev_map)
  then have found: "map_of table k = Some e \<longleftrightarrow> (k, e) \<in> set table" for k e
    by simp
  have "map_of table n =
      (if 1 \<le> n \<and> n \<le> length rows then Some (named_event_of room (rows ! (n - 1))) else None)"
  proof (cases "1 \<le> n \<and> n \<le> length rows")
    case True
    then have "(n, named_event_of room (rows ! (n - 1))) \<in> set table"
      unfolding entries by (intro exI [of _ "n - 1"]) auto
    then show ?thesis
      using True found by simp
  next
    case False
    then have "(n, e) \<notin> set table" for e
      unfolding entries by auto
    then show ?thesis
      using False found by (metis not_None_eq)
  qed
  moreover have "by_sequence (from_projection room (project L f)) n = map_of table n"
    by (simp add: by_sequence_def from_projection_def table_def rows_def comp_def named_event_of_def)
  ultimately show ?thesis
    using len by (simp add: rows_def [symmetric] named_event_of_def)
qed

lemma highest_numbered:
  assumes "log_inv f"
  shows "es_highest (from_projection room (project L f)) = length (fs_records f)"
proof -
  have steps: "foldl (\<lambda>highest d. if dr_sequence d > highest then dr_sequence d else highest) m ds =
      foldl max m (map dr_sequence ds)" for ds and m :: nat
    by (induction ds arbitrary: m) (simp_all add: max_def)
  have count: "foldl max 0 [1..<Suc k] = k" for k :: nat
    by (induction k) simp_all
  show ?thesis
    by (simp only: from_projection_def event_set.select_convs steps numbered [OF assms] count)
qed

lemma resolve_number_shown:
  assumes "log_inv f"
  shows "resolve (from_projection room (project L f)) (CHR ''#'' # format_uint n) =
    (if 1 \<le> n \<and> n < 2 ^ 63 \<and> n \<le> length (fs_records f)
     then Inr (dr_event (pn_decisions (project L f) ! (n - 1)))
     else refuse (CHR ''#'' # format_uint n)
       ((if 1 \<le> n \<and> n < 2 ^ 63 then NamesNoRecord else NotARecordNumber) (length (fs_records f))))"
proof -
  define s where "s = from_projection room (project L f)"
  have "resolve s (CHR ''#'' # format_uint n) = resolve_number s (CHR ''#'' # format_uint n)"
    by (simp add: resolve_def form_of_def)
  moreover have "resolve_number s (CHR ''#'' # format_uint n) =
      (if n < 2 ^ 63 \<and> 1 \<le> n then (case by_sequence s n of
           None \<Rightarrow> refuse (CHR ''#'' # format_uint n) (NamesNoRecord (es_highest s))
         | Some e \<Rightarrow> Inr (ne_id e))
       else refuse (CHR ''#'' # format_uint n) (NotARecordNumber (es_highest s)))"
    by (simp add: resolve_number_def trim_prefix_def parse_number print_number_def)
  ultimately show ?thesis
    using by_sequence_numbered [OF assms, of room L n] highest_numbered [OF assms, of room L]
    by (auto simp: s_def [symmetric] split: option.splits if_splits)
qed

section \<open>One reading per act\<close>

definition needs_set :: "room \<Rightarrow> string \<Rightarrow> bool" where
  "needs_set room selector \<longleftrightarrow> form_of room selector = FormNumber \<or> form_of room selector = FormHash"

text \<open>
  What a resolver has seen: nothing, with the world as it was; or the answer of one reading, with
  the world as that reading left it.
\<close>

definition has_read :: "('w \<Rightarrow> ('e + event_set) \<times> 'w) \<Rightarrow> 'w \<Rightarrow> 'e resolver \<Rightarrow> 'w \<Rightarrow> bool" where
  "has_read load w r w' \<longleftrightarrow>
     (rl_set r = None \<and> rl_failed r = None \<and> w' = w)
     \<or> (rl_failed r = None \<and> (\<exists>s. rl_set r = Some s \<and> load w = (Inr s, w')))
     \<or> (rl_set r = None \<and> (\<exists>why. rl_failed r = Some why \<and> load w = (Inl why, w')))"

lemma read_set_once:
  assumes "has_read load w r w1" and "read_set load r w1 = ((s, failed), r', w2)"
  shows "has_read load w r' w2 \<and> rl_room r' = rl_room r
    \<and> (case failed of None \<Rightarrow> load w = (Inr s, w2) \<and> rl_set r' = Some s
                    | Some why \<Rightarrow> load w = (Inl why, w2))"
  using assms
  by (auto simp: has_read_def read_set_def set_or_zero_def Let_def split: if_splits prod.splits sum.splits option.splits)

lemma resolve_one_once:
  assumes "has_read load w r w1" and "resolve_one load selector r w1 = (answer, r', w2)"
  shows "has_read load w r' w2 \<and> rl_room r' = rl_room r
    \<and> (\<forall>s. rl_set r = Some s \<longrightarrow> rl_set r' = Some s \<and> w2 = w1)"
    and "answer = Inr i \<Longrightarrow> if needs_set (rl_room r) selector
      then \<exists>s. load w = (Inr s, w2) \<and> rl_set r' = Some s \<and> resolve s selector = Inr i
      else i = selector \<and> r' = r \<and> w2 = w1"
proof -
  have "has_read load w r' w2 \<and> rl_room r' = rl_room r"
    using assms(2) read_set_once [OF assms(1)] assms(1)
    by (auto simp: resolve_one_def has_read_def split: if_splits prod.splits option.splits sum.splits)
  moreover have "rl_set r' = Some s \<and> w2 = w1" if "rl_set r = Some s" for s
    using assms(2) that
    by (simp add: resolve_one_def read_set_def split: if_splits prod.splits option.splits sum.splits) auto
  ultimately show "has_read load w r' w2 \<and> rl_room r' = rl_room r
      \<and> (\<forall>s. rl_set r = Some s \<longrightarrow> rl_set r' = Some s \<and> w2 = w1)"
    by blast
  show "if needs_set (rl_room r) selector
      then \<exists>s. load w = (Inr s, w2) \<and> rl_set r' = Some s \<and> resolve s selector = Inr i
      else i = selector \<and> r' = r \<and> w2 = w1"
    if "answer = Inr i"
    using assms(2) read_set_once [OF assms(1)] that
    by (auto simp: resolve_one_def needs_set_def split: if_splits prod.splits option.splits sum.splits)
qed

lemma resolve_many_once:
  assumes "has_read load w r w1" and "resolve_many load selectors r w1 = (Inr out, r', w2)"
  shows "has_read load w r' w2 \<and> (\<forall>s. rl_set r = Some s \<longrightarrow> rl_set r' = Some s \<and> w2 = w1)
    \<and> list_all2 (\<lambda>i o'. if needs_set (rl_room r) i
                       then \<exists>s. load w = (Inr s, w2) \<and> resolve s i = Inr o' else o' = i) selectors out
    \<and> ((\<forall>i \<in> set selectors. \<not> needs_set (rl_room r) i) \<longrightarrow> r' = r \<and> w2 = w1)"
  using assms
proof (induction selectors arbitrary: r w1 out)
  case (Cons i rest)
  obtain o' out' r1 w3 where one: "resolve_one load i r w1 = (Inr o', r1, w3)"
    and more: "resolve_many load rest r1 w3 = (Inr out', r', w2)" and out: "out = o' # out'"
    using Cons.prems(2) by (auto split: prod.splits sum.splits)
  note first = resolve_one_once(1) [OF Cons.prems(1) one]
  note second = resolve_one_once(2) [OF Cons.prems(1) one refl]
  have kept: "has_read load w r1 w3" "rl_room r1 = rl_room r"
    "\<And>s. rl_set r = Some s \<Longrightarrow> rl_set r1 = Some s \<and> w3 = w1"
    using first by blast+
  have ih: "has_read load w r' w2" "\<And>s. rl_set r1 = Some s \<Longrightarrow> rl_set r' = Some s \<and> w2 = w3"
    "list_all2 (\<lambda>i o'. if needs_set (rl_room r) i
        then \<exists>s. load w = (Inr s, w2) \<and> resolve s i = Inr o' else o' = i) rest out'"
    "(\<forall>i \<in> set rest. \<not> needs_set (rl_room r) i) \<Longrightarrow> r' = r1 \<and> w2 = w3"
    using Cons.IH [OF kept(1) more] unfolding kept(2) by blast+
  have here: "if needs_set (rl_room r) i then \<exists>s. load w = (Inr s, w2) \<and> resolve s i = Inr o' else o' = i"
    using second ih(2) by (auto split: if_splits)
  have later: "rl_set r' = Some s \<and> w2 = w1" if "rl_set r = Some s" for s
    using kept(3) [OF that] ih(2) by simp
  have untouched: "r' = r \<and> w2 = w1" if "\<forall>i \<in> set (i # rest). \<not> needs_set (rl_room r) i"
    using that second ih(4) by simp
  have answers: "list_all2 (\<lambda>i o'. if needs_set (rl_room r) i
      then \<exists>s. load w = (Inr s, w2) \<and> resolve s i = Inr o' else o' = i) (i # rest) out"
    unfolding out using here ih(3) by (simp only: list_all2_Cons)
  show ?case
    using ih(1) later untouched answers by blast
qed (simp_all add: has_read_def)

end
