(* ===== verification/ProjectDemo.thy ===== *)
theory ProjectDemo
  imports EventFacts
begin

text \<open>
  Three short logs on which the theorems about the projection are applied: two artifacts at one
  path; a verdict on an artifact by the actor who made it; and a statement that was refused and is
  then superseded by its author.
\<close>

definition shown_payloads :: "(string \<times> payload) list" where
  "shown_payloads =
     [(''seed'', PState \<lparr>st_kind = kind_roster, st_text = ''seed'',
         st_body = [(''actor'', ''A''), (''name'', ''Ann''), (''role'', role_operator)]\<rparr>),
      (''ask'', PState \<lparr>st_kind = kind_request, st_text = ''ask'',
         st_body = [(''to'', ''A''), (''conditions'', ''done'')]\<rparr>),
      (''take'', PState \<lparr>st_kind = kind_promise, st_text = ''take'', st_body = []\<rparr>),
      (''one'', PState \<lparr>st_kind = kind_artifact, st_text = ''one'',
         st_body = [(''path'', ''p''), (''commit'', ''c1'')]\<rparr>),
      (''two'', PState \<lparr>st_kind = kind_artifact, st_text = ''two'',
         st_body = [(''path'', ''p''), (''commit'', ''c2'')]\<rparr>),
      (''judge'', PState \<lparr>st_kind = kind_report, st_text = ''judge'',
         st_body = [(''verdict'', ''approved''), (''head'', ''c1''), (''artifact'', ''a'')]\<rparr>),
      (''bare'', PState \<lparr>st_kind = kind_request, st_text = ''bare'', st_body = []\<rparr>),
      (''drop'', PSupersede ''w'' ''drop'')]"

definition shown_lib :: fold_lib where
  "shown_lib = demo_lib_of shown_payloads"

definition pair_log :: "log_record list" where
  "pair_log =
     [demo_record ''s'' ''A'' schema_state ''seed'' [],
      demo_record ''a'' ''A'' schema_state ''one'' [],
      demo_record ''b'' ''A'' schema_state ''two'' [''a'']]"

definition judged_log :: "log_record list" where
  "judged_log =
     [demo_record ''s'' ''A'' schema_state ''seed'' [],
      demo_record ''q'' ''A'' schema_state ''ask'' [],
      demo_record ''t'' ''A'' schema_state ''take'' [''q''],
      demo_record ''a'' ''A'' schema_state ''one'' [],
      demo_record ''v'' ''A'' schema_state ''judge'' [''t'', ''a'']]"

definition refused_log :: "log_record list" where
  "refused_log =
     [demo_record ''s'' ''A'' schema_state ''seed'' [],
      demo_record ''w'' ''A'' schema_state ''bare'' [],
      demo_record ''wx'' ''A'' schema_supersede ''drop'' [''w'']]"

lemma pair_figures:
  "(case new_folder shown_lib pair_log of
      None \<Rightarrow> False
    | Some f \<Rightarrow> length (fs_records f) = 3 \<and> map (\<lambda>r. dc_event (pr_decision r)) (fs_records f) = [''s'', ''a'', ''b'']
        \<and> predecessor_figures shown_lib f (fs_records f) = [(''a'', 0, False), (''b'', 1, True)])"
  by code_simp

lemma judged_review:
  "(case new_folder shown_lib judged_log of
      None \<Rightarrow> False
    | Some f \<Rightarrow>
        (let r = last (fs_records f); s = the (state_of r) in
         fs_records f \<noteq> [] \<and> reviews_of r = [s]
         \<and> pr_id r = ''v'' \<and> pr_actor r = ''A'' \<and> judged_head s = ''c1''
         \<and> resolve_reviewed (artifact_index (fs_records f)) (review_basis_of r s) ''c1'' = (''a'', ByName)
         \<and> implementer (artifact_index (fs_records f)) ''a'' = ''A''))"
  by code_simp

text \<open>
  A refused statement is retired by the supersession its author files: retirement is not confined to
  effective records.
\<close>

lemma refused_record_retired:
  "(case new_folder shown_lib refused_log of
      None \<Rightarrow> False
    | Some f \<Rightarrow> map_option pr_verdict (lookup f ''w'') = Some Ineffective \<and> is_retired f ''w'')"
  by code_simp

end
