(* ===== verification/ProjectProps.thy ===== *)
theory ProjectProps
  imports ProjectDemo FoldRoster
begin

text \<open>
  The properties of the projection and of event references, each with a witness on a short log.
\<close>

section \<open>Figures\<close>

text \<open>
  In every reachable state the artifact rows that \<open>project\<close> returns carry, in log order, for each
  admitted artifact the number of live predecessors it leaves, computed from the log alone: what its
  merge receipt sealed as unaccounted and what stands between the two, less the deletions the
  receipt accounted for, or without such a receipt the live artifacts before it at its path; and
  the warning is set exactly when the number is not zero.
\<close>

lemma predecessors_counted:
  assumes "reachable L f"
  shows "shown_figures (pn_artifacts (project L f)) = predecessor_figures L f (fs_records f)"
proof -
  have log: "log_inv f"
    using reachable_inv [OF assms] by (simp add: fold_inv_def)
  show ?thesis
    using projected_figures [OF log, of L] by (simp add: project_def Let_def)
qed

lemma predecessors_counted_demo:
  "\<exists>f. reachable shown_lib f
     \<and> shown_figures (pn_artifacts (project shown_lib f)) = [(''a'', 0, False), (''b'', 1, True)]"
proof -
  obtain f where f: "new_folder shown_lib pair_log = Some f"
    "predecessor_figures shown_lib f (fs_records f) = [(''a'', 0, False), (''b'', 1, True)]"
    using pair_figures by (auto split: option.splits)
  then have "reachable shown_lib f"
    by (auto simp: reachable_def)
  with predecessors_counted [OF this] f(2) show ?thesis
    by auto
qed

section \<open>Reviews\<close>

text \<open>
  C40: a review that the projection does not leave unresolved names an admitted artifact that stands at
  the head the verdict judges, when it names one, and is called independent exactly when the actor
  who signed the verdict is not the one who signed the artifact; the verdict rests on that artifact,
  or it rests on no artifact at all and every artifact at the judged head has the same author.
\<close>

theorem review_sound:
  assumes "reachable L f" and "review \<in> set (pn_reviews (project L f))"
    and "rv_independence review \<noteq> Unresolved"
  shows "\<exists>report artifact. lookup f (rv_report review) = Some report
    \<and> pr_verdict report = Effective \<and> rv_reviewer review = pr_actor report
    \<and> lookup f (rv_artifact review) = Some artifact \<and> stands artifact
    \<and> rv_implementer review = pr_actor artifact
    \<and> (rv_independence review = Independent \<longleftrightarrow> pr_actor artifact \<noteq> pr_actor report)
    \<and> (rv_head review = [] \<or> state_field artifact ''commit'' = rv_head review)
    \<and> (rv_artifact review \<in> set (pr_rests_on report)
       \<or> (\<forall>r \<in> set (fs_records f). stands r \<longrightarrow>
            pr_id r \<notin> set (pr_rests_on report)
            \<and> (state_field r ''commit'' = rv_head review \<longrightarrow> pr_actor r = pr_actor artifact)))"
proof -
  let ?d = "artifact_index (fs_records f)"
  obtain pass where "set (pn_reviews (project L f)) =
      {resolve_review ?d (review_basis_of r s) (review_row_of f pass r s)
        | r s. r \<in> set (fs_records f) \<and> s \<in> set (reviews_of r)}"
    by (rule shown_reviews)
  then obtain r s where r: "r \<in> set (fs_records f)" "s \<in> set (reviews_of r)"
    "review = resolve_review ?d (review_basis_of r s) (review_row_of f pass r s)"
    using assms(2) by auto
  obtain artifact how where res: "resolve_reviewed ?d (review_basis_of r s) (judged_head s) = (artifact, how)"
    by fastforce
  have row: "artifact \<noteq> []" "rv_report review = pr_id r" "rv_reviewer review = pr_actor r"
    "rv_artifact review = artifact" "rv_head review = judged_head s"
    "rv_implementer review = implementer ?d artifact"
    "rv_independence review = Independent \<longleftrightarrow> implementer ?d artifact \<noteq> pr_actor r"
    using assms(3) res r(3) by (auto simp: resolve_review_def review_row_of_def Let_def split: if_splits)
  have find: "lookup f (pr_id x) = Some x" if "x \<in> set (fs_records f)" "pr_verdict x = Effective" for x
    using reachable_indexed [OF assms(1)] that by (simp add: findable_def)
  have unique: "x = y" if "x \<in> set (fs_records f)" "stands x" "y \<in> set (fs_records f)" "stands y"
    "pr_id x = pr_id y" for x y
  proof -
    have "lookup f (pr_id x) = Some x" "lookup f (pr_id y) = Some y"
      using find that(1-4) by (simp_all add: stands_def)
    then show ?thesis
      unfolding that(5) by simp
  qed
  have cited: "rb_rests_on (review_basis_of r s) = pr_rests_on r"
    by (simp add: review_basis_of_def)
  obtain x where x: "x \<in> set (fs_records f)" "stands x" "pr_id x = artifact"
    "pr_actor x = implementer ?d artifact" "judged_head s = [] \<or> state_field x ''commit'' = judged_head s"
    "artifact \<in> set (pr_rests_on r) \<or> (\<forall>y \<in> set (fs_records f). stands y \<longrightarrow>
       pr_id y \<notin> set (pr_rests_on r)
       \<and> (state_field y ''commit'' = judged_head s \<longrightarrow> pr_actor y = implementer ?d artifact))"
    by (rule review_placed [OF artifact_index_reviewed unique res row(1), unfolded cited])
  have "pr_verdict r = Effective"
    using r(2) by (auto simp: reviews_of_def is_review_def split: option.splits if_splits)
  then show ?thesis
    using row x find [OF r(1)] find [OF x(1)] stands_def
    by (intro exI [of _ r] exI [of _ x]) simp
qed

theorem review_sound_witness:
  "\<exists>f review. review \<in> set (pn_reviews (project shown_lib f)) \<and> rv_independence review = SelfReview
     \<and> (\<exists>report artifact. lookup f ''v'' = Some report \<and> lookup f ''a'' = Some artifact
          \<and> pr_actor report = pr_actor artifact \<and> state_field artifact ''commit'' = ''c1'')"
proof -
  obtain f r s where f: "new_folder shown_lib judged_log = Some f" "r = last (fs_records f)"
    "s = the (state_of r)"
    "fs_records f \<noteq> []" "reviews_of r = [s]"
    "pr_id r = ''v''" "pr_actor r = ''A''" "judged_head s = ''c1''"
    "resolve_reviewed (artifact_index (fs_records f)) (review_basis_of r s) ''c1'' = (''a'', ByName)"
    "implementer (artifact_index (fs_records f)) ''a'' = ''A''"
    using judged_review by (auto simp: Let_def split: option.splits)
  have reach: "reachable shown_lib f"
    using f(1) by (auto simp: reachable_def)
  obtain pass where reviews: "set (pn_reviews (project shown_lib f)) =
      {resolve_review (artifact_index (fs_records f)) (review_basis_of r s) (review_row_of f pass r s)
        | r s. r \<in> set (fs_records f) \<and> s \<in> set (reviews_of r)}"
    by (rule shown_reviews)
  define review where
    "review = resolve_review (artifact_index (fs_records f)) (review_basis_of r s) (review_row_of f pass r s)"
  have "r \<in> set (fs_records f)" "s \<in> set (reviews_of r)"
    using f(2,4,5) by simp_all
  then have shown: "review \<in> set (pn_reviews (project shown_lib f))"
    unfolding reviews review_def by blast
  have row: "rv_independence review = SelfReview" "rv_report review = ''v''"
    "rv_artifact review = ''a''" "rv_head review = ''c1''"
    using f(6-10) by (simp_all add: review_def resolve_review_def review_row_of_def Let_def)
  have "rv_independence review \<noteq> Unresolved"
    using row(1) by simp
  from review_sound [OF reach shown this] show ?thesis
    using shown row by (intro exI [of _ f] exI [of _ review]) auto
qed

section \<open>Record numbers\<close>

text \<open>
  In every reachable state the string that a display prints beside row n resolves to the
  identifier of that row; a number past the last row names no record, and zero, or a number that
  does not fit a signed 64-bit integer, is no record number. Nothing else is a reading of it.
\<close>

lemma number_resolves:
  assumes "reachable L f"
  shows "resolve (from_projection room (project L f)) (CHR ''#'' # format_uint n) =
    (if 1 \<le> n \<and> n < 2 ^ 63 \<and> n \<le> length (fs_records f)
     then Inr (dr_event (pn_decisions (project L f) ! (n - 1)))
     else refuse (CHR ''#'' # format_uint n)
       ((if 1 \<le> n \<and> n < 2 ^ 63 then NamesNoRecord else NotARecordNumber) (length (fs_records f))))"
  by (rule resolve_number_shown) (use reachable_inv [OF assms] in \<open>simp add: fold_inv_def\<close>)

lemma number_resolves_demo:
  "\<exists>f. resolve (from_projection room (project shown_lib f)) ''#3'' = Inr ''b''
     \<and> resolve (from_projection room (project shown_lib f)) ''#4'' = refuse ''#4'' (NamesNoRecord 3)"
proof -
  obtain f where f: "new_folder shown_lib pair_log = Some f" "length (fs_records f) = 3"
    "map (\<lambda>r. dc_event (pr_decision r)) (fs_records f) = [''s'', ''a'', ''b'']"
    using pair_figures by (auto split: option.splits)
  then have reach: "reachable shown_lib f"
    by (auto simp: reachable_def)
  have third: "dr_event (pn_decisions (project shown_lib f) ! 2) = ''b''"
    using f(2) nth_map [of 2 "fs_records f" "\<lambda>r. dc_event (pr_decision r)"]
    by (simp add: f(3) projected_decisions decision_row_of_def)
  have "format_uint 3 = ''3''" "format_uint 4 = ''4''"
    by code_simp+
  then show ?thesis
    using number_resolves [OF reach, of room 3] number_resolves [OF reach, of room 4] f(2) third by auto
qed

section \<open>One reading of the event set\<close>

text \<open>
  When an act is resolved, either none of its references needed the event set, which was then
  not read, and they come back as typed; or the set was read once and every reference is the answer
  of that one set.
\<close>

lemma one_reading:
  assumes "resolve_many load selectors (new_resolver room) w = (Inr out, r, w')"
  shows "(list_all (\<lambda>i. \<not> needs_set room i) selectors \<and> out = selectors \<and> w' = w)
    \<or> (\<exists>s. load w = (Inr s, w') \<and> list_all2 (\<lambda>i o'.
          if needs_set room i then resolve s i = Inr o' else o' = i) selectors out)"
proof -
  have new: "has_read load w (new_resolver room) w" and room: "rl_room (new_resolver room) = room"
    by (simp_all add: has_read_def new_resolver_def)
  note facts = resolve_many_once [OF new assms, unfolded room]
  show ?thesis
  proof (cases "list_all (\<lambda>i. \<not> needs_set room i) selectors")
    case True
    then have "list_all2 (\<lambda>i o'. o' = i) selectors out"
      using facts by (auto simp: list_all_iff list_all2_conv_all_nth)
    then have "out = selectors"
      by (simp add: list_all2_conv_all_nth nth_equalityI)
    then show ?thesis
      using True facts by (simp add: list_all_iff)
  next
    case False
    then obtain i where "i < length selectors" "needs_set room (selectors ! i)"
      by (auto simp: list_all_length)
    moreover have "list_all2 (\<lambda>i o'. if needs_set room i
        then \<exists>s. load w = (Inr s, w') \<and> resolve s i = Inr o' else o' = i) selectors out"
      using facts by blast
    ultimately have "\<exists>s. load w = (Inr s, w') \<and> resolve s (selectors ! i) = Inr (out ! i)"
      by (simp add: list_all2_conv_all_nth)
    then obtain s where "load w = (Inr s, w')"
      by blast
    then have "list_all2 (\<lambda>i o'. if needs_set room i then resolve s i = Inr o' else o' = i) selectors out"
      using facts by (auto simp: list_all2_conv_all_nth split: if_splits)
    with \<open>load w = (Inr s, w')\<close> show ?thesis
      by blast
  qed
qed

definition two_rows :: event_set where
  "two_rows =
     \<lparr>es_room = \<lparr>rm_genesis = [], rm_format = ''sha1''\<rparr>, es_held = [''x'', ''y''],
      es_events = [\<lparr>ne_sequence = 1, ne_id = ''x'', ne_hash = ''0a''\<rparr>,
                   \<lparr>ne_sequence = 2, ne_id = ''y'', ne_hash = ''0b''\<rparr>], es_highest = 2\<rparr>"

text \<open>Each reading of the set is counted.\<close>

definition counted_load :: "nat \<Rightarrow> (unit + event_set) \<times> nat" where
  "counted_load n = (Inr two_rows, Suc n)"

lemma one_reading_demo:
  "\<exists>out r n. resolve_many counted_load [''#2'', ''note'', ''0a''] (new_resolver (es_room two_rows)) 0 = (Inr out, r, n)
     \<and> n = 1 \<and> out = [''y'', ''note'', ''x'']"
proof -
  define answer where
    "answer = resolve_many counted_load [''#2'', ''note'', ''0a''] (new_resolver (es_room two_rows)) 0"
  have "fst answer = Inr [''y'', ''note'', ''x'']" "needs_set (es_room two_rows) ''#2''"
    by (simp_all only: answer_def) code_simp+
  then obtain r n where run:
    "resolve_many counted_load [''#2'', ''note'', ''0a''] (new_resolver (es_room two_rows)) 0
      = (Inr [''y'', ''note'', ''x''], r, n)" and needs: "needs_set (es_room two_rows) ''#2''"
    by (metis answer_def prod.collapse)
  have "n = 1"
    using one_reading [OF run] needs by (simp add: counted_load_def)
  with run show ?thesis
    by blast
qed

section \<open>Provenance and the populations of work\<close>

text \<open>\<open>Explain\<close> lists each event once, and exactly those reached from the one asked about.\<close>

lemma explain_reaches:
  assumes "event \<noteq> []"
  shows "distinct (explain p event) \<and> set (explain p event) = (rests (pn_provenance p))\<^sup>* `` {event}"
proof -
  note facts = explain_walk_facts [of "pn_provenance p" "[]" "[event]", folded explain_def]
  have closed: "b \<in> set (explain p event)" if "(e, b) \<in> (rests (pn_provenance p))\<^sup>*" "e \<in> set (explain p event)" for e b
    using that by (induction rule: rtrancl_induct) (use facts in auto)
  then show ?thesis
    using facts assms by auto
qed

lemma status_known:
  "status_word s \<in> set open_lifecycles \<or> status_word s = ''satisfied''
   \<or> status_word s \<in> set closed_not_completed \<or> status_word s = ''stale''"
  by (cases s) (simp_all add: open_lifecycles_def closed_not_completed_def)

text \<open>
  The populations partition the commitments, no status the fold emits is left over, and the six
  lanes add up to the open population.
\<close>

definition populations :: "work_summary \<Rightarrow> nat" where
  "populations w = ws_open w + ws_completed w + ws_closed w + ws_stale w"

definition lanes_sound :: "work_summary \<Rightarrow> bool" where
  "lanes_sound w \<longleftrightarrow> map fst (ws_lanes w) = open_lifecycles \<and> sum_list (map snd (ws_lanes w)) = ws_open w
     \<and> ws_other w = 0 \<and> ws_moved w \<le> ws_open w"

lemma put_present:
  "map_of m k = Some n \<Longrightarrow> map fst (put k v m) = map fst m
     \<and> sum_list (map snd (put k (v :: nat) m)) + n = sum_list (map snd m) + v"
  by (induction m) (auto split: if_splits)

lemma count_work_sound:
  assumes "lanes_sound w"
  shows "lanes_sound (count_work c w) \<and> populations (count_work c w) = Suc (populations w)
    \<and> ws_commitments (count_work c w) = ws_commitments w"
proof (cases "map_of (ws_lanes w) (status_word (cm_status c))")
  case None
  have unlisted: "status_word (cm_status c) \<notin> set open_lifecycles"
    using None assms unfolding lanes_sound_def by (metis map_of_eq_None_iff set_map)
  have met: "status_word (cm_status c) = ''satisfied'' \<or> contains closed_not_completed (status_word (cm_status c))
      \<or> status_word (cm_status c) = ''stale''"
    using unlisted status_known [of "cm_status c"] by simp
  have "count_work c w =
      (let v = (if cm_approved_not_landed c then w\<lparr>ws_audit := ws_audit w + 1\<rparr> else w)
       in if status_word (cm_status c) = ''satisfied'' then v\<lparr>ws_completed := ws_completed v + 1\<rparr>
          else if contains closed_not_completed (status_word (cm_status c)) then v\<lparr>ws_closed := ws_closed v + 1\<rparr>
          else v\<lparr>ws_stale := ws_stale v + 1\<rparr>)"
    using met by (cases "cm_approved_not_landed c"; simp add: count_work_def Let_def None; blast)
  then show ?thesis
    using assms by (simp add: Let_def lanes_sound_def populations_def)
next
  case (Some n)
  have "count_work c w = (let v = (if cm_approved_not_landed c then w\<lparr>ws_audit := ws_audit w + 1\<rparr> else w)
      in v\<lparr>ws_open := ws_open v + 1, ws_lanes := put (status_word (cm_status c)) (n + 1) (ws_lanes v),
            ws_moved := (if cm_stale c then ws_moved v + 1 else ws_moved v)\<rparr>)"
    by (cases "cm_approved_not_landed c") (simp_all add: count_work_def Let_def Some)
  then show ?thesis
    using assms put_present [OF Some, of "Suc n"]
    by (cases "cm_approved_not_landed c") (simp_all add: Let_def lanes_sound_def populations_def)
qed

lemma work_partitioned:
  "populations (work_of p) = length (pn_commitments p) \<and> lanes_sound (work_of p)
   \<and> ws_commitments (work_of p) = length (pn_commitments p)"
proof -
  have "lanes_sound w \<Longrightarrow> lanes_sound (fold count_work cs w)
      \<and> populations (fold count_work cs w) = length cs + populations w
      \<and> ws_commitments (fold count_work cs w) = ws_commitments w" for cs w
    by (induction cs arbitrary: w) (use count_work_sound in auto)
  moreover have "lanes_sound \<lparr>ws_commitments = k, ws_open = 0,
      ws_lanes = map (\<lambda>status. (status, 0)) open_lifecycles, ws_completed = 0, ws_closed = 0,
      ws_stale = 0, ws_other = 0, ws_moved = 0, ws_audit = 0\<rparr>" for k
    by (simp add: lanes_sound_def comp_def open_lifecycles_def)
  ultimately show ?thesis
    by (simp add: work_of_def populations_def)
qed

end
