(* ===== verification/LiveState.thy ===== *)
theory LiveState
  imports GoBytes
begin

text \<open>
  The data of the live rendezvous (\<open>host/live/live.go\<close>): its bounds, the messages it exchanges, the
  state of a hub, and the helpers that read nothing but their arguments. A \<open>[]byte\<close> and a \<open>string\<close>
  are both byte lists; \<open>time.Time\<close> and \<open>time.Duration\<close> are integers of nanoseconds.

  Three things are arguments of the model. \<open>live_lib\<close> collects the code that is not in the repository:
  Ed25519, SHA-256, the CBOR encoder and the JSON encoding of a message. \<open>live_env\<close> collects what one
  operation takes from outside: the clock, the draws of \<open>crypto/rand\<close>, and the order in which a Go
  \<open>range\<close> visits the keys of a map, which the language leaves open.
\<close>

section \<open>Bounds\<close>

definition max_focus_events :: nat where "max_focus_events = 8"
definition max_focus_event_bytes :: nat where "max_focus_event_bytes = 256"
definition max_activity_note_bytes :: nat where "max_activity_note_bytes = 160"
definition max_inbox_frames :: nat where "max_inbox_frames = 20"
definition max_pending_inbox_frames :: nat where "max_pending_inbox_frames = 256"
definition max_message_text_bytes :: nat where "max_message_text_bytes = 16384"
definition max_message_id_bytes :: nat where "max_message_id_bytes = 256"
definition max_message_recipients :: nat where "max_message_recipients = 32"
definition max_frame_payload_bytes :: nat where "max_frame_payload_bytes = 20480"
definition max_conversation_genesis_bytes :: nat where "max_conversation_genesis_bytes = 512"
definition max_live_sessions :: nat where "max_live_sessions = 256"
definition max_sessions_per_actor :: nat where "max_sessions_per_actor = 16"
definition max_retained_frames :: int where "max_retained_frames = 4096"
definition max_retained_bytes :: int where "max_retained_bytes = 8388608"
definition max_actor_name_bytes :: nat where "max_actor_name_bytes = 256"
definition max_presence_value_bytes :: nat where "max_presence_value_bytes = 512"
definition max_pending_session_challenges :: nat where "max_pending_session_challenges = 256"
definition default_session_ttl :: int where "default_session_ttl = 30000000000"
definition max_session_ttl :: int where "max_session_ttl = 120000000000"
definition session_challenge_ttl :: int where "session_challenge_ttl = 30000000000"

lemmas live_bounds = max_focus_events_def max_focus_event_bytes_def max_activity_note_bytes_def
  max_inbox_frames_def max_pending_inbox_frames_def max_message_text_bytes_def
  max_message_id_bytes_def max_message_recipients_def max_frame_payload_bytes_def
  max_conversation_genesis_bytes_def max_live_sessions_def max_sessions_per_actor_def
  max_retained_frames_def max_retained_bytes_def max_actor_name_bytes_def
  max_presence_value_bytes_def max_pending_session_challenges_def default_session_ttl_def
  max_session_ttl_def session_challenge_ttl_def

definition public_key_size :: nat where "public_key_size = 32"
definition private_key_size :: nat where "private_key_size = 64"
definition signature_size :: nat where "signature_size = 64"
definition sha256_size :: nat where "sha256_size = 32"

lemmas crypto_sizes = public_key_size_def private_key_size_def signature_size_def sha256_size_def

definition actor_frame_domain :: bytes where
  "actor_frame_domain = ''gitseq.nexus.actor-frame.v0'' @ [char_of (0 :: nat)]"
definition nexus_frame_domain :: bytes where
  "nexus_frame_domain = ''gitseq.nexus.order-frame.v0'' @ [char_of (0 :: nat)]"
definition session_proof_domain :: bytes where
  "session_proof_domain = ''gitseq.live.session-proof.v0'' @ [char_of (0 :: nat)]"
definition credential_prefix :: string where "credential_prefix = ''credential:''"
definition credential_bytes :: nat where "credential_bytes = 32"

section \<open>Activity\<close>

datatype activity_status =
  NoStatus | ActivityAvailable | ActivityBusy | ActivityWaiting | ActivityBlocked
| ActivityOther string

record activity =
  ac_status :: activity_status
  ac_focus :: "string list"
  ac_note :: string

text \<open>The zero value of the struct.\<close>

definition no_activity :: activity where
  "no_activity = \<lparr>ac_status = NoStatus, ac_focus = [], ac_note = []\<rparr>"

record activity_update =
  au_status :: "activity_status option"
  au_focus :: "string list option"
  au_note :: "string option"

definition no_update :: activity_update where
  "no_update = \<lparr>au_status = None, au_focus = None, au_note = None\<rparr>"

section \<open>Frames and messages\<close>

record cursor =
  cu_generation :: string
  cu_position :: nat

record frame =
  fr_version :: nat
  fr_generation :: string
  fr_genesis :: bytes
  fr_conversation :: string
  fr_sequence :: nat
  fr_previous :: bytes
  fr_payload :: bytes
  fr_actor_key :: bytes
  fr_actor_signature :: bytes
  fr_nexus_key :: bytes
  fr_nexus_signature :: bytes

record draft =
  dr_scope :: string
  dr_version :: nat
  dr_generation :: string
  dr_genesis :: bytes
  dr_conversation :: string
  dr_sequence :: nat
  dr_previous :: bytes
  dr_payload :: bytes

record submission =
  sb_draft :: draft
  sb_actor_key :: bytes
  sb_actor_signature :: bytes

record session_challenge =
  sc_version :: nat
  sc_generation :: string
  sc_nonce :: bytes
  sc_actor_key :: bytes

record message =
  ms_about :: string
  ms_text :: string
  ms_re :: string
  ms_recipients :: "string list"

record inbox_frame =
  if_actor :: string
  if_text :: string
  if_about :: string
  if_conversation :: string
  if_sequence :: nat
  if_re :: string
  if_recipients :: "string list"
  if_thread :: string

text \<open>The CBOR tuples that are signed; a challenge is its own tuple.\<close>

record frame_actor_body =
  ab_version :: nat
  ab_generation :: string
  ab_conversation :: string
  ab_sequence :: nat
  ab_previous :: bytes
  ab_payload :: bytes

record frame_nexus_body =
  nb_actor_body :: frame_actor_body
  nb_actor_key :: bytes
  nb_actor_signature :: bytes

record conversation_genesis =
  cg_version :: nat
  cg_generation :: string
  cg_nexus_key :: bytes
  cg_scope :: string
  cg_nonce :: bytes

datatype change_kind =
  PresenceChange | ActivityChange | RenewalChange | DepartureChange | ExpirationChange
| ForgottenChange | ConversationChange | FrameChange

record change =
  ch_cursor :: cursor
  ch_kind :: change_kind
  ch_id :: string
  ch_value :: string
  ch_activity :: "activity option"
  ch_frame :: "inbox_frame option"

section \<open>The hub\<close>

record conversation =
  cv_next :: nat
  cv_last :: bytes
  cv_genesis :: bytes
  cv_frames :: "frame list"
  cv_about :: string

type_synonym frame_ref = "string \<times> nat"

text \<open>The activity clock is \<open>None\<close> for the zero time.\<close>

record presence_entry =
  pe_value :: string
  pe_actor :: string
  pe_fingerprint :: string
  pe_inbox :: bool
  pe_handle :: string
  pe_activity :: activity
  pe_expires :: int
  pe_changed_at :: "int option"

record pending_session =
  ps_actor :: string
  ps_fingerprint :: string
  ps_value :: string
  ps_ttl :: int
  ps_activity :: activity
  ps_expires :: int

record hub =
  hb_generation :: string
  hb_position :: nat
  hb_base :: nat
  hb_history_cap :: nat
  hb_history :: "change list"
  hb_presence :: "(string \<times> presence_entry) list"
  hb_convs :: "(string \<times> conversation) list"
  hb_about :: "(string \<times> string) list"
  hb_participants :: "(string \<times> string list) list"
  hb_inboxes :: "(string \<times> frame_ref list) list"
  hb_pending :: "(string \<times> pending_session) list"
  hb_public_key :: bytes
  hb_private_key :: bytes
  hb_retained_frames :: int
  hb_retained_bytes :: int

section \<open>What is outside\<close>

record live_lib =
  ed25519_verify :: "bytes \<Rightarrow> bytes \<Rightarrow> bytes \<Rightarrow> bool"
  ed25519_sign :: "bytes \<Rightarrow> bytes \<Rightarrow> bytes"
  ed25519_public :: "bytes \<Rightarrow> bytes"
  sha256 :: "bytes \<Rightarrow> bytes"
  cbor_session :: "session_challenge \<Rightarrow> bytes option"
  cbor_actor_body :: "frame_actor_body \<Rightarrow> bytes option"
  cbor_nexus_body :: "frame_nexus_body \<Rightarrow> bytes option"
  cbor_frame :: "frame \<Rightarrow> bytes option"
  cbor_genesis :: "conversation_genesis \<Rightarrow> bytes option"
  cbor_read_genesis :: "bytes \<Rightarrow> conversation_genesis option"
  json_message :: "message \<Rightarrow> bytes option"
  json_read_message :: "bytes \<Rightarrow> message option"

text \<open>
  Draws are consumed from the head; \<open>rand.Read\<close> fails when a list is exhausted. \<open>le_arrange\<close> gives
  the order in which a range over a map visits its keys.
\<close>

record live_env =
  le_now :: int
  le_handle :: "bytes option"
  le_credentials :: "bytes list"
  le_nonces :: "bytes list"
  le_arrange :: "string list \<Rightarrow> string list"

section \<open>Errors\<close>

text \<open>One constructor per message, grouped by the part that refuses.\<close>

datatype session_error =
  SessionAndActorRequired | SessionBoundElsewhere | ActorKeyInvalid | ActorNameInvalid |
  PresenceValueInvalid | TTLTooLong | UnknownStatus | FocusTooMany | FocusInvalid |
  NoteInvalid | PendingChallengeLimit | ChallengeInvalid | CredentialInvalid |
  LiveSessionLimit | ActorSessionLimit | HistoryCapInvalid | PrivateKeyInvalid

datatype frame_error =
  ErrStaleDraft | InvalidActorSignature | ScopeInvalid | GenesisSize | GenesisInvalid |
  GenesisNotCanonical | DraftGenesisInvalid | DraftConversationMismatch | UnknownConversation
  | AboutMismatch | PayloadTooLarge | CapacityFull

datatype message_error =
  MessageInvalid | MessageScope | RecipientsNotCanonical | PayloadNotCanonical | ReplyTarget |
  ReplyOmitsParent | AboutInvalid | TextInvalid | ReInvalid | TooManyRecipients |
  RecipientLength | RecipientNotHex | InboxFull | AckTooMany | HandleTooLong | HandleShape |
  HandleSequence

datatype verify_error =
  FrameShape | UntrustedNexus | GenesisEnvelope | ConversationIdMismatch | BadActorSignature |
  BadNexusSignature

datatype live_error =
  ErrReset | RandFailed | EncodeFailed
| SessionError session_error | FrameError frame_error | MessageError message_error

| ChainBroken nat | IdentityChanged nat | FrameInvalid nat verify_error

section \<open>Identifiers\<close>

definition actor_fingerprint :: "('l) live_lib_scheme \<Rightarrow> bytes \<Rightarrow> string" where
  "actor_fingerprint L key = hex_encode (sha256 L key)"

text \<open>\<open>host.ActorFingerprint\<close>, \<open>host.ValidActorFingerprint\<close>.\<close>

definition checked_fingerprint :: "('l) live_lib_scheme \<Rightarrow> bytes \<Rightarrow> live_error + string" where
  "checked_fingerprint L key =
     (if length key \<noteq> public_key_size then Inl (SessionError ActorKeyInvalid) else Inr (actor_fingerprint L key))"

definition actor_fingerprint_length :: nat where
  "actor_fingerprint_length = sha256_size * 2"

definition valid_actor_fingerprint :: "string \<Rightarrow> bool" where
  "valid_actor_fingerprint value \<longleftrightarrow>
     length value = actor_fingerprint_length
     \<and> (case hex_decode value of None \<Rightarrow> False
        | Some d \<Rightarrow> length d = sha256_size \<and> hex_encode d = value)"

definition valid_credential :: "string \<Rightarrow> bool" where
  "valid_credential value \<longleftrightarrow>
     length value = length credential_prefix + credential_bytes * 2
     \<and> has_prefix credential_prefix value
     \<and> hex_decode (drop (length credential_prefix) value) \<noteq> None"

definition valid_prefixed_hex :: "string \<Rightarrow> string \<Rightarrow> nat \<Rightarrow> bool" where
  "valid_prefixed_hex value prefix count \<longleftrightarrow>
     length value = length prefix + count * 2 \<and> has_prefix prefix value
     \<and> (case hex_decode (drop (length prefix) value) of None \<Rightarrow> False
        | Some d \<Rightarrow> hex_encode d = drop (length prefix) value)"

definition valid_scope :: "string \<Rightarrow> bool" where
  "valid_scope s \<longleftrightarrow> s \<noteq> [] \<and> length s \<le> max_message_id_bytes \<and> utf8_valid s"

text \<open>\<open>mintHandle\<close> and the shape of a minted credential.\<close>

definition mint_handle :: "bytes \<Rightarrow> string" where
  "mint_handle raw = ''session:'' @ hex_encode raw"

definition mint_credential :: "bytes \<Rightarrow> string" where
  "mint_credential raw = credential_prefix @ hex_encode raw"

section \<open>Thread handles\<close>

definition thread_handle :: "string \<Rightarrow> nat \<Rightarrow> string" where
  "thread_handle conversation sequence = conversation @ '':'' @ format_uint sequence"

definition parse_thread_handle :: "string \<Rightarrow> live_error + string \<times> nat" where
  "parse_thread_handle handle =
     (if length handle > max_message_id_bytes then Inl (MessageError HandleTooLong)
      else (case last_index (CHR '':'') handle of
              None \<Rightarrow> Inl (MessageError HandleShape)
            | Some i \<Rightarrow>
                if i = 0 \<or> i = length handle - 1 then Inl (MessageError HandleShape)
                else (case parse_uint (drop (Suc i) handle) of
                        None \<Rightarrow> Inl (MessageError HandleSequence)
                      | Some n \<Rightarrow>
                          if format_uint n \<noteq> drop (Suc i) handle then Inl (MessageError HandleSequence)
                          else Inr (take i handle, n))))"

section \<open>Leases and activity\<close>

definition normalize_lease :: "string \<Rightarrow> string \<Rightarrow> int \<Rightarrow> live_error + int" where
  "normalize_lease actor value ttl =
     (if actor = [] \<or> length actor > max_actor_name_bytes \<or> \<not> utf8_valid actor
      then Inl (SessionError ActorNameInvalid)
      else if length value > max_presence_value_bytes \<or> \<not> utf8_valid value
      then Inl (SessionError PresenceValueInvalid)
      else (let t = (if ttl \<le> 0 then default_session_ttl else ttl) in
            if t > max_session_ttl then Inl (SessionError TTLTooLong) else Inr t))"

fun normalize_focus :: "string list \<Rightarrow> string list \<Rightarrow> live_error + string list" where
  "normalize_focus kept [] = Inr (sort_strings kept)"
| "normalize_focus kept (e # es) =
     (if e = [] \<or> length e > max_focus_event_bytes \<or> \<not> utf8_valid e then Inl (SessionError FocusInvalid)
      else normalize_focus (if e \<in> set kept then kept else kept @ [e]) es)"

definition normalize_note :: "string option \<Rightarrow> activity \<Rightarrow> live_error + activity" where
  "normalize_note update a =
     (case update of
        None \<Rightarrow> Inr a
      | Some n \<Rightarrow>
          (let note = trim_space n in
           if length note > max_activity_note_bytes \<or> \<not> utf8_valid note then Inl (SessionError NoteInvalid)
           else Inr (a\<lparr>ac_note := note\<rparr>)))"

definition normalize_activity ::
  "activity \<Rightarrow> activity_update \<Rightarrow> bool \<Rightarrow> live_error + activity" where
  "normalize_activity held update exists =
     (let start = (if \<not> exists \<or> ac_status held = NoStatus
                   then \<lparr>ac_status = ActivityAvailable, ac_focus = [], ac_note = []\<rparr> else held)
      in case (case au_status update of
                 None \<Rightarrow> Inr start
               | Some s \<Rightarrow> if s \<in> {ActivityAvailable, ActivityBusy, ActivityWaiting, ActivityBlocked}
                           then Inr (start\<lparr>ac_status := s\<rparr>) else Inl (SessionError UnknownStatus)) of
           Inl e \<Rightarrow> Inl e
         | Inr a \<Rightarrow>
             (case au_focus update of
                None \<Rightarrow> normalize_note (au_note update) a
              | Some es \<Rightarrow>
                  if length es > max_focus_events then Inl (SessionError FocusTooMany)
                  else (case normalize_focus [] es of
                          Inl e \<Rightarrow> Inl e
                        | Inr focus \<Rightarrow>
                            normalize_note (au_note update) (a\<lparr>ac_focus := focus\<rparr>))))"

definition activity_update_from :: "activity \<Rightarrow> activity_update" where
  "activity_update_from a =
     \<lparr>au_status = Some (ac_status a), au_focus = Some (ac_focus a), au_note = Some (ac_note a)\<rparr>"

section \<open>Messages\<close>

definition validate_message :: "message \<Rightarrow> live_error option" where
  "validate_message m =
     (if \<not> valid_scope (ms_about m) then Some (MessageError AboutInvalid)
      else if ms_text m = [] \<or> length (ms_text m) > max_message_text_bytes \<or> \<not> utf8_valid (ms_text m)
      then Some (MessageError TextInvalid)
      else if length (ms_re m) > max_message_id_bytes \<or> \<not> utf8_valid (ms_re m)
      then Some (MessageError ReInvalid)
      else if length (ms_recipients m) > max_message_recipients then Some (MessageError TooManyRecipients)
      else None)"

fun distinct_recipients :: "string list \<Rightarrow> string list \<Rightarrow> live_error + string list" where
  "distinct_recipients kept [] = Inr kept"
| "distinct_recipients kept (r # rs) =
     (if length r \<noteq> actor_fingerprint_length then Inl (MessageError RecipientLength)
      else if \<not> valid_actor_fingerprint r then Inl (MessageError RecipientNotHex)
      else distinct_recipients (if r \<in> set kept then kept else kept @ [r]) rs)"

definition normalize_recipients :: "string list \<Rightarrow> live_error + string list" where
  "normalize_recipients rs =
     (if length rs > max_message_recipients + 1 then Inl (MessageError TooManyRecipients)
      else (case distinct_recipients [] rs of
              Inl e \<Rightarrow> Inl e
            | Inr kept \<Rightarrow> if length kept > max_message_recipients then Inl (MessageError TooManyRecipients)
                          else Inr (sort_strings kept)))"

end
