(* ===== verification/LiveHub.thy ===== *)
theory LiveHub
  imports LiveState
begin

text \<open>
  The sessions of a hub (\<open>host/live/live.go\<close>): the change log with its window, leases and their
  expiry, the proof-of-possession challenge, renewal, revocation, and forgetting conversations whose
  last participant has left. An operation returns its result and the hub it leaves; a refused
  operation may still have expired leases.
\<close>

definition new_hub ::
  "('l) live_lib_scheme \<Rightarrow> nat \<Rightarrow> bytes \<Rightarrow> bytes \<Rightarrow> live_error + hub" where
  "new_hub L history_cap private_key generation_bytes =
     (if history_cap < 1 then Inl (SessionError HistoryCapInvalid)
      else if length private_key \<noteq> private_key_size then Inl (SessionError PrivateKeyInvalid)
      else Inr \<lparr>hb_generation = ''generation:'' @ hex_encode generation_bytes, hb_position = 0,
        hb_base = 0, hb_history_cap = history_cap, hb_history = [], hb_presence = [],
        hb_convs = [], hb_about = [], hb_participants = [], hb_inboxes = [], hb_pending = [],
        hb_public_key = ed25519_public L private_key, hb_private_key = private_key,
        hb_retained_frames = 0, hb_retained_bytes = 0\<rparr>)"

section \<open>The change log\<close>

definition plain_change :: "hub \<Rightarrow> change_kind \<Rightarrow> string \<Rightarrow> string \<Rightarrow> change" where
  "plain_change h kind i value =
     \<lparr>ch_cursor = \<lparr>cu_generation = hb_generation h, cu_position = hb_position h\<rparr>,
      ch_kind = kind, ch_id = i, ch_value = value, ch_activity = None, ch_frame = None\<rparr>"

text \<open>\<open>append\<close>: the window keeps the newest \<open>historyCap\<close> changes, and the base is what came before.\<close>

definition append_change :: "change_kind \<Rightarrow> string \<Rightarrow> string \<Rightarrow> hub \<Rightarrow> change \<times> hub" where
  "append_change kind i value h =
     (let h1 = h\<lparr>hb_position := hb_position h + 1\<rparr>;
          c = plain_change h1 kind i value;
          history = hb_history h @ [c]
      in (c, if length history > hb_history_cap h
             then h1\<lparr>hb_history := tl history,
                     hb_base := cu_position (ch_cursor (hd (tl history))) - 1\<rparr>
             else h1\<lparr>hb_history := history\<rparr>))"

definition note_change :: "change_kind \<Rightarrow> string \<Rightarrow> string \<Rightarrow> hub \<Rightarrow> hub" where
  "note_change kind i value h = snd (append_change kind i value h)"

section \<open>Forgetting\<close>

definition payload_bytes :: "frame list \<Rightarrow> int" where
  "payload_bytes fs = sum_list (map (\<lambda>f. int (length (fr_payload f))) fs)"

definition forget_conversation :: "string \<Rightarrow> hub \<Rightarrow> hub" where
  "forget_conversation i h =
     (case map_of (hb_convs h) i of
        None \<Rightarrow> h
      | Some c \<Rightarrow>
          note_change ForgottenChange i []
            (h\<lparr>hb_retained_frames := hb_retained_frames h - int (length (cv_frames c)),
               hb_retained_bytes := hb_retained_bytes h - payload_bytes (cv_frames c),
               hb_convs := del i (hb_convs h),
               hb_participants := del i (hb_participants h),
               hb_inboxes := map (\<lambda>(s, refs). (s, filter (\<lambda>(c, n). c \<noteq> i) refs)) (hb_inboxes h),
               hb_about := filter (\<lambda>(a, c). c \<noteq> i) (hb_about h)\<rparr>))"

definition leave_conversation :: "string \<Rightarrow> string \<Rightarrow> hub \<Rightarrow> hub" where
  "leave_conversation session i h =
     (case map_of (hb_participants h) i of
        None \<Rightarrow> h
      | Some members \<Rightarrow>
          (let rest = filter (\<lambda>s. s \<noteq> session) members;
               h1 = h\<lparr>hb_participants := put i rest (hb_participants h)\<rparr>
           in if rest = [] then forget_conversation i h1 else h1))"

definition remove_participant :: "live_env \<Rightarrow> string \<Rightarrow> hub \<Rightarrow> hub" where
  "remove_participant env session h =
     fold (leave_conversation session) (le_arrange env (map fst (hb_participants h))) h"

definition delete_inbox :: "string \<Rightarrow> hub \<Rightarrow> hub" where
  "delete_inbox session h = h\<lparr>hb_inboxes := del session (hb_inboxes h)\<rparr>"

definition forget_all_if_empty :: "live_env \<Rightarrow> hub \<Rightarrow> hub" where
  "forget_all_if_empty env h =
     (if hb_presence h \<noteq> [] then h
      else fold forget_conversation (le_arrange env (map fst (hb_convs h))) h)"

section \<open>Leases\<close>

text \<open>What departure, revocation and expiry have in common.\<close>

definition end_session :: "live_env \<Rightarrow> change_kind \<Rightarrow> string \<Rightarrow> presence_entry \<Rightarrow> hub \<Rightarrow> hub" where
  "end_session env kind session entry h =
     remove_participant env session
       (note_change kind (pe_handle entry) []
          (delete_inbox session (h\<lparr>hb_presence := del session (hb_presence h)\<rparr>)))"

definition expire_session :: "live_env \<Rightarrow> string \<Rightarrow> hub \<Rightarrow> hub" where
  "expire_session env session h =
     (case map_of (hb_presence h) session of
        None \<Rightarrow> h
      | Some e \<Rightarrow> if pe_expires e > le_now env then h
                  else end_session env ExpirationChange session e h)"

definition expire :: "live_env \<Rightarrow> hub \<Rightarrow> hub" where
  "expire env h =
     (let h1 = h\<lparr>hb_pending := filter (\<lambda>(k, p). ps_expires p > le_now env) (hb_pending h)\<rparr>
      in forget_all_if_empty env
           (fold (expire_session env) (le_arrange env (map fst (hb_presence h1))) h1))"

definition same_holder :: "string \<Rightarrow> string \<Rightarrow> presence_entry \<Rightarrow> bool" where
  "same_holder actor fingerprint e \<longleftrightarrow>
     (fingerprint \<noteq> [] \<and> pe_fingerprint e = fingerprint)
     \<or> (fingerprint = [] \<and> pe_fingerprint e = [] \<and> pe_actor e = actor)"

text \<open>The entry an absent key reads as.\<close>

definition no_entry :: presence_entry where
  "no_entry = \<lparr>pe_value = [], pe_actor = [], pe_fingerprint = [], pe_inbox = False, pe_handle = [],
     pe_activity = no_activity, pe_expires = 0, pe_changed_at = None\<rparr>"

definition entry_of :: "hub \<Rightarrow> string \<Rightarrow> presence_entry" where
  "entry_of h session = (case map_of (hb_presence h) session of None \<Rightarrow> no_entry | Some e \<Rightarrow> e)"

text \<open>A new lease needs room in the hub and in its holder's share.\<close>

definition room_for :: "hub \<Rightarrow> string \<Rightarrow> string \<Rightarrow> live_error option" where
  "room_for h actor fingerprint =
     (if length (hb_presence h) \<ge> max_live_sessions then Some (SessionError LiveSessionLimit)
      else if length (filter (\<lambda>(s, e). same_holder actor fingerprint e) (hb_presence h))
              \<ge> max_sessions_per_actor then Some (SessionError ActorSessionLimit)
      else None)"

definition choose_handle :: "live_env \<Rightarrow> presence_entry \<Rightarrow> live_error + string" where
  "choose_handle env held =
     (if pe_handle held \<noteq> [] then Inr (pe_handle held)
      else (case le_handle env of None \<Rightarrow> Inl RandFailed | Some raw \<Rightarrow> Inr (mint_handle raw)))"

text \<open>The write of \<open>announceFor\<close>, once every check has passed.\<close>

definition publish_presence ::
  "live_env \<Rightarrow> string \<Rightarrow> bool \<Rightarrow> presence_entry \<Rightarrow> presence_entry \<Rightarrow> hub \<Rightarrow> change \<times> hub" where
  "publish_presence env session exists held entry h =
     (let h1 = h\<lparr>hb_presence := put session entry (hb_presence h)\<rparr>;
          same = (exists \<and> pe_value held = pe_value entry \<and> pe_actor held = pe_actor entry
                  \<and> pe_fingerprint held = pe_fingerprint entry)
      in if same \<and> pe_activity held = pe_activity entry
         then ((plain_change h1 RenewalChange (pe_handle entry) (pe_value entry))
                 \<lparr>ch_activity := Some (pe_activity entry)\<rparr>, h1)
         else (case append_change (if same then ActivityChange else PresenceChange)
                      (pe_handle entry) (pe_value entry) h1 of
                 (c, h2) \<Rightarrow>
                   (let c' = c\<lparr>ch_activity := Some (pe_activity entry)\<rparr>
                    in (c', h2\<lparr>hb_history := butlast (hb_history h2) @ [c']\<rparr>))))"

definition announce_for ::
  "live_env \<Rightarrow> string \<Rightarrow> string \<Rightarrow> string \<Rightarrow> string \<Rightarrow> int \<Rightarrow> activity_update \<Rightarrow> hub \<Rightarrow>
   (live_error + change) \<times> hub" where
  "announce_for env session actor fingerprint value ttl0 update h =
     (case normalize_lease actor value ttl0 of
        Inl e \<Rightarrow> (Inl e, h)
      | Inr ttl \<Rightarrow>
          (let exists = map_of (hb_presence h) session \<noteq> None; held = entry_of h session in
           case (if exists then None else room_for h actor fingerprint) of
             Some e \<Rightarrow> (Inl e, h)
           | None \<Rightarrow>
               (let h1 = (if exists then h else delete_inbox session h) in
                case normalize_activity (pe_activity held) update exists of
                  Inl e \<Rightarrow> (Inl e, h1)
                | Inr activity \<Rightarrow>
                    (case choose_handle env held of
                       Inl e \<Rightarrow> (Inl e, h1)
                     | Inr handle \<Rightarrow>
                         (let changed_at =
                                (if \<not> exists \<or> pe_changed_at held = None
                                    \<or> pe_activity held \<noteq> activity
                                 then Some (le_now env) else pe_changed_at held);
                              entry = \<lparr>pe_value = value, pe_actor = actor,
                                pe_fingerprint = fingerprint, pe_inbox = pe_inbox held,
                                pe_handle = handle, pe_activity = activity,
                                pe_expires = le_now env + ttl, pe_changed_at = changed_at\<rparr>
                          in apfst Inr (publish_presence env session exists held entry h1))))))"

section \<open>Opening a session\<close>

text \<open>\<open>openSessionIdentityLocked\<close> draws until the credential names no session.\<close>

fun fresh_credential :: "hub \<Rightarrow> bytes list \<Rightarrow> live_error + string" where
  "fresh_credential h [] = Inl RandFailed"
| "fresh_credential h (raw # draws) =
     (if map_of (hb_presence h) (mint_credential raw) \<noteq> None then fresh_credential h draws
      else Inr (mint_credential raw))"

definition open_session_identity_locked ::
  "live_env \<Rightarrow> string \<Rightarrow> string \<Rightarrow> string \<Rightarrow> int \<Rightarrow> activity_update \<Rightarrow> hub \<Rightarrow>
   (live_error + string \<times> change) \<times> hub" where
  "open_session_identity_locked env actor fingerprint value ttl update h =
     (case fresh_credential h (le_credentials env) of
        Inl e \<Rightarrow> (Inl e, h)
      | Inr credential \<Rightarrow>
          (case announce_for env credential actor fingerprint value ttl update h of
             (Inl e, h1) \<Rightarrow> (Inl e, h1)
           | (Inr c, h1) \<Rightarrow> (Inr (credential, c), h1)))"

definition open_trusted_session ::
  "('l) live_lib_scheme \<Rightarrow> live_env \<Rightarrow> string \<Rightarrow> bytes \<Rightarrow> string \<Rightarrow> int \<Rightarrow> activity_update \<Rightarrow> hub \<Rightarrow>
   (live_error + string \<times> change) \<times> hub" where
  "open_trusted_session L env actor actor_key value ttl update h =
     (case checked_fingerprint L actor_key of
        Inl e \<Rightarrow> (Inl e, h)
      | Inr fingerprint \<Rightarrow>
          open_session_identity_locked env actor fingerprint value ttl update (expire env h))"

definition session_signing_bytes ::
  "('l) live_lib_scheme \<Rightarrow> session_challenge \<Rightarrow> live_error + bytes" where
  "session_signing_bytes L c =
     (if sc_version c \<noteq> 0 \<or> \<not> valid_prefixed_hex (sc_generation c) ''generation:'' 16
         \<or> length (sc_nonce c) \<noteq> 32 \<or> length (sc_actor_key c) \<noteq> public_key_size
      then Inl (SessionError ChallengeInvalid)
      else (case cbor_session L c of None \<Rightarrow> Inl EncodeFailed
            | Some b \<Rightarrow> Inr (session_proof_domain @ b)))"

definition session_challenge_key ::
  "('l) live_lib_scheme \<Rightarrow> session_challenge \<Rightarrow> live_error + string" where
  "session_challenge_key L c =
     (case session_signing_bytes L c of
        Inl e \<Rightarrow> Inl e | Inr b \<Rightarrow> Inr (hex_encode (sha256 L b)))"

definition challenge_for :: "hub \<Rightarrow> bytes \<Rightarrow> bytes \<Rightarrow> session_challenge" where
  "challenge_for h actor_key nonce =
     \<lparr>sc_version = 0, sc_generation = hb_generation h, sc_nonce = nonce, sc_actor_key = actor_key\<rparr>"

fun fresh_challenge ::
  "('l) live_lib_scheme \<Rightarrow> hub \<Rightarrow> bytes \<Rightarrow> bytes list \<Rightarrow> live_error + session_challenge \<times> string" where
  "fresh_challenge L h actor_key [] = Inl RandFailed"
| "fresh_challenge L h actor_key (nonce # draws) =
     (let c = challenge_for h actor_key nonce in
      case session_challenge_key L c of
        Inl e \<Rightarrow> Inl e
      | Inr key \<Rightarrow> if map_of (hb_pending h) key \<noteq> None then fresh_challenge L h actor_key draws
                    else Inr (c, key))"

definition prepare_session ::
  "('l) live_lib_scheme \<Rightarrow> live_env \<Rightarrow> string \<Rightarrow> bytes \<Rightarrow> string \<Rightarrow> int \<Rightarrow> activity_update \<Rightarrow> hub \<Rightarrow>
   (live_error + session_challenge) \<times> hub" where
  "prepare_session L env actor actor_key value ttl0 update h =
     (case checked_fingerprint L actor_key of
        Inl e \<Rightarrow> (Inl e, h)
      | Inr fingerprint \<Rightarrow>
         (case normalize_lease actor value ttl0 of
            Inl e \<Rightarrow> (Inl e, h)
          | Inr ttl \<Rightarrow>
             (case normalize_activity no_activity update False of
                Inl e \<Rightarrow> (Inl e, h)
              | Inr activity \<Rightarrow>
                  (let h1 = expire env h in
                   if length (hb_pending h1) \<ge> max_pending_session_challenges
                   then (Inl (SessionError PendingChallengeLimit), h1)
                   else (case fresh_challenge L h1 actor_key (le_nonces env) of
                           Inl e \<Rightarrow> (Inl e, h1)
                         | Inr (c, key) \<Rightarrow>
                             (Inr c, h1\<lparr>hb_pending := put key
                                \<lparr>ps_actor = actor, ps_fingerprint = fingerprint, ps_value = value,
                                 ps_ttl = ttl, ps_activity = activity,
                                 ps_expires = le_now env + session_challenge_ttl\<rparr>
                                (hb_pending h1)\<rparr>))))))"

definition open_session ::
  "('l) live_lib_scheme \<Rightarrow> live_env \<Rightarrow> session_challenge \<Rightarrow> bytes \<Rightarrow> hub \<Rightarrow>
   (live_error + string \<times> change) \<times> hub" where
  "open_session L env c signature h0 =
     (let h = expire env h0 in
      case session_challenge_key L c of
        Inl e \<Rightarrow> (Inl (SessionError ChallengeInvalid), h)
      | Inr key \<Rightarrow>
          (case map_of (hb_pending h) key of
             None \<Rightarrow> (Inl (SessionError ChallengeInvalid), h)
           | Some p \<Rightarrow>
               (let h1 = h\<lparr>hb_pending := del key (hb_pending h)\<rparr> in
                if length signature \<noteq> signature_size then (Inl (FrameError InvalidActorSignature), h1)
                else (case session_signing_bytes L c of
                        Inl e \<Rightarrow> (Inl (FrameError InvalidActorSignature), h1)
                      | Inr b \<Rightarrow>
                          if \<not> ed25519_verify L (sc_actor_key c) b signature
                          then (Inl (FrameError InvalidActorSignature), h1)
                          else open_session_identity_locked env (ps_actor p) (ps_fingerprint p)
                                 (ps_value p) (ps_ttl p) (activity_update_from (ps_activity p))
                                 h1))))"

section \<open>Renewal and departure\<close>

text \<open>The white-box entry point; the tests' long leases are capped rather than refused.\<close>

definition announce_session_identity ::
  "live_env \<Rightarrow> string \<Rightarrow> string \<Rightarrow> string \<Rightarrow> string \<Rightarrow> int \<Rightarrow> activity_update \<Rightarrow> hub \<Rightarrow>
   (live_error + change) \<times> hub" where
  "announce_session_identity env session actor fingerprint value ttl update h0 =
     (if session = [] \<or> actor = [] then (Inl (SessionError SessionAndActorRequired), h0)
      else (let t = (if ttl > max_session_ttl then max_session_ttl else ttl);
                h = expire env h0
            in case map_of (hb_presence h) session of
                 Some e \<Rightarrow>
                   if pe_actor e \<noteq> actor \<or> pe_fingerprint e \<noteq> fingerprint
                   then (Inl (SessionError SessionBoundElsewhere), h)
                   else announce_for env session actor fingerprint value t update h
               | None \<Rightarrow> announce_for env session actor fingerprint value t update h))"

definition renew_session_identity ::
  "live_env \<Rightarrow> string \<Rightarrow> string \<Rightarrow> string \<Rightarrow> string \<Rightarrow> int \<Rightarrow> activity_update \<Rightarrow> hub \<Rightarrow>
   (live_error + change) \<times> hub" where
  "renew_session_identity env credential actor fingerprint value ttl update h0 =
     (let h = expire env h0 in
      if \<not> valid_credential credential then (Inl (SessionError CredentialInvalid), h)
      else (case map_of (hb_presence h) credential of
              None \<Rightarrow> (Inl (SessionError CredentialInvalid), h)
            | Some e \<Rightarrow>
                if pe_actor e \<noteq> actor \<or> pe_fingerprint e \<noteq> fingerprint
                then (Inl (SessionError CredentialInvalid), h)
                else announce_for env credential actor fingerprint value ttl update h))"

definition renew_session ::
  "('l) live_lib_scheme \<Rightarrow> live_env \<Rightarrow> string \<Rightarrow> string \<Rightarrow> bytes \<Rightarrow> string \<Rightarrow> int \<Rightarrow> activity_update \<Rightarrow>
   hub \<Rightarrow> (live_error + change) \<times> hub" where
  "renew_session L env credential actor actor_key value ttl update h =
     (case checked_fingerprint L actor_key of
        Inl e \<Rightarrow> (Inl (SessionError CredentialInvalid), h)
      | Inr fingerprint \<Rightarrow>
          renew_session_identity env credential actor fingerprint value ttl update h)"

definition revoke_session ::
  "live_env \<Rightarrow> string \<Rightarrow> hub \<Rightarrow> (live_error + change) \<times> hub" where
  "revoke_session env credential h0 =
     (let h = expire env h0 in
      if \<not> valid_credential credential then (Inl (SessionError CredentialInvalid), h)
      else (case map_of (hb_presence h) credential of
              None \<Rightarrow> (Inl (SessionError CredentialInvalid), h)
            | Some e \<Rightarrow>
                (let h1 = delete_inbox credential
                            (h\<lparr>hb_presence := del credential (hb_presence h)\<rparr>)
                 in (Inr (fst (append_change DepartureChange (pe_handle e) [] h1)),
                     forget_all_if_empty env (end_session env DepartureChange credential e h)))))"

definition depart :: "live_env \<Rightarrow> string \<Rightarrow> hub \<Rightarrow> change \<times> hub" where
  "depart env session h =
     (let e = entry_of h session;
          h1 = delete_inbox session (h\<lparr>hb_presence := del session (hb_presence h)\<rparr>)
      in (fst (append_change DepartureChange (pe_handle e) [] h1),
          forget_all_if_empty env (end_session env DepartureChange session e h)))"

section \<open>Reading sessions\<close>

definition handle_for :: "hub \<Rightarrow> string \<Rightarrow> string" where
  "handle_for h session = pe_handle (entry_of h session)"

definition session_actor :: "live_env \<Rightarrow> string \<Rightarrow> hub \<Rightarrow> (string \<times> bool) \<times> hub" where
  "session_actor env session h0 =
     (let h = expire env h0; e = entry_of h session
      in ((pe_actor e, map_of (hb_presence h) session \<noteq> None \<and> pe_actor e \<noteq> []), h))"

definition live_sessions_for_actor :: "live_env \<Rightarrow> string \<Rightarrow> hub \<Rightarrow> nat \<times> hub" where
  "live_sessions_for_actor env fingerprint h0 =
     (let h = expire env h0
      in (length (filter (\<lambda>(s, e). pe_fingerprint e = fingerprint) (hb_presence h)), h))"

definition enable_inbox :: "live_env \<Rightarrow> string \<Rightarrow> hub \<Rightarrow> (live_error + unit) \<times> hub" where
  "enable_inbox env session h0 =
     (let h = expire env h0 in
      case map_of (hb_presence h) session of
        None \<Rightarrow> (Inl (SessionError CredentialInvalid), h)
      | Some e \<Rightarrow>
          (Inr (), h\<lparr>hb_presence := put session (e\<lparr>pe_inbox := True\<rparr>) (hb_presence h)\<rparr>))"

end
