(* ===== verification/LiveFrames.thy ===== *)
theory LiveFrames
  imports LiveHub
begin

text \<open>
  Conversations of a hub (\<open>host/live/live.go\<close>): preparing and submitting a signed frame, the message
  layer with its recipients and inboxes, acknowledgement, and the independent verification of a
  frame and of a chain of frames.
\<close>

section \<open>Signed bodies\<close>

definition actor_body :: "string \<Rightarrow> string \<Rightarrow> nat \<Rightarrow> bytes \<Rightarrow> bytes \<Rightarrow> frame_actor_body" where
  "actor_body generation conversation sequence previous payload =
     \<lparr>ab_version = 0, ab_generation = generation, ab_conversation = conversation,
      ab_sequence = sequence, ab_previous = previous, ab_payload = payload\<rparr>"

definition actor_signing_bytes :: "('l) live_lib_scheme \<Rightarrow> draft \<Rightarrow> bytes option" where
  "actor_signing_bytes L d =
     map_option (\<lambda>b. actor_frame_domain @ b)
       (cbor_actor_body L (actor_body (dr_generation d) (dr_conversation d) (dr_sequence d)
                             (dr_previous d) (dr_payload d)))"

text \<open>\<open>verifyBytes\<close> and \<open>signIssuerBytes\<close>: the domain before the encoding.\<close>

definition verify_bytes :: "('l) live_lib_scheme \<Rightarrow> bytes \<Rightarrow> bytes \<Rightarrow> bytes option \<Rightarrow> bytes \<Rightarrow> bool" where
  "verify_bytes L domain key encoded signature \<longleftrightarrow>
     (case encoded of None \<Rightarrow> False | Some b \<Rightarrow> ed25519_verify L key (domain @ b) signature)"

definition sign_issuer_bytes ::
  "('l) live_lib_scheme \<Rightarrow> bytes \<Rightarrow> bytes \<Rightarrow> bytes option \<Rightarrow> live_error + bytes" where
  "sign_issuer_bytes L domain key encoded =
     (case encoded of None \<Rightarrow> Inl EncodeFailed | Some b \<Rightarrow> Inr (ed25519_sign L key (domain @ b)))"

definition frame_hash :: "('l) live_lib_scheme \<Rightarrow> frame \<Rightarrow> live_error + bytes" where
  "frame_hash L f =
     (case cbor_frame L f of None \<Rightarrow> Inl EncodeFailed | Some b \<Rightarrow> Inr (sha256 L b))"

section \<open>Conversation identity\<close>

definition conversation_id :: "('l) live_lib_scheme \<Rightarrow> bytes \<Rightarrow> string" where
  "conversation_id L genesis = ''eph:sha256:'' @ hex_encode (sha256 L genesis)"

definition new_conversation_genesis ::
  "('l) live_lib_scheme \<Rightarrow> hub \<Rightarrow> string \<Rightarrow> bytes \<Rightarrow> live_error + bytes \<times> string" where
  "new_conversation_genesis L h scope nonce =
     (case cbor_genesis L \<lparr>cg_version = 1, cg_generation = hb_generation h,
              cg_nexus_key = hb_public_key h, cg_scope = scope, cg_nonce = nonce\<rparr> of
        None \<Rightarrow> Inl EncodeFailed
      | Some g \<Rightarrow> Inr (g, conversation_id L g))"

definition decode_conversation_genesis ::
  "('l) live_lib_scheme \<Rightarrow> bytes \<Rightarrow> live_error + conversation_genesis" where
  "decode_conversation_genesis L raw =
     (if raw = [] \<or> length raw > max_conversation_genesis_bytes then Inl (FrameError GenesisSize)
      else (case cbor_read_genesis L raw of
              None \<Rightarrow> Inl (FrameError GenesisInvalid)
            | Some g \<Rightarrow> if cbor_genesis L g \<noteq> Some raw then Inl (FrameError GenesisNotCanonical) else Inr g))"

text \<open>\<open>findConversation\<close>: no conversation, an existing one, or a refusal.\<close>

definition about_of :: "hub \<Rightarrow> string \<Rightarrow> string" where
  "about_of h about = (case map_of (hb_about h) about of None \<Rightarrow> [] | Some c \<Rightarrow> c)"

definition find_conversation ::
  "hub \<Rightarrow> string \<Rightarrow> string \<Rightarrow> live_error + (string \<times> conversation) option" where
  "find_conversation h about conversation0 =
     (let anchored = about_of h about;
          conversation = (if conversation0 = [] then anchored else conversation0)
      in if conversation = [] then Inr None
         else (case map_of (hb_convs h) conversation of
                 None \<Rightarrow> Inl (FrameError UnknownConversation)
               | Some c \<Rightarrow>
                   if cv_about c \<noteq> [] \<and> cv_about c \<noteq> about then Inl (FrameError AboutMismatch)
                   else if anchored \<noteq> [] \<and> anchored \<noteq> conversation then Inl (FrameError AboutMismatch)
                   else Inr (Some (conversation, c))))"

definition can_publish :: "hub \<Rightarrow> nat \<Rightarrow> live_error option" where
  "can_publish h count =
     (if count > max_frame_payload_bytes then Some (FrameError PayloadTooLarge)
      else if hb_retained_frames h \<ge> max_retained_frames
              \<or> hb_retained_bytes h + int count > max_retained_bytes then Some (FrameError CapacityFull)
      else None)"

section \<open>Preparing a frame\<close>

definition session_holds_key :: "('l) live_lib_scheme \<Rightarrow> hub \<Rightarrow> string \<Rightarrow> bytes \<Rightarrow> bool" where
  "session_holds_key L h session actor_key \<longleftrightarrow>
     (case map_of (hb_presence h) session of
        None \<Rightarrow> False
      | Some e \<Rightarrow> pe_fingerprint e \<noteq> []
                  \<and> checked_fingerprint L actor_key = Inr (pe_fingerprint e))"

definition prepare_frame_locked ::
  "('l) live_lib_scheme \<Rightarrow> live_env \<Rightarrow> hub \<Rightarrow> string \<Rightarrow> string \<Rightarrow> string \<Rightarrow> bytes \<Rightarrow> bytes \<Rightarrow>
   live_error + draft" where
  "prepare_frame_locked L env h session scope conversation payload actor_key =
     (if \<not> session_holds_key L h session actor_key then Inl (SessionError CredentialInvalid)
      else if \<not> valid_scope scope then Inl (FrameError ScopeInvalid)
      else (case can_publish h (length payload) of
         Some e \<Rightarrow> Inl e
       | None \<Rightarrow>
          (let make = (\<lambda>genesis resolved sequence previous.
                 \<lparr>dr_scope = scope, dr_version = 0, dr_generation = hb_generation h,
                  dr_genesis = genesis, dr_conversation = resolved, dr_sequence = sequence,
                  dr_previous = previous, dr_payload = payload\<rparr>)
           in case find_conversation h scope conversation of
                Inl e \<Rightarrow> Inl e
              | Inr (Some (resolved, c)) \<Rightarrow>
                  Inr (make (cv_genesis c) resolved (cv_next c) (cv_last c))
              | Inr None \<Rightarrow>
                  (case le_nonces env of
                     [] \<Rightarrow> Inl RandFailed
                   | nonce # _ \<Rightarrow>
                       (case new_conversation_genesis L h scope nonce of
                          Inl e \<Rightarrow> Inl e
                        | Inr (genesis, resolved) \<Rightarrow> Inr (make genesis resolved 0 []))))))"

definition prepare_frame_for_session ::
  "('l) live_lib_scheme \<Rightarrow> live_env \<Rightarrow> string \<Rightarrow> string \<Rightarrow> string \<Rightarrow> bytes \<Rightarrow> bytes \<Rightarrow> hub \<Rightarrow>
   (live_error + draft) \<times> hub" where
  "prepare_frame_for_session L env session scope conversation payload actor_key h0 =
     (let h = expire env h0
      in (prepare_frame_locked L env h session scope conversation payload actor_key, h))"

section \<open>Submitting a frame\<close>

text \<open>\<open>validateDraft\<close>: the conversation to extend, or \<open>None\<close> to open one.\<close>

definition validate_draft ::
  "('l) live_lib_scheme \<Rightarrow> hub \<Rightarrow> draft \<Rightarrow> live_error + conversation option" where
  "validate_draft L h d =
     (if dr_version d \<noteq> 0 \<or> dr_generation d \<noteq> hb_generation h \<or> \<not> valid_scope (dr_scope d)
      then Inl (FrameError ErrStaleDraft)
      else (case decode_conversation_genesis L (dr_genesis d) of
         Inl e \<Rightarrow> Inl e
       | Inr g \<Rightarrow>
          if cg_version g \<noteq> 1 \<or> cg_generation g \<noteq> hb_generation h \<or> cg_scope g \<noteq> dr_scope d
             \<or> length (cg_nonce g) \<noteq> 32 \<or> cg_nexus_key g \<noteq> hb_public_key h
          then Inl (FrameError DraftGenesisInvalid)
          else if dr_conversation d \<noteq> conversation_id L (dr_genesis d)
          then Inl (FrameError DraftConversationMismatch)
          else (let anchored = about_of h (dr_scope d) in
                case map_of (hb_convs h) (dr_conversation d) of
                  None \<Rightarrow>
                    if anchored \<noteq> [] \<or> dr_sequence d \<noteq> 0 \<or> dr_previous d \<noteq> []
                    then Inl (FrameError ErrStaleDraft) else Inr None
                | Some c \<Rightarrow>
                    if anchored \<noteq> dr_conversation d \<or> cv_about c \<noteq> dr_scope d
                       \<or> cv_genesis c \<noteq> dr_genesis d \<or> cv_next c \<noteq> dr_sequence d
                       \<or> cv_last c \<noteq> dr_previous d
                    then Inl (FrameError ErrStaleDraft) else Inr (Some c))))"

definition build_signed_frame ::
  "('l) live_lib_scheme \<Rightarrow> hub \<Rightarrow> conversation \<Rightarrow> frame_actor_body \<Rightarrow> bytes \<Rightarrow> bytes \<Rightarrow>
   live_error + frame \<times> bytes" where
  "build_signed_frame L h c body actor_key signature =
     (if ab_generation body \<noteq> hb_generation h \<or> ab_sequence body \<noteq> cv_next c
         \<or> ab_previous body \<noteq> cv_last c then Inl (FrameError ErrStaleDraft)
      else (case can_publish h (length (ab_payload body)) of
         Some e \<Rightarrow> Inl e
       | None \<Rightarrow>
          (case sign_issuer_bytes L nexus_frame_domain (hb_private_key h)
                  (cbor_nexus_body L \<lparr>nb_actor_body = body, nb_actor_key = actor_key,
                                      nb_actor_signature = signature\<rparr>) of
             Inl e \<Rightarrow> Inl e
           | Inr nexus_signature \<Rightarrow>
              (let f = \<lparr>fr_version = 0, fr_generation = hb_generation h,
                        fr_genesis = cv_genesis c, fr_conversation = ab_conversation body,
                        fr_sequence = cv_next c, fr_previous = cv_last c,
                        fr_payload = ab_payload body, fr_actor_key = actor_key,
                        fr_actor_signature = signature, fr_nexus_key = hb_public_key h,
                        fr_nexus_signature = nexus_signature\<rparr>
               in case frame_hash L f of Inl e \<Rightarrow> Inl e | Inr digest \<Rightarrow> Inr (f, digest)))))"

definition extend_conversation :: "conversation \<Rightarrow> frame \<Rightarrow> bytes \<Rightarrow> conversation" where
  "extend_conversation c f digest =
     c\<lparr>cv_last := digest, cv_next := cv_next c + 1, cv_frames := cv_frames c @ [f]\<rparr>"

definition commit_signed_frame :: "conversation \<Rightarrow> frame \<Rightarrow> bytes \<Rightarrow> hub \<Rightarrow> hub" where
  "commit_signed_frame c f digest h =
     note_change FrameChange (fr_conversation f) (format_uint (fr_sequence f))
       (h\<lparr>hb_convs := put (fr_conversation f) (extend_conversation c f digest) (hb_convs h),
          hb_retained_frames := hb_retained_frames h + 1,
          hb_retained_bytes := hb_retained_bytes h + int (length (fr_payload f))\<rparr>)"

definition add_participant :: "string \<Rightarrow> string \<Rightarrow> hub \<Rightarrow> hub" where
  "add_participant conversation session h =
     (let members = (case map_of (hb_participants h) conversation of None \<Rightarrow> [] | Some ms \<Rightarrow> ms)
      in h\<lparr>hb_participants := put conversation
             (if session \<in> set members then members else members @ [session])
             (hb_participants h)\<rparr>)"

definition install_conversation :: "draft \<Rightarrow> conversation \<Rightarrow> hub \<Rightarrow> hub" where
  "install_conversation d c h =
     note_change ConversationChange (dr_conversation d) []
       (h\<lparr>hb_convs := put (dr_conversation d) c (hb_convs h),
          hb_about := put (dr_scope d) (dr_conversation d) (hb_about h)\<rparr>)"

text \<open>The conversation a first frame opens.\<close>

definition opened :: "draft \<Rightarrow> conversation" where
  "opened d = \<lparr>cv_next = 0, cv_last = [], cv_genesis = dr_genesis d, cv_frames = [],
     cv_about = dr_scope d\<rparr>"

definition submit_frame_locked ::
  "('l) live_lib_scheme \<Rightarrow> string \<Rightarrow> submission \<Rightarrow> hub \<Rightarrow> (live_error + frame) \<times> hub" where
  "submit_frame_locked L session s h =
     (let d = sb_draft s; key = sb_actor_key s; signature = sb_actor_signature s in
      if \<not> session_holds_key L h session key then (Inl (SessionError CredentialInvalid), h)
      else if length signature \<noteq> signature_size then (Inl (FrameError InvalidActorSignature), h)
      else (case can_publish h (length (dr_payload d)) of
         Some e \<Rightarrow> (Inl e, h)
       | None \<Rightarrow>
          (case validate_draft L h d of
             Inl e \<Rightarrow> (Inl e, h)
           | Inr current \<Rightarrow>
              (let body = actor_body (dr_generation d) (dr_conversation d) (dr_sequence d)
                            (dr_previous d) (dr_payload d)
               in if \<not> verify_bytes L actor_frame_domain key (cbor_actor_body L body) signature
                  then (Inl (FrameError InvalidActorSignature), h)
                  else (let c = (case current of Some c \<Rightarrow> c
                            | None \<Rightarrow> opened d)
                        in case build_signed_frame L h c body key signature of
                             Inl e \<Rightarrow> (Inl e, h)
                           | Inr (f, digest) \<Rightarrow>
                               (let h1 = (case current of Some c \<Rightarrow> h
                                          | None \<Rightarrow> install_conversation d c h)
                                in (Inr f, add_participant (dr_conversation d) session
                                             (commit_signed_frame c f digest h1))))))))"

definition submit_frame_for_session ::
  "('l) live_lib_scheme \<Rightarrow> live_env \<Rightarrow> string \<Rightarrow> submission \<Rightarrow> hub \<Rightarrow>
   (live_error + frame) \<times> hub" where
  "submit_frame_for_session L env session s h =
     submit_frame_locked L session s (expire env h)"

section \<open>Messages\<close>

definition reply_parent :: "hub \<Rightarrow> string \<Rightarrow> string \<Rightarrow> frame option" where
  "reply_parent h resolved re =
     (case parse_thread_handle re of
        Inl e \<Rightarrow> None
      | Inr (parent, sequence) \<Rightarrow>
          (case map_of (hb_convs h) resolved of
             None \<Rightarrow> None
           | Some c \<Rightarrow>
               if parent \<noteq> resolved \<or> sequence \<ge> length (cv_frames c) then None
               else Some (cv_frames c ! sequence)))"

definition message_recipients ::
  "('l) live_lib_scheme \<Rightarrow> hub \<Rightarrow> string \<Rightarrow> message \<Rightarrow> live_error + string list" where
  "message_recipients L h resolved m =
     (if ms_re m = [] then normalize_recipients (ms_recipients m)
      else (case parse_thread_handle (ms_re m) of
              Inl e \<Rightarrow> Inl e
            | Inr _ \<Rightarrow>
                (case reply_parent h resolved (ms_re m) of
                   None \<Rightarrow> Inl (MessageError ReplyTarget)
                 | Some f \<Rightarrow> normalize_recipients
                     (ms_recipients m @ [actor_fingerprint L (fr_actor_key f)]))))"

definition prepare_message_for_session ::
  "('l) live_lib_scheme \<Rightarrow> live_env \<Rightarrow> string \<Rightarrow> string \<Rightarrow> message \<Rightarrow> bytes \<Rightarrow> hub \<Rightarrow>
   (live_error + draft) \<times> hub" where
  "prepare_message_for_session L env session conversation0 m0 actor_key h0 =
     (let h = expire env h0 in
      (if \<not> session_holds_key L h session actor_key then Inl (SessionError CredentialInvalid)
       else (case validate_message m0 of
         Some e \<Rightarrow> Inl e
       | None \<Rightarrow>
          (case normalize_recipients (ms_recipients m0) of
             Inl e \<Rightarrow> Inl e
           | Inr given \<Rightarrow>
              (let m1 = m0\<lparr>ms_recipients := given\<rparr> in
               case (if ms_re m1 \<noteq> [] \<and> conversation0 = []
                     then (case parse_thread_handle (ms_re m1) of
                             Inl e \<Rightarrow> Inl e | Inr (c, n) \<Rightarrow> Inr c)
                     else Inr conversation0) of
                 Inl e \<Rightarrow> Inl e
               | Inr conversation \<Rightarrow>
                  (case find_conversation h (ms_about m1) conversation of
                     Inl e \<Rightarrow> Inl e
                   | Inr found \<Rightarrow>
                      (let resolved = (case found of None \<Rightarrow> [] | Some (c, _) \<Rightarrow> c) in
                       case message_recipients L h resolved m1 of
                         Inl e \<Rightarrow> Inl e
                       | Inr recipients \<Rightarrow>
                          (case json_message L (m1\<lparr>ms_recipients := recipients\<rparr>) of
                             None \<Rightarrow> Inl EncodeFailed
                           | Some payload \<Rightarrow>
                               prepare_frame_locked L env h session (ms_about m1) resolved payload
                                 actor_key)))))), h))"

definition can_enqueue :: "hub \<Rightarrow> string list \<Rightarrow> live_error option" where
  "can_enqueue h sessions =
     (if list_ex (\<lambda>s. case map_of (hb_inboxes h) s of None \<Rightarrow> False
                      | Some refs \<Rightarrow> length refs \<ge> max_pending_inbox_frames) sessions
      then Some (MessageError InboxFull) else None)"

definition add_inbox :: "frame_ref \<Rightarrow> string \<Rightarrow> hub \<Rightarrow> hub" where
  "add_inbox ref session h =
     (let refs = (case map_of (hb_inboxes h) session of None \<Rightarrow> [] | Some rs \<Rightarrow> rs)
      in h\<lparr>hb_inboxes := put session (if ref \<in> set refs then refs else refs @ [ref])
             (hb_inboxes h)\<rparr>)"

text \<open>The sessions a message reaches: addressed, and not the one that speaks.\<close>

definition addressed :: "live_env \<Rightarrow> hub \<Rightarrow> string \<Rightarrow> string list \<Rightarrow> string list" where
  "addressed env h session recipients =
     filter (\<lambda>s. s \<noteq> session \<and> pe_fingerprint (entry_of h s) \<in> set recipients)
       (le_arrange env (map fst (hb_presence h)))"

definition inbox_frame_of :: "('l) live_lib_scheme \<Rightarrow> frame \<Rightarrow> message \<Rightarrow> string \<Rightarrow> nat \<Rightarrow> inbox_frame" where
  "inbox_frame_of L f m conversation sequence =
     \<lparr>if_actor = actor_fingerprint L (fr_actor_key f), if_text = ms_text m, if_about = ms_about m,
      if_conversation = conversation, if_sequence = sequence, if_re = ms_re m,
      if_recipients = ms_recipients m, if_thread = thread_handle conversation sequence\<rparr>"

text \<open>The checks of a signed message before it is published.\<close>

definition check_message ::
  "('l) live_lib_scheme \<Rightarrow> hub \<Rightarrow> submission \<Rightarrow> live_error + message" where
  "check_message L h s =
     (let d = sb_draft s in
      case json_read_message L (dr_payload d) of
        None \<Rightarrow> Inl (MessageError MessageInvalid)
      | Some m \<Rightarrow>
          if validate_message m \<noteq> None \<or> ms_about m \<noteq> dr_scope d then Inl (MessageError MessageScope)
          else if normalize_recipients (ms_recipients m) \<noteq> Inr (ms_recipients m)
          then Inl (MessageError RecipientsNotCanonical)
          else if json_message L m \<noteq> Some (dr_payload d) then Inl (MessageError PayloadNotCanonical)
          else if ms_re m = [] then Inr m
          else (case reply_parent h (dr_conversation d) (ms_re m) of
                  None \<Rightarrow> Inl (MessageError ReplyTarget)
                | Some f \<Rightarrow>
                    if actor_fingerprint L (fr_actor_key f) \<notin> set (ms_recipients m)
                    then Inl (MessageError ReplyOmitsParent) else Inr m))"

text \<open>What follows a published message: the typed change, the participants and the inboxes.\<close>

definition deliver ::
  "('l) live_lib_scheme \<Rightarrow> frame \<Rightarrow> message \<Rightarrow> string list \<Rightarrow> string list \<Rightarrow> hub \<Rightarrow> hub" where
  "deliver L f m members receivers h =
     (let delivery = inbox_frame_of L f m (fr_conversation f) (fr_sequence f);
          marked = h\<lparr>hb_history := butlast (hb_history h)
                     @ [(last (hb_history h))\<lparr>ch_frame := Some delivery\<rparr>]\<rparr>;
          joined = fold (add_participant (fr_conversation f)) members marked
      in fold (add_inbox (fr_conversation f, fr_sequence f)) receivers joined)"

definition submit_message_for_session ::
  "('l) live_lib_scheme \<Rightarrow> live_env \<Rightarrow> string \<Rightarrow> submission \<Rightarrow> hub \<Rightarrow>
   (live_error + frame) \<times> hub" where
  "submit_message_for_session L env session s h0 =
     (let h = expire env h0 in
      if \<not> session_holds_key L h session (sb_actor_key s) then (Inl (SessionError CredentialInvalid), h)
      else (case check_message L h s of
         Inl e \<Rightarrow> (Inl e, h)
       | Inr m \<Rightarrow>
          (let members = addressed env h session (ms_recipients m);
               receivers = filter (\<lambda>t. pe_inbox (entry_of h t)) members
           in case can_enqueue h receivers of
                Some e \<Rightarrow> (Inl e, h)
              | None \<Rightarrow>
                  (case submit_frame_locked L session s h of
                     (Inl e, h1) \<Rightarrow> (Inl e, h1)
                   | (Inr f, h1) \<Rightarrow> (Inr f, deliver L f m members receivers h1)))))"

section \<open>Reading and acknowledging\<close>

definition frames_of :: "live_env \<Rightarrow> string \<Rightarrow> hub \<Rightarrow> (live_error + frame list) \<times> hub" where
  "frames_of env conversation h0 =
     (let h = expire env h0 in
      ((case map_of (hb_convs h) conversation of
          None \<Rightarrow> Inl (FrameError UnknownConversation) | Some c \<Rightarrow> Inr (cv_frames c)), h))"

definition first_handle_error :: "string list \<Rightarrow> live_error option" where
  "first_handle_error handles =
     (case List.find (\<lambda>t. isl (parse_thread_handle t)) handles of
        None \<Rightarrow> None
      | Some t \<Rightarrow> (case parse_thread_handle t of Inl e \<Rightarrow> Some e | Inr _ \<Rightarrow> None))"

definition acknowledge ::
  "live_env \<Rightarrow> string \<Rightarrow> string list \<Rightarrow> hub \<Rightarrow> (live_error + nat) \<times> hub" where
  "acknowledge env session handles h0 =
     (let h = expire env h0 in
      if map_of (hb_presence h) session = None then (Inl (SessionError CredentialInvalid), h)
      else if length handles > max_inbox_frames then (Inl (MessageError AckTooMany), h)
      else (case first_handle_error handles of
         Some e \<Rightarrow> (Inl e, h)
       | None \<Rightarrow>
          (case map_of (hb_inboxes h) session of
             None \<Rightarrow> (Inr 0, h)
           | Some refs \<Rightarrow>
               (let kept = filter (\<lambda>(c, n). thread_handle c n \<notin> set handles) refs
                in (Inr (length refs - length kept),
                    h\<lparr>hb_inboxes := put session kept (hb_inboxes h)\<rparr>)))))"

section \<open>Verification by a reader\<close>

definition verify_frame :: "('l) live_lib_scheme \<Rightarrow> frame \<Rightarrow> bytes \<Rightarrow> verify_error option" where
  "verify_frame L f trusted =
     (let valid_previous = ((fr_sequence f = 0 \<and> fr_previous f = [])
            \<or> (fr_sequence f > 0 \<and> length (fr_previous f) = sha256_size));
          body = actor_body (fr_generation f) (fr_conversation f) (fr_sequence f) (fr_previous f)
                   (fr_payload f)
      in if fr_version f \<noteq> 0 \<or> \<not> valid_prefixed_hex (fr_generation f) ''generation:'' 16
            \<or> \<not> valid_prefixed_hex (fr_conversation f) ''eph:sha256:'' sha256_size
            \<or> length (fr_payload f) > max_frame_payload_bytes \<or> fr_genesis f = []
            \<or> length (fr_genesis f) > max_conversation_genesis_bytes \<or> \<not> valid_previous
            \<or> length (fr_actor_key f) \<noteq> public_key_size
            \<or> length (fr_actor_signature f) \<noteq> signature_size
            \<or> length (fr_nexus_key f) \<noteq> public_key_size
            \<or> length (fr_nexus_signature f) \<noteq> signature_size
            \<or> length trusted \<noteq> public_key_size then Some FrameShape
         else if fr_nexus_key f \<noteq> trusted then Some UntrustedNexus
         else (case decode_conversation_genesis L (fr_genesis f) of
            Inl e \<Rightarrow> Some GenesisEnvelope
          | Inr g \<Rightarrow>
             if cg_version g \<noteq> 1 \<or> cg_generation g \<noteq> fr_generation f \<or> length (cg_nonce g) \<noteq> 32
                \<or> cg_nexus_key g \<noteq> fr_nexus_key f \<or> \<not> valid_scope (cg_scope g)
             then Some GenesisEnvelope
             else if fr_conversation f \<noteq> conversation_id L (fr_genesis f)
             then Some ConversationIdMismatch
             else if \<not> verify_bytes L actor_frame_domain (fr_actor_key f) (cbor_actor_body L body)
                        (fr_actor_signature f)
             then Some BadActorSignature
             else if \<not> verify_bytes L nexus_frame_domain (fr_nexus_key f)
                        (cbor_nexus_body L \<lparr>nb_actor_body = body, nb_actor_key = fr_actor_key f,
                                            nb_actor_signature = fr_actor_signature f\<rparr>)
                        (fr_nexus_signature f)
             then Some BadNexusSignature else None))"

fun verify_chain_from ::
  "('l) live_lib_scheme \<Rightarrow> frame \<Rightarrow> bytes \<Rightarrow> nat \<Rightarrow> bytes \<Rightarrow> frame list \<Rightarrow> live_error option" where
  "verify_chain_from L first trusted index previous [] = None"
| "verify_chain_from L first trusted index previous (f # fs) =
     (if fr_sequence f \<noteq> index \<or> fr_previous f \<noteq> previous then Some (ChainBroken index)
      else if index > 0 \<and> (fr_generation f \<noteq> fr_generation first
                \<or> fr_conversation f \<noteq> fr_conversation first \<or> fr_genesis f \<noteq> fr_genesis first
                \<or> fr_nexus_key f \<noteq> fr_nexus_key first) then Some (IdentityChanged index)
      else (case verify_frame L f trusted of
              Some e \<Rightarrow> Some (FrameInvalid index e)
            | None \<Rightarrow> (case frame_hash L f of
                         Inl e \<Rightarrow> Some e
                       | Inr digest \<Rightarrow> verify_chain_from L first trusted (index + 1) digest fs)))"

definition verify_chain :: "('l) live_lib_scheme \<Rightarrow> frame list \<Rightarrow> bytes \<Rightarrow> live_error option" where
  "verify_chain L frames trusted =
     (case frames of [] \<Rightarrow> None | f # _ \<Rightarrow> verify_chain_from L f trusted 0 [] frames)"

end
