(* ===== verification/LiveView.thy ===== *)
theory LiveView
  imports LiveFrames
begin

text \<open>
  What an observer reads of a hub (\<open>host/live/live.go\<close>): the snapshot with its cursor, the changes
  since a cursor, the private inbox of a session, and who is attending to an event. The operations
  of a hub are then collected into one step.
\<close>

section \<open>Snapshots\<close>

record snapshot =
  sn_cursor :: cursor
  sn_presence :: "(string \<times> string) list"
  sn_activity :: "(string \<times> activity) list"
  sn_conversations :: "string list"

definition current_cursor :: "hub \<Rightarrow> cursor" where
  "current_cursor h = \<lparr>cu_generation = hb_generation h, cu_position = hb_position h\<rparr>"

definition snapshot_locked :: "hub \<Rightarrow> snapshot" where
  "snapshot_locked h =
     \<lparr>sn_cursor = current_cursor h,
      sn_presence = fold (\<lambda>(s, e). put (pe_handle e) (pe_value e)) (hb_presence h) [],
      sn_activity = fold (\<lambda>(s, e). put (pe_handle e) (pe_activity e)) (hb_presence h) [],
      sn_conversations = sort_strings (map fst (hb_convs h))\<rparr>"

definition take_snapshot :: "live_env \<Rightarrow> hub \<Rightarrow> snapshot \<times> hub" where
  "take_snapshot env h0 = (let h = expire env h0 in (snapshot_locked h, h))"

section \<open>The inbox of a session\<close>

record inbox =
  ib_frames :: "inbox_frame list"
  ib_skipped :: nat

definition inbox_frame_at :: "('l) live_lib_scheme \<Rightarrow> hub \<Rightarrow> frame_ref \<Rightarrow> inbox_frame option" where
  "inbox_frame_at L h ref =
     (case ref of (conversation, sequence) \<Rightarrow>
        (case map_of (hb_convs h) conversation of
           None \<Rightarrow> None
         | Some c \<Rightarrow>
             if sequence \<ge> length (cv_frames c) then None
             else (let f = cv_frames c ! sequence in
                   map_option (\<lambda>m. inbox_frame_of L f m conversation sequence)
                     (json_read_message L (fr_payload f)))))"

definition clone_inbox :: "('l) live_lib_scheme \<Rightarrow> hub \<Rightarrow> string \<Rightarrow> inbox" where
  "clone_inbox L h session =
     (case map_of (hb_inboxes h) session of
        None \<Rightarrow> \<lparr>ib_frames = [], ib_skipped = 0\<rparr>
      | Some refs \<Rightarrow>
          \<lparr>ib_frames = List.map_filter (inbox_frame_at L h) (take max_inbox_frames refs),
           ib_skipped = length refs - max_inbox_frames\<rparr>)"

definition snapshot_for_session ::
  "('l) live_lib_scheme \<Rightarrow> live_env \<Rightarrow> string \<Rightarrow> hub \<Rightarrow> (live_error + snapshot \<times> inbox) \<times> hub" where
  "snapshot_for_session L env session h0 =
     (let h = expire env h0 in
      ((if map_of (hb_presence h) session = None then Inl (SessionError CredentialInvalid)
        else Inr (snapshot_locked h, clone_inbox L h session)), h))"

section \<open>Changes since a cursor\<close>

definition pending_threads :: "hub \<Rightarrow> string \<Rightarrow> string list" where
  "pending_threads h session =
     (case map_of (hb_inboxes h) session of
        None \<Rightarrow> [] | Some refs \<Rightarrow> map (\<lambda>(c, n). thread_handle c n) refs)"

definition visible_change :: "hub \<Rightarrow> string \<Rightarrow> change \<Rightarrow> change" where
  "visible_change h session c =
     c\<lparr>ch_frame := (case ch_frame c of
          None \<Rightarrow> None
        | Some f \<Rightarrow> if session \<noteq> [] \<and> if_thread f \<in> set (pending_threads h session)
                    then Some f else None)\<rparr>"

definition changes_since_locked ::
  "hub \<Rightarrow> cursor \<Rightarrow> string \<Rightarrow> live_error + change list" where
  "changes_since_locked h c session =
     (if cu_generation c \<noteq> hb_generation h \<or> cu_position c < hb_base h
         \<or> cu_position c > hb_position h then Inl ErrReset
      else Inr (map (visible_change h session)
                  (filter (\<lambda>x. cu_position (ch_cursor x) > cu_position c) (hb_history h))))"

definition changes_since ::
  "live_env \<Rightarrow> cursor \<Rightarrow> hub \<Rightarrow> (live_error + change list) \<times> hub" where
  "changes_since env c h0 = (let h = expire env h0 in (changes_since_locked h c [], h))"

definition changes_since_for_session ::
  "live_env \<Rightarrow> cursor \<Rightarrow> string \<Rightarrow> hub \<Rightarrow> (live_error + change list) \<times> hub" where
  "changes_since_for_session env c session h0 =
     (let h = expire env h0 in
      ((if map_of (hb_presence h) session = None then Inl (SessionError CredentialInvalid)
        else changes_since_locked h c session), h))"

record observation =
  ob_snapshot :: snapshot
  ob_inbox :: inbox
  ob_changes :: "change list"
  ob_reset :: bool
  ob_actor :: string
  ob_fingerprint :: string

definition observe ::
  "('l) live_lib_scheme \<Rightarrow> live_env \<Rightarrow> string \<Rightarrow> cursor option \<Rightarrow> hub \<Rightarrow>
   (live_error + observation) \<times> hub" where
  "observe L env session c h0 =
     (let h = expire env h0 in
      ((if session \<noteq> [] \<and> map_of (hb_presence h) session = None then Inl (SessionError CredentialInvalid)
        else (let e = (if session = [] then no_entry else entry_of h session);
                  seen = \<lparr>ob_snapshot = snapshot_locked h, ob_inbox = clone_inbox L h session,
                       ob_changes = [], ob_reset = False, ob_actor = pe_actor e,
                       ob_fingerprint = pe_fingerprint e\<rparr>
              in case c of
                   None \<Rightarrow> Inr seen
                 | Some cu \<Rightarrow>
                     (case changes_since_locked h cu session of
                        Inl ErrReset \<Rightarrow> Inr (seen\<lparr>ob_reset := True\<rparr>)
                      | Inl e \<Rightarrow> Inl e
                      | Inr cs \<Rightarrow> Inr (seen\<lparr>ob_changes := cs\<rparr>)))), h))"

section \<open>Attention\<close>

definition max_attention_actors :: nat where "max_attention_actors = 16"

record attention_actor =
  at_fingerprint :: string
  at_name :: string
  at_sessions :: nat
  at_status :: activity_status
  at_note :: string
  at_matched :: "string list"
  at_changed_at :: "int option"

definition later :: "int option \<Rightarrow> int option \<Rightarrow> bool" where
  "later a b \<longleftrightarrow> (case (a, b) of (Some x, Some y) \<Rightarrow> x > y | (Some x, None) \<Rightarrow> True | _ \<Rightarrow> False)"

definition attention_key :: "presence_entry \<Rightarrow> string" where
  "attention_key e = (if pe_fingerprint e = [] then ''name:'' @ pe_actor e else pe_fingerprint e)"

text \<open>One matching session is added to its actor's aggregate.\<close>

definition attend ::
  "string list \<Rightarrow> presence_entry \<Rightarrow> (string \<times> attention_actor) list \<Rightarrow>
   (string \<times> attention_actor) list" where
  "attend hits e m =
     (let held = (case map_of m (attention_key e) of
                    Some a \<Rightarrow> a
                  | None \<Rightarrow> \<lparr>at_fingerprint = pe_fingerprint e, at_name = pe_actor e,
                             at_sessions = 0, at_status = NoStatus, at_note = [],
                             at_matched = [], at_changed_at = None\<rparr>);
          counted = held\<lparr>at_sessions := at_sessions held + 1,
                         at_matched := at_matched held
                           @ filter (\<lambda>x. x \<notin> set (at_matched held)) (remdups hits)\<rparr>;
          newest = (if at_changed_at held = None \<or> later (pe_changed_at e) (at_changed_at held)
                    then counted\<lparr>at_changed_at := pe_changed_at e,
                                 at_status := ac_status (pe_activity e),
                                 at_note := ac_note (pe_activity e)\<rparr>
                    else counted)
      in put (attention_key e) newest m)"

fun attending ::
  "string \<Rightarrow> string list \<Rightarrow> (string \<times> presence_entry) list \<Rightarrow> (string \<times> attention_actor) list \<Rightarrow>
   (string \<times> attention_actor) list" where
  "attending exclude wanted [] m = m"
| "attending exclude wanted ((s, e) # es) m =
     (let hits = filter (\<lambda>x. x \<in> set wanted) (ac_focus (pe_activity e))
      in if s = exclude \<or> hits = [] then attending exclude wanted es m
         else attending exclude wanted es (attend hits e m))"

definition attention_before :: "attention_actor \<Rightarrow> attention_actor \<Rightarrow> bool" where
  "attention_before a b \<longleftrightarrow>
     (if at_changed_at a \<noteq> at_changed_at b then later (at_changed_at a) (at_changed_at b)
      else str_less (at_fingerprint a) (at_fingerprint b))"

fun insert_attention :: "attention_actor \<Rightarrow> attention_actor list \<Rightarrow> attention_actor list" where
  "insert_attention a [] = [a]"
| "insert_attention a (b # bs) =
     (if attention_before b a then b # insert_attention a bs else a # b # bs)"

definition focused_on ::
  "live_env \<Rightarrow> string \<Rightarrow> string list \<Rightarrow> hub \<Rightarrow> (attention_actor list \<times> nat) \<times> hub" where
  "focused_on env exclude events h0 =
     (let wanted = filter (\<lambda>x. x \<noteq> []) events in
      if wanted = [] then (([], 0), h0)
      else (let h = expire env h0;
                entries = map (\<lambda>s. (s, entry_of h s)) (le_arrange env (map fst (hb_presence h)));
                actors = foldr insert_attention
                           (map (\<lambda>(k, a). a\<lparr>at_matched := sort_strings (at_matched a)\<rparr>)
                              (attending exclude wanted entries [])) []
            in ((take max_attention_actors actors, length actors - max_attention_actors), h)))"

section \<open>The step of a hub\<close>

datatype hub_op =
  OpenTrusted string bytes string int activity_update
| Prepare string bytes string int activity_update
| OpenPrepared session_challenge bytes
| Announce string string string string int activity_update
| Renew string string bytes string int activity_update
| Revoke string
| Depart string
| EnableInbox string
| PrepareFrame string string string bytes bytes
| SubmitFrame string submission
| PrepareMessage string string message bytes
| SubmitMessage string submission
| Acknowledge string "string list"
| ReadOnly

fun hub_after :: "('l) live_lib_scheme \<Rightarrow> live_env \<Rightarrow> hub_op \<Rightarrow> hub \<Rightarrow> hub" where
  "hub_after L env (OpenTrusted actor key value ttl u) h =
     snd (open_trusted_session L env actor key value ttl u h)"
| "hub_after L env (Prepare actor key value ttl u) h =
     snd (prepare_session L env actor key value ttl u h)"
| "hub_after L env (OpenPrepared c signature) h = snd (open_session L env c signature h)"
| "hub_after L env (Announce session actor fingerprint value ttl u) h =
     snd (announce_session_identity env session actor fingerprint value ttl u h)"
| "hub_after L env (Renew credential actor key value ttl u) h =
     snd (renew_session L env credential actor key value ttl u h)"
| "hub_after L env (Revoke credential) h = snd (revoke_session env credential h)"
| "hub_after L env (Depart session) h = snd (depart env session h)"
| "hub_after L env (EnableInbox session) h = snd (enable_inbox env session h)"
| "hub_after L env (PrepareFrame session scope conversation payload key) h =
     snd (prepare_frame_for_session L env session scope conversation payload key h)"
| "hub_after L env (SubmitFrame session s) h = snd (submit_frame_for_session L env session s h)"
| "hub_after L env (PrepareMessage session conversation m key) h =
     snd (prepare_message_for_session L env session conversation m key h)"
| "hub_after L env (SubmitMessage session s) h = snd (submit_message_for_session L env session s h)"
| "hub_after L env (Acknowledge session handles) h = snd (acknowledge env session handles h)"
| "hub_after L env ReadOnly h = expire env h"

definition hub_step :: "('l) live_lib_scheme \<Rightarrow> hub \<Rightarrow> live_env \<times> hub_op \<Rightarrow> hub option" where
  "hub_step L h x = (case x of (env, op) \<Rightarrow> Some (hub_after L env op h))"

end
