(* ===== verification/LiveInv.thy ===== *)
theory LiveInv
  imports LiveView Machines
begin

text \<open>
  The invariant of a hub: the window of changes, the two-way anchor between conversations and what
  they are about, conversations held open by live participants only, inboxes of live sessions that
  point at retained frames, and the quotas. Every operation keeps it.
\<close>

section \<open>What is promised of the environment\<close>

text \<open>A range over a map visits every key once.\<close>

definition env_ok :: "live_env \<Rightarrow> bool" where
  "env_ok env \<longleftrightarrow>
     (\<forall>xs. distinct xs \<longrightarrow> set (le_arrange env xs) = set xs \<and> distinct (le_arrange env xs))"

lemma env_okD:
  "env_ok env \<Longrightarrow> distinct xs \<Longrightarrow> set (le_arrange env xs) = set xs \<and> distinct (le_arrange env xs)"
  by (simp add: env_ok_def)

section \<open>The window of changes\<close>

definition window_inv :: "hub \<Rightarrow> bool" where
  "window_inv h \<longleftrightarrow>
     0 < hb_history_cap h \<and> length (hb_history h) \<le> hb_history_cap h
     \<and> hb_base h + length (hb_history h) = hb_position h
     \<and> (hb_base h > 0 \<longrightarrow> length (hb_history h) = hb_history_cap h)
     \<and> map (\<lambda>c. cu_position (ch_cursor c)) (hb_history h) = [hb_base h + 1..<hb_position h + 1]"

lemma note_change_fields [simp]:
  "hb_generation (note_change k i v h) = hb_generation h"
  "hb_history_cap (note_change k i v h) = hb_history_cap h"
  "hb_presence (note_change k i v h) = hb_presence h"
  "hb_convs (note_change k i v h) = hb_convs h"
  "hb_about (note_change k i v h) = hb_about h"
  "hb_participants (note_change k i v h) = hb_participants h"
  "hb_inboxes (note_change k i v h) = hb_inboxes h"
  "hb_pending (note_change k i v h) = hb_pending h"
  "hb_public_key (note_change k i v h) = hb_public_key h"
  "hb_private_key (note_change k i v h) = hb_private_key h"
  "hb_retained_frames (note_change k i v h) = hb_retained_frames h"
  "hb_retained_bytes (note_change k i v h) = hb_retained_bytes h"
  "hb_position (note_change k i v h) = hb_position h + 1"
  by (simp_all add: note_change_def append_change_def Let_def)

text \<open>The window: the newest changes that fit.\<close>

definition newest :: "nat \<Rightarrow> 'a list \<Rightarrow> 'a list" where
  "newest n xs = drop (length xs - n) xs"

lemma newest_append: "newest n (newest n xs @ ys) = newest n (xs @ ys)"
  by (cases "length xs \<le> n") (auto simp: newest_def add.commute)

lemma newest_short: "length xs \<le> n \<Longrightarrow> newest n xs = xs"
  by (simp add: newest_def)

lemma note_change_history:
  assumes "window_inv h"
  shows "hb_history (note_change k i v h) =
    newest (hb_history_cap h) (hb_history h @ [plain_change (h\<lparr>hb_position := hb_position h + 1\<rparr>) k i v])"
proof (cases "length (hb_history h) < hb_history_cap h")
  case True
  then show ?thesis
    by (simp add: note_change_def append_change_def Let_def newest_short)
next
  case False
  then have "length (hb_history h) = hb_history_cap h" "hb_history h \<noteq> []"
    "Suc 0 - hb_history_cap h = 0"
    using assms by (auto simp: window_inv_def)
  then show ?thesis
    by (simp add: note_change_def append_change_def Let_def newest_def drop_Suc)
qed

lemma window_inv_note:
  assumes "window_inv h"
  shows "window_inv (note_change k i v h)"
proof (cases "length (hb_history h) < hb_history_cap h")
  case True
  with assms show ?thesis
    by (auto simp: window_inv_def note_change_def append_change_def Let_def plain_change_def)
next
  case False
  have len: "length (hb_history h) = hb_history_cap h"
    using False assms by (simp add: window_inv_def)
  then obtain c cs where cs: "hb_history h = c # cs"
    using assms by (cases "hb_history h") (auto simp: window_inv_def)
  let ?pos = "\<lambda>c. cu_position (ch_cursor c)"
  let ?new = "plain_change (h\<lparr>hb_position := hb_position h + 1\<rparr>) k i v"
  have pos: "?pos c = hb_base h + 1" "map ?pos cs = [hb_base h + 2..<hb_position h + 1]"
    and base: "hb_base h + 1 + length cs = hb_position h"
  proof -
    have "map ?pos (c # cs) = [hb_base h + 1..<hb_position h + 1]"
      and len': "hb_base h + Suc (length cs) = hb_position h"
      using assms cs by (simp_all add: window_inv_def)
    moreover have "[hb_base h + 1..<hb_position h + 1]
        = (hb_base h + 1) # [hb_base h + 2..<hb_position h + 1]"
      using len' by (subst upt_conv_Cons) simp_all
    ultimately show "?pos c = hb_base h + 1" "map ?pos cs = [hb_base h + 2..<hb_position h + 1]"
      "hb_base h + 1 + length cs = hb_position h"
      by simp_all
  qed
  have all: "map ?pos (cs @ [?new]) = [hb_base h + 2..<hb_position h + 2]"
    using pos base by (simp add: plain_change_def)
  have "?pos (hd (cs @ [?new])) = hd (map ?pos (cs @ [?new]))"
    by (simp add: hd_append hd_map)
  then have "?pos (hd (cs @ [?new])) = hb_base h + 2"
    unfolding all using base by (subst (asm) hd_upt) simp_all
  then have "note_change k i v h = h\<lparr>hb_position := hb_position h + 1, hb_history := cs @ [?new],
      hb_base := hb_base h + 1\<rparr>"
    using len cs by (simp add: note_change_def append_change_def Let_def)
  then show ?thesis
    using assms len cs base all by (simp add: window_inv_def)
qed

section \<open>Conversations and the sessions that hold them\<close>

text \<open>
  \<open>X\<close> is the set of sessions that have just left and are not yet removed from the conversations;
  between operations it is empty.
\<close>

definition held_by :: "string set \<Rightarrow> hub \<Rightarrow> bool" where
  "held_by X h \<longleftrightarrow>
     distinct (map fst (hb_presence h)) \<and> distinct (map fst (hb_convs h))
     \<and> distinct (map fst (hb_participants h))
     \<and> fst ` set (hb_participants h) = fst ` set (hb_convs h)
     \<and> (\<forall>i ms. map_of (hb_participants h) i = Some ms \<longrightarrow>
          ms \<noteq> [] \<and> set ms \<subseteq> fst ` set (hb_presence h) \<union> X)"

lemma held_byD:
  assumes "held_by X h" and "map_of (hb_participants h) i = Some ms"
  shows "ms \<noteq> []" "set ms \<subseteq> fst ` set (hb_presence h) \<union> X"
  using assms by (simp_all add: held_by_def)

definition anchored :: "hub \<Rightarrow> bool" where
  "anchored h \<longleftrightarrow>
     distinct (map fst (hb_about h))
     \<and> (\<forall>a i. map_of (hb_about h) a = Some i \<longrightarrow>
          (\<exists>c. map_of (hb_convs h) i = Some c \<and> cv_about c = a))
     \<and> (\<forall>i c. map_of (hb_convs h) i = Some c \<longrightarrow>
          i \<noteq> [] \<and> cv_about c \<noteq> [] \<and> map_of (hb_about h) (cv_about c) = Some i)"

definition retained_in :: "hub \<Rightarrow> frame_ref \<Rightarrow> bool" where
  "retained_in h ref \<longleftrightarrow>
     (\<exists>c. map_of (hb_convs h) (fst ref) = Some c \<and> snd ref < length (cv_frames c))"

definition inboxes_ok :: "hub \<Rightarrow> bool" where
  "inboxes_ok h \<longleftrightarrow>
     distinct (map fst (hb_inboxes h))
     \<and> (\<forall>s refs. map_of (hb_inboxes h) s = Some refs \<longrightarrow>
          s \<in> fst ` set (hb_presence h) \<and> distinct refs
          \<and> length refs \<le> max_pending_inbox_frames \<and> (\<forall>r \<in> set refs. retained_in h r))"

definition counted_frames :: "hub \<Rightarrow> bool" where
  "counted_frames h \<longleftrightarrow>
     hb_retained_frames h = sum_list (map (\<lambda>(i, c). int (length (cv_frames c))) (hb_convs h))
     \<and> hb_retained_bytes h = sum_list (map (\<lambda>(i, c). payload_bytes (cv_frames c)) (hb_convs h))"

definition frame_quota :: "hub \<Rightarrow> bool" where
  "frame_quota h \<longleftrightarrow>
     hb_retained_frames h \<le> max_retained_frames \<and> hb_retained_bytes h \<le> max_retained_bytes
     \<and> (\<forall>i c. map_of (hb_convs h) i = Some c \<longrightarrow> cv_next c = length (cv_frames c))"

lemma in_keys_iff: "k \<in> fst ` set m \<longleftrightarrow> map_of m k \<noteq> None"
  by (simp add: map_of_eq_None_iff)

lemma map_of_filter_value:
  "distinct (map fst m) \<Longrightarrow>
   map_of (filter (\<lambda>(k, v). v \<noteq> x) m) k =
     (case map_of m k of None \<Rightarrow> None | Some v \<Rightarrow> if v \<noteq> x then Some v else None)"
  by (induction m) (auto split: option.splits simp: map_of_eq_None_iff image_iff dest: map_of_SomeD)

lemma map_of_map_value:
  "map_of (map (\<lambda>(k, v). (k, g v)) m) k = map_option g (map_of m k)"
  by (induction m) auto

lemma sum_list_del:
  fixes g :: "'v \<Rightarrow> int"
  assumes "distinct (map fst m)" and "map_of m k = Some v"
  shows "sum_list (map (\<lambda>(i, c). g c) (del k m)) = sum_list (map (\<lambda>(i, c). g c) m) - g v"
  using assms
proof (induction m)
  case (Cons x m)
  have "del k m = m" if "k \<notin> fst ` set m"
    using that by (force simp: del_def intro!: filter_True)
  with Cons show ?case
    by (cases x) (auto simp: del_def image_iff dest: map_of_SomeD split: if_splits)
qed simp

lemma sum_list_put:
  fixes g :: "'v \<Rightarrow> int"
  assumes "distinct (map fst m)"
  shows "sum_list (map (\<lambda>(i, c). g c) (put k v m)) = sum_list (map (\<lambda>(i, c). g c) m) + g v
    - (case map_of m k of None \<Rightarrow> 0 | Some w \<Rightarrow> g w)"
  using assms
proof (induction m)
  case (Cons x m)
  obtain a b where x: "x = (a, b)"
    by (cases x)
  show ?case
  proof (cases "a = k")
    case True
    with x show ?thesis by simp
  next
    case False
    with Cons x show ?thesis by (cases "map_of m k") auto
  qed
qed simp

subsection \<open>Forgetting a conversation\<close>

lemma forget_conversation_fields [simp]:
  "hb_generation (forget_conversation i h) = hb_generation h"
  "hb_history_cap (forget_conversation i h) = hb_history_cap h"
  "hb_presence (forget_conversation i h) = hb_presence h"
  "hb_pending (forget_conversation i h) = hb_pending h"
  "hb_public_key (forget_conversation i h) = hb_public_key h"
  "hb_private_key (forget_conversation i h) = hb_private_key h"
  by (simp_all add: forget_conversation_def split: option.split)

lemma forget_conversation_maps:
  assumes "map_of (hb_convs h) i = Some c"
  shows "hb_convs (forget_conversation i h) = del i (hb_convs h)"
    "hb_participants (forget_conversation i h) = del i (hb_participants h)"
    "hb_about (forget_conversation i h) = filter (\<lambda>(a, c). c \<noteq> i) (hb_about h)"
    "hb_inboxes (forget_conversation i h)
       = map (\<lambda>(s, refs). (s, filter (\<lambda>(c, n). c \<noteq> i) refs)) (hb_inboxes h)"
    "hb_retained_frames (forget_conversation i h)
       = hb_retained_frames h - int (length (cv_frames c))"
    "hb_retained_bytes (forget_conversation i h)
       = hb_retained_bytes h - payload_bytes (cv_frames c)"
  using assms by (simp_all add: forget_conversation_def)

lemma window_forget:
  assumes "window_inv h"
  shows "window_inv (forget_conversation i h)"
proof (cases "map_of (hb_convs h) i")
  case None
  then show ?thesis using assms by (simp add: forget_conversation_def)
next
  case (Some c)
  show ?thesis
    unfolding forget_conversation_def Some option.case
    by (rule window_inv_note) (use assms in \<open>simp add: window_inv_def\<close>)
qed

lemma anchored_forget:
  assumes "anchored h"
  shows "anchored (forget_conversation i h)"
proof (cases "map_of (hb_convs h) i")
  case None
  then show ?thesis using assms by (simp add: forget_conversation_def)
next
  case (Some c)
  have d: "distinct (map fst (hb_about h))"
    using assms by (simp add: anchored_def)
  then have "distinct (map fst (filter (\<lambda>(a, c). c \<noteq> i) (hb_about h)))"
    by (simp add: distinct_map_filter)
  with assms show ?thesis
    unfolding anchored_def forget_conversation_maps [OF Some] map_of_filter_value [OF d]
    by (auto simp: map_of_del split: option.splits if_splits)
qed

lemma held_by_forget:
  assumes "held_by X h"
  shows "held_by X (forget_conversation i h)"
proof (cases "map_of (hb_convs h) i")
  case None
  then show ?thesis using assms by (simp add: forget_conversation_def)
next
  case (Some c)
  with assms show ?thesis
    unfolding held_by_def forget_conversation_maps [OF Some] forget_conversation_fields
    by (auto simp: map_of_del keys_del distinct_del)
qed

lemma inboxes_ok_forget:
  assumes "inboxes_ok h"
  shows "inboxes_ok (forget_conversation i h)"
proof (cases "map_of (hb_convs h) i")
  case None
  then show ?thesis using assms by (simp add: forget_conversation_def)
next
  case (Some c)
  have keys: "map fst (map (\<lambda>(s, refs). (s, filter (\<lambda>(c, n). c \<noteq> i) refs)) (hb_inboxes h))
      = map fst (hb_inboxes h)"
    by (simp add: split_beta)
  have "length (filter P refs) \<le> n" if "length refs \<le> n" for P and refs :: "frame_ref list" and n
    using that length_filter_le [of P refs] by linarith
  with assms show ?thesis
    unfolding inboxes_ok_def forget_conversation_maps [OF Some] forget_conversation_fields keys
      map_of_map_value retained_in_def
    by (fastforce simp: map_of_del)
qed

lemma counted_frames_forget:
  assumes "counted_frames h" and "distinct (map fst (hb_convs h))"
  shows "counted_frames (forget_conversation i h)"
proof (cases "map_of (hb_convs h) i")
  case None
  then show ?thesis using assms by (simp add: forget_conversation_def)
next
  case (Some c)
  with assms show ?thesis
    unfolding counted_frames_def forget_conversation_maps [OF Some]
    by (simp add: sum_list_del [of _ _ _ "\<lambda>c. int (length (cv_frames c))"]
        sum_list_del [of _ _ _ "\<lambda>c. payload_bytes (cv_frames c)"])
qed

lemma payload_bytes_nonneg: "0 \<le> payload_bytes fs"
  by (induction fs) (simp_all add: payload_bytes_def)

lemma frame_quota_forget:
  assumes "frame_quota h"
  shows "frame_quota (forget_conversation i h)"
proof (cases "map_of (hb_convs h) i")
  case None
  then show ?thesis using assms by (simp add: forget_conversation_def)
next
  case (Some c)
  have "hb_retained_frames h - int (length (cv_frames c)) \<le> max_retained_frames"
    using assms unfolding frame_quota_def by linarith
  moreover have "hb_retained_bytes h - payload_bytes (cv_frames c) \<le> max_retained_bytes"
    using assms payload_bytes_nonneg [of "cv_frames c"] unfolding frame_quota_def by linarith
  ultimately show ?thesis
    using assms unfolding frame_quota_def forget_conversation_maps [OF Some]
    by (simp add: map_of_del)
qed

subsection \<open>A session leaves\<close>

definition hub_core :: "string set \<Rightarrow> hub \<Rightarrow> bool" where
  "hub_core X h \<longleftrightarrow> window_inv h \<and> held_by X h \<and> anchored h \<and> inboxes_ok h \<and> counted_frames h
     \<and> frame_quota h"

lemma hub_core_forget: "hub_core X h \<Longrightarrow> hub_core X (forget_conversation i h)"
  unfolding hub_core_def
  by (metis window_forget held_by_forget anchored_forget inboxes_ok_forget counted_frames_forget
      frame_quota_forget held_by_def)

text \<open>What each part of the invariant does not read.\<close>

lemma participants_update [simp]:
  "window_inv (h\<lparr>hb_participants := ps\<rparr>) = window_inv h"
  "anchored (h\<lparr>hb_participants := ps\<rparr>) = anchored h"
  "inboxes_ok (h\<lparr>hb_participants := ps\<rparr>) = inboxes_ok h"
  "counted_frames (h\<lparr>hb_participants := ps\<rparr>) = counted_frames h"
  "frame_quota (h\<lparr>hb_participants := ps\<rparr>) = frame_quota h"
  by (cases h, simp add: window_inv_def anchored_def inboxes_ok_def counted_frames_def
      frame_quota_def retained_in_def)+

lemma presence_update [simp]:
  "window_inv (h\<lparr>hb_presence := es\<rparr>) = window_inv h"
  "anchored (h\<lparr>hb_presence := es\<rparr>) = anchored h"
  "counted_frames (h\<lparr>hb_presence := es\<rparr>) = counted_frames h"
  "frame_quota (h\<lparr>hb_presence := es\<rparr>) = frame_quota h"
  by (cases h, simp add: window_inv_def anchored_def counted_frames_def frame_quota_def)+

lemma inboxes_update [simp]:
  "window_inv (h\<lparr>hb_inboxes := bs\<rparr>) = window_inv h"
  "anchored (h\<lparr>hb_inboxes := bs\<rparr>) = anchored h"
  "held_by X (h\<lparr>hb_inboxes := bs\<rparr>) = held_by X h"
  "counted_frames (h\<lparr>hb_inboxes := bs\<rparr>) = counted_frames h"
  "frame_quota (h\<lparr>hb_inboxes := bs\<rparr>) = frame_quota h"
  by (cases h, simp add: window_inv_def anchored_def counted_frames_def held_by_def
      frame_quota_def)+

lemma pending_update [simp]:
  "window_inv (h\<lparr>hb_pending := qs\<rparr>) = window_inv h"
  "anchored (h\<lparr>hb_pending := qs\<rparr>) = anchored h"
  "held_by X (h\<lparr>hb_pending := qs\<rparr>) = held_by X h"
  "inboxes_ok (h\<lparr>hb_pending := qs\<rparr>) = inboxes_ok h"
  "counted_frames (h\<lparr>hb_pending := qs\<rparr>) = counted_frames h"
  "frame_quota (h\<lparr>hb_pending := qs\<rparr>) = frame_quota h"
  "hub_core X (h\<lparr>hb_pending := qs\<rparr>) = hub_core X h"
  by (cases h, simp add: hub_core_def window_inv_def anchored_def inboxes_ok_def
      counted_frames_def held_by_def frame_quota_def retained_in_def)+

lemma core_note [simp]:
  "anchored (note_change k i v h) = anchored h"
  "held_by X (note_change k i v h) = held_by X h"
  "inboxes_ok (note_change k i v h) = inboxes_ok h"
  "counted_frames (note_change k i v h) = counted_frames h"
  "frame_quota (note_change k i v h) = frame_quota h"
  by (simp_all only: anchored_def inboxes_ok_def counted_frames_def held_by_def retained_in_def
      frame_quota_def note_change_fields)

text \<open>Everything but the conversations, their anchors, inboxes, counts and the change log.\<close>

definition same_sessions :: "hub \<Rightarrow> hub \<Rightarrow> bool" where
  "same_sessions h g \<longleftrightarrow>
     hb_generation g = hb_generation h \<and> hb_history_cap g = hb_history_cap h
     \<and> hb_presence g = hb_presence h \<and> hb_pending g = hb_pending h
     \<and> hb_public_key g = hb_public_key h \<and> hb_private_key g = hb_private_key h"

lemma same_sessions_refl [simp]: "same_sessions h h"
  by (simp add: same_sessions_def)

lemma same_sessions_trans: "same_sessions h g \<Longrightarrow> same_sessions g k \<Longrightarrow> same_sessions h k"
  by (simp add: same_sessions_def)

lemma leave_same_sessions: "same_sessions h (leave_conversation s i h)"
  by (simp add: leave_conversation_def same_sessions_def Let_def split: option.split)

lemma leave_participants:
  assumes "held_by X h"
  shows "map_of (hb_participants (leave_conversation s i h)) j =
    (if j = i then (case map_of (hb_participants h) i of None \<Rightarrow> None
       | Some ms \<Rightarrow> if filter (\<lambda>t. t \<noteq> s) ms = [] then None else Some (filter (\<lambda>t. t \<noteq> s) ms))
     else map_of (hb_participants h) j)"
proof (cases "map_of (hb_participants h) i")
  case None
  then show ?thesis by (simp add: leave_conversation_def)
next
  case (Some ms)
  then have "map_of (hb_convs h) i \<noteq> None"
    using assms in_keys_iff [of i "hb_participants h"] in_keys_iff [of i "hb_convs h"]
    by (simp add: held_by_def)
  with Some show ?thesis
    by (auto simp: leave_conversation_def Let_def forget_conversation_def map_of_put map_of_del
        split: option.split)
qed

lemma hub_core_leave:
  assumes "hub_core X h"
  shows "hub_core X (leave_conversation s i h)"
proof (cases "map_of (hb_participants h) i")
  case None
  then show ?thesis using assms by (simp add: leave_conversation_def)
next
  case (Some ms)
  let ?rest = "filter (\<lambda>t. t \<noteq> s) ms"
  let ?h = "h\<lparr>hb_participants := put i ?rest (hb_participants h)\<rparr>"
  have known: "i \<in> fst ` set (hb_participants h)"
    using Some by (simp add: in_keys_iff)
  show ?thesis
  proof (cases "?rest = []")
    case False
    have "set ms \<subseteq> fst ` set (hb_presence h) \<union> X"
      using assms Some unfolding hub_core_def held_by_def by blast
    then have "set ?rest \<subseteq> fst ` set (hb_presence h) \<union> X"
      by auto
    then have "held_by X ?h"
      using assms known False
      unfolding hub_core_def held_by_def by (simp add: map_of_put keys_put distinct_put insert_absorb)
    then have "hub_core X ?h"
      using assms by (simp add: hub_core_def)
    then show ?thesis
      using Some False by (simp add: leave_conversation_def)
  next
    case True
    obtain c where c: "map_of (hb_convs h) i = Some c"
      using assms known in_keys_iff [of i "hb_convs h"] by (auto simp: hub_core_def held_by_def)
    then have "forget_conversation i ?h = forget_conversation i h"
      using True c by (simp add: forget_conversation_def note_change_def append_change_def
          plain_change_def Let_def)
    then have "leave_conversation s i h = forget_conversation i h"
      using Some True by (simp add: leave_conversation_def)
    then show ?thesis
      using hub_core_forget [OF assms] by simp
  qed
qed

lemma fold_leave:
  assumes "hub_core X h" and "distinct is"
  shows "hub_core X (fold (leave_conversation s) is h)
    \<and> same_sessions h (fold (leave_conversation s) is h)
    \<and> (\<forall>i ms. map_of (hb_participants (fold (leave_conversation s) is h)) i = Some ms \<longrightarrow>
         (\<exists>ms'. map_of (hb_participants h) i = Some ms' \<and> set ms \<subseteq> set ms')
         \<and> (i \<in> set is \<longrightarrow> s \<notin> set ms))"
  using assms
proof (induction "is" arbitrary: h)
  case (Cons i js)
  let ?h = "leave_conversation s i h"
  have core: "hub_core X ?h"
    using Cons.prems(1) by (rule hub_core_leave)
  have held: "held_by X h"
    using Cons.prems(1) by (simp add: hub_core_def)
  note IH = Cons.IH [OF core]
  have step: "\<exists>ms'. map_of (hb_participants h) j = Some ms' \<and> set ms \<subseteq> set ms'
      \<and> (j = i \<longrightarrow> s \<notin> set ms)" if "map_of (hb_participants ?h) j = Some ms" for j ms
    using that unfolding leave_participants [OF held]
    by (auto split: if_splits option.splits)
  have rest: "same_sessions ?h (fold (leave_conversation s) js ?h)"
    "hub_core X (fold (leave_conversation s) js ?h)"
    "\<And>j ms. map_of (hb_participants (fold (leave_conversation s) js ?h)) j = Some ms \<Longrightarrow>
      (\<exists>ms'. map_of (hb_participants ?h) j = Some ms' \<and> set ms \<subseteq> set ms')
      \<and> (j \<in> set js \<longrightarrow> s \<notin> set ms)"
    using IH Cons.prems(2) by auto
  have "(\<exists>ms'. map_of (hb_participants h) j = Some ms' \<and> set ms \<subseteq> set ms')
      \<and> (j \<in> set (i # js) \<longrightarrow> s \<notin> set ms)"
    if "map_of (hb_participants (fold (leave_conversation s) js ?h)) j = Some ms" for j ms
    using rest(3) [OF that] step by (fastforce dest: subsetD)
  then show ?case
    using rest(1,2) same_sessions_trans [OF leave_same_sessions rest(1)] by simp
qed simp

lemma held_by_without:
  assumes "held_by (insert s X) h"
    and "\<And>i ms. map_of (hb_participants h) i = Some ms \<Longrightarrow> s \<notin> set ms"
  shows "held_by X h"
proof -
  have "ms \<noteq> [] \<and> set ms \<subseteq> fst ` set (hb_presence h) \<union> X"
    if "map_of (hb_participants h) i = Some ms" for i ms
  proof -
    have "ms \<noteq> [] \<and> set ms \<subseteq> fst ` set (hb_presence h) \<union> insert s X"
      using assms(1) that by (simp add: held_by_def)
    then show ?thesis
      using assms(2) [OF that] by auto
  qed
  then show ?thesis
    using assms(1) by (simp add: held_by_def)
qed

lemma hub_core_remove_participant:
  assumes "env_ok env" and "hub_core (insert s X) h"
    and "s \<notin> fst ` set (hb_presence h)"
  shows "hub_core X (remove_participant env s h) \<and> same_sessions h (remove_participant env s h)"
proof -
  have keys: "distinct (map fst (hb_participants h))"
    using assms(2) by (simp add: hub_core_def held_by_def)
  let ?is = "le_arrange env (map fst (hb_participants h))"
  have arranged: "set ?is = fst ` set (hb_participants h)" "distinct ?is"
    using env_okD [OF assms(1) keys] by auto
  from fold_leave [OF assms(2) arranged(2), of s] have fold:
    "hub_core (insert s X) (remove_participant env s h)"
    "same_sessions h (remove_participant env s h)"
    "\<And>i ms. map_of (hb_participants (remove_participant env s h)) i = Some ms \<Longrightarrow>
       (\<exists>ms'. map_of (hb_participants h) i = Some ms' \<and> set ms \<subseteq> set ms')
       \<and> (i \<in> set ?is \<longrightarrow> s \<notin> set ms)"
    by (auto simp: remove_participant_def)
  have "s \<notin> set ms" if "map_of (hb_participants (remove_participant env s h)) i = Some ms" for i ms
  proof -
    from fold(3) [OF that] obtain ms' where "map_of (hb_participants h) i = Some ms'"
      and out: "i \<in> set ?is \<longrightarrow> s \<notin> set ms"
      by blast
    then have "i \<in> set ?is"
      unfolding arranged(1) by (simp add: in_keys_iff)
    with out show ?thesis by blast
  qed
  then have "held_by X (remove_participant env s h)"
    using fold(1) by (simp add: hub_core_def held_by_without [of s])
  then show ?thesis
    using fold(1,2) by (simp add: hub_core_def)
qed

end
