(* ===== verification/LiveLease.thy ===== *)
theory LiveLease
  imports LiveInv
begin

text \<open>
  Leases keep the invariant of a hub: a session that leaves, expiry (which removes exactly the leases
  whose time has come), and the publication of a presence within the quotas.
\<close>

section \<open>A session ends\<close>

lemma window_note_iff:
  "hub_core X h \<Longrightarrow> hub_core X (note_change k i v h)"
  by (simp add: hub_core_def window_inv_note)

lemma hub_core_drop:
  assumes "hub_core X h"
  shows "hub_core (insert s X) (delete_inbox s (h\<lparr>hb_presence := del s (hb_presence h)\<rparr>))"
proof -
  have held: "held_by (insert s X) (h\<lparr>hb_presence := del s (hb_presence h)\<rparr>)"
  proof -
    have "ms \<noteq> [] \<and> set ms \<subseteq> fst ` set (del s (hb_presence h)) \<union> insert s X"
      if "map_of (hb_participants h) i = Some ms" for i ms
    proof -
      have "ms \<noteq> [] \<and> set ms \<subseteq> fst ` set (hb_presence h) \<union> X"
        using assms that by (simp add: hub_core_def held_by_def)
      then show ?thesis by (auto simp: keys_del)
    qed
    then show ?thesis
      using assms by (simp add: hub_core_def held_by_def distinct_del)
  qed
  have boxes: "inboxes_ok (delete_inbox s (h\<lparr>hb_presence := del s (hb_presence h)\<rparr>))"
    using assms unfolding hub_core_def inboxes_ok_def delete_inbox_def retained_in_def
    by (auto simp: keys_del distinct_del map_of_del split: if_splits)
  show ?thesis
    using assms held boxes by (simp add: hub_core_def delete_inbox_def)
qed

lemma hub_core_end_session:
  assumes "env_ok env" and "hub_core X h"
  shows "hub_core X (end_session env kind s e h)"
    and "hb_presence (end_session env kind s e h) = del s (hb_presence h)"
    and "hb_pending (end_session env kind s e h) = hb_pending h"
    and "hb_generation (end_session env kind s e h) = hb_generation h"
    and "hb_history_cap (end_session env kind s e h) = hb_history_cap h"
    and "hb_public_key (end_session env kind s e h) = hb_public_key h"
    and "hb_private_key (end_session env kind s e h) = hb_private_key h"
proof -
  let ?h = "note_change kind (pe_handle e) []
    (delete_inbox s (h\<lparr>hb_presence := del s (hb_presence h)\<rparr>))"
  have core: "hub_core (insert s X) ?h"
    by (intro window_note_iff hub_core_drop assms(2))
  have gone: "s \<notin> fst ` set (hb_presence ?h)"
    by (simp add: delete_inbox_def keys_del)
  note left = hub_core_remove_participant [OF assms(1) core gone]
  show "hub_core X (end_session env kind s e h)"
    using left by (simp add: end_session_def)
  show "hb_presence (end_session env kind s e h) = del s (hb_presence h)"
    "hb_pending (end_session env kind s e h) = hb_pending h"
    "hb_generation (end_session env kind s e h) = hb_generation h"
    "hb_history_cap (end_session env kind s e h) = hb_history_cap h"
    "hb_public_key (end_session env kind s e h) = hb_public_key h"
    "hb_private_key (end_session env kind s e h) = hb_private_key h"
    using left by (simp_all add: end_session_def same_sessions_def delete_inbox_def)
qed

section \<open>Nothing is left of an empty hub\<close>

lemma no_conversation_left:
  assumes "hub_core {} h" and "hb_presence h = []"
  shows "hb_convs h = []"
proof (rule ccontr)
  assume "hb_convs h \<noteq> []"
  then obtain i where "i \<in> fst ` set (hb_convs h)"
    by (cases "hb_convs h") auto
  then have "map_of (hb_participants h) i \<noteq> None"
    using assms(1) in_keys_iff [of i "hb_participants h"] by (simp add: hub_core_def held_by_def)
  then obtain ms where "map_of (hb_participants h) i = Some ms" by blast
  then have "ms \<noteq> []" and "set ms \<subseteq> fst ` set (hb_presence h)"
    using assms(1) by (simp_all add: hub_core_def held_by_def)
  then show False
    using assms(2) by simp
qed

lemma forget_all_if_empty_id:
  assumes "env_ok env" and "hub_core {} h"
  shows "forget_all_if_empty env h = h"
proof (cases "hb_presence h = []")
  case True
  then have "hb_convs h = []"
    using no_conversation_left assms(2) by blast
  moreover have "le_arrange env [] = []"
    using env_okD [OF assms(1), of "[]"] by simp
  ultimately show ?thesis
    by (simp add: forget_all_if_empty_def)
qed (simp add: forget_all_if_empty_def)

section \<open>Expiry\<close>

definition live_at :: "int \<Rightarrow> presence_entry \<Rightarrow> bool" where
  "live_at now e \<longleftrightarrow> pe_expires e > now"

lemma expire_session_presence:
  assumes "env_ok env" and "hub_core {} h"
  shows "hub_core {} (expire_session env s h)"
    and "hb_presence (expire_session env s h)
      = filter (\<lambda>(t, e). t \<noteq> s \<or> live_at (le_now env) e) (hb_presence h)"
    and "hb_pending (expire_session env s h) = hb_pending h"
    and "hb_generation (expire_session env s h) = hb_generation h"
    and "hb_history_cap (expire_session env s h) = hb_history_cap h"
    and "hb_public_key (expire_session env s h) = hb_public_key h"
    and "hb_private_key (expire_session env s h) = hb_private_key h"
proof -
  have d: "distinct (map fst (hb_presence h))"
    using assms(2) by (simp add: hub_core_def held_by_def)
  note ended = hub_core_end_session [OF assms, of ExpirationChange s]
  show "hub_core {} (expire_session env s h)"
    using ended(1) assms(2) by (simp add: expire_session_def split: option.split)
  have keep: "filter (\<lambda>(t, e). t \<noteq> s \<or> live_at (le_now env) e) (hb_presence h) =
      (case map_of (hb_presence h) s of None \<Rightarrow> hb_presence h
       | Some e \<Rightarrow> if live_at (le_now env) e then hb_presence h else del s (hb_presence h))"
  proof (cases "map_of (hb_presence h) s")
    case None
    then have "\<forall>x \<in> set (hb_presence h). case x of (t, e) \<Rightarrow> t \<noteq> s \<or> live_at (le_now env) e"
      by (force simp: map_of_eq_None_iff)
    then have "filter (\<lambda>(t, e). t \<noteq> s \<or> live_at (le_now env) e) (hb_presence h) = hb_presence h"
      by (simp add: filter_id_conv)
    with None show ?thesis by simp
  next
    case (Some e)
    have "x = (s, e)" if "x \<in> set (hb_presence h)" and "fst x = s" for x
      using that Some d by (metis prod.collapse map_of_eq_Some_iff option.inject)
    then have "filter (\<lambda>(t, e). t \<noteq> s \<or> live_at (le_now env) e) (hb_presence h)
      = filter (\<lambda>(t, _). t \<noteq> s \<or> live_at (le_now env) e) (hb_presence h)"
      by (intro filter_cong) fastforce+
    with Some show ?thesis by (cases "live_at (le_now env) e") (simp_all add: del_def split_def)
  qed
  show "hb_presence (expire_session env s h)
      = filter (\<lambda>(t, e). t \<noteq> s \<or> live_at (le_now env) e) (hb_presence h)"
    unfolding keep unfolding expire_session_def live_at_def
    by (simp add: ended(2) split: option.split)
  show "hb_pending (expire_session env s h) = hb_pending h"
    "hb_generation (expire_session env s h) = hb_generation h"
    "hb_history_cap (expire_session env s h) = hb_history_cap h"
    "hb_public_key (expire_session env s h) = hb_public_key h"
    "hb_private_key (expire_session env s h) = hb_private_key h"
    using ended(3-7) by (simp_all add: expire_session_def split: option.split)
qed

lemma fold_expire_session:
  assumes "env_ok env" and "hub_core {} h"
  shows "hub_core {} (fold (expire_session env) ss h)
    \<and> hb_presence (fold (expire_session env) ss h)
      = filter (\<lambda>(t, e). t \<notin> set ss \<or> live_at (le_now env) e) (hb_presence h)
    \<and> hb_pending (fold (expire_session env) ss h) = hb_pending h
    \<and> hb_generation (fold (expire_session env) ss h) = hb_generation h
    \<and> hb_history_cap (fold (expire_session env) ss h) = hb_history_cap h
    \<and> hb_public_key (fold (expire_session env) ss h) = hb_public_key h
    \<and> hb_private_key (fold (expire_session env) ss h) = hb_private_key h"
  using assms(2)
proof (induction ss arbitrary: h)
  case Nil
  then show ?case by simp
next
  case (Cons s ss)
  note step = expire_session_presence [OF assms(1) Cons.prems, of s]
  have "filter (\<lambda>(t, e). t \<notin> set ss \<or> live_at (le_now env) e) (hb_presence (expire_session env s h))
    = filter (\<lambda>(t, e). t \<notin> set (s # ss) \<or> live_at (le_now env) e) (hb_presence h)"
    unfolding step(2) filter_filter by (intro filter_cong) auto
  then show ?case
    using Cons.IH [OF step(1)] step(3-7) by simp
qed

lemma expire_hub:
  assumes "env_ok env" and "hub_core {} h"
  shows "hub_core {} (expire env h)"
    and "hb_presence (expire env h) = filter (\<lambda>(t, e). live_at (le_now env) e) (hb_presence h)"
    and "hb_pending (expire env h) = filter (\<lambda>(k, p). ps_expires p > le_now env) (hb_pending h)"
    and "hb_generation (expire env h) = hb_generation h"
    and "hb_history_cap (expire env h) = hb_history_cap h"
    and "hb_public_key (expire env h) = hb_public_key h"
    and "hb_private_key (expire env h) = hb_private_key h"
proof -
  let ?h1 = "h\<lparr>hb_pending := filter (\<lambda>(k, p). ps_expires p > le_now env) (hb_pending h)\<rparr>"
  let ?ss = "le_arrange env (map fst (hb_presence ?h1))"
  have core: "hub_core {} ?h1"
    using assms(2) by simp
  have "distinct (map fst (hb_presence h))"
    using assms(2) by (simp add: hub_core_def held_by_def)
  then have all: "set ?ss = fst ` set (hb_presence h)"
    using env_okD [OF assms(1)] by simp
  note fold = fold_expire_session [OF assms(1) core, of ?ss]
  have "forget_all_if_empty env (fold (expire_session env) ?ss ?h1)
      = fold (expire_session env) ?ss ?h1"
    using fold forget_all_if_empty_id assms(1) by blast
  then have e: "expire env h = fold (expire_session env) ?ss ?h1"
    by (simp add: expire_def Let_def)
  show "hub_core {} (expire env h)"
    "hb_pending (expire env h) = filter (\<lambda>(k, p). ps_expires p > le_now env) (hb_pending h)"
    "hb_generation (expire env h) = hb_generation h"
    "hb_history_cap (expire env h) = hb_history_cap h"
    "hb_public_key (expire env h) = hb_public_key h"
    "hb_private_key (expire env h) = hb_private_key h"
    unfolding e using fold by simp_all
  have "filter (\<lambda>(t, e). t \<notin> set ?ss \<or> live_at (le_now env) e) (hb_presence h)
      = filter (\<lambda>(t, e). live_at (le_now env) e) (hb_presence h)"
    unfolding all by (intro filter_cong) force+
  then show "hb_presence (expire env h) = filter (\<lambda>(t, e). live_at (le_now env) e) (hb_presence h)"
    unfolding e using fold by simp
qed

end
