(* ===== verification/LiveQuota.thy ===== *)
theory LiveQuota
  imports LiveLease
begin

text \<open>
  Every operation on sessions keeps the invariant of a hub and its quotas: opening, preparing,
  renewing, revoking, departing, and enabling an inbox.
\<close>

section \<open>Quotas of sessions\<close>

definition session_quota :: "hub \<Rightarrow> bool" where
  "session_quota h \<longleftrightarrow>
     length (hb_presence h) \<le> max_live_sessions
     \<and> (\<forall>(s, e) \<in> set (hb_presence h). pe_handle e \<noteq> [])
     \<and> (\<forall>actor fingerprint.
          length (filter (\<lambda>(s, e). same_holder actor fingerprint e) (hb_presence h))
            \<le> max_sessions_per_actor)
     \<and> distinct (map fst (hb_pending h)) \<and> length (hb_pending h) \<le> max_pending_session_challenges"

definition hub_inv :: "hub \<Rightarrow> bool" where
  "hub_inv h \<longleftrightarrow> hub_core {} h \<and> session_quota h"

lemma hub_invD:
  assumes "hub_inv h"
  shows "hub_core {} h" "session_quota h" "window_inv h" "held_by {} h" "anchored h" "inboxes_ok h"
    "counted_frames h" "frame_quota h"
  using assms by (simp_all add: hub_inv_def hub_core_def)

lemma session_quota_filter:
  assumes "session_quota h" and "hb_presence g = filter P (hb_presence h)"
    and "hb_pending g = filter Q (hb_pending h)"
  shows "session_quota g"
proof -
  have count: "length (filter (\<lambda>(s, e). same_holder a f e) (hb_presence g)) \<le> max_sessions_per_actor"
    for a f
  proof -
    have "filter (\<lambda>(s, e). same_holder a f e) (hb_presence g)
        = filter P (filter (\<lambda>(s, e). same_holder a f e) (hb_presence h))"
      unfolding assms(2) filter_filter by (rule filter_cong) auto
    then have "length (filter (\<lambda>(s, e). same_holder a f e) (hb_presence g))
        \<le> length (filter (\<lambda>(s, e). same_holder a f e) (hb_presence h))"
      by (simp only: length_filter_le)
    also have "\<dots> \<le> max_sessions_per_actor"
      using assms(1) by (simp add: session_quota_def)
    finally show ?thesis .
  qed
  have "length (hb_presence g) \<le> max_live_sessions"
    unfolding assms(2) using assms(1) length_filter_le [of P "hb_presence h"]
    unfolding session_quota_def by linarith
  moreover have "length (hb_pending g) \<le> max_pending_session_challenges"
    unfolding assms(3) using assms(1) length_filter_le [of Q "hb_pending h"]
    unfolding session_quota_def by linarith
  moreover have "distinct (map fst (hb_pending g))"
    unfolding assms(3) using assms(1) by (simp add: session_quota_def distinct_map_filter)
  ultimately show ?thesis
    using count assms(1) by (simp add: session_quota_def assms(2))
qed

lemma hub_inv_expire:
  assumes "env_ok env" and "hub_inv h"
  shows "hub_inv (expire env h)"
proof -
  note e = expire_hub [OF assms(1) hub_invD(1) [OF assms(2)]]
  show ?thesis
    unfolding hub_inv_def
    using e(1) session_quota_filter [OF hub_invD(2) [OF assms(2)] e(2,3)] by simp
qed

lemma hub_inv_end_session:
  assumes "env_ok env" and "hub_inv h"
  shows "hub_inv (end_session env kind s e h)"
proof -
  note ended = hub_core_end_session [OF assms(1) hub_invD(1) [OF assms(2)], of kind s e]
  have "hb_pending (end_session env kind s e h) = filter (\<lambda>_. True) (hb_pending h)"
    using ended(3) by simp
  from session_quota_filter [OF hub_invD(2) [OF assms(2)] ended(2) [unfolded del_def] this]
  show ?thesis
    using ended(1) by (simp add: hub_inv_def)
qed

lemma hub_inv_forget_all:
  "env_ok env \<Longrightarrow> hub_inv h \<Longrightarrow> forget_all_if_empty env h = h"
  using forget_all_if_empty_id hub_invD(1) by blast

section \<open>Publishing a presence\<close>

lemma append_change_last:
  assumes "window_inv h" and "append_change k i v h = (c, g)"
  shows "g = note_change k i v h \<and> hb_history g \<noteq> [] \<and> last (hb_history g) = c
    \<and> c = plain_change (h\<lparr>hb_position := hb_position h + 1\<rparr>) k i v"
proof -
  let ?c = "plain_change (h\<lparr>hb_position := hb_position h + 1\<rparr>) k i v"
  have g: "g = note_change k i v h" and c: "c = ?c"
    using assms(2) by (auto simp: note_change_def append_change_def Let_def split: if_splits)
  have "0 < hb_history_cap h"
    using assms(1) by (simp add: window_inv_def)
  then have "newest (hb_history_cap h) (hb_history h @ [?c]) \<noteq> []"
    by (simp add: newest_def)
  moreover have "last (newest (hb_history_cap h) (hb_history h @ [?c])) = ?c"
    using \<open>0 < hb_history_cap h\<close> by (simp add: newest_def last_drop)
  ultimately show ?thesis
    unfolding g c note_change_history [OF assms(1)] by simp
qed

text \<open>The newest change may be annotated after the fact.\<close>

lemma remark_fields [simp]:
  "anchored (h\<lparr>hb_history := cs\<rparr>) = anchored h"
  "held_by X (h\<lparr>hb_history := cs\<rparr>) = held_by X h"
  "inboxes_ok (h\<lparr>hb_history := cs\<rparr>) = inboxes_ok h"
  "counted_frames (h\<lparr>hb_history := cs\<rparr>) = counted_frames h"
  "frame_quota (h\<lparr>hb_history := cs\<rparr>) = frame_quota h"
  "session_quota (h\<lparr>hb_history := cs\<rparr>) = session_quota h"
  by (cases h, simp add: anchored_def inboxes_ok_def counted_frames_def held_by_def
      frame_quota_def retained_in_def session_quota_def)+

lemma window_remark:
  assumes "window_inv h" and "hb_history h \<noteq> []" and "ch_cursor c = ch_cursor (last (hb_history h))"
  shows "window_inv (h\<lparr>hb_history := butlast (hb_history h) @ [c]\<rparr>)"
proof -
  have "map (\<lambda>c. cu_position (ch_cursor c)) (butlast (hb_history h) @ [c])
      = map (\<lambda>c. cu_position (ch_cursor c)) (butlast (hb_history h) @ [last (hb_history h)])"
    using assms(3) by simp
  also have "\<dots> = map (\<lambda>c. cu_position (ch_cursor c)) (hb_history h)"
    using append_butlast_last_id [OF assms(2)] by (simp only:)
  finally have "map (\<lambda>c. cu_position (ch_cursor c)) (butlast (hb_history h) @ [c])
      = [hb_base h + 1..<hb_position h + 1]"
    using assms(1) by (simp add: window_inv_def)
  moreover have "length (butlast (hb_history h) @ [c]) = length (hb_history h)"
    using assms(2) by simp
  ultimately show ?thesis
    using assms(1,2) by (simp add: window_inv_def)
qed


lemma publish_presence_fields:
  assumes "window_inv h"
  shows "window_inv (snd (publish_presence env s exists held entry h))"
    and "hb_presence (snd (publish_presence env s exists held entry h)) = put s entry (hb_presence h)"
    and "hb_pending (snd (publish_presence env s exists held entry h)) = hb_pending h"
    and "hub_core {} h \<Longrightarrow>
      hub_core {} (snd (publish_presence env s exists held entry h))"
proof -
  let ?h1 = "h\<lparr>hb_presence := put s entry (hb_presence h)\<rparr>"
  have w1: "window_inv ?h1"
    using assms by simp
  have core1: "hub_core {} ?h1" if "hub_core {} h"
  proof -
    have "ms \<noteq> [] \<and> set ms \<subseteq> fst ` set (put s entry (hb_presence h))"
      if "map_of (hb_participants h) i = Some ms" for i ms
      using held_byD [of "{}" h, OF _ that] \<open>hub_core {} h\<close>
      by (auto simp: hub_core_def keys_put)
    then have held: "held_by {} ?h1"
      using that by (simp add: hub_core_def held_by_def distinct_put)
    have "inboxes_ok ?h1"
      using that by (simp add: hub_core_def inboxes_ok_def retained_in_def keys_put)
    with held show ?thesis
      using that by (simp add: hub_core_def)
  qed
  let ?out = "snd (publish_presence env s exists held entry h)"
  let ?k = "if exists \<and> pe_value held = pe_value entry \<and> pe_actor held = pe_actor entry
      \<and> pe_fingerprint held = pe_fingerprint entry then ActivityChange else PresenceChange"
  obtain c g where app: "append_change ?k (pe_handle entry) (pe_value entry) ?h1 = (c, g)"
    by (rule prod.exhaust)
  have "?out = ?h1 \<or>
    ?out = g\<lparr>hb_history := butlast (hb_history g) @ [c\<lparr>ch_activity := Some (pe_activity entry)\<rparr>]\<rparr>"
    unfolding publish_presence_def Let_def app by simp
  then have "window_inv ?out \<and> hb_presence ?out = put s entry (hb_presence h)
      \<and> hb_pending ?out = hb_pending h \<and> (hub_core {} h \<longrightarrow> hub_core {} ?out)"
  proof (elim disjE)
    assume 1: "?out = ?h1"
    show ?thesis
      unfolding 1 using w1 core1 by simp
  next
    assume 2: "?out = g\<lparr>hb_history :=
        butlast (hb_history g) @ [c\<lparr>ch_activity := Some (pe_activity entry)\<rparr>]\<rparr>"
    note last = append_change_last [OF w1 app]
    have "window_inv g"
      using last window_inv_note [OF w1] by simp
    then have "window_inv ?out"
      unfolding 2 using last by (intro window_remark) auto
    then show ?thesis
      using core1 last unfolding 2 hub_core_def by simp
  qed
  then show "window_inv ?out" "hb_presence ?out = put s entry (hb_presence h)"
    "hb_pending ?out = hb_pending h" "hub_core {} h \<Longrightarrow> hub_core {} ?out"
    by blast+
qed


lemma put_new: "map_of m k = None \<Longrightarrow> put k v m = m @ [(k, v)]"
  by (induction m) auto

lemma count_put_same:
  assumes "map_of m k = Some w" and "P v = P w"
  shows "length (filter (\<lambda>(s, e). P e) (put k v m)) = length (filter (\<lambda>(s, e). P e) m)"
  using assms by (induction m) (auto split: if_splits)

lemma same_holder_class:
  assumes "same_holder a f e" and "pe_actor e = actor" and "pe_fingerprint e = fingerprint"
  shows "same_holder a f = same_holder actor fingerprint"
  using assms by (auto simp: same_holder_def fun_eq_iff)

lemma room_forD:
  assumes "room_for h actor fingerprint = None"
  shows "length (hb_presence h) < max_live_sessions"
    "length (filter (\<lambda>(s, e). same_holder actor fingerprint e) (hb_presence h))
      < max_sessions_per_actor"
  using assms by (simp_all add: room_for_def split: if_splits)

lemma quota_put_new:
  assumes "session_quota h" and "map_of (hb_presence h) s = None"
    and "room_for h (pe_actor entry) (pe_fingerprint entry) = None"
    and "hb_presence g = put s entry (hb_presence h)" and "hb_pending g = hb_pending h"
    and "pe_handle entry \<noteq> []"
  shows "session_quota g"
proof -
  have "length (filter (\<lambda>(s, e). same_holder a f e) (hb_presence g)) \<le> max_sessions_per_actor"
    for a f
  proof (cases "same_holder a f entry")
    case True
    then have "same_holder a f = same_holder (pe_actor entry) (pe_fingerprint entry)"
      using same_holder_class by blast
    with room_forD(2) [OF assms(3)] show ?thesis
      by (simp add: assms(4) put_new [OF assms(2)])
  next
    case False
    with assms(1) show ?thesis
      by (simp add: assms(4) put_new [OF assms(2)] session_quota_def)
  qed
  then show ?thesis
    using assms(1,6) room_forD(1) [OF assms(3)]
    by (simp add: session_quota_def assms(4,5) put_new [OF assms(2)])
qed

lemma quota_put_old:
  assumes "session_quota h" and "map_of (hb_presence h) s = Some w"
    and "pe_actor entry = pe_actor w" and "pe_fingerprint entry = pe_fingerprint w"
    and "hb_presence g = put s entry (hb_presence h)" and "hb_pending g = hb_pending h"
    and "pe_handle entry \<noteq> []"
  shows "session_quota g"
proof -
  have "same_holder a f entry = same_holder a f w" for a f
    using assms(3,4) by (simp add: same_holder_def)
  then have "length (filter (\<lambda>(s, e). same_holder a f e) (hb_presence g))
      = length (filter (\<lambda>(s, e). same_holder a f e) (hb_presence h))" for a f
    unfolding assms(5) by (rule count_put_same [OF assms(2)])
  moreover have "\<forall>(s, e) \<in> set (hb_presence g). pe_handle e \<noteq> []"
    using assms(1,7) set_put_subset [of s entry "hb_presence h"]
    unfolding assms(5) session_quota_def by blast
  moreover have "length (hb_presence g) = length (hb_presence h)"
    unfolding assms(5) using assms(2) in_keys_iff [of s "hb_presence h"] by (simp add: length_put)
  ultimately show ?thesis
    using assms(1,6) by (simp add: session_quota_def)
qed

lemma hub_core_delete_inbox: "hub_core X h \<Longrightarrow> hub_core X (delete_inbox s h)"
  by (simp add: hub_core_def delete_inbox_def inboxes_ok_def distinct_del map_of_del retained_in_def)

lemma publish_inv:
  assumes "hub_inv h" and "exists \<longleftrightarrow> map_of (hb_presence h) s \<noteq> None"
    and "\<not> exists \<Longrightarrow> room_for h (pe_actor entry) (pe_fingerprint entry) = None"
    and "\<And>e. map_of (hb_presence h) s = Some e \<Longrightarrow>
      pe_actor entry = pe_actor e \<and> pe_fingerprint entry = pe_fingerprint e"
    and "pe_handle entry \<noteq> []"
  shows "hub_inv (snd (publish_presence env s exists held entry h))"
proof -
  note fields = publish_presence_fields [OF hub_invD(3) [OF assms(1)], of env s exists held entry]
  have "session_quota (snd (publish_presence env s exists held entry h))"
  proof (cases "map_of (hb_presence h) s")
    case None
    with assms(2,3) have "room_for h (pe_actor entry) (pe_fingerprint entry) = None"
      by simp
    then show ?thesis
      by (rule quota_put_new [OF hub_invD(2) [OF assms(1)] None _ fields(2,3) assms(5)])
  next
    case (Some e)
    with assms(4) show ?thesis
      using quota_put_old [OF hub_invD(2) [OF assms(1)] Some _ _ fields(2,3) assms(5)] by blast
  qed
  then show ?thesis
    using fields(4) [OF hub_invD(1) [OF assms(1)]] by (simp add: hub_inv_def)
qed

lemma hub_inv_delete_inbox: "hub_inv h \<Longrightarrow> hub_inv (delete_inbox s h)"
  using hub_core_delete_inbox
  by (simp add: hub_inv_def session_quota_def delete_inbox_def)

text \<open>What an announcement does: nothing to the leases, or one publication.\<close>

lemma announce_for_cases:
  fixes h :: hub and s :: string
  defines "exists \<equiv> map_of (hb_presence h) s \<noteq> None"
  defines "h1 \<equiv> if exists then h else delete_inbox s h"
  obtains (refused) e where "fst (announce_for env s actor fingerprint value ttl update h) = Inl e"
      "snd (announce_for env s actor fingerprint value ttl update h) \<in> {h, h1}"
    | (published) t activity changed where
      "normalize_lease actor value ttl = Inr t"
      "exists \<or> room_for h actor fingerprint = None"
      "announce_for env s actor fingerprint value ttl update h =
         apfst Inr (publish_presence env s exists (entry_of h s)
           \<lparr>pe_value = value, pe_actor = actor, pe_fingerprint = fingerprint,
            pe_inbox = pe_inbox (entry_of h s),
            pe_handle = (if pe_handle (entry_of h s) \<noteq> [] then pe_handle (entry_of h s)
                         else mint_handle (the (le_handle env))),
            pe_activity = activity, pe_expires = le_now env + t, pe_changed_at = changed\<rparr> h1)"
      "pe_handle (entry_of h s) \<noteq> [] \<or> le_handle env \<noteq> None"
proof (cases "normalize_lease actor value ttl")
  case (Inl e)
  then show ?thesis
    by (intro refused) (simp_all add: announce_for_def)
next
  case (Inr t)
  show ?thesis
  proof (cases "if exists then None else room_for h actor fingerprint")
    case (Some e)
    with Inr show ?thesis
      by (intro refused) (simp_all add: announce_for_def exists_def)
  next
    case None
    show ?thesis
    proof (cases "normalize_activity (pe_activity (entry_of h s)) update exists")
      case (Inl e)
      with Inr None show ?thesis
        by (intro refused) (simp_all add: announce_for_def exists_def h1_def Let_def)
    next
      case act: (Inr activity)
      show ?thesis
      proof (cases "choose_handle env (entry_of h s)")
        case (Inl e)
        with Inr None act show ?thesis
          by (intro refused) (simp_all add: announce_for_def exists_def h1_def Let_def)
      next
        case handle: (Inr handle)
        then have "handle = (if pe_handle (entry_of h s) \<noteq> [] then pe_handle (entry_of h s)
                         else mint_handle (the (le_handle env)))"
            and "pe_handle (entry_of h s) \<noteq> [] \<or> le_handle env \<noteq> None"
          by (auto simp: choose_handle_def split: if_splits option.splits)
        with Inr None act handle show ?thesis
          by (intro published [of t activity "if \<not> exists \<or> pe_changed_at (entry_of h s) = None
              \<or> pe_activity (entry_of h s) \<noteq> activity
              then Some (le_now env) else pe_changed_at (entry_of h s)"])
            (simp_all only: announce_for_def exists_def [symmetric] h1_def [symmetric] Let_def
              sum.case option.case, simp_all split: if_splits)
      qed
    qed
  qed
qed

lemma hub_inv_announce_for:
  assumes "hub_inv h"
    and "\<And>e. map_of (hb_presence h) s = Some e \<Longrightarrow> pe_actor e = actor \<and> pe_fingerprint e = fingerprint"
  shows "hub_inv (snd (announce_for env s actor fingerprint value ttl update h))"
proof (cases rule: announce_for_cases [of env s actor fingerprint "value" ttl update h])
  case (refused e)
  with assms(1) hub_inv_delete_inbox show ?thesis
    by (auto split: if_splits)
next
  case (published t activity changed)
  let ?exists = "map_of (hb_presence h) s \<noteq> None"
  let ?h1 = "if ?exists then h else delete_inbox s h"
  have inv1: "hub_inv ?h1"
    using assms(1) hub_inv_delete_inbox by simp
  have pres: "hb_presence ?h1 = hb_presence h"
    by (simp add: delete_inbox_def)
  have room: "room_for ?h1 actor fingerprint = room_for h actor fingerprint"
    by (simp add: room_for_def delete_inbox_def)
  show ?thesis
    unfolding published(3) snd_apfst
    by (rule publish_inv [OF inv1]) (use published(2) room pres assms(2) in \<open>simp_all add: mint_handle_def\<close>)
qed

end
