(* ===== verification/LiveSafe.thy ===== *)
theory LiveSafe
  imports LiveQuota
begin

text \<open>
  The invariant of a hub holds in every reachable state: the remaining session operations, the
  publication of a frame, the delivery of a message and its acknowledgement.
\<close>

section \<open>Sessions\<close>

lemma fresh_credential_new:
  "fresh_credential h draws = Inr c \<Longrightarrow> map_of (hb_presence h) c = None"
  by (induction h draws rule: fresh_credential.induct) (auto split: if_splits)

lemma hub_inv_open_identity:
  assumes "hub_inv h"
  shows "hub_inv (snd (open_session_identity_locked env actor fingerprint v ttl update h))"
proof (cases "fresh_credential h (le_credentials env)")
  case (Inl e)
  then show ?thesis using assms by (simp add: open_session_identity_locked_def)
next
  case (Inr c)
  then have "map_of (hb_presence h) c = None"
    by (rule fresh_credential_new)
  then have "hub_inv (snd (announce_for env c actor fingerprint v ttl update h))"
    using hub_inv_announce_for [OF assms, of c actor fingerprint] by simp
  with Inr show ?thesis
    by (auto simp: open_session_identity_locked_def split: prod.splits sum.splits)
qed

lemma pending_change:
  assumes "hub_inv h" and "distinct (map fst qs)" and "length qs \<le> max_pending_session_challenges"
  shows "hub_inv (h\<lparr>hb_pending := qs\<rparr>)"
  using assms by (simp add: hub_inv_def session_quota_def)

lemma hub_inv_open_trusted:
  assumes "env_ok env" and "hub_inv h"
  shows "hub_inv (snd (open_trusted_session L env actor key v ttl update h))"
  using assms(2) hub_inv_open_identity [OF hub_inv_expire [OF assms]]
  by (simp add: open_trusted_session_def split: sum.split)

lemma hub_inv_prepare_session:
  assumes "env_ok env" and "hub_inv h"
  shows "hub_inv (snd (prepare_session L env actor key v ttl update h))"
proof -
  let ?h = "expire env h"
  have inv: "hub_inv ?h"
    using assms by (rule hub_inv_expire)
  have "hub_inv (?h\<lparr>hb_pending := put k p (hb_pending ?h)\<rparr>)"
    if "length (hb_pending ?h) < max_pending_session_challenges" for k p
    using inv that
    by (intro pending_change) (simp_all add: hub_inv_def session_quota_def distinct_put length_put)
  then show ?thesis
    using inv assms(2) by (simp add: prepare_session_def Let_def split: sum.split prod.split)
qed

lemma length_del_le: "length m \<le> n \<Longrightarrow> length (del k m) \<le> n"
  using length_del [of k m] by linarith

lemma hub_inv_open_session:
  assumes "env_ok env" and "hub_inv h"
  shows "hub_inv (snd (open_session L env c signature h))"
proof -
  let ?h = "expire env h"
  have inv: "hub_inv ?h"
    using assms by (rule hub_inv_expire)
  have used: "hub_inv (?h\<lparr>hb_pending := del k (hb_pending ?h)\<rparr>)" for k
    using inv
    by (intro pending_change) (simp_all add: hub_inv_def session_quota_def distinct_del length_del_le)
  show ?thesis
    using inv used hub_inv_open_identity [OF used]
    by (simp add: open_session_def Let_def split: sum.split option.split)
qed

lemma hub_inv_announce_identity:
  assumes "env_ok env" and "hub_inv h"
  shows "hub_inv (snd (announce_session_identity env s actor fingerprint v ttl update h))"
proof -
  have inv: "hub_inv (expire env h)"
    using assms by (rule hub_inv_expire)
  show ?thesis
    using assms(2) inv hub_inv_announce_for [OF inv, of s actor fingerprint]
    by (cases "map_of (hb_presence (expire env h)) s")
      (simp_all add: announce_session_identity_def Let_def)
qed

lemma hub_inv_renew:
  assumes "env_ok env" and "hub_inv h"
  shows "hub_inv (snd (renew_session L env s actor key v ttl update h))"
proof -
  have inv: "hub_inv (expire env h)"
    using assms by (rule hub_inv_expire)
  show ?thesis
    using assms(2) inv hub_inv_announce_for [OF inv, of s actor]
    by (cases "map_of (hb_presence (expire env h)) s")
      (simp_all add: renew_session_def renew_session_identity_def Let_def split: sum.split)
qed

lemma hub_inv_revoke:
  assumes "env_ok env" and "hub_inv h"
  shows "hub_inv (snd (revoke_session env s h))"
proof -
  have inv: "hub_inv (expire env h)"
    using assms by (rule hub_inv_expire)
  show ?thesis
    using inv hub_inv_end_session [OF assms(1) inv]
      hub_inv_forget_all [OF assms(1) hub_inv_end_session [OF assms(1) inv]]
    by (simp add: revoke_session_def Let_def split: option.split)
qed

lemma hub_inv_depart:
  assumes "env_ok env" and "hub_inv h"
  shows "hub_inv (snd (depart env s h))"
  using hub_inv_end_session [OF assms]
    hub_inv_forget_all [OF assms(1) hub_inv_end_session [OF assms]]
  by (simp add: depart_def Let_def)

lemma hub_core_presence_update:
  assumes "hub_core {} h" and "map_of (hb_presence h) s \<noteq> None"
  shows "hub_core {} (h\<lparr>hb_presence := put s e (hb_presence h)\<rparr>)"
proof -
  have keys: "fst ` set (put s e (hb_presence h)) = fst ` set (hb_presence h)"
    using assms(2) in_keys_iff [of s "hb_presence h"] by (simp add: keys_put insert_absorb)
  have "inboxes_ok (h\<lparr>hb_presence := put s e (hb_presence h)\<rparr>)"
    using assms(1) by (simp add: hub_core_def inboxes_ok_def retained_in_def keys)
  moreover have "held_by {} (h\<lparr>hb_presence := put s e (hb_presence h)\<rparr>)"
    using assms(1) by (simp add: hub_core_def held_by_def keys distinct_put)
  ultimately show ?thesis
    using assms(1) by (simp add: hub_core_def)
qed

lemma hub_inv_enable_inbox:
  assumes "env_ok env" and "hub_inv h"
  shows "hub_inv (snd (enable_inbox env s h))"
proof -
  have inv: "hub_inv (expire env h)"
    using assms by (rule hub_inv_expire)
  have "hub_inv (expire env h\<lparr>hb_presence := put s (e\<lparr>pe_inbox := True\<rparr>) (hb_presence (expire env h))\<rparr>)"
    if e: "map_of (hb_presence (expire env h)) s = Some e" for e
  proof -
    have "pe_handle e \<noteq> []"
      using hub_invD(2) [OF inv] e by (auto simp: session_quota_def dest: map_of_SomeD)
    then have "session_quota
        (expire env h\<lparr>hb_presence := put s (e\<lparr>pe_inbox := True\<rparr>) (hb_presence (expire env h))\<rparr>)"
      by (intro quota_put_old [OF hub_invD(2) [OF inv] e, of "e\<lparr>pe_inbox := True\<rparr>"]) simp_all
    then show ?thesis
      using hub_core_presence_update [OF hub_invD(1) [OF inv]] e by (simp add: hub_inv_def)
  qed
  with inv show ?thesis
    by (simp add: enable_inbox_def Let_def split: option.split)
qed


section \<open>Frames\<close>

text \<open>The parts of the invariant that do not speak of sessions.\<close>

definition frames_inv :: "hub \<Rightarrow> bool" where
  "frames_inv h \<longleftrightarrow> window_inv h \<and> anchored h \<and> inboxes_ok h \<and> counted_frames h \<and> frame_quota h
     \<and> distinct (map fst (hb_convs h))"

lemma hub_core_iff: "hub_core X h \<longleftrightarrow> frames_inv h \<and> held_by X h"
  by (auto simp: hub_core_def frames_inv_def held_by_def)

lemma frames_inv_note: "frames_inv h \<Longrightarrow> frames_inv (note_change k i v h)"
  by (simp add: frames_inv_def window_inv_note)

lemma put_put [simp]: "put k v (put k w m) = put k v m"
  by (induction m) auto

lemma payload_bytes_simps [simp]:
  "payload_bytes [] = 0" "payload_bytes (fs @ [f]) = payload_bytes fs + int (length (fr_payload f))"
  by (simp_all add: payload_bytes_def)

lemma frames_inv_install:
  assumes "frames_inv h" and "map_of (hb_convs h) i = None" and "map_of (hb_about h) a = None"
    and "i \<noteq> []" and "a \<noteq> []"
  shows "frames_inv (h\<lparr>hb_convs := put i \<lparr>cv_next = 0, cv_last = [], cv_genesis = g, cv_frames = [],
      cv_about = a\<rparr> (hb_convs h), hb_about := put a i (hb_about h)\<rparr>)" (is "frames_inv ?g")
proof -
  have d: "distinct (map fst (hb_convs h))"
    using assms(1) by (simp add: frames_inv_def)
  have "window_inv ?g"
    using assms(1) by (simp add: frames_inv_def window_inv_def)
  moreover have "anchored ?g"
  proof -
    have old: "distinct (map fst (hb_about h))"
      "\<And>b j. map_of (hb_about h) b = Some j \<Longrightarrow>
        j \<noteq> i \<and> (\<exists>c. map_of (hb_convs h) j = Some c \<and> cv_about c = b)"
      "\<And>j c. map_of (hb_convs h) j = Some c \<Longrightarrow>
        j \<noteq> [] \<and> cv_about c \<noteq> [] \<and> cv_about c \<noteq> a \<and> map_of (hb_about h) (cv_about c) = Some j"
      using assms(1-3) unfolding frames_inv_def anchored_def by (simp, force, force)
    show ?thesis
      unfolding anchored_def
    proof (intro conjI allI impI)
      show "distinct (map fst (hb_about ?g))"
        using old(1) by (simp add: distinct_put)
      show "\<exists>c. map_of (hb_convs ?g) j = Some c \<and> cv_about c = b"
        if "map_of (hb_about ?g) b = Some j" for b j
        using that old(2) [of b j] by (auto simp: map_of_put split: if_splits)
      fix j c
      assume c: "map_of (hb_convs ?g) j = Some c"
      show "j \<noteq> []" "cv_about c \<noteq> []" "map_of (hb_about ?g) (cv_about c) = Some j"
        using c old(3) [of j c] assms(4,5) by (auto simp: map_of_put split: if_splits)
    qed
  qed
  moreover have "inboxes_ok ?g"
    using assms(1,2) unfolding frames_inv_def inboxes_ok_def retained_in_def
    by (fastforce simp: map_of_put)
  moreover have "counted_frames ?g"
    using assms(1,2) unfolding frames_inv_def counted_frames_def
    by (simp add: sum_list_put [OF d, of "\<lambda>c. int (length (cv_frames c))"]
        sum_list_put [OF d, of "\<lambda>c. payload_bytes (cv_frames c)"])
  moreover have "frame_quota ?g"
    using assms(1) by (simp add: frames_inv_def frame_quota_def map_of_put)
  ultimately show ?thesis
    using d by (simp add: frames_inv_def distinct_put)
qed


lemma anchored_alt:
  "anchored h \<longleftrightarrow> distinct (map fst (hb_about h))
     \<and> (\<forall>a i. map_of (hb_about h) a = Some i \<longrightarrow> map_option cv_about (map_of (hb_convs h) i) = Some a)
     \<and> (\<forall>i a. map_option cv_about (map_of (hb_convs h) i) = Some a \<longrightarrow>
          i \<noteq> [] \<and> a \<noteq> [] \<and> map_of (hb_about h) a = Some i)"
  unfolding anchored_def by (simp only: map_option_eq_Some) blast

lemma anchored_same:
  assumes "anchored h" and "hb_about g = hb_about h"
    and "\<And>j. map_option cv_about (map_of (hb_convs g) j) = map_option cv_about (map_of (hb_convs h) j)"
  shows "anchored g"
  using assms(1) unfolding anchored_alt assms(2,3) .

lemma frames_inv_extend:
  assumes "frames_inv h" and c: "map_of (hb_convs h) i = Some c"
    and "can_publish h (length (fr_payload f)) = None"
  shows "frames_inv (h\<lparr>hb_convs := put i (extend_conversation c f digest) (hb_convs h),
      hb_retained_frames := hb_retained_frames h + 1,
      hb_retained_bytes := hb_retained_bytes h + int (length (fr_payload f))\<rparr>)" (is "frames_inv ?g")
proof -
  have d: "distinct (map fst (hb_convs h))"
    using assms(1) by (simp add: frames_inv_def)
  have "window_inv ?g"
    using assms(1) by (simp add: frames_inv_def window_inv_def)
  moreover have same: "map_option cv_about (map_of (hb_convs ?g) j) = map_option cv_about (map_of (hb_convs h) j)"
    for j using c by (simp add: map_of_put extend_conversation_def)
  have "anchored ?g"
    using assms(1) anchored_same [of h ?g] same by (simp add: frames_inv_def)
  moreover have "retained_in ?g r" if "retained_in h r" for r
    using that c by (auto simp: retained_in_def map_of_put extend_conversation_def)
  then have "inboxes_ok ?g"
    using assms(1) unfolding frames_inv_def inboxes_ok_def by simp
  moreover have "counted_frames ?g"
    using assms(1) c unfolding frames_inv_def counted_frames_def
    by (simp add: sum_list_put [OF d, of "\<lambda>c. int (length (cv_frames c))"]
        sum_list_put [OF d, of "\<lambda>c. payload_bytes (cv_frames c)"] extend_conversation_def)
  moreover have "frame_quota ?g"
    using assms(1,3) c
    by (auto simp: frames_inv_def frame_quota_def map_of_put extend_conversation_def
        can_publish_def split: if_splits)
  ultimately show ?thesis
    using d by (simp add: frames_inv_def distinct_put)
qed

lemma frames_inv_participants [simp]:
  "frames_inv (h\<lparr>hb_participants := ps\<rparr>) = frames_inv h"
  by (simp add: frames_inv_def)

lemma add_participant_fields [simp]:
  "hb_presence (add_participant i s h) = hb_presence h"
  "hb_convs (add_participant i s h) = hb_convs h"
  "hb_inboxes (add_participant i s h) = hb_inboxes h"
  "hb_pending (add_participant i s h) = hb_pending h"
  "hb_history (add_participant i s h) = hb_history h"
  "frames_inv (add_participant i s h) = frames_inv h"
  "session_quota (add_participant i s h) = session_quota h"
  by (simp_all add: add_participant_def Let_def session_quota_def)

text \<open>A participant is added to a conversation that is known, or that has just been installed.\<close>

lemma held_by_add_participant:
  assumes "distinct (map fst (hb_presence h))" "distinct (map fst (hb_convs h))"
    "distinct (map fst (hb_participants h))"
    and "insert i (fst ` set (hb_participants h)) = fst ` set (hb_convs h)"
    and "\<And>j ms. map_of (hb_participants h) j = Some ms \<Longrightarrow>
      ms \<noteq> [] \<and> set ms \<subseteq> fst ` set (hb_presence h)"
    and "s \<in> fst ` set (hb_presence h)"
  shows "held_by {} (add_participant i s h)"
proof -
  have "ms \<noteq> [] \<and> set ms \<subseteq> fst ` set (hb_presence h)"
    if "map_of (hb_participants (add_participant i s h)) j = Some ms" for j ms
  proof (cases "j = i")
    case True
    then have ms: "ms = (case map_of (hb_participants h) i of None \<Rightarrow> [s]
        | Some ns \<Rightarrow> if s \<in> set ns then ns else ns @ [s])"
      using that by (auto simp: add_participant_def Let_def map_of_put split: option.splits)
    show ?thesis
    proof (cases "map_of (hb_participants h) i")
      case None
      with ms assms(6) show ?thesis by simp
    next
      case (Some ns)
      with ms assms(6) assms(5) [OF Some] show ?thesis by (auto split: if_splits)
    qed
  next
    case False
    then have "map_of (hb_participants h) j = Some ms"
      using that by (simp add: add_participant_def Let_def map_of_put)
    then show ?thesis by (rule assms(5))
  qed
  then show ?thesis
    using assms(1-4) unfolding held_by_def
    by (simp add: add_participant_def Let_def keys_put distinct_put)
qed

lemma hub_core_add_participant:
  assumes "hub_core {} h" and "i \<in> fst ` set (hb_convs h)" and "s \<in> fst ` set (hb_presence h)"
  shows "hub_core {} (add_participant i s h)"
proof -
  have "held_by {} (add_participant i s h)"
    by (rule held_by_add_participant)
      (use assms in \<open>auto simp: hub_core_def held_by_def\<close>)
  then show ?thesis
    using assms(1) by (simp add: hub_core_iff)
qed


section \<open>Submission\<close>

lemma submit_frame_cases:
  obtains (refused) e where "submit_frame_locked L session s h = (Inl e, h)"
    | (published) current f digest where
      "session_holds_key L h session (sb_actor_key s)"
      "length (sb_actor_signature s) = signature_size"
      "can_publish h (length (dr_payload (sb_draft s))) = None"
      "validate_draft L h (sb_draft s) = Inr current"
      "verify_bytes L actor_frame_domain (sb_actor_key s)
         (cbor_actor_body L (actor_body (dr_generation (sb_draft s)) (dr_conversation (sb_draft s))
            (dr_sequence (sb_draft s)) (dr_previous (sb_draft s)) (dr_payload (sb_draft s))))
         (sb_actor_signature s)"
      "build_signed_frame L h (case current of Some c \<Rightarrow> c | None \<Rightarrow> opened (sb_draft s))
         (actor_body (dr_generation (sb_draft s)) (dr_conversation (sb_draft s))
            (dr_sequence (sb_draft s)) (dr_previous (sb_draft s)) (dr_payload (sb_draft s)))
         (sb_actor_key s) (sb_actor_signature s) = Inr (f, digest)"
      "submit_frame_locked L session s h =
         (Inr f, add_participant (dr_conversation (sb_draft s)) session
            (commit_signed_frame (case current of Some c \<Rightarrow> c | None \<Rightarrow> opened (sb_draft s)) f digest
              (case current of Some c \<Rightarrow> h
               | None \<Rightarrow> install_conversation (sb_draft s) (opened (sb_draft s)) h)))"
proof (cases "session_holds_key L h session (sb_actor_key s)
    \<and> length (sb_actor_signature s) = signature_size
    \<and> can_publish h (length (dr_payload (sb_draft s))) = None
    \<and> (\<exists>current. validate_draft L h (sb_draft s) = Inr current)")
  case False
  then have "\<exists>e. submit_frame_locked L session s h = (Inl e, h)"
    by (cases "validate_draft L h (sb_draft s)";
        cases "can_publish h (length (dr_payload (sb_draft s)))")
      (auto simp: submit_frame_locked_def Let_def)
  then show ?thesis using refused by blast
next
  case True
  then obtain current where holds: "session_holds_key L h session (sb_actor_key s)"
    "length (sb_actor_signature s) = signature_size"
    "can_publish h (length (dr_payload (sb_draft s))) = None"
    "validate_draft L h (sb_draft s) = Inr current"
    by blast
  let ?body = "actor_body (dr_generation (sb_draft s)) (dr_conversation (sb_draft s))
            (dr_sequence (sb_draft s)) (dr_previous (sb_draft s)) (dr_payload (sb_draft s))"
  let ?signed = "verify_bytes L actor_frame_domain (sb_actor_key s) (cbor_actor_body L ?body)
            (sb_actor_signature s)"
  let ?c = "case current of Some c \<Rightarrow> c | None \<Rightarrow> opened (sb_draft s)"
  let ?built = "build_signed_frame L h ?c ?body (sb_actor_key s) (sb_actor_signature s)"
  show ?thesis
  proof (cases ?signed)
    case False
    with holds show ?thesis
      by (intro refused) (simp add: submit_frame_locked_def Let_def)
  next
    case signed: True
    show ?thesis
    proof (cases ?built)
      case (Inl e)
      with holds signed show ?thesis
        by (intro refused) (simp add: submit_frame_locked_def Let_def)
    next
      case (Inr fd)
      obtain f digest where "fd = (f, digest)" by (cases fd)
      with Inr holds signed show ?thesis
        by (intro published [of current f digest])
          (simp_all add: submit_frame_locked_def Let_def split: option.split)
    qed
  qed
qed

lemma validate_draft_known:
  assumes "validate_draft L h d = Inr (Some c)"
  shows "map_of (hb_convs h) (dr_conversation d) = Some c" "cv_about c = dr_scope d"
    "cv_genesis c = dr_genesis d" "cv_next c = dr_sequence d" "cv_last c = dr_previous d"
  using assms by (auto simp: validate_draft_def Let_def split: if_splits sum.splits option.splits)

lemma validate_draft_new:
  assumes "validate_draft L h d = Inr None"
  shows "map_of (hb_convs h) (dr_conversation d) = None" "about_of h (dr_scope d) = []"
    "dr_sequence d = 0" "dr_previous d = []"
  using assms by (auto simp: validate_draft_def Let_def split: if_splits sum.splits option.splits)

lemma validate_draft_any:
  assumes "validate_draft L h d = Inr current"
  shows "valid_scope (dr_scope d)" "dr_conversation d = conversation_id L (dr_genesis d)"
    "dr_generation d = hb_generation h"
  using assms by (auto simp: validate_draft_def Let_def split: if_splits sum.splits option.splits)

lemma built_frame:
  assumes "build_signed_frame L h c body key signature = Inr (f, digest)"
  shows "fr_conversation f = ab_conversation body" "fr_payload f = ab_payload body"
    "fr_sequence f = cv_next c" "fr_previous f = cv_last c" "frame_hash L f = Inr digest"
    "fr_actor_key f = key" "fr_actor_signature f = signature" "fr_genesis f = cv_genesis c"
    "ab_sequence body = cv_next c" "ab_previous body = cv_last c" "fr_version f = 0"
    "fr_generation f = hb_generation h" "fr_nexus_key f = hb_public_key h"
    "ab_generation body = hb_generation h"
    "sign_issuer_bytes L nexus_frame_domain (hb_private_key h)
       (cbor_nexus_body L \<lparr>nb_actor_body = body, nb_actor_key = key, nb_actor_signature = signature\<rparr>)
       = Inr (fr_nexus_signature f)"
  using assms
  by (auto simp: build_signed_frame_def Let_def split: if_splits option.splits sum.splits)

lemma about_of_none:
  assumes "anchored h" and "about_of h a = []"
  shows "map_of (hb_about h) a = None"
  using assms unfolding about_of_def anchored_def by (fastforce split: option.splits)


text \<open>After a change the window is never empty.\<close>

lemma note_change_nonempty:
  assumes "window_inv h"
  shows "hb_history (note_change k i v h) \<noteq> []"
proof -
  obtain c g where "append_change k i v h = (c, g)"
    by (rule prod.exhaust)
  then show ?thesis
    using append_change_last [OF assms] by blast
qed

lemma window_counts [simp]:
  "window_inv (h\<lparr>hb_convs := cs, hb_retained_frames := n, hb_retained_bytes := b\<rparr>) = window_inv h"
  by (cases h) (simp add: window_inv_def)

lemma conversation_id_nonempty: "conversation_id L g \<noteq> []"
  by (simp add: conversation_id_def)

lemma hub_inv_submit_frame:
  assumes "hub_inv h"
  shows "hub_inv (snd (submit_frame_locked L session s h))"
    and "hb_presence (snd (submit_frame_locked L session s h)) = hb_presence h"
    and "hb_inboxes (snd (submit_frame_locked L session s h)) = hb_inboxes h"
    and "fst (submit_frame_locked L session s h) = Inr f \<Longrightarrow>
      retained_in (snd (submit_frame_locked L session s h)) (fr_conversation f, fr_sequence f)
      \<and> hb_history (snd (submit_frame_locked L session s h)) \<noteq> []"
proof -
  let ?out = "snd (submit_frame_locked L session s h)" and ?d = "sb_draft s"
  have "hub_inv ?out \<and> hb_presence ?out = hb_presence h \<and> hb_inboxes ?out = hb_inboxes h
    \<and> (\<forall>f. fst (submit_frame_locked L session s h) = Inr f \<longrightarrow>
        retained_in ?out (fr_conversation f, fr_sequence f) \<and> hb_history ?out \<noteq> [])"
  proof (cases rule: submit_frame_cases [of L session s h])
    case (refused e)
    with assms show ?thesis by simp
  next
    case (published current f digest)
    let ?i = "dr_conversation ?d"
    define c where "c = (case current of Some c \<Rightarrow> c | None \<Rightarrow> opened ?d)"
    define h1 where "h1 = (case current of Some c \<Rightarrow> h | None \<Rightarrow> install_conversation ?d (opened ?d) h)"
    note built = published(6) [folded c_def] and result = published(7) [folded c_def h1_def]
    have fi: "fr_conversation f = ?i" and pay: "fr_payload f = dr_payload ?d"
      and seq: "fr_sequence f = cv_next c"
      using built_frame(1-3) [OF built] by (simp_all add: actor_body_def)
    have core: "frames_inv h" "held_by {} h"
      using hub_invD(1) [OF assms] by (simp_all add: hub_core_iff)
    have step1: "frames_inv h1 \<and> map_of (hb_convs h1) ?i = Some c
      \<and> hb_presence h1 = hb_presence h \<and> hb_participants h1 = hb_participants h
      \<and> hb_inboxes h1 = hb_inboxes h \<and> hb_pending h1 = hb_pending h
      \<and> hb_retained_frames h1 = hb_retained_frames h \<and> hb_retained_bytes h1 = hb_retained_bytes h
      \<and> fst ` set (hb_convs h1) = insert ?i (fst ` set (hb_convs h))"
    proof (cases current)
      case None
      note new = validate_draft_new [OF published(4) [unfolded None]]
      have "map_of (hb_about h) (dr_scope ?d) = None"
        using about_of_none hub_invD(5) [OF assms] new(2) by blast
      moreover have "dr_scope ?d \<noteq> []" "?i \<noteq> []"
        using validate_draft_any(1,2) [OF published(4)] conversation_id_nonempty
        by (simp_all add: valid_scope_def)
      ultimately have "frames_inv (install_conversation ?d (opened ?d) h)"
        unfolding install_conversation_def opened_def
        by (intro frames_inv_note frames_inv_install core(1) new(1))
      then show ?thesis
        by (simp add: c_def h1_def None install_conversation_def keys_put map_of_put)
    next
      case (Some c')
      note known = validate_draft_known [OF published(4) [unfolded Some]]
      then have "?i \<in> fst ` set (hb_convs h)"
        using in_keys_iff [of ?i "hb_convs h"] by simp
      then show ?thesis
        using known(1) core(1) by (simp add: c_def h1_def Some insert_absorb)
    qed
    let ?g = "commit_signed_frame c f digest h1"
    have fits: "can_publish h1 (length (fr_payload f)) = None"
      using published(3) step1 pay by (simp add: can_publish_def split: if_splits)
    have conv: "map_of (hb_convs h1) (fr_conversation f) = Some c"
      using step1 by (simp add: fi)
    have fg: "frames_inv ?g"
      unfolding commit_signed_frame_def using step1 conv fits
      by (intro frames_inv_note frames_inv_extend) simp_all
    have keys: "fst ` set (hb_convs ?g) = insert ?i (fst ` set (hb_convs h))"
      and at: "map_of (hb_convs ?g) ?i = Some (extend_conversation c f digest)"
      and same: "hb_presence ?g = hb_presence h" "hb_participants ?g = hb_participants h"
        "hb_inboxes ?g = hb_inboxes h" "hb_pending ?g = hb_pending h"
      using step1 by (simp_all add: commit_signed_frame_def keys_put map_of_put fi)
    have here: "session \<in> fst ` set (hb_presence h)"
      using published(1) in_keys_iff [of session "hb_presence h"]
      by (auto simp: session_holds_key_def split: option.splits)
    have "held_by {} (add_participant ?i session ?g)"
    proof (rule held_by_add_participant)
      show "insert ?i (fst ` set (hb_participants ?g)) = fst ` set (hb_convs ?g)"
        using core(2) by (simp add: keys same held_by_def)
      show "ms \<noteq> [] \<and> set ms \<subseteq> fst ` set (hb_presence ?g)"
        if "map_of (hb_participants ?g) j = Some ms" for j ms
        using held_byD [OF core(2)] that same by simp
    qed (use core fg here same in \<open>simp_all add: held_by_def frames_inv_def\<close>)
    then have "hub_core {} (add_participant ?i session ?g)"
      using fg by (simp add: hub_core_iff)
    moreover have "session_quota (add_participant ?i session ?g)"
      using hub_invD(2) [OF assms] same by (simp add: session_quota_def)
    moreover have "cv_next c = length (cv_frames c)"
      using step1 unfolding frames_inv_def frame_quota_def by blast
    then have "retained_in ?g (?i, fr_sequence f)"
      using at seq by (simp add: retained_in_def extend_conversation_def)
    moreover have "hb_history ?g \<noteq> []"
      unfolding commit_signed_frame_def
      by (rule note_change_nonempty) (use step1 in \<open>simp add: frames_inv_def\<close>)
    ultimately show ?thesis
      unfolding result using same fi by (simp add: hub_inv_def retained_in_def)
  qed
  then show "hub_inv ?out" "hb_presence ?out = hb_presence h" "hb_inboxes ?out = hb_inboxes h"
    "fst (submit_frame_locked L session s h) = Inr f \<Longrightarrow>
      retained_in ?out (fr_conversation f, fr_sequence f) \<and> hb_history ?out \<noteq> []"
    by blast+
qed


section \<open>Delivery and acknowledgement\<close>

lemma fold_add_participants:
  assumes "hub_inv h" and "i \<in> fst ` set (hb_convs h)" and "set ss \<subseteq> fst ` set (hb_presence h)"
  shows "hub_inv (fold (add_participant i) ss h)
    \<and> hb_presence (fold (add_participant i) ss h) = hb_presence h
    \<and> hb_convs (fold (add_participant i) ss h) = hb_convs h
    \<and> hb_inboxes (fold (add_participant i) ss h) = hb_inboxes h"
  using assms
proof (induction ss arbitrary: h)
  case (Cons s ss)
  have "hub_inv (add_participant i s h)"
    using Cons.prems hub_core_add_participant by (simp add: hub_inv_def)
  with Cons show ?case by simp
qed simp

lemma add_inbox_fields [simp]:
  "hb_presence (add_inbox r s h) = hb_presence h"
  "hb_convs (add_inbox r s h) = hb_convs h"
  "hb_pending (add_inbox r s h) = hb_pending h"
  "retained_in (add_inbox r s h) q = retained_in h q"
  unfolding add_inbox_def Let_def retained_in_def by simp_all

lemma add_inbox_other:
  "t \<noteq> s \<Longrightarrow> map_of (hb_inboxes (add_inbox r s h)) t = map_of (hb_inboxes h) t"
  unfolding add_inbox_def Let_def by (simp add: map_of_put)

lemma hub_inv_add_inbox:
  assumes "hub_inv h" and "s \<in> fst ` set (hb_presence h)" and "retained_in h r"
    and "\<And>refs. map_of (hb_inboxes h) s = Some refs \<Longrightarrow> length refs < max_pending_inbox_frames"
  shows "hub_inv (add_inbox r s h)"
proof -
  define refs where "refs = (case map_of (hb_inboxes h) s of None \<Rightarrow> [] | Some rs \<Rightarrow> rs)"
  have room: "length refs < max_pending_inbox_frames"
    using assms(4) by (auto simp: refs_def live_bounds split: option.splits)
  have box: "add_inbox r s h = h\<lparr>hb_inboxes := put s (if r \<in> set refs then refs else refs @ [r]) (hb_inboxes h)\<rparr>"
    unfolding add_inbox_def refs_def Let_def by (rule refl)
  have ok: "inboxes_ok h"
    using assms(1) by (rule hub_invD)
  have old: "distinct refs \<and> (\<forall>q \<in> set refs. retained_in h q)"
    using ok by (auto simp: refs_def inboxes_ok_def split: option.splits)
  have "inboxes_ok (add_inbox r s h)"
    unfolding inboxes_ok_def
  proof (intro conjI allI impI)
    show "distinct (map fst (hb_inboxes (add_inbox r s h)))"
      using ok by (simp add: inboxes_ok_def box distinct_put)
    fix t qs assume t: "map_of (hb_inboxes (add_inbox r s h)) t = Some qs"
    have "t \<in> fst ` set (hb_presence h) \<and> distinct qs \<and> length qs \<le> max_pending_inbox_frames
        \<and> (\<forall>q \<in> set qs. retained_in h q)"
    proof (cases "t = s")
      case True
      with t have "qs = (if r \<in> set refs then refs else refs @ [r])"
        by (simp add: box map_of_put)
      with True assms(2,3) room old show ?thesis by auto
    next
      case False
      with t have "map_of (hb_inboxes h) t = Some qs"
        by (simp add: add_inbox_other)
      with ok show ?thesis by (simp add: inboxes_ok_def)
    qed
    then show "t \<in> fst ` set (hb_presence (add_inbox r s h))" "distinct qs"
      "length qs \<le> max_pending_inbox_frames" "\<forall>q \<in> set qs. retained_in (add_inbox r s h) q"
      by simp_all
  qed
  then show ?thesis
    using assms(1) by (simp add: hub_inv_def hub_core_def box session_quota_def)
qed

lemma fold_add_inbox:
  assumes "hub_inv h" and "set ss \<subseteq> fst ` set (hb_presence h)" and "distinct ss" and "retained_in h r"
    and "\<And>s refs. s \<in> set ss \<Longrightarrow> map_of (hb_inboxes h) s = Some refs \<Longrightarrow>
      length refs < max_pending_inbox_frames"
  shows "hub_inv (fold (add_inbox r) ss h)"
  using assms
proof (induction ss arbitrary: h)
  case (Cons s ss)
  have "hub_inv (add_inbox r s h)"
    using Cons.prems by (intro hub_inv_add_inbox) auto
  moreover have "length refs < max_pending_inbox_frames"
    if "t \<in> set ss" and "map_of (hb_inboxes (add_inbox r s h)) t = Some refs" for t refs
  proof -
    have "t \<noteq> s"
      using that(1) Cons.prems(3) by auto
    then show ?thesis
      using that Cons.prems(5) [of t refs] add_inbox_other [of t s r h] by simp
  qed
  ultimately show ?case
    using Cons.IH [of "add_inbox r s h"] Cons.prems by simp
qed simp

lemma addressed_present:
  assumes "env_ok env" and "hub_inv h"
  shows "set (addressed env h s rs) \<subseteq> fst ` set (hb_presence h)" "distinct (addressed env h s rs)"
proof -
  have "distinct (map fst (hb_presence h))"
    using hub_invD(4) [OF assms(2)] by (simp add: held_by_def)
  from env_okD [OF assms(1) this]
  show "set (addressed env h s rs) \<subseteq> fst ` set (hb_presence h)" "distinct (addressed env h s rs)"
    by (auto simp: addressed_def)
qed

lemma can_enqueueD:
  "can_enqueue h ss = None \<Longrightarrow> s \<in> set ss \<Longrightarrow> map_of (hb_inboxes h) s = Some refs \<Longrightarrow>
   length refs < max_pending_inbox_frames"
  by (force simp: can_enqueue_def list_ex_iff split: if_splits)

lemma hub_inv_deliver:
  assumes "hub_inv h" and "retained_in h (fr_conversation f, fr_sequence f)" and "hb_history h \<noteq> []"
    and "set members \<subseteq> fst ` set (hb_presence h)" and "set receivers \<subseteq> set members"
    and "distinct receivers" and "can_enqueue h receivers = None"
  shows "hub_inv (deliver L f m members receivers h)"
proof -
  let ?i = "fr_conversation f"
  let ?marked = "h\<lparr>hb_history := butlast (hb_history h) @ [(last (hb_history h))
      \<lparr>ch_frame := Some (inbox_frame_of L f m ?i (fr_sequence f))\<rparr>]\<rparr>"
  have "window_inv ?marked"
    using hub_invD(3) [OF assms(1)] assms(3) by (rule window_remark) simp
  then have marked: "hub_inv ?marked"
    using assms(1) by (simp add: hub_inv_def hub_core_def)
  have conv: "?i \<in> fst ` set (hb_convs ?marked)"
    using assms(2) in_keys_iff [of ?i "hb_convs h"] by (auto simp: retained_in_def)
  let ?joined = "fold (add_participant ?i) members ?marked"
  have joined: "hub_inv ?joined" "hb_presence ?joined = hb_presence h"
    "hb_convs ?joined = hb_convs h" "hb_inboxes ?joined = hb_inboxes h"
    using fold_add_participants [OF marked conv] assms(4) by simp_all
  have "hub_inv (fold (add_inbox (?i, fr_sequence f)) receivers ?joined)"
  proof (rule fold_add_inbox [OF joined(1)])
    show "set receivers \<subseteq> fst ` set (hb_presence ?joined)"
      using assms(4,5) joined(2) by auto
    show "retained_in ?joined (?i, fr_sequence f)"
      using assms(2) joined(3) by (simp add: retained_in_def)
    show "length refs < max_pending_inbox_frames"
      if "s \<in> set receivers" and "map_of (hb_inboxes ?joined) s = Some refs" for s refs
      using can_enqueueD [OF assms(7) that(1)] that(2) joined(4) by simp
  qed (rule assms(6))
  then show ?thesis
    by (simp add: deliver_def Let_def)
qed


text \<open>A message is refused before or by the publication of its frame, or published and delivered.\<close>

lemma submit_message_cases:
  obtains (refused) e where "submit_message_for_session L env session s h = (Inl e, expire env h)"
    | (unpublished) e where
        "submit_frame_locked L session s (expire env h) = (Inl e, expire env h)"
        "submit_message_for_session L env session s h = (Inl e, expire env h)"
    | (delivered) f m g members receivers where
        "session_holds_key L (expire env h) session (sb_actor_key s)"
        "check_message L (expire env h) s = Inr m"
        "members = addressed env (expire env h) session (ms_recipients m)"
        "receivers = filter (\<lambda>t. pe_inbox (entry_of (expire env h) t)) members"
        "can_enqueue (expire env h) receivers = None"
        "submit_frame_locked L session s (expire env h) = (Inr f, g)"
        "submit_message_for_session L env session s h = (Inr f, deliver L f m members receivers g)"
proof (cases "session_holds_key L (expire env h) session (sb_actor_key s)")
  case False
  then show ?thesis
    by (intro refused) (simp add: submit_message_for_session_def Let_def)
next
  case holds: True
  show ?thesis
  proof (cases "check_message L (expire env h) s")
    case (Inl e)
    with holds show ?thesis
      by (intro refused) (simp add: submit_message_for_session_def Let_def)
  next
    case m: (Inr m)
    let ?members = "addressed env (expire env h) session (ms_recipients m)"
    let ?receivers = "filter (\<lambda>t. pe_inbox (entry_of (expire env h) t)) ?members"
    show ?thesis
    proof (cases "can_enqueue (expire env h) ?receivers")
      case (Some e)
      with holds m show ?thesis
        by (intro refused) (simp add: submit_message_for_session_def Let_def)
    next
      case room: None
      show ?thesis
      proof (cases rule: submit_frame_cases [of L session s "expire env h"])
        case (refused e)
        with holds m room show ?thesis
          by (intro unpublished) (simp_all add: submit_message_for_session_def Let_def)
      next
        case (published current f digest)
        with holds m room show ?thesis
          by (intro delivered [OF _ _ refl refl]) (simp_all add: submit_message_for_session_def Let_def)
      qed
    qed
  qed
qed

lemma hub_inv_submit_message:
  assumes "env_ok env" and "hub_inv h"
  shows "hub_inv (snd (submit_message_for_session L env session s h))"
proof -
  let ?h = "expire env h"
  have inv: "hub_inv ?h"
    using assms by (rule hub_inv_expire)
  note out = hub_inv_submit_frame [OF inv, of L session s]
  have sent: "hub_inv (deliver L f m (addressed env ?h session rs)
      (filter (\<lambda>t. pe_inbox (entry_of ?h t)) (addressed env ?h session rs))
      (snd (submit_frame_locked L session s ?h)))"
    if "fst (submit_frame_locked L session s ?h) = Inr f"
      and "can_enqueue ?h (filter (\<lambda>t. pe_inbox (entry_of ?h t)) (addressed env ?h session rs)) = None"
    for f m rs
  proof (rule hub_inv_deliver [OF out(1)])
    show "can_enqueue (snd (submit_frame_locked L session s ?h))
        (filter (\<lambda>t. pe_inbox (entry_of ?h t)) (addressed env ?h session rs)) = None"
      using that(2) by (simp add: can_enqueue_def out(3))
  qed (use out(2) out(4) [OF that(1)] addressed_present [OF assms(1) inv] in auto)
  show ?thesis
  proof (cases "submit_frame_locked L session s ?h")
    case (Pair r g)
    with inv out(1) sent show ?thesis
      by (cases r) (simp_all add: submit_message_for_session_def Let_def split: sum.split option.split)
  qed
qed

lemma hub_inv_acknowledge:
  assumes "env_ok env" and "hub_inv h"
  shows "hub_inv (snd (acknowledge env session handles h))"
proof -
  let ?h = "expire env h"
  have inv: "hub_inv ?h"
    using assms by (rule hub_inv_expire)
  have "hub_inv (?h\<lparr>hb_inboxes := put session (filter P refs) (hb_inboxes ?h)\<rparr>)"
    if refs: "map_of (hb_inboxes ?h) session = Some refs" for P refs
  proof -
    have ok: "inboxes_ok ?h"
      using inv by (rule hub_invD)
    then have "length (filter P refs) \<le> max_pending_inbox_frames"
      using refs length_filter_le [of P refs] unfolding inboxes_ok_def by (meson le_trans)
    then have "inboxes_ok (?h\<lparr>hb_inboxes := put session (filter P refs) (hb_inboxes ?h)\<rparr>)"
      using ok refs by (simp add: inboxes_ok_def distinct_put map_of_put retained_in_def)
    then show ?thesis
      using inv by (simp add: hub_inv_def hub_core_def session_quota_def)
  qed
  with inv show ?thesis
    by (simp add: acknowledge_def Let_def split: option.split)
qed

section \<open>Every reachable hub\<close>

text \<open>An input is what the environment provides and the operation asked for.\<close>

definition hub_fits :: "live_env \<times> hub_op \<Rightarrow> bool" where
  "hub_fits x \<longleftrightarrow> env_ok (fst x)"

lemma hub_inv_after:
  assumes "env_ok env" and "hub_inv h"
  shows "hub_inv (hub_after L env op h)"
  using assms
  by (cases op)
    (simp_all add: hub_inv_open_trusted hub_inv_prepare_session hub_inv_open_session
      hub_inv_announce_identity hub_inv_renew hub_inv_revoke hub_inv_depart hub_inv_enable_inbox
      prepare_frame_for_session_def hub_inv_expire submit_frame_for_session_def
      prepare_message_for_session_def Let_def hub_inv_submit_frame(1) hub_inv_submit_message
      hub_inv_acknowledge)

interpretation hub_machine: total_machine "hub_step L" hub_inv hub_fits for L
  by unfold_locales (auto simp: hub_step_def hub_fits_def hub_inv_after)

end
