(* ===== verification/LiveRelation.thy ===== *)
theory LiveRelation
  imports LiveSafe
begin

text \<open>
  Relations between a hub before and after an operation. Whatever relation the primitive writes keep,
  every operation on sessions keeps: the locale carries it through departure, expiry, publication
  and opening once, and the relations of interest interpret it.
\<close>

locale hub_relation =
  fixes R :: "hub \<Rightarrow> hub \<Rightarrow> bool"
  assumes refl: "R h h"
    and trans: "R h g \<Longrightarrow> R g k \<Longrightarrow> R h k"
    and presence: "R h (h\<lparr>hb_presence := es\<rparr>)"
    and participants: "R h (h\<lparr>hb_participants := ps\<rparr>)"
    and inboxes: "R h (h\<lparr>hb_inboxes := bs\<rparr>)"
    and pending: "R h (h\<lparr>hb_pending := filter P (hb_pending h)\<rparr>)"
    and noted: "R h (note_change kind i v h)"
    and remark: "R h (h\<lparr>hb_history := butlast (hb_history h) @ [c]\<rparr>)"
    and drop: "R h (h\<lparr>hb_retained_frames := n, hb_retained_bytes := b, hb_convs := del i (hb_convs h),
      hb_participants := ps, hb_inboxes := bs, hb_about := ws\<rparr>)"
begin

lemma fold_keeps:
  assumes "\<And>x h. R h (f x h)"
  shows "R h (fold f xs h)"
proof (induction xs arbitrary: h)
  case (Cons x xs)
  show ?case
    using trans [OF assms [of h x] Cons.IH [of "f x h"]] by simp
qed (simp add: refl)

lemma forget: "R h (forget_conversation i h)"
  by (auto simp: forget_conversation_def refl intro: trans [OF drop noted] split: option.split)

lemma leave: "R h (leave_conversation s i h)"
  by (auto simp: leave_conversation_def Let_def refl participants
      intro: trans [OF participants forget] split: option.split)

lemma removed: "R h (remove_participant env s h)"
  unfolding remove_participant_def by (rule fold_keeps) (rule leave)

lemma boxless: "R h (delete_inbox s h)"
  unfolding delete_inbox_def by (rule inboxes)

lemma ended: "R h (end_session env k s e h)"
  unfolding end_session_def
  by (rule trans [OF trans [OF trans [OF presence boxless] noted] removed])

lemma forgotten: "R h (forget_all_if_empty env h)"
  by (simp add: forget_all_if_empty_def refl fold_keeps forget)

lemma expired_one: "R h (expire_session env s h)"
  by (simp add: expire_session_def refl ended split: option.split)

lemma expired: "R h (expire env h)"
  unfolding expire_def Let_def
  by (rule trans [OF pending trans [OF fold_keeps forgotten]]) (rule expired_one)

lemma after_expired: "R (expire env h) g \<Longrightarrow> R h g"
  by (rule trans [OF expired])

lemma appended: "append_change k i v h = (c, g) \<Longrightarrow> R h g"
  using noted [of h k i v] by (simp add: note_change_def)

lemma presented: "R h (snd (publish_presence env s ex held entry h))"
proof -
  let ?h1 = "h\<lparr>hb_presence := put s entry (hb_presence h)\<rparr>"
  let ?k = "if ex \<and> pe_value held = pe_value entry \<and> pe_actor held = pe_actor entry
      \<and> pe_fingerprint held = pe_fingerprint entry then ActivityChange else PresenceChange"
  obtain c g where app: "append_change ?k (pe_handle entry) (pe_value entry) ?h1 = (c, g)"
    by (rule prod.exhaust)
  have "R h g"
    by (rule trans [OF presence appended [OF app]])
  then have "R h (g\<lparr>hb_history := butlast (hb_history g) @ [c']\<rparr>)" for c'
    by (rule trans [OF _ remark])
  then show ?thesis
    unfolding publish_presence_def Let_def app by (simp add: presence)
qed

lemma announced: "R h (snd (announce_for env s actor fingerprint v ttl update h))"
proof (cases rule: announce_for_cases [of env s actor fingerprint v ttl update h])
  case (refused e)
  then show ?thesis by (auto simp: refl boxless split: if_splits)
next
  case (published t activity changed)
  let ?h1 = "if map_of (hb_presence h) s \<noteq> None then h else delete_inbox s h"
  have "R h ?h1"
    by (simp add: refl boxless)
  then show ?thesis
    unfolding published(3) snd_apfst by (rule trans) (rule presented)
qed

lemma opened_identity:
  "R h (snd (open_session_identity_locked env actor fingerprint v ttl update h))"
proof (cases "fresh_credential h (le_credentials env)")
  case (Inr c)
  have "R h g" if "announce_for env c actor fingerprint v ttl update h = (r, g)" for r g
    using announced [of h env c actor fingerprint v ttl update] that by simp
  with Inr show ?thesis
    by (simp add: open_session_identity_locked_def split: prod.split sum.split)
qed (simp add: open_session_identity_locked_def refl)

lemma opened_prepared: "R h (snd (open_session L env c signature h))"
proof -
  have used: "R h (expire env h\<lparr>hb_pending := del k (hb_pending (expire env h))\<rparr>)" for k
    by (rule after_expired [where env = env]) (simp add: del_def pending)
  note opened = trans [OF used opened_identity]
  show ?thesis
    by (simp add: open_session_def Let_def expired used opened split: sum.split option.split)
qed

lemma delivered: "R h (deliver L f m members receivers h)"
proof -
  have member: "R g (add_participant i s g)" for g i s
    unfolding add_participant_def Let_def by (rule participants)
  have box: "R g (add_inbox r s g)" for g r s
    unfolding add_inbox_def Let_def by (rule inboxes)
  show ?thesis
    unfolding deliver_def Let_def
    by (rule trans [OF remark trans [OF fold_keeps fold_keeps]]) (rule member box)+
qed

text \<open>Every operation but the preparation of a session and the two that submit a frame.\<close>

lemma operation:
  assumes "\<And>a b c d e. op \<noteq> Prepare a b c d e" and "\<And>s x. op \<noteq> SubmitFrame s x"
    and "\<And>s x. op \<noteq> SubmitMessage s x"
  shows "R h (hub_after L env op h)"
proof -
  note opened = after_expired [where env = env, OF opened_identity]
    and renewed = after_expired [where env = env, OF announced]
    and finished = trans [OF ended forgotten]
    and written = after_expired [where env = env, OF presence] after_expired [where env = env, OF inboxes]
  note revoked = after_expired [where env = env, OF finished]
  show ?thesis
  proof (cases op)
    case (OpenTrusted actor key v ttl u)
    then show ?thesis
      by (simp add: open_trusted_session_def refl opened split: sum.split)
  next
    case (Announce s actor fingerprint v ttl u)
    then show ?thesis
      by (simp add: announce_session_identity_def Let_def refl expired renewed
          split: option.split)
  next
    case (Renew s actor key v ttl u)
    then show ?thesis
      by (simp add: renew_session_def renew_session_identity_def Let_def refl expired renewed
          split: sum.split option.split)
  next
    case (Revoke s)
    then show ?thesis
      by (simp add: revoke_session_def Let_def expired revoked
          split: option.split)
  next
    case (Depart s)
    then show ?thesis
      by (simp add: depart_def Let_def finished)
  next
    case (EnableInbox s)
    then show ?thesis
      by (simp add: enable_inbox_def Let_def expired written split: option.split)
  next
    case (Acknowledge s hs)
    then show ?thesis
      by (simp add: acknowledge_def Let_def expired written split: option.split)
  qed (use assms in \<open>simp_all add: prepare_frame_for_session_def prepare_message_for_session_def
      Let_def expired opened_prepared\<close>)
qed

text \<open>Submission, once the publication of a frame is known to keep the relation.\<close>

lemma message_submitted:
  assumes "\<And>g. R g (snd (submit_frame_locked L s x g))"
  shows "R h (snd (submit_message_for_session L env s x h))"
proof -
  have frame: "R (expire env h) g" if "submit_frame_locked L s x (expire env h) = (r, g)" for r g
    using assms [of "expire env h"] that by simp
  then have sent: "R (expire env h) (deliver L f m ms rs g)"
    if "submit_frame_locked L s x (expire env h) = (r, g)" for f m ms rs r g
    using that trans [OF _ delivered] by blast
  show ?thesis
    by (rule after_expired [where env = env])
      (simp add: submit_message_for_session_def Let_def refl frame sent
        split: sum.split option.split prod.split)
qed

end

text \<open>A relation that does not look at conversations is kept by submission as well.\<close>

locale submit_relation = hub_relation +
  assumes opened: "R h (h\<lparr>hb_convs := cs, hb_about := ws\<rparr>)"
    and extended: "R h (h\<lparr>hb_convs := cs, hb_retained_frames := n, hb_retained_bytes := b\<rparr>)"
begin

lemma submitted: "R h (snd (submit_frame_locked L session s h))"
proof (cases rule: submit_frame_cases [of L session s h])
  case (refused e)
  then show ?thesis by (simp add: refl)
next
  case (published current f digest)
  have installed: "R h (install_conversation d c h)" for d c
    unfolding install_conversation_def by (rule trans [OF opened noted])
  have first: "R h (case current of Some c \<Rightarrow> h
      | None \<Rightarrow> install_conversation (sb_draft s) (LiveFrames.opened (sb_draft s)) h)"
    by (simp add: refl installed split: option.split)
  have committed: "R g (commit_signed_frame c f d g)" for g c d
    unfolding commit_signed_frame_def by (rule trans [OF extended noted])
  have joined: "R g (add_participant i session g)" for g i
    unfolding add_participant_def Let_def by (rule participants)
  show ?thesis
    unfolding published(7) snd_conv by (rule trans [OF first trans [OF committed joined]])
qed

lemma any_operation:
  assumes "\<And>a b c d e. op \<noteq> Prepare a b c d e"
  shows "R h (hub_after L env op h)"
proof -
  consider (frame) s x where "op = SubmitFrame s x" | (message) s x where "op = SubmitMessage s x"
    | (other) "\<And>s x. op \<noteq> SubmitFrame s x" "\<And>s x. op \<noteq> SubmitMessage s x"
    by blast
  then show ?thesis
  proof cases
    case frame
    then show ?thesis
      using after_expired [where env = env, OF submitted] by (simp add: submit_frame_for_session_def)
  next
    case message
    then show ?thesis
      using message_submitted [OF submitted] by simp
  next
    case other
    with assms show ?thesis by (rule operation)
  qed
qed

end

section \<open>Conversations only disappear\<close>

definition fewer_convs :: "hub \<Rightarrow> hub \<Rightarrow> bool" where
  "fewer_convs h g \<longleftrightarrow>
     hb_generation g = hb_generation h \<and> hb_public_key g = hb_public_key h
     \<and> hb_private_key g = hb_private_key h
     \<and> (\<forall>i c. map_of (hb_convs g) i = Some c \<longrightarrow> map_of (hb_convs h) i = Some c)"

interpretation fewer: hub_relation fewer_convs
  by unfold_locales (simp_all add: fewer_convs_def map_of_del)

lemma fewer_prepared: "fewer_convs h (snd (prepare_session L env actor key v ttl update h))"
proof -
  have "fewer_convs (expire env h) (expire env h\<lparr>hb_pending := qs\<rparr>)" for qs
    by (simp add: fewer_convs_def)
  note added = fewer.after_expired [where env = env, OF this]
  show ?thesis
    by (simp add: prepare_session_def Let_def fewer.refl fewer.expired
        added split: sum.split prod.split)
qed

section \<open>Challenges only disappear\<close>

definition fewer_pending :: "hub \<Rightarrow> hub \<Rightarrow> bool" where
  "fewer_pending h g \<longleftrightarrow> fst ` set (hb_pending g) \<subseteq> fst ` set (hb_pending h)"

interpretation fewer_challenges: submit_relation fewer_pending
  by unfold_locales (auto simp: fewer_pending_def)

section \<open>Cursors only grow\<close>

definition later_cursor :: "hub \<Rightarrow> hub \<Rightarrow> bool" where
  "later_cursor h g \<longleftrightarrow>
     hb_generation g = hb_generation h \<and> hb_history_cap g = hb_history_cap h
     \<and> hb_position h \<le> hb_position g"

interpretation later_cursors: submit_relation later_cursor
  by unfold_locales (auto simp: later_cursor_def)


lemma later_prepared: "later_cursor h (snd (prepare_session L env actor key v ttl update h))"
proof -
  have "later_cursor (expire env h) (expire env h\<lparr>hb_pending := qs\<rparr>)" for qs
    by (simp add: later_cursor_def)
  note added = later_cursors.after_expired [where env = env, OF this]
  show ?thesis
    by (simp add: prepare_session_def Let_def later_cursors.refl later_cursors.expired added
        split: sum.split prod.split)
qed

lemma later_after: "later_cursor h (hub_after L env op h)"
proof (cases "\<exists>a b c d e. op = Prepare a b c d e")
  case True
  then show ?thesis
    using later_prepared by auto
next
  case False
  then show ?thesis
    by (intro later_cursors.any_operation) blast
qed

interpretation cursor_machine: preorder_machine "hub_step L" "\<lambda>_. True" later_cursor for L
  by unfold_locales (auto simp: hub_step_def later_after later_cursors.refl
      intro: later_cursors.trans split: prod.splits)

end
