(* ===== verification/LiveChain.thy ===== *)
theory LiveChain
  imports LiveRelation
begin

text \<open>
  What a hub retains, a reader accepts: in every reachable state the frames of each conversation
  form a chain that the independent verification of \<open>VerifyChain\<close> passes, under the documented
  behaviour of Ed25519 and SHA-256.
\<close>

section \<open>The chain of a conversation\<close>

text \<open>
  What is relied on outside the repository: an Ed25519 signature made with a key verifies under its
  public key, and the sizes of keys, signatures and digests.
\<close>

definition crypto_ok :: "('l) live_lib_scheme \<Rightarrow> bool" where
  "crypto_ok L \<longleftrightarrow>
     (\<forall>k m. length k = private_key_size \<longrightarrow>
        ed25519_verify L (ed25519_public L k) m (ed25519_sign L k m)
        \<and> length (ed25519_public L k) = public_key_size
        \<and> length (ed25519_sign L k m) = signature_size)
     \<and> (\<forall>m. length (sha256 L m) = sha256_size)"

text \<open>Who a hub is.\<close>

definition hub_identity :: "('l) live_lib_scheme \<Rightarrow> hub \<Rightarrow> bool" where
  "hub_identity L h \<longleftrightarrow>
     length (hb_private_key h) = private_key_size
     \<and> hb_public_key h = ed25519_public L (hb_private_key h)
     \<and> valid_prefixed_hex (hb_generation h) ''generation:'' 16"

definition chained :: "('l) live_lib_scheme \<Rightarrow> hub \<Rightarrow> string \<Rightarrow> conversation \<Rightarrow> bool" where
  "chained L h i c \<longleftrightarrow>
     (\<forall>f \<in> set (cv_frames c). fr_conversation f = i \<and> fr_genesis f = cv_genesis c
        \<and> fr_generation f = hb_generation h \<and> fr_nexus_key f = hb_public_key h)
     \<and> cv_next c = length (cv_frames c)
     \<and> (if cv_frames c = [] then cv_last c = []
         else frame_hash L (last (cv_frames c)) = Inr (cv_last c))
     \<and> verify_chain L (cv_frames c) (hb_public_key h) = None"

definition chain_inv :: "('l) live_lib_scheme \<Rightarrow> hub \<Rightarrow> bool" where
  "chain_inv L h \<longleftrightarrow>
     hub_identity L h \<and> (\<forall>i c. map_of (hb_convs h) i = Some c \<longrightarrow> chained L h i c)"

lemma chain_inv_fewer:
  assumes "chain_inv L h" and "fewer_convs h g"
  shows "chain_inv L g"
proof -
  have "chained L g = chained L h"
    using assms(2) by (simp add: fewer_convs_def chained_def fun_eq_iff)
  moreover have "hub_identity L g = hub_identity L h"
    using assms(2) by (simp add: fewer_convs_def hub_identity_def)
  ultimately show ?thesis
    using assms unfolding chain_inv_def fewer_convs_def by metis
qed

lemma verify_chain_from_append:
  assumes "verify_chain_from L first t n p fs = None"
    and "fr_sequence f = n + length fs"
    and "fr_previous f = q" and "(if fs = [] then q = p else frame_hash L (last fs) = Inr q)"
    and "n + length fs > 0 \<Longrightarrow> fr_generation f = fr_generation first
      \<and> fr_conversation f = fr_conversation first \<and> fr_genesis f = fr_genesis first
      \<and> fr_nexus_key f = fr_nexus_key first"
    and "verify_frame L f t = None" and "frame_hash L f = Inr d"
  shows "verify_chain_from L first t n p (fs @ [f]) = None"
  using assms
proof (induction fs arbitrary: n p)
  case Nil
  then show ?case by (cases "n = 0") auto
next
  case (Cons g fs)
  have g: "fr_sequence g = n" "fr_previous g = p" "verify_frame L g t = None"
    "\<not> (n > 0 \<and> (fr_generation g \<noteq> fr_generation first \<or> fr_conversation g \<noteq> fr_conversation first
       \<or> fr_genesis g \<noteq> fr_genesis first \<or> fr_nexus_key g \<noteq> fr_nexus_key first))"
    using Cons.prems(1) by (auto split: if_splits option.splits)
  obtain e where e: "frame_hash L g = Inr e" "verify_chain_from L first t (n + 1) e fs = None"
    using Cons.prems(1) g by (auto split: if_splits option.splits sum.splits)
  have "verify_chain_from L first t (n + 1) e (fs @ [f]) = None"
    by (rule Cons.IH [OF e(2)]) (use Cons.prems e in auto)
  with g e show ?case by auto
qed


section \<open>A published frame\<close>

lemma validate_draft_genesis:
  assumes "validate_draft L h d = Inr current"
  obtains g where "decode_conversation_genesis L (dr_genesis d) = Inr g" "cg_version g = 1"
    "cg_generation g = hb_generation h" "cg_scope g = dr_scope d" "length (cg_nonce g) = 32"
    "cg_nexus_key g = hb_public_key h"
  using assms by (auto simp: validate_draft_def Let_def split: if_splits sum.splits)

lemma decode_genesis_size:
  assumes "decode_conversation_genesis L raw = Inr g"
  shows "raw \<noteq> []" "length raw \<le> max_conversation_genesis_bytes"
  using assms by (auto simp: decode_conversation_genesis_def split: if_splits)

lemma valid_prefixed_hex_encode:
  "length b = n \<Longrightarrow> valid_prefixed_hex (p @ hex_encode b) p n"
  by (simp add: valid_prefixed_hex_def)

lemma conversation_id_valid:
  assumes "crypto_ok L"
  shows "valid_prefixed_hex (conversation_id L g) ''eph:sha256:'' sha256_size"
  unfolding conversation_id_def
  by (rule valid_prefixed_hex_encode) (use assms in \<open>simp add: crypto_ok_def\<close>)

lemma holds_key_size: "session_holds_key L h s key \<Longrightarrow> length key = public_key_size"
  by (auto simp: session_holds_key_def checked_fingerprint_def split: option.splits if_splits)

lemma can_publish_size: "can_publish h n = None \<Longrightarrow> n \<le> max_frame_payload_bytes"
  by (simp add: can_publish_def split: if_splits)

lemma frame_digest_size: "crypto_ok L \<Longrightarrow> frame_hash L f = Inr d \<Longrightarrow> length d = sha256_size"
  by (auto simp: frame_hash_def crypto_ok_def split: option.splits)

text \<open>The conversation a draft extends, and what is known of it.\<close>

definition extends_chain :: "('l) live_lib_scheme \<Rightarrow> hub \<Rightarrow> draft \<Rightarrow> conversation \<Rightarrow> bool" where
  "extends_chain L h d c \<longleftrightarrow>
     chained L h (dr_conversation d) c \<and> cv_genesis c = dr_genesis d
     \<and> (\<exists>current. validate_draft L h d = Inr current)"

lemma published_frame_verifies:
  assumes "crypto_ok L" "hub_identity L h" "extends_chain L h d c"
    and "session_holds_key L h s key" "length signature = signature_size"
    and "can_publish h (length (dr_payload d)) = None"
    and body: "body = actor_body (dr_generation d) (dr_conversation d) (dr_sequence d) (dr_previous d)
        (dr_payload d)"
    and "verify_bytes L actor_frame_domain key (cbor_actor_body L body) signature"
    and built: "build_signed_frame L h c body key signature = Inr (f, digest)"
  shows "verify_frame L f (hb_public_key h) = None"
proof -
  note fields = built_frame [OF built]
  obtain current where valid: "validate_draft L h d = Inr current"
    using assms(3) by (auto simp: extends_chain_def)
  obtain g where g: "decode_conversation_genesis L (dr_genesis d) = Inr g" "cg_version g = 1"
    "cg_generation g = hb_generation h" "cg_scope g = dr_scope d" "length (cg_nonce g) = 32"
    "cg_nexus_key g = hb_public_key h"
    by (rule validate_draft_genesis [OF valid])
  note any = validate_draft_any [OF valid]
  have c: "cv_genesis c = dr_genesis d" "chained L h (dr_conversation d) c"
    using assms(3) by (simp_all add: extends_chain_def)
  have keys: "hb_public_key h = ed25519_public L (hb_private_key h)"
    "length (hb_public_key h) = public_key_size"
    using assms(1,2) by (simp_all add: hub_identity_def crypto_ok_def)
  have body_f: "actor_body (fr_generation f) (fr_conversation f) (fr_sequence f) (fr_previous f)
      (fr_payload f) = body"
    using fields any(3) by (simp add: body actor_body_def)
  obtain b where b: "cbor_nexus_body L \<lparr>nb_actor_body = body, nb_actor_key = key,
      nb_actor_signature = signature\<rparr> = Some b"
    "fr_nexus_signature f = ed25519_sign L (hb_private_key h) (nexus_frame_domain @ b)"
    using fields(15) by (auto simp: sign_issuer_bytes_def split: option.splits)
  have signed: "length (fr_nexus_signature f) = signature_size"
    "ed25519_verify L (hb_public_key h) (nexus_frame_domain @ b) (fr_nexus_signature f)"
    using assms(1,2) b(2) by (simp_all add: crypto_ok_def hub_identity_def)
  have previous: "(fr_sequence f = 0 \<and> fr_previous f = [])
      \<or> (fr_sequence f > 0 \<and> length (fr_previous f) = sha256_size)"
    using c(2) frame_digest_size [OF assms(1)] by (auto simp: fields(3,4) chained_def split: if_splits)
  have shape: "fr_version f = 0" "valid_prefixed_hex (fr_generation f) ''generation:'' 16"
    "valid_prefixed_hex (fr_conversation f) ''eph:sha256:'' sha256_size"
    "length (fr_payload f) \<le> max_frame_payload_bytes" "fr_genesis f \<noteq> []"
    "length (fr_genesis f) \<le> max_conversation_genesis_bytes"
    "length (fr_actor_key f) = public_key_size" "length (fr_actor_signature f) = signature_size"
    "length (fr_nexus_key f) = public_key_size" "fr_nexus_key f = hb_public_key h"
    "fr_conversation f = conversation_id L (fr_genesis f)"
    using fields assms(2,5) any(2) conversation_id_valid [OF assms(1), of "dr_genesis d"]
      can_publish_size [OF assms(6)] decode_genesis_size [OF g(1)] holds_key_size [OF assms(4)] keys(2) c(1)
    by (simp_all add: body actor_body_def hub_identity_def)
  have genesis: "decode_conversation_genesis L (fr_genesis f) = Inr g"
    using g(1) c(1) fields(8) by simp
  show ?thesis
    unfolding verify_frame_def Let_def body_f genesis
    using shape previous signed keys(2) g assms(8) b(1) any(1) fields(6,7,12)
    by (auto simp: verify_bytes_def)
qed


lemma chained_extend:
  assumes "crypto_ok L" "hub_identity L h" "chained L h i c" "verify_frame L f (hb_public_key h) = None"
    and "fr_conversation f = i" "fr_genesis f = cv_genesis c" "fr_generation f = hb_generation h"
    and "fr_nexus_key f = hb_public_key h" "fr_sequence f = cv_next c" "fr_previous f = cv_last c"
    and "frame_hash L f = Inr digest"
  shows "chained L h i (extend_conversation c f digest)"
proof -
  let ?fs = "cv_frames c"
  have c: "\<forall>f \<in> set ?fs. fr_conversation f = i \<and> fr_genesis f = cv_genesis c
        \<and> fr_generation f = hb_generation h \<and> fr_nexus_key f = hb_public_key h"
    "cv_next c = length ?fs" "?fs = [] \<Longrightarrow> cv_last c = []"
    "?fs \<noteq> [] \<Longrightarrow> frame_hash L (last ?fs) = Inr (cv_last c)"
    "verify_chain L ?fs (hb_public_key h) = None"
    using assms(3) by (auto simp: chained_def split: if_splits)
  have "verify_chain_from L (hd (?fs @ [f])) (hb_public_key h) 0 [] (?fs @ [f]) = None"
  proof (rule verify_chain_from_append [of _ _ _ _ _ _ _ "cv_last c" digest])
    show "verify_chain_from L (hd (?fs @ [f])) (hb_public_key h) 0 [] ?fs = None"
      using c(5) by (cases ?fs) (auto simp: verify_chain_def)
    show "fr_generation f = fr_generation (hd (?fs @ [f]))
      \<and> fr_conversation f = fr_conversation (hd (?fs @ [f]))
      \<and> fr_genesis f = fr_genesis (hd (?fs @ [f])) \<and> fr_nexus_key f = fr_nexus_key (hd (?fs @ [f]))"
      if "0 + length ?fs > 0"
      using that c(1) assms(5-8) by (cases ?fs) simp_all
  qed (use c assms in simp_all)
  moreover have "verify_chain L (?fs @ [f]) (hb_public_key h)
      = verify_chain_from L (hd (?fs @ [f])) (hb_public_key h) 0 [] (?fs @ [f])"
    by (cases ?fs) (simp_all only: verify_chain_def list.case append.simps list.sel)
  ultimately show ?thesis
    using c(1,2) assms(5-8,11) by (simp add: chained_def extend_conversation_def)
qed

lemma chain_inv_put:
  assumes "chain_inv L h" and "chained L h i c"
    and "hb_generation g = hb_generation h" "hb_public_key g = hb_public_key h"
    "hb_private_key g = hb_private_key h" "hb_convs g = put i c (hb_convs h)"
  shows "chain_inv L g"
proof -
  have "chained L g = chained L h"
    using assms(3,4) by (simp add: chained_def fun_eq_iff)
  moreover have "hub_identity L g = hub_identity L h"
    using assms(3-5) by (simp add: hub_identity_def)
  ultimately show ?thesis
    using assms(1,2) by (simp add: chain_inv_def assms(6) map_of_put)
qed

lemma chained_opened:
  "chained L h i (opened d)"
  by (simp add: chained_def opened_def verify_chain_def)

lemma chain_inv_submit:
  assumes "crypto_ok L" and "chain_inv L h"
  shows "chain_inv L (snd (submit_frame_locked L session s h))"
proof (cases rule: submit_frame_cases [of L session s h])
  case (refused e)
  with assms(2) show ?thesis by simp
next
  case (published current f digest)
  let ?d = "sb_draft s"
  let ?body = "actor_body (dr_generation ?d) (dr_conversation ?d) (dr_sequence ?d) (dr_previous ?d)
      (dr_payload ?d)"
  define c where "c = (case current of Some c \<Rightarrow> c | None \<Rightarrow> opened ?d)"
  define h1 where "h1 = (case current of Some c \<Rightarrow> h | None \<Rightarrow> install_conversation ?d (opened ?d) h)"
  note built = published(6) [folded c_def] and result = published(7) [folded c_def h1_def]
  have identity: "hub_identity L h"
    using assms(2) by (simp add: chain_inv_def)
  have c: "chained L h (dr_conversation ?d) c \<and> cv_genesis c = dr_genesis ?d"
  proof (cases current)
    case None
    then show ?thesis
      using chained_opened by (simp add: c_def opened_def)
  next
    case (Some c')
    note known = validate_draft_known [OF published(4) [unfolded Some]]
    then show ?thesis
      using assms(2) by (simp add: c_def Some chain_inv_def)
  qed
  have verified: "verify_frame L f (hb_public_key h) = None"
    by (rule published_frame_verifies [OF assms(1) identity _ published(1,2,3) refl published(5) built])
      (use c published(4) in \<open>simp add: extends_chain_def\<close>)
  note fields = built_frame [OF built]
  have "chained L h (dr_conversation ?d) (extend_conversation c f digest)"
    by (rule chained_extend [OF assms(1) identity _ verified])
      (use c fields in \<open>simp_all add: actor_body_def\<close>)
  moreover have "hb_convs (commit_signed_frame c f digest h1)
      = put (dr_conversation ?d) (extend_conversation c f digest) (hb_convs h)"
    using fields(1)
    by (simp add: commit_signed_frame_def h1_def install_conversation_def actor_body_def
        split: option.split)
  moreover have "hb_generation (commit_signed_frame c f digest h1) = hb_generation h"
    "hb_public_key (commit_signed_frame c f digest h1) = hb_public_key h"
    "hb_private_key (commit_signed_frame c f digest h1) = hb_private_key h"
    by (simp_all add: commit_signed_frame_def h1_def install_conversation_def split: option.split)
  ultimately show ?thesis
    unfolding result by (intro chain_inv_put [OF assms(2)]) (simp_all add: add_participant_def Let_def)
qed

lemma chain_inv_after:
  assumes "crypto_ok L" and "chain_inv L h"
  shows "chain_inv L (hub_after L env op h)"
proof -
  have expired: "chain_inv L (expire env h)"
    by (rule chain_inv_fewer [OF assms(2) fewer.expired])
  consider (frame) s x where "op = SubmitFrame s x" | (message) s x where "op = SubmitMessage s x"
    | (other) "\<And>s x. op \<noteq> SubmitFrame s x" "\<And>s x. op \<noteq> SubmitMessage s x"
    by blast
  then show ?thesis
  proof cases
    case frame
    then show ?thesis
      using chain_inv_submit [OF assms(1) expired] by (simp add: submit_frame_for_session_def)
  next
    case (message s x)
    have sent: "chain_inv L (deliver L f m ms rs g)"
      if "submit_frame_locked L s x (expire env h) = (r, g)" for f m ms rs r g
      using chain_inv_fewer [OF _ fewer.delivered] chain_inv_submit [OF assms(1) expired, of s x] that
      by simp
    have "chain_inv L g" if "submit_frame_locked L s x (expire env h) = (r, g)" for r g
      using chain_inv_submit [OF assms(1) expired, of s x] that by simp
    then show ?thesis
      using message expired sent
      by (simp add: submit_message_for_session_def Let_def split: sum.split option.split prod.split)
  next
    case other
    then show ?thesis
      using chain_inv_fewer [OF assms(2) fewer.operation [of op]]
        chain_inv_fewer [OF assms(2) fewer_prepared]
      by (cases op) simp_all
  qed
qed

interpretation chain_machine: total_machine "hub_step L" "\<lambda>h. crypto_ok L \<and> chain_inv L h" "\<lambda>_. True" for L
  by unfold_locales (auto simp: hub_step_def chain_inv_after)

end
