(* ===== verification/LiveReplay.thy ===== *)
theory LiveReplay
  imports LiveRelation
begin

text \<open>
  The changes of a hub carry its snapshot: a reader that took a snapshot and applies the changes
  since its cursor holds what a fresh snapshot would show. \<open>view_of\<close> is what a snapshot shows,
  \<open>apply_change\<close> what a reader does with a change; \<open>tracks\<close> relates two states of a hub by the
  changes in between.
\<close>

section \<open>What a reader holds\<close>

type_synonym view = "(string \<rightharpoonup> string \<times> activity) \<times> string set"

definition seen :: "(string \<times> presence_entry) list \<Rightarrow> string \<rightharpoonup> string \<times> activity" where
  "seen es = map_of (map (\<lambda>(s, e). (pe_handle e, (pe_value e, pe_activity e))) es)"

definition view_of :: "hub \<Rightarrow> view" where
  "view_of h = (seen (hb_presence h), fst ` set (hb_convs h))"

fun apply_change :: "change \<Rightarrow> view \<Rightarrow> view" where
  "apply_change c (P, C) =
     (case ch_kind c of
        PresenceChange \<Rightarrow> (P(ch_id c := map_option (Pair (ch_value c)) (ch_activity c)), C)
      | ActivityChange \<Rightarrow> (P(ch_id c := map_option (Pair (ch_value c)) (ch_activity c)), C)
      | RenewalChange \<Rightarrow> (P, C)
      | DepartureChange \<Rightarrow> (P(ch_id c := None), C)
      | ExpirationChange \<Rightarrow> (P(ch_id c := None), C)
      | ForgottenChange \<Rightarrow> (P, C - {ch_id c})
      | ConversationChange \<Rightarrow> (P, insert (ch_id c) C)
      | FrameChange \<Rightarrow> (P, C))"

definition handles :: "hub \<Rightarrow> string list" where
  "handles h = map (\<lambda>(s, e). pe_handle e) (hb_presence h)"

definition replay_inv :: "hub \<Rightarrow> bool" where
  "replay_inv h \<longleftrightarrow> hub_inv h \<and> distinct (handles h)"

text \<open>The handle drawn is not the handle of a live session.\<close>

definition handle_fresh :: "live_env \<Rightarrow> hub \<Rightarrow> bool" where
  "handle_fresh env h \<longleftrightarrow>
     (case le_handle env of None \<Rightarrow> True | Some raw \<Rightarrow> mint_handle raw \<notin> set (handles h))"

section \<open>Presence under its handle\<close>

lemma seen_none: "k \<notin> set (map (\<lambda>(s, e). pe_handle e) es) \<Longrightarrow> seen es k = None"
  unfolding seen_def by (induction es) auto

lemma seen_del:
  assumes "distinct (map (\<lambda>(s, e). pe_handle e) es)" and "distinct (map fst es)"
    and "map_of es s = Some e"
  shows "seen (del s es) = (seen es)(pe_handle e := None)"
  using assms
proof (induction es)
  case (Cons x es)
  obtain t d where x: "x = (t, d)"
    by (cases x)
  show ?case
  proof (cases "t = s")
    case True
    with Cons.prems x have "d = e" and "s \<notin> fst ` set es" by simp_all
    moreover from this(2) have "del s es = es"
      by (force simp: del_def filter_id_conv)
    moreover have "seen es (pe_handle e) = None"
      using Cons.prems x \<open>d = e\<close> by (intro seen_none) auto
    ultimately show ?thesis
      using x True by (auto simp: seen_def del_def fun_eq_iff)
  next
    case False
    with Cons.prems x have m: "map_of es s = Some e" by simp
    then have "(s, e) \<in> set es"
      by (rule map_of_SomeD)
    then have "pe_handle d \<noteq> pe_handle e"
      using Cons.prems(1) x by force
    with Cons x False m show ?thesis
      by (auto simp: seen_def del_def fun_eq_iff)
  qed
qed simp

lemma seen_put_old:
  assumes "distinct (map (\<lambda>(s, e). pe_handle e) es)" and "map_of es s = Some w"
    and "pe_handle e = pe_handle w"
  shows "seen (put s e es) = (seen es)(pe_handle e \<mapsto> (pe_value e, pe_activity e))"
    and "map (\<lambda>(s, e). pe_handle e) (put s e es) = map (\<lambda>(s, e). pe_handle e) es"
proof -
  have "seen (put s e es) = (seen es)(pe_handle e \<mapsto> (pe_value e, pe_activity e))
    \<and> map (\<lambda>(s, e). pe_handle e) (put s e es) = map (\<lambda>(s, e). pe_handle e) es"
    using assms
  proof (induction es)
    case (Cons x es)
    obtain t d where x: "x = (t, d)"
      by (cases x)
    show ?case
    proof (cases "t = s")
      case True
      with Cons.prems x show ?thesis by (auto simp: seen_def fun_eq_iff)
    next
      case False
      with Cons.prems x have m: "map_of es s = Some w" by simp
      then have "(s, w) \<in> set es"
        by (rule map_of_SomeD)
      then have "pe_handle d \<noteq> pe_handle e"
        using Cons.prems(1,3) x by force
      with Cons x False m show ?thesis
        by (auto simp: seen_def fun_eq_iff)
    qed
  qed simp
  then show "seen (put s e es) = (seen es)(pe_handle e \<mapsto> (pe_value e, pe_activity e))"
    "map (\<lambda>(s, e). pe_handle e) (put s e es) = map (\<lambda>(s, e). pe_handle e) es"
    by simp_all
qed

lemma seen_put_new:
  assumes "map_of es s = None" and "pe_handle e \<notin> set (map (\<lambda>(s, e). pe_handle e) es)"
  shows "seen (put s e es) = (seen es)(pe_handle e \<mapsto> (pe_value e, pe_activity e))"
  using seen_none [OF assms(2)] unfolding put_new [OF assms(1)]
  by (auto simp: seen_def fun_eq_iff map_add_def split: option.splits)

section \<open>Tracking\<close>

definition same_log :: "hub \<Rightarrow> hub \<Rightarrow> bool" where
  "same_log h g \<longleftrightarrow>
     hb_generation g = hb_generation h \<and> hb_history_cap g = hb_history_cap h
     \<and> hb_position g = hb_position h \<and> hb_base g = hb_base h \<and> hb_history g = hb_history h"

definition tracks_by :: "change list \<Rightarrow> hub \<Rightarrow> hub \<Rightarrow> bool" where
  "tracks_by cs h g \<longleftrightarrow>
     hb_generation g = hb_generation h \<and> hb_history_cap g = hb_history_cap h
     \<and> hb_position g = hb_position h + length cs
     \<and> hb_history g = newest (hb_history_cap h) (hb_history h @ cs)
     \<and> view_of g = fold apply_change cs (view_of h)"

definition tracks :: "hub \<Rightarrow> hub \<Rightarrow> bool" where
  "tracks h g \<longleftrightarrow> (\<exists>cs. tracks_by cs h g)"

lemma tracks_by_trans:
  assumes "tracks_by cs h g" and "tracks_by ds g k"
  shows "tracks_by (cs @ ds) h k"
  using assms unfolding tracks_by_def
  by (simp add: newest_append [of "hb_history_cap h" "hb_history h @ cs" ds, unfolded append_assoc])

lemma tracks_trans: "tracks h g \<Longrightarrow> tracks g k \<Longrightarrow> tracks h k"
  unfolding tracks_def using tracks_by_trans by blast

lemma tracks_same:
  assumes "window_inv h" and "same_log h g" and "view_of g = view_of h"
  shows "tracks h g"
proof -
  have "hb_history h = newest (hb_history_cap h) (hb_history h)"
    using assms(1) by (simp add: newest_short window_inv_def)
  then have "tracks_by [] h g"
    using assms(2,3) by (simp add: tracks_by_def same_log_def)
  then show ?thesis
    by (auto simp: tracks_def)
qed

lemma window_same_log: "same_log h g \<Longrightarrow> window_inv g = window_inv h"
  by (simp add: same_log_def window_inv_def)

lemma view_note [simp]: "view_of (note_change k i v h) = view_of h"
  by (simp add: view_of_def)

lemma tracks_by_note:
  assumes "window_inv h" and "same_log h g"
    and "view_of g = apply_change (plain_change (h\<lparr>hb_position := hb_position h + 1\<rparr>) k i v) (view_of h)"
  shows "tracks_by [plain_change (h\<lparr>hb_position := hb_position h + 1\<rparr>) k i v] h (note_change k i v g)"
proof -
  have "window_inv g"
    using assms(1,2) by (simp add: window_same_log)
  moreover have "plain_change (g\<lparr>hb_position := hb_position g + 1\<rparr>) k i v
      = plain_change (h\<lparr>hb_position := hb_position h + 1\<rparr>) k i v"
    using assms(2) by (simp add: plain_change_def same_log_def)
  ultimately have "hb_history (note_change k i v g) = newest (hb_history_cap h)
      (hb_history h @ [plain_change (h\<lparr>hb_position := hb_position h + 1\<rparr>) k i v])"
    using assms(2) by (simp add: note_change_history same_log_def)
  then show ?thesis
    using assms(2,3) by (simp add: tracks_by_def same_log_def)
qed

lemma tracks_note:
  assumes "window_inv h" and "same_log h g"
    and "view_of g = apply_change (plain_change (h\<lparr>hb_position := hb_position h + 1\<rparr>) k i v) (view_of h)"
  shows "tracks h (note_change k i v g)"
  using tracks_by_note [OF assms] by (auto simp: tracks_def)

text \<open>The newest change may be replaced by one a reader applies alike.\<close>

lemma newest_snoc: "0 < n \<Longrightarrow> newest n (xs @ [x]) = newest (n - 1) xs @ [x]"
  by (auto simp: newest_def)

lemma tracks_by_remark:
  assumes "tracks_by (cs @ [c]) h g" and "0 < hb_history_cap h" and "apply_change d = apply_change c"
  shows "tracks_by (cs @ [d]) h (g\<lparr>hb_history := butlast (hb_history g) @ [d]\<rparr>)"
proof -
  have "hb_history g = newest (hb_history_cap h - 1) (hb_history h @ cs) @ [c]"
    using assms(1,2) newest_snoc [of "hb_history_cap h" "hb_history h @ cs" c]
    by (simp add: tracks_by_def)
  then have "butlast (hb_history g) @ [d] = newest (hb_history_cap h) (hb_history h @ cs @ [d])"
    using assms(2) newest_snoc [of "hb_history_cap h" "hb_history h @ cs" d] by simp
  then show ?thesis
    using assms(1,3) by (simp add: tracks_by_def view_of_def)
qed

text \<open>A write whose change is annotated in the same operation.\<close>

lemma tracks_annotated:
  assumes "window_inv h" and "same_log h g" and "view_of g = apply_change d (view_of h)"
  shows "tracks h ((note_change k i v g)\<lparr>hb_history := butlast (hb_history (note_change k i v g)) @ [d]\<rparr>)"
proof -
  let ?c = "plain_change (g\<lparr>hb_position := hb_position g + 1\<rparr>) k i v"
  have "window_inv g"
    using assms(1) window_same_log [OF assms(2)] by simp
  moreover have cap: "0 < hb_history_cap h"
    using assms(1) by (simp add: window_inv_def)
  ultimately have "hb_history (note_change k i v g) = newest (hb_history_cap h) (hb_history h @ [?c])"
    using assms(2) by (simp add: note_change_history same_log_def)
  then have "butlast (hb_history (note_change k i v g)) @ [d]
      = newest (hb_history_cap h) (hb_history h @ [d])"
    by (simp add: newest_snoc [OF cap])
  then have "tracks_by [d] h
      ((note_change k i v g)\<lparr>hb_history := butlast (hb_history (note_change k i v g)) @ [d]\<rparr>)"
    using assms(2,3) by (simp add: tracks_by_def same_log_def view_of_def)
  then show ?thesis
    by (auto simp: tracks_def)
qed

section \<open>Departure and expiry\<close>

lemma tracks_forget:
  assumes "window_inv h"
  shows "tracks h (forget_conversation i h)"
proof (cases "map_of (hb_convs h) i")
  case None
  with assms show ?thesis
    by (simp add: forget_conversation_def tracks_same same_log_def)
next
  case (Some c)
  show ?thesis
    unfolding forget_conversation_def Some option.case
    by (rule tracks_note [OF assms]) (simp_all add: same_log_def view_of_def plain_change_def keys_del)
qed

lemma tracks_leave:
  assumes "window_inv h"
  shows "tracks h (leave_conversation s i h) \<and> window_inv (leave_conversation s i h)"
proof -
  have same: "tracks h (h\<lparr>hb_participants := ps\<rparr>)" "window_inv (h\<lparr>hb_participants := ps\<rparr>)" for ps
    using assms by (simp_all add: tracks_same same_log_def view_of_def)
  have "tracks h (forget_conversation i (h\<lparr>hb_participants := ps\<rparr>))"
    "window_inv (forget_conversation i (h\<lparr>hb_participants := ps\<rparr>))" for ps
    using tracks_trans [OF same(1) tracks_forget [OF same(2)]] window_forget [OF same(2)] by simp_all
  then show ?thesis
    using same assms by (simp add: leave_conversation_def Let_def tracks_same same_log_def split: option.split)
qed

lemma tracks_fold_leave:
  assumes "window_inv h"
  shows "tracks h (fold (leave_conversation s) js h)"
  using assms
proof (induction js arbitrary: h)
  case Nil
  then show ?case by (simp add: tracks_same same_log_def)
next
  case (Cons j js)
  note step = tracks_leave [OF Cons.prems, of s j]
  show ?case
    using tracks_trans [OF conjunct1 [OF step] Cons.IH [OF conjunct2 [OF step]]] by simp
qed

lemma replay_invD:
  assumes "replay_inv h"
  shows "hub_inv h" "distinct (map (\<lambda>(s, e). pe_handle e) (hb_presence h))"
    "distinct (map fst (hb_presence h))" "window_inv h"
  using assms hub_invD(3,4) by (auto simp: replay_inv_def handles_def held_by_def)

lemma tracks_end_session:
  assumes "window_inv h" and "kind \<in> {DepartureChange, ExpirationChange}"
    and "seen (del s (hb_presence h)) = (seen (hb_presence h))(pe_handle e := None)"
  shows "tracks h (end_session env kind s e h)"
proof -
  let ?g = "delete_inbox s (h\<lparr>hb_presence := del s (hb_presence h)\<rparr>)"
  have log: "same_log h ?g"
    by (simp add: delete_inbox_def same_log_def)
  have "view_of ?g = (seen (del s (hb_presence h)), fst ` set (hb_convs h))"
    by (simp add: view_of_def delete_inbox_def)
  then have "tracks h (note_change kind (pe_handle e) [] ?g)"
    using assms(2,3)
    by (intro tracks_note [OF assms(1) log]) (auto simp: view_of_def plain_change_def)
  moreover have "window_inv (note_change kind (pe_handle e) [] ?g)"
    using assms(1) log by (simp add: window_inv_note window_same_log)
  ultimately show ?thesis
    unfolding end_session_def remove_participant_def
    using tracks_trans tracks_fold_leave by blast
qed

lemma replay_inv_filter:
  assumes "replay_inv h" and "hub_inv g" and "hb_presence g = filter P (hb_presence h)"
  shows "replay_inv g"
  using assms by (simp add: replay_inv_def handles_def distinct_map_filter)

lemma replay_end_session:
  assumes "env_ok env" and "replay_inv h" and "map_of (hb_presence h) s = Some e"
    and "kind \<in> {DepartureChange, ExpirationChange}"
  shows "tracks h (end_session env kind s e h) \<and> replay_inv (end_session env kind s e h)"
proof -
  note inv = replay_invD [OF assms(2)]
  have "hub_inv (end_session env kind s e h)"
    by (rule hub_inv_end_session [OF assms(1) inv(1)])
  moreover have "hb_presence (end_session env kind s e h) = filter (\<lambda>(t, x). t \<noteq> s) (hb_presence h)"
    using hub_core_end_session(2) [OF assms(1) hub_invD(1) [OF inv(1)]] by (simp add: del_def)
  ultimately have "replay_inv (end_session env kind s e h)"
    by (rule replay_inv_filter [OF assms(2)])
  then show ?thesis
    using tracks_end_session [OF inv(4) assms(4) seen_del [OF inv(2,3) assms(3)]] by simp
qed

lemma replay_expire_one:
  assumes "env_ok env" and "replay_inv h"
  shows "tracks h (expire_session env s h) \<and> replay_inv (expire_session env s h)"
  using replay_end_session [OF assms] assms(2) replay_invD(4) [OF assms(2)]
  by (simp add: expire_session_def tracks_same same_log_def split: option.split)

lemma replay_expire_fold:
  assumes "env_ok env" and "replay_inv h"
  shows "tracks h (fold (expire_session env) ss h) \<and> replay_inv (fold (expire_session env) ss h)"
  using assms(2)
proof (induction ss arbitrary: h)
  case Nil
  then show ?case using replay_invD(4) by (simp add: tracks_same same_log_def)
next
  case (Cons s ss)
  note step = replay_expire_one [OF assms(1) Cons.prems, of s]
  show ?case
    using tracks_trans [OF conjunct1 [OF step]] Cons.IH [OF conjunct2 [OF step]] by simp
qed

lemma replay_inv_same:
  assumes "replay_inv h" and "hub_inv g" and "hb_presence g = hb_presence h"
  shows "replay_inv g"
  using assms by (simp add: replay_inv_def handles_def)

lemma replay_pending:
  assumes "replay_inv h" and "hub_inv (h\<lparr>hb_pending := qs\<rparr>)"
  shows "tracks h (h\<lparr>hb_pending := qs\<rparr>) \<and> replay_inv (h\<lparr>hb_pending := qs\<rparr>)"
  using assms replay_invD(4) [OF assms(1)] replay_inv_same [OF assms]
  by (simp add: tracks_same same_log_def view_of_def)

lemma replay_expire:
  assumes "env_ok env" and "replay_inv h"
  shows "tracks h (expire env h) \<and> replay_inv (expire env h)"
proof -
  let ?h1 = "h\<lparr>hb_pending := filter (\<lambda>(k, p). ps_expires p > le_now env) (hb_pending h)\<rparr>"
  let ?g = "fold (expire_session env) (le_arrange env (map fst (hb_presence ?h1))) ?h1"
  have "hub_core {} ?h1"
    using hub_invD(1) [OF replay_invD(1) [OF assms(2)]] by simp
  moreover have "session_quota ?h1"
    by (rule session_quota_filter [OF hub_invD(2) [OF replay_invD(1) [OF assms(2)]], of _ "\<lambda>_. True"])
      simp_all
  ultimately have "hub_inv ?h1"
    by (simp add: hub_inv_def)
  note first = replay_pending [OF assms(2) this]
  note rest = replay_expire_fold [OF assms(1) conjunct2 [OF first]]
  have "forget_all_if_empty env ?g = ?g"
    using rest hub_inv_forget_all [OF assms(1)] replay_invD(1) by blast
  then have "expire env h = ?g"
    by (simp add: expire_def Let_def)
  then show ?thesis
    using tracks_trans [OF conjunct1 [OF first]] rest by simp
qed


section \<open>Publication of a presence\<close>

lemma seen_held:
  assumes "distinct (map (\<lambda>(s, e). pe_handle e) es)" and "map_of es s = Some w"
  shows "seen es (pe_handle w) = Some (pe_value w, pe_activity w)"
proof -
  have "(pe_handle w, (pe_value w, pe_activity w))
      \<in> set (map (\<lambda>(s, e). (pe_handle e, (pe_value e, pe_activity e))) es)"
    using map_of_SomeD [OF assms(2)] by force
  moreover have "distinct (map fst (map (\<lambda>(s, e). (pe_handle e, (pe_value e, pe_activity e))) es))"
    using assms(1) by (simp add: comp_def split_def)
  ultimately show ?thesis
    unfolding seen_def by simp
qed

lemma tracks_publish:
  assumes "replay_inv h" and "same_log h h1" and "view_of h1 = view_of h"
    and "hb_presence h1 = hb_presence h"
    and old: "\<And>w. map_of (hb_presence h) s = Some w \<Longrightarrow>
      ex \<and> held = w \<and> pe_handle entry = pe_handle w"
    and new: "map_of (hb_presence h) s = None \<Longrightarrow> \<not> ex \<and> pe_handle entry \<notin> set (handles h)"
  shows "tracks h (snd (publish_presence env s ex held entry h1))
    \<and> distinct (map (\<lambda>(s, e). pe_handle e) (put s entry (hb_presence h)))"
proof -
  note inv = replay_invD [OF assms(1)]
  let ?g = "h1\<lparr>hb_presence := put s entry (hb_presence h1)\<rparr>"
  let ?i = "pe_handle entry" and ?v = "pe_value entry"
  have log: "same_log h ?g"
    using assms(2) by (simp add: same_log_def)
  have s: "seen (put s entry (hb_presence h))
      = (seen (hb_presence h))(?i \<mapsto> (?v, pe_activity entry))"
    and d: "distinct (map (\<lambda>(s, e). pe_handle e) (put s entry (hb_presence h)))"
  proof -
    have "seen (put s entry (hb_presence h)) = (seen (hb_presence h))(?i \<mapsto> (?v, pe_activity entry))
      \<and> distinct (map (\<lambda>(s, e). pe_handle e) (put s entry (hb_presence h)))"
    proof (cases "map_of (hb_presence h) s")
      case None
      then have "?i \<notin> set (map (\<lambda>(s, e). pe_handle e) (hb_presence h))"
        using new by (simp add: handles_def)
      with None inv(2) show ?thesis
        using seen_put_new [OF None] by (simp add: put_new)
    next
      case (Some w)
      with old inv(2) show ?thesis
        using seen_put_old [OF inv(2) Some, of entry] by simp
    qed
    then show "seen (put s entry (hb_presence h))
        = (seen (hb_presence h))(?i \<mapsto> (?v, pe_activity entry))"
      "distinct (map (\<lambda>(s, e). pe_handle e) (put s entry (hb_presence h)))"
      by simp_all
  qed
  have convs: "fst ` set (hb_convs h1) = fst ` set (hb_convs h)"
    using assms(3) by (simp add: view_of_def)
  have view: "view_of ?g = ((seen (hb_presence h))(?i \<mapsto> (?v, pe_activity entry)), fst ` set (hb_convs h))"
    by (simp add: view_of_def assms(4) s convs)
  let ?same = "ex \<and> pe_value held = ?v \<and> pe_actor held = pe_actor entry
      \<and> pe_fingerprint held = pe_fingerprint entry"
  let ?k = "if ?same then ActivityChange else PresenceChange"
  have "tracks h (snd (publish_presence env s ex held entry h1))"
  proof (cases "?same \<and> pe_activity held = pe_activity entry")
    case True
    then obtain w where w: "map_of (hb_presence h) s = Some w" "held = w" "?i = pe_handle w"
      using old new by (cases "map_of (hb_presence h) s") auto
    then have "seen (hb_presence h) ?i = Some (?v, pe_activity entry)"
      using seen_held [OF inv(2) w(1)] True by simp
    then have "view_of ?g = view_of h"
      unfolding view by (auto simp: view_of_def fun_eq_iff)
    with True log inv(4) show ?thesis
      by (simp add: publish_presence_def Let_def tracks_same)
  next
    case False
    obtain c g where app: "append_change ?k ?i ?v ?g = (c, g)"
      by (rule prod.exhaust)
    have "window_inv ?g"
      by (simp only: window_same_log [OF log] inv(4))
    from append_change_last [OF this app]
    have g: "g = note_change ?k ?i ?v ?g" and c: "c = plain_change (?g\<lparr>hb_position := hb_position ?g + 1\<rparr>) ?k ?i ?v"
      by simp_all
    let ?d = "c\<lparr>ch_activity := Some (pe_activity entry)\<rparr>"
    have "view_of ?g = apply_change ?d (view_of h)"
      unfolding view by (simp add: view_of_def c plain_change_def)
    from tracks_annotated [OF inv(4) log this, of ?k ?i ?v]
    have "tracks h (g\<lparr>hb_history := butlast (hb_history g) @ [?d]\<rparr>)"
      unfolding g .
    moreover have "snd (publish_presence env s ex held entry h1)
        = g\<lparr>hb_history := butlast (hb_history g) @ [?d]\<rparr>"
      unfolding publish_presence_def Let_def app using False by auto
    ultimately show ?thesis by simp
  qed
  with d show ?thesis by simp
qed

lemma replay_announce:
  assumes "replay_inv h" and "handle_fresh env h"
    and "\<And>e. map_of (hb_presence h) s = Some e \<Longrightarrow> pe_actor e = actor \<and> pe_fingerprint e = fingerprint"
  shows "tracks h (snd (announce_for env s actor fingerprint v ttl update h))
    \<and> replay_inv (snd (announce_for env s actor fingerprint v ttl update h))"
proof -
  note inv = replay_invD [OF assms(1)]
  have out: "hub_inv (snd (announce_for env s actor fingerprint v ttl update h))"
    by (rule hub_inv_announce_for [OF inv(1) assms(3)])
  let ?h1 = "if map_of (hb_presence h) s \<noteq> None then h else delete_inbox s h"
  have h1: "same_log h ?h1" "view_of ?h1 = view_of h" "hb_presence ?h1 = hb_presence h" "hub_inv ?h1"
    using inv(1) hub_inv_delete_inbox by (simp_all add: delete_inbox_def same_log_def view_of_def)
  show ?thesis
  proof (cases rule: announce_for_cases [of env s actor fingerprint v ttl update h])
    case (refused e)
    then have "snd (announce_for env s actor fingerprint v ttl update h) = h
        \<or> snd (announce_for env s actor fingerprint v ttl update h) = ?h1"
      by auto
    then show ?thesis
      using tracks_same [OF inv(4)] h1 replay_inv_same [OF assms(1) out] assms(1)
      by (auto simp: same_log_def)
  next
    case (published t activity changed)
    let ?handle = "if pe_handle (entry_of h s) \<noteq> [] then pe_handle (entry_of h s)
        else mint_handle (the (le_handle env))"
    have old: "?handle = pe_handle w \<and> entry_of h s = w" if "map_of (hb_presence h) s = Some w" for w
      using that hub_invD(2) [OF inv(1)] map_of_SomeD [OF that]
      by (auto simp: entry_of_def session_quota_def)
    have new: "?handle \<notin> set (handles h)" if "map_of (hb_presence h) s = None"
      using that published(4) assms(2)
      by (auto simp: entry_of_def no_entry_def handle_fresh_def split: option.splits)
    let ?entry = "\<lparr>pe_value = v, pe_actor = actor, pe_fingerprint = fingerprint,
        pe_inbox = pe_inbox (entry_of h s), pe_handle = ?handle, pe_activity = activity,
        pe_expires = le_now env + t, pe_changed_at = changed\<rparr>"
    have "tracks h (snd (publish_presence env s (map_of (hb_presence h) s \<noteq> None) (entry_of h s) ?entry ?h1))
      \<and> distinct (map (\<lambda>(s, e). pe_handle e) (put s ?entry (hb_presence h)))"
      by (rule tracks_publish [OF assms(1) h1(1-3)]) (use old new in simp_all)
    moreover have "hb_presence (snd (publish_presence env s (map_of (hb_presence h) s \<noteq> None)
        (entry_of h s) ?entry ?h1)) = put s ?entry (hb_presence h)"
      using publish_presence_fields(2) hub_invD(3) [OF h1(4)] h1(3) by simp
    ultimately show ?thesis
      using out unfolding published(3) snd_apfst by (simp add: replay_inv_def handles_def)
  qed
qed


section \<open>Publication of a frame and delivery of a message\<close>

lemma tracks_by_quiet:
  "tracks_by cs h g \<Longrightarrow> same_log g k \<Longrightarrow> view_of k = view_of g \<Longrightarrow> tracks_by cs h k"
  by (simp add: tracks_by_def same_log_def)

lemma tracks_commit:
  assumes "window_inv h" and "fr_conversation f \<in> fst ` set (hb_convs h)"
  shows "\<exists>x. tracks_by [x] h (commit_signed_frame c f digest h)"
proof -
  have "tracks_by [plain_change (h\<lparr>hb_position := hb_position h + 1\<rparr>) FrameChange (fr_conversation f)
      (format_uint (fr_sequence f))] h (commit_signed_frame c f digest h)"
    unfolding commit_signed_frame_def using assms
    by (intro tracks_by_note)
      (simp_all add: same_log_def view_of_def plain_change_def keys_put insert_absorb)
  then show ?thesis by blast
qed

lemma tracks_install:
  assumes "window_inv h"
  shows "\<exists>x. tracks_by [x] h (install_conversation d c h)"
proof -
  have "tracks_by [plain_change (h\<lparr>hb_position := hb_position h + 1\<rparr>) ConversationChange
      (dr_conversation d) []] h (install_conversation d c h)"
    unfolding install_conversation_def using assms
    by (intro tracks_by_note) (simp_all add: same_log_def view_of_def plain_change_def keys_put)
  then show ?thesis by blast
qed

lemma quiet_participant: "same_log h (add_participant i s h) \<and> view_of (add_participant i s h) = view_of h"
  by (simp add: add_participant_def Let_def same_log_def view_of_def)

lemma quiet_inbox: "same_log h (add_inbox r s h) \<and> view_of (add_inbox r s h) = view_of h"
  unfolding add_inbox_def Let_def by (simp add: same_log_def view_of_def)

lemma quiet_fold:
  assumes "\<And>x h. same_log h (f x h) \<and> view_of (f x h) = view_of h"
  shows "same_log h (fold f xs h) \<and> view_of (fold f xs h) = view_of h"
proof (induction xs arbitrary: h)
  case (Cons x xs)
  show ?case
    using assms [where x = x and h = h] Cons.IH [of "f x h"] by (simp add: same_log_def)
qed (simp add: same_log_def)

lemma tracks_submitted:
  assumes "hub_inv h" and "submit_frame_locked L session s h = (Inr f, g)"
  shows "\<exists>cs c. tracks_by (cs @ [c]) h g"
proof (cases rule: submit_frame_cases [of L session s h])
  case (refused e)
  with assms(2) show ?thesis by simp
next
  case (published current f' digest)
  let ?d = "sb_draft s"
  define c where "c = (case current of Some c \<Rightarrow> c | None \<Rightarrow> opened ?d)"
  note result = published(7) [folded c_def] and built = published(6) [folded c_def]
  have fi: "fr_conversation f' = dr_conversation ?d"
    using built_frame(1) [OF built] by (simp add: actor_body_def)
  have w: "window_inv h"
    using assms(1) by (rule hub_invD)
  have "\<exists>cs x. tracks_by (cs @ [x]) h (commit_signed_frame c f' digest
      (case current of Some c \<Rightarrow> h | None \<Rightarrow> install_conversation ?d (opened ?d) h))"
  proof (cases current)
    case None
    obtain x where x: "tracks_by [x] h (install_conversation ?d (opened ?d) h)"
      using tracks_install [OF w] by blast
    have "window_inv (install_conversation ?d (opened ?d) h)"
      unfolding install_conversation_def
      by (rule window_inv_note) (use w in \<open>simp add: window_inv_def\<close>)
    moreover have "fr_conversation f' \<in> fst ` set (hb_convs (install_conversation ?d (opened ?d) h))"
      by (simp add: install_conversation_def keys_put fi)
    ultimately obtain y where "tracks_by [y] (install_conversation ?d (opened ?d) h)
        (commit_signed_frame c f' digest (install_conversation ?d (opened ?d) h))"
      using tracks_commit by blast
    from tracks_by_trans [OF x this] show ?thesis
      by (simp only: None option.case) blast
  next
    case (Some c')
    have "fr_conversation f' \<in> fst ` set (hb_convs h)"
      using validate_draft_known(1) [OF published(4) [unfolded Some]] in_keys_iff [of _ "hb_convs h"]
      by (simp add: fi)
    from tracks_commit [OF w this] have "\<exists>x. tracks_by ([] @ [x]) h (commit_signed_frame c f' digest h)"
      by simp
    then show ?thesis
      by (simp only: Some option.case) blast
  qed
  moreover have "g = add_participant (dr_conversation ?d) session (commit_signed_frame c f' digest
      (case current of Some c \<Rightarrow> h | None \<Rightarrow> install_conversation ?d (opened ?d) h))"
    using result assms(2) by simp
  ultimately show ?thesis
    using tracks_by_quiet quiet_participant by blast
qed

lemma replay_submit:
  assumes "replay_inv h"
  shows "tracks h (snd (submit_frame_locked L session s h))
    \<and> replay_inv (snd (submit_frame_locked L session s h))"
proof -
  note inv = replay_invD [OF assms]
  note out = hub_inv_submit_frame [OF inv(1), of L session s]
  have "tracks h (snd (submit_frame_locked L session s h))"
  proof (cases "submit_frame_locked L session s h")
    case (Pair r g)
    show ?thesis
    proof (cases r)
      case (Inl e)
      with Pair have "g = h"
        by (cases rule: submit_frame_cases [of L session s h]) auto
      with Pair inv(4) show ?thesis
        by (simp add: tracks_same same_log_def)
    next
      case (Inr f)
      with Pair tracks_submitted [OF inv(1), of L session s f g] show ?thesis
        by (auto simp: tracks_def)
    qed
  qed
  with replay_inv_same [OF assms out(1,2)] show ?thesis by simp
qed

lemma tracks_deliver:
  assumes "hub_inv h" and "submit_frame_locked L session s h = (Inr f, g)"
  shows "tracks h (deliver L f m members receivers g)"
proof -
  obtain cs c where sent: "tracks_by (cs @ [c]) h g"
    using tracks_submitted [OF assms] by blast
  have cap: "0 < hb_history_cap h"
    using hub_invD(3) [OF assms(1)] by (simp add: window_inv_def)
  have c: "last (hb_history g) = c"
    using sent newest_snoc [OF cap, of "hb_history h @ cs" c] by (simp add: tracks_by_def)
  let ?d = "c\<lparr>ch_frame := Some (inbox_frame_of L f m (fr_conversation f) (fr_sequence f))\<rparr>"
  let ?marked = "g\<lparr>hb_history := butlast (hb_history g) @ [?d]\<rparr>"
  have "apply_change ?d = apply_change c"
    by (rule ext) (simp add: split_paired_all split: change_kind.split)
  then have marked: "tracks_by (cs @ [?d]) h ?marked"
    by (rule tracks_by_remark [OF sent cap])
  let ?joined = "fold (add_participant (fr_conversation f)) members ?marked"
  have "tracks_by (cs @ [?d]) h (fold (add_inbox (fr_conversation f, fr_sequence f)) receivers ?joined)"
    using tracks_by_quiet [OF tracks_by_quiet [OF marked]]
      quiet_fold [of "add_participant (fr_conversation f)", OF quiet_participant]
      quiet_fold [of "add_inbox (fr_conversation f, fr_sequence f)", OF quiet_inbox] by blast
  then show ?thesis
    by (auto simp: deliver_def Let_def c tracks_def)
qed


lemma deliver_presence: "hb_presence (deliver L f m members receivers h) = hb_presence h"
proof -
  have keep: "hb_presence (fold F xs g) = hb_presence g" if "\<And>x g. hb_presence (F x g) = hb_presence g"
    for F :: "'x \<Rightarrow> hub \<Rightarrow> hub" and xs g
    by (induction xs arbitrary: g) (simp_all add: that)
  show ?thesis
    by (simp add: deliver_def Let_def keep)
qed

section \<open>Every operation\<close>

lemma fresh_expire:
  assumes "env_ok env" and "hub_inv h" and "handle_fresh env h"
  shows "handle_fresh env (expire env h)"
proof -
  have "set (handles (expire env h)) \<subseteq> set (handles h)"
    using expire_hub(2) [OF assms(1) hub_invD(1) [OF assms(2)]] by (auto simp: handles_def)
  then show ?thesis
    using assms(3) by (auto simp: handle_fresh_def split: option.splits)
qed

text \<open>What every operation does: it tracks and keeps the invariant.\<close>

definition replays :: "hub \<Rightarrow> hub \<Rightarrow> bool" where
  "replays h g \<longleftrightarrow> tracks h g \<and> replay_inv g"

lemma replays_refl: "replay_inv h \<Longrightarrow> replays h h"
  using replay_invD(4) by (simp add: replays_def tracks_same same_log_def)

lemma replays_trans: "replays h g \<Longrightarrow> replays g k \<Longrightarrow> replays h k"
  using tracks_trans by (auto simp: replays_def)

lemma replays_quiet:
  assumes "replay_inv h" and "hub_inv g" and "same_log h g" and "hb_presence g = hb_presence h"
    and "hb_convs g = hb_convs h"
  shows "replays h g"
  using tracks_same [OF replay_invD(4) [OF assms(1)] assms(3)] replay_inv_same [OF assms(1,2,4)] assms(4,5)
  by (simp add: replays_def view_of_def)

lemma replays_open_identity:
  assumes "replay_inv h" and "handle_fresh env h"
  shows "replays h (snd (open_session_identity_locked env actor fingerprint v ttl update h))"
proof (cases "fresh_credential h (le_credentials env)")
  case (Inl e)
  then show ?thesis
    using replays_refl [OF assms(1)] by (simp add: open_session_identity_locked_def)
next
  case (Inr c)
  then have "map_of (hb_presence h) c = None"
    by (rule fresh_credential_new)
  then have "replays h (snd (announce_for env c actor fingerprint v ttl update h))"
    using replay_announce [OF assms, of c actor fingerprint] by (simp add: replays_def)
  with Inr show ?thesis
    by (auto simp: open_session_identity_locked_def split: prod.splits sum.splits)
qed

lemma replays_after:
  assumes "env_ok env" and "replay_inv h" and "handle_fresh env h"
  shows "replays h (hub_after L env op h)"
proof -
  let ?h = "expire env h"
  note inv = replay_invD [OF assms(2)]
  have expired: "replays h ?h"
    using replay_expire [OF assms(1,2)] by (simp add: replays_def)
  have rinv: "replay_inv ?h"
    using expired by (simp add: replays_def)
  have fresh: "handle_fresh env ?h"
    by (rule fresh_expire [OF assms(1) inv(1) assms(3)])
  have next_inv: "hub_inv (hub_after L env op h)"
    by (rule hub_inv_after [OF assms(1) inv(1)])
  have announced: "replays h (snd (announce_for env s a f v t u ?h))"
    if "\<And>e. map_of (hb_presence ?h) s = Some e \<Longrightarrow> pe_actor e = a \<and> pe_fingerprint e = f" for s a f v t u
    using replay_announce [OF rinv fresh that] replays_trans [OF expired] by (simp add: replays_def)
  have quiet: "replays h g" if "hub_inv g" "same_log ?h g" "hb_presence g = hb_presence ?h"
    "hb_convs g = hb_convs ?h" for g
    using replays_trans [OF expired replays_quiet [OF rinv that]] .
  have used: "hub_inv (?h\<lparr>hb_pending := del k (hb_pending ?h)\<rparr>)" for k
    using replay_invD(1) [OF rinv]
    by (intro pending_change) (simp_all add: hub_inv_def session_quota_def distinct_del length_del_le)
  show ?thesis
  proof (cases op)
    case (OpenTrusted actor key v ttl u)
    then show ?thesis
      using replays_refl [OF assms(2)] replays_trans [OF expired replays_open_identity [OF rinv fresh]]
      by (simp add: open_trusted_session_def split: sum.split)
  next
    case (Prepare actor key v ttl u)
    have "same_log ?h (?h\<lparr>hb_pending := qs\<rparr>)" for qs
      by (simp add: same_log_def)
    then show ?thesis
      using Prepare next_inv expired replays_refl [OF assms(2)] quiet
      by (auto simp: prepare_session_def Let_def split: sum.splits prod.splits if_splits)
  next
    case (OpenPrepared c signature)
    have first: "replays h (?h\<lparr>hb_pending := del k (hb_pending ?h)\<rparr>)" for k
      by (rule quiet [OF used]) (simp_all add: same_log_def)
    moreover have "handle_fresh env (?h\<lparr>hb_pending := del k (hb_pending ?h)\<rparr>)" for k
      using fresh by (simp add: handle_fresh_def handles_def split: option.splits)
    ultimately have "replays h (snd (open_session_identity_locked env a f v t u
        (?h\<lparr>hb_pending := del k (hb_pending ?h)\<rparr>)))" for a f v t u k
      using replays_trans [OF first replays_open_identity] by (simp add: replays_def)
    then show ?thesis
      using OpenPrepared expired first
      by (simp add: open_session_def Let_def split: sum.split option.split)
  next
    case (Announce s actor fingerprint v ttl u)
    then show ?thesis
      using replays_refl [OF assms(2)] expired announced [of s actor fingerprint]
      by (cases "map_of (hb_presence ?h) s") (simp_all add: announce_session_identity_def Let_def)
  next
    case (Renew s actor key v ttl u)
    then show ?thesis
      using replays_refl [OF assms(2)] expired announced [of s actor]
      by (cases "map_of (hb_presence ?h) s")
        (simp_all add: renew_session_def renew_session_identity_def Let_def split: sum.split)
  next
    case (Revoke s)
    have "replays h (forget_all_if_empty env (end_session env DepartureChange s e ?h))"
      if "map_of (hb_presence ?h) s = Some e" for e
      using replay_end_session [OF assms(1) rinv that] replays_trans [OF expired]
        hub_inv_forget_all [OF assms(1) hub_inv_end_session [OF assms(1) replay_invD(1) [OF rinv]]]
      by (simp add: replays_def)
    then show ?thesis
      using Revoke expired by (simp add: revoke_session_def Let_def split: option.split)
  next
    case (Depart s)
    let ?g = "end_session env DepartureChange s (entry_of h s) h"
    have "tracks h ?g"
    proof (cases "map_of (hb_presence h) s")
      case None
      have "[] \<notin> set (map (\<lambda>(s, e). pe_handle e) (hb_presence h))"
        using hub_invD(2) [OF inv(1)] by (auto simp: session_quota_def)
      then have "seen (hb_presence h) [] = None"
        by (rule seen_none)
      moreover have "del s (hb_presence h) = hb_presence h"
        using None by (force simp: del_def filter_id_conv map_of_eq_None_iff)
      ultimately show ?thesis
        using None
        by (intro tracks_end_session [OF inv(4)]) (auto simp: entry_of_def no_entry_def fun_eq_iff)
    next
      case (Some e)
      with replay_end_session [OF assms(1,2) Some] show ?thesis by (simp add: entry_of_def)
    qed
    moreover have "replay_inv ?g"
      by (rule replay_inv_filter [OF assms(2) hub_inv_end_session [OF assms(1) inv(1)],
            of _ _ _ "\<lambda>(t, x). t \<noteq> s"])
        (use hub_core_end_session(2) [OF assms(1) hub_invD(1) [OF inv(1)]] in \<open>simp add: del_def\<close>)
    ultimately show ?thesis
      using Depart hub_inv_forget_all [OF assms(1) hub_inv_end_session [OF assms(1) inv(1)]]
      by (simp add: depart_def Let_def replays_def)
  next
    case (EnableInbox s)
    have "replays ?h (?h\<lparr>hb_presence := put s (e\<lparr>pe_inbox := True\<rparr>) (hb_presence ?h)\<rparr>)"
      if e: "map_of (hb_presence ?h) s = Some e"
        and "hub_inv (?h\<lparr>hb_presence := put s (e\<lparr>pe_inbox := True\<rparr>) (hb_presence ?h)\<rparr>)" for e
    proof -
      note r = replay_invD [OF rinv]
      have "seen (put s (e\<lparr>pe_inbox := True\<rparr>) (hb_presence ?h)) = seen (hb_presence ?h)"
        using seen_put_old(1) [OF r(2) e, of "e\<lparr>pe_inbox := True\<rparr>"] seen_held [OF r(2) e]
        by (auto simp: fun_eq_iff)
      then show ?thesis
        using seen_put_old(2) [OF r(2) e, of "e\<lparr>pe_inbox := True\<rparr>"] r(2,4) that(2)
        by (simp add: replays_def replay_inv_def handles_def tracks_same same_log_def view_of_def)
    qed
    then show ?thesis
      using EnableInbox next_inv expired replays_trans [OF expired]
      by (cases "map_of (hb_presence ?h) s") (simp_all add: enable_inbox_def Let_def)
  next
    case (SubmitFrame s x)
    then show ?thesis
      using replay_submit [OF rinv, of L s x]
        replays_trans [OF expired, of "snd (submit_frame_locked L s x ?h)"]
      by (simp add: submit_frame_for_session_def replays_def)
  next
    case (SubmitMessage s x)
    show ?thesis
    proof (cases rule: submit_message_cases [of L env s x h])
      case (delivered f m g members receivers)
      then have after: "hub_after L env op h = deliver L f m members receivers g"
        using SubmitMessage by simp
      have "tracks ?h (deliver L f m members receivers g)"
        by (rule tracks_deliver [OF replay_invD(1) [OF rinv] delivered(6)])
      moreover have "hb_presence (deliver L f m members receivers g) = hb_presence ?h"
        using hub_inv_submit_frame(2) [OF replay_invD(1) [OF rinv], of L s x] delivered(6)
        by (simp add: deliver_presence)
      ultimately have "replays ?h (deliver L f m members receivers g)"
        using replay_inv_same [OF rinv next_inv] after by (simp add: replays_def)
      then show ?thesis
        using replays_trans [OF expired] after by simp
    qed (use SubmitMessage expired in simp_all)
  next
    case (Acknowledge s hs)
    have "same_log ?h (?h\<lparr>hb_inboxes := bs\<rparr>)" for bs
      by (simp add: same_log_def)
    then show ?thesis
      using Acknowledge next_inv expired quiet
      by (auto simp: acknowledge_def Let_def split: option.splits if_splits)
  qed (use expired in \<open>simp_all add: prepare_frame_for_session_def prepare_message_for_session_def Let_def\<close>)
qed


section \<open>Reading the window\<close>

text \<open>
  A step is refused where the handle it draws names a live session already: the code draws sixteen
  random bytes and does not look.
\<close>

definition fresh_step :: "('l) live_lib_scheme \<Rightarrow> hub \<Rightarrow> live_env \<times> hub_op \<Rightarrow> hub option" where
  "fresh_step L h x = (if handle_fresh (fst x) h then hub_step L h x else None)"

interpretation replay_machine: tracking_machine "fresh_step L" replay_inv hub_fits tracks for L
proof unfold_locales
  fix s e s'
  assume "replay_inv s" and "hub_fits e" and "fresh_step L s e = Some s'"
  then have "replays s s'"
    using replays_after [of "fst e" s L "snd e"]
    by (auto simp: fresh_step_def hub_step_def hub_fits_def split: if_splits prod.splits)
  then show "replay_inv s'" and "tracks s s'"
    by (simp_all add: replays_def)
next
  show "tracks s s" if "replay_inv s" for s
    using replays_refl [OF that] by (simp add: replays_def)
qed (rule tracks_trans)

text \<open>The changes after a cursor are the newest ones of the window.\<close>

lemma window_suffix:
  assumes "window_inv h" and "hb_base h \<le> p" and "p \<le> hb_position h"
  shows "filter (\<lambda>x. cu_position (ch_cursor x) > p) (hb_history h)
    = drop (p - hb_base h) (hb_history h)"
proof -
  have pos: "map (\<lambda>c. cu_position (ch_cursor c)) (hb_history h) = [hb_base h + 1..<hb_position h + 1]"
    and len: "length (hb_history h) = hb_position h - hb_base h"
    using assms(1) by (auto simp: window_inv_def)
  have at: "cu_position (ch_cursor (hb_history h ! i)) = hb_base h + 1 + i"
    if "i < length (hb_history h)" for i
  proof -
    have "map (\<lambda>c. cu_position (ch_cursor c)) (hb_history h) ! i = [hb_base h + 1..<hb_position h + 1] ! i"
      by (simp only: pos)
    with that len show ?thesis by (simp del: upt_Suc)
  qed
  let ?k = "p - hb_base h"
  have "\<forall>x \<in> set (take ?k (hb_history h)). \<not> cu_position (ch_cursor x) > p"
    using at assms(2) by (fastforce simp: in_set_conv_nth)
  moreover have "\<forall>x \<in> set (drop ?k (hb_history h)). cu_position (ch_cursor x) > p"
    using at assms(2) by (fastforce simp: in_set_conv_nth)
  ultimately have "filter (\<lambda>x. cu_position (ch_cursor x) > p) (take ?k (hb_history h) @ drop ?k (hb_history h))
      = drop ?k (hb_history h)"
    unfolding filter_append by (simp add: filter_empty_conv filter_id_conv)
  then show ?thesis
    by (simp only: append_take_drop_id)
qed

lemma apply_visible: "apply_change (visible_change h s c) = apply_change c"
  by (rule ext) (simp add: visible_change_def split_paired_all split: change_kind.split)

lemma fold_visible: "fold apply_change (map (visible_change h s) cs) = fold apply_change cs"
  by (induction cs) (simp_all add: apply_visible)

lemma tracks_changes:
  assumes "tracks h g" and "window_inv g"
  shows "changes_since_locked g (current_cursor h) s =
    (if hb_position g - hb_position h \<le> hb_history_cap h
     then Inr (map (visible_change g s) (drop (length (hb_history g) - (hb_position g - hb_position h))
       (hb_history g)))
     else Inl ErrReset)"
proof -
  obtain cs where cs: "tracks_by cs h g"
    using assms(1) by (auto simp: tracks_def)
  then have grown: "hb_position h \<le> hb_position g" and id: "hb_generation g = hb_generation h"
    "hb_history_cap g = hb_history_cap h" "hb_position g - hb_position h = length cs"
    by (simp_all add: tracks_by_def)
  have window: "hb_base g + length (hb_history g) = hb_position g"
    "length (hb_history g) \<le> hb_history_cap h" "hb_base g > 0 \<longrightarrow> length (hb_history g) = hb_history_cap h"
    using assms(2) id by (simp_all add: window_inv_def)
  have inside: "hb_base g \<le> hb_position h \<longleftrightarrow> hb_position g - hb_position h \<le> hb_history_cap h"
  proof
    assume "hb_base g \<le> hb_position h"
    with window grown show "hb_position g - hb_position h \<le> hb_history_cap h" by linarith
  next
    assume "hb_position g - hb_position h \<le> hb_history_cap h"
    with window grown show "hb_base g \<le> hb_position h"
      by (cases "hb_base g = 0") linarith+
  qed
  show ?thesis
  proof (cases "hb_base g \<le> hb_position h")
    case True
    have "length (hb_history g) - (hb_position g - hb_position h) = hb_position h - hb_base g"
      using window grown True by linarith
    then show ?thesis
      using True inside grown id window_suffix [OF assms(2) True grown]
      by (simp add: changes_since_locked_def current_cursor_def)
  next
    case False
    then show ?thesis
      using inside by (simp add: changes_since_locked_def current_cursor_def)
  qed
qed

lemma tracks_replay:
  assumes "tracks h g" and "window_inv g"
    and "changes_since_locked g (current_cursor h) s = Inr cs"
  shows "fold apply_change cs (view_of h) = view_of g"
proof -
  obtain ds where ds: "tracks_by ds h g"
    using assms(1) by (auto simp: tracks_def)
  then have pos: "hb_position g - hb_position h = length ds"
    and hist: "hb_history g = newest (hb_history_cap h) (hb_history h @ ds)"
    and view: "view_of g = fold apply_change ds (view_of h)"
    by (simp_all add: tracks_by_def)
  have few: "length ds \<le> hb_history_cap h"
    and cs: "cs = map (visible_change g s) (drop (length (hb_history g) - length ds) (hb_history g))"
    using assms(3) unfolding tracks_changes [OF assms(1,2)] pos by (auto split: if_splits)
  have "drop (length (hb_history g) - length ds) (hb_history g) = ds"
    unfolding hist newest_def using few by (cases "length (hb_history h @ ds) \<le> hb_history_cap h") auto
  then show ?thesis
    using cs view by (simp add: fold_visible)
qed

end
