(* ===== verification/LiveFacts.thy ===== *)
theory LiveFacts
  imports LiveChain LiveReplay
begin

text \<open>
  Facts of single operations of a hub: a new hub satisfies every invariant, what becomes of one
  session, one challenge, one inbox, and what a refusal leaves behind.
\<close>

section \<open>A new hub\<close>

lemma new_hub_fields:
  assumes "new_hub L cap key generation = Inr h"
  shows "hb_generation h = ''generation:'' @ hex_encode generation" "hb_history_cap h = cap" "0 < cap"
    "length key = private_key_size" "hb_private_key h = key" "hb_public_key h = ed25519_public L key"
    "hb_position h = 0" "hb_base h = 0" "hb_history h = []" "hb_presence h = []" "hb_convs h = []"
    "hb_about h = []" "hb_participants h = []" "hb_inboxes h = []" "hb_pending h = []"
    "hb_retained_frames h = 0" "hb_retained_bytes h = 0"
  using assms by (auto simp: new_hub_def split: if_splits)

lemma new_hub_inv:
  assumes "new_hub L cap key generation = Inr h"
  shows "hub_inv h" "replay_inv h"
proof -
  note f = new_hub_fields [OF assms]
  have "window_inv h" "held_by {} h" "anchored h" "inboxes_ok h" "counted_frames h" "frame_quota h"
    using f by (simp_all add: window_inv_def held_by_def anchored_def inboxes_ok_def
        counted_frames_def frame_quota_def live_bounds)
  then show inv: "hub_inv h"
    using f by (simp add: hub_inv_def hub_core_def session_quota_def)
  then show "replay_inv h"
    using f by (simp add: replay_inv_def handles_def)
qed

lemma new_hub_chain:
  assumes "new_hub L cap key generation = Inr h" and "length generation = 16"
  shows "chain_inv L h"
proof -
  note f = new_hub_fields [OF assms(1)]
  have "valid_prefixed_hex (hb_generation h) ''generation:'' 16"
    unfolding f(1) by (rule valid_prefixed_hex_encode [OF assms(2)])
  then show ?thesis
    using f by (simp add: chain_inv_def hub_identity_def)
qed

lemma hub_reachable:
  assumes "new_hub L cap key generation = Inr h0" and "list_all hub_fits xs"
  obtains h where "run_steps (hub_step L) h0 xs = Some h" "hub_inv h" "hb_history_cap h = cap"
proof -
  obtain h where run: "run_steps (hub_step L) h0 xs = Some h"
    using hub_machine.run_total [OF new_hub_inv(1) [OF assms(1)] assms(2)] by blast
  have "hub_inv h"
    by (rule hub_machine.run_inv [OF new_hub_inv(1) [OF assms(1)] assms(2) run])
  moreover have "hb_history_cap h = cap"
    using cursor_machine.run_rel [OF _ run] new_hub_fields(2) [OF assms(1)]
    by (simp add: later_cursor_def)
  ultimately show ?thesis
    using that run by blast
qed


section \<open>One session through one operation\<close>

definition bound_as :: "presence_entry \<Rightarrow> hub \<Rightarrow> string \<Rightarrow> bool" where
  "bound_as e h s \<longleftrightarrow>
     (\<exists>e'. map_of (hb_presence h) s = Some e' \<and> pe_actor e' = pe_actor e
        \<and> pe_fingerprint e' = pe_fingerprint e \<and> pe_handle e' = pe_handle e)"

lemma map_of_filter_live:
  assumes "distinct (map fst m)"
  shows "map_of (filter (\<lambda>(s, e). P e) m) s =
    (case map_of m s of None \<Rightarrow> None | Some e \<Rightarrow> if P e then Some e else None)"
  using assms by (induction m) (auto split: option.splits dest: map_of_SomeD simp: rev_image_eqI)

lemma entry_after_expire:
  assumes "env_ok env" and "hub_inv h"
  shows "map_of (hb_presence (expire env h)) s =
    (case map_of (hb_presence h) s of None \<Rightarrow> None
     | Some e \<Rightarrow> if live_at (le_now env) e then Some e else None)"
proof -
  have "distinct (map fst (hb_presence h))"
    using hub_invD(4) [OF assms(2)] by (simp add: held_by_def)
  then show ?thesis
    unfolding expire_hub(2) [OF assms(1) hub_invD(1) [OF assms(2)]] by (rule map_of_filter_live)
qed

lemma bound_announce:
  assumes "hub_inv h" and "bound_as e h s"
    and "\<And>w. map_of (hb_presence h) t = Some w \<Longrightarrow> pe_actor w = actor \<and> pe_fingerprint w = fingerprint"
  shows "bound_as e (snd (announce_for env t actor fingerprint v ttl update h)) s"
proof (cases rule: announce_for_cases [of env t actor fingerprint v ttl update h])
  case (refused x)
  with assms(2) show ?thesis
    by (auto simp: delete_inbox_def bound_as_def split: if_splits)
next
  case (published d activity changed)
  let ?h1 = "if map_of (hb_presence h) t \<noteq> None then h else delete_inbox t h"
  have w1: "window_inv ?h1"
    using hub_invD(3) [OF assms(1)] by (simp add: delete_inbox_def)
  have pres: "hb_presence ?h1 = hb_presence h"
    by (simp add: delete_inbox_def)
  obtain w where w: "map_of (hb_presence h) s = Some w" "pe_actor w = pe_actor e"
    "pe_fingerprint w = pe_fingerprint e" "pe_handle w = pe_handle e"
    using assms(2) by (auto simp: bound_as_def)
  then have "pe_handle w \<noteq> []"
    using hub_invD(2) [OF assms(1)] map_of_SomeD [OF w(1)] by (auto simp: session_quota_def)
  with w assms(3) show ?thesis
    unfolding published(3) snd_apfst bound_as_def publish_presence_fields(2) [OF w1] pres
    by (auto simp: map_of_put entry_of_def)
qed

lemma bound_open_identity:
  assumes "hub_inv h" and "bound_as e h s"
  shows "bound_as e (snd (open_session_identity_locked env actor fingerprint v ttl update h)) s"
proof (cases "fresh_credential h (le_credentials env)")
  case (Inl x)
  with assms(2) show ?thesis by (simp add: open_session_identity_locked_def)
next
  case (Inr c)
  then have "map_of (hb_presence h) c = None"
    by (rule fresh_credential_new)
  then have "bound_as e (snd (announce_for env c actor fingerprint v ttl update h)) s"
    using bound_announce [OF assms, of c actor fingerprint] by simp
  with Inr show ?thesis
    by (auto simp: open_session_identity_locked_def split: prod.splits sum.splits)
qed

lemma bound_end_session:
  assumes "env_ok env" and "hub_inv h" and "bound_as e h s" and "t \<noteq> s"
  shows "bound_as e (end_session env k t x h) s"
  using assms(3,4) hub_core_end_session(2) [OF assms(1) hub_invD(1) [OF assms(2)]]
  by (simp add: bound_as_def map_of_del)

lemma bound_after:
  assumes "env_ok env" and "hub_inv h" and "map_of (hb_presence h) s = Some e"
    and "live_at (le_now env) e" and "op \<noteq> Revoke s" and "op \<noteq> Depart s"
  shows "bound_as e (hub_after L env op h) s"
proof -
  let ?h = "expire env h"
  have inv: "hub_inv ?h"
    using assms(1,2) by (rule hub_inv_expire)
  have here: "bound_as e h s"
    using assms(3) by (simp add: bound_as_def)
  have kept: "bound_as e ?h s"
    using assms(3,4) by (simp add: bound_as_def entry_after_expire [OF assms(1,2)])
  note announced = bound_announce [OF inv kept]
  have used: "hub_inv (?h\<lparr>hb_pending := del k (hb_pending ?h)\<rparr>)" for k
    using inv
    by (intro pending_change) (simp_all add: hub_inv_def session_quota_def distinct_del length_del_le)
  show ?thesis
  proof (cases op)
    case (OpenTrusted actor key v ttl u)
    then show ?thesis
      using here bound_open_identity [OF inv kept] by (simp add: open_trusted_session_def split: sum.split)
  next
    case (Prepare actor key v ttl u)
    have "bound_as e (?h\<lparr>hb_pending := qs\<rparr>) s" for qs
      using kept by (simp add: bound_as_def)
    then show ?thesis
      using Prepare here kept by (simp add: prepare_session_def Let_def split: sum.split prod.split)
  next
    case (OpenPrepared c signature)
    have first: "bound_as e (?h\<lparr>hb_pending := qs\<rparr>) s" for qs
      using kept by (simp add: bound_as_def)
    then show ?thesis
      using OpenPrepared kept bound_open_identity [OF used first]
      by (simp add: open_session_def Let_def split: sum.split option.split)
  next
    case (Announce t actor fingerprint v ttl u)
    then show ?thesis
      using here kept announced [of t actor fingerprint]
      by (cases "map_of (hb_presence ?h) t") (simp_all add: announce_session_identity_def Let_def)
  next
    case (Renew t actor key v ttl u)
    then show ?thesis
      using here kept announced [of t actor]
      by (cases "map_of (hb_presence ?h) t")
        (simp_all add: renew_session_def renew_session_identity_def Let_def split: sum.split)
  next
    case (Revoke t)
    with assms(5) have "t \<noteq> s" by simp
    then show ?thesis
      using Revoke kept bound_end_session [OF assms(1) inv kept]
        hub_inv_forget_all [OF assms(1) hub_inv_end_session [OF assms(1) inv]]
      by (simp add: revoke_session_def Let_def split: option.split)
  next
    case (Depart t)
    with assms(6) have "t \<noteq> s" by simp
    then show ?thesis
      using Depart bound_end_session [OF assms(1,2) here]
        hub_inv_forget_all [OF assms(1) hub_inv_end_session [OF assms(1,2)]]
      by (simp add: depart_def Let_def)
  next
    case (EnableInbox t)
    have "bound_as e (?h\<lparr>hb_presence := put t (w\<lparr>pe_inbox := True\<rparr>) (hb_presence ?h)\<rparr>) s"
      if "map_of (hb_presence ?h) t = Some w" for w
      using kept that by (auto simp: bound_as_def map_of_put)
    then show ?thesis
      using EnableInbox kept by (simp add: enable_inbox_def Let_def split: option.split)
  next
    case (SubmitFrame t x)
    then show ?thesis
      using kept hub_inv_submit_frame(2) [OF inv, of L t x]
      by (simp add: submit_frame_for_session_def bound_as_def)
  next
    case (SubmitMessage t x)
    show ?thesis
    proof (cases rule: submit_message_cases [of L env t x h])
      case (delivered f m g members receivers)
      then show ?thesis
        using SubmitMessage kept hub_inv_submit_frame(2) [OF inv, of L t x]
        by (simp add: bound_as_def deliver_presence)
    qed (use SubmitMessage kept in simp_all)
  next
    case (Acknowledge t hs)
    have "bound_as e (?h\<lparr>hb_inboxes := bs\<rparr>) s" for bs
      using kept by (simp add: bound_as_def)
    then show ?thesis
      using Acknowledge kept by (simp add: acknowledge_def Let_def split: option.split)
  qed (use kept in \<open>simp_all add: prepare_frame_for_session_def prepare_message_for_session_def Let_def\<close>)
qed


section \<open>A challenge is used once\<close>

definition prepares :: "hub_op \<Rightarrow> bool" where
  "prepares op \<longleftrightarrow> (case op of Prepare _ _ _ _ _ \<Rightarrow> True | _ \<Rightarrow> False)"

lemma used_challenge:
  assumes "session_challenge_key L c = Inr key"
  shows "key \<notin> fst ` set (hb_pending (snd (open_session L env c signature h)))"
proof -
  let ?h = "expire env h"
  let ?g = "?h\<lparr>hb_pending := del key (hb_pending ?h)\<rparr>"
  have "fewer_pending ?g (snd (open_session_identity_locked env a f v t u ?g))" for a f v t u
    by (rule fewer_challenges.opened_identity)
  then have "key \<notin> fst ` set (hb_pending (snd (open_session_identity_locked env a f v t u ?g)))"
    for a f v t u by (fastforce simp: fewer_pending_def keys_del)
  then show ?thesis
    using assms in_keys_iff [of key "hb_pending ?h"]
    by (auto simp: open_session_def Let_def keys_del split: sum.split option.split)
qed

lemma pending_run:
  assumes "run_steps (hub_step L) h xs = Some g" and "list_all (\<lambda>x. \<not> prepares (snd x)) xs"
  shows "fewer_pending h g"
  using assms
proof (induction xs arbitrary: h)
  case Nil
  then show ?case by (simp add: fewer_challenges.refl)
next
  case (Cons x xs)
  obtain env op where x: "x = (env, op)"
    by (cases x)
  have "fewer_pending h (hub_after L env op h)"
    by (rule fewer_challenges.any_operation) (use Cons.prems(2) x in \<open>auto simp: prepares_def\<close>)
  moreover have "fewer_pending (hub_after L env op h) g"
    using Cons x by (simp add: hub_step_def)
  ultimately show ?case
    by (rule fewer_challenges.trans)
qed

lemma unknown_challenge:
  assumes "session_challenge_key L c = Inr key" and "key \<notin> fst ` set (hb_pending h)"
  shows "fst (open_session L env c signature h) = Inl (SessionError ChallengeInvalid)"
proof -
  have "fewer_pending h (expire env h)"
    by (rule fewer_challenges.expired)
  with assms(2) have "map_of (hb_pending (expire env h)) key = None"
    by (auto simp: fewer_pending_def map_of_eq_None_iff)
  with assms(1) show ?thesis
    by (simp add: open_session_def Let_def)
qed

section \<open>Expiry when nothing has expired\<close>

lemma expire_idle:
  assumes "env_ok env" and "hub_inv h" and "\<forall>(s, e) \<in> set (hb_presence h). live_at (le_now env) e"
    and "\<forall>(k, p) \<in> set (hb_pending h). ps_expires p > le_now env"
  shows "expire env h = h"
proof -
  have "filter (\<lambda>(k, p). ps_expires p > le_now env) (hb_pending h) = hb_pending h"
    using assms(4) by (simp add: filter_id_conv)
  moreover have "expire_session env s h = h" for s
    using assms(3) by (auto simp: expire_session_def live_at_def split: option.split dest: map_of_SomeD)
  then have "fold (expire_session env) ss h = h" for ss
    by (induction ss) simp_all
  ultimately show ?thesis
    using hub_inv_forget_all [OF assms(1,2)] by (simp add: expire_def Let_def)
qed

lemma expired_live:
  assumes "env_ok env" and "hub_inv h"
  shows "\<forall>(s, e) \<in> set (hb_presence (expire env h)). live_at (le_now env) e"
    and "\<forall>(k, p) \<in> set (hb_pending (expire env h)). ps_expires p > le_now env"
  using expire_hub(2,3) [OF assms(1) hub_invD(1) [OF assms(2)]] by auto

section \<open>Inboxes\<close>

definition inbox_of :: "hub \<Rightarrow> string \<Rightarrow> frame_ref list" where
  "inbox_of h s = (case map_of (hb_inboxes h) s of None \<Rightarrow> [] | Some refs \<Rightarrow> refs)"

lemma inbox_add:
  "set (inbox_of (add_inbox r s h) t) = (if t = s then insert r (set (inbox_of h t)) else set (inbox_of h t))"
  unfolding add_inbox_def Let_def inbox_of_def by (auto simp: map_of_put split: option.splits)

lemma inbox_fold_add:
  "set (inbox_of (fold (add_inbox r) ss h) t)
    = (if t \<in> set ss then insert r (set (inbox_of h t)) else set (inbox_of h t))"
proof (induction ss arbitrary: h)
  case (Cons s ss)
  show ?case
    unfolding fold_Cons comp_apply Cons.IH inbox_add by auto
qed simp

lemma inbox_deliver:
  "set (inbox_of (deliver L f m members receivers h) t)
    = (if t \<in> set receivers then insert (fr_conversation f, fr_sequence f) (set (inbox_of h t))
       else set (inbox_of h t))"
proof -
  have "hb_inboxes (fold (add_participant i) ss g) = hb_inboxes g" for i ss g
    by (induction ss arbitrary: g) simp_all
  then have "inbox_of (fold (add_participant i) ss (g\<lparr>hb_history := cs\<rparr>)) t = inbox_of g t" for i ss g cs
    by (simp add: inbox_of_def)
  then show ?thesis
    unfolding deliver_def Let_def inbox_fold_add by simp
qed

text \<open>A published frame takes the next sequence of its conversation: no inbox held it.\<close>

lemma new_reference:
  assumes "hub_inv h" and "submit_frame_locked L session s h = (Inr f, g)"
  shows "\<not> retained_in h (fr_conversation f, fr_sequence f)"
    and "fr_payload f = dr_payload (sb_draft s)" and "fr_conversation f = dr_conversation (sb_draft s)"
proof -
  have "\<not> retained_in h (fr_conversation f, fr_sequence f) \<and> fr_payload f = dr_payload (sb_draft s)
    \<and> fr_conversation f = dr_conversation (sb_draft s)"
  proof (cases rule: submit_frame_cases [of L session s h])
    case (refused e)
    with assms(2) show ?thesis by simp
  next
    case (published current f' digest)
    have f: "f' = f"
      using published(7) assms(2) by simp
    note fields = built_frame [OF published(6), unfolded f]
    have "\<not> retained_in h (fr_conversation f, fr_sequence f)"
    proof (cases current)
      case None
      then show ?thesis
        using validate_draft_new(1) [OF published(4) [unfolded None]] fields(1)
        by (simp add: retained_in_def actor_body_def)
    next
      case (Some c)
      have c: "map_of (hb_convs h) (dr_conversation (sb_draft s)) = Some c"
        using validate_draft_known(1) published(4) [unfolded Some] .
      then have "cv_next c = length (cv_frames c)"
        using hub_invD(8) [OF assms(1)] by (simp add: frame_quota_def)
      with c Some show ?thesis
        using fields(1,3) by (simp add: retained_in_def actor_body_def)
    qed
    with fields(1,2) show ?thesis
      by (simp add: actor_body_def)
  qed
  then show "\<not> retained_in h (fr_conversation f, fr_sequence f)"
    "fr_payload f = dr_payload (sb_draft s)" "fr_conversation f = dr_conversation (sb_draft s)"
    by blast+
qed

lemma inbox_retained:
  "hub_inv h \<Longrightarrow> r \<in> set (inbox_of h t) \<Longrightarrow> retained_in h r"
  using hub_invD(6) by (fastforce simp: inboxes_ok_def inbox_of_def split: option.splits)


lemma put_id: "map_of m k = Some v \<Longrightarrow> put k v m = m"
  by (induction m) auto

lemma acknowledge_again:
  assumes "env_ok env" and "hub_inv h" and "acknowledge env s hs h = (Inr n, g)"
  shows "acknowledge env s hs g = (Inr 0, g)"
    and "inbox_of g s = filter (\<lambda>(c, k). thread_handle c k \<notin> set hs) (inbox_of (expire env h) s)"
    and "n = length (inbox_of (expire env h) s) - length (inbox_of g s)"
    and "t \<noteq> s \<Longrightarrow> inbox_of g t = inbox_of (expire env h) t"
proof -
  let ?h = "expire env h"
  have here: "map_of (hb_presence ?h) s \<noteq> None" "length hs \<le> max_inbox_frames"
    "first_handle_error hs = None"
    using assms(3) by (auto simp: acknowledge_def Let_def split: if_splits option.splits)
  have inv: "hub_inv g"
    using hub_inv_acknowledge [OF assms(1,2), of s hs] assms(3) by simp
  have pres: "hb_presence g = hb_presence ?h" "hb_pending g = hb_pending ?h"
    using assms(3) here by (auto simp: acknowledge_def Let_def split: if_splits option.splits)
  have idle: "expire env g = g"
    using expired_live [OF assms(1,2)] by (intro expire_idle [OF assms(1) inv]) (simp_all add: pres)
  have all: "acknowledge env s hs g = (Inr 0, g)
    \<and> inbox_of g s = filter (\<lambda>(c, k). thread_handle c k \<notin> set hs) (inbox_of ?h s)
    \<and> n = length (inbox_of ?h s) - length (inbox_of g s) \<and> (t \<noteq> s \<longrightarrow> inbox_of g t = inbox_of ?h t)"
  proof (cases "map_of (hb_inboxes ?h) s")
    case None
    with assms(3) here have "g = ?h" "n = 0"
      by (auto simp: acknowledge_def Let_def)
    with None here idle show ?thesis
      by (simp add: acknowledge_def Let_def inbox_of_def)
  next
    case (Some refs)
    let ?kept = "filter (\<lambda>(c, k). thread_handle c k \<notin> set hs) refs"
    have g: "g = ?h\<lparr>hb_inboxes := put s ?kept (hb_inboxes ?h)\<rparr>" and n: "n = length refs - length ?kept"
      using assms(3) here Some by (auto simp: acknowledge_def Let_def)
    have box: "map_of (hb_inboxes g) s = Some ?kept"
      by (simp add: g map_of_put)
    have "acknowledge env s hs g = (Inr 0, g\<lparr>hb_inboxes := put s ?kept (hb_inboxes g)\<rparr>)"
      using here pres box by (simp add: acknowledge_def Let_def idle)
    then show ?thesis
      using box n Some by (simp add: put_id inbox_of_def g map_of_put)
  qed
  show "acknowledge env s hs g = (Inr 0, g)"
    "inbox_of g s = filter (\<lambda>(c, k). thread_handle c k \<notin> set hs) (inbox_of ?h s)"
    "n = length (inbox_of ?h s) - length (inbox_of g s)"
    "t \<noteq> s \<Longrightarrow> inbox_of g t = inbox_of ?h t"
    using all by blast+
qed

section \<open>Refusals\<close>

lemma no_inbox_of_absent:
  assumes "inboxes_ok h" and "map_of (hb_presence h) s = None"
  shows "delete_inbox s h = h"
proof -
  have "map_of (hb_inboxes h) s = None"
    using assms in_keys_iff [of s "hb_presence h"] unfolding inboxes_ok_def
    by (cases "map_of (hb_inboxes h) s") auto
  then have "del s (hb_inboxes h) = hb_inboxes h"
    by (force simp: del_def filter_id_conv map_of_eq_None_iff)
  then show ?thesis
    by (simp add: delete_inbox_def)
qed

text \<open>The hub with the presented challenge used up, if it was pending.\<close>

definition without_challenge :: "('l) live_lib_scheme \<Rightarrow> session_challenge \<Rightarrow> hub \<Rightarrow> hub" where
  "without_challenge L c h =
     (case session_challenge_key L c of
        Inl e \<Rightarrow> h
      | Inr key \<Rightarrow> h\<lparr>hb_pending := del key (hb_pending h)\<rparr>)"

lemma refused_announce:
  assumes "hub_inv h" and "fst (announce_for env s actor fingerprint v ttl update h) = Inl e"
  shows "snd (announce_for env s actor fingerprint v ttl update h) = h"
proof (cases rule: announce_for_cases [of env s actor fingerprint v ttl update h])
  case (refused e)
  then show ?thesis
    using no_inbox_of_absent [OF hub_invD(6) [OF assms(1)], of s] by (auto split: if_splits)
next
  case (published d activity changed)
  with assms(2) show ?thesis by simp
qed

lemma refused_open_identity:
  assumes "hub_inv h"
    and "fst (open_session_identity_locked env actor fingerprint v ttl update h) = Inl e"
  shows "snd (open_session_identity_locked env actor fingerprint v ttl update h) = h"
proof (cases "fresh_credential h (le_credentials env)")
  case (Inl x)
  then show ?thesis by (simp add: open_session_identity_locked_def)
next
  case (Inr c)
  obtain r g where a: "announce_for env c actor fingerprint v ttl update h = (r, g)"
    by (rule prod.exhaust)
  with Inr assms(2) refused_announce [OF assms(1), of env c actor fingerprint v ttl update] show ?thesis
    by (cases r) (auto simp: open_session_identity_locked_def)
qed

text \<open>A refused request is judged before the lock is taken, or the hub is as expiry leaves it.\<close>

lemma refused_opening:
  assumes "env_ok env" and "hub_inv h"
  shows "isl (fst (open_trusted_session L env actor key v ttl update h)) \<Longrightarrow>
      snd (open_trusted_session L env actor key v ttl update h)
        = (if isl (checked_fingerprint L key) then h else expire env h)"
    and "isl (fst (prepare_session L env actor key v ttl update h)) \<Longrightarrow>
      snd (prepare_session L env actor key v ttl update h)
        = (if isl (checked_fingerprint L key) \<or> isl (normalize_lease actor v ttl)
              \<or> isl (normalize_activity no_activity update False) then h else expire env h)"
    and "isl (fst (open_session L env c signature h)) \<Longrightarrow>
      snd (open_session L env c signature h) = without_challenge L c (expire env h)"
proof -
  let ?h = "expire env h"
  have inv: "hub_inv ?h"
    using assms by (rule hub_inv_expire)
  have used: "hub_inv (?h\<lparr>hb_pending := del k (hb_pending ?h)\<rparr>)" for k
    using inv
    by (intro pending_change) (simp_all add: hub_inv_def session_quota_def distinct_del length_del_le)
  have reopened: "snd (open_session_identity_locked env a f v t u g) = g"
    if "hub_inv g" and "isl (fst (open_session_identity_locked env a f v t u g))" for a f v t u g
    using refused_open_identity [OF that(1)] that(2) by (auto simp: isl_def)
  show "snd (open_trusted_session L env actor key v ttl update h) = (if isl (checked_fingerprint L key) then h else ?h)"
    if "isl (fst (open_trusted_session L env actor key v ttl update h))"
    using that reopened [OF inv] by (auto simp: open_trusted_session_def split: sum.splits)
  show "snd (prepare_session L env actor key v ttl update h)
      = (if isl (checked_fingerprint L key) \<or> isl (normalize_lease actor v ttl)
            \<or> isl (normalize_activity no_activity update False) then h else ?h)"
    if "isl (fst (prepare_session L env actor key v ttl update h))"
    using that by (auto simp: prepare_session_def Let_def split: sum.splits prod.splits if_splits)
  show "snd (open_session L env c signature h) = without_challenge L c ?h"
    if "isl (fst (open_session L env c signature h))"
  proof (cases "session_challenge_key L c")
    case (Inl e)
    then show ?thesis by (simp add: open_session_def without_challenge_def Let_def)
  next
    case (Inr key)
    show ?thesis
    proof (cases "map_of (hb_pending ?h) key")
      case None
      then have "del key (hb_pending ?h) = hb_pending ?h"
        by (force simp: del_def filter_id_conv map_of_eq_None_iff)
      with None Inr show ?thesis by (simp add: open_session_def without_challenge_def Let_def)
    next
      case (Some p)
      then show ?thesis
        using that Inr reopened [OF used, where a = "ps_actor p" and f = "ps_fingerprint p"
            and v = "ps_value p" and t = "ps_ttl p" and u = "activity_update_from (ps_activity p)"]
        by (simp add: open_session_def without_challenge_def Let_def split: sum.splits if_splits)
    qed
  qed
qed

lemma refused_session:
  assumes "env_ok env" and "hub_inv h"
  shows "isl (fst (renew_session L env s actor key v ttl update h)) \<Longrightarrow>
      snd (renew_session L env s actor key v ttl update h)
        = (if isl (checked_fingerprint L key) then h else expire env h)"
    and "isl (fst (enable_inbox env s h)) \<Longrightarrow> snd (enable_inbox env s h) = expire env h"
    and "isl (fst (revoke_session env s h)) \<Longrightarrow> snd (revoke_session env s h) = expire env h"
proof -
  let ?h = "expire env h"
  have announced: "snd (announce_for env s a f v t u ?h) = ?h"
    if "isl (fst (announce_for env s a f v t u ?h))" for a f v t u
    using refused_announce [OF hub_inv_expire [OF assms]] that by (auto simp: isl_def)
  show "snd (renew_session L env s actor key v ttl update h) = (if isl (checked_fingerprint L key) then h else ?h)"
    if "isl (fst (renew_session L env s actor key v ttl update h))"
    using that announced
    by (auto simp: renew_session_def renew_session_identity_def Let_def
        split: sum.splits option.splits if_splits)
  show "snd (enable_inbox env s h) = ?h" if "isl (fst (enable_inbox env s h))"
    using that by (auto simp: enable_inbox_def Let_def split: option.splits)
  show "snd (revoke_session env s h) = ?h" if "isl (fst (revoke_session env s h))"
    using that by (auto simp: revoke_session_def Let_def split: option.splits if_splits)
qed

lemma refused_frame:
  shows "isl (fst (submit_frame_for_session L env s x h)) \<Longrightarrow>
      snd (submit_frame_for_session L env s x h) = expire env h"
    and "isl (fst (submit_message_for_session L env s x h)) \<Longrightarrow>
      snd (submit_message_for_session L env s x h) = expire env h"
    and "isl (fst (acknowledge env s hs h)) \<Longrightarrow> snd (acknowledge env s hs h) = expire env h"
proof -
  show "snd (submit_frame_for_session L env s x h) = expire env h"
    if "isl (fst (submit_frame_for_session L env s x h))"
    using that unfolding submit_frame_for_session_def
    by (cases rule: submit_frame_cases [of L s x "expire env h"]) simp_all
  show "snd (submit_message_for_session L env s x h) = expire env h"
    if "isl (fst (submit_message_for_session L env s x h))"
    using that by (cases rule: submit_message_cases [of L env s x h]) simp_all
  show "snd (acknowledge env s hs h) = expire env h" if "isl (fst (acknowledge env s hs h))"
    using that by (auto simp: acknowledge_def Let_def split: option.splits if_splits)
qed

section \<open>Thread handles\<close>

lemma last_index_append:
  assumes "c \<notin> set t"
  shows "last_index c (s @ c # t) = Some (length s)"
proof -
  have "last_index c t = None"
    using assms by (induction t) (auto split: option.splits)
  then show ?thesis
    by (induction s) simp_all
qed

lemma colon_not_digit: "CHR '':'' \<notin> set (format_uint n)"
  using format_uint_digits [of "CHR '':''" n] by auto

lemma parse_handle_iff:
  "parse_thread_handle t = Inr (c, n) \<longleftrightarrow>
     t = thread_handle c n \<and> c \<noteq> [] \<and> length t \<le> max_message_id_bytes \<and> n < 2 ^ 64"
proof
  assume p: "parse_thread_handle t = Inr (c, n)"
  then obtain i where i: "last_index (CHR '':'') t = Some i" "i \<noteq> 0" "length t \<le> max_message_id_bytes"
    "parse_uint (drop (Suc i) t) = Some n" "format_uint n = drop (Suc i) t" "take i t = c"
    by (auto simp: parse_thread_handle_def split: if_splits option.splits)
  then have at: "i < length t" "t ! i = CHR '':''"
    using last_index_bound by blast+
  have "t = take i t @ t ! i # drop (Suc i) t"
    using at(1) by (simp add: id_take_nth_drop [symmetric])
  then have "t = thread_handle c n"
    using i at by (simp add: thread_handle_def)
  moreover have "c \<noteq> []"
    using i at by auto
  moreover have "n < 2 ^ 64"
    using i(4) by (auto simp: parse_uint_def split: if_splits option.splits)
  ultimately show "t = thread_handle c n \<and> c \<noteq> [] \<and> length t \<le> max_message_id_bytes \<and> n < 2 ^ 64"
    using i(3) by simp
next
  assume t: "t = thread_handle c n \<and> c \<noteq> [] \<and> length t \<le> max_message_id_bytes \<and> n < 2 ^ 64"
  then have "last_index (CHR '':'') t = Some (length c)"
    using last_index_append [OF colon_not_digit, of c n] by (simp add: thread_handle_def)
  with t show "parse_thread_handle t = Inr (c, n)"
    by (auto simp: parse_thread_handle_def thread_handle_def parse_format_uint)
qed

end
