(* ===== verification/LiveDemo.thy ===== *)
theory LiveDemo
  imports LiveFacts
begin

text \<open>
  A hub at work: two people have sessions, one has an inbox and receives a message from the other.
  The cryptography and the encodings of this hub are small functions that satisfy what the theorems
  ask of them. The witnesses of the theorems about the hub use these states.
\<close>

section \<open>A library that behaves\<close>

definition demo_mark :: bytes where "demo_mark = replicate 32 (char_of (1 :: nat))"

definition demo_key :: "char \<Rightarrow> bytes" where "demo_key c = replicate 32 c"

definition demo_digest :: "bytes \<Rightarrow> bytes" where
  "demo_digest m = take 32 (m @ replicate 32 (CHR ''0''))"

definition demo_generation :: string where
  "demo_generation = ''generation:'' @ hex_encode (replicate 16 (CHR ''g''))"

definition demo_read_genesis :: "bytes \<Rightarrow> conversation_genesis option" where
  "demo_read_genesis raw =
     Some \<lparr>cg_version = 1, cg_generation = demo_generation, cg_nexus_key = drop 32 raw,
           cg_scope = ''issue:1'', cg_nonce = take 32 raw\<rparr>"

definition demo_read_message :: "bytes \<Rightarrow> message option" where
  "demo_read_message b =
     Some \<lparr>ms_about = ''issue:1'', ms_text = b, ms_re = [],
           ms_recipients = [hex_encode (demo_digest (demo_key (CHR ''b'')))]\<rparr>"

definition demo_lib :: live_lib where
  "demo_lib =
     \<lparr>ed25519_verify = (\<lambda>key m s. s = key @ demo_mark),
      ed25519_sign = (\<lambda>key m. take 32 key @ demo_mark),
      ed25519_public = take 32, sha256 = demo_digest,
      cbor_session = (\<lambda>c. Some (sc_nonce c @ sc_actor_key c)),
      cbor_actor_body = (\<lambda>b. Some (ab_conversation b @ ab_payload b)),
      cbor_nexus_body = (\<lambda>b. Some (nb_actor_key b @ ab_payload (nb_actor_body b))),
      cbor_frame = (\<lambda>f. Some (fr_previous f @ fr_payload f)),
      cbor_genesis = (\<lambda>g. Some (cg_nonce g @ cg_nexus_key g)),
      cbor_read_genesis = demo_read_genesis,
      json_message = (\<lambda>m. Some (ms_text m)), json_read_message = demo_read_message\<rparr>"

lemma demo_lib_fields [simp]:
  "ed25519_verify demo_lib key m s \<longleftrightarrow> s = key @ demo_mark"
  "ed25519_sign demo_lib k m = take 32 k @ demo_mark"
  "ed25519_public demo_lib = take 32" "sha256 demo_lib = demo_digest"
  "cbor_session demo_lib c = Some (sc_nonce c @ sc_actor_key c)"
  "cbor_actor_body demo_lib b = Some (ab_conversation b @ ab_payload b)"
  "cbor_nexus_body demo_lib n = Some (nb_actor_key n @ ab_payload (nb_actor_body n))"
  "cbor_frame demo_lib f = Some (fr_previous f @ fr_payload f)"
  "cbor_genesis demo_lib g = Some (cg_nonce g @ cg_nexus_key g)"
  "cbor_read_genesis demo_lib = demo_read_genesis"
  "json_message demo_lib ms = Some (ms_text ms)" "json_read_message demo_lib = demo_read_message"
  by (simp_all add: demo_lib_def)

lemma demo_sizes [simp]:
  "length demo_mark = 32" "length (demo_key c) = 32" "length (demo_digest m) = 32"
  "length demo_generation = 43"
  by (simp_all add: demo_mark_def demo_key_def demo_digest_def demo_generation_def min_def)

lemma demo_crypto: "crypto_ok demo_lib"
  by (simp add: crypto_ok_def crypto_sizes)

section \<open>Two sessions\<close>

definition demo_env :: "int \<Rightarrow> char \<Rightarrow> live_env" where
  "demo_env now c =
     \<lparr>le_now = now, le_handle = Some (replicate 16 c), le_credentials = [replicate 32 c],
      le_nonces = [replicate 32 c], le_arrange = (\<lambda>ks. ks)\<rparr>"

lemma demo_env_fields [simp]:
  "env_ok (demo_env now c)" "hub_fits (demo_env now c, op)" "le_now (demo_env now c) = now"
  "le_arrange (demo_env now c) ks = ks" "le_handle (demo_env now c) = Some (replicate 16 c)"
  "le_credentials (demo_env now c) = [replicate 32 c]" "le_nonces (demo_env now c) = [replicate 32 c]"
  by (simp_all add: env_ok_def demo_env_def hub_fits_def)

definition demo_fingerprint :: "char \<Rightarrow> string" where
  "demo_fingerprint c = hex_encode (demo_digest (demo_key c))"

definition demo_session :: "string \<Rightarrow> char \<Rightarrow> bool \<Rightarrow> presence_entry" where
  "demo_session name c inbox =
     \<lparr>pe_value = ''here'', pe_actor = name, pe_fingerprint = demo_fingerprint c, pe_inbox = inbox,
      pe_handle = mint_handle (replicate 16 c), pe_activity = no_activity\<lparr>ac_status := ActivityAvailable\<rparr>,
      pe_expires = 100, pe_changed_at = Some 0\<rparr>"

definition demo_new_hub :: hub where
  "demo_new_hub =
     \<lparr>hb_generation = demo_generation, hb_position = 0, hb_base = 0, hb_history_cap = 8,
      hb_history = [], hb_presence = [], hb_convs = [], hb_about = [], hb_participants = [],
      hb_inboxes = [], hb_pending = [], hb_public_key = demo_key (CHR ''k''),
      hb_private_key = replicate 64 (CHR ''k''), hb_retained_frames = 0, hb_retained_bytes = 0\<rparr>"

lemma demo_new: "new_hub demo_lib 8 (replicate 64 (CHR ''k'')) (replicate 16 (CHR ''g'')) = Inr demo_new_hub"
  by (simp add: new_hub_def demo_new_hub_def demo_generation_def demo_key_def private_key_size_def)

lemma demo_new_hub_fields [simp]:
  "hb_presence demo_new_hub = []" "hb_convs demo_new_hub = []" "hb_about demo_new_hub = []"
  "hb_pending demo_new_hub = []" "hb_inboxes demo_new_hub = []" "hb_history demo_new_hub = []"
  "hb_history_cap demo_new_hub = 8" "hb_generation demo_new_hub = demo_generation"
  "hb_public_key demo_new_hub = demo_key (CHR ''k'')" "hb_position demo_new_hub = 0"
  "hb_private_key demo_new_hub = replicate 64 (CHR ''k'')" "hb_retained_frames demo_new_hub = 0"
  "hb_retained_bytes demo_new_hub = 0"
  by (simp_all add: demo_new_hub_def)

definition demo_hub :: hub where
  "demo_hub = demo_new_hub
     \<lparr>hb_presence := [(''alice'', demo_session ''alice'' (CHR ''a'') False),
                      (''bob'', demo_session ''bob'' (CHR ''b'') True)]\<rparr>"

lemma demo_presence [simp]:
  "hb_presence demo_hub = [(''alice'', demo_session ''alice'' (CHR ''a'') False),
     (''bob'', demo_session ''bob'' (CHR ''b'') True)]"
  by (simp add: demo_hub_def)

lemma demo_hub_fields [simp]:
  "hb_generation demo_hub = demo_generation" "hb_convs demo_hub = []" "hb_about demo_hub = []"
  "hb_inboxes demo_hub = []" "hb_public_key demo_hub = demo_key (CHR ''k'')"
  "hb_private_key demo_hub = replicate 64 (CHR ''k'')" "hb_retained_frames demo_hub = 0"
  "hb_retained_bytes demo_hub = 0" "hb_pending demo_hub = []"
  by (simp_all add: demo_hub_def demo_new_hub_def)

lemma demo_fingerprints: "demo_fingerprint c \<noteq> []" "demo_fingerprint (CHR ''a'') \<noteq> demo_fingerprint (CHR ''b'')"
  by (simp_all add: demo_fingerprint_def demo_digest_def demo_key_def flip: length_0_conv)

lemma demo_inv: "hub_inv demo_hub"
proof -
  have "hub_inv demo_new_hub"
    by (rule new_hub_inv(1) [OF demo_new])
  then have core: "hub_core {} demo_new_hub"
    by (rule hub_invD)
  have "held_by {} demo_hub" "inboxes_ok demo_hub"
    by (simp_all add: held_by_def inboxes_ok_def demo_hub_def demo_new_hub_def)
  then have "hub_core {} demo_hub"
    using core by (simp add: hub_core_def demo_hub_def)
  moreover have "session_quota demo_hub"
    by (simp add: session_quota_def live_bounds demo_hub_def demo_new_hub_def demo_session_def
        mint_handle_def same_holder_def)
  ultimately show ?thesis
    by (simp add: hub_inv_def)
qed

lemma demo_idle: "now < 100 \<Longrightarrow> expire (demo_env now c) demo_hub = demo_hub"
  by (rule expire_idle [OF _ demo_inv])
    (simp_all add: live_at_def demo_session_def)

section \<open>A message\<close>

definition demo_genesis :: bytes where
  "demo_genesis = replicate 32 (CHR ''n'') @ demo_key (CHR ''k'')"

definition demo_submission :: submission where
  "demo_submission =
     \<lparr>sb_draft = \<lparr>dr_scope = ''issue:1'', dr_version = 0, dr_generation = demo_generation,
        dr_genesis = demo_genesis, dr_conversation = conversation_id demo_lib demo_genesis,
        dr_sequence = 0, dr_previous = [], dr_payload = ''please look''\<rparr>,
      sb_actor_key = demo_key (CHR ''a''), sb_actor_signature = demo_key (CHR ''a'') @ demo_mark\<rparr>"

lemma demo_submission_fields [simp]:
  "dr_scope (sb_draft demo_submission) = ''issue:1''"
  "dr_version (sb_draft demo_submission) = 0"
  "dr_generation (sb_draft demo_submission) = demo_generation"
  "dr_genesis (sb_draft demo_submission) = demo_genesis"
  "dr_conversation (sb_draft demo_submission) = conversation_id demo_lib demo_genesis"
  "dr_sequence (sb_draft demo_submission) = 0" "dr_previous (sb_draft demo_submission) = []"
  "dr_payload (sb_draft demo_submission) = ''please look''"
  "sb_actor_key demo_submission = demo_key (CHR ''a'')"
  "sb_actor_signature demo_submission = demo_key (CHR ''a'') @ demo_mark"
  by (simp_all add: demo_submission_def)

lemma demo_sent:
  "\<exists>f g. submit_message_for_session demo_lib (demo_env 3 (CHR ''D'')) ''alice'' demo_submission demo_hub
     = (Inr f, g)"
proof -
  have holds: "session_holds_key demo_lib demo_hub ''alice'' (demo_key (CHR ''a''))"
    using demo_fingerprints(1) [of "CHR ''a''"]
    by (simp add: session_holds_key_def demo_session_def checked_fingerprint_def actor_fingerprint_def
        demo_fingerprint_def public_key_size_def)
  have checked: "check_message demo_lib demo_hub demo_submission
      = Inr \<lparr>ms_about = ''issue:1'', ms_text = ''please look'', ms_re = [],
             ms_recipients = [demo_fingerprint (CHR ''b'')]\<rparr>"
    by (simp add: check_message_def demo_read_message_def validate_message_def
        valid_scope_def live_bounds normalize_recipients_def valid_actor_fingerprint_def
        actor_fingerprint_length_def sha256_size_def demo_fingerprint_def)
  have draft: "validate_draft demo_lib demo_hub (sb_draft demo_submission) = Inr None"
    by (simp add: validate_draft_def decode_conversation_genesis_def
        demo_read_genesis_def demo_genesis_def valid_scope_def live_bounds about_of_def)
  show ?thesis
    using holds checked draft
    by (simp add: submit_message_for_session_def demo_idle submit_frame_locked_def
        can_enqueue_def list_ex_iff signature_size_def can_publish_def live_bounds
        verify_bytes_def build_signed_frame_def actor_body_def opened_def sign_issuer_bytes_def
        frame_hash_def Let_def)
qed


section \<open>A conversation reached from a new hub\<close>

definition demo_opening :: "live_env \<times> hub_op" where
  "demo_opening =
     (demo_env 0 (CHR ''A''), OpenTrusted ''alice'' (demo_key (CHR ''a'')) ''here'' 0 no_update)"

definition demo_run :: "(live_env \<times> hub_op) list" where
  "demo_run = [demo_opening, (demo_env 3 (CHR ''D''),
     SubmitFrame (mint_credential (replicate 32 (CHR ''A''))) demo_submission)]"

lemma demo_run_fits: "list_all hub_fits demo_run"
  by (simp add: demo_run_def demo_opening_def)

definition demo_opened :: hub where
  "demo_opened = hub_after demo_lib (fst demo_opening) (snd demo_opening) demo_new_hub"

lemma demo_opened_fields:
  "hb_presence demo_opened = [(mint_credential (replicate 32 (CHR ''A'')),
     \<lparr>pe_value = ''here'', pe_actor = ''alice'', pe_fingerprint = demo_fingerprint (CHR ''a''),
      pe_inbox = False, pe_handle = mint_handle (replicate 16 (CHR ''A'')),
      pe_activity = \<lparr>ac_status = ActivityAvailable, ac_focus = [], ac_note = []\<rparr>,
      pe_expires = default_session_ttl, pe_changed_at = Some 0\<rparr>)]
   \<and> hb_convs demo_opened = [] \<and> hb_about demo_opened = [] \<and> hb_pending demo_opened = []
   \<and> hb_generation demo_opened = demo_generation
   \<and> hb_public_key demo_opened = demo_key (CHR ''k'')
   \<and> hb_private_key demo_opened = replicate 64 (CHR ''k'')
   \<and> hb_retained_frames demo_opened = 0 \<and> hb_retained_bytes demo_opened = 0"
proof -
  have idle: "expire (demo_env 0 (CHR ''A'')) demo_new_hub = demo_new_hub"
    by (rule expire_idle [OF _ new_hub_inv(1) [OF demo_new]]) simp_all
  show ?thesis
    by (simp add: demo_opened_def demo_opening_def open_trusted_session_def checked_fingerprint_def
        actor_fingerprint_def public_key_size_def idle open_session_identity_locked_def
        announce_for_def normalize_lease_def live_bounds room_for_def normalize_activity_def
        normalize_note_def choose_handle_def no_update_def demo_fingerprint_def
        entry_of_def no_entry_def publish_presence_def append_change_def plain_change_def
        Let_def delete_inbox_def no_activity_def)
qed

lemma demo_conversation:
  "\<exists>h c. run_steps (hub_step demo_lib) demo_new_hub demo_run = Some h
     \<and> map_of (hb_convs h) (conversation_id demo_lib demo_genesis) = Some c \<and> length (cv_frames c) = 1"
proof -
  note fields = demo_opened_fields
  have "hub_inv demo_opened"
    unfolding demo_opened_def
    by (rule hub_inv_after [OF _ new_hub_inv(1) [OF demo_new]]) (simp add: demo_opening_def)
  then have idle: "expire (demo_env 3 (CHR ''D'')) demo_opened = demo_opened"
    by (rule expire_idle [rotated]) (use fields in \<open>simp_all add: live_at_def live_bounds\<close>)
  have holds: "session_holds_key demo_lib demo_opened (mint_credential (replicate 32 (CHR ''A'')))
      (demo_key (CHR ''a''))"
    using demo_fingerprints(1) [of "CHR ''a''"] fields
    by (simp add: session_holds_key_def checked_fingerprint_def actor_fingerprint_def
        demo_fingerprint_def public_key_size_def)
  have draft: "validate_draft demo_lib demo_opened (sb_draft demo_submission) = Inr None"
    using fields
    by (simp add: validate_draft_def decode_conversation_genesis_def demo_read_genesis_def
        demo_genesis_def valid_scope_def live_bounds about_of_def)
  have "\<exists>c. map_of (hb_convs (snd (submit_frame_for_session demo_lib (demo_env 3 (CHR ''D''))
      (mint_credential (replicate 32 (CHR ''A''))) demo_submission demo_opened)))
      (conversation_id demo_lib demo_genesis) = Some c \<and> length (cv_frames c) = 1"
    using holds draft fields
    by (simp add: submit_frame_for_session_def idle submit_frame_locked_def signature_size_def
        can_publish_def live_bounds verify_bytes_def build_signed_frame_def actor_body_def opened_def
        sign_issuer_bytes_def frame_hash_def Let_def commit_signed_frame_def install_conversation_def
        extend_conversation_def map_of_put)
  then show ?thesis
    by (simp add: demo_run_def hub_step_def demo_opening_def demo_opened_def)
qed

end
