(* ===== verification/LiveProps.thy ===== *)
theory LiveProps
  imports LiveDemo
begin

text \<open>
  The properties of the live hub: its quotas, the consistency of its state, the verification of
  what it retains, the replay of its changes, and the contracts of single operations.
\<close>

section \<open>Every reachable hub\<close>

text \<open>
  C13: Whatever operations arrive in whatever order, a hub answers every one of them and stays within
  its quotas: at most 256 live sessions and 16 per holder, 256 open challenges, 256 entries per
  inbox, 4096 retained frames with 8 MiB of payload over all conversations, and a change window no
  longer than configured.
\<close>

theorem hub_quotas:
  assumes "new_hub L cap key generation = Inr h0" and "list_all hub_fits ops"
  shows "\<exists>h. run_steps (hub_step L) h0 ops = Some h
    \<and> length (hb_presence h) \<le> 256
    \<and> (\<forall>actor fingerprint.
         length (filter (\<lambda>(s, e). same_holder actor fingerprint e) (hb_presence h)) \<le> 16)
    \<and> length (hb_pending h) \<le> 256
    \<and> (\<forall>s refs. map_of (hb_inboxes h) s = Some refs \<longrightarrow> length refs \<le> 256)
    \<and> (\<Sum>(i, c) \<leftarrow> hb_convs h. int (length (cv_frames c))) \<le> 4096
    \<and> (\<Sum>(i, c) \<leftarrow> hb_convs h. payload_bytes (cv_frames c)) \<le> 8388608
    \<and> length (hb_history h) \<le> cap"
proof -
  obtain h where h: "run_steps (hub_step L) h0 ops = Some h" "hub_inv h" "hb_history_cap h = cap"
    by (rule hub_reachable [OF assms])
  note parts = hub_invD [OF h(2)]
  have "length (hb_presence h) \<le> 256" "length (hb_pending h) \<le> 256"
    "\<forall>actor fingerprint.
         length (filter (\<lambda>(s, e). same_holder actor fingerprint e) (hb_presence h)) \<le> 16"
    using parts(2) by (simp_all add: session_quota_def live_bounds)
  moreover have "\<forall>s refs. map_of (hb_inboxes h) s = Some refs \<longrightarrow> length refs \<le> 256"
    using parts(6) unfolding inboxes_ok_def max_pending_inbox_frames_def by blast
  moreover have "(\<Sum>(i, c) \<leftarrow> hb_convs h. int (length (cv_frames c))) \<le> 4096"
    "(\<Sum>(i, c) \<leftarrow> hb_convs h. payload_bytes (cv_frames c)) \<le> 8388608"
    using parts(7,8) by (simp_all add: counted_frames_def frame_quota_def live_bounds)
  moreover have "length (hb_history h) \<le> cap"
    using parts(3) h(3) by (simp add: window_inv_def)
  ultimately show ?thesis
    using h(1) by blast
qed

theorem hub_quotas_witness:
  "\<exists>h. run_steps (hub_step demo_lib) demo_new_hub
      [(demo_env 0 (CHR ''A''), Prepare ''alice'' (demo_key (CHR ''a'')) ''here'' 0 no_update),
       (demo_env 1 (CHR ''B''), ReadOnly)] = Some h \<and> length (hb_presence h) \<le> 256"
  using hub_quotas [OF demo_new, of "[(demo_env 0 (CHR ''A''),
      Prepare ''alice'' (demo_key (CHR ''a'')) ''here'' 0 no_update), (demo_env 1 (CHR ''B''), ReadOnly)]"]
  by auto

text \<open>
  C17: In every reachable state each conversation is found under what it is about, is held open by
  participants whose leases are live in the hub, and is forgotten with the last of them; and an
  inbox belongs to a session of the hub, holds no reference twice, and points only at frames the
  hub still retains.
\<close>

theorem hub_consistent:
  assumes "new_hub L cap key generation = Inr h0" and "list_all hub_fits ops"
    and "run_steps (hub_step L) h0 ops = Some h"
  shows "(\<forall>i c. map_of (hb_convs h) i = Some c \<longrightarrow>
      map_of (hb_about h) (cv_about c) = Some i
      \<and> (\<exists>ms. map_of (hb_participants h) i = Some ms \<and> ms \<noteq> []
           \<and> (\<forall>s \<in> set ms. map_of (hb_presence h) s \<noteq> None)))
    \<and> (\<forall>s refs. map_of (hb_inboxes h) s = Some refs \<longrightarrow>
      map_of (hb_presence h) s \<noteq> None \<and> distinct refs
      \<and> (\<forall>(i, n) \<in> set refs. \<exists>c. map_of (hb_convs h) i = Some c \<and> n < length (cv_frames c)))
    \<and> (hb_presence h = [] \<longrightarrow> hb_convs h = [])"
proof -
  have inv: "hub_inv h"
    by (rule hub_machine.run_inv [OF new_hub_inv(1) [OF assms(1)] assms(2,3)])
  note parts = hub_invD [OF inv]
  have "map_of (hb_about h) (cv_about c) = Some i
      \<and> (\<exists>ms. map_of (hb_participants h) i = Some ms \<and> ms \<noteq> []
           \<and> (\<forall>s \<in> set ms. map_of (hb_presence h) s \<noteq> None))"
    if c: "map_of (hb_convs h) i = Some c" for i c
  proof -
    have "i \<in> fst ` set (hb_convs h)"
      using c by (simp add: in_keys_iff)
    then obtain ms where ms: "map_of (hb_participants h) i = Some ms"
      using parts(4) in_keys_iff [of i "hb_participants h"] by (auto simp: held_by_def)
    show ?thesis
      using parts(5) c ms held_byD [OF parts(4) ms] in_keys_iff [of _ "hb_presence h"]
      unfolding anchored_def by blast
  qed
  moreover have "map_of (hb_presence h) s \<noteq> None \<and> distinct refs
      \<and> (\<forall>(i, n) \<in> set refs. \<exists>c. map_of (hb_convs h) i = Some c \<and> n < length (cv_frames c))"
    if "map_of (hb_inboxes h) s = Some refs" for s refs
    using parts(6) that in_keys_iff [of s "hb_presence h"]
    by (fastforce simp: inboxes_ok_def retained_in_def)
  ultimately show ?thesis
    using no_conversation_left [OF parts(1)] by blast
qed

theorem hub_consistent_witness:
  "\<exists>h. run_steps (hub_step demo_lib) demo_new_hub [(demo_env 1 (CHR ''B''), ReadOnly)] = Some h
    \<and> (hb_presence h = [] \<longrightarrow> hb_convs h = [])"
proof -
  obtain h where "run_steps (hub_step demo_lib) demo_new_hub [(demo_env 1 (CHR ''B''), ReadOnly)] = Some h"
    by (auto simp: hub_step_def)
  then show ?thesis
    using hub_consistent [OF demo_new, of "[(demo_env 1 (CHR ''B''), ReadOnly)]"] by auto
qed

text \<open>
  C12: Whatever a hub retains, an independent reader accepts: in every reachable state the frames of
  each conversation pass VerifyChain under the public key of the hub, given that Ed25519 verifies
  what it signed and that keys, signatures and digests have their documented sizes.
\<close>

theorem retained_chains_verify:
  assumes "crypto_ok L" and "new_hub L cap key generation = Inr h0" and "length generation = 16"
    and "run_steps (hub_step L) h0 ops = Some h" and "map_of (hb_convs h) i = Some c"
  shows "verify_chain L (cv_frames c) (hb_public_key h) = None
    \<and> (\<forall>f \<in> set (cv_frames c). fr_conversation f = i)"
proof -
  have "crypto_ok L \<and> chain_inv L h"
    using chain_machine.run_inv [OF _ _ assms(4)] assms(1) new_hub_chain [OF assms(2,3)]
    by (simp add: list_all_iff)
  then show ?thesis
    using assms(5) by (auto simp: chain_inv_def chained_def)
qed

theorem retained_chains_verify_witness:
  "\<exists>h (c :: conversation). run_steps (hub_step demo_lib) demo_new_hub demo_run = Some h \<and> length (cv_frames c) = 1
     \<and> verify_chain demo_lib (cv_frames c) (hb_public_key h) = None"
proof -
  obtain h c where run: "run_steps (hub_step demo_lib) demo_new_hub demo_run = Some h"
    and c: "map_of (hb_convs h) (conversation_id demo_lib demo_genesis) = Some c" "length (cv_frames c) = 1"
    using demo_conversation by blast
  have "verify_chain demo_lib (cv_frames c) (hb_public_key h) = None"
    using retained_chains_verify [OF demo_crypto demo_new _ run c(1)] by simp
  with run c(2) show ?thesis by auto
qed

text \<open>
  C11: The changes carry the snapshot. A reader whose cursor is at most as many changes old as the
  window is long is never told to start over, one whose cursor is older always is; and applying the
  changes it gets to the snapshot it had gives exactly the current snapshot: the same handles with
  their values and activities, the same conversations. Runs in which a freshly drawn handle names a
  live session are left out.
\<close>

theorem changes_replay_snapshot:
  assumes "new_hub L cap key generation = Inr h0" and "list_all hub_fits before"
    and "run_steps (fresh_step L) h0 before = Some h" and "list_all hub_fits since"
    and "run_steps (fresh_step L) h since = Some g"
  shows "(case changes_since_locked g (current_cursor h) session of
      Inr cs \<Rightarrow> hb_position g - hb_position h \<le> cap \<and> fold apply_change cs (view_of h) = view_of g
    | Inl e \<Rightarrow> e = ErrReset \<and> hb_position g - hb_position h > cap)"
proof -
  have invs: "replay_inv h" "replay_inv g"
    using replay_machine.run_inv [OF new_hub_inv(2) [OF assms(1)] assms(2,3)]
      replay_machine.run_inv [OF _ assms(4,5)] by blast+
  have first: "tracks h0 h" and rest: "tracks h g"
    using replay_machine.run_tracks [OF new_hub_inv(2) [OF assms(1)] assms(2,3)]
      replay_machine.run_tracks [OF invs(1) assms(4,5)] by blast+
  have cap: "hb_history_cap h = cap"
    using first new_hub_fields(2) [OF assms(1)] by (auto simp: tracks_def tracks_by_def)
  note window = replay_invD(4) [OF invs(2)]
  show ?thesis
    using tracks_changes [OF rest window, of session] tracks_replay [OF rest window, of session] cap
    by (auto split: sum.split)
qed

theorem changes_replay_snapshot_witness:
  "case changes_since_locked demo_opened (current_cursor demo_new_hub) [] of
     Inr cs \<Rightarrow> fold apply_change cs (view_of demo_new_hub) = view_of demo_opened
   | Inl e \<Rightarrow> hb_position demo_opened - hb_position demo_new_hub > 8"
proof -
  have "run_steps (fresh_step demo_lib) demo_new_hub [demo_opening] = Some demo_opened"
    by (simp add: fresh_step_def handle_fresh_def handles_def hub_step_def demo_opened_def demo_opening_def)
  moreover have "list_all hub_fits [demo_opening]"
    by (simp add: demo_opening_def)
  ultimately have "case changes_since_locked demo_opened (current_cursor demo_new_hub) [] of
      Inr cs \<Rightarrow> hb_position demo_opened - hb_position demo_new_hub \<le> 8
        \<and> fold apply_change cs (view_of demo_new_hub) = view_of demo_opened
    | Inl e \<Rightarrow> e = ErrReset \<and> hb_position demo_opened - hb_position demo_new_hub > 8"
    by (intro changes_replay_snapshot [OF demo_new, where before = "[]" and since = "[demo_opening]"])
      simp_all
  then show ?thesis
    by (cases "changes_since_locked demo_opened (current_cursor demo_new_hub) []") simp_all
qed

section \<open>Sessions\<close>

text \<open>
  C14: A challenge opens at most one session. Once a challenge has been presented, whether or not its
  proof was accepted, presenting it again is refused as long as no new challenge is prepared,
  whatever else happens in between.
\<close>

theorem challenge_single_use:
  assumes "run_steps (hub_step L) (snd (open_session L env c signature h)) ops = Some g"
    and "list_all (\<lambda>(e, op). \<not> prepares op) ops"
  shows "fst (open_session L env' c signature' g) = Inl (SessionError ChallengeInvalid)"
proof (cases "session_challenge_key L c")
  case (Inl e)
  then show ?thesis
    by (simp add: open_session_def Let_def)
next
  case (Inr key)
  have "fewer_pending (snd (open_session L env c signature h)) g"
    by (rule pending_run [OF assms(1)]) (use assms(2) in \<open>auto simp: list_all_iff\<close>)
  then have "key \<notin> fst ` set (hb_pending g)"
    using used_challenge [OF Inr] unfolding fewer_pending_def by blast
  then show ?thesis
    by (rule unknown_challenge [OF Inr])
qed

definition demo_challenge :: session_challenge where
  "demo_challenge = challenge_for demo_new_hub (demo_key (CHR ''a'')) (replicate 32 (CHR ''A''))"

theorem challenge_single_use_witness:
  "fst (open_session demo_lib (demo_env 5 (CHR ''E'')) demo_challenge []
     (expire (demo_env 4 (CHR ''D'')) (snd (open_session demo_lib (demo_env 3 (CHR ''C'')) demo_challenge []
        (snd (prepare_session demo_lib (demo_env 0 (CHR ''A'')) ''alice'' (demo_key (CHR ''a'')) ''here'' 0
           no_update demo_new_hub)))))) = Inl (SessionError ChallengeInvalid)"
  by (rule challenge_single_use [where ops = "[(demo_env 4 (CHR ''D''), ReadOnly)]"])
    (simp_all add: hub_step_def prepares_def)

text \<open>
  C15: A session stays what it is. As long as its lease has not run out, an operation that does not
  revoke or depart it leaves it present, bound to the same actor and the same key, under the same
  public handle, whatever is renewed, opened or sent by others or by itself.
\<close>

theorem session_binding:
  assumes "env_ok env" and "hub_inv h" and "map_of (hb_presence h) s = Some e"
    and "pe_expires e > le_now env" and "op \<noteq> Revoke s" and "op \<noteq> Depart s"
  shows "\<exists>e'. map_of (hb_presence (hub_after L env op h)) s = Some e'
    \<and> pe_actor e' = pe_actor e \<and> pe_fingerprint e' = pe_fingerprint e \<and> pe_handle e' = pe_handle e"
  using bound_after [OF assms(1-3) _ assms(5,6)] assms(4) by (simp add: bound_as_def live_at_def)

theorem session_binding_witness:
  "\<exists>e. map_of (hb_presence (hub_after demo_lib (demo_env 3 (CHR ''D'')) (Revoke ''bob'') demo_hub)) ''alice''
      = Some e \<and> pe_actor e = ''alice''"
proof -
  have "map_of (hb_presence demo_hub) ''alice'' = Some (demo_session ''alice'' (CHR ''a'') False)"
    by simp
  from session_binding [OF _ demo_inv this, of "demo_env 3 (CHR ''D'')" "Revoke ''bob''" demo_lib]
  show ?thesis
    by (auto simp: demo_session_def)
qed

section \<open>Messages\<close>

text \<open>
  C16: A published message reaches exactly whom it is addressed to. Its frame carries the message; it
  is new in the inbox of every live session with an inbox whose key is among the recipients, the
  speaker's own session excepted, and of no other; and no other reference of any inbox changes.
\<close>

theorem message_reaches_recipients:
  assumes "env_ok env" and "hub_inv h"
    and "submit_message_for_session L env session s h = (Inr f, g)"
  shows "\<exists>m. json_read_message L (fr_payload f) = Some m \<and> (\<forall>t.
      (\<forall>r. r \<noteq> (fr_conversation f, fr_sequence f) \<longrightarrow>
         (r \<in> set (inbox_of g t) \<longleftrightarrow> r \<in> set (inbox_of (expire env h) t)))
    \<and> ((fr_conversation f, fr_sequence f) \<in> set (inbox_of g t) \<longleftrightarrow>
         t \<noteq> session \<and> (\<exists>e. map_of (hb_presence (expire env h)) t = Some e \<and> pe_inbox e
           \<and> pe_fingerprint e \<in> set (ms_recipients m))))"
proof -
  let ?h = "expire env h" and ?ref = "(fr_conversation f, fr_sequence f)"
  have inv: "hub_inv ?h"
    using assms(1,2) by (rule hub_inv_expire)
  show ?thesis
  proof (cases rule: submit_message_cases [of L env session s h])
    case (delivered f' m k members receivers)
    then have f: "f' = f" and g: "g = deliver L f m members receivers k"
      using assms(3) by simp_all
    note fresh = new_reference [OF inv delivered(6) [unfolded f]]
    have m: "json_read_message L (fr_payload f) = Some m"
      using delivered(2) fresh(2) by (auto simp: check_message_def Let_def split: option.splits if_splits)
    have same: "inbox_of k t = inbox_of ?h t" for t
      using hub_inv_submit_frame(3) [OF inv, of L session s] delivered(6) by (simp add: inbox_of_def)
    have keys: "set (le_arrange env (map fst (hb_presence ?h))) = fst ` set (hb_presence ?h)"
      using env_okD [OF assms(1)] hub_invD(4) [OF inv] by (simp add: held_by_def)
    have to: "t \<in> set receivers \<longleftrightarrow> t \<noteq> session \<and> (\<exists>e. map_of (hb_presence ?h) t = Some e \<and> pe_inbox e
           \<and> pe_fingerprint e \<in> set (ms_recipients m))" for t
      using in_keys_iff [of t "hb_presence ?h"] unfolding delivered(3,4) addressed_def keys set_filter
      by (auto simp: entry_of_def split: option.splits)
    have "set (inbox_of g t)
        = (if t \<in> set receivers then insert ?ref (set (inbox_of ?h t)) else set (inbox_of ?h t))" for t
      unfolding g inbox_deliver same ..
    moreover have "?ref \<notin> set (inbox_of ?h t)" for t
      using inbox_retained [OF inv] fresh(1) by blast
    ultimately have each: "(\<forall>r. r \<noteq> ?ref \<longrightarrow> (r \<in> set (inbox_of g t) \<longleftrightarrow> r \<in> set (inbox_of ?h t)))
        \<and> (?ref \<in> set (inbox_of g t) \<longleftrightarrow> t \<in> set receivers)" for t
      by (cases "t \<in> set receivers") auto
    show ?thesis
      using m each unfolding to by blast
  qed (use assms(3) in simp_all)
qed

theorem message_reaches_recipients_witness:
  "\<exists>f g. submit_message_for_session demo_lib (demo_env 3 (CHR ''D'')) ''alice'' demo_submission demo_hub
     = (Inr f, g) \<and> (fr_conversation f, fr_sequence f) \<in> set (inbox_of g ''bob'')
     \<and> (fr_conversation f, fr_sequence f) \<notin> set (inbox_of g ''alice'')"
proof -
  obtain f g where sent: "submit_message_for_session demo_lib (demo_env 3 (CHR ''D'')) ''alice''
      demo_submission demo_hub = (Inr f, g)"
    using demo_sent by blast
  from message_reaches_recipients [OF _ demo_inv sent] show ?thesis
    using sent by (auto simp: demo_idle demo_session_def demo_fingerprint_def demo_read_message_def)
qed

text \<open>
  C19: Acknowledging removes from the caller's inbox exactly the frames whose thread handles were
  named, reports how many there were, touches no other inbox, and is idempotent: the same call again
  finds nothing to remove and changes nothing.
\<close>

theorem acknowledge_once:
  assumes "env_ok env" and "hub_inv h" and "acknowledge env s hs h = (Inr n, g)"
  shows "inbox_of g s = filter (\<lambda>(c, k). thread_handle c k \<notin> set hs) (inbox_of (expire env h) s)
    \<and> n = length (inbox_of (expire env h) s) - length (inbox_of g s)
    \<and> (\<forall>t. t \<noteq> s \<longrightarrow> inbox_of g t = inbox_of (expire env h) t)
    \<and> acknowledge env s hs g = (Inr 0, g)"
  using acknowledge_again [OF assms] by blast

theorem acknowledge_once_witness:
  "acknowledge (demo_env 3 (CHR ''D'')) ''bob'' [thread_handle ''eph'' 7] demo_hub = (Inr 0, demo_hub)"
proof -
  have "parse_thread_handle (thread_handle ''eph'' 7) = Inr (''eph'', 7)"
    by (simp add: parse_handle_iff thread_handle_def format_uint.simps live_bounds)
  then have "first_handle_error [thread_handle ''eph'' 7] = None"
    by (simp add: first_handle_error_def)
  then have once: "acknowledge (demo_env 3 (CHR ''D'')) ''bob'' [thread_handle ''eph'' 7] demo_hub
      = (Inr 0, demo_hub)"
    by (simp add: acknowledge_def demo_idle live_bounds)
  from acknowledge_once [OF _ demo_inv once] show ?thesis
    by simp
qed

section \<open>Refusals and handles\<close>

text \<open>
  C18: A refused operation leaves nothing behind. A request refused before the lock is taken (a key
  that is not one, a lease or an activity out of bounds where a challenge is prepared) leaves the hub
  exactly as it was; any other refusal, of opening, preparing, renewing, revoking, an inbox, a frame, a
  message or an acknowledgement, leaves exactly what expiry alone makes of it. A refused proof of
  possession has besides used up the challenge presented, where it was pending, and no other.
\<close>

theorem refusal_changes_nothing:
  assumes "env_ok env" and "hub_inv h"
  shows "(isl (fst (open_trusted_session L env actor key v ttl update h)) \<longrightarrow>
        snd (open_trusted_session L env actor key v ttl update h)
          = (if isl (checked_fingerprint L key) then h else expire env h))
    \<and> (isl (fst (prepare_session L env actor key v ttl update h)) \<longrightarrow>
        snd (prepare_session L env actor key v ttl update h)
          = (if isl (checked_fingerprint L key) \<or> isl (normalize_lease actor v ttl)
                \<or> isl (normalize_activity no_activity update False) then h else expire env h))
    \<and> (isl (fst (renew_session L env s actor key v ttl update h)) \<longrightarrow>
        snd (renew_session L env s actor key v ttl update h)
          = (if isl (checked_fingerprint L key) then h else expire env h))
    \<and> (isl (fst (revoke_session env s h)) \<longrightarrow> snd (revoke_session env s h) = expire env h)
    \<and> (isl (fst (enable_inbox env s h)) \<longrightarrow> snd (enable_inbox env s h) = expire env h)
    \<and> (isl (fst (submit_frame_for_session L env s x h)) \<longrightarrow>
        snd (submit_frame_for_session L env s x h) = expire env h)
    \<and> (isl (fst (submit_message_for_session L env s x h)) \<longrightarrow>
        snd (submit_message_for_session L env s x h) = expire env h)
    \<and> (isl (fst (acknowledge env s hs h)) \<longrightarrow> snd (acknowledge env s hs h) = expire env h)
    \<and> (isl (fst (open_session L env c signature h)) \<longrightarrow>
        snd (open_session L env c signature h) = without_challenge L c (expire env h))"
  by (intro conjI impI refused_opening [OF assms] refused_session [OF assms] refused_frame)

theorem refusal_changes_nothing_witness:
  "snd (enable_inbox (demo_env 3 (CHR ''D'')) ''carol'' demo_hub) = demo_hub"
proof -
  have "isl (fst (enable_inbox (demo_env 3 (CHR ''D'')) ''carol'' demo_hub))"
    by (simp add: enable_inbox_def demo_idle)
  then show ?thesis
    using conjunct1 [OF conjunct2 [OF conjunct2 [OF conjunct2 [OF conjunct2 [OF refusal_changes_nothing
        [OF _ demo_inv, where env = "demo_env 3 (CHR ''D'')" and s = "''carol''"]]]]]]
    by (simp add: demo_idle)
qed

text \<open>
  C20: Thread handles round-trip. Parsing accepts exactly what printing a conversation and a sequence
  gives, within 256 bytes and 64 bits: every such handle reads back as the same conversation and
  sequence, and no other text is a handle.
\<close>

theorem thread_handle_round_trip:
  "parse_thread_handle t = Inr (c, n) \<longleftrightarrow>
     t = thread_handle c n \<and> c \<noteq> [] \<and> length t \<le> 256 \<and> n < 2 ^ 64"
  using parse_handle_iff [of t c n] by (simp add: max_message_id_bytes_def)

end
