(* ===== verification/KernelLog.thy ===== *)
theory KernelLog
  imports GitObjects
begin

text \<open>
  The verified log of the kernel (\<open>internal/kernel/kernel.go\<close>): the genesis and rotation messages, the
  accounting of a request against the ceiling, the one decoder of an event commit, the cold scan of
  a whole chain and the scan of a suffix.
\<close>

datatype genesis_error =
  InvalidDescriptor
| DescriptorKey
| HalfContinuation
| DescriptorNotEncodable
| DescriptorNotDecodable
| DescriptorNotCanonical
| MalformedGenesis
| MalformedRotation
| DescriptorBase64
| RotationVersion
| RotationKey

text \<open>What a refusal over the ceiling reports: the total, the ceiling, the split, the largest file.\<close>

record size_refusal =
  sr_total :: "64 word"
  sr_ceiling :: "64 word"
  sr_envelope :: "64 word"
  sr_payload :: "64 word"
  sr_attachments :: "(64 word \<times> nat \<times> string \<times> 64 word) option"

datatype kernel_error =
  IntentError intent_error
| GitError git_error
| GenesisError genesis_error
| OverCeiling size_refusal
| NotDescendant
| IdempotencyConflict
| BackPressure int
| UnresolvedReference string
| BeginsElsewhere
| EndsElsewhere
| InvalidGenesisId
| FormatDiffers
| GenesisHasParent
| NotChained
| RotatesToCurrent
| DuplicateEvent string
| SinkFailed
| MessageOverCeiling
| RotationTreeNotEmpty
| WrongTarget
| TrailersDiffer
| TreeDiffers
| CapabilityDiffers
| UnknownLog
| PreAppendRefused
| ApplicationRefused
| PayloadTreeMismatch
| RetriesExhausted
| AlreadyCurrentKey
| NotContinued

definition intent_res :: "intent_error + 'a \<Rightarrow> kernel_error + 'a" where
  "intent_res = map_sum IntentError id"

definition git_res :: "git_error + 'a \<Rightarrow> kernel_error + 'a" where
  "git_res = map_sum GitError id"

definition genesis_res :: "genesis_error + 'a \<Rightarrow> kernel_error + 'a" where
  "genesis_res = map_sum GenesisError id"

lemma lift_Inr [simp]:
  "intent_res r = Inr a \<longleftrightarrow> r = Inr a"
  "git_res s = Inr a \<longleftrightarrow> s = Inr a"
  "genesis_res t = Inr a \<longleftrightarrow> t = Inr a"
  by (cases r; cases s; cases t; simp add: intent_res_def git_res_def genesis_res_def)+

lemma lift_simps [simp]:
  "intent_res (Inr a) = Inr a" "git_res (Inr a) = Inr a" "genesis_res (Inr a) = Inr a"
  "intent_res (Inl e) = Inl (IntentError e)" "git_res (Inl g) = Inl (GitError g)"
  "genesis_res (Inl f) = Inl (GenesisError f)"
  by (simp_all add: intent_res_def git_res_def genesis_res_def)

section \<open>Genesis and rotation\<close>

definition genesis_marker :: string where "genesis_marker = ''gitseq-genesis-v0''"
definition rotation_marker :: string where "rotation_marker = ''gitseq-rotation-v0''"

definition validate_genesis :: "genesis_descriptor \<Rightarrow> genesis_error option" where
  "validate_genesis d =
     (if gd_version d \<noteq> 0 \<or> (gd_object_format d \<noteq> ''sha1'' \<and> gd_object_format d \<noteq> ''sha256'')
         \<or> gd_payload_ceiling d = 0
      then Some InvalidDescriptor
      else if \<not> valid_ssh_public_key (gd_sequencer_key d) then Some DescriptorKey
      else if (gd_predecessor d = []) \<noteq> (gd_sealed_head d = []) then Some HalfContinuation
      else None)"

definition encode_genesis :: "('l) kernel_lib_scheme \<Rightarrow> genesis_descriptor \<Rightarrow> genesis_error + bytes" where
  "encode_genesis L d =
     (case validate_genesis d of
        Some e \<Rightarrow> Inl e | None \<Rightarrow> of_option DescriptorNotEncodable (kl_genesis L d))"

definition decode_genesis :: "('l) kernel_lib_scheme \<Rightarrow> bytes \<Rightarrow> genesis_error + genesis_descriptor" where
  "decode_genesis L data =
     (case kl_read_genesis L data of
        None \<Rightarrow> Inl DescriptorNotDecodable
      | Some d \<Rightarrow>
          if kl_genesis L d \<noteq> Some data then Inl DescriptorNotCanonical
          else (case validate_genesis d of Some e \<Rightarrow> Inl e | None \<Rightarrow> Inr d))"

definition descriptor_message :: "string \<Rightarrow> bytes \<Rightarrow> string" where
  "descriptor_message marker encoded =
     marker @ newline # ''Descriptor: '' @ b64_encode encoded @ [newline]"

definition genesis_message :: "('l) kernel_lib_scheme \<Rightarrow> genesis_descriptor \<Rightarrow> genesis_error + string" where
  "genesis_message L d =
     and_then (encode_genesis L d) (\<lambda>encoded. Inr (descriptor_message genesis_marker encoded))"

definition parse_genesis_message ::
  "('l) kernel_lib_scheme \<Rightarrow> string \<Rightarrow> genesis_error + genesis_descriptor" where
  "parse_genesis_message L message =
     (case split_char newline (trim_space message) of
        [first, second] \<Rightarrow>
          if first \<noteq> genesis_marker \<or> \<not> has_prefix ''Descriptor: '' second then Inl MalformedGenesis
          else and_then (of_option DescriptorBase64 (b64_decode (trim_prefix ''Descriptor: '' second)))
                 (decode_genesis L)
      | _ \<Rightarrow> Inl MalformedGenesis)"

definition rotation_message :: "('l) kernel_lib_scheme \<Rightarrow> string \<Rightarrow> genesis_error + string" where
  "rotation_message L public_key =
     (if \<not> valid_ssh_public_key public_key then Inl RotationKey
      else and_then (of_option DescriptorNotEncodable
                       (kl_rotation L \<lparr>rd_version = 0, rd_sequencer_key = public_key\<rparr>))
             (\<lambda>encoded. Inr (descriptor_message rotation_marker encoded)))"

text \<open>\<open>Inr None\<close> is a message that is no rotation at all.\<close>

definition parse_rotation_message ::
  "('l) kernel_lib_scheme \<Rightarrow> string \<Rightarrow> genesis_error + string option" where
  "parse_rotation_message L message =
     (case split_char newline (trim_space message) of
        [] \<Rightarrow> Inr None
      | first # ls \<Rightarrow>
          if first \<noteq> rotation_marker then Inr None
          else (case ls of
            [second] \<Rightarrow>
              if \<not> has_prefix ''Descriptor: '' second then Inl MalformedRotation
              else and_then (of_option DescriptorBase64 (b64_decode (trim_prefix ''Descriptor: '' second)))
                (\<lambda>encoded.
                  (case kl_read_rotation L encoded of
                     None \<Rightarrow> Inl DescriptorNotDecodable
                   | Some d \<Rightarrow>
                       if kl_rotation L d \<noteq> Some encoded then Inl DescriptorNotCanonical
                       else if rd_version d \<noteq> 0 then Inl RotationVersion
                       else if \<not> valid_ssh_public_key (rd_sequencer_key d) then Inl RotationKey
                       else Inr (Some (rd_sequencer_key d))))
          | _ \<Rightarrow> Inl MalformedRotation))"

definition sequence_ref :: "string \<Rightarrow> string" where
  "sequence_ref genesis = ''refs/seq/'' @ genesis"

definition descriptor ::
  "('l) kernel_lib_scheme \<Rightarrow> 'w git \<Rightarrow> 'w \<Rightarrow> string \<Rightarrow> kernel_error + genesis_descriptor" where
  "descriptor L G w genesis =
     and_then (git_res (commit_message G genesis w)) (\<lambda>message.
       genesis_res (parse_genesis_message L message))"

section \<open>The size of a request\<close>

record request =
  rq_signed :: signed
  rq_payload :: bytes
  rq_attachments :: attachments
  rq_capability_proof :: bytes

record request_size =
  rs_envelope :: "64 word"
  rs_payload :: "64 word"
  rs_attachments :: "64 word"
  rs_count :: nat
  rs_largest_name :: string
  rs_largest_size :: "64 word"
  rs_saturated :: bool

definition add_size :: "64 word \<Rightarrow> 64 word \<Rightarrow> 64 word \<times> bool" where
  "add_size total_so_far n =
     (if n > - 1 - total_so_far then (- 1, True) else (total_so_far + n, False))"

definition measure_attachment :: "string \<times> bytes \<Rightarrow> request_size \<Rightarrow> request_size" where
  "measure_attachment nc s =
     (let (name, attachment) = nc;
          content = (of_nat (length attachment) :: 64 word);
          (sum, wrapped) = add_size (rs_attachments s) content;
          s1 = s\<lparr>rs_attachments := sum, rs_saturated := rs_saturated s \<or> wrapped\<rparr>
      in if rs_largest_name s1 = [] \<or> content > rs_largest_size s1
            \<or> (content = rs_largest_size s1 \<and> str_less name (rs_largest_name s1))
         then s1\<lparr>rs_largest_size := content, rs_largest_name := name\<rparr> else s1)"

definition measure_request :: "string \<Rightarrow> request \<Rightarrow> request_size" where
  "measure_request env rq =
     fold measure_attachment (rq_attachments rq)
       \<lparr>rs_envelope = of_nat (length env), rs_payload = of_nat (length (rq_payload rq)),
        rs_attachments = 0, rs_count = length (rq_attachments rq), rs_largest_name = [],
        rs_largest_size = 0, rs_saturated = False\<rparr>"

definition size_total :: "request_size \<Rightarrow> 64 word" where
  "size_total s =
     fst (add_size (fst (add_size (rs_envelope s) (rs_payload s))) (rs_attachments s))"

definition max_attachment_name_bytes :: nat where "max_attachment_name_bytes = 128"

definition bounded_name :: "string \<Rightarrow> string" where
  "bounded_name name =
     (if length name > max_attachment_name_bytes then take max_attachment_name_bytes name else name)"

definition refusal_of :: "request_size \<Rightarrow> 64 word \<Rightarrow> size_refusal" where
  "refusal_of s ceiling =
     \<lparr>sr_total = size_total s, sr_ceiling = ceiling, sr_envelope = rs_envelope s,
      sr_payload = rs_payload s,
      sr_attachments =
        (if rs_count s > 0
         then Some (rs_attachments s, rs_count s, bounded_name (rs_largest_name s), rs_largest_size s)
         else None)\<rparr>"

definition judge_size :: "request_size \<Rightarrow> 64 word \<Rightarrow> kernel_error + unit" where
  "judge_size s ceiling =
     (if rs_saturated s \<or> rs_envelope s > ceiling \<or> rs_payload s > ceiling - rs_envelope s
         \<or> rs_attachments s > ceiling - rs_envelope s - rs_payload s
      then Inl (OverCeiling (refusal_of s ceiling)) else Inr ())"

definition validate_request_size ::
  "('l) kernel_lib_scheme \<Rightarrow> request \<Rightarrow> 64 word \<Rightarrow> kernel_error + unit" where
  "validate_request_size L rq ceiling =
     and_then (intent_res (verify_signed L (rq_signed rq))) (\<lambda>decoded.
       judge_size (measure_request (envelope (rq_signed rq) (in_rests_on decoded)) rq) ceiling)"

text \<open>The same accounting for an intent that is not signed yet.\<close>

definition validate_unsigned_request_size ::
  "bytes \<Rightarrow> bytes \<Rightarrow> string list \<Rightarrow> bytes \<Rightarrow> attachments \<Rightarrow> 64 word \<Rightarrow> kernel_error + unit" where
  "validate_unsigned_request_size encoded actor_key rests payload as ceiling =
     (if length actor_key \<noteq> key_size then Inl (IntentError BadActorKey)
      else (let placeholder = \<lparr>rq_signed = \<lparr>sg_intent = encoded, sg_actor_key = actor_key,
                   sg_signature = replicate sig_size zero_byte\<rparr>,
                 rq_payload = payload, rq_attachments = as, rq_capability_proof = []\<rparr>
            in judge_size (measure_request (envelope (rq_signed placeholder) rests) placeholder) ceiling))"

section \<open>Events and the scanned log\<close>

record event =
  ev_commit :: string
  ev_timestamp :: int
  ev_intent :: intent
  ev_signed :: signed
  ev_payload_tree :: string
  ev_payload :: bytes
  ev_attachments :: attachments

record scanned_log =
  sl_genesis :: string
  sl_head :: string
  sl_depth :: nat
  sl_count :: nat
  sl_events :: "event list"
  sl_dedup :: "string \<rightharpoonup> event"
  sl_positions :: "string set"
  sl_sequencer_key :: string

definition event_without_payload :: "event \<Rightarrow> event" where
  "event_without_payload e = e\<lparr>ev_payload := [], ev_attachments := []\<rparr>"

text \<open>\<open>Inr None\<close>: no event stands under the key.\<close>

definition dedup_prior :: "event option \<Rightarrow> signed \<Rightarrow> kernel_error + event option" where
  "dedup_prior slot s =
     (case slot of
        None \<Rightarrow> Inr None
      | Some prior \<Rightarrow>
          if \<not> signed_equal (ev_signed prior) s then Inl IdempotencyConflict else Inr (Some prior))"

text \<open>A commit may enter an index only when nothing stands under its key there.\<close>

definition unclaimed_key :: "event option \<Rightarrow> signed \<Rightarrow> kernel_error + unit" where
  "unclaimed_key slot s =
     and_then (dedup_prior slot s) (\<lambda>prior.
       case prior of None \<Rightarrow> Inr () | Some p \<Rightarrow> Inl (DuplicateEvent (ev_commit p)))"

definition verify_signed_target ::
  "('l) kernel_lib_scheme \<Rightarrow> signed \<Rightarrow> string \<Rightarrow> intent_error + intent \<times> bool" where
  "verify_signed_target L s target =
     and_then (verify_signed L s) (\<lambda>i. Inr (i, in_target i = target))"

definition validate_sequence_bounds :: "string list \<Rightarrow> string \<Rightarrow> string \<Rightarrow> kernel_error + unit" where
  "validate_sequence_bounds commits genesis head =
     (case commits of
        [] \<Rightarrow> Inl BeginsElsewhere
      | c # _ \<Rightarrow> if c \<noteq> genesis then Inl BeginsElsewhere
                else require (last commits = head) EndsElsewhere)"

definition normalize_genesis_message :: "string \<Rightarrow> string" where
  "normalize_genesis_message message = trim_space message @ [newline]"

definition normalize_event_message :: "string \<Rightarrow> string" where
  "normalize_event_message message = trim_right message @ [newline]"

definition validate_chain_parents :: "nat \<Rightarrow> string list \<Rightarrow> string \<Rightarrow> kernel_error + unit" where
  "validate_chain_parents index parents prior =
     (if index = 0 then require (parents = []) GenesisHasParent
      else require (parents = [prior]) NotChained)"

datatype loaded = LoadedEvent event | LoadedRotation string

definition load_commit ::
  "('l) kernel_lib_scheme \<Rightarrow> 'w git \<Rightarrow> 'w \<Rightarrow> string \<Rightarrow> genesis_descriptor \<Rightarrow> string
   \<Rightarrow> ('c) commit_metadata_scheme \<Rightarrow> bool \<Rightarrow> kernel_error + loaded" where
  "load_commit L G w format d genesis c load =
     (let message = normalize_event_message (cx_message c);
          ceiling = unat (gd_payload_ceiling d)
      in if length message > ceiling then Inl MessageOverCeiling
         else and_then (genesis_res (parse_rotation_message L message)) (\<lambda>rotation.
           case rotation of
             Some successor \<Rightarrow>
               and_then (git_res (tree_is_empty L G w format (cx_tree c))) (\<lambda>is_empty.
                 if \<not> is_empty then Inl RotationTreeNotEmpty else Inr (LoadedRotation successor))
           | None \<Rightarrow>
               and_then (intent_res (parse_envelope message ceiling)) (\<lambda>(s, trailers).
               and_then (intent_res (verify_signed_target L s (typed_oid (gd_object_format d) genesis)))
                 (\<lambda>(decoded, matches).
                 if \<not> matches then Inl WrongTarget
                 else if \<not> equal_refs (in_rests_on decoded) trailers then Inl TrailersDiffer
                 else and_then (git_res (parse_typed_oid (in_payload_tree decoded))) (\<lambda>(_, tree).
                   if cx_tree c \<noteq> tree then Inl TreeDiffers
                   else and_then (git_res (payload_tree L G w format (cx_tree c)
                                             (ceiling - length message) load)) (\<lambda>(payload, as).
                     Inr (LoadedEvent \<lparr>ev_commit = cx_oid c, ev_timestamp = cx_timestamp c,
                            ev_intent = decoded, ev_signed = s,
                            ev_payload_tree = in_payload_tree decoded,
                            ev_payload = payload, ev_attachments = as\<rparr>)))))))"

section \<open>The cold scan\<close>

text \<open>
  A sink takes the events one by one in place of the list, and may refuse one; its own state is \<open>'s\<close>.
\<close>

type_synonym 's sink = "(event \<Rightarrow> 's \<Rightarrow> 's option) option"

definition take_event :: "'s sink \<Rightarrow> event \<Rightarrow> event list \<times> 's \<Rightarrow> kernel_error + event list \<times> 's" where
  "take_event sink e es =
     (case sink of
        None \<Rightarrow> Inr (fst es @ [e], snd es)
      | Some f \<Rightarrow> (case f e (snd es) of None \<Rightarrow> Inl SinkFailed | Some s \<Rightarrow> Inr (fst es, s)))"

definition enter_event :: "string \<Rightarrow> event \<Rightarrow> event list \<Rightarrow> scanned_log \<Rightarrow> scanned_log" where
  "enter_event key e events log =
     log\<lparr>sl_dedup := (sl_dedup log)(key \<mapsto> event_without_payload e),
         sl_positions := insert (ev_commit e) (sl_positions log),
         sl_events := events, sl_count := sl_count log + 1\<rparr>"

definition enter_loaded ::
  "('l) kernel_lib_scheme \<Rightarrow> 's sink \<Rightarrow> loaded \<Rightarrow> scanned_log \<times> 's \<Rightarrow> kernel_error + scanned_log \<times> 's" where
  "enter_loaded L sink loaded ls =
     (let (log, s) = ls in
      case loaded of
        LoadedRotation successor \<Rightarrow>
          if successor = sl_sequencer_key log then Inl RotatesToCurrent
          else Inr (log\<lparr>sl_sequencer_key := successor\<rparr>, s)
      | LoadedEvent e \<Rightarrow>
          and_then (intent_res (dedup_key L (ev_signed e))) (\<lambda>key.
          and_then (unclaimed_key (sl_dedup log key) (ev_signed e)) (\<lambda>_.
          and_then (take_event sink e (sl_events log, s)) (\<lambda>(events, s').
            Inr (enter_event key e events log, s')))))"

definition scan_commit ::
  "('l) kernel_lib_scheme \<Rightarrow> 'w git \<Rightarrow> 'w \<Rightarrow> string \<Rightarrow> genesis_descriptor \<Rightarrow> bool \<Rightarrow> 's sink
   \<Rightarrow> string \<Rightarrow> string \<Rightarrow> scanned_log \<times> 's \<Rightarrow> kernel_error + scanned_log \<times> 's" where
  "scan_commit L G w format d load sink prior oid ls =
     and_then (git_res (read_commit L G w format oid)) (\<lambda>c.
     and_then (git_res (verify_ssh_signature L c (sl_sequencer_key (fst ls)))) (\<lambda>_.
     and_then (validate_chain_parents 1 (cx_parents c) prior) (\<lambda>_.
     and_then (load_commit L G w format d (sl_genesis (fst ls)) c load) (\<lambda>loaded.
       enter_loaded L sink loaded ls))))"

fun scan_rest ::
  "('l) kernel_lib_scheme \<Rightarrow> 'w git \<Rightarrow> 'w \<Rightarrow> string \<Rightarrow> genesis_descriptor \<Rightarrow> bool \<Rightarrow> 's sink
   \<Rightarrow> string \<Rightarrow> string list \<Rightarrow> scanned_log \<times> 's \<Rightarrow> kernel_error + scanned_log \<times> 's" where
  "scan_rest L G w format d load sink prior [] ls = Inr ls"
| "scan_rest L G w format d load sink prior (oid # oids) ls =
     and_then (scan_commit L G w format d load sink prior oid ls)
       (scan_rest L G w format d load sink oid oids)"

definition format_of_genesis :: "string \<Rightarrow> string option" where
  "format_of_genesis genesis =
     (if length genesis = 40 then Some ''sha1''
      else if length genesis = 64 then Some ''sha256'' else None)"

definition fresh_log :: "string \<Rightarrow> string \<Rightarrow> nat \<Rightarrow> genesis_descriptor \<Rightarrow> scanned_log" where
  "fresh_log genesis head depth d =
     \<lparr>sl_genesis = genesis, sl_head = head, sl_depth = depth, sl_count = 0, sl_events = [],
      sl_dedup = Map.empty, sl_positions = {genesis}, sl_sequencer_key = gd_sequencer_key d\<rparr>"

definition scan_genesis ::
  "('l) kernel_lib_scheme \<Rightarrow> 'w git \<Rightarrow> 'w \<Rightarrow> string \<Rightarrow> string \<Rightarrow> string \<Rightarrow> nat
   \<Rightarrow> kernel_error + genesis_descriptor \<times> scanned_log" where
  "scan_genesis L G w format genesis head depth =
     and_then (git_res (read_commit L G w format genesis)) (\<lambda>c.
     and_then (genesis_res (parse_genesis_message L (normalize_genesis_message (cx_message c)))) (\<lambda>d.
       if gd_object_format d \<noteq> format then Inl FormatDiffers
       else and_then (git_res (verify_ssh_signature L c (gd_sequencer_key d))) (\<lambda>_.
            and_then (validate_chain_parents 0 (cx_parents c) []) (\<lambda>_.
              Inr (d, fresh_log genesis head depth d)))))"

definition scan_head_into ::
  "('l) kernel_lib_scheme \<Rightarrow> 'w git \<Rightarrow> 'w \<Rightarrow> string \<Rightarrow> string \<Rightarrow> bool \<Rightarrow> 's sink \<Rightarrow> 's
   \<Rightarrow> kernel_error + scanned_log \<times> 's" where
  "scan_head_into L G w genesis head load sink s =
     and_then (of_option (GitError GitFailed) (gt_rev_list G head w)) (\<lambda>commits.
     and_then (validate_sequence_bounds commits genesis head) (\<lambda>_.
     and_then (of_option InvalidGenesisId (format_of_genesis genesis)) (\<lambda>format.
     and_then (scan_genesis L G w format genesis head (length commits - 1)) (\<lambda>(d, log).
     and_then (scan_rest L G w format d load sink genesis (tl commits) (log, s)) (\<lambda>ls.
       if \<not> gt_batch_ends G w then Inl (GitError GitFailed) else Inr ls)))))"

definition scan_head ::
  "('l) kernel_lib_scheme \<Rightarrow> 'w git \<Rightarrow> 'w \<Rightarrow> string \<Rightarrow> string \<Rightarrow> bool \<Rightarrow> kernel_error + scanned_log" where
  "scan_head L G w genesis head load =
     and_then (scan_head_into L G w genesis head load None ()) (\<lambda>(log, _). Inr log)"

section \<open>The scan of a suffix\<close>

record 's delta_scan =
  ds_base :: scanned_log
  ds_descriptor :: "genesis_descriptor option"
  ds_expected_parent :: string
  ds_events :: "event list"
  ds_additions :: "(string \<times> event) list"
  ds_positions :: nat
  ds_count :: nat
  ds_sink :: 's

definition new_delta_scan :: "scanned_log \<Rightarrow> 's \<Rightarrow> 's delta_scan" where
  "new_delta_scan base s =
     \<lparr>ds_base = base, ds_descriptor = None, ds_expected_parent = sl_head base, ds_events = [],
      ds_additions = [], ds_positions = 0, ds_count = 0, ds_sink = s\<rparr>"

text \<open>\<open>retain\<close> keeps the events; without it they go to the callback, when there is one.\<close>

definition delta_take ::
  "bool \<Rightarrow> 's sink \<Rightarrow> event \<Rightarrow> 's delta_scan \<Rightarrow> kernel_error + 's delta_scan" where
  "delta_take retain sink e ds =
     (if retain then Inr (ds\<lparr>ds_events := ds_events ds @ [e]\<rparr>)
      else (case sink of
              None \<Rightarrow> Inr ds
            | Some f \<Rightarrow>
                (case f e (ds_sink ds) of
                   None \<Rightarrow> Inl SinkFailed | Some s \<Rightarrow> Inr (ds\<lparr>ds_sink := s\<rparr>))))"

definition delta_descriptor ::
  "('l) kernel_lib_scheme \<Rightarrow> 'w git \<Rightarrow> 'w \<Rightarrow> 's delta_scan \<Rightarrow> kernel_error + genesis_descriptor" where
  "delta_descriptor L G w ds =
     (case ds_descriptor ds of
        Some d \<Rightarrow> Inr d | None \<Rightarrow> descriptor L G w (sl_genesis (ds_base ds)))"

definition delta_enter ::
  "('l) kernel_lib_scheme \<Rightarrow> bool \<Rightarrow> 's sink \<Rightarrow> string \<Rightarrow> loaded \<Rightarrow> 's delta_scan
   \<Rightarrow> kernel_error + 's delta_scan" where
  "delta_enter L retain sink oid loaded ds =
     (let base = ds_base ds in
      case loaded of
        LoadedRotation successor \<Rightarrow>
          if successor = sl_sequencer_key base then Inl RotatesToCurrent
          else Inr (ds\<lparr>ds_base := base\<lparr>sl_sequencer_key := successor\<rparr>,
                       ds_expected_parent := oid, ds_positions := ds_positions ds + 1\<rparr>)
      | LoadedEvent e \<Rightarrow>
          and_then (intent_res (dedup_key L (ev_signed e))) (\<lambda>key.
          and_then (unclaimed_key (sl_dedup base key) (ev_signed e)) (\<lambda>_.
          and_then (unclaimed_key (map_of (ds_additions ds) key) (ev_signed e)) (\<lambda>_.
          and_then (delta_take retain sink e
                      (ds\<lparr>ds_additions := put key (event_without_payload e) (ds_additions ds),
                          ds_count := ds_count ds + 1\<rparr>)) (\<lambda>ds1.
            Inr (ds1\<lparr>ds_expected_parent := oid, ds_positions := ds_positions ds1 + 1\<rparr>))))))"

definition delta_accept ::
  "('l) kernel_lib_scheme \<Rightarrow> 'w git \<Rightarrow> 'w \<Rightarrow> bool \<Rightarrow> bool \<Rightarrow> 's sink \<Rightarrow> string \<Rightarrow> 's delta_scan
   \<Rightarrow> kernel_error + 's delta_scan" where
  "delta_accept L G w load retain sink oid ds =
     and_then (delta_descriptor L G w ds) (\<lambda>d.
     and_then (git_res (read_commit L G w (gd_object_format d) oid)) (\<lambda>c.
     and_then (case validate_chain_parents 1 (cx_parents c) (ds_expected_parent ds) of
                 Inl _ \<Rightarrow> Inl NotDescendant | Inr u \<Rightarrow> Inr u) (\<lambda>_.
     and_then (git_res (verify_ssh_signature L c (sl_sequencer_key (ds_base ds)))) (\<lambda>_.
     and_then (load_commit L G w (gd_object_format d) d (sl_genesis (ds_base ds)) c load) (\<lambda>loaded.
       delta_enter L retain sink oid loaded (ds\<lparr>ds_descriptor := Some d\<rparr>))))))"

fun delta_walk ::
  "('l) kernel_lib_scheme \<Rightarrow> 'w git \<Rightarrow> 'w \<Rightarrow> bool \<Rightarrow> bool \<Rightarrow> 's sink \<Rightarrow> string list \<Rightarrow> 's delta_scan
   \<Rightarrow> kernel_error + 's delta_scan" where
  "delta_walk L G w load retain sink [] ds = Inr ds"
| "delta_walk L G w load retain sink (oid # oids) ds =
     and_then (delta_accept L G w load retain sink oid ds) (delta_walk L G w load retain sink oids)"

text \<open>The batch reader is opened by the first commit; without one there is nothing to close.\<close>

definition delta_close :: "'w git \<Rightarrow> 'w \<Rightarrow> 's delta_scan \<Rightarrow> kernel_error + unit" where
  "delta_close G w ds =
     (if ds_descriptor ds = None then Inr ()
      else require (gt_batch_ends G w) (GitError GitFailed))"

definition delta_finish :: "string \<Rightarrow> 's delta_scan \<Rightarrow> kernel_error + scanned_log" where
  "delta_finish head ds =
     (let base = ds_base ds in
      if ds_positions ds = 0 then
        (if head \<noteq> sl_head base then Inl NotDescendant else Inr (base\<lparr>sl_events := []\<rparr>))
      else if ds_expected_parent ds \<noteq> head then Inl NotDescendant
      else Inr (base\<lparr>sl_dedup := sl_dedup base ++ map_of (ds_additions ds),
                     sl_positions := sl_positions base \<union> (ev_commit \<circ> snd) ` set (ds_additions ds),
                     sl_head := head, sl_depth := sl_depth base + ds_positions ds,
                     sl_count := sl_count base + ds_count ds, sl_events := ds_events ds\<rparr>))"

definition scan_after ::
  "('l) kernel_lib_scheme \<Rightarrow> 'w git \<Rightarrow> 'w \<Rightarrow> scanned_log \<Rightarrow> string \<Rightarrow> bool \<Rightarrow> kernel_error + scanned_log" where
  "scan_after L G w base head load =
     (if sl_genesis base = [] \<or> sl_head base = [] then Inl NotDescendant
      else (case gt_log_after G (sl_head base) head w of
        (oids, ended) \<Rightarrow>
          and_then (delta_walk L G w load True None oids (new_delta_scan base ())) (\<lambda>ds.
          and_then (require ended (GitError GitFailed)) (\<lambda>_.
          and_then (delta_close G w ds) (\<lambda>_. delta_finish head ds)))))"

definition scan_listed_after ::
  "('l) kernel_lib_scheme \<Rightarrow> 'w git \<Rightarrow> 'w \<Rightarrow> scanned_log \<Rightarrow> string \<Rightarrow> string list \<Rightarrow> bool \<Rightarrow> bool
   \<Rightarrow> 's sink \<Rightarrow> 's \<Rightarrow> kernel_error + scanned_log \<times> 's" where
  "scan_listed_after L G w base head oids load retain sink s =
     (if sl_genesis base = [] \<or> sl_head base = [] then Inl NotDescendant
      else and_then (delta_walk L G w load retain sink oids (new_delta_scan base s)) (\<lambda>ds.
           and_then (delta_close G w ds) (\<lambda>_.
           and_then (delta_finish head ds) (\<lambda>log. Inr (log, ds_sink ds)))))"

end
