(* ===== verification/IntentFacts.thy ===== *)
theory IntentFacts
  imports Intents
begin

text \<open>
  What signed intents and their envelopes promise: a signed intent verifies, the retry identity
  separates its four parts, and the envelope is read back as written. White space at the end of the
  last reference is the one thing the envelope does not survive, because its reader trims it.
\<close>

section \<open>White space at the ends\<close>

lemma has_suffix_append: "has_suffix w s \<longleftrightarrow> (\<exists>p. s = p @ w)"
proof
  assume "has_suffix w s"
  then obtain q where "rev s = rev w @ q"
    unfolding has_suffix_def using has_prefixD by blast
  then have "s = rev q @ w"
    by (metis rev_append rev_rev_ident)
  then show "\<exists>p. s = p @ w" ..
qed (auto simp: has_suffix_def)

lemma newline_byte: "char_of (10 :: nat) = newline"
proof -
  have "byte_val newline = (10 :: nat)"
    by simp
  then show ?thesis
    using char_of_char [of newline, where 'a = nat] by simp
qed

lemma white_space_shape:
  "list_all (\<lambda>w. w \<noteq> [] \<and> (byte_val (last w) = 10 \<longrightarrow> w = [newline])
      \<and> (byte_val (last w) \<le> 32 \<or> 128 \<le> byte_val (last w))
      \<and> (byte_val (hd w) \<le> 32 \<or> 128 \<le> byte_val (hd w))
      \<and> list_all (\<lambda>c. 128 \<le> byte_val c) (butlast w)) white_space"
  by (simp add: white_space_def newline_byte upt_rec)

lemma white_space_bytes:
  assumes "w \<in> set white_space"
  shows "byte_val (last w) = 10 \<Longrightarrow> w = [newline]"
    "byte_val (last w) \<le> 32 \<or> 128 \<le> byte_val (last w)"
    "byte_val (hd w) \<le> 32 \<or> 128 \<le> byte_val (hd w)"
    "c \<in> set (butlast w) \<Longrightarrow> 128 \<le> byte_val c"
  using assms white_space_shape by (auto simp: list_all_iff)

lemma find_white:
  assumes "List.find p white_space = Some w"
  shows "w \<in> set white_space" "p w"
  using assms by (auto simp: find_Some_iff)

lemma trim_right_none:
  "(\<And>w. w \<in> set white_space \<Longrightarrow> \<not> has_suffix w s) \<Longrightarrow> trim_right s = s"
  by (subst trim_right.simps) (auto split: option.splits dest: find_white)

lemma length_trim_right: "length (trim_right s) \<le> length s"
proof (induction s rule: trim_right.induct)
  case (1 s)
  then show ?case
    by (subst trim_right.simps) (fastforce split: option.splits)
qed

lemma trim_right_fixed:
  assumes "trim_right s = s" "w \<in> set white_space"
  shows "\<not> has_suffix w s"
proof
  assume "has_suffix w s"
  then obtain v where v: "List.find (\<lambda>w. has_suffix w s) white_space = Some v"
    using assms(2) by (metis (mono_tags, lifting) find_None_iff not_None_eq)
  then have "0 < length v" "length v \<le> length s"
    using find_white [OF v] white_space_nonempty by (auto simp: has_suffix_append)
  then have "length (trim_right (take (length s - length v) s)) < length s"
    using le_less_trans [OF length_trim_right, of "take (length s - length v) s" "length s"]
    by (simp only: length_take)
  moreover have "trim_right s = trim_right (take (length s - length v) s)"
    using v by (subst trim_right.simps) simp
  ultimately show False
    using assms(1) by simp
qed

lemma trim_right_newline: "trim_right (s @ [newline]) = trim_right s"
proof -
  have "List.find (\<lambda>w. has_suffix w (s @ [newline])) white_space = Some [newline]"
  proof -
    have mem: "[newline] \<in> set white_space"
      by (simp add: white_space_def newline_byte)
    then obtain v where v: "List.find (\<lambda>w. has_suffix w (s @ [newline])) white_space = Some v"
      by (metis (mono_tags, lifting) find_None_iff has_suffix_append not_None_eq)
    then have in_white: "v \<in> set white_space" and suf: "has_suffix v (s @ [newline])"
      by (auto dest: find_white)
    then have "last v = newline"
      using white_space_nonempty by (metis has_suffix_append last_appendR last_snoc)
    then have "byte_val (last v) = 10"
      by simp
    then show ?thesis
      using v white_space_bytes(1) [OF in_white] by simp
  qed
  then show ?thesis
    by (subst trim_right.simps) simp
qed

lemma trim_right_after:
  assumes "trim_right r = r" "r \<noteq> []" "last x = CHR '' '' \<or> last x = newline" "x \<noteq> []"
  shows "trim_right (x @ r) = x @ r"
proof (rule trim_right_none, rule notI)
  fix w
  assume w: "w \<in> set white_space" and "has_suffix w (x @ r)"
  then obtain p where p: "x @ r = p @ w"
    by (auto simp: has_suffix_append)
  then consider us where "x @ us = p" "r = us @ w" | us where "x = p @ us" "us @ r = w"
    by (auto simp: append_eq_append_conv2)
  then show False
  proof cases
    case 1
    then show ?thesis
      using trim_right_fixed [OF assms(1) w] by (simp add: has_suffix_append)
  next
    case 2
    show ?thesis
    proof (cases "us = []")
      case True
      then show ?thesis
        using 2 trim_right_fixed [OF assms(1) w] by (auto simp: has_suffix_append)
    next
      case False
      then have "last us = CHR '' '' \<or> last us = newline" "last us \<in> set (butlast w)"
        using 2 assms(2,3) last_in_set [OF False] by (auto simp: butlast_append simp del: last_in_set)
      then have "byte_val (last us) < 128" "128 \<le> byte_val (last us)"
        using white_space_bytes(4) [OF w] by auto
      then show ?thesis
        by simp
    qed
  qed
qed

lemma trim_right_printable:
  assumes "s \<noteq> []" "32 < byte_val (last s)" "byte_val (last s) < 128"
  shows "trim_right s = s"
proof (rule trim_right_none, rule notI)
  fix w
  assume w: "w \<in> set white_space" and "has_suffix w s"
  then have "last w = last s"
    using white_space_nonempty by (metis has_suffix_append last_appendR)
  then show False
    using white_space_bytes(2) [OF w] assms by auto
qed

lemma trim_left_printable:
  assumes "s \<noteq> []" "32 < byte_val (hd s)" "byte_val (hd s) < 128"
  shows "trim_left s = s"
proof -
  have "\<not> has_prefix w s" if w: "w \<in> set white_space" for w
  proof
    assume "has_prefix w s"
    then have "hd w = hd s"
      using white_space_nonempty [OF w] by (metis has_prefixD hd_append2)
    then show False
      using white_space_bytes(3) [OF w] assms by auto
  qed
  then have "List.find (\<lambda>w. has_prefix w s) white_space = None"
    by (simp add: find_None_iff)
  then show ?thesis
    by (subst trim_left.simps) simp
qed

lemma trim_space_line:
  assumes "s \<noteq> []" "32 < byte_val (hd s)" "byte_val (hd s) < 128"
    "32 < byte_val (last s)" "byte_val (last s) < 128"
  shows "trim_space (s @ [newline]) = s"
proof -
  have "trim_left (s @ [newline]) = s @ [newline]"
    using assms by (intro trim_left_printable) auto
  then show ?thesis
    unfolding trim_space_def using trim_right_newline trim_right_printable assms by simp
qed

section \<open>The envelope\<close>

text \<open>The lines of an envelope after its marker.\<close>

definition signed_lines :: "signed \<Rightarrow> string list" where
  "signed_lines s =
     [''Intent: '' @ b64_encode (sg_intent s), ''Actor-Key: '' @ b64_encode (sg_actor_key s),
      ''Actor-Signature: '' @ b64_encode (sg_signature s)]"

definition reference_lines :: "string list \<Rightarrow> string list" where
  "reference_lines rests = map (\<lambda>r. ''Rests-On: '' @ r) rests"

lemma join_lines_Cons: "join_lines (l # ls) = l @ concat (map (\<lambda>m. newline # m) ls)"
  by (induction ls arbitrary: l) auto

lemma envelope_lines_of:
  "envelope s rests = join_lines (event_marker # signed_lines s @ reference_lines rests) @ [newline]"
  by (simp add: envelope_def join_lines_Cons signed_lines_def reference_lines_def comp_def)

lemma join_lines_end: "ls \<noteq> [] \<Longrightarrow> join_lines ls @ [newline] = join_lines (ls @ [[]])"
  by (cases ls) (simp_all add: join_lines_Cons)

lemma b64_no_newline: "newline \<notin> set (b64_encode s)"
  using b64_encode_printable [of newline s] by auto

lemma split_envelope:
  assumes "\<forall>r\<in>set rests. newline \<notin> set r"
  shows "split_char newline (envelope s rests)
    = event_marker # signed_lines s @ reference_lines rests @ [[]]"
proof -
  have "split_char newline (join_lines (event_marker # signed_lines s @ reference_lines rests @ [[]]))
      = event_marker # signed_lines s @ reference_lines rests @ [[]]"
    by (rule split_join_lines)
       (use assms b64_no_newline in \<open>auto simp: signed_lines_def reference_lines_def event_marker_def\<close>)
  then show ?thesis
    by (simp add: envelope_lines_of join_lines_end)
qed

lemma read_references:
  "envelope_lines values got (reference_lines rests @ [[]]) = Inr (values, got @ rests)"
  using cut_colon_found [of "''Rests-On''"]
  by (induction rests arbitrary: got) (auto simp: reference_lines_def)

lemma read_field:
  assumes "CHR '':'' \<notin> set k" "k \<noteq> ''Rests-On''" "k \<noteq> []" "\<not> body_has values k"
  shows "envelope_lines values got ((k @ CHR '':'' # CHR '' '' # v) # ls)
    = envelope_lines ((k, v) # values) got ls"
  using assms cut_colon_found [OF assms(1)] by simp

lemma read_signed_lines:
  "envelope_lines [] got (signed_lines s @ ls)
   = envelope_lines [(''Actor-Signature'', b64_encode (sg_signature s)),
       (''Actor-Key'', b64_encode (sg_actor_key s)), (''Intent'', b64_encode (sg_intent s))] got ls"
  using read_field [of "''Intent''" "[]" got "b64_encode (sg_intent s)"]
    read_field [of "''Actor-Key''" "[(''Intent'', b64_encode (sg_intent s))]" got
      "b64_encode (sg_actor_key s)"]
    read_field [of "''Actor-Signature''" "[(''Actor-Key'', b64_encode (sg_actor_key s)),
      (''Intent'', b64_encode (sg_intent s))]" got "b64_encode (sg_signature s)"]
  by (simp add: signed_lines_def body_simps del: envelope_lines.simps)

lemma parse_envelope_printed:
  assumes "\<forall>r\<in>set rests. newline \<notin> set r" "length (envelope s rests) \<le> max_bytes"
  shows "parse_envelope (envelope s rests) max_bytes = Inr (s, rests)"
proof -
  have "max_bytes \<noteq> 0"
    using assms(2) by (cases max_bytes) (auto simp: envelope_def event_marker_def)
  then show ?thesis
    using assms(2)
    unfolding parse_envelope_def split_envelope [OF assms(1)]
    by (simp add: read_signed_lines read_references body_simps)
qed

text \<open>What the reader of a commit makes of a message: the trailing white space becomes one line feed.\<close>

definition survives :: "string list \<Rightarrow> bool" where
  "survives rests \<longleftrightarrow> rests = [] \<or> trim_right (last rests) = last rests"

lemma last_b64:
  assumes "s \<noteq> []"
  shows "32 < byte_val (last (x @ b64_encode s))" "byte_val (last (x @ b64_encode s)) < 128"
proof -
  have "b64_encode s \<noteq> []"
    using assms b64_encode_inject [of s "[]"] by (auto simp: b64_encode_def)
  then have "last (x @ b64_encode s) \<in> set (b64_encode s)"
    by simp
  then show "32 < byte_val (last (x @ b64_encode s))" "byte_val (last (x @ b64_encode s)) < 128"
    using b64_encode_printable by fastforce+
qed

lemma trim_envelope:
  assumes "survives rests" "[] \<notin> set rests" "sg_signature s \<noteq> []"
  shows "trim_right (envelope s rests) @ [newline] = envelope s rests"
proof -
  let ?body = "join_lines (event_marker # signed_lines s @ reference_lines rests)"
  let ?signed = "event_marker @ newline # ''Intent: '' @ b64_encode (sg_intent s)
      @ newline # ''Actor-Key: '' @ b64_encode (sg_actor_key s)
      @ newline # ''Actor-Signature: ''"
  have "trim_right ?body = ?body"
  proof (cases rests rule: rev_cases)
    case Nil
    have "?body = ?signed @ b64_encode (sg_signature s)"
      by (simp add: Nil join_lines_Cons signed_lines_def reference_lines_def)
    then show ?thesis
      using last_b64 [OF assms(3), of ?signed] by (intro trim_right_printable) auto
  next
    case (snoc init r)
    define before where "before = ?signed @ b64_encode (sg_signature s)
      @ concat (map (\<lambda>r. newline # ''Rests-On: '' @ r) init) @ newline # ''Rests-On: ''"
    have "?body = before @ r"
      by (simp add: before_def snoc join_lines_Cons signed_lines_def reference_lines_def comp_def)
    moreover have "trim_right (before @ r) = before @ r"
      by (rule trim_right_after)
         (use assms snoc in \<open>auto simp: survives_def before_def\<close>)
    ultimately show ?thesis
      by simp
  qed
  then show ?thesis
    by (simp add: envelope_lines_of trim_right_newline)
qed

section \<open>The retry identity\<close>

lemma zero_free_inject:
  assumes "zero_byte \<notin> set a" "zero_byte \<notin> set a'" "a @ zero_byte # s = a' @ zero_byte # s'"
  shows "a = a' \<and> s = s'"
  using assms by (auto simp: append_eq_append_conv2 Cons_eq_append_conv append_eq_Cons_conv)

lemma contains_any_free: "\<not> contains_any forbidden_bytes v \<Longrightarrow> zero_byte \<notin> set v \<and> newline \<notin> set v"
  by (auto simp: contains_any_def list_ex_iff)

lemma field_ok: "field_error (n, v) = None \<Longrightarrow> v \<noteq> [] \<and> length v \<le> max_string_bytes
    \<and> \<not> contains_any forbidden_bytes v"
  by (auto simp: field_error_def split: if_splits)

lemma validate_fields:
  assumes "validate i = None"
  shows "field_error (''target'', in_target i) = None"
    "field_error (''payload tree'', in_payload_tree i) = None"
    "field_error (''idempotency namespace'', in_namespace i) = None"
    "field_error (''idempotency key'', in_key i) = None"
    "list_all valid_reference (in_rests_on i)" "in_version i = 0"
  using assms by (auto simp: validate_def intent_version_def list_all_iff list_ex_iff find_None_iff
      split: if_splits option.splits)

lemma decode_intent_ok:
  assumes "decode_intent L data = Inr i"
  shows "validate i = None" "kl_intent L i = Some data"
  using assms by (auto simp: decode_intent_def split: option.splits if_splits)

lemma verify_signed_ok:
  assumes "verify_signed L s = Inr i"
  shows "decode_intent L (sg_intent s) = Inr i" "length (sg_actor_key s) = key_size"
    "length (sg_signature s) = sig_size"
    "kl_ed25519_verify L (sg_actor_key s) (domain_tag @ sg_intent s) (sg_signature s)"
  using assms by (auto simp: verify_signed_def signing_bytes_def split: sum.splits if_splits)

lemma fingerprint_free: "zero_byte \<notin> set (fingerprint_of L key)"
  using hex_encode_lower [of "kl_sha256 L key"]
  by (auto simp: fingerprint_of_def list_all_iff is_lower_hex_def)

lemma dedup_identity_inject:
  assumes "validate i = None" "validate j = None"
    and "dedup_identity L (in_target i) k (in_namespace i) (in_key i)
       = dedup_identity L (in_target j) k' (in_namespace j) (in_key j)"
  shows "in_target i = in_target j" "kl_sha256 L k = kl_sha256 L k'"
    "in_namespace i = in_namespace j" "in_key i = in_key j"
proof -
  have free: "zero_byte \<notin> set (in_target i)" "zero_byte \<notin> set (in_target j)"
    "zero_byte \<notin> set (in_namespace i)" "zero_byte \<notin> set (in_namespace j)"
    using validate_fields [OF assms(1)] validate_fields [OF assms(2)] field_ok contains_any_free
    by meson+
  have "in_target i = in_target j \<and> fingerprint_of L k @ zero_byte # in_namespace i @ zero_byte # in_key i
      = fingerprint_of L k' @ zero_byte # in_namespace j @ zero_byte # in_key j"
    using assms(3) zero_free_inject [OF free(1,2)] by (simp add: dedup_identity_def dedup_identity_for_def)
  moreover from this have "fingerprint_of L k = fingerprint_of L k'
      \<and> in_namespace i @ zero_byte # in_key i = in_namespace j @ zero_byte # in_key j"
    using zero_free_inject [OF fingerprint_free fingerprint_free] by blast
  moreover from this have "in_namespace i = in_namespace j \<and> in_key i = in_key j"
    using zero_free_inject [OF free(3,4)] by blast
  ultimately show "in_target i = in_target j" "kl_sha256 L k = kl_sha256 L k'"
    "in_namespace i = in_namespace j" "in_key i = in_key j"
    by (auto simp: fingerprint_of_def)
qed

end
