(* ===== verification/GitFacts.thy ===== *)
theory GitFacts
  imports GitObjects IntentFacts
begin

text \<open>
  What the readers of Git objects accept: printed keys, signatures, commits and trees are read back.
  The printers here state Git's documented formats; the repository writes these objects through the
  Git program.
\<close>

section \<open>Standard base64\<close>

lemma std_alphabet:
  "c \<in> set (b64_std_encode s) \<Longrightarrow> 43 \<le> byte_val c \<and> byte_val c \<le> 122"
  using b64_groups_printable [of c False s] by (auto simp: b64_std_encode_def)

lemma without_breaks_std [simp]: "without_breaks (b64_std_encode s) = b64_std_encode s"
  unfolding without_breaks_def using std_alphabet [of _ s]
  by (intro filter_True) fastforce

lemma groups_no_padding: "s \<noteq> [] \<Longrightarrow> b64_groups url s \<noteq> []"
  by (cases "(url, s)" rule: b64_groups.cases) auto

lemma groups_end: "\<not> has_suffix ''='' (b64_groups url s)"
proof
  assume "has_suffix ''='' (b64_groups url s)"
  then have "CHR ''='' \<in> set (b64_groups url s)"
    by (auto simp: has_suffix_append)
  then show False
    using b64_groups_printable by fastforce
qed

lemma suffix_two: "has_suffix ''=='' s \<Longrightarrow> has_suffix ''='' s"
  by (auto simp: has_suffix_append)

lemma std_body:
  "(if has_suffix ''=='' t then take (length t - 2) t
    else if has_suffix ''='' t then take (length t - 1) t else t) = b64_groups False s"
  if "t = b64_std_encode s"
proof -
  let ?g = "b64_groups False s"
  consider "length s mod 3 = 0" | "length s mod 3 = 1" | "length s mod 3 = 2"
    using mod_less_divisor [of 3 "length s"] by linarith
  then show ?thesis
  proof cases
    case 1
    then have "t = ?g"
      by (simp add: that b64_std_encode_def)
    then show ?thesis
      using groups_end [of False s] suffix_two by auto
  next
    case 2
    then have "t = ?g @ ''==''"
      by (simp add: that b64_std_encode_def numeral_2_eq_2)
    then show ?thesis
      by (simp add: has_suffix_append)
  next
    case 3
    then have t: "t = ?g @ ''=''"
      by (simp add: that b64_std_encode_def)
    then have "\<not> has_suffix ''=='' t"
      using groups_end [of False s] by (auto simp: has_suffix_append append_eq_append_conv2 Cons_eq_append_conv append_eq_Cons_conv)
    then show ?thesis
      using t by (simp add: has_suffix_append)
  qed
qed

lemma length_std: "length (b64_std_encode s) mod 4 = 0"
proof -
  have "length (b64_groups url s) + (3 - length s mod 3) mod 3 = 4 * ((length s + 2) div 3)" for url
  proof (induction url s rule: b64_groups.induct)
    case (4 url a b c s)
    have "(length (a # b # c # s) + 2) div 3 = (length s + 2) div 3 + 1"
      by simp
    with 4 show ?case
      by simp
  qed auto
  then show ?thesis
    by (simp add: b64_std_encode_def)
qed

lemma b64_std_decode_encode [simp]: "b64_std_decode (b64_std_encode s) = Some s"
  using read_groups [of False s] length_std [of s] std_body [OF refl, of s]
  by (auto simp: b64_std_decode_def Let_def)

section \<open>Keys and signatures\<close>

lemma ssh_wire_append [simp]:
  assumes "length v < 4294967296"
  shows "ssh_wire_string (append_ssh_string [] v @ r) = Some (v, r)"
proof -
  have "read_be32 (be32 (length v)) = length v"
    using read_be32_append [of "length v" "[]"] assms by simp
  then show ?thesis
    using assms by (simp add: ssh_wire_string_def append_ssh_string_def Let_def)
qed

lemma append_ssh_string_append: "append_ssh_string t v = t @ append_ssh_string [] v"
  by (simp add: append_ssh_string_def)

text \<open>The one canonical form of a sequencer key.\<close>

definition ssh_key_wire :: "bytes \<Rightarrow> bytes" where
  "ssh_key_wire key = append_ssh_string [] ''ssh-ed25519'' @ append_ssh_string [] key"

definition ssh_key_line :: "bytes \<Rightarrow> string" where
  "ssh_key_line key = ''ssh-ed25519 '' @ b64_std_encode (ssh_key_wire key)"

lemma std_no_space: "CHR '' '' \<notin> set (b64_std_encode s)"
  using std_alphabet [of "CHR '' ''" s] by auto

lemma parse_ssh_key_line:
  assumes "length key = key_size"
  shows "parse_ssh_public_key (ssh_key_line key) = Inr (ssh_key_wire key, key)"
proof -
  have split: "split_char (CHR '' '') (ssh_key_line key)
      = [''ssh-ed25519'', b64_std_encode (ssh_key_wire key)]"
    using split_char_Cons [of "CHR '' ''" "''ssh-ed25519''"] split_char_end [OF std_no_space]
    by (simp add: ssh_key_line_def)
  have "ssh_wire_string (ssh_key_wire key) = Some (''ssh-ed25519'', append_ssh_string [] key)"
    unfolding ssh_key_wire_def by (rule ssh_wire_append) simp
  moreover have "ssh_wire_string (append_ssh_string [] key) = Some (key, [])"
    using ssh_wire_append [of key "[]"] assms by (simp add: key_size_def)
  ultimately show ?thesis
    using assms by (simp add: parse_ssh_public_key_def split)
qed

lemma split_one: "split_char c y = [b] \<Longrightarrow> y = b"
  by (induction y arbitrary: b) (auto split: if_splits list.splits)

lemma split_two: "split_char c k = [a, b] \<Longrightarrow> k = a @ c # b"
proof (induction k arbitrary: a)
  case (Cons x k)
  show ?case
  proof (cases "x = c")
    case True
    then show ?thesis
      using Cons.prems split_one by auto
  next
    case False
    then obtain w where "split_char c k = [w, b]" "a = x # w"
      using Cons.prems by (auto split: list.splits)
    then show ?thesis
      using Cons.IH by simp
  qed
qed simp

lemma parse_ssh_public_key_ok:
  assumes "parse_ssh_public_key k = Inr (raw, key)"
  shows "length key = key_size" "k = ''ssh-ed25519 '' @ b64_std_encode raw"
proof -
  obtain a b where split: "split_char (CHR '' '') k = [a, b]"
    using assms by (auto simp: parse_ssh_public_key_def split: list.splits)
  show "length key = key_size"
    using assms by (auto simp: parse_ssh_public_key_def split split: if_splits option.splits)
  have "a = ''ssh-ed25519''" "b = b64_std_encode raw"
    using assms by (auto simp: parse_ssh_public_key_def split split: if_splits option.splits)
  then show "k = ''ssh-ed25519 '' @ b64_std_encode raw"
    using split_two [OF split] by simp
qed

text \<open>The body of an OpenSSH signature by that key over a digest.\<close>

definition ssh_signed_data :: "string \<Rightarrow> bytes \<Rightarrow> bytes" where
  "ssh_signed_data algorithm digest =
     append_ssh_string (append_ssh_string (append_ssh_string
       (append_ssh_string ''SSHSIG'' ''git'') []) algorithm) digest"

definition ssh_signature_blob :: "bytes \<Rightarrow> string \<Rightarrow> bytes \<Rightarrow> bytes" where
  "ssh_signature_blob wire algorithm raw =
     ''SSHSIG'' @ be32 1 @ append_ssh_string [] wire @ append_ssh_string [] ''git''
     @ append_ssh_string [] [] @ append_ssh_string [] algorithm
     @ append_ssh_string [] (append_ssh_string [] ''ssh-ed25519'' @ append_ssh_string [] raw)"

lemma length_append_ssh [simp]: "length (append_ssh_string t v) = length t + 4 + length v"
  by (simp add: append_ssh_string_def)

lemma ssh_wire_append_end: "length v < 4294967296 \<Longrightarrow> ssh_wire_string (append_ssh_string [] v) = Some (v, [])"
  using ssh_wire_append [of v "[]"] by simp

lemma verify_ssh_signature_printed:
  assumes key: "length key = key_size" and raw: "length raw = sig_size"
    and block: "kl_pem L (ac_signature c)
      = Some \<lparr>pb_type = ''SSH SIGNATURE'', pb_headers = 0,
              pb_bytes = ssh_signature_blob (ssh_key_wire key) ''sha512'' raw, pb_rest = []\<rparr>"
    and good: "kl_ed25519_verify L key
      (ssh_signed_data ''sha512'' (kl_sha512 L (ac_signed_content c))) raw"
  shows "verify_ssh_signature L c (ssh_key_line key) = Inr ()"
proof -
  let ?blob = "ssh_signature_blob (ssh_key_wire key) ''sha512'' raw"
  have head: "has_prefix ''SSHSIG'' ?blob" "drop 6 ?blob = be32 1 @ drop 10 ?blob"
    "drop 10 ?blob = append_ssh_string [] (ssh_key_wire key) @ append_ssh_string [] ''git''
     @ append_ssh_string [] [] @ append_ssh_string [] ''sha512''
     @ append_ssh_string [] (append_ssh_string [] ''ssh-ed25519'' @ append_ssh_string [] raw)"
    by (simp_all add: ssh_signature_blob_def be32_def)
  have version: "read_be32 (be32 1) = 1"
    using read_be32_append [of 1 "[]"] by simp
  have drop4: "drop 4 (be32 n @ s) = s" "take 4 (be32 n @ s) = be32 n" for n s
    by (simp_all add: be32_def)
  have sizes: "length (ssh_key_wire key) < 4294967296"
      "length (append_ssh_string [] ''ssh-ed25519'' @ append_ssh_string [] raw) < 4294967296"
      "length raw < 4294967296"
    using key raw by (simp_all add: ssh_key_wire_def key_size_def sig_size_def)
  have "length ?blob - 6 \<ge> 4"
    by (simp add: ssh_signature_blob_def)
  then show ?thesis
    unfolding verify_ssh_signature_def parse_ssh_key_line [OF key] block
    using good raw
    by (simp add: ssh_check_def head drop4 version [unfolded One_nat_def] ssh_field_def sizes(1,3) ssh_wire_append_end [OF sizes(2)] ssh_wire_append_end [OF sizes(3)]
        ssh_digest_def ssh_signed_data_def)
qed

section \<open>One object\<close>

text \<open>What \<open>git cat-file --batch\<close> prints for an object.\<close>

definition cat_answer :: "string \<Rightarrow> string \<Rightarrow> bytes \<Rightarrow> bytes" where
  "cat_answer oid kind content =
     oid @ CHR '' '' # kind @ CHR '' '' # format_uint (length content) @ newline # content @ [newline]"

lemma hex_printable: "c \<in> set (hex_encode s) \<Longrightarrow> 48 \<le> byte_val c \<and> byte_val c \<le> 102"
  using hex_encode_lower [of s] by (fastforce simp: list_all_iff is_lower_hex_def)

lemma cut_char_at: "c \<notin> set a \<Longrightarrow> cut_char c (a @ c # b) = (a, b, True)"
  by (induction a) auto

lemma git_hash_ok:
  assumes "git_hash L format kind content = Inr oid"
  shows "\<exists>digest. oid = hex_encode digest" "object_bytes_of format \<noteq> None"
  using assms by (auto simp: git_hash_def object_bytes_of_def Let_def split: if_splits)

lemma read_object_printed:
  assumes hash: "git_hash L format kind content = Inr oid"
    and width: "object_bytes_of format = Some n" "length oid = n * 2"
    and cat: "gt_cat G oid w = Some (cat_answer oid kind content)"
    and kind: "CHR '' '' \<notin> set kind" "newline \<notin> set kind"
    and bound: "length content \<le> max_bytes" "length content \<le> max_int"
  shows "read_object L G w format oid kind max_bytes = Inr content"
proof -
  obtain digest where oid: "oid = hex_encode digest"
    using git_hash_ok [OF hash] by blast
  have clean: "CHR '' '' \<notin> set oid" "newline \<notin> set oid"
    using hex_printable [of _ digest] oid by force+
  have size: "CHR '' '' \<notin> set (format_uint (length content))" "newline \<notin> set (format_uint (length content))"
    using format_uint_digits [of _ "length content"] by force+
  let ?line = "oid @ CHR '' '' # kind @ CHR '' '' # format_uint (length content)"
  have "cut_char newline (?line @ newline # content @ [newline]) = (?line, content @ [newline], True)"
    by (rule cut_char_at) (use clean kind size in auto)
  moreover have "split_char (CHR '' '') ?line = [oid, kind, format_uint (length content)]"
    using clean kind size by (simp add: split_char_Cons split_char_end)
  moreover have "length content < 2 ^ 64"
    using bound(2) by (simp add: max_int_def)
  ultimately show ?thesis
    using width cat bound hash hex_encode_lower [of digest] oid
    by (simp add: read_object_def cat_answer_def parse_cat_file_header_def parse_format_uint
        valid_object_id_def)
qed

lemma read_object_ok:
  assumes "read_object L G w format oid kind max_bytes = Inr content"
  shows "git_hash L format kind content = Inr oid" "length content \<le> max_bytes"
    "length content \<le> max_int" "\<exists>n. object_bytes_of format = Some n \<and> length oid = n * 2"
  using assms
  by (auto simp: read_object_def parse_cat_file_header_def valid_object_id_def and_then_Inr Let_def
      split: option.splits prod.splits if_splits list.splits)

section \<open>White-space separated words\<close>

definition plain_word :: "bytes \<Rightarrow> bool" where
  "plain_word v \<longleftrightarrow> v \<noteq> [] \<and> list_all (\<lambda>c. 32 < byte_val c \<and> byte_val c < 128) v"

lemma not_starts_white:
  assumes "32 < byte_val c" "byte_val c < 128"
  shows "\<not> starts_white (c # s)"
proof
  assume "starts_white (c # s)"
  then obtain v where v: "v \<in> set white_space" "has_prefix v (c # s)"
    by (auto simp: starts_white_def list_ex_iff)
  have "hd v = c"
    using v(2) white_space_nonempty [OF v(1)] by (cases v) auto
  then show False
    using white_space_bytes(3) [OF v(1)] assms by auto
qed

lemma space_white: "[CHR '' ''] \<in> set white_space"
proof -
  have "byte_val (CHR '' '') = (32 :: nat)"
    by simp
  then have "char_of (32 :: nat) = CHR '' ''"
    using char_of_char [of "CHR '' ''", where 'a = nat] by simp
  then show ?thesis
    by (simp add: white_space_def)
qed

lemma starts_white_space: "starts_white (CHR '' '' # s)"
  unfolding starts_white_def list_ex_iff by (rule bexI [OF _ space_white]) simp

lemma word_of_plain:
  "list_all (\<lambda>c. 32 < byte_val c \<and> byte_val c < 128) v \<Longrightarrow> s = [] \<or> starts_white s \<Longrightarrow> word_of (v @ s) = v"
proof (induction v)
  case Nil
  then show ?case by (cases s) auto
qed (use not_starts_white in auto)

lemma trim_left_space: "trim_left (CHR '' '' # s) = trim_left s"
proof -
  obtain v where v: "List.find (\<lambda>w. has_prefix w (CHR '' '' # s)) white_space = Some v"
    using starts_white_space [of s] unfolding starts_white_def list_ex_iff
    by (metis (mono_tags, lifting) find_None_iff not_None_eq)
  have white: "v \<in> set white_space" "has_prefix v (CHR '' '' # s)"
    using find_white [OF v] by auto
  obtain u where u: "v = CHR '' '' # u"
    using white(2) white_space_nonempty [OF white(1)] by (cases v) auto
  have "u = []"
  proof (rule ccontr)
    assume "u \<noteq> []"
    then have "CHR '' '' \<in> set (butlast v)"
      using u by simp
    then have "128 \<le> byte_val (CHR '' '')"
      using white_space_bytes(4) [OF white(1)] by blast
    then show False
      by simp
  qed
  then show ?thesis
    using v u by (subst trim_left.simps) simp
qed

fun join_words :: "bytes list \<Rightarrow> bytes" where
  "join_words [] = []"
| "join_words [v] = v"
| "join_words (v # vs) = v @ CHR '' '' # join_words vs"

lemma str_fields_space: "str_fields (CHR '' '' # s) = str_fields s"
  by (subst (1 2) str_fields.simps) (simp add: trim_left_space)

lemma str_fields_word:
  assumes "plain_word v" "s = [] \<or> starts_white s"
  shows "str_fields (v @ s) = v # str_fields s"
proof -
  have "trim_left (v @ s) = v @ s"
    using assms by (intro trim_left_printable) (cases v; auto simp: plain_word_def)+
  then show ?thesis
    using assms word_of_plain [of v s]
    by (subst str_fields.simps) (simp add: plain_word_def Let_def)
qed

lemma str_fields_join: "\<forall>v\<in>set vs. plain_word v \<Longrightarrow> str_fields (join_words vs) = vs"
proof (induction vs rule: join_words.induct)
  case 1
  then show ?case
    by (subst str_fields.simps, subst trim_left.simps) (simp add: white_space_def Let_def)
next
  case (2 v)
  have "str_fields [] = []"
    by (subst str_fields.simps, subst trim_left.simps) (simp add: white_space_def Let_def)
  then show ?case
    using 2 str_fields_word [of v "[]"] by simp
next
  case (3 v u us)
  then show ?case
    using str_fields_word [of v "CHR '' '' # join_words (u # us)"]
    by (simp add: starts_white_space str_fields_space)
qed

section \<open>Commits\<close>

text \<open>
  The bytes of a signed commit: header lines, the armor of the signature with its later lines
  indented, and the message after an empty line.
\<close>

record commit_parts =
  cp_tree :: string
  cp_parents :: "string list"
  cp_author :: string
  cp_committer :: "string list"
  cp_time :: int
  cp_zone :: string
  cp_armor :: "bytes list"
  cp_message :: string

definition print_int :: "int \<Rightarrow> string" where
  "print_int n = (if n < 0 then CHR ''-'' # format_uint (nat (- n)) else format_uint (nat n))"

definition committer_line :: "commit_parts \<Rightarrow> bytes" where
  "committer_line p =
     join_words (cp_committer p @ [print_int (cp_time p), cp_zone p])"

definition plain_headers :: "commit_parts \<Rightarrow> bytes list" where
  "plain_headers p =
     (''tree '' @ cp_tree p) # map (\<lambda>o'. ''parent '' @ o') (cp_parents p)
     @ [''author '' @ cp_author p, ''committer '' @ committer_line p]"

definition signature_headers :: "commit_parts \<Rightarrow> bytes list" where
  "signature_headers p =
     (case cp_armor p of [] \<Rightarrow> [] | l # ls \<Rightarrow> (''gpgsig '' @ l) # map (\<lambda>m. CHR '' '' # m) ls)"

definition commit_object :: "commit_parts \<Rightarrow> bytes" where
  "commit_object p =
     join_lines (plain_headers p @ signature_headers p) @ newline # newline # cp_message p"

text \<open>What the signature covers: the same object without the signature header.\<close>

definition unsigned_object :: "commit_parts \<Rightarrow> bytes" where
  "unsigned_object p =
     concat (map (\<lambda>l. l @ [newline]) (plain_headers p)) @ newline # cp_message p"

definition proper_commit :: "commit_parts \<Rightarrow> bool" where
  "proper_commit p \<longleftrightarrow>
     cp_tree p \<noteq> [] \<and> newline \<notin> set (cp_tree p)
     \<and> (\<forall>o'\<in>set (cp_parents p). o' \<noteq> [] \<and> newline \<notin> set o')
     \<and> cp_author p \<noteq> [] \<and> newline \<notin> set (cp_author p)
     \<and> list_all plain_word (cp_committer p) \<and> plain_word (cp_zone p)
     \<and> - (2 ^ 63) \<le> cp_time p \<and> cp_time p < 2 ^ 63
     \<and> cp_armor p \<noteq> [] \<and> hd (cp_armor p) \<noteq> [] \<and> (\<forall>l\<in>set (cp_armor p). newline \<notin> set l)"

lemma continues_Cons [simp]: "continues (c # s) \<longleftrightarrow> c = CHR '' ''"
  by (simp add: continues_def)

lemma plain_format: "plain_word (format_uint n)"
  unfolding plain_word_def using format_uint_digits [of _ n] by (fastforce simp: list_all_iff)

lemma plain_print_int: "plain_word (print_int n)"
  using plain_format [of "nat n"] plain_format [of "nat (- n)"]
  by (auto simp: print_int_def plain_word_def)

lemma parse_print_int:
  assumes "- (2 ^ 63) \<le> n" "n < 2 ^ 63"
  shows "parse_int (print_int n) = Some n"
proof -
  have low: "48 \<le> byte_val (hd (format_uint m))" for m
    using format_uint_digits [of "hd (format_uint m)" m] by simp
  have digit: "hd (format_uint m) \<noteq> CHR ''-''" "hd (format_uint m) \<noteq> CHR ''+''" for m
    using low [of m] by auto
  show ?thesis
  proof (cases "n < 0")
    case True
    then show ?thesis
      using assms digits_value_format [of "nat (- n)"] by (simp add: parse_int_def print_int_def)
  next
    case False
    obtain c r where "format_uint (nat n) = c # r"
      by (cases "format_uint (nat n)") auto
    then show ?thesis
      using False assms digits_value_format [of "nat n"] digit [of "nat n"]
      by (simp add: parse_int_def print_int_def)
  qed
qed

lemma cut_blank_line_headers:
  assumes "ls \<noteq> []" "\<forall>l\<in>set ls. l \<noteq> [] \<and> newline \<notin> set l"
  shows "cut_blank_line (join_lines ls @ newline # newline # m) = Some (join_lines ls, m)"
proof -
  have step: "cut_blank_line (l @ s) = map_option (\<lambda>(h, m). (l @ h, m)) (cut_blank_line s)"
    if "newline \<notin> set l" "s \<noteq> []" for l s
    using that
  proof (induction l)
    case (Cons a l)
    then obtain b r where "l @ s = b # r"
      by (cases "l @ s") auto
    moreover have "byte_val a \<noteq> 10"
      using Cons.prems newline_byte by (metis char_of_char list.set_intros(1))
    ultimately show ?case
      using Cons by (cases "cut_blank_line s") auto
  qed (cases "cut_blank_line s"; auto)
  show ?thesis
    using assms
  proof (induction ls rule: join_lines.induct)
    case (2 l)
    then show ?case
      by (simp add: step)
  next
    case (3 l k ks)
    obtain a r where k: "join_lines (k # ks) = a # r" "a \<noteq> newline"
      using 3(3) by (cases k; cases ks) auto
    then have "byte_val a \<noteq> 10"
      using newline_byte by (metis char_of_char)
    then have "cut_blank_line (newline # a # r @ newline # newline # m) = Some (newline # a # r, m)"
      using 3 k by simp
    then show ?case
      using 3 k step [of l "newline # a # r @ newline # newline # m"] by simp
  qed simp
qed

lemma header_line:
  assumes "CHR '' '' \<notin> set name" "name \<noteq> []" "v \<noteq> []" "name \<noteq> ''gpgsig''" "name \<noteq> ''gpgsig-sha256''"
  shows "header_lines ((name @ CHR '' '' # v) # ls) h =
    and_then (read_header name v (keep_line (name @ CHR '' '' # v) h\<lparr>ch_continued := True\<rparr>)) (header_lines ls)"
proof -
  have "\<not> continues (name @ CHR '' '' # v)"
    using assms(1,2) by (cases name) (auto simp: continues_def)
  then show ?thesis
    using assms by (simp add: cut_char_at)
qed

lemma parent_headers:
  "\<forall>o'\<in>set ps. o' \<noteq> [] \<Longrightarrow>
   header_lines (map (\<lambda>o'. ''parent '' @ o') ps @ ls) h =
   header_lines ls (h\<lparr>ch_parents := ch_parents h @ ps,
     ch_unsigned := ch_unsigned h @ concat (map (\<lambda>o'. ''parent '' @ o' @ [newline]) ps),
     ch_continued := (ps \<noteq> [] \<or> ch_continued h)\<rparr>)"
proof (induction ps arbitrary: h)
  case (Cons p ps)
  then show ?case
    using header_line [of "''parent''" p "map (\<lambda>o'. ''parent '' @ o') ps @ ls" h]
    by (simp add: read_header_def keep_line_def)
qed simp

lemma read_header_names:
  "read_header ''tree'' v h = (if ch_tree h \<noteq> [] then Inl MultipleTrees else Inr (h\<lparr>ch_tree := v\<rparr>))"
  "read_header ''author'' v h = Inr h"
  by (simp_all add: read_header_def)

lemma parse_commit_object:
  assumes proper: "proper_commit p"
  shows "parse_audited_commit oid (commit_object p) =
    Inr \<lparr>cx_oid = oid, cx_tree = cp_tree p, cx_parents = cp_parents p, cx_timestamp = cp_time p,
         cx_message = cp_message p, ac_signed_content = unsigned_object p,
         ac_signature = concat (map (\<lambda>l. l @ [newline]) (cp_armor p))\<rparr>"
proof -
  obtain l ls where armor: "cp_armor p = l # ls" "l \<noteq> []"
    using proper by (cases "cp_armor p") (auto simp: proper_commit_def)
  have words: "\<forall>v\<in>set (cp_committer p @ [print_int (cp_time p), cp_zone p]). plain_word v"
    using proper plain_print_int by (auto simp: proper_commit_def list_all_iff)
  have line: "str_fields (committer_line p) = cp_committer p @ [print_int (cp_time p), cp_zone p]"
    unfolding committer_line_def by (rule str_fields_join [OF words])
  have no_newline: "newline \<notin> set (join_words vs)" if "\<forall>v\<in>set vs. plain_word v" for vs
    using that by (induction vs rule: join_words.induct) (auto simp: plain_word_def list_all_iff)
  have nonempty: "committer_line p \<noteq> []"
    using line words by (metis append_is_Nil_conv list.discI str_fields_join join_words.simps(1) empty_iff list.set(1))
  have "newline \<notin> set (committer_line p)"
    unfolding committer_line_def using words by (rule no_newline)
  with nonempty have lines: "\<forall>l\<in>set (plain_headers p @ signature_headers p). l \<noteq> [] \<and> newline \<notin> set l"
    using proper armor by (auto simp: plain_headers_def signature_headers_def proper_commit_def)
  have parts: "cut_blank_line (commit_object p)
      = Some (join_lines (plain_headers p @ signature_headers p), cp_message p)"
    unfolding commit_object_def
    by (rule cut_blank_line_headers [OF _ lines]) (simp add: plain_headers_def)
  have split: "split_char newline (join_lines (plain_headers p @ signature_headers p))
      = plain_headers p @ signature_headers p"
    using lines by (intro split_join_lines) (auto simp: plain_headers_def)
  have committer: "read_header ''committer'' (committer_line p) h
      = (if ch_seen_time h then Inl MultipleCommitters
         else Inr (h\<lparr>ch_timestamp := cp_time p, ch_seen_time := True\<rparr>))" for h
    using proper by (simp add: read_header_def line parse_print_int nth_append proper_commit_def)
  have indented: "dropWhile continues (map ((#) (CHR '' '')) ls) = []"
    "takeWhile continues (map ((#) (CHR '' '')) ls) = map ((#) (CHR '' '')) ls"
    by (auto simp: dropWhile_eq_Nil_conv takeWhile_eq_all_conv continues_def)
  have sig: "header_lines (signature_headers p) h = (if ch_seen_sig h then Inl MultipleSignatures
      else Inr (h\<lparr>ch_seen_sig := True, ch_continued := False,
        ch_signature := concat (map (\<lambda>l. l @ [newline]) (cp_armor p))\<rparr>))" for h
    using armor cut_char_at [of "CHR '' ''" "''gpgsig''" l]
    by (simp add: signature_headers_def indented comp_def)
  have "header_lines (plain_headers p @ signature_headers p) no_headers =
      Inr \<lparr>ch_tree = cp_tree p, ch_parents = cp_parents p, ch_timestamp = cp_time p,
           ch_signature = concat (map (\<lambda>l. l @ [newline]) (cp_armor p)), ch_seen_sig = True,
           ch_seen_time = True, ch_continued = False,
           ch_unsigned = concat (map (\<lambda>l. l @ [newline]) (plain_headers p))\<rparr>"
    using proper header_line [of "''tree''" "cp_tree p"] header_line [of "''author''" "cp_author p"]
      header_line [of "''committer''" "committer_line p"] nonempty
    by (simp add: plain_headers_def proper_commit_def read_header_names parent_headers [simplified] committer sig
        no_headers_def keep_line_def comp_def)
  then show ?thesis
    using proper by (simp add: parse_audited_commit_def parts split proper_commit_def unsigned_object_def)
qed

end
