(* ===== verification/KernelScan.thy ===== *)
theory KernelScan
  imports KernelLog GitFacts
begin

text \<open>
  The two ways of verifying a log agree: scanning a suffix on top of a verified log accepts what the
  scan of the whole chain accepts, and arrives at the same log. What a successful scan establishes
  is stated without the loops: a chain of audited commits, each signed by the key in force, whose
  events hold pairwise different retry identities.
\<close>

section \<open>Results up to the error\<close>

definition ok :: "'e + 'a \<Rightarrow> 'a option" where
  "ok r = (case r of Inl _ \<Rightarrow> None | Inr a \<Rightarrow> Some a)"

lemma ok_simps [simp]: "ok (Inl e) = None" "ok (Inr a) = Some a"
  by (simp_all add: ok_def)

lemma ok_Some [simp]: "ok r = Some a \<longleftrightarrow> r = Inr a"
  by (cases r) auto

lemma map_and_then: "map_sum id f (and_then r g) = and_then r (\<lambda>a. map_sum id f (g a))"
  by (cases r) auto

lemma ok_and_then: "ok (and_then r f) = Option.bind (ok r) (\<lambda>a. ok (f a))"
  by (cases r) auto

section \<open>The log a suffix scan stands for\<close>

text \<open>
  A delta scan in progress, seen as the log the cold scan would hold at the same commit; \<open>earlier\<close> are
  the events the base was scanned from, which a delta does not keep.
\<close>

definition merged :: "event list \<Rightarrow> string \<Rightarrow> nat \<Rightarrow> 's delta_scan \<Rightarrow> scanned_log" where
  "merged earlier head depth ds =
     (ds_base ds)\<lparr>sl_head := head, sl_depth := depth,
        sl_count := sl_count (ds_base ds) + ds_count ds,
        sl_events := earlier @ ds_events ds,
        sl_dedup := sl_dedup (ds_base ds) ++ map_of (ds_additions ds),
        sl_positions := sl_positions (ds_base ds) \<union> (ev_commit \<circ> snd) ` set (ds_additions ds)\<rparr>"

lemma merged_frame [simp]:
  "sl_sequencer_key (merged es h n ds) = sl_sequencer_key (ds_base ds)"
  "sl_genesis (merged es h n ds) = sl_genesis (ds_base ds)"
  "sl_events (merged es h n ds) = es @ ds_events ds"
  "merged es h n (ds\<lparr>ds_expected_parent := p\<rparr>) = merged es h n ds"
  "merged es h n (ds\<lparr>ds_positions := k\<rparr>) = merged es h n ds"
  "merged es h n (ds\<lparr>ds_descriptor := d\<rparr>) = merged es h n ds"
  by (simp_all add: merged_def)

lemma put_fresh: "k \<notin> fst ` set m \<Longrightarrow> put k v m = m @ [(k, v)]"
  by (induction m) auto

lemma unclaimed_key_ok [simp]: "unclaimed_key slot s = Inr u \<longleftrightarrow> slot = None"
  by (auto simp: unclaimed_key_def dedup_prior_def split: option.splits if_splits)

lemma unclaimed_key_None [simp]: "unclaimed_key None s = Inr ()"
  by (simp add: unclaimed_key_def dedup_prior_def)

lemma ok_unclaimed: "ok (unclaimed_key slot s) = (if slot = None then Some () else None)"
  by (auto simp: unclaimed_key_def dedup_prior_def split: option.splits)

lemma merged_event:
  assumes "map_of (ds_additions ds) key = None"
  shows "merged es h n (ds\<lparr>ds_additions := put key (event_without_payload e) (ds_additions ds),
      ds_count := ds_count ds + 1, ds_events := ds_events ds @ [e]\<rparr>)
    = enter_event key e (es @ ds_events ds @ [e]) (merged es h n ds)"
proof -
  have "key \<notin> fst ` set (ds_additions ds)"
    using assms by (simp add: map_of_eq_None_iff)
  then show ?thesis
    using assms
    by (auto simp: merged_def enter_event_def put_fresh map_add_def event_without_payload_def fun_eq_iff
        split: option.splits)
qed

section \<open>One commit\<close>

lemma delta_enter_merged:
  "map_option (\<lambda>ds'. (merged es h n ds', ())) (ok (delta_enter L True None oid l (ds :: unit delta_scan)))
    = ok (enter_loaded L None l (merged es h n ds, ()))"
proof (cases l)
  case (LoadedRotation successor)
  then show ?thesis
    by (simp add: delta_enter_def enter_loaded_def merged_def)
next
  case (LoadedEvent e)
  show ?thesis
  proof (cases "dedup_key L (ev_signed e)")
    case (Inl x)
    then show ?thesis
      using LoadedEvent by (simp add: delta_enter_def enter_loaded_def)
  next
    case key: (Inr key)
    have slots: "sl_dedup (merged es h n ds) key = None \<longleftrightarrow>
        sl_dedup (ds_base ds) key = None \<and> map_of (ds_additions ds) key = None"
      by (auto simp: merged_def map_add_None)
    show ?thesis
    proof (cases "sl_dedup (merged es h n ds) key = None")
      case False
      then have "\<not> (sl_dedup (ds_base ds) key = None \<and> map_of (ds_additions ds) key = None)"
        using slots by simp
      then show ?thesis
        using LoadedEvent key False
        by (auto simp: delta_enter_def enter_loaded_def ok_and_then ok_unclaimed bind_eq_None_conv Let_def)
    next
      case True
      then have free: "sl_dedup (ds_base ds) key = None" "map_of (ds_additions ds) key = None"
        using slots by auto
      then show ?thesis
        using LoadedEvent key True merged_event [of ds key es h n e]
        by (simp add: delta_enter_def enter_loaded_def unclaimed_key_def dedup_prior_def delta_take_def
            take_event_def Let_def)
    qed
  qed
qed

text \<open>
  The parent is checked before the signature in a delta and after it in a cold scan, so only the
  error of a refused commit can differ.
\<close>

lemma delta_commit:
  assumes d: "delta_descriptor L G w ds = Inr d"
    and prior: "ds_expected_parent ds = prior"
  shows "map_option (\<lambda>ds'. (merged es h n ds', ()))
      (ok (delta_accept L G w load True None oid (ds :: unit delta_scan)))
    = ok (scan_commit L G w (gd_object_format d) d load None prior oid (merged es h n ds, ()))"
proof (cases "read_commit L G w (gd_object_format d) oid")
  case (Inl e)
  then show ?thesis
    by (simp add: delta_accept_def scan_commit_def d)
next
  case (Inr c)
  show ?thesis
  proof (cases "cx_parents c = [prior]
      \<and> verify_ssh_signature L c (sl_sequencer_key (ds_base ds)) = Inr ()")
    case False
    then show ?thesis
      using Inr by (cases "verify_ssh_signature L c (sl_sequencer_key (ds_base ds))")
        (auto simp: delta_accept_def scan_commit_def d prior validate_chain_parents_def require_def)
  next
    case chained: True
    show ?thesis
      using Inr chained
        delta_enter_merged [of es h n L oid _ "ds\<lparr>ds_descriptor := Some d\<rparr>"]
      by (cases "load_commit L G w (gd_object_format d) d (sl_genesis (ds_base ds)) c load")
        (simp_all add: delta_accept_def scan_commit_def d prior validate_chain_parents_def)
  qed
qed

section \<open>A suffix\<close>

lemma delta_enter_cases:
  assumes "delta_enter L True None oid l ds = Inr (ds' :: unit delta_scan)"
  obtains (rotation) successor where
      "ds' = ds\<lparr>ds_base := (ds_base ds)\<lparr>sl_sequencer_key := successor\<rparr>,
         ds_expected_parent := oid, ds_positions := ds_positions ds + 1\<rparr>"
  | (event) key e where
      "ds' = ds\<lparr>ds_additions := put key (event_without_payload e) (ds_additions ds),
         ds_count := ds_count ds + 1, ds_events := ds_events ds @ [e],
         ds_expected_parent := oid, ds_positions := ds_positions ds + 1\<rparr>"
proof (cases l)
  case (LoadedEvent e)
  then show ?thesis
    using assms event by (auto simp: delta_enter_def and_then_Inr delta_take_def Let_def)
next
  case (LoadedRotation successor)
  then show ?thesis
    using assms rotation by (auto simp: delta_enter_def Let_def split: if_splits)
qed

lemma delta_accept_enters:
  assumes "delta_accept L G w load True None oid ds = Inr (ds' :: unit delta_scan)"
    and "delta_descriptor L G w ds = Inr d"
  shows "\<exists>l. delta_enter L True None oid l (ds\<lparr>ds_descriptor := Some d\<rparr>) = Inr ds'"
  using assms unfolding delta_accept_def and_then_Inr by auto

lemma delta_accept_steps:
  assumes "delta_accept L G w load True None oid ds = Inr (ds' :: unit delta_scan)"
    and "delta_descriptor L G w ds = Inr d"
  shows "ds_expected_parent ds' = oid" "ds_descriptor ds' = Some d"
    "delta_descriptor L G w ds' = Inr d" "sl_genesis (ds_base ds') = sl_genesis (ds_base ds)"
    "sl_head (ds_base ds') = sl_head (ds_base ds)" "sl_depth (ds_base ds') = sl_depth (ds_base ds)"
    "ds_positions ds' = ds_positions ds + 1"
proof -
  obtain l where "delta_enter L True None oid l (ds\<lparr>ds_descriptor := Some d\<rparr>) = Inr ds'"
    using delta_accept_enters [OF assms] by blast
  then show "ds_expected_parent ds' = oid" "ds_descriptor ds' = Some d"
    "delta_descriptor L G w ds' = Inr d" "sl_genesis (ds_base ds') = sl_genesis (ds_base ds)"
    "sl_head (ds_base ds') = sl_head (ds_base ds)" "sl_depth (ds_base ds') = sl_depth (ds_base ds)"
    "ds_positions ds' = ds_positions ds + 1"
    by (cases rule: delta_enter_cases; simp add: delta_descriptor_def)+
qed

lemma delta_suffix:
  assumes "delta_descriptor L G w ds = Inr d" "ds_expected_parent ds = prior"
  shows "map_option (\<lambda>ds'. (merged es h n ds', ()))
      (ok (delta_walk L G w load True None oids (ds :: unit delta_scan)))
    = ok (scan_rest L G w (gd_object_format d) d load None prior oids (merged es h n ds, ()))"
  using assms
proof (induction oids arbitrary: ds prior)
  case (Cons oid oids)
  note one = delta_commit [OF Cons.prems, of es h n load oid]
  show ?case
  proof (cases "delta_accept L G w load True None oid ds")
    case (Inl e)
    then show ?thesis
      using one by (cases "scan_commit L G w (gd_object_format d) d load None prior oid (merged es h n ds, ())")
        auto
  next
    case (Inr ds')
    then have "scan_commit L G w (gd_object_format d) d load None prior oid (merged es h n ds, ())
        = Inr (merged es h n ds', ())"
      using one by simp (metis ok_Some)
    then show ?thesis
      using Inr Cons.IH [OF delta_accept_steps(3,1) [OF Inr Cons.prems(1)]] by simp
  qed
qed simp

lemma delta_walk_end:
  assumes "delta_walk L G w load True None oids ds = Inr (ds' :: unit delta_scan)"
    and "delta_descriptor L G w ds = Inr d"
  shows "ds_positions ds' = ds_positions ds + length oids"
    "oids \<noteq> [] \<Longrightarrow> ds_expected_parent ds' = last oids \<and> ds_descriptor ds' = Some d"
    "sl_head (ds_base ds') = sl_head (ds_base ds)" "sl_depth (ds_base ds') = sl_depth (ds_base ds)"
    "sl_genesis (ds_base ds') = sl_genesis (ds_base ds)"
  using assms
proof (induction oids arbitrary: ds)
  case (Cons oid oids)
  {
    case 1
    then show ?case
      using Cons.IH(1) delta_accept_steps by (fastforce simp: and_then_Inr)
  next
    case 2
    then obtain ds1 where step: "delta_accept L G w load True None oid ds = Inr ds1"
      and walk: "delta_walk L G w load True None oids ds1 = Inr ds'"
      by (auto simp: and_then_Inr)
    show ?case
    proof (cases "oids = []")
      case True
      then show ?thesis
        using walk delta_accept_steps [OF step 2(3)] by simp
    next
      case False
      then show ?thesis
        using Cons.IH(2) [OF False walk delta_accept_steps(3) [OF step 2(3)]] by simp
    qed
  next
    case 3
    then show ?case
      using Cons.IH(3) delta_accept_steps by (fastforce simp: and_then_Inr)
  next
    case 4
    then show ?case
      using Cons.IH(4) delta_accept_steps by (fastforce simp: and_then_Inr)
  next
    case 5
    then show ?case
      using Cons.IH(5) delta_accept_steps by (fastforce simp: and_then_Inr)
  }
qed auto

lemma scan_rest_append:
  "scan_rest L G w format d load sink prior (xs @ ys) ls =
     and_then (scan_rest L G w format d load sink prior xs ls)
       (scan_rest L G w format d load sink (last (prior # xs)) ys)"
proof (induction xs arbitrary: prior ls)
  case (Cons x xs)
  show ?case
    by (cases "scan_commit L G w format d load sink prior x ls") (simp_all add: Cons)
qed simp

text \<open>The head and the depth are only carried by the scan of the commits.\<close>

definition with_frontier :: "string \<Rightarrow> nat \<Rightarrow> scanned_log \<times> 's \<Rightarrow> scanned_log \<times> 's" where
  "with_frontier h n ls = ((fst ls)\<lparr>sl_head := h, sl_depth := n\<rparr>, snd ls)"

lemma enter_loaded_frontier:
  "enter_loaded L sink l (with_frontier h n ls) =
     map_sum id (with_frontier h n) (enter_loaded L sink l ls)"
proof (cases l)
  case (LoadedEvent e)
  have "enter_event key e es (log\<lparr>sl_head := h, sl_depth := n\<rparr>)
      = (enter_event key e es log)\<lparr>sl_head := h, sl_depth := n\<rparr>" for key es log
    by (simp add: enter_event_def)
  then show ?thesis
    unfolding LoadedEvent enter_loaded_def with_frontier_def
    by (cases ls; cases "dedup_key L (ev_signed e)";
        cases "unclaimed_key (sl_dedup (fst ls) (projr (dedup_key L (ev_signed e)))) (ev_signed e)";
        cases "take_event sink e (sl_events (fst ls), snd ls)") (auto simp: case_prod_unfold)
next
  case (LoadedRotation successor)
  then show ?thesis
    by (cases ls) (simp add: enter_loaded_def with_frontier_def)
qed

lemma scan_commit_frontier:
  "scan_commit L G w format d load sink prior oid (with_frontier h n ls) =
     map_sum id (with_frontier h n) (scan_commit L G w format d load sink prior oid ls)"
  by (simp add: scan_commit_def map_and_then enter_loaded_frontier [symmetric])
     (simp add: with_frontier_def)

lemma scan_rest_frontier:
  "scan_rest L G w format d load sink prior oids (with_frontier h n ls) =
     map_sum id (with_frontier h n) (scan_rest L G w format d load sink prior oids ls)"
proof (induction oids arbitrary: prior ls)
  case (Cons oid oids)
  then show ?case
    by (cases "scan_commit L G w format d load sink prior oid ls") (simp_all add: scan_commit_frontier)
qed simp

section \<open>The whole chain and a suffix of it\<close>

text \<open>What a successful scan of a head went through.\<close>

lemma scan_head_steps:
  assumes "scan_head L G w genesis head load = Inr log"
  obtains rest format d where
    "gt_rev_list G head w = Some (genesis # rest)" "last (genesis # rest) = head"
    "format_of_genesis genesis = Some format"
    "scan_genesis L G w format genesis head (length rest) = Inr (d, fresh_log genesis head (length rest) d)"
    "scan_rest L G w format d load None genesis rest (fresh_log genesis head (length rest) d, ()) = Inr (log, ())"
    "gt_batch_ends G w" "gd_object_format d = format"
proof -
  obtain commits format d log0 where
    commits: "gt_rev_list G head w = Some commits" "validate_sequence_bounds commits genesis head = Inr ()"
    and format: "format_of_genesis genesis = Some format"
    and first: "scan_genesis L G w format genesis head (length commits - 1) = Inr (d, log0)"
    and rest: "scan_rest L G w format d load None genesis (tl commits) (log0, ()) = Inr (log, ())"
    and ends: "gt_batch_ends G w"
    using assms by (auto simp: scan_head_def scan_head_into_def and_then_Inr split: if_splits)
  obtain r where r: "commits = genesis # r" "last (genesis # r) = head"
    using commits(2) by (cases commits) (auto simp: validate_sequence_bounds_def split: if_splits)
  have "log0 = fresh_log genesis head (length r) d" "gd_object_format d = format"
    using first r by (auto simp: scan_genesis_def and_then_Inr split: if_splits)
  then show thesis
    using that [of r format d] commits r format first rest ends by simp
qed

lemma scan_rest_reads:
  assumes "scan_rest L G w format d load sink prior oids ls = Inr ls'" "oid \<in> set oids"
  shows "\<exists>c. read_commit L G w format oid = Inr c"
  using assms
proof (induction oids arbitrary: prior ls)
  case (Cons o' oids)
  then show ?case
    by (auto simp: and_then_Inr scan_commit_def)
qed simp

lemma read_commit_named:
  assumes "read_commit L G w format oid = Inr c"
  shows "oid \<noteq> []" "cx_oid c = oid"
proof -
  obtain content where obj: "read_object L G w format oid ''commit'' max_uint64 = Inr content"
    and parsed: "parse_audited_commit oid content = Inr c"
    using assms by (auto simp: read_commit_def and_then_Inr)
  from read_object_ok(4) [OF obj] obtain n where "object_bytes_of format = Some n" "length oid = n * 2"
    by blast
  then show "oid \<noteq> []"
    by (auto simp: object_bytes_of_def split: if_splits)
  show "cx_oid c = oid"
    using parsed by (auto simp: parse_audited_commit_def and_then_Inr split: option.splits if_splits)
qed

lemma scan_head_named:
  assumes "scan_head L G w genesis head load = Inr log"
  shows "genesis \<noteq> []" "head \<noteq> []"
proof -
  obtain rest format d where
    "gt_rev_list G head w = Some (genesis # rest)" and rest: "last (genesis # rest) = head"
    "format_of_genesis genesis = Some format"
    and "scan_genesis L G w format genesis head (length rest) = Inr (d, fresh_log genesis head (length rest) d)"
    and scan: "scan_rest L G w format d load None genesis rest (fresh_log genesis head (length rest) d, ()) = Inr (log, ())"
    and "gt_batch_ends G w" "gd_object_format d = format"
    by (rule scan_head_steps [OF assms])
  show genesis: "genesis \<noteq> []"
    using rest(2) by (auto simp: format_of_genesis_def split: if_splits)
  show "head \<noteq> []"
  proof (cases "rest = []")
    case True
    then show ?thesis
      using rest genesis by simp
  next
    case False
    then have "head \<in> set rest"
      using rest(1) by auto
    from scan_rest_reads [OF scan this] obtain c where "read_commit L G w format head = Inr c" ..
    then show ?thesis
      by (rule read_commit_named(1))
  qed
qed

text \<open>\<open>git show\<close> prints the message that the commit object holds.\<close>

definition shows_messages :: "('l) kernel_lib_scheme \<Rightarrow> 'w git \<Rightarrow> 'w \<Rightarrow> bool" where
  "shows_messages L G w \<longleftrightarrow>
     (\<forall>format oid c. read_commit L G w format oid = Inr c \<longrightarrow>
        commit_message G oid w = Inr (normalize_genesis_message (cx_message c)))"

lemma descriptor_scanned:
  assumes messages: "shows_messages L G w" and first: "scan_genesis L G w format genesis head n = Inr (d, log)"
  shows "descriptor L G w genesis = Inr d"
proof -
  obtain c where "read_commit L G w format genesis = Inr c"
    and parsed: "parse_genesis_message L (normalize_genesis_message (cx_message c)) = Inr d"
    using first by (auto simp: scan_genesis_def and_then_Inr split: if_splits)
  then have "commit_message G genesis w = Inr (normalize_genesis_message (cx_message c))"
    using messages unfolding shows_messages_def by blast
  then show ?thesis
    by (simp add: descriptor_def parsed)
qed

lemma scan_commit_enters:
  assumes "scan_commit L G w format d load sink prior oid ls = Inr ls'"
  obtains c l where "read_commit L G w format oid = Inr c" "cx_parents c = [prior]"
    "verify_ssh_signature L c (sl_sequencer_key (fst ls)) = Inr ()"
    "load_commit L G w format d (sl_genesis (fst ls)) c load = Inr l"
    "enter_loaded L sink l ls = Inr ls'"
  using assms by (auto simp: scan_commit_def and_then_Inr validate_chain_parents_def)

lemma enter_loaded_fields:
  assumes "enter_loaded L sink l ls = Inr ls'"
  shows "sl_genesis (fst ls') = sl_genesis (fst ls)" "sl_head (fst ls') = sl_head (fst ls)"
    "sl_depth (fst ls') = sl_depth (fst ls)"
  using assms
  by (cases ls; cases l; auto simp: enter_loaded_def enter_event_def and_then_Inr split: if_splits)+

lemma scan_rest_fields:
  assumes "scan_rest L G w format d load sink prior oids ls = Inr ls'"
  shows "sl_genesis (fst ls') = sl_genesis (fst ls) \<and> sl_head (fst ls') = sl_head (fst ls)
    \<and> sl_depth (fst ls') = sl_depth (fst ls)"
  using assms
proof (induction oids arbitrary: prior ls)
  case (Cons oid oids)
  obtain ls1 where one: "scan_commit L G w format d load sink prior oid ls = Inr ls1"
    and more: "scan_rest L G w format d load sink oid oids ls1 = Inr ls'"
    using Cons.prems by (auto simp: and_then_Inr)
  obtain c l where enter: "enter_loaded L sink l ls = Inr ls1"
    using one by (rule scan_commit_enters)
  show ?case
    using Cons.IH [OF more] enter_loaded_fields [OF enter] by simp
qed auto

lemma scan_genesis_frontier:
  "scan_genesis L G w format genesis h n = Inr (d, log) \<Longrightarrow>
   scan_genesis L G w format genesis h' n' = Inr (d, fresh_log genesis h' n' d)"
  by (auto simp: scan_genesis_def and_then_Inr split: if_splits)

definition after_events :: "event list \<Rightarrow> scanned_log \<Rightarrow> scanned_log" where
  "after_events es log = log\<lparr>sl_events := es @ sl_events log\<rparr>"

text \<open>Finishing a delta leaves the merged log, or refuses a suffix that does not end at the head.\<close>

lemma delta_finish_merged:
  assumes walk: "delta_walk L G w load True None oids (new_delta_scan (log\<lparr>sl_events := []\<rparr>) ()) = Inr ds"
    and d: "delta_descriptor L G w (new_delta_scan (log\<lparr>sl_events := []\<rparr>) ()) = Inr d"
  shows "ok (delta_finish head ds) =
    (if last (sl_head log # oids) = head
     then Some ((merged [] head (sl_depth log + length oids) ds)) else None)"
proof -
  note fin = delta_walk_end [OF walk d]
  show ?thesis
  proof (cases "oids = []")
    case True
    then have "ds = new_delta_scan (log\<lparr>sl_events := []\<rparr>) ()"
      using walk by simp
    then show ?thesis
      using True by (auto simp: delta_finish_def new_delta_scan_def merged_def Let_def)
  next
    case False
    then have "ds_positions ds = length oids" "ds_expected_parent ds = last oids"
      "sl_head (ds_base ds) = sl_head log" "sl_depth (ds_base ds) = sl_depth log"
      using fin by (simp_all add: new_delta_scan_def)
    then show ?thesis
      using False by (auto simp: delta_finish_def merged_def Let_def)
  qed
qed

lemma scan_after_suffix:
  assumes base: "scan_head L G w genesis h0 load = Inr log0"
    and chain0: "gt_rev_list G h0 w = Some commits0"
    and chain: "gt_rev_list G head w = Some (commits0 @ suffix)"
    and tail: "gt_log_after G h0 head w = (suffix, True)"
    and messages: "shows_messages L G w"
  shows "ok (scan_head L G w genesis head load) =
    map_option (after_events (sl_events log0))
      (ok (scan_after L G w (log0\<lparr>sl_events := []\<rparr>) head load))"
proof -
  obtain rest format d where
    rev: "gt_rev_list G h0 w = Some (genesis # rest)" "last (genesis # rest) = h0"
    and format: "format_of_genesis genesis = Some format"
    and first: "scan_genesis L G w format genesis h0 (length rest) = Inr (d, fresh_log genesis h0 (length rest) d)"
    and scanned: "scan_rest L G w format d load None genesis rest (fresh_log genesis h0 (length rest) d, ()) = Inr (log0, ())"
    and ends: "gt_batch_ends G w" and gd: "gd_object_format d = format"
    by (rule scan_head_steps [OF base])
  have commits0: "commits0 = genesis # rest"
    using chain0 rev(1) by simp
  have frame: "sl_genesis log0 = genesis" "sl_head log0 = h0" "sl_depth log0 = length rest"
    using scan_rest_fields [OF scanned] by (simp_all add: fresh_log_def)
  let ?n = "length (rest @ suffix)"
  let ?ds = "new_delta_scan (log0\<lparr>sl_events := []\<rparr>) ()"
  have desc: "delta_descriptor L G w ?ds = Inr d"
    using descriptor_scanned [OF messages first] frame by (simp add: delta_descriptor_def new_delta_scan_def)
  have first': "scan_genesis L G w format genesis head ?n = Inr (d, fresh_log genesis head ?n d)"
    by (rule scan_genesis_frontier [OF first])
  have fresh: "(fresh_log genesis head ?n d, ()) = with_frontier head ?n (fresh_log genesis h0 (length rest) d, ())"
    by (simp add: fresh_log_def with_frontier_def)
  have start: "merged (sl_events log0) head ?n ?ds = log0\<lparr>sl_head := head, sl_depth := ?n\<rparr>"
    by (simp add: merged_def new_delta_scan_def)
  have "scan_rest L G w format d load None genesis (rest @ suffix) (fresh_log genesis head ?n d, ())
      = scan_rest L G w format d load None h0 suffix (log0\<lparr>sl_head := head, sl_depth := ?n\<rparr>, ())"
    unfolding scan_rest_append fresh scan_rest_frontier scanned map_sum.simps and_then.simps rev(2)
    using scan_rest_frontier [of L G w format d load None h0 suffix head ?n "(log0, ())"]
    by (simp only: with_frontier_def fst_conv snd_conv)
  then have full: "ok (scan_rest L G w format d load None genesis (rest @ suffix) (fresh_log genesis head ?n d, ()))
      = map_option (\<lambda>ds'. (merged (sl_events log0) head ?n ds', ()))
          (ok (delta_walk L G w load True None suffix ?ds))"
    using delta_suffix [OF desc, of h0 "sl_events log0" head ?n load suffix] frame gd start
    by (simp add: new_delta_scan_def)
  have whole: "ok (scan_head L G w genesis head load) =
    (if last (h0 # suffix) = head
     then map_option (\<lambda>ds'. merged (sl_events log0) head ?n ds')
            (ok (delta_walk L G w load True None suffix ?ds))
     else None)"
  proof -
    have bounds: "validate_sequence_bounds (commits0 @ suffix) genesis head
        = require (last (h0 # suffix) = head) EndsElsewhere"
      using rev(2) by (auto simp: validate_sequence_bounds_def commits0)
    show ?thesis
    proof (cases "last (h0 # suffix) = head")
      case False
      then show ?thesis
        using bounds chain by (simp add: scan_head_def scan_head_into_def)
    next
      case True
      then have ends_there: "validate_sequence_bounds (genesis # rest @ suffix) genesis head = Inr ()"
        using bounds by (simp add: commits0 del: last.simps)
      have "ok (scan_head L G w genesis head load)
        = map_option fst (ok (scan_rest L G w format d load None genesis (rest @ suffix) (fresh_log genesis head ?n d, ())))"
        using first' ends
        by (cases "scan_rest L G w format d load None genesis (rest @ suffix) (fresh_log genesis head ?n d, ())")
          (auto simp: scan_head_def scan_head_into_def chain ends_there format commits0)
      then show ?thesis
        unfolding full option.map_comp using True by (simp only: comp_def fst_conv refl if_True)
    qed
  qed
  have part: "ok (scan_after L G w (log0\<lparr>sl_events := []\<rparr>) head load) =
    (if last (h0 # suffix) = head
     then map_option (\<lambda>ds'. merged [] head ?n ds')
            (ok (delta_walk L G w load True None suffix ?ds))
     else None)"
  proof (cases "delta_walk L G w load True None suffix ?ds")
    case (Inl e)
    then show ?thesis
      using scan_head_named [OF base] frame tail by (simp add: scan_after_def)
  next
    case (Inr ds)
    then have "delta_close G w ds = Inr ()"
      using ends by (simp add: delta_close_def)
    then show ?thesis
      using scan_head_named [OF base] frame tail Inr delta_finish_merged [OF Inr desc, of head]
      by (simp add: scan_after_def)
  qed
  have "after_events es (merged [] head n ds) = merged es head n ds" for es n and ds :: "unit delta_scan"
    by (simp add: after_events_def merged_def)
  then show ?thesis
    by (simp add: whole part option.map_comp comp_def)
qed

end
