(* ===== verification/KernelMessages.thy ===== *)
theory KernelMessages
  imports KernelScan
begin

text \<open>
  Commit messages through Git and back: what trimming leaves of an envelope, when the one decoder
  reads the event that was written, and when it can only refuse it.
\<close>

section \<open>What trimming leaves\<close>

lemma white_byte:
  assumes "w \<in> set white_space" "c \<in> set w"
  shows "byte_val c \<le> 32 \<or> 128 \<le> byte_val c"
proof -
  have "c \<in> set (butlast w @ [last w])"
    using assms white_space_nonempty [OF assms(1)] by simp
  then show ?thesis
    using white_space_bytes(2,4) [OF assms(1)] by auto
qed

lemma trim_right_keeps:
  assumes "32 < byte_val c" "byte_val c < 128"
  shows "\<exists>k. trim_right (z @ c # y) = z @ c # take k y"
proof (induction "length y" arbitrary: y rule: less_induct)
  case less
  show ?case
  proof (cases "List.find (\<lambda>w. has_suffix w (z @ c # y)) white_space")
    case None
    then have "trim_right (z @ c # y) = z @ c # take (length y) y"
      by (subst trim_right.simps) simp
    then show ?thesis ..
  next
    case (Some w)
    then have w: "w \<in> set white_space" and "has_suffix w (z @ c # y)"
      by (auto dest: find_white)
    then obtain p where p: "z @ c # y = p @ w"
      by (auto simp: has_suffix_append)
    have "c \<notin> set w"
      using white_byte [OF w] assms by force
    then obtain v where "p = z @ c # v" "y = v @ w"
      using p by (auto simp: append_eq_append_conv2 Cons_eq_append_conv append_eq_Cons_conv)
    moreover from this have "length v < length y"
      using white_space_nonempty [OF w] by simp
    moreover have "trim_right (z @ c # y) = trim_right (take (length (z @ c # y) - length w) (z @ c # y))"
      using Some by (subst trim_right.simps) simp
    ultimately have "trim_right (z @ c # y) = trim_right (z @ c # v)" and "length v < length y" "y = v @ w"
      by simp_all
    moreover obtain k where "trim_right (z @ c # v) = z @ c # take k v"
      using less [OF \<open>length v < length y\<close>] ..
    moreover have "take k v = take (min k (length v)) (v @ w)"
      by (simp add: min_def)
    ultimately show ?thesis
      by (intro exI [of _ "min k (length v)"]) (simp only:)
  qed
qed

lemma event_marker_split: "event_marker = ''gitseq-event-v'' @ [CHR ''0'']"
  by (simp add: event_marker_def)

text \<open>An envelope is never taken for a rotation.\<close>

lemma envelope_no_rotation: "parse_rotation_message L (event_marker @ newline # y) = Inr None"
proof -
  obtain k where k: "trim_right (event_marker @ newline # y) = event_marker @ take k (newline # y)"
    using trim_right_keeps [of "CHR ''0''" "''gitseq-event-v''" "newline # y"] by (auto simp: event_marker_split)
  have "trim_left (event_marker @ newline # y) = event_marker @ newline # y"
    by (rule trim_left_printable) (simp_all add: event_marker_def)
  then have trimmed: "trim_space (event_marker @ newline # y) = event_marker @ take k (newline # y)"
    by (simp add: trim_space_def k)
  have clean: "newline \<notin> set event_marker"
    by (simp add: event_marker_def)
  obtain ls where "split_char newline (event_marker @ take k (newline # y)) = event_marker # ls"
    by (cases k) (simp_all add: split_char_end [OF clean] split_char_Cons [OF clean])
  moreover have "event_marker \<noteq> rotation_marker"
    by (simp add: event_marker_def rotation_marker_def)
  ultimately show ?thesis
    unfolding parse_rotation_message_def trimmed by simp
qed

lemma envelope_begins: "\<exists>y. envelope s rests = event_marker @ newline # y"
  by (simp add: envelope_def)

section \<open>Reading an envelope back\<close>

lemma read_references_then:
  "envelope_lines values got (reference_lines rests @ ls) = envelope_lines values (got @ rests) ls"
  using cut_colon_found [of "''Rests-On''"]
  by (induction rests arbitrary: got) (auto simp: reference_lines_def)

lemma reference_line_cut:
  assumes "trim_right r \<noteq> r" "newline \<notin> set r" "x = x1 @ ''Rests-On:''"
  obtains q where "trim_right (x @ CHR '' '' # r @ [newline]) = x @ q" "newline \<notin> set q"
    "q = [] \<or> (\<exists>q'. q = CHR '' '' # q' \<and> q' \<noteq> r)"
proof -
  have trim: "trim_right (x @ CHR '' '' # r @ [newline]) = trim_right (x @ CHR '' '' # r)"
    using trim_right_newline [of "x @ CHR '' '' # r"] by simp
  obtain k where k: "trim_right (x @ CHR '' '' # r) = x @ take k (CHR '' '' # r)"
    using trim_right_keeps [of "CHR '':''" "x1 @ ''Rests-On''" "CHR '' '' # r"] assms(3) by auto
  obtain w where w: "w \<in> set white_space" "has_suffix w r"
    using assms(1) trim_right_none by blast
  then have "has_suffix w (x @ CHR '' '' # r)"
    unfolding has_suffix_append by (metis append.assoc append_Cons)
  then have "trim_right (x @ CHR '' '' # r) \<noteq> x @ CHR '' '' # r"
    using trim_right_fixed w(1) by blast
  then have "take k (CHR '' '' # r) = [] \<or> (\<exists>q'. take k (CHR '' '' # r) = CHR '' '' # q' \<and> q' \<noteq> r)"
    using k by (cases k) auto
  moreover have "newline \<notin> set (take k (CHR '' '' # r))"
    using assms(2) in_set_takeD by force
  ultimately show thesis
    using that trim k by simp
qed

lemma parse_envelope_cut:
  assumes "\<forall>r\<in>set rests. newline \<notin> set r" "\<not> survives rests"
  shows "\<exists>y. normalize_event_message (envelope s rests) = event_marker @ newline # y"
    "parse_envelope (normalize_event_message (envelope s rests)) n = Inr (t, trailers) \<Longrightarrow>
       t = s \<and> trailers \<noteq> rests"
proof -
  obtain init r where rests: "rests = init @ [r]" and r: "trim_right r \<noteq> r"
    using assms(2) by (cases rests rule: rev_cases) (auto simp: survives_def)
  define before where "before = join_lines (event_marker # signed_lines s @ reference_lines init)"
  define x where "x = before @ newline # ''Rests-On:''"
  have "envelope s rests = x @ CHR '' '' # r @ [newline]"
    by (simp add: envelope_lines_of rests join_lines_Cons x_def before_def reference_lines_def)
  moreover obtain q where q: "trim_right (x @ CHR '' '' # r @ [newline]) = x @ q" "newline \<notin> set q"
    "q = [] \<or> (\<exists>q'. q = CHR '' '' # q' \<and> q' \<noteq> r)"
    using reference_line_cut [OF r, of x "before @ [newline]"] assms(1) rests by (auto simp: x_def)
  ultimately have message: "normalize_event_message (envelope s rests) = x @ q @ [newline]"
    by (simp add: normalize_event_message_def)
  then show "\<exists>y. normalize_event_message (envelope s rests) = event_marker @ newline # y"
    by (simp add: x_def before_def join_lines_Cons signed_lines_def)
  have "x @ q @ [newline] = join_lines (event_marker # signed_lines s @ reference_lines init @ [''Rests-On:'' @ q, []])"
    by (simp add: x_def before_def join_lines_Cons)
  moreover have "split_char newline \<dots> = event_marker # signed_lines s @ reference_lines init @ [''Rests-On:'' @ q, []]"
    using assms(1) q(2) b64_no_newline
    by (intro split_join_lines) (auto simp: event_marker_def signed_lines_def reference_lines_def rests)
  ultimately have split: "split_char newline (x @ q @ [newline])
      = event_marker # signed_lines s @ reference_lines init @ [''Rests-On:'' @ q, []]"
    by simp
  show "t = s \<and> trailers \<noteq> rests"
    if "parse_envelope (normalize_event_message (envelope s rests)) n = Inr (t, trailers)"
    using q(3)
  proof
    assume "q = []"
    then show ?thesis
      using that unfolding parse_envelope_def message split
      by (simp add: read_signed_lines read_references_then  split: if_splits)
  next
    assume "\<exists>q'. q = CHR '' '' # q' \<and> q' \<noteq> r"
    then obtain q' where "q = CHR '' '' # q'" "q' \<noteq> r" by blast
    then show ?thesis
      using that cut_colon_found [of "''Rests-On''" q'] unfolding parse_envelope_def message split
      by (auto simp: read_signed_lines read_references_then rests body_simps split: if_splits)
  qed
qed

lemma valid_rests:
  assumes "validate i = None"
  shows "\<forall>r\<in>set (in_rests_on i). newline \<notin> set r" "[] \<notin> set (in_rests_on i)"
  using validate_fields(5) [OF assms] contains_any_free by (auto simp: valid_reference_def list_all_iff)

lemma verified_valid: "verify_signed L s = Inr i \<Longrightarrow> validate i = None"
  by (rule decode_intent_ok(1) [OF verify_signed_ok(1)])

lemma verified_signature: "verify_signed L s = Inr i \<Longrightarrow> sg_signature s \<noteq> []"
  using verify_signed_ok(3) [of L s i] by (auto simp: sig_size_def)

text \<open>The event a commit carries, when its message is the envelope of the submission.\<close>

lemma load_envelope:
  assumes verified: "verify_signed L s = Inr i" and survives: "survives (in_rests_on i)"
    and message: "cx_message c = envelope s (in_rests_on i)"
    and target: "in_target i = typed_oid (gd_object_format d) genesis"
    and tree: "parse_typed_oid (in_payload_tree i) = Inr (f, cx_tree c)"
    and room: "length (cx_message c) \<le> unat (gd_payload_ceiling d)"
    and payload: "payload_tree L G w format (cx_tree c)
       (unat (gd_payload_ceiling d) - length (cx_message c)) load = Inr (payload, files)"
  shows "load_commit L G w format d genesis c load =
    Inr (LoadedEvent \<lparr>ev_commit = cx_oid c, ev_timestamp = cx_timestamp c, ev_intent = i, ev_signed = s,
      ev_payload_tree = in_payload_tree i, ev_payload = payload, ev_attachments = files\<rparr>)"
proof -
  note valid = valid_rests [OF verified_valid [OF verified]]
  have same: "normalize_event_message (cx_message c) = cx_message c"
    using trim_envelope [OF survives valid(2) verified_signature [OF verified]]
    by (simp add: normalize_event_message_def message)
  obtain y where "cx_message c = event_marker @ newline # y"
    using envelope_begins message by metis
  then have rotation: "parse_rotation_message L (cx_message c) = Inr None"
    by (simp add: envelope_no_rotation)
  have "parse_envelope (cx_message c) (unat (gd_payload_ceiling d)) = Inr (s, in_rests_on i)"
    using parse_envelope_printed [OF valid(1)] room by (simp add: message)
  then show ?thesis
    using room payload rotation target tree verified
    by (simp add: load_commit_def same verify_signed_target_def equal_refs_def Let_def)
qed

text \<open>A last reference that ends in white space is lost in the message, and the commit is refused.\<close>

lemma load_envelope_refused:
  assumes verified: "verify_signed L s = Inr i" and lost: "\<not> survives (in_rests_on i)"
    and message: "cx_message c = envelope s (in_rests_on i)"
  shows "load_commit L G w format d genesis c load \<noteq> Inr l"
proof
  assume loads: "load_commit L G w format d genesis c load = Inr l"
  note valid = valid_rests [OF verified_valid [OF verified]]
  let ?m = "normalize_event_message (cx_message c)"
  obtain y where "?m = event_marker @ newline # y"
    using parse_envelope_cut(1) [OF valid(1) lost] message by metis
  then have "parse_rotation_message L ?m = Inr None"
    by (simp add: envelope_no_rotation)
  then obtain t trailers j where parsed: "parse_envelope ?m (unat (gd_payload_ceiling d)) = Inr (t, trailers)"
    and j: "verify_signed L t = Inr j" "equal_refs (in_rests_on j) trailers"
    using loads by (auto simp: load_commit_def verify_signed_target_def and_then_Inr Let_def split: if_splits)
  have "t = s \<and> trailers \<noteq> in_rests_on i"
    using parse_envelope_cut(2) [OF valid(1) lost] parsed message by simp
  then show False
    using j verified by (simp add: equal_refs_def)
qed

end
