(* ===== verification/KernelChain.thy ===== *)
theory KernelChain
  imports KernelMessages "HOL-Library.Sublist"
begin

text \<open>
  What a scan decides, without its loops: \<open>audits\<close> relates the commits of a log after its genesis, the
  events they carry and the sequencer key in force before and after them; \<open>audited_log\<close> is the
  log such a chain stands for. \<open>scan_decides\<close> is the refinement.
\<close>

section \<open>The declarative chain\<close>

definition retry_key :: "('l) kernel_lib_scheme \<Rightarrow> event \<Rightarrow> string" where
  "retry_key L e = projr (dedup_key L (ev_signed e))"

text \<open>One commit with the parent and the sequencer key it has to have.\<close>

definition sealed_commit ::
  "('l) kernel_lib_scheme \<Rightarrow> 'w git \<Rightarrow> 'w \<Rightarrow> string \<Rightarrow> string \<Rightarrow> string list \<Rightarrow> string \<Rightarrow> audited_commit \<Rightarrow> bool"
where
  "sealed_commit L G w format key parents oid c \<longleftrightarrow>
     read_commit L G w format oid = Inr c \<and> cx_parents c = parents \<and> verify_ssh_signature L c key = Inr ()"

inductive audits ::
  "('l) kernel_lib_scheme \<Rightarrow> 'w git \<Rightarrow> 'w \<Rightarrow> string \<Rightarrow> genesis_descriptor \<Rightarrow> string \<Rightarrow> bool
   \<Rightarrow> string \<Rightarrow> string \<Rightarrow> string list \<Rightarrow> event list \<Rightarrow> string \<Rightarrow> bool"
  for L G w format d genesis load
where
  audits_end: "audits L G w format d genesis load key prior [] [] key"
| audits_event:
    "sealed_commit L G w format key [prior] oid c \<Longrightarrow>
     load_commit L G w format d genesis c load = Inr (LoadedEvent e) \<Longrightarrow>
     audits L G w format d genesis load key oid oids es key' \<Longrightarrow>
     audits L G w format d genesis load key prior (oid # oids) (e # es) key'"
| audits_rotation:
    "sealed_commit L G w format key [prior] oid c \<Longrightarrow>
     load_commit L G w format d genesis c load = Inr (LoadedRotation successor) \<Longrightarrow>
     successor \<noteq> key \<Longrightarrow>
     audits L G w format d genesis load successor oid oids es key' \<Longrightarrow>
     audits L G w format d genesis load key prior (oid # oids) es key'"

inductive_cases audits_Nil: "audits L G w format d genesis load key prior [] es key'"
inductive_cases audits_Cons: "audits L G w format d genesis load key prior (oid # oids) es key'"

definition retry_index :: "('l) kernel_lib_scheme \<Rightarrow> event list \<Rightarrow> string \<rightharpoonup> event" where
  "retry_index L es = map_of (map (\<lambda>e. (retry_key L e, event_without_payload e)) es)"

definition log_of ::
  "('l) kernel_lib_scheme \<Rightarrow> string \<Rightarrow> string \<Rightarrow> nat \<Rightarrow> event list \<Rightarrow> string \<Rightarrow> scanned_log" where
  "log_of L genesis head depth es key =
     \<lparr>sl_genesis = genesis, sl_head = head, sl_depth = depth, sl_count = length es, sl_events = es,
      sl_dedup = retry_index L es, sl_positions = insert genesis (ev_commit ` set es),
      sl_sequencer_key = key\<rparr>"

definition sound_genesis ::
  "('l) kernel_lib_scheme \<Rightarrow> 'w git \<Rightarrow> 'w \<Rightarrow> string \<Rightarrow> genesis_descriptor \<Rightarrow> bool" where
  "sound_genesis L G w genesis d \<longleftrightarrow>
     format_of_genesis genesis = Some (gd_object_format d)
     \<and> (\<exists>c. sealed_commit L G w (gd_object_format d) (gd_sequencer_key d) [] genesis c
          \<and> parse_genesis_message L (normalize_genesis_message (cx_message c)) = Inr d)"

definition audited_log ::
  "('l) kernel_lib_scheme \<Rightarrow> 'w git \<Rightarrow> 'w \<Rightarrow> string \<Rightarrow> string \<Rightarrow> bool \<Rightarrow> scanned_log \<Rightarrow> bool" where
  "audited_log L G w genesis head load log \<longleftrightarrow>
     (\<exists>rest d es key. gt_rev_list G head w = Some (genesis # rest) \<and> last (genesis # rest) = head
        \<and> gt_batch_ends G w \<and> sound_genesis L G w genesis d
        \<and> audits L G w (gd_object_format d) d genesis load (gd_sequencer_key d) genesis rest es key
        \<and> distinct (map (retry_key L) es) \<and> log = log_of L genesis head (length rest) es key)"

section \<open>What a decoded event carries\<close>

lemma load_commit_event:
  assumes "load_commit L G w format d genesis c load = Inr (LoadedEvent e)"
  shows "verify_signed L (ev_signed e) = Inr (ev_intent e)" "ev_commit e = cx_oid c"
    "in_target (ev_intent e) = typed_oid (gd_object_format d) genesis"
    "ev_payload_tree e = in_payload_tree (ev_intent e)" "ev_timestamp e = cx_timestamp c"
    "\<exists>f. parse_typed_oid (in_payload_tree (ev_intent e)) = Inr (f, cx_tree c)"
  using assms
  by (auto simp: load_commit_def verify_signed_target_def and_then_Inr Let_def split: if_splits option.splits)

lemma loaded_retry_key:
  assumes "load_commit L G w format d genesis c load = Inr (LoadedEvent e)"
  shows "dedup_key L (ev_signed e) = Inr (retry_key L e)"
  using load_commit_event(1) [OF assms] by (simp add: retry_key_def dedup_key_def)

section \<open>The loop and the relation\<close>

definition grown :: "('l) kernel_lib_scheme \<Rightarrow> event list \<Rightarrow> string \<Rightarrow> scanned_log \<Rightarrow> scanned_log" where
  "grown L es key log =
     log\<lparr>sl_count := sl_count log + length es, sl_events := sl_events log @ es,
         sl_dedup := sl_dedup log ++ retry_index L es,
         sl_positions := sl_positions log \<union> ev_commit ` set es, sl_sequencer_key := key\<rparr>"

lemma retry_index_Cons:
  "retry_key L e \<notin> set (map (retry_key L) es) \<Longrightarrow>
     m(retry_key L e \<mapsto> event_without_payload e) ++ retry_index L es = m ++ retry_index L (e # es)"
proof -
  assume "retry_key L e \<notin> set (map (retry_key L) es)"
  then have "retry_key L e \<notin> dom (retry_index L es)"
    by (auto simp: retry_index_def dom_map_of_conv_image_fst)
  then show ?thesis
    by (simp add: retry_index_def map_add_upd_left)
qed

lemma grown_event:
  assumes "retry_key L e \<notin> set (map (retry_key L) es)"
  shows "grown L es key (enter_event (retry_key L e) e (sl_events log @ [e]) log) = grown L (e # es) key log"
  using retry_index_Cons [OF assms] by (simp add: grown_def enter_event_def)

definition fresh_keys :: "('l) kernel_lib_scheme \<Rightarrow> event list \<Rightarrow> (string \<rightharpoonup> event) \<Rightarrow> bool" where
  "fresh_keys L es m \<longleftrightarrow> distinct (map (retry_key L) es) \<and> (\<forall>e\<in>set es. m (retry_key L e) = None)"

lemma fresh_keys_Cons:
  "fresh_keys L (e # es) m \<longleftrightarrow>
     m (retry_key L e) = None \<and> fresh_keys L es (m(retry_key L e \<mapsto> event_without_payload e))"
  by (auto simp: fresh_keys_def image_iff)

lemma enter_event_iff:
  assumes "dedup_key L (ev_signed e) = Inr (retry_key L e)"
  shows "enter_loaded L None (LoadedEvent e) (log, ()) = Inr (log', ()) \<longleftrightarrow>
    sl_dedup log (retry_key L e) = None \<and> log' = enter_event (retry_key L e) e (sl_events log @ [e]) log"
  using assms by (auto simp: enter_loaded_def and_then_Inr take_event_def)

lemma enter_rotation_iff:
  "enter_loaded L None (LoadedRotation k) (log, ()) = Inr (log', ()) \<longleftrightarrow>
    k \<noteq> sl_sequencer_key log \<and> log' = log\<lparr>sl_sequencer_key := k\<rparr>"
  by (auto simp: enter_loaded_def)

lemma scan_commit_step:
  "scan_commit L G w format d load None prior oid (log, ()) = Inr (log', ()) \<longleftrightarrow>
     (\<exists>c. sealed_commit L G w format (sl_sequencer_key log) [prior] oid c
        \<and> ((\<exists>e. load_commit L G w format d (sl_genesis log) c load = Inr (LoadedEvent e)
               \<and> sl_dedup log (retry_key L e) = None
               \<and> log' = enter_event (retry_key L e) e (sl_events log @ [e]) log)
           \<or> (\<exists>successor. load_commit L G w format d (sl_genesis log) c load = Inr (LoadedRotation successor)
               \<and> successor \<noteq> sl_sequencer_key log \<and> log' = log\<lparr>sl_sequencer_key := successor\<rparr>)))"
proof -
  have "(\<exists>l. load_commit L G w format d (sl_genesis log) c load = Inr l
          \<and> enter_loaded L None l (log, ()) = Inr (log', ())) \<longleftrightarrow>
      (\<exists>e. load_commit L G w format d (sl_genesis log) c load = Inr (LoadedEvent e)
               \<and> sl_dedup log (retry_key L e) = None
               \<and> log' = enter_event (retry_key L e) e (sl_events log @ [e]) log)
           \<or> (\<exists>successor. load_commit L G w format d (sl_genesis log) c load = Inr (LoadedRotation successor)
               \<and> successor \<noteq> sl_sequencer_key log \<and> log' = log\<lparr>sl_sequencer_key := successor\<rparr>)" for c :: audited_commit
  proof (cases "load_commit L G w format d (sl_genesis log) c load")
    case (Inr l)
    then show ?thesis
      using enter_event_iff [OF loaded_retry_key] enter_rotation_iff by (cases l) simp_all
  qed simp
  moreover have "scan_commit L G w format d load None prior oid (log, ()) = Inr (log', ()) \<longleftrightarrow>
     (\<exists>c. sealed_commit L G w format (sl_sequencer_key log) [prior] oid c
        \<and> (\<exists>l. load_commit L G w format d (sl_genesis log) c load = Inr l
          \<and> enter_loaded L None l (log, ()) = Inr (log', ())))"
    by (auto simp: scan_commit_def and_then_Inr sealed_commit_def validate_chain_parents_def)
  ultimately show ?thesis
    by (simp only:)
qed

lemma entered_fields [simp]:
  "sl_genesis (enter_event k e es log) = sl_genesis log"
  "sl_sequencer_key (enter_event k e es log) = sl_sequencer_key log"
  "sl_dedup (enter_event k e es log) = (sl_dedup log)(k \<mapsto> event_without_payload e)"
  by (simp_all add: enter_event_def)

lemma either_step:
  "(\<exists>x. (\<exists>c. S c \<and> ((\<exists>e. A c e \<and> P e \<and> x = f e) \<or> (\<exists>k. B c k \<and> Q k \<and> x = g k))) \<and> R x)
   \<longleftrightarrow> (\<exists>c. S c \<and> ((\<exists>e. A c e \<and> P e \<and> R (f e)) \<or> (\<exists>k. B c k \<and> Q k \<and> R (g k))))"
  by blast

lemma scan_rest_audits:
  "scan_rest L G w format d load None prior oids (log, ()) = Inr (log', ()) \<longleftrightarrow>
     (\<exists>es key. audits L G w format d (sl_genesis log) load (sl_sequencer_key log) prior oids es key
        \<and> fresh_keys L es (sl_dedup log) \<and> log' = grown L es key log)"
proof (induction oids arbitrary: prior log)
  case Nil
  have "log' = log \<longleftrightarrow> (\<exists>key. key = sl_sequencer_key log \<and> log' = grown L [] key log)"
    by (simp add: grown_def retry_index_def)
  moreover have "audits L G w format d (sl_genesis log) load (sl_sequencer_key log) prior [] es key
      \<longleftrightarrow> es = [] \<and> key = sl_sequencer_key log" for es key
    by (auto intro: audits_end elim: audits_Nil)
  ultimately show ?case
    by (auto simp: fresh_keys_def)
next
  case (Cons oid oids)
  let ?audits = "audits L G w format d (sl_genesis log) load"
  let ?load = "\<lambda>c. load_commit L G w format d (sl_genesis log) c load"
  let ?key = "sl_sequencer_key log"
  let ?after = "\<lambda>e. enter_event (retry_key L e) e (sl_events log @ [e]) log"
  have grown: "fresh_keys L es (sl_dedup (?after e)) \<Longrightarrow> grown L es key (?after e) = grown L (e # es) key log" for e es key
    by (rule grown_event) (auto simp: fresh_keys_def)
  have turned: "grown L es key (log\<lparr>sl_sequencer_key := k\<rparr>) = grown L es key log" for es key k
    by (simp add: grown_def)
  have entered: "(\<exists>es key. audits L G w format d (sl_genesis (?after e)) load (sl_sequencer_key (?after e)) oid oids es key
        \<and> fresh_keys L es (sl_dedup (?after e)) \<and> log' = grown L es key (?after e)) \<longleftrightarrow>
      (\<exists>es key. ?audits ?key oid oids es key \<and> fresh_keys L es (sl_dedup (?after e))
        \<and> log' = grown L (e # es) key log)" for e
    by (intro ex_cong1) (auto simp only: entered_fields(1,2) grown)
  have entered_rotation: "(\<exists>es key. audits L G w format d (sl_genesis (log\<lparr>sl_sequencer_key := k\<rparr>)) load
          (sl_sequencer_key (log\<lparr>sl_sequencer_key := k\<rparr>)) oid oids es key
        \<and> fresh_keys L es (sl_dedup (log\<lparr>sl_sequencer_key := k\<rparr>)) \<and> log' = grown L es key (log\<lparr>sl_sequencer_key := k\<rparr>)) \<longleftrightarrow>
      (\<exists>es key. ?audits k oid oids es key \<and> fresh_keys L es (sl_dedup log) \<and> log' = grown L es key log)" for k
    by (simp add: turned)
  have "scan_rest L G w format d load None prior (oid # oids) (log, ()) = Inr (log', ()) \<longleftrightarrow>
      (\<exists>log1. scan_commit L G w format d load None prior oid (log, ()) = Inr (log1, ())
          \<and> scan_rest L G w format d load None oid oids (log1, ()) = Inr (log', ()))"
    by (auto simp: and_then_Inr)
  also have "\<dots> \<longleftrightarrow>
      (\<exists>c. sealed_commit L G w format ?key [prior] oid c
        \<and> ((\<exists>e. ?load c = Inr (LoadedEvent e) \<and> sl_dedup log (retry_key L e) = None
              \<and> (\<exists>es key. ?audits ?key oid oids es key \<and> fresh_keys L es (sl_dedup (?after e))
                   \<and> log' = grown L (e # es) key log))
          \<or> (\<exists>k. ?load c = Inr (LoadedRotation k) \<and> k \<noteq> ?key
              \<and> (\<exists>es key. ?audits k oid oids es key \<and> fresh_keys L es (sl_dedup log)
                   \<and> log' = grown L es key log))))"
    unfolding scan_commit_step either_step Cons.IH entered entered_rotation ..
  also have "\<dots> \<longleftrightarrow> (\<exists>es key. ?audits ?key prior (oid # oids) es key \<and> fresh_keys L es (sl_dedup log)
        \<and> log' = grown L es key log)" (is "?steps \<longleftrightarrow> ?chain")
  proof
    assume ?steps
    then show ?chain
      by (elim exE conjE disjE)
        (intro exI conjI, erule (2) audits_event, simp add: fresh_keys_Cons, assumption,
         intro exI conjI, erule (3) audits_rotation, assumption, assumption)
  next
    assume ?chain
    then obtain es key where a: "?audits ?key prior (oid # oids) es key"
      and rest: "fresh_keys L es (sl_dedup log)" "log' = grown L es key log"
      by blast
    from a show ?steps
      by (rule audits_Cons) (use rest fresh_keys_Cons entered_fields(3) in \<open>metis, blast\<close>)
  qed
  finally show ?case .
qed

section \<open>The whole log\<close>

lemma grown_fresh:
  "grown L es key (fresh_log genesis head n d) = log_of L genesis head n es key"
  by (simp add: grown_def log_of_def fresh_log_def retry_index_def)

lemma fresh_log_fields [simp]:
  "sl_genesis (fresh_log genesis head n d) = genesis"
  "sl_sequencer_key (fresh_log genesis head n d) = gd_sequencer_key d"
  "sl_dedup (fresh_log genesis head n d) = Map.empty"
  by (simp_all add: fresh_log_def)

lemma scan_rest_fresh:
  "scan_rest L G w format d load None genesis rest (fresh_log genesis head n d, ()) = Inr (log, ()) \<longleftrightarrow>
     (\<exists>es key. audits L G w format d genesis load (gd_sequencer_key d) genesis rest es key
        \<and> distinct (map (retry_key L) es) \<and> log = log_of L genesis head n es key)"
  by (simp add: scan_rest_audits grown_fresh fresh_keys_def)

lemma scan_genesis_iff:
  "(\<exists>format. format_of_genesis genesis = Some format
      \<and> scan_genesis L G w format genesis head n = Inr (d, log) \<and> P format) \<longleftrightarrow>
   sound_genesis L G w genesis d \<and> log = fresh_log genesis head n d \<and> P (gd_object_format d)"
  by (auto simp: scan_genesis_def and_then_Inr sound_genesis_def sealed_commit_def validate_chain_parents_def
      split: if_splits)

lemma opened:
  "(\<exists>d log0. sound_genesis L G w genesis d \<and> log0 = fresh_log genesis head n d
      \<and> scan_rest L G w (gd_object_format d) d load None genesis rest (log0, ()) = Inr (log, ())) \<longleftrightarrow>
   (\<exists>d. sound_genesis L G w genesis d
      \<and> (\<exists>es key. audits L G w (gd_object_format d) d genesis load (gd_sequencer_key d) genesis rest es key
        \<and> distinct (map (retry_key L) es) \<and> log = log_of L genesis head n es key))"
  unfolding scan_rest_fresh [symmetric] by simp

lemma scan_decides: "scan_head L G w genesis head load = Inr log \<longleftrightarrow> audited_log L G w genesis head load log"
proof -
  have "scan_head L G w genesis head load = Inr log \<longleftrightarrow>
      (\<exists>rest. gt_rev_list G head w = Some (genesis # rest) \<and> last (genesis # rest) = head \<and> gt_batch_ends G w
        \<and> (\<exists>d log0. (\<exists>format. format_of_genesis genesis = Some format
              \<and> scan_genesis L G w format genesis head (length rest) = Inr (d, log0)
              \<and> scan_rest L G w format d load None genesis rest (log0, ()) = Inr (log, ()))))"
  proof
    assume "scan_head L G w genesis head load = Inr log"
    then show "\<exists>rest. gt_rev_list G head w = Some (genesis # rest) \<and> last (genesis # rest) = head \<and> gt_batch_ends G w
        \<and> (\<exists>d log0. (\<exists>format. format_of_genesis genesis = Some format
              \<and> scan_genesis L G w format genesis head (length rest) = Inr (d, log0)
              \<and> scan_rest L G w format d load None genesis rest (log0, ()) = Inr (log, ())))"
      by (rule scan_head_steps) blast
  next
    assume "\<exists>rest. gt_rev_list G head w = Some (genesis # rest) \<and> last (genesis # rest) = head \<and> gt_batch_ends G w
        \<and> (\<exists>d log0. (\<exists>format. format_of_genesis genesis = Some format
              \<and> scan_genesis L G w format genesis head (length rest) = Inr (d, log0)
              \<and> scan_rest L G w format d load None genesis rest (log0, ()) = Inr (log, ())))"
    then show "scan_head L G w genesis head load = Inr log"
      by (auto simp: scan_head_def scan_head_into_def validate_sequence_bounds_def)
  qed
  also have "\<dots> \<longleftrightarrow> audited_log L G w genesis head load log"
    unfolding scan_genesis_iff opened audited_log_def by blast
  finally show ?thesis .
qed

end
