(* ===== verification/KernelSubmit.thy ===== *)
theory KernelSubmit
  imports KernelLog
begin

text \<open>
  Sequencing (\<open>internal/kernel/kernel.go\<close>): the cache of one verified log, a submission with its
  compare-and-swap loop, the rotation of the sequencer key, the founding of a log, the bounded queue
  of the resident submitter, and the readers that answer from a verified log.

  A cache here is one whose \<open>CheckpointOptions\<close> are the zero value, as in the public host: the branches
  of \<open>advance\<close> and \<open>append\<close> that load or publish a checkpoint are not taken.
\<close>

section \<open>The cache of one verified log\<close>

record log_cache =
  lc_target :: string
  lc_head :: string
  lc_log :: scanned_log
  lc_full_scans :: nat
  lc_delta_scans :: nat
  lc_hits :: nat

record cache_advance =
  ca_base_head :: string
  ca_events :: "event list"
  ca_head :: string
  ca_full :: bool

definition empty_log :: scanned_log where
  "empty_log = \<lparr>sl_genesis = [], sl_head = [], sl_depth = 0, sl_count = 0, sl_events = [],
     sl_dedup = Map.empty, sl_positions = {}, sl_sequencer_key = []\<rparr>"

definition new_cache :: log_cache where
  "new_cache = \<lparr>lc_target = [], lc_head = [], lc_log = empty_log,
     lc_full_scans = 0, lc_delta_scans = 0, lc_hits = 0\<rparr>"

definition keep_log :: "string \<Rightarrow> string \<Rightarrow> scanned_log \<Rightarrow> log_cache \<Rightarrow> log_cache" where
  "keep_log target head log c =
     c\<lparr>lc_target := target, lc_head := head, lc_log := log\<lparr>sl_events := []\<rparr>\<rparr>"

definition cached_delta ::
  "('l) kernel_lib_scheme \<Rightarrow> 'w git \<Rightarrow> 'w \<Rightarrow> string \<Rightarrow> bool \<Rightarrow> string \<Rightarrow> log_cache
   \<Rightarrow> kernel_error + scanned_log" where
  "cached_delta L G w target load head c =
     (if lc_target c = target \<and> lc_head c \<noteq> [] then scan_after L G w (lc_log c) head load
      else Inl NotDescendant)"

text \<open>An exact hit, a verified descendant, or the whole log again.\<close>

definition advance ::
  "('l) kernel_lib_scheme \<Rightarrow> 'w git \<Rightarrow> string \<Rightarrow> bool \<Rightarrow> 's sink \<Rightarrow> 's \<Rightarrow> log_cache \<Rightarrow> 'w
   \<Rightarrow> (kernel_error + cache_advance \<times> 's) \<times> log_cache \<times> 'w" where
  "advance L G target load sink s c w0 =
     (case store_head G (sequence_ref target) w0 of
        (Inl e, w) \<Rightarrow> (Inl (GitError e), c, w)
      | (Inr head, w) \<Rightarrow>
          if lc_target c = target \<and> lc_head c = head then
            (Inr (\<lparr>ca_base_head = head, ca_events = [], ca_head = sl_head (lc_log c), ca_full = False\<rparr>, s),
             c\<lparr>lc_hits := lc_hits c + 1\<rparr>, w)
          else (case cached_delta L G w target load head c of
            Inr log \<Rightarrow>
              (Inr (\<lparr>ca_base_head = lc_head c, ca_events = sl_events log, ca_head = sl_head log,
                     ca_full = False\<rparr>, s),
               keep_log target head log c\<lparr>lc_delta_scans := lc_delta_scans c + 1\<rparr>, w)
          | Inl e \<Rightarrow>
              if e \<noteq> NotDescendant then (Inl e, c, w)
              else (case scan_head_into L G w target head load sink s of
                 Inl e' \<Rightarrow> (Inl e', c, w)
               | Inr (log, s') \<Rightarrow>
                   (Inr (\<lparr>ca_base_head = [], ca_events = sl_events log, ca_head = sl_head log,
                          ca_full = True\<rparr>, s'),
                    keep_log target head log c\<lparr>lc_full_scans := lc_full_scans c + 1\<rparr>, w))))"

definition cache_append :: "string \<Rightarrow> event \<Rightarrow> log_cache \<Rightarrow> log_cache" where
  "cache_append key e c =
     (let log = lc_log c in
      c\<lparr>lc_log := log\<lparr>sl_dedup := (sl_dedup log)(key \<mapsto> event_without_payload e),
                     sl_positions := insert (ev_commit e) (sl_positions log),
                     sl_head := ev_commit e, sl_depth := sl_depth log + 1,
                     sl_count := sl_count log + 1\<rparr>,
        lc_head := ev_commit e\<rparr>)"

text \<open>\<open>NewSubmitterFrom\<close>: start from the log a reader of the same repository has verified.\<close>

definition seeded_cache :: "bool \<Rightarrow> log_cache \<Rightarrow> log_cache" where
  "seeded_cache same_repository reader =
     (if \<not> same_repository \<or> lc_target reader = [] \<or> lc_head reader = []
         \<or> sl_head (lc_log reader) \<noteq> lc_head reader
      then new_cache
      else new_cache\<lparr>lc_target := lc_target reader, lc_head := lc_head reader,
                     lc_log := (lc_log reader)\<lparr>sl_events := []\<rparr>\<rparr>)"

section \<open>References into the log\<close>

definition in_log_event :: "string \<Rightarrow> string \<Rightarrow> string \<Rightarrow> string option" where
  "in_log_event reference format genesis =
     (case cut_char (CHR ''#'') reference of
        (room, ev, found) \<Rightarrow>
          if \<not> found then None
          else (case parse_typed_oid room of
            Inl _ \<Rightarrow> None
          | Inr (rf, ro) \<Rightarrow>
              if rf \<noteq> format \<or> ro \<noteq> genesis then None
              else (case parse_typed_oid ev of
                Inl _ \<Rightarrow> None
              | Inr (ef, eo) \<Rightarrow> if ef \<noteq> format then None else Some eo)))"

fun resolve_references ::
  "string \<Rightarrow> string \<Rightarrow> scanned_log \<Rightarrow> string list \<Rightarrow> kernel_error + unit" where
  "resolve_references format genesis log [] = Inr ()"
| "resolve_references format genesis log (r # rs) =
     (case in_log_event r format genesis of
        None \<Rightarrow> resolve_references format genesis log rs
      | Some commit \<Rightarrow>
          if commit \<notin> sl_positions log then Inl (UnresolvedReference r)
          else resolve_references format genesis log rs)"

section \<open>Submitting\<close>

record admission =
  ad_intent :: intent
  ad_actor_key :: bytes
  ad_capability_proof :: bytes

record application =
  ap_intent :: intent
  ap_actor_key :: bytes
  ap_payload :: bytes
  ap_attachments :: attachments
  ap_head :: string

record 'w options =
  op_signing_key :: string
  op_max_retries :: int
  op_pre_append :: "(admission \<Rightarrow> bool) option"
  op_post_dedup :: "(application \<Rightarrow> 'w \<Rightarrow> bool) option"
  op_max_queue_depth :: int

record submission_result =
  sb_commit :: string
  sb_head :: string
  sb_replay :: bool
  sb_cas_retries :: nat
  sb_base_head :: string
  sb_timestamp :: int

definition capability_matches :: "('l) kernel_lib_scheme \<Rightarrow> bytes \<Rightarrow> bytes \<Rightarrow> bool" where
  "capability_matches L hash proof' =
     (if hash = [] then proof' = [] else hash = kl_sha256 L proof')"

definition hook_refuses :: "('a \<Rightarrow> bool) option \<Rightarrow> 'a \<Rightarrow> bool" where
  "hook_refuses h a = (case h of None \<Rightarrow> False | Some f \<Rightarrow> \<not> f a)"

text \<open>What the checks before the loop establish of a submission.\<close>

record prepared =
  pp_intent :: intent
  pp_format :: string
  pp_target :: string
  pp_message :: string
  pp_tree :: string

definition check_submission ::
  "('l) kernel_lib_scheme \<Rightarrow> 'w git \<Rightarrow> 'w options \<Rightarrow> request \<Rightarrow> 'w \<Rightarrow> (kernel_error + prepared) \<times> 'w" where
  "check_submission L G opts rq w0 =
     (case (and_then (intent_res (verify_signed L (rq_signed rq))) (\<lambda>decoded.
            and_then (require (capability_matches L (in_capability_hash decoded) (rq_capability_proof rq))
                        CapabilityDiffers) (\<lambda>_.
            and_then (of_option (GitError GitFailed) (gt_format G w0)) (\<lambda>format.
            and_then (git_res (parse_typed_oid (in_target decoded))) (\<lambda>(target_format, target).
            and_then (require (target_format = format) FormatDiffers) (\<lambda>_.
              Inr (decoded, format, target))))))) of
        Inl e \<Rightarrow> (Inl e, w0)
      | Inr (decoded, format, target) \<Rightarrow>
          (case store_head G (sequence_ref target) w0 of
             (Inl _, w) \<Rightarrow> (Inl UnknownLog, w)
           | (Inr _, w) \<Rightarrow>
               (let message = envelope (rq_signed rq) (in_rests_on decoded);
                    ad = \<lparr>ad_intent = decoded, ad_actor_key = sg_actor_key (rq_signed rq),
                          ad_capability_proof = rq_capability_proof rq\<rparr> in
                case (and_then (git_res (commit_message G target w)) (\<lambda>genesis.
                      and_then (genesis_res (parse_genesis_message L genesis)) (\<lambda>d.
                      and_then (judge_size (measure_request message rq) (gd_payload_ceiling d)) (\<lambda>_.
                      and_then (require (\<not> hook_refuses (op_pre_append opts) ad) PreAppendRefused) (\<lambda>_.
                      and_then (git_res (parse_typed_oid (in_payload_tree decoded)))
                        (\<lambda>(payload_format, tree).
                      and_then (require (payload_format = format) FormatDiffers) (\<lambda>_. Inr tree))))))) of
                  Inl e \<Rightarrow> (Inl e, w)
                | Inr tree \<Rightarrow>
                    (case write_payload_tree G (rq_payload rq) (rq_attachments rq) w of
                       (Inl e, w') \<Rightarrow> (Inl (GitError e), w')
                     | (Inr written, w') \<Rightarrow>
                         if written \<noteq> tree then (Inl PayloadTreeMismatch, w')
                         else (Inr \<lparr>pp_intent = decoded, pp_format = format, pp_target = target,
                                   pp_message = message, pp_tree = written\<rparr>, w')))))"

text \<open>The log an attempt judges against: scanned now, or the advanced cache.\<close>

definition current_log ::
  "('l) kernel_lib_scheme \<Rightarrow> 'w git \<Rightarrow> string \<Rightarrow> log_cache option \<Rightarrow> 'w
   \<Rightarrow> (kernel_error + string \<times> scanned_log) \<times> log_cache option \<times> 'w" where
  "current_log L G target cache w0 =
     (case cache of
        None \<Rightarrow>
          (case store_head G (sequence_ref target) w0 of
             (Inl e, w) \<Rightarrow> (Inl (GitError e), None, w)
           | (Inr head, w) \<Rightarrow>
               (and_then (scan_head L G w target head False) (\<lambda>log. Inr (head, log)), None, w))
      | Some c \<Rightarrow>
          (case advance L G target False None () c w0 of
             (Inl e, c', w) \<Rightarrow> (Inl e, Some c', w)
           | (Inr (a, _), c', w) \<Rightarrow> (Inr (ca_head a, lc_log c'), Some c', w)))"

definition actor_identity :: "('l) kernel_lib_scheme \<Rightarrow> bytes \<Rightarrow> commit_identity" where
  "actor_identity L key =
     (let short = take 16 (fingerprint_of L key) in
      \<lparr>ci_author_name = ''actor '' @ short, ci_author_email = short @ ''@actor.gitseq.invalid'',
       ci_committer_name = ''gitseq sequencer'', ci_committer_email = ''sequencer@gitseq.invalid''\<rparr>)"

text \<open>What an attempt decides before it writes anything: a replay, a refusal, or to go on.\<close>

definition judge_attempt ::
  "'w options \<Rightarrow> request \<Rightarrow> prepared \<Rightarrow> string \<Rightarrow> nat \<Rightarrow> string \<Rightarrow> scanned_log \<Rightarrow> 'w
   \<Rightarrow> kernel_error + submission_result option" where
  "judge_attempt opts rq pp key attempt head log w =
     and_then (dedup_prior (sl_dedup log key) (rq_signed rq)) (\<lambda>prior.
       case prior of
         Some p \<Rightarrow> Inr (Some \<lparr>sb_commit = ev_commit p, sb_head = ev_commit p, sb_replay = True,
                            sb_cas_retries = attempt, sb_base_head = head,
                            sb_timestamp = ev_timestamp p\<rparr>)
       | None \<Rightarrow>
           and_then (resolve_references (pp_format pp) (pp_target pp) log (in_rests_on (pp_intent pp)))
             (\<lambda>_.
             if hook_refuses (map_option (\<lambda>f a. f a w) (op_post_dedup opts))
                  \<lparr>ap_intent = pp_intent pp, ap_actor_key = sg_actor_key (rq_signed rq),
                   ap_payload = rq_payload rq, ap_attachments = rq_attachments rq, ap_head = head\<rparr>
             then Inl ApplicationRefused else Inr None))"

text \<open>\<open>commit-tree\<close>, the check of what it signed, and the compare-and-swap; \<open>Inr None\<close> lost the race.\<close>

definition chain_commit ::
  "'w git \<Rightarrow> string \<Rightarrow> string \<Rightarrow> string \<Rightarrow> commit_request \<Rightarrow> 'w
   \<Rightarrow> (kernel_error + (string \<times> int) option) \<times> 'w" where
  "chain_commit G ref head sequencer_key cr w0 =
     (case gt_commit G cr w0 of
        (None, w) \<Rightarrow> (Inl (GitError GitFailed), w)
      | (Some (commit, ts), w) \<Rightarrow>
          (case verify_ssh_commit G commit ''sequencer'' sequencer_key w of
             Inl e \<Rightarrow> (Inl (GitError e), w)
           | Inr _ \<Rightarrow>
               (case gt_update_ref G ref commit head w of
                  (True, w') \<Rightarrow> (Inr (Some (commit, ts)), w')
                | (False, w') \<Rightarrow>
                    (case store_head G ref w' of
                       (Inr current, w'') \<Rightarrow>
                         if current \<noteq> head then (Inr None, w'') else (Inl (GitError GitFailed), w'')
                     | (Inl _, w'') \<Rightarrow> (Inl (GitError GitFailed), w'')))))"

definition submitted_event :: "request \<Rightarrow> prepared \<Rightarrow> string \<Rightarrow> int \<Rightarrow> event" where
  "submitted_event rq pp commit ts =
     \<lparr>ev_commit = commit, ev_timestamp = ts, ev_intent = pp_intent pp, ev_signed = rq_signed rq,
      ev_payload_tree = in_payload_tree (pp_intent pp), ev_payload = rq_payload rq,
      ev_attachments = rq_attachments rq\<rparr>"

definition submit_attempt ::
  "('l) kernel_lib_scheme \<Rightarrow> 'w git \<Rightarrow> 'w options \<Rightarrow> request \<Rightarrow> prepared \<Rightarrow> string \<Rightarrow> nat
   \<Rightarrow> log_cache option \<Rightarrow> 'w
   \<Rightarrow> (kernel_error + submission_result option) \<times> log_cache option \<times> 'w" where
  "submit_attempt L G opts rq pp key attempt cache w0 =
     (case current_log L G (pp_target pp) cache w0 of
        (Inl e, c, w) \<Rightarrow> (Inl e, c, w)
      | (Inr (head, log), c, w) \<Rightarrow>
          (case judge_attempt opts rq pp key attempt head log w of
             Inl e \<Rightarrow> (Inl e, c, w)
           | Inr (Some r) \<Rightarrow> (Inr (Some r), c, w)
           | Inr None \<Rightarrow>
               (case chain_commit G (sequence_ref (pp_target pp)) head (sl_sequencer_key log)
                       \<lparr>cr_tree = pp_tree pp, cr_parent = head, cr_message = pp_message pp,
                        cr_signing_key = op_signing_key opts,
                        cr_identity = actor_identity L (sg_actor_key (rq_signed rq))\<rparr> w of
                  (Inl e, w') \<Rightarrow> (Inl e, c, w')
                | (Inr None, w') \<Rightarrow> (Inr None, c, w')
                | (Inr (Some (commit, ts)), w') \<Rightarrow>
                    (Inr (Some \<lparr>sb_commit = commit, sb_head = commit, sb_replay = False,
                                sb_cas_retries = attempt, sb_base_head = head, sb_timestamp = ts\<rparr>),
                     map_option (cache_append key (submitted_event rq pp commit ts)) c, w'))))"

text \<open>\<open>left\<close> counts the attempts that remain; a negative limit leaves none.\<close>

definition retry_limit :: "int \<Rightarrow> int" where
  "retry_limit n = (if n = 0 then 32 else n)"

fun submit_loop ::
  "('l) kernel_lib_scheme \<Rightarrow> 'w git \<Rightarrow> 'w options \<Rightarrow> request \<Rightarrow> prepared \<Rightarrow> string \<Rightarrow> nat \<Rightarrow> nat
   \<Rightarrow> log_cache option \<Rightarrow> 'w
   \<Rightarrow> (kernel_error + submission_result) \<times> log_cache option \<times> 'w" where
  "submit_loop L G opts rq pp key attempt 0 cache w =
     (Inl (BackPressure (retry_limit (op_max_retries opts))), cache, w)"
| "submit_loop L G opts rq pp key attempt (Suc left) cache w =
     (case submit_attempt L G opts rq pp key attempt cache w of
        (Inl e, c, w') \<Rightarrow> (Inl e, c, w')
      | (Inr (Some r), c, w') \<Rightarrow> (Inr r, c, w')
      | (Inr None, c, w') \<Rightarrow> submit_loop L G opts rq pp key (attempt + 1) left c w')"

definition submit ::
  "('l) kernel_lib_scheme \<Rightarrow> 'w git \<Rightarrow> request \<Rightarrow> 'w options \<Rightarrow> log_cache option \<Rightarrow> 'w
   \<Rightarrow> (kernel_error + submission_result) \<times> log_cache option \<times> 'w" where
  "submit L G rq opts cache w0 =
     (case check_submission L G opts rq w0 of
        (Inl e, w) \<Rightarrow> (Inl e, cache, w)
      | (Inr pp, w) \<Rightarrow>
          (case dedup_key L (rq_signed rq) of
             Inl e \<Rightarrow> (Inl (IntentError e), cache, w)
           | Inr key \<Rightarrow>
               submit_loop L G opts rq pp key 0 (nat (retry_limit (op_max_retries opts))) cache w))"

section \<open>The resident submitter\<close>

record submitter =
  sm_in_flight :: int
  sm_cache :: log_cache

definition locked_submit ::
  "('l) kernel_lib_scheme \<Rightarrow> 'w git \<Rightarrow> 'w options \<Rightarrow> request \<Rightarrow> submitter \<Rightarrow> 'w
   \<Rightarrow> (kernel_error + submission_result) \<times> submitter \<times> 'w" where
  "locked_submit L G opts rq sm w0 =
     (case submit L G rq opts (Some (sm_cache sm)) w0 of
        (r, Some c, w) \<Rightarrow> (r, sm\<lparr>sm_cache := c\<rparr>, w)
      | (r, None, w) \<Rightarrow> (r, sm, w))"

text \<open>
  A call of \<open>Submit\<close> is a program of atomic steps, and several run at once: the add that returns the
  depth, the comparison of that depth with the limit (and the subtraction of a refused call), the
  submission under the lock, and the deferred subtraction, which comes after the lock is released.
  Without a limit nothing is counted.
\<close>

datatype caller =
  Calling request
| Counted request int
| Admitted request
| Leaving "kernel_error + submission_result"
| Returned "kernel_error + submission_result"

definition add_in_flight :: "int \<Rightarrow> submitter \<Rightarrow> submitter" where
  "add_in_flight n sm = sm\<lparr>sm_in_flight := sm_in_flight sm + n\<rparr>"

fun caller_step ::
  "('l) kernel_lib_scheme \<Rightarrow> 'w git \<Rightarrow> 'w options \<Rightarrow> caller \<Rightarrow> submitter \<Rightarrow> 'w \<Rightarrow> caller \<times> submitter \<times> 'w" where
  "caller_step L G opts (Calling rq) sm w =
     (if op_max_queue_depth opts > 0
      then (let sm' = add_in_flight 1 sm in (Counted rq (sm_in_flight sm'), sm', w))
      else (Admitted rq, sm, w))"
| "caller_step L G opts (Counted rq depth) sm w =
     (if depth > op_max_queue_depth opts
      then (Returned (Inl (BackPressure (op_max_queue_depth opts))), add_in_flight (- 1) sm, w)
      else (Admitted rq, sm, w))"
| "caller_step L G opts (Admitted rq) sm w =
     (case locked_submit L G opts rq sm w of (r, sm', w') \<Rightarrow> (Leaving r, sm', w'))"
| "caller_step L G opts (Leaving r) sm w =
     (Returned r, if op_max_queue_depth opts > 0 then add_in_flight (- 1) sm else sm, w)"
| "caller_step L G opts (Returned r) sm w = (Returned r, sm, w)"

text \<open>A schedule says which caller takes the next step.\<close>

fun queue_run ::
  "('l) kernel_lib_scheme \<Rightarrow> 'w git \<Rightarrow> 'w options \<Rightarrow> nat list \<Rightarrow> caller list \<times> submitter \<times> 'w
   \<Rightarrow> caller list \<times> submitter \<times> 'w" where
  "queue_run L G opts [] s = s"
| "queue_run L G opts (i # schedule) (cs, sm, w) =
     queue_run L G opts schedule
       (if i < length cs
        then (case caller_step L G opts (cs ! i) sm w of (c, sm', w') \<Rightarrow> (cs[i := c], sm', w'))
        else (cs, sm, w))"

section \<open>Rotation and founding\<close>

fun rotate_loop ::
  "('l) kernel_lib_scheme \<Rightarrow> 'w git \<Rightarrow> 'w options \<Rightarrow> string \<Rightarrow> string \<Rightarrow> string \<Rightarrow> string \<Rightarrow> nat \<Rightarrow> nat
   \<Rightarrow> 'w \<Rightarrow> (kernel_error + submission_result) \<times> 'w" where
  "rotate_loop L G opts genesis successor message tree attempt 0 w = (Inl RetriesExhausted, w)"
| "rotate_loop L G opts genesis successor message tree attempt (Suc left) w0 =
     (case store_head G (sequence_ref genesis) w0 of
        (Inl e, w) \<Rightarrow> (Inl (GitError e), w)
      | (Inr head, w) \<Rightarrow>
          (case scan_head L G w genesis head False of
             Inl e \<Rightarrow> (Inl e, w)
           | Inr log \<Rightarrow>
               if sl_sequencer_key log = successor then (Inl AlreadyCurrentKey, w)
               else (case chain_commit G (sequence_ref genesis) head (sl_sequencer_key log)
                       \<lparr>cr_tree = tree, cr_parent = head, cr_message = message,
                        cr_signing_key = op_signing_key opts,
                        cr_identity = \<lparr>ci_author_name = ''gitseq rotation'',
                          ci_author_email = ''rotation@gitseq.invalid'',
                          ci_committer_name = ''gitseq sequencer'',
                          ci_committer_email = ''sequencer@gitseq.invalid''\<rparr>\<rparr> w of
                  (Inl e, w') \<Rightarrow> (Inl e, w')
                | (Inr None, w') \<Rightarrow>
                    rotate_loop L G opts genesis successor message tree (attempt + 1) left w'
                | (Inr (Some (commit, ts)), w') \<Rightarrow>
                    (Inr \<lparr>sb_commit = commit, sb_head = commit, sb_replay = False,
                          sb_cas_retries = attempt, sb_base_head = head, sb_timestamp = ts\<rparr>, w'))))"

definition empty_tree :: "'w git \<Rightarrow> 'w \<Rightarrow> (kernel_error + string) \<times> 'w" where
  "empty_tree G w = (case gt_mktree G [] w of (r, w') \<Rightarrow> (of_option (GitError GitFailed) r, w'))"

definition rotate ::
  "('l) kernel_lib_scheme \<Rightarrow> 'w git \<Rightarrow> string \<Rightarrow> string \<Rightarrow> 'w options \<Rightarrow> 'w
   \<Rightarrow> (kernel_error + submission_result) \<times> 'w" where
  "rotate L G genesis successor opts w0 =
     (case (and_then (genesis_res (rotation_message L successor)) (\<lambda>message.
            and_then (descriptor L G w0 genesis) (\<lambda>d.
              if length message > unat (gd_payload_ceiling d) then Inl MessageOverCeiling
              else Inr message))) of
        Inl e \<Rightarrow> (Inl e, w0)
      | Inr message \<Rightarrow>
          (case empty_tree G w0 of
             (Inl e, w) \<Rightarrow> (Inl e, w)
           | (Inr tree, w) \<Rightarrow>
               rotate_loop L G opts genesis successor message tree 0
                 (nat (retry_limit (op_max_retries opts))) w))"

definition create_log ::
  "('l) kernel_lib_scheme \<Rightarrow> 'w git \<Rightarrow> genesis_descriptor \<Rightarrow> string \<Rightarrow> 'w \<Rightarrow> (kernel_error + string) \<times> 'w"
where
  "create_log L G d signing_key w0 =
     (case gt_format G w0 of
        None \<Rightarrow> (Inl (GitError GitFailed), w0)
      | Some format \<Rightarrow>
          if format \<noteq> gd_object_format d then (Inl FormatDiffers, w0)
          else (case empty_tree G w0 of
            (Inl e, w1) \<Rightarrow> (Inl e, w1)
          | (Inr tree, w1) \<Rightarrow>
              (case genesis_message L d of
                 Inl e \<Rightarrow> (Inl (GenesisError e), w1)
               | Inr message \<Rightarrow>
                   (case gt_commit G \<lparr>cr_tree = tree, cr_parent = [], cr_message = message,
                        cr_signing_key = signing_key,
                        cr_identity = \<lparr>ci_author_name = ''gitseq genesis'',
                          ci_author_email = ''genesis@gitseq.invalid'',
                          ci_committer_name = ''gitseq sequencer'',
                          ci_committer_email = ''sequencer@gitseq.invalid''\<rparr>\<rparr> w1 of
                      (None, w2) \<Rightarrow> (Inl (GitError GitFailed), w2)
                    | (Some (commit, ts), w2) \<Rightarrow>
                        (case verify_ssh_commit G commit ''sequencer'' (gd_sequencer_key d) w2 of
                           Inl e \<Rightarrow> (Inl (GitError e), w2)
                         | Inr _ \<Rightarrow>
                             (case gt_update_ref G (sequence_ref commit) commit [] w2 of
                                (True, w3) \<Rightarrow> (Inr commit, w3)
                              | (False, w3) \<Rightarrow> (Inl (GitError GitFailed), w3)))))))"

section \<open>Reading a verified log\<close>

definition load_log ::
  "('l) kernel_lib_scheme \<Rightarrow> 'w git \<Rightarrow> string \<Rightarrow> 'w \<Rightarrow> (kernel_error + scanned_log) \<times> 'w" where
  "load_log L G genesis w0 =
     (case store_head G (sequence_ref genesis) w0 of
        (Inl e, w) \<Rightarrow> (Inl (GitError e), w)
      | (Inr head, w) \<Rightarrow> (scan_head L G w genesis head True, w))"

definition verify_log ::
  "('l) kernel_lib_scheme \<Rightarrow> 'w git \<Rightarrow> string \<Rightarrow> 'w \<Rightarrow> (kernel_error + scanned_log) \<times> 'w" where
  "verify_log L G genesis w0 =
     (case store_head G (sequence_ref genesis) w0 of
        (Inl e, w) \<Rightarrow> (Inl (GitError e), w)
      | (Inr head, w) \<Rightarrow> (scan_head L G w genesis head False, w))"

definition verify_continuation ::
  "('l) kernel_lib_scheme \<Rightarrow> 'w git \<Rightarrow> string \<Rightarrow> 'w git \<Rightarrow> string \<Rightarrow> 'w
   \<Rightarrow> (kernel_error + scanned_log \<times> scanned_log) \<times> 'w" where
  "verify_continuation L P predecessor S successor w0 =
     (case verify_log L P predecessor w0 of
        (Inl e, w) \<Rightarrow> (Inl e, w)
      | (Inr before_log, w) \<Rightarrow>
          (case verify_log L S successor w of
             (Inl e, w') \<Rightarrow> (Inl e, w')
           | (Inr after_log, w') \<Rightarrow>
               (and_then (descriptor L S w' successor) (\<lambda>d.
                  if gd_predecessor d \<noteq> sl_genesis before_log \<or> gd_sealed_head d \<noteq> sl_head before_log
                  then Inl NotContinued else Inr (before_log, after_log)), w')))"

definition target_of ::
  "('l) kernel_lib_scheme \<Rightarrow> 'w git \<Rightarrow> string \<Rightarrow> 'w \<Rightarrow> kernel_error + string" where
  "target_of L G target w =
     and_then (of_option (GitError GitFailed) (gt_format G w)) (\<lambda>format.
     and_then (git_res (parse_typed_oid target)) (\<lambda>(target_format, oid).
       if target_format \<noteq> format then Inl FormatDiffers else Inr oid))"

definition check_replay ::
  "('l) kernel_lib_scheme \<Rightarrow> 'w git \<Rightarrow> request \<Rightarrow> 'w \<Rightarrow> (kernel_error + bool) \<times> 'w" where
  "check_replay L G rq w0 =
     (case (and_then (intent_res (verify_signed L (rq_signed rq))) (\<lambda>decoded.
              target_of L G (in_target decoded) w0)) of
        Inl e \<Rightarrow> (Inl e, w0)
      | Inr target \<Rightarrow>
          (case store_head G (sequence_ref target) w0 of
             (Inl _, w) \<Rightarrow> (Inl UnknownLog, w)
           | (Inr head, w) \<Rightarrow>
               (and_then (scan_head L G w target head False) (\<lambda>log.
                and_then (intent_res (dedup_key L (rq_signed rq))) (\<lambda>key.
                and_then (dedup_prior (sl_dedup log key) (rq_signed rq)) (\<lambda>prior.
                  Inr (prior \<noteq> None)))), w)))"

text \<open>The keys the log holds, by the commit that holds each.\<close>

definition held_keys :: "scanned_log \<Rightarrow> string list \<Rightarrow> (string \<times> string) list" where
  "held_keys log keys =
     fold (\<lambda>key m. case sl_dedup log key of None \<Rightarrow> m | Some p \<Rightarrow> put (ev_commit p) key m) keys []"

definition events_under :: "(string \<times> string) list \<Rightarrow> event list \<Rightarrow> (string \<times> event) list" where
  "events_under held events =
     fold (\<lambda>e m. case map_of held (ev_commit e) of None \<Rightarrow> m | Some key \<Rightarrow> put key e m) events []"

text \<open>Without a head there is no log, and no key stands.\<close>

definition prior_acts ::
  "('l) kernel_lib_scheme \<Rightarrow> 'w git \<Rightarrow> string \<Rightarrow> string list \<Rightarrow> 'w
   \<Rightarrow> (kernel_error + (string \<times> event) list) \<times> 'w" where
  "prior_acts L G target keys w0 =
     (case (and_then (git_res (parse_typed_oid target)) (\<lambda>(target_format, oid).
            and_then (of_option (GitError GitFailed) (gt_format G w0)) (\<lambda>format.
              if target_format \<noteq> format then Inl FormatDiffers else Inr oid))) of
        Inl e \<Rightarrow> (Inl e, w0)
      | Inr oid \<Rightarrow>
          (case store_head G (sequence_ref oid) w0 of
             (Inl _, w) \<Rightarrow> (Inr [], w)
           | (Inr head, w) \<Rightarrow>
               (and_then (scan_head L G w oid head True) (\<lambda>log.
                  Inr (events_under (held_keys log keys) (sl_events log))), w)))"

definition matched_events :: "scanned_log \<Rightarrow> string list \<Rightarrow> (string \<times> event) list" where
  "matched_events log keys =
     fold (\<lambda>key m. case sl_dedup log key of None \<Rightarrow> m | Some e \<Rightarrow> put key e m) keys []"

text \<open>One matched event with its payload read again; the loop stops at the first failure.\<close>

definition reread_event ::
  "('l) kernel_lib_scheme \<Rightarrow> 'w git \<Rightarrow> 'w \<Rightarrow> genesis_descriptor \<Rightarrow> event \<Rightarrow> kernel_error + event" where
  "reread_event L G w d e =
     and_then (intent_res (verify_signed L (ev_signed e))) (\<lambda>decoded.
     and_then (require (in_payload_tree decoded = ev_payload_tree e) TreeDiffers) (\<lambda>_.
     and_then (git_res (parse_typed_oid (in_payload_tree decoded))) (\<lambda>(_, tree).
     and_then (git_res (payload_tree L G w (gd_object_format d) tree (unat (gd_payload_ceiling d)) True))
       (\<lambda>(payload, as).
       Inr (e\<lparr>ev_intent := decoded, ev_payload := payload, ev_attachments := as\<rparr>)))))"

fun reread_events ::
  "('l) kernel_lib_scheme \<Rightarrow> 'w git \<Rightarrow> 'w \<Rightarrow> genesis_descriptor \<Rightarrow> (string \<times> event) list
   \<Rightarrow> kernel_error + (string \<times> event) list" where
  "reread_events L G w d [] = Inr []"
| "reread_events L G w d ((key, e) # es) =
     and_then (reread_event L G w d e) (\<lambda>e'.
     and_then (reread_events L G w d es) (\<lambda>rest. Inr ((key, e') # rest)))"

definition stands_at :: "log_cache \<Rightarrow> string \<Rightarrow> string \<Rightarrow> bool" where
  "stands_at c genesis head \<longleftrightarrow> head \<noteq> [] \<and> lc_target c = genesis \<and> lc_head c = head"

text \<open>\<open>None\<close>: the reader does not stand there, and the caller asks somewhere else.\<close>

definition prior_acts_at ::
  "('l) kernel_lib_scheme \<Rightarrow> 'w git \<Rightarrow> log_cache \<Rightarrow> string \<Rightarrow> string \<Rightarrow> string list \<Rightarrow> 'w
   \<Rightarrow> (kernel_error + (string \<times> event) list) option" where
  "prior_acts_at L G c genesis head keys w =
     (if \<not> stands_at c genesis head then None
      else (let matched = matched_events (lc_log c) keys in
            if matched = [] then Some (Inr [])
            else Some (and_then (descriptor L G w genesis) (\<lambda>d. reread_events L G w d matched))))"

definition replay_at ::
  "('l) kernel_lib_scheme \<Rightarrow> log_cache \<Rightarrow> string \<Rightarrow> request \<Rightarrow> (kernel_error + bool) option" where
  "replay_at L c head rq =
     (case (and_then (verify_signed L (rq_signed rq)) (\<lambda>decoded.
            and_then (dedup_key L (rq_signed rq)) (\<lambda>key. Inr (decoded, key)))) of
        Inl _ \<Rightarrow> None
      | Inr (decoded, key) \<Rightarrow>
          (case parse_typed_oid (in_target decoded) of
             Inl _ \<Rightarrow> None
           | Inr (_, target) \<Rightarrow>
               if \<not> stands_at c target head then None
               else Some (and_then (dedup_prior (sl_dedup (lc_log c) key) (rq_signed rq)) (\<lambda>prior.
                      Inr (prior \<noteq> None)))))"

end
