(* ===== verification/PayloadTrees.thy ===== *)
theory PayloadTrees
  imports GitFacts
begin

text \<open>
  The payload tree of an event: the parser of tree objects reads back what the printer of
  \<open>HashPayloadTree\<close> writes, a tree whose objects the repository holds is read back with its payload
  and attachments, and its name determines them.
\<close>

section \<open>Tree objects\<close>

definition proper_entry :: "nat \<Rightarrow> ('e) tree_entry_scheme \<Rightarrow> bool" where
  "proper_entry n e \<longleftrightarrow>
     te_mode e \<noteq> [] \<and> CHR '' '' \<notin> set (te_mode e) \<and> zero_byte \<notin> set (te_mode e)
     \<and> te_name e \<noteq> [] \<and> zero_byte \<notin> set (te_name e)
     \<and> (\<exists>raw. te_oid e = hex_encode raw \<and> length raw = n)"

definition bare_entry :: "('e) tree_entry_scheme \<Rightarrow> tree_entry" where
  "bare_entry e = \<lparr>te_mode = te_mode e, te_name = te_name e, te_oid = te_oid e\<rparr>"

lemma index_byte_at: "c \<notin> set a \<Longrightarrow> index_byte c (a @ c # b) = Some (length a)"
proof -
  assume "c \<notin> set a"
  then have "takeWhile (\<lambda>x. x \<noteq> c) (a @ c # b) = a"
    by (induction a) auto
  then show ?thesis
    by (simp add: index_byte_def)
qed

lemma tree_entries_content:
  assumes "tree_content es = Inr content" "\<forall>e\<in>set es. proper_entry n e"
  shows "tree_entries n content = Inr (map bare_entry es)"
  using assms
proof (induction es arbitrary: content)
  case Nil
  then show ?case
    by (simp add: tree_entries.simps)
next
  case (Cons e es)
  obtain raw where raw: "te_oid e = hex_encode raw" "length raw = n"
    using Cons.prems(2) by (auto simp: proper_entry_def)
  obtain rest where rest: "tree_content es = Inr rest"
    and content: "content = te_mode e @ CHR '' '' # te_name e @ zero_byte # raw @ rest"
    using Cons.prems(1) raw by (auto simp: and_then_Inr)
  have entry: "te_mode e \<noteq> []" "CHR '' '' \<notin> set (te_mode e)" "zero_byte \<notin> set (te_mode e)"
    "te_name e \<noteq> []" "zero_byte \<notin> set (te_name e)"
    using Cons.prems(2) by (auto simp: proper_entry_def)
  have "index_byte (CHR '' '') content = Some (length (te_mode e))"
    unfolding content by (rule index_byte_at [OF entry(2)])
  moreover have "index_byte zero_byte content = Some (length (te_mode e @ CHR '' '' # te_name e))"
    using index_byte_at [of zero_byte "te_mode e @ CHR '' '' # te_name e" "raw @ rest"] entry
    by (simp add: content)
  moreover have "tree_entries n rest = Inr (map bare_entry es)"
    using Cons.IH [OF rest] Cons.prems(2) by simp
  ultimately show ?case
    using entry raw by (subst tree_entries.simps) (simp add: content bare_entry_def)
qed

lemma tree_content_inject:
  assumes "tree_content es = Inr content" "tree_content es' = Inr content"
    and "\<forall>e\<in>set es. proper_entry n e" "\<forall>e\<in>set es'. proper_entry n e"
  shows "map bare_entry es = map bare_entry es'"
  using tree_entries_content [OF assms(1,3)] tree_entries_content [OF assms(2,4)] by simp

section \<open>Objects the repository holds\<close>

text \<open>SHA-1 and SHA-256 have their documented sizes.\<close>

definition hash_sizes :: "('l) kernel_lib_scheme \<Rightarrow> bool" where
  "hash_sizes L \<longleftrightarrow> (\<forall>s. length (kl_sha1 L s) = 20) \<and> (\<forall>s. length (kl_sha256 L s) = 32)"

definition stored ::
  "('l) kernel_lib_scheme \<Rightarrow> 'w git \<Rightarrow> 'w \<Rightarrow> string \<Rightarrow> string \<Rightarrow> bytes \<Rightarrow> string \<Rightarrow> bool" where
  "stored L G w format kind content oid \<longleftrightarrow>
     git_hash L format kind content = Inr oid \<and> gt_cat G oid w = Some (cat_answer oid kind content)
     \<and> length content \<le> max_int"

lemma git_hash_width:
  assumes "hash_sizes L" "git_hash L format kind content = Inr oid"
  obtains n raw where "object_bytes_of format = Some n" "oid = hex_encode raw" "length raw = n" "0 < n"
  using assms by (auto simp: git_hash_def object_bytes_of_def hash_sizes_def Let_def split: if_splits)

lemma read_stored:
  assumes "hash_sizes L" "stored L G w format kind content oid" "length content \<le> max_bytes"
    and "kind \<in> {''blob'', ''tree'', ''commit''}"
  shows "read_object L G w format oid kind max_bytes = Inr content"
proof -
  have hash: "git_hash L format kind content = Inr oid"
    using assms(2) by (simp add: stored_def)
  obtain n raw where "object_bytes_of format = Some n" "oid = hex_encode raw" "length raw = n"
    using git_hash_width [OF assms(1) hash] by blast
  moreover have "CHR '' '' \<notin> set kind" "newline \<notin> set kind"
    using assms(4) by auto
  ultimately show ?thesis
    using assms(2,3) by (intro read_object_printed [OF hash, of n]) (auto simp: stored_def)
qed

lemma max_int_uint64: "n \<le> max_int \<Longrightarrow> n \<le> max_uint64"
  by (simp add: max_int_def max_uint64_def)

section \<open>A payload tree the repository holds\<close>

definition blob_entry :: "string \<Rightarrow> string \<Rightarrow> hash_entry" where
  "blob_entry name oid =
     \<lparr>te_mode = ''100644'', te_name = name, te_oid = oid, he_directory = False\<rparr>"

definition attachments_entry :: "string \<Rightarrow> hash_entry" where
  "attachments_entry oid =
     \<lparr>te_mode = ''40000'', te_name = ''attachments'', te_oid = oid, he_directory = True\<rparr>"

definition stored_tree ::
  "('l) kernel_lib_scheme \<Rightarrow> 'w git \<Rightarrow> 'w \<Rightarrow> string \<Rightarrow> hash_entry list \<Rightarrow> string \<Rightarrow> bool" where
  "stored_tree L G w format es oid \<longleftrightarrow>
     (\<exists>content. tree_content (sort_entries es) = Inr content \<and> stored L G w format ''tree'' content oid)"

definition stored_blobs ::
  "('l) kernel_lib_scheme \<Rightarrow> 'w git \<Rightarrow> 'w \<Rightarrow> string \<Rightarrow> attachments \<Rightarrow> hash_entry list \<Rightarrow> bool" where
  "stored_blobs L G w format = list_all2 (\<lambda>(name, content) e.
     \<exists>oid. e = blob_entry name oid \<and> stored L G w format ''blob'' content oid)"

definition stored_sub ::
  "('l) kernel_lib_scheme \<Rightarrow> 'w git \<Rightarrow> 'w \<Rightarrow> string \<Rightarrow> attachments \<Rightarrow> hash_entry list \<Rightarrow> bool" where
  "stored_sub L G w format as sub \<longleftrightarrow>
     (if as = [] then sub = []
      else (\<exists>es t. stored_blobs L G w format (sorted_attachments as) es
              \<and> stored_tree L G w format es t \<and> sub = [attachments_entry t]))"

definition stored_payload ::
  "('l) kernel_lib_scheme \<Rightarrow> 'w git \<Rightarrow> 'w \<Rightarrow> string \<Rightarrow> bytes \<Rightarrow> attachments \<Rightarrow> string \<Rightarrow> bool" where
  "stored_payload L G w format event as tree \<longleftrightarrow>
     (\<exists>oid sub. stored L G w format ''blob'' event oid \<and> stored_sub L G w format as sub
        \<and> stored_tree L G w format (blob_entry ''event'' oid # sub) tree)"

text \<open>What is held stays held while objects are only added.\<close>

definition keeps_objects :: "'w git \<Rightarrow> 'w \<Rightarrow> 'w \<Rightarrow> bool" where
  "keeps_objects G w w' \<longleftrightarrow> (\<forall>oid a. gt_cat G oid w = Some a \<longrightarrow> gt_cat G oid w' = Some a)"

lemma keeps_refl [simp]: "keeps_objects G w w"
  by (simp add: keeps_objects_def)

lemma keeps_trans: "keeps_objects G u v \<Longrightarrow> keeps_objects G v w \<Longrightarrow> keeps_objects G u w"
  by (auto simp: keeps_objects_def)

lemma stored_kept: "stored L G w format kind content oid \<Longrightarrow> keeps_objects G w w'
    \<Longrightarrow> stored L G w' format kind content oid"
  by (simp add: stored_def keeps_objects_def)

lemma stored_tree_kept: "stored_tree L G w format es oid \<Longrightarrow> keeps_objects G w w'
    \<Longrightarrow> stored_tree L G w' format es oid"
  unfolding stored_tree_def by (elim exE conjE) (intro exI conjI, assumption, erule (1) stored_kept)

lemma stored_blobs_kept: "stored_blobs L G w format as es \<Longrightarrow> keeps_objects G w w'
    \<Longrightarrow> stored_blobs L G w' format as es"
  unfolding stored_blobs_def by (erule list_all2_mono) (auto intro: stored_kept)

lemma stored_sub_kept: "stored_sub L G w format as sub \<Longrightarrow> keeps_objects G w w'
    \<Longrightarrow> stored_sub L G w' format as sub"
  unfolding stored_sub_def
  by (simp split: if_splits) (elim exE conjE, intro exI conjI, erule (1) stored_blobs_kept,
      erule (1) stored_tree_kept, assumption)

lemma stored_payload_kept: "stored_payload L G w format event as tree \<Longrightarrow> keeps_objects G w w'
    \<Longrightarrow> stored_payload L G w' format event as tree"
  unfolding stored_payload_def
  by (elim exE conjE) (intro exI conjI, erule (1) stored_kept, erule (1) stored_sub_kept,
      erule (1) stored_tree_kept)

section \<open>Reading it back\<close>

lemma attachment_name_clean:
  assumes "attachment_name s"
  shows "s \<noteq> []" "zero_byte \<notin> set s" "newline \<notin> set s" "tab \<notin> set s"
proof -
  have "32 < byte_val c" if "c \<in> set s" for c
    using assms that by (auto simp: attachment_name_def is_alnum_def byte_in_def list_all_iff split: list.splits)
  then show "zero_byte \<notin> set s" "newline \<notin> set s" "tab \<notin> set s"
    by force+
  show "s \<noteq> []"
    using assms by (auto simp: attachment_name_def)
qed

lemma blob_entry_simps [simp]:
  "te_mode (blob_entry n oid) = ''100644''" "te_name (blob_entry n oid) = n"
  "te_oid (blob_entry n oid) = oid" "he_directory (blob_entry n oid) = False"
  "te_mode (attachments_entry oid) = ''40000''" "te_name (attachments_entry oid) = ''attachments''"
  "te_oid (attachments_entry oid) = oid" "he_directory (attachments_entry oid) = True"
  by (simp_all add: blob_entry_def attachments_entry_def)

lemma bare_entry_simps [simp]:
  "te_mode (bare_entry e) = te_mode e" "te_name (bare_entry e) = te_name e"
  "te_oid (bare_entry e) = te_oid e"
  by (simp_all add: bare_entry_def)

lemma entry_key_simps [simp]:
  "entry_key (blob_entry n oid) = n" "entry_key (attachments_entry oid) = ''attachments/''"
  by (simp_all add: entry_key_def)

lemma root_order:
  "sort_entries [blob_entry ''event'' oid] = [blob_entry ''event'' oid]"
  "sort_entries [blob_entry ''event'' oid, attachments_entry t]
     = [attachments_entry t, blob_entry ''event'' oid]"
  by simp_all

lemma str_less_asym: "str_less a b \<Longrightarrow> \<not> str_less b a"
  using str_less_trans str_less_irrefl by blast

lemma insert_entry_first:
  "\<forall>e\<in>set es. str_less (entry_key x) (entry_key e) \<Longrightarrow> insert_entry x es = x # es"
  by (cases es) (auto simp: str_less_asym)

lemma sort_entries_sorted: "sorted_wrt str_less (map entry_key es) \<Longrightarrow> sort_entries es = es"
  by (induction es) (auto simp: insert_entry_first)

lemma stored_blobs_keys:
  "stored_blobs L G w format as es \<Longrightarrow> map entry_key es = map fst as"
  unfolding stored_blobs_def by (induction rule: list_all2_induct) auto

lemma stored_oid: "hash_sizes L \<Longrightarrow> stored L G w format kind content oid \<Longrightarrow>
    \<exists>n raw. object_bytes_of format = Some n \<and> oid = hex_encode raw \<and> length raw = n \<and> oid \<noteq> []"
  unfolding stored_def by (elim conjE, erule (1) git_hash_width) (auto simp: neq_Nil_conv length_Suc_conv gr0_conv_Suc)

lemma stored_blobs_proper:
  assumes "stored_blobs L G w format as es" "hash_sizes L" "\<forall>(n, c)\<in>set as. attachment_name n"
    and "object_bytes_of format = Some n"
  shows "\<forall>e\<in>set es. proper_entry n e"
  using assms(1,3) unfolding stored_blobs_def
proof (induction rule: list_all2_induct)
  case (Cons nc as e es)
  obtain name content oid where e: "nc = (name, content)" "e = blob_entry name oid"
    "stored L G w format ''blob'' content oid"
    using Cons.hyps by (cases nc) auto
  then show ?case
    using Cons stored_oid [OF assms(2) e(3)] attachment_name_clean [of name] assms(4)
    by (auto simp: proper_entry_def)
qed simp

lemma read_stored_tree:
  assumes "hash_sizes L" "stored_tree L G w format es oid" "object_bytes_of format = Some n"
    and "\<forall>e\<in>set (sort_entries es). proper_entry n e"
  shows "read_tree L G w format oid = Inr (map bare_entry (sort_entries es))"
proof -
  obtain content where content: "tree_content (sort_entries es) = Inr content"
    and held: "stored L G w format ''tree'' content oid"
    using assms(2) by (auto simp: stored_tree_def)
  have "length content \<le> max_uint64"
    using held max_int_uint64 by (simp add: stored_def)
  then have "read_object L G w format oid ''tree'' max_uint64 = Inr content"
    using read_stored [OF assms(1) held] by simp
  then show ?thesis
    using tree_entries_content [OF content assms(4)] assms(3) by (simp add: read_tree_def)
qed

lemma put_append: "k \<notin> fst ` set m \<Longrightarrow> put k v m = m @ [(k, v)]"
  by (induction m) auto

lemma read_blob: "hash_sizes L \<Longrightarrow> stored L G w format ''blob'' content oid \<Longrightarrow> length content \<le> room
    \<Longrightarrow> read_payload_blob L G w format oid room = Inr content"
  by (simp add: read_payload_blob_def read_stored)

lemma read_stored_attachments:
  assumes "stored_blobs L G w format as es" "hash_sizes L" "\<forall>(n, c)\<in>set as. attachment_name n"
    and "distinct (map fst (got @ as))" "used + sum_list (map (length \<circ> snd) as) \<le> ceiling"
  shows "read_attachments L G w format ceiling used (map bare_entry es) got = Inr (got @ as)"
  using assms(1,3-) unfolding stored_blobs_def
proof (induction arbitrary: got used rule: list_all2_induct)
  case (Cons nc as e es)
  obtain name content oid where e: "nc = (name, content)" "e = blob_entry name oid"
    "stored L G w format ''blob'' content oid"
    using Cons.hyps by (cases nc) auto
  have "read_payload_blob L G w format oid (ceiling - used) = Inr content"
    using Cons.prems e by (intro read_blob [OF assms(2) e(3)]) simp
  moreover have "put name content got = got @ [nc]"
    using Cons.prems e by (intro put_append [of name got content, folded e(1)]) auto
  ultimately show ?case
    using Cons.prems Cons.IH [of "got @ [nc]" "used + length content"] e
    by (simp add: is_blob_mode_def add.assoc)
qed simp

lemma payload_tree_stored:
  assumes sizes: "hash_sizes L" and held: "stored_payload L G w format event as tree"
    and names: "\<forall>(n, c)\<in>set as. attachment_name n" "distinct (map fst as)"
    and room: "length event + sum_list (map (length \<circ> snd) (sorted_attachments as)) \<le> ceiling"
  shows "payload_tree L G w format tree ceiling load
    = Inr (if load then (event, sorted_attachments as) else ([], []))"
proof -
  obtain oid sub where event: "stored L G w format ''blob'' event oid"
    and sub: "stored_sub L G w format as sub"
    and root: "stored_tree L G w format (blob_entry ''event'' oid # sub) tree"
    using held by (auto simp: stored_payload_def)
  obtain n where n: "object_bytes_of format = Some n" and oid: "proper_entry n (blob_entry ''event'' oid)" "oid \<noteq> []"
    using stored_oid [OF sizes event] by (auto simp: proper_entry_def)
  have blob: "read_payload_blob L G w format oid ceiling = Inr event"
    using room by (intro read_blob [OF sizes event]) simp
  show ?thesis
  proof (cases "as = []")
    case True
    then have "read_tree L G w format tree = Inr [bare_entry (blob_entry ''event'' oid)]"
      using read_stored_tree [OF sizes root n] sub oid by (simp add: stored_sub_def root_order)
    then show ?thesis
      using True blob oid by (simp add: payload_tree_def is_blob_mode_def sorted_attachments_def)
  next
    case False
    then obtain es t where blobs: "stored_blobs L G w format (sorted_attachments as) es"
      and nested: "stored_tree L G w format es t" and sub: "sub = [attachments_entry t]"
      using sub by (auto simp: stored_sub_def)
    obtain content where "stored L G w format ''tree'' content t"
      using nested by (auto simp: stored_tree_def)
    then have t: "proper_entry n (attachments_entry t)" "t \<noteq> []"
      using stored_oid [OF sizes] n by (fastforce simp: proper_entry_def)+
    have sorted_names: "map fst (sorted_attachments as) = sort_strings (map fst as)"
      by (simp add: sorted_attachments_def comp_def)
    have good: "\<forall>(m, c)\<in>set (sorted_attachments as). attachment_name m"
      using names(1) by (auto simp: sorted_attachments_def)
    have order: "sort_entries es = es"
      using strictly_sorted_sort_strings [OF names(2)] stored_blobs_keys [OF blobs]
      by (intro sort_entries_sorted) (simp add: sorted_names strictly_sorted_def)
    have "read_tree L G w format tree
        = Inr [bare_entry (attachments_entry t), bare_entry (blob_entry ''event'' oid)]"
      using read_stored_tree [OF sizes root n] oid t by (simp add: sub root_order)
    moreover have "read_tree L G w format t = Inr (map bare_entry es)"
      using read_stored_tree [OF sizes nested n] stored_blobs_proper [OF blobs sizes good n] by (simp add: order)
    moreover have "read_attachments L G w format ceiling (length event) (map bare_entry es) []
        = Inr ([] @ sorted_attachments as)"
      using distinct_sort_strings [OF names(2)] room
      by (intro read_stored_attachments [OF blobs sizes good]) (simp_all add: sorted_names)
    ultimately show ?thesis
      using blob oid t by (simp add: payload_tree_def is_blob_mode_def)
  qed
qed

section \<open>Writing it\<close>

text \<open>
  The documented behaviour of the commands that write: \<open>hash-object -w --stdin\<close> stores a blob,
  \<open>mktree\<close> stores the tree of the entries listed to it, in the order of tree objects, and no command
  takes an object away.
\<close>

definition listing_line :: "hash_entry \<Rightarrow> bytes" where
  "listing_line e =
     (if he_directory e then ''040000 tree '' else ''100644 blob '') @ te_oid e @ [tab] @ te_name e @ [newline]"

definition blobs_written :: "('l) kernel_lib_scheme \<Rightarrow> 'w git \<Rightarrow> string \<Rightarrow> bool" where
  "blobs_written L G format \<longleftrightarrow>
     (\<forall>content w oid w'. length content \<le> max_int \<and> gt_hash_object G content w = (Some oid, w')
        \<longrightarrow> stored L G w' format ''blob'' content oid)"

definition trees_written :: "('l) kernel_lib_scheme \<Rightarrow> 'w git \<Rightarrow> string \<Rightarrow> bool" where
  "trees_written L G format \<longleftrightarrow>
     (\<forall>es w oid w'. distinct (map te_name es)
          \<and> (\<forall>e\<in>set es. \<exists>name oid. e = blob_entry name oid \<or> e = attachments_entry oid)
          \<and> gt_mktree G (concat (map listing_line es)) w = (Some oid, w')
        \<longrightarrow> stored_tree L G w' format es oid)"

definition objects_kept :: "'w git \<Rightarrow> bool" where
  "objects_kept G \<longleftrightarrow>
     (\<forall>content w. keeps_objects G w (snd (gt_hash_object G content w)))
     \<and> (\<forall>text w. keeps_objects G w (snd (gt_mktree G text w)))
     \<and> (\<forall>cr w. keeps_objects G w (snd (gt_commit G cr w)))
     \<and> (\<forall>ref w. keeps_objects G w (snd (gt_head G ref w)))
     \<and> (\<forall>ref new old w. keeps_objects G w (snd (gt_update_ref G ref new old w)))"

lemma objects_keptD:
  assumes "objects_kept G"
  shows "gt_hash_object G content w = (r, w') \<Longrightarrow> keeps_objects G w w'"
    "gt_mktree G text w = (r, w') \<Longrightarrow> keeps_objects G w w'"
    "gt_commit G cr w = (rc, w') \<Longrightarrow> keeps_objects G w w'"
    "gt_head G ref w = (r, w') \<Longrightarrow> keeps_objects G w w'"
    "gt_update_ref G ref new old w = (b, w') \<Longrightarrow> keeps_objects G w w'"
  using assms unfolding objects_kept_def by (metis snd_conv)+

lemma write_blobs_stored:
  assumes laws: "blobs_written L G format" "objects_kept G"
    and "write_blobs G files out w = (Inr out', w')" "\<forall>(n, c)\<in>set files. length c \<le> max_int"
  shows "keeps_objects G w w' \<and> (\<exists>es. stored_blobs L G w' format files es
    \<and> map te_name es = map fst files \<and> (\<forall>e\<in>set es. \<exists>name oid. e = blob_entry name oid)
    \<and> out' = out @ concat (map listing_line es))"
  using assms(3,4)
proof (induction files arbitrary: out w)
  case Nil
  then show ?case
    by (simp add: stored_blobs_def)
next
  case (Cons nc more)
  obtain name content where nc: "nc = (name, content)"
    by (cases nc)
  obtain oid w1 where blob: "gt_hash_object G content w = (Some oid, w1)"
    and rest: "write_blobs G more (out @ ''100644 blob '' @ oid @ [tab] @ name @ [newline]) w1 = (Inr out', w')"
    using Cons.prems(1) by (auto simp: nc split: prod.splits option.splits)
  have one: "stored L G w1 format ''blob'' content oid"
    using laws(1) blob Cons.prems(2) unfolding blobs_written_def nc by auto
  obtain es where kept: "keeps_objects G w1 w'" and es: "stored_blobs L G w' format more es"
    "map te_name es = map fst more" "\<forall>e\<in>set es. \<exists>name oid. e = blob_entry name oid"
    "out' = (out @ ''100644 blob '' @ oid @ [tab] @ name @ [newline]) @ concat (map listing_line es)"
    using Cons.IH [OF rest] Cons.prems(2) by auto
  have "stored_blobs L G w' format (nc # more) (blob_entry name oid # es)"
    using es(1) stored_kept [OF one kept] by (auto simp: stored_blobs_def nc)
  moreover have "out' = out @ concat (map listing_line (blob_entry name oid # es))"
    by (simp add: es(4) listing_line_def)
  ultimately show ?case
    using es(2,3) keeps_trans [OF objects_keptD(1) [OF laws(2) blob] kept] nc
    by (intro conjI exI [of _ "blob_entry name oid # es"]) auto
qed

lemma finish_root:
  assumes laws: "trees_written L G format" "objects_kept G"
    and event: "stored L G w format ''blob'' event oid" and sub: "stored_sub L G w format as sub"
    and tree: "gt_mktree G (concat (map listing_line (blob_entry ''event'' oid # sub))) w = (Some tree, w')"
  shows "keeps_objects G w w' \<and> stored_payload L G w' format event as tree"
proof -
  have kept: "keeps_objects G w w'"
    using objects_keptD(2) [OF laws(2) tree] .
  have "sub = [] \<or> (\<exists>t. sub = [attachments_entry t])"
    using sub by (auto simp: stored_sub_def split: if_splits)
  then have "stored_tree L G w' format (blob_entry ''event'' oid # sub) tree"
    using laws(1) tree unfolding trees_written_def by (elim allE impE) (auto 0 4)
  then show ?thesis
    using kept stored_kept [OF event kept] stored_sub_kept [OF sub kept] unfolding stored_payload_def
    by blast
qed

lemma write_payload_tree_stored:
  assumes laws: "blobs_written L G format" "trees_written L G format" "objects_kept G"
    and written: "write_payload_tree G event as w = (Inr tree, w')"
    and bytes: "length event \<le> max_int" "\<forall>(n, c)\<in>set as. length c \<le> max_int" "distinct (map fst as)"
  shows "keeps_objects G w w' \<and> stored_payload L G w' format event as tree
    \<and> (\<forall>(n, c)\<in>set as. attachment_name n)"
proof -
  obtain oid w1 where blob: "gt_hash_object G event w = (Some oid, w1)"
    using written by (auto simp: write_payload_tree_def split: prod.splits option.splits)
  have event: "stored L G w1 format ''blob'' event oid" and kept1: "keeps_objects G w w1"
    using laws(1) blob bytes(1) objects_keptD(1) [OF laws(3) blob] unfolding blobs_written_def by auto
  have root: "listing_line (blob_entry ''event'' oid) = ''100644 blob '' @ oid @ [tab] @ ''event'' @ [newline]"
    by (simp add: listing_line_def)
  show ?thesis
  proof (cases "as = []")
    case True
    then have "gt_mktree G (concat (map listing_line (blob_entry ''event'' oid # []))) w1 = (Some tree, w')"
      using written blob by (simp add: write_payload_tree_def root split: prod.splits option.splits)
    moreover have "stored_sub L G w1 format as []"
      by (simp add: stored_sub_def True)
    ultimately show ?thesis
      using finish_root [OF laws(2,3) event] keeps_trans [OF kept1] True by auto
  next
    case False
    obtain nested subtree w2 w3 where found: "List.find (\<lambda>(n, c). \<not> attachment_name n) as = None"
      and blobs: "write_blobs G (sorted_attachments as) [] w1 = (Inr nested, w2)"
      and sub: "gt_mktree G nested w2 = (Some subtree, w3)"
      and last: "gt_mktree G (concat (map listing_line [blob_entry ''event'' oid, attachments_entry subtree])) w3
        = (Some tree, w')"
      using written blob False
      by (auto simp: write_payload_tree_def listing_line_def split: prod.splits option.splits sum.splits)
    have lookup: "(n, c) \<in> set (sorted_attachments as) \<Longrightarrow> (n, c) \<in> set as" for n c
      using bytes(3) by (auto simp: sorted_attachments_def)
    have names: "\<forall>(n, c)\<in>set as. attachment_name n"
      using found by (auto simp: find_None_iff)
    obtain es where kept2: "keeps_objects G w1 w2" and es: "stored_blobs L G w2 format (sorted_attachments as) es"
      "map te_name es = map fst (sorted_attachments as)" "\<forall>e\<in>set es. \<exists>name oid. e = blob_entry name oid"
      "nested = concat (map listing_line es)"
      using write_blobs_stored [OF laws(1,3) blobs] bytes(2) lookup by fastforce
    have distinct: "distinct (map te_name es)"
      using distinct_sort_strings [OF bytes(3)] es(2) by (simp add: sorted_attachments_def comp_def)
    have tree: "stored_tree L G w3 format es subtree"
      using laws(2) distinct es(3) sub unfolding trees_written_def es(4) by (elim allE impE) (auto 0 4)
    have kept3: "keeps_objects G w2 w3"
      using objects_keptD(2) [OF laws(3) sub] .
    have "stored_sub L G w3 format as [attachments_entry subtree]"
      using False stored_blobs_kept [OF es(1) kept3] tree by (auto simp: stored_sub_def)
    moreover have "stored L G w3 format ''blob'' event oid"
      using stored_kept [OF stored_kept [OF event kept2] kept3] .
    ultimately have "keeps_objects G w3 w' \<and> stored_payload L G w' format event as tree"
      using last by (intro finish_root [OF laws(2,3)])
    then show ?thesis
      using keeps_trans [OF keeps_trans [OF keeps_trans [OF kept1 kept2] kept3]] names by blast
  qed
qed

end
