(* ===== verification/KernelSizes.thy ===== *)
theory KernelSizes
  imports KernelSubmit PayloadTrees "HOL-Library.Multiset"
begin

text \<open>
  The accounting of a request in 64-bit words: what \<open>judge\<close> accepts is exactly what fits the ceiling
  as natural numbers, and what the measurement depends on.
\<close>

definition attachment_bytes :: "attachments \<Rightarrow> nat" where
  "attachment_bytes as = sum_list (map (length \<circ> snd) as)"

text \<open>Lengths of Go slices and strings fit a word.\<close>

definition addressable :: "string \<Rightarrow> request \<Rightarrow> bool" where
  "addressable env rq \<longleftrightarrow>
     length env < 2 ^ 64 \<and> length (rq_payload rq) < 2 ^ 64
     \<and> (\<forall>(n, c)\<in>set (rq_attachments rq). length c < 2 ^ 64)"

lemma unat_below: "unat (x :: 64 word) < 18446744073709551616"
  using unsigned_less [of x] by simp

lemma unat_length: "length s < 2 ^ 64 \<Longrightarrow> unat (of_nat (length s) :: 64 word) = length s"
  by (simp add: unat_of_nat)

lemma unat_all_ones: "unat (- 1 :: 64 word) = 2 ^ 64 - 1"
  by (simp add: unsigned_minus_1_eq_mask mask_eq_exp_minus_1)

lemma unat_minus_one: "unat (- 1 - x :: 64 word) = 2 ^ 64 - 1 - unat x"
  by (subst unat_sub) (simp_all add: unat_all_ones)

lemma add_size_nat:
  "add_size a b = (s, wrapped) \<Longrightarrow>
     unat s = min (unat a + unat b) (2 ^ 64 - 1) \<and> (wrapped \<longleftrightarrow> 2 ^ 64 \<le> unat a + unat b)"
proof -
  assume add: "add_size a b = (s, wrapped)"
  have more: "b > - 1 - a \<longleftrightarrow> 2 ^ 64 \<le> unat a + unat b"
    using unat_below [of a] unat_below [of b] unfolding word_less_nat_alt unat_minus_one by auto
  show ?thesis
  proof (cases "2 ^ 64 \<le> unat a + unat b")
    case True
    then show ?thesis
      using add more unat_all_ones by (auto simp: add_size_def)
  next
    case False
    then have "unat (a + b) = unat a + unat b"
      by (subst unat_add_lem [symmetric]) simp
    then show ?thesis
      using add more False by (simp add: add_size_def)
  qed
qed

text \<open>The running total: exact until it no longer fits, and marked from then on.\<close>

definition counted_size :: "nat \<Rightarrow> request_size \<Rightarrow> bool" where
  "counted_size n s \<longleftrightarrow>
     unat (rs_attachments s) = min n (2 ^ 64 - 1) \<and> (rs_saturated s \<longleftrightarrow> 2 ^ 64 \<le> n)"

lemma measure_attachment_fields:
  assumes "counted_size n s" "length (snd nc) < 2 ^ 64"
  shows "counted_size (n + length (snd nc)) (measure_attachment nc s)"
    "rs_envelope (measure_attachment nc s) = rs_envelope s"
    "rs_payload (measure_attachment nc s) = rs_payload s"
    "rs_count (measure_attachment nc s) = rs_count s"
proof -
  obtain name content where nc: "nc = (name, content)"
    by (cases nc)
  obtain total wrapped where add: "add_size (rs_attachments s) (of_nat (length content)) = (total, wrapped)"
    by (cases "add_size (rs_attachments s) (of_nat (length content) :: 64 word)")
  note exact = add_size_nat [OF add]
  have "counted_size (n + length content) (s\<lparr>rs_attachments := total, rs_saturated := rs_saturated s \<or> wrapped\<rparr>)"
    using exact assms unat_length [of content] by (auto simp: counted_size_def nc)
  then show "counted_size (n + length (snd nc)) (measure_attachment nc s)"
    by (simp add: measure_attachment_def nc add counted_size_def Let_def)
  show "rs_envelope (measure_attachment nc s) = rs_envelope s" "rs_payload (measure_attachment nc s) = rs_payload s"
    "rs_count (measure_attachment nc s) = rs_count s"
    by (simp_all add: measure_attachment_def nc add Let_def)
qed

lemma measure_fields:
  assumes "addressable env rq"
  shows "counted_size (attachment_bytes (rq_attachments rq)) (measure_request env rq)"
    "unat (rs_envelope (measure_request env rq)) = length env"
    "unat (rs_payload (measure_request env rq)) = length (rq_payload rq)"
proof -
  have loop: "counted_size n s \<Longrightarrow> \<forall>nc\<in>set as. length (snd nc) < 2 ^ 64 \<Longrightarrow>
      counted_size (n + attachment_bytes as) (fold measure_attachment as s)
      \<and> rs_envelope (fold measure_attachment as s) = rs_envelope s
      \<and> rs_payload (fold measure_attachment as s) = rs_payload s" for "as" n s
  proof (induction "as" arbitrary: n s)
    case (Cons nc more)
    then show ?case
      using measure_attachment_fields [of n s nc] Cons.IH [of "n + length (snd nc)" "measure_attachment nc s"]
      by (simp add: attachment_bytes_def add.assoc)
  qed (simp add: attachment_bytes_def)
  have bytes: "\<forall>nc\<in>set (rq_attachments rq). length (snd nc) < 2 ^ 64"
    using assms by (auto simp: addressable_def)
  let ?s = "\<lparr>rs_envelope = of_nat (length env), rs_payload = of_nat (length (rq_payload rq)),
        rs_attachments = 0, rs_count = length (rq_attachments rq), rs_largest_name = [],
        rs_largest_size = 0, rs_saturated = False\<rparr>"
  have "counted_size 0 ?s"
    by (simp add: counted_size_def)
  note counted = loop [OF this bytes]
  show "counted_size (attachment_bytes (rq_attachments rq)) (measure_request env rq)"
    "unat (rs_envelope (measure_request env rq)) = length env"
    "unat (rs_payload (measure_request env rq)) = length (rq_payload rq)"
    using counted assms by (simp_all add: measure_request_def addressable_def unat_length)
qed

lemma judge_exact:
  assumes "addressable env rq"
  shows "judge_size (measure_request env rq) ceiling = Inr () \<longleftrightarrow>
    length env + length (rq_payload rq) + attachment_bytes (rq_attachments rq) \<le> unat ceiling"
proof -
  let ?s = "measure_request env rq"
  note fields = measure_fields [OF assms]
  have "judge_size ?s ceiling = Inr () \<longleftrightarrow>
      \<not> rs_saturated ?s \<and> rs_envelope ?s \<le> ceiling \<and> rs_payload ?s \<le> ceiling - rs_envelope ?s
      \<and> rs_attachments ?s \<le> ceiling - rs_envelope ?s - rs_payload ?s"
    by (auto simp: judge_size_def not_less)
  also have "\<dots> \<longleftrightarrow> length env + length (rq_payload rq) + attachment_bytes (rq_attachments rq) \<le> unat ceiling"
  proof (cases "rs_envelope ?s \<le> ceiling \<and> rs_payload ?s \<le> ceiling - rs_envelope ?s")
    case True
    then have sub: "unat (ceiling - rs_envelope ?s) = unat ceiling - length env"
      "unat (ceiling - rs_envelope ?s - rs_payload ?s) = unat ceiling - length env - length (rq_payload rq)"
      using fields(2,3) by (simp_all add: unat_sub)
    have "length env \<le> unat ceiling" "length (rq_payload rq) \<le> unat ceiling - length env"
      using True fields(2,3) sub(1) by (simp_all add: word_le_nat_alt)
    then show ?thesis
      using True fields(1) sub unat_below [of ceiling]
      by (auto simp: counted_size_def word_le_nat_alt [of "rs_attachments ?s"] le_diff_conv2 add.assoc)
  next
    case False
    show ?thesis
    proof (cases "rs_envelope ?s \<le> ceiling")
      case True
      then have "unat (ceiling - rs_envelope ?s) = unat ceiling - length env"
        using fields(2) by (simp add: unat_sub)
      then show ?thesis
        using False True fields(2,3) by (simp add: word_le_nat_alt)
    next
      case False
      then show ?thesis
        using fields(2) by (simp add: word_le_nat_alt)
    qed
  qed
  finally show ?thesis .
qed

section \<open>What the measurement depends on\<close>

text \<open>Go ranges over the attachments in any order; the measure is the same when every name is non-empty.\<close>

definition ahead :: "string \<times> 64 word \<Rightarrow> string \<times> 64 word \<Rightarrow> bool" where
  "ahead a b \<longleftrightarrow> snd a > snd b \<or> (snd a = snd b \<and> str_less (fst a) (fst b))"

lemma ahead_asym: "ahead a b \<Longrightarrow> \<not> ahead b a"
  by (auto simp: ahead_def str_less_asym)

lemma ahead_trans: "ahead a b \<Longrightarrow> ahead b c \<Longrightarrow> ahead a c"
  by (auto simp: ahead_def intro: str_less_trans)

lemma ahead_linear: "a \<noteq> b \<Longrightarrow> ahead a b \<or> ahead b a"
  using str_less_linear [of "fst a" "fst b"] by (auto simp: ahead_def prod_eq_iff)

definition larger_attachment :: "string \<times> 64 word \<Rightarrow> string \<times> 64 word \<Rightarrow> string \<times> 64 word" where
  "larger_attachment a best = (if fst best = [] \<or> ahead a best then a else best)"

definition sized :: "string \<times> bytes \<Rightarrow> string \<times> 64 word" where
  "sized nc = (fst nc, of_nat (length (snd nc)))"

lemma measure_attachment_parts:
  "measure_attachment nc s =
     (let sum = add_size (rs_attachments s) (of_nat (length (snd nc)));
          best = larger_attachment (sized nc) (rs_largest_name s, rs_largest_size s)
      in s\<lparr>rs_attachments := fst sum, rs_saturated := rs_saturated s \<or> snd sum,
           rs_largest_name := fst best, rs_largest_size := snd best\<rparr>)"
  by (cases nc) (simp add: measure_attachment_def larger_attachment_def ahead_def sized_def Let_def case_prod_unfold)

lemma larger_attachment_commute:
  assumes "fst a \<noteq> []" "fst b \<noteq> []"
  shows "larger_attachment a (larger_attachment b best) = larger_attachment b (larger_attachment a best)"
proof (cases "a = b \<or> fst best = []")
  case True
  then show ?thesis
    using assms ahead_asym [of a b] ahead_linear [of a b] by (auto simp: larger_attachment_def)
next
  case False
  then consider "ahead a b" "\<not> ahead b a" | "ahead b a" "\<not> ahead a b"
    using ahead_asym ahead_linear by blast
  then show ?thesis
    using False assms ahead_trans [of a b best] ahead_trans [of b a best]
    by cases (simp_all add: larger_attachment_def)
qed

lemma add_size_commute:
  "fst (add_size (fst (add_size t a)) b) = fst (add_size (fst (add_size t b)) a)"
  "snd (add_size t a) \<or> snd (add_size (fst (add_size t a)) b)
     \<longleftrightarrow> snd (add_size t b) \<or> snd (add_size (fst (add_size t b)) a)"
proof -
  have exact: "unat (fst (add_size u v)) = min (unat u + unat v) (2 ^ 64 - 1)"
    "snd (add_size u v) \<longleftrightarrow> 2 ^ 64 \<le> unat u + unat v" for u v
    using add_size_nat [of u v] by (cases "add_size u v"; simp)+
  have "unat (fst (add_size (fst (add_size t a)) b)) = unat (fst (add_size (fst (add_size t b)) a))"
    unfolding exact by simp
  then show "fst (add_size (fst (add_size t a)) b) = fst (add_size (fst (add_size t b)) a)"
    by (simp only: unsigned_word_eqI)
  show "snd (add_size t a) \<or> snd (add_size (fst (add_size t a)) b)
     \<longleftrightarrow> snd (add_size t b) \<or> snd (add_size (fst (add_size t b)) a)"
    unfolding exact by auto
qed

lemma measure_attachment_commute:
  assumes "fst x \<noteq> []" "fst y \<noteq> []"
  shows "measure_attachment x (measure_attachment y s) = measure_attachment y (measure_attachment x s)"
proof -
  let ?a = "of_nat (length (snd x)) :: 64 word" and ?b = "of_nat (length (snd y)) :: 64 word"
  let ?best = "(rs_largest_name s, rs_largest_size s)"
  have "larger_attachment (sized x) (larger_attachment (sized y) ?best)
      = larger_attachment (sized y) (larger_attachment (sized x) ?best)"
    using assms by (intro larger_attachment_commute) (simp_all add: sized_def)
  then show ?thesis
    using add_size_commute [of "rs_attachments s" ?b ?a]
    by (simp add: measure_attachment_parts Let_def disj_assoc)
qed

lemma measure_order_free:
  assumes "mset (rq_attachments rq) = mset files" "[] \<notin> fst ` set files"
  shows "measure_request env (rq\<lparr>rq_attachments := files\<rparr>) = measure_request env rq"
proof -
  have same: "set (rq_attachments rq) = set files" "length (rq_attachments rq) = length files"
    using assms(1) mset_eq_setD mset_eq_length by blast+
  have "fold measure_attachment files = fold measure_attachment (rq_attachments rq)"
  proof (rule fold_multiset_equiv [OF _ assms(1) [symmetric]])
    fix x y
    assume x: "x \<in> set files" and y: "y \<in> set files"
    have "fst x \<noteq> []" "fst y \<noteq> []"
      using assms(2) x y by (metis image_eqI)+
    then show "measure_attachment x \<circ> measure_attachment y = measure_attachment y \<circ> measure_attachment x"
      using measure_attachment_commute [of x y] by (intro ext) simp
  qed
  then show ?thesis
    by (simp add: measure_request_def same)
qed

end
