(* ===== verification/KernelAccept.thy ===== *)
theory KernelAccept
  imports KernelChain KernelSizes
begin

text \<open>
  What the sequencer accepts, every auditor accepts: under the documented behaviour of the Git
  commands, a submission that returns a new commit leaves a log whose scan is the earlier log with
  exactly that event at its end.
\<close>

section \<open>Objects are only added\<close>

lemma read_object_kept:
  assumes "keeps_objects G w w'" "read_object L G w format oid kind n = Inr content"
  shows "read_object L G w' format oid kind n = Inr content"
proof -
  obtain answer where "gt_cat G oid w = Some answer" "gt_cat G oid w' = Some answer"
    using assms by (auto simp: read_object_def keeps_objects_def split: option.splits if_splits)
  then show ?thesis
    using assms(2) by (auto simp: read_object_def split: option.splits if_splits)
qed

lemma read_commit_kept:
  assumes "keeps_objects G w w'" "read_commit L G w format oid = Inr c"
  shows "read_commit L G w' format oid = Inr c"
  using assms(2) by (auto simp: read_commit_def and_then_Inr dest!: read_object_kept [OF assms(1)])

lemma read_tree_kept:
  assumes "keeps_objects G w w'" "read_tree L G w format oid = Inr es"
  shows "read_tree L G w' format oid = Inr es"
  using assms(2) by (auto simp: read_tree_def and_then_Inr dest!: read_object_kept [OF assms(1)])

lemma tree_is_empty_kept:
  assumes "keeps_objects G w w'" "tree_is_empty L G w format oid = Inr b"
  shows "tree_is_empty L G w' format oid = Inr b"
  using assms(2) by (auto simp: tree_is_empty_def and_then_Inr dest!: read_object_kept [OF assms(1)])

lemma read_payload_blob_Inr:
  "read_payload_blob L G w format oid n = Inr content \<longleftrightarrow> read_object L G w format oid ''blob'' n = Inr content"
  by (auto simp: read_payload_blob_def split: sum.splits git_error.splits)

lemma read_attachments_kept:
  assumes "keeps_objects G w w'"
  shows "read_attachments L G w format ceiling used es got = Inr files
    \<Longrightarrow> read_attachments L G w' format ceiling used es got = Inr files"
proof (induction es arbitrary: used got)
  case (Cons e es)
  obtain content where "is_blob_mode (te_mode e)" "attachment_name (te_name e)"
    and blob: "read_object L G w format (te_oid e) ''blob'' (ceiling - used) = Inr content"
    and rest: "read_attachments L G w format ceiling (used + length content) es (put (te_name e) content got) = Inr files"
    using Cons.prems by (auto simp: and_then_Inr read_payload_blob_Inr split: if_splits)
  then show ?case
    using read_object_kept [OF assms blob] Cons.IH [OF rest] by (simp add: read_payload_blob_Inr [THEN iffD2])
qed simp

text \<open>The nested tree is read only when there is one.\<close>

definition read_nested ::
  "('l) kernel_lib_scheme \<Rightarrow> 'w git \<Rightarrow> 'w \<Rightarrow> string \<Rightarrow> nat \<Rightarrow> nat \<Rightarrow> string \<Rightarrow> git_error + attachments" where
  "read_nested L G w format ceiling used oid =
     (if oid = [] then Inr [] else and_then (read_tree L G w format oid) (\<lambda>entries.
        read_attachments L G w format ceiling used entries []))"

lemma read_nested_kept:
  assumes "keeps_objects G w w'" "read_nested L G w format ceiling used oid = Inr files"
  shows "read_nested L G w' format ceiling used oid = Inr files"
  using assms(2) by (auto simp: read_nested_def and_then_Inr
      dest!: read_tree_kept [OF assms(1)] read_attachments_kept [OF assms(1)] split: if_splits)

lemma payload_tree_parts:
  "payload_tree L G w format tree ceiling load = Inr p \<longleftrightarrow>
     (\<exists>root event_oid oid event files. read_tree L G w format tree = Inr root
        \<and> payload_root [] [] root = Inr (event_oid, oid) \<and> event_oid \<noteq> []
        \<and> read_object L G w format event_oid ''blob'' ceiling = Inr event
        \<and> read_nested L G w format ceiling (length event) oid = Inr files
        \<and> p = (if load then (event, files) else ([], [])))"
  unfolding payload_tree_def and_then_Inr read_nested_def [symmetric]
  by (fastforce simp: and_then_Inr read_payload_blob_Inr split: if_splits)

lemma payload_tree_kept:
  assumes kept: "keeps_objects G w w'" and read: "payload_tree L G w format tree ceiling load = Inr p"
  shows "payload_tree L G w' format tree ceiling load = Inr p"
  using read unfolding payload_tree_parts
  by (elim exE conjE) (intro exI conjI, erule read_tree_kept [OF kept], assumption+,
      erule read_object_kept [OF kept], erule read_nested_kept [OF kept])

lemma load_commit_kept:
  assumes kept: "keeps_objects G w w'" and loads: "load_commit L G w format d genesis c load = Inr l"
  shows "load_commit L G w' format d genesis c load = Inr l"
proof (cases "parse_rotation_message L (normalize_event_message (cx_message c))")
  case (Inr rotation)
  show ?thesis
  proof (cases rotation)
    case (Some k)
    then show ?thesis
      using loads Inr by (auto simp: load_commit_def and_then_Inr Let_def
          dest!: tree_is_empty_kept [OF kept] split: if_splits)
  next
    case None
    then show ?thesis
      using loads Inr by (auto simp: load_commit_def and_then_Inr Let_def
          dest!: payload_tree_kept [OF kept] split: if_splits)
  qed
qed (use loads in \<open>auto simp: load_commit_def Let_def split: if_splits\<close>)

lemma sealed_commit_kept: "keeps_objects G w w' \<Longrightarrow> sealed_commit L G w format key ps oid c
    \<Longrightarrow> sealed_commit L G w' format key ps oid c"
  by (simp add: sealed_commit_def read_commit_kept)

lemma audits_kept:
  assumes "audits L G w format d genesis load key prior oids es key'" "keeps_objects G w w'"
  shows "audits L G w' format d genesis load key prior oids es key'"
  using assms
proof (induction rule: audits.induct)
  case audits_event
  then show ?case
    using sealed_commit_kept load_commit_kept by (metis audits.audits_event)
next
  case audits_rotation
  then show ?case
    using sealed_commit_kept load_commit_kept by (metis audits.audits_rotation)
qed (rule audits_end)

lemma audits_append:
  assumes "audits L G w format d genesis load key prior oids es key'"
    and "sealed_commit L G w format key' [last (prior # oids)] oid c"
    and "load_commit L G w format d genesis c load = Inr (LoadedEvent e)"
  shows "audits L G w format d genesis load key prior (oids @ [oid]) (es @ [e]) key'"
  using assms
proof (induction rule: audits.induct)
  case audits_end
  then show ?case
    using audits.audits_event [OF _ _ audits.audits_end] by fastforce
next
  case audits_event
  then show ?case
    using audits.audits_event by (metis append_Cons last_ConsR list.discI)
next
  case audits_rotation
  then show ?case
    using audits.audits_rotation by (metis append_Cons last_ConsR list.discI)
qed

section \<open>The Git program\<close>

text \<open>
  The documented behaviour the sequencer rests on: \<open>commit-tree\<close> writes a commit with the given tree,
  parent and message, \<open>verify-commit\<close> accepts what the in-process verifier accepts, objects have the
  names of the repository's format, what \<open>rev-list\<close> and \<open>show\<close> print of an object is determined by it,
  and a ref that was updated names the new commit.
\<close>

definition commits_written :: "('l) kernel_lib_scheme \<Rightarrow> 'w git \<Rightarrow> string \<Rightarrow> bool" where
  "commits_written L G format \<longleftrightarrow>
     (\<forall>cr w oid ts w'. cr_message cr \<noteq> [] \<and> last (cr_message cr) = newline
          \<and> gt_commit G cr w = (Some (oid, ts), w')
        \<longrightarrow> (\<exists>c. read_commit L G w' format oid = Inr c \<and> cx_tree c = cr_tree cr
              \<and> cx_parents c = (if cr_parent cr = [] then [] else [cr_parent cr]) \<and> cx_timestamp c = ts \<and> cx_message c = cr_message cr))"

definition verification_agrees :: "('l) kernel_lib_scheme \<Rightarrow> 'w git \<Rightarrow> string \<Rightarrow> bool" where
  "verification_agrees L G format \<longleftrightarrow>
     (\<forall>oid key w c. verify_ssh_commit G oid ''sequencer'' key w = Inr () \<and> read_commit L G w format oid = Inr c
        \<longrightarrow> verify_ssh_signature L c key = Inr ())"

definition prints_objects :: "('l) kernel_lib_scheme \<Rightarrow> 'w git \<Rightarrow> string \<Rightarrow> bool" where
  "prints_objects L G format \<longleftrightarrow>
     (\<forall>w. shows_messages L G w)
     \<and> (\<forall>w w' oid m. keeps_objects G w w' \<and> gt_show G oid w = Some m \<longrightarrow> gt_show G oid w' = Some m)
     \<and> (\<forall>w w' h l. keeps_objects G w w' \<and> gt_rev_list G h w = Some l \<longrightarrow> gt_rev_list G h w' = Some l)
     \<and> (\<forall>w oid c. read_commit L G w format oid = Inr c \<and> cx_parents c = [] \<longrightarrow> gt_rev_list G oid w = Some [oid])
     \<and> (\<forall>w oid c p l. read_commit L G w format oid = Inr c \<and> cx_parents c = [p] \<and> gt_rev_list G p w = Some l
          \<longrightarrow> gt_rev_list G oid w = Some (l @ [oid]))"

definition one_format :: "'w git \<Rightarrow> string \<Rightarrow> bool" where
  "one_format G format \<longleftrightarrow>
     (\<forall>w. gt_format G w = Some format) \<and> (\<forall>w. gt_batch_ends G w)
     \<and> (\<exists>n. object_bytes_of format = Some n \<and> (\<forall>w oid a. gt_cat G oid w = Some a \<longrightarrow> length oid = 2 * n))"

definition refs_updated :: "'w git \<Rightarrow> bool" where
  "refs_updated G \<longleftrightarrow>
     (\<forall>ref new old w w'. gt_update_ref G ref new old w = (True, w') \<longrightarrow> fst (gt_head G ref w') = Some new)"

definition git_laws :: "('l) kernel_lib_scheme \<Rightarrow> 'w git \<Rightarrow> string \<Rightarrow> bool" where
  "git_laws L G format \<longleftrightarrow>
     hash_sizes L \<and> objects_kept G \<and> blobs_written L G format \<and> trees_written L G format
     \<and> commits_written L G format \<and> verification_agrees L G format \<and> prints_objects L G format
     \<and> one_format G format \<and> refs_updated G"

section \<open>A log extended by one event\<close>

definition extended :: "('l) kernel_lib_scheme \<Rightarrow> event \<Rightarrow> scanned_log \<Rightarrow> scanned_log" where
  "extended L e log =
     (enter_event (retry_key L e) e (sl_events log @ [e]) log)
       \<lparr>sl_head := ev_commit e, sl_depth := sl_depth log + 1\<rparr>"

lemma retry_index_append:
  assumes "retry_index L es (retry_key L e) = None"
  shows "retry_index L (es @ [e]) = (retry_index L es)(retry_key L e \<mapsto> event_without_payload e)"
  using assms by (auto simp: retry_index_def fun_eq_iff map_add_def split: option.splits)

lemma retry_index_None: "retry_index L es k = None \<longleftrightarrow> k \<notin> set (map (retry_key L) es)"
  by (auto simp: retry_index_def map_of_eq_None_iff image_iff)

lemma extended_log_of:
  assumes "retry_index L es (retry_key L e) = None"
  shows "log_of L genesis (ev_commit e) (Suc n) (es @ [e]) key = extended L e (log_of L genesis head n es key)"
  using retry_index_append [OF assms] by (simp add: log_of_def extended_def enter_event_def insert_commute)

text \<open>The same chain in a later world.\<close>

lemma scan_head_kept:
  assumes laws: "git_laws L G format" and kept: "keeps_objects G w w'"
    and scanned: "scan_head L G w genesis head load = Inr log"
  shows "scan_head L G w' genesis head load = Inr log"
proof -
  obtain rest d es key where "gt_rev_list G head w = Some (genesis # rest)" "last (genesis # rest) = head"
    and genesis: "sound_genesis L G w genesis d"
    and chain: "audits L G w (gd_object_format d) d genesis load (gd_sequencer_key d) genesis rest es key"
    and "distinct (map (retry_key L) es)" "log = log_of L genesis head (length rest) es key"
    using scanned by (auto simp: scan_decides audited_log_def)
  moreover have "sound_genesis L G w' genesis d"
    using genesis sealed_commit_kept [OF kept] unfolding sound_genesis_def by metis
  moreover have "gt_rev_list G head w' = Some (genesis # rest)" "gt_batch_ends G w'"
    using laws kept calculation(1) unfolding git_laws_def prints_objects_def one_format_def by blast+
  ultimately show ?thesis
    unfolding scan_decides audited_log_def using audits_kept [OF chain kept] by blast
qed

lemma scanned_chain:
  assumes laws: "git_laws L G format" and scanned: "scan_head L G w genesis head load = Inr log"
    and d: "descriptor L G w genesis = Inr d"
  obtains rest es key where "gt_rev_list G head w = Some (genesis # rest)" "last (genesis # rest) = head"
    "sound_genesis L G w genesis d"
    "audits L G w (gd_object_format d) d genesis load (gd_sequencer_key d) genesis rest es key"
    "distinct (map (retry_key L) es)" "log = log_of L genesis head (length rest) es key"
proof -
  obtain rest d' es key where revs: "gt_rev_list G head w = Some (genesis # rest)" "last (genesis # rest) = head"
    and genesis: "sound_genesis L G w genesis d'"
    and chain: "audits L G w (gd_object_format d') d' genesis load (gd_sequencer_key d') genesis rest es key"
    and log: "distinct (map (retry_key L) es)" "log = log_of L genesis head (length rest) es key"
    using scanned by (auto simp: scan_decides audited_log_def)
  obtain c0 where "read_commit L G w (gd_object_format d') genesis = Inr c0"
    "parse_genesis_message L (normalize_genesis_message (cx_message c0)) = Inr d'"
    using genesis by (auto simp: sound_genesis_def sealed_commit_def)
  then have "descriptor L G w genesis = Inr d'"
    using laws by (auto simp: git_laws_def prints_objects_def shows_messages_def descriptor_def)
  then show thesis
    using that revs genesis chain log d by simp
qed

lemma listed_next:
  assumes "git_laws L G format" "read_commit L G w format oid = Inr c" "cx_parents c = [head]"
    "gt_rev_list G head w = Some (genesis # rest)"
  shows "gt_rev_list G oid w = Some (genesis # (rest @ [oid]))"
proof -
  have "prints_objects L G format"
    using assms(1) by (simp add: git_laws_def)
  then have "gt_rev_list G oid w = Some ((genesis # rest) @ [oid])"
    using assms(2-) unfolding prints_objects_def by blast
  then show ?thesis by simp
qed

lemma scan_head_extended:
  assumes laws: "git_laws L G format"
    and scanned: "scan_head L G w genesis head load = Inr log"
    and d: "descriptor L G w genesis = Inr d" and format: "gd_object_format d = format"
    and c: "read_commit L G w format oid = Inr c" "cx_parents c = [head]"
      "verify_ssh_signature L c (sl_sequencer_key log) = Inr ()"
    and e: "load_commit L G w format d genesis c load = Inr (LoadedEvent e)" "sl_dedup log (retry_key L e) = None"
  shows "scan_head L G w genesis oid load = Inr (extended L e log)"
proof -
  obtain rest es key where revs: "gt_rev_list G head w = Some (genesis # rest)" "last (genesis # rest) = head"
    and genesis: "sound_genesis L G w genesis d"
    and chain: "audits L G w (gd_object_format d) d genesis load (gd_sequencer_key d) genesis rest es key"
    and distinct: "distinct (map (retry_key L) es)" and log: "log = log_of L genesis head (length rest) es key"
    by (rule scanned_chain [OF laws scanned d])
  have fresh: "retry_index L es (retry_key L e) = None"
    using e(2) by (simp add: log log_of_def)
  have "sealed_commit L G w (gd_object_format d) key [last (genesis # rest)] oid c"
    using c revs(2) by (simp add: sealed_commit_def format log log_of_def)
  then have "audits L G w (gd_object_format d) d genesis load (gd_sequencer_key d) genesis (rest @ [oid]) (es @ [e]) key"
    using audits_append [OF chain] e(1) by (simp add: format)
  moreover have "gt_batch_ends G w"
    using laws by (simp add: git_laws_def one_format_def)
  moreover have "distinct (map (retry_key L) (es @ [e]))"
    using distinct fresh by (simp add: retry_index_None)
  moreover have "extended L e log = log_of L genesis oid (length (rest @ [oid])) (es @ [e]) key"
    using extended_log_of [OF fresh] load_commit_event(2) [OF e(1)] read_commit_named(2) [OF c(1)] by (simp add: log)
  ultimately show ?thesis
    unfolding scan_decides audited_log_def using genesis listed_next [OF laws c(1,2) revs(1)]
    by (intro exI [of _ "rest @ [oid]"] exI [of _ d] exI [of _ "es @ [e]"] exI [of _ key] conjI) simp_all
qed

end
