(* ===== verification/KernelCache.thy ===== *)
theory KernelCache
  imports KernelAccept
begin

text \<open>
  The cache of one verified log: whatever sequence of advances and appends it went through, what it
  holds is what a cold scan of its head gives, except for the events themselves.
\<close>

section \<open>The format of a scanned log\<close>

lemma scanned_descriptor:
  assumes laws: "git_laws L G format" and scanned: "scan_head L G w genesis head load = Inr log"
  obtains d where "descriptor L G w genesis = Inr d" "gd_object_format d = format"
    "sl_genesis log = genesis" "sl_head log = head"
proof -
  obtain d n es key where genesis: "sound_genesis L G w genesis d" and log: "log = log_of L genesis head n es key"
    using scanned unfolding scan_decides audited_log_def by blast
  obtain c where c: "read_commit L G w (gd_object_format d) genesis = Inr c"
    "parse_genesis_message L (normalize_genesis_message (cx_message c)) = Inr d"
    and width: "format_of_genesis genesis = Some (gd_object_format d)"
    using genesis by (auto simp: sound_genesis_def sealed_commit_def)
  have d: "descriptor L G w genesis = Inr d"
    using laws c by (auto simp: git_laws_def prints_objects_def shows_messages_def descriptor_def)
  obtain a where "gt_cat G genesis w = Some a"
    using c(1) by (auto simp: read_commit_def read_object_def and_then_Inr split: option.splits if_splits)
  moreover have "one_format G format"
    using laws by (simp add: git_laws_def)
  ultimately obtain n where "object_bytes_of format = Some n" "length genesis = 2 * n"
    unfolding one_format_def by blast
  then have "gd_object_format d = format"
    using width by (auto simp: format_of_genesis_def object_bytes_of_def split: if_splits)
  then show thesis
    using that d log by (simp add: log_of_def)
qed

section \<open>A walk that ended lists the chain\<close>

lemma walk_lists:
  assumes prints: "prints_objects L G (gd_object_format d)"
    and "delta_walk L G w load True None oids ds = Inr (ds' :: unit delta_scan)"
    and "delta_descriptor L G w ds = Inr d" "gt_rev_list G (ds_expected_parent ds) w = Some commits"
  shows "gt_rev_list G (ds_expected_parent ds') w = Some (commits @ oids)"
  using assms(2-)
proof (induction oids arbitrary: ds commits)
  case (Cons oid oids)
  obtain ds1 where one: "delta_accept L G w load True None oid ds = Inr ds1"
    and rest: "delta_walk L G w load True None oids ds1 = Inr ds'"
    using Cons.prems(1) by (auto simp: and_then_Inr)
  note steps = delta_accept_steps [OF one Cons.prems(2)]
  obtain c where c: "read_commit L G w (gd_object_format d) oid = Inr c" "cx_parents c = [ds_expected_parent ds]"
    using one Cons.prems(2)
    by (auto simp: delta_accept_def and_then_Inr validate_chain_parents_def require_def split: sum.splits if_splits)
  have "gt_rev_list G oid w = Some (commits @ [oid])"
    using prints c Cons.prems(3) unfolding prints_objects_def by blast
  then show ?case
    using Cons.IH [OF rest steps(3)] by (simp add: steps(1))
qed simp

lemma scan_after_full:
  assumes laws: "git_laws L G format" and base: "scan_head L G w genesis h0 load = Inr log0"
    and delta: "scan_after L G w (log0\<lparr>sl_events := []\<rparr>) head load = Inr log"
  shows "scan_head L G w genesis head load = Inr (after_events (sl_events log0) log)"
proof -
  obtain d where d: "descriptor L G w genesis = Inr d" "gd_object_format d = format"
    and frame: "sl_genesis log0 = genesis" "sl_head log0 = h0"
    using scanned_descriptor [OF laws base] .
  let ?ds = "new_delta_scan (log0\<lparr>sl_events := []\<rparr>) ()"
  obtain oids ds where tail: "gt_log_after G h0 head w = (oids, True)"
    and walk: "delta_walk L G w load True None oids ?ds = Inr ds" and finish: "delta_finish head ds = Inr log"
    using delta by (auto simp: scan_after_def and_then_Inr frame split: if_splits prod.splits)
  have desc: "delta_descriptor L G w ?ds = Inr d"
    by (simp add: delta_descriptor_def new_delta_scan_def frame d)
  obtain commits where chain0: "gt_rev_list G h0 w = Some commits"
    using base by (auto simp: scan_decides audited_log_def)
  have prints: "prints_objects L G (gd_object_format d)"
    using laws d(2) by (simp add: git_laws_def)
  have "gt_rev_list G (ds_expected_parent ds) w = Some (commits @ oids)"
    using walk_lists [OF prints walk desc] chain0 by (simp add: new_delta_scan_def frame)
  moreover have "ds_expected_parent ds = head"
  proof (cases oids)
    case Nil
    then have "ds = ?ds"
      using walk by simp
    then show ?thesis
      using finish by (simp add: delta_finish_def new_delta_scan_def split: if_splits)
  next
    case Cons
    then show ?thesis
      using finish delta_walk_end(1) [OF walk desc]
      by (simp add: delta_finish_def new_delta_scan_def Let_def split: if_splits)
  qed
  ultimately have chain: "gt_rev_list G head w = Some (commits @ oids)"
    by simp
  have "shows_messages L G w"
    using laws by (simp add: git_laws_def prints_objects_def)
  from scan_after_suffix [OF base chain0 chain tail this] show ?thesis
    by (simp add: delta)
qed

section \<open>Payloads and sinks\<close>

text \<open>
  A scan reads and hashes every payload whether it returns it or not, and a sink takes the events
  in place of the list: neither changes what the log is otherwise.
\<close>

definition bare_log :: "scanned_log \<Rightarrow> scanned_log" where
  "bare_log log = log\<lparr>sl_events := map event_without_payload (sl_events log)\<rparr>"

definition bare_delta :: "'s delta_scan \<Rightarrow> 's delta_scan" where
  "bare_delta ds = ds\<lparr>ds_events := map event_without_payload (ds_events ds)\<rparr>"

fun bare_loaded :: "loaded \<Rightarrow> loaded" where
  "bare_loaded (LoadedEvent e) = LoadedEvent (event_without_payload e)"
| "bare_loaded (LoadedRotation k) = LoadedRotation k"

lemma bare_event [simp]:
  "event_without_payload (event_without_payload e) = event_without_payload e"
  "ev_signed (event_without_payload e) = ev_signed e" "ev_commit (event_without_payload e) = ev_commit e"
  "retry_key L (event_without_payload e) = retry_key L e"
  by (simp_all add: event_without_payload_def retry_key_def)

lemma payload_tree_bare:
  "payload_tree L G w format tree ceiling False = map_sum id (\<lambda>_. ([], [])) (payload_tree L G w format tree ceiling load)"
  by (cases load) (simp_all add: payload_tree_def map_and_then split_def if_distrib [of "map_sum id _"] cong: if_cong)

lemma payload_tree_read:
  "payload_tree L G w format tree ceiling load = Inr p \<Longrightarrow> payload_tree L G w format tree ceiling False = Inr ([], [])"
  using payload_tree_bare [of L G w format tree ceiling load] by simp

lemma load_commit_bare:
  assumes loads: "load_commit L G w format d genesis c load = Inr l"
  shows "load_commit L G w format d genesis c False = Inr (bare_loaded l)"
proof (cases "parse_rotation_message L (normalize_event_message (cx_message c))")
  case (Inr rotation)
  show ?thesis
  proof (cases rotation)
    case (Some k)
    have "load_commit L G w format d genesis c b = load_commit L G w format d genesis c False" for b
      by (simp add: load_commit_def Inr Some Let_def split: if_split)
    moreover have "\<exists>k. l = LoadedRotation k"
      using loads by (simp add: load_commit_def Inr Some and_then_Inr Let_def split: if_splits) blast
    ultimately show ?thesis
      using loads by (metis bare_loaded.simps(2))
  next
    case None
    let ?m = "normalize_event_message (cx_message c)"
    let ?room = "unat (gd_payload_ceiling d) - length ?m"
    obtain s trailers i f payload files where fits: "length ?m \<le> unat (gd_payload_ceiling d)"
      and parsed: "parse_envelope ?m (unat (gd_payload_ceiling d)) = Inr (s, trailers)"
      and i: "verify_signed_target L s (typed_oid (gd_object_format d) genesis) = Inr (i, True)" "equal_refs (in_rests_on i) trailers"
      and tree: "parse_typed_oid (in_payload_tree i) = Inr (f, cx_tree c)"
      and read: "payload_tree L G w format (cx_tree c) ?room load = Inr (payload, files)"
      and l: "l = LoadedEvent \<lparr>ev_commit = cx_oid c, ev_timestamp = cx_timestamp c, ev_intent = i, ev_signed = s,
                  ev_payload_tree = in_payload_tree i, ev_payload = payload, ev_attachments = files\<rparr>"
      using loads Inr None by (auto simp: load_commit_def and_then_Inr Let_def split: if_splits)
    show ?thesis
      using Inr None fits parsed i tree payload_tree_read [OF read]
      by (simp add: load_commit_def Let_def l event_without_payload_def)
  qed
qed (use loads in \<open>auto simp: load_commit_def Let_def split: if_splits\<close>)

lemma audits_bare:
  assumes "audits L G w format d genesis load key prior oids es key'"
  shows "audits L G w format d genesis False key prior oids (map event_without_payload es) key'"
  using assms
proof (induction rule: audits.induct)
  case (audits_event key prior oid c e oids es key')
  show ?case
    using audits.audits_event [OF audits_event(1) _ audits_event(4)] load_commit_bare [OF audits_event(2)] by simp
next
  case (audits_rotation key prior oid c successor oids es key')
  show ?case
    using audits.audits_rotation [OF audits_rotation(1) _ audits_rotation(3,5)] load_commit_bare [OF audits_rotation(2)] by simp
qed (simp add: audits_end)

lemma log_of_bare: "log_of L genesis head n (map event_without_payload es) key = bare_log (log_of L genesis head n es key)"
  by (simp add: log_of_def bare_log_def retry_index_def comp_def image_image)

lemma scan_head_bare:
  assumes "scan_head L G w genesis head load = Inr log"
  shows "scan_head L G w genesis head False = Inr (bare_log log)"
proof -
  obtain rest d es key where "gt_rev_list G head w = Some (genesis # rest)" "last (genesis # rest) = head"
    "gt_batch_ends G w" "sound_genesis L G w genesis d"
    and chain: "audits L G w (gd_object_format d) d genesis load (gd_sequencer_key d) genesis rest es key"
    and "distinct (map (retry_key L) es)" and log: "log = log_of L genesis head (length rest) es key"
    using assms unfolding scan_decides audited_log_def by blast
  moreover have "distinct (map (retry_key L) (map event_without_payload es))"
    using calculation by (simp add: comp_def)
  ultimately show ?thesis
    using audits_bare [OF chain] unfolding scan_decides audited_log_def log log_of_bare [symmetric] by blast
qed

lemma bare_delta_frame [simp]:
  "ds_base (bare_delta ds) = ds_base ds" "ds_descriptor (bare_delta ds) = ds_descriptor ds"
  "ds_expected_parent (bare_delta ds) = ds_expected_parent ds" "ds_additions (bare_delta ds) = ds_additions ds"
  "ds_positions (bare_delta ds) = ds_positions ds" "ds_count (bare_delta ds) = ds_count ds"
  "ds_events (bare_delta ds) = map event_without_payload (ds_events ds)"
  "bare_delta (ds\<lparr>ds_descriptor := d\<rparr>) = bare_delta ds\<lparr>ds_descriptor := d\<rparr>"
  by (simp_all add: bare_delta_def)

lemma delta_enter_bare:
  assumes "delta_enter L True None oid l ds = Inr ds'"
  shows "delta_enter L True None oid (bare_loaded l) (bare_delta ds) = Inr (bare_delta ds')"
proof (cases l)
  case (LoadedEvent e)
  then obtain key where "dedup_key L (ev_signed e) = Inr key" "sl_dedup (ds_base ds) key = None"
    "map_of (ds_additions ds) key = None"
    "ds' = ds\<lparr>ds_additions := put key (event_without_payload e) (ds_additions ds), ds_count := ds_count ds + 1,
       ds_events := ds_events ds @ [e], ds_expected_parent := oid, ds_positions := ds_positions ds + 1\<rparr>"
    using assms by (auto simp: delta_enter_def delta_take_def and_then_Inr)
  then show ?thesis
    using LoadedEvent by (simp add: delta_enter_def delta_take_def bare_delta_def)
next
  case (LoadedRotation k)
  then show ?thesis
    using assms by (auto simp: delta_enter_def bare_delta_def Let_def split: if_splits)
qed

lemma delta_accept_bare:
  assumes "delta_accept L G w load True None oid ds = Inr ds'"
  shows "delta_accept L G w False True None oid (bare_delta ds) = Inr (bare_delta ds')"
proof -
  obtain d c u v l where d: "delta_descriptor L G w ds = Inr d" and c: "read_commit L G w (gd_object_format d) oid = Inr c"
    and chained: "(case validate_chain_parents 1 (cx_parents c) (ds_expected_parent ds) of
        Inl x \<Rightarrow> Inl NotDescendant | Inr u \<Rightarrow> Inr u) = Inr u"
    and signed: "verify_ssh_signature L c (sl_sequencer_key (ds_base ds)) = Inr v"
    and loaded: "load_commit L G w (gd_object_format d) d (sl_genesis (ds_base ds)) c load = Inr l"
    and entered: "delta_enter L True None oid l (ds\<lparr>ds_descriptor := Some d\<rparr>) = Inr ds'"
    using assms by (auto simp: delta_accept_def and_then_Inr)
  have "delta_descriptor L G w (bare_delta ds) = Inr d"
    using d by (cases "ds_descriptor ds") (simp_all add: delta_descriptor_def)
  then show ?thesis
    using c chained signed load_commit_bare [OF loaded] delta_enter_bare [OF entered]
    by (simp add: delta_accept_def)
qed

lemma delta_walk_bare:
  "delta_walk L G w load True None oids ds = Inr ds'
    \<Longrightarrow> delta_walk L G w False True None oids (bare_delta ds) = Inr (bare_delta ds')"
  by (induction oids arbitrary: ds) (auto simp: and_then_Inr dest: delta_accept_bare)

lemma delta_finish_bare:
  "delta_finish head ds = Inr log \<Longrightarrow> delta_finish head (bare_delta ds) = Inr (bare_log log)"
  by (auto simp: delta_finish_def bare_log_def Let_def split: if_splits)

lemma scan_after_bare:
  assumes "scan_after L G w base head load = Inr log"
  shows "scan_after L G w base head False = Inr (bare_log log)"
proof -
  have start: "bare_delta (new_delta_scan base ()) = new_delta_scan base ()"
    by (simp add: bare_delta_def new_delta_scan_def)
  obtain oids ended ds where "\<not> (sl_genesis base = [] \<or> sl_head base = [])"
    "gt_log_after G (sl_head base) head w = (oids, ended)"
    "delta_walk L G w load True None oids (new_delta_scan base ()) = Inr ds"
    "require ended (GitError GitFailed) = Inr ()" "delta_close G w ds = Inr ()" "delta_finish head ds = Inr log"
    using assms by (auto simp: scan_after_def and_then_Inr split: if_splits prod.splits)
  then show ?thesis
    using delta_walk_bare [of L G w load oids "new_delta_scan base ()" ds] delta_finish_bare [of head ds log]
    by (simp add: scan_after_def start delta_close_def)
qed

text \<open>The same with a sink: only the list of events differs.\<close>

fun carried :: "loaded \<Rightarrow> event list" where
  "carried (LoadedEvent e) = [e]"
| "carried (LoadedRotation k) = []"

lemma enter_loaded_sink:
  "enter_loaded L sink l (log, s) = Inr (log', s')
    \<Longrightarrow> enter_loaded L None l (log\<lparr>sl_events := es0\<rparr>, ()) = Inr (log'\<lparr>sl_events := es0 @ carried l\<rparr>, ())"
  by (cases l) (auto simp: enter_loaded_def take_event_def enter_event_def and_then_Inr
      split: option.splits if_splits)

lemma scan_commit_sink:
  assumes "scan_commit L G w format d load sink prior oid (log, s) = Inr (log', s')"
  shows "\<exists>es. scan_commit L G w format d load None prior oid (log\<lparr>sl_events := es0\<rparr>, ()) = Inr (log'\<lparr>sl_events := es\<rparr>, ())"
proof -
  obtain c u v l where "read_commit L G w format oid = Inr c"
    "verify_ssh_signature L c (sl_sequencer_key log) = Inr u" "validate_chain_parents 1 (cx_parents c) prior = Inr v"
    "load_commit L G w format d (sl_genesis log) c load = Inr l"
    and entered: "enter_loaded L sink l (log, s) = Inr (log', s')"
    using assms by (auto simp: scan_commit_def and_then_Inr)
  then show ?thesis
    using enter_loaded_sink [OF entered, of es0]
    by (intro exI [of _ "es0 @ carried l"]) (simp add: scan_commit_def)
qed

lemma scan_rest_sink:
  "scan_rest L G w format d load sink prior oids (log, s) = Inr (log', s')
    \<Longrightarrow> \<exists>es. scan_rest L G w format d load None prior oids (log\<lparr>sl_events := es0\<rparr>, ()) = Inr (log'\<lparr>sl_events := es\<rparr>, ())"
proof (induction oids arbitrary: prior log s es0)
  case (Cons oid oids)
  obtain log1 s1 where one: "scan_commit L G w format d load sink prior oid (log, s) = Inr (log1, s1)"
    and rest: "scan_rest L G w format d load sink oid oids (log1, s1) = Inr (log', s')"
    using Cons.prems by (auto simp: and_then_Inr)
  obtain es1 where "scan_commit L G w format d load None prior oid (log\<lparr>sl_events := es0\<rparr>, ()) = Inr (log1\<lparr>sl_events := es1\<rparr>, ())"
    using scan_commit_sink [OF one] by blast
  with Cons.IH [OF rest, of es1] show ?case
    by (simp add: and_then_Inr)
qed auto

lemma scan_head_into_sink:
  assumes "scan_head_into L G w genesis head load sink s = Inr (log, s')"
  shows "\<exists>es. scan_head L G w genesis head load = Inr (log\<lparr>sl_events := es\<rparr>)"
proof -
  obtain commits u format d log0 where "gt_rev_list G head w = Some commits"
    "validate_sequence_bounds commits genesis head = Inr u" "format_of_genesis genesis = Some format"
    "scan_genesis L G w format genesis head (length commits - 1) = Inr (d, log0)"
    and rest: "scan_rest L G w format d load sink genesis (tl commits) (log0, s) = Inr (log, s')"
    and "gt_batch_ends G w"
    using assms by (auto simp: scan_head_into_def and_then_Inr split: if_splits)
  moreover obtain es where "scan_rest L G w format d load None genesis (tl commits) (log0\<lparr>sl_events := sl_events log0\<rparr>, ())
      = Inr (log\<lparr>sl_events := es\<rparr>, ())"
    using scan_rest_sink [OF rest] by blast
  ultimately show ?thesis
    by (intro exI [of _ es]) (simp add: scan_head_def scan_head_into_def)
qed

section \<open>Coherent caches\<close>

definition without_events :: "scanned_log \<Rightarrow> scanned_log" where
  "without_events log = log\<lparr>sl_events := []\<rparr>"

definition stands_for :: "('l) kernel_lib_scheme \<Rightarrow> 'w git \<Rightarrow> 'w \<Rightarrow> string \<Rightarrow> string \<Rightarrow> scanned_log \<Rightarrow> bool" where
  "stands_for L G w genesis head log \<longleftrightarrow>
     (\<exists>full. scan_head L G w genesis head False = Inr full \<and> without_events log = without_events full)"

definition coherent_cache :: "('l) kernel_lib_scheme \<Rightarrow> 'w git \<Rightarrow> 'w \<Rightarrow> log_cache \<Rightarrow> bool" where
  "coherent_cache L G w c \<longleftrightarrow>
     lc_target c = []
     \<or> (stands_for L G w (lc_target c) (lc_head c) (lc_log c) \<and> sl_events (lc_log c) = [])"

lemma coherent_new: "coherent_cache L G w new_cache"
  by (simp add: coherent_cache_def new_cache_def)

lemma stands_for_kept:
  "git_laws L G format \<Longrightarrow> keeps_objects G w w' \<Longrightarrow> stands_for L G w genesis head log
    \<Longrightarrow> stands_for L G w' genesis head log"
  unfolding stands_for_def by (elim exE conjE) (intro exI conjI, erule (2) scan_head_kept, assumption)

lemma coherent_kept:
  "git_laws L G format \<Longrightarrow> keeps_objects G w w' \<Longrightarrow> coherent_cache L G w c \<Longrightarrow> coherent_cache L G w' c"
  unfolding coherent_cache_def by (elim disjE conjE) (simp_all add: stands_for_kept)

lemma stands_for_fields:
  assumes "git_laws L G format" "stands_for L G w genesis head log"
  shows "sl_genesis log = genesis" "sl_head log = head"
proof -
  obtain full where "scan_head L G w genesis head False = Inr full" "without_events log = without_events full"
    using assms(2) by (auto simp: stands_for_def)
  moreover obtain "sl_genesis full = genesis" "sl_head full = head"
    using scanned_descriptor [OF assms(1) calculation(1)] .
  moreover have "sl_genesis log = sl_genesis (without_events log)" "sl_head log = sl_head (without_events log)"
    "sl_genesis full = sl_genesis (without_events full)" "sl_head full = sl_head (without_events full)"
    by (simp_all add: without_events_def)
  ultimately show "sl_genesis log = genesis" "sl_head log = head"
    by metis+
qed

lemma coherent_keep_log:
  "stands_for L G w target head log \<Longrightarrow> coherent_cache L G w (keep_log target head log c)"
  by (auto simp: coherent_cache_def keep_log_def stands_for_def without_events_def)

lemma coherent_counters [simp]:
  "coherent_cache L G w (c\<lparr>lc_hits := n\<rparr>) = coherent_cache L G w c"
  "coherent_cache L G w (c\<lparr>lc_delta_scans := n\<rparr>) = coherent_cache L G w c"
  "coherent_cache L G w (c\<lparr>lc_full_scans := n\<rparr>) = coherent_cache L G w c"
  by (simp_all add: coherent_cache_def)

lemma without_bare [simp]: "without_events (bare_log log) = without_events log"
  by (simp add: bare_log_def without_events_def)

lemma cached_delta_stands:
  assumes laws: "git_laws L G format" and coherent: "coherent_cache L G w c" and target: "target \<noteq> []"
    and delta: "cached_delta L G w target load head c = Inr log"
  shows "stands_for L G w target head log"
proof -
  have cached: "lc_target c = target" "scan_after L G w (lc_log c) head load = Inr log"
    using delta by (auto simp: cached_delta_def split: if_splits)
  then obtain full where base: "scan_head L G w target (lc_head c) False = Inr full"
    and same: "without_events (lc_log c) = without_events full" and none: "sl_events (lc_log c) = []"
    using coherent target by (auto simp: coherent_cache_def stands_for_def)
  have log: "lc_log c = without_events full"
    unfolding same [symmetric] using none by (simp add: without_events_def)
  have "scan_after L G w (full\<lparr>sl_events := []\<rparr>) head False = Inr (bare_log log)"
    using scan_after_bare [OF cached(2)] log by (simp add: without_events_def)
  from scan_after_full [OF laws base this]
  have "scan_head L G w target head False = Inr (after_events (sl_events full) (bare_log log))" .
  then show ?thesis
    by (simp add: stands_for_def after_events_def without_events_def bare_log_def)
qed

lemma scanned_stands:
  assumes "scan_head_into L G w target head load sink s = Inr (log, s')"
  shows "stands_for L G w target head log"
proof -
  obtain es where "scan_head L G w target head load = Inr (log\<lparr>sl_events := es\<rparr>)"
    using scan_head_into_sink [OF assms] by blast
  from scan_head_bare [OF this] show ?thesis
    by (simp add: stands_for_def bare_log_def without_events_def)
qed

text \<open>Every advance, whether it loads payloads and keeps the list or hands the events to a sink.\<close>

lemma advance_stands:
  assumes laws: "git_laws L G format" and coherent: "coherent_cache L G w c" and target: "target \<noteq> []"
    and went: "advance L G target load sink s c w = (r, c', w')"
  shows "keeps_objects G w w'" "coherent_cache L G w' c'"
    "r = Inr (a, u) \<Longrightarrow> lc_target c' = target \<and> ca_head a = lc_head c'
       \<and> stands_for L G w' target (lc_head c') (lc_log c')
       \<and> (\<exists>head. fst (gt_head G (sequence_ref target) w) = Some head \<and> lc_head c' = head)"
proof -
  obtain h where h: "gt_head G (sequence_ref target) w = (h, w')"
    using went by (auto simp: advance_def store_head_def of_option_def
        split: prod.splits option.splits sum.splits if_splits)
  have kept: "keeps_objects G w w'"
    using laws objects_keptD(4) [OF _ h] by (simp add: git_laws_def)
  then show "keeps_objects G w w'" .
  have coherent': "coherent_cache L G w' c"
    using coherent_kept [OF laws kept coherent] .
  have ends: "coherent_cache L G w' c' \<and> (r = Inr (a, u) \<longrightarrow> lc_target c' = target \<and> ca_head a = lc_head c'
       \<and> stands_for L G w' target (lc_head c') (lc_log c') \<and> h = Some (lc_head c'))"
  proof (cases h)
    case None
    then show ?thesis
      using went h coherent' by (auto simp: advance_def store_head_def)
  next
    case (Some head)
    show ?thesis
    proof (cases "lc_target c = target \<and> lc_head c = head")
      case True
      then have here: "stands_for L G w' target head (lc_log c)"
        using coherent' target by (auto simp: coherent_cache_def)
      then show ?thesis
        using went h Some True coherent' stands_for_fields [OF laws here] target
        by (auto simp: advance_def store_head_def)
    next
      case False
      show ?thesis
      proof (cases "cached_delta L G w' target load head c")
        case (Inr log)
        note here = cached_delta_stands [OF laws coherent' target Inr]
        have "c' = keep_log target head log c\<lparr>lc_delta_scans := lc_delta_scans c + 1\<rparr>"
          using went h Some False Inr by (auto simp: advance_def store_head_def)
        moreover have "stands_for L G w' target head (log\<lparr>sl_events := []\<rparr>)"
          using here by (simp add: stands_for_def without_events_def)
        ultimately show ?thesis
          using went h Some False Inr coherent_keep_log [OF here] stands_for_fields [OF laws here]
          by (auto simp: advance_def store_head_def keep_log_def)
      next
        case (Inl e)
        show ?thesis
        proof (cases "e = NotDescendant \<and> (\<exists>log s'. scan_head_into L G w' target head load sink s = Inr (log, s'))")
          case False': False
          then show ?thesis
            using went h Some False Inl coherent'
            by (auto simp: advance_def store_head_def split: if_splits sum.splits)
        next
          case True
          then obtain log s' where log: "scan_head_into L G w' target head load sink s = Inr (log, s')"
            and e: "e = NotDescendant"
            by blast
          note here = scanned_stands [OF log]
          then have "stands_for L G w' target head (log\<lparr>sl_events := []\<rparr>)"
            by (simp add: stands_for_def without_events_def)
          then show ?thesis
            using went h Some False Inl log e coherent_keep_log [OF here] stands_for_fields [OF laws here]
            by (auto simp: advance_def store_head_def keep_log_def)
        qed
      qed
    qed
  qed
  then show "coherent_cache L G w' c'" by blast
  show "lc_target c' = target \<and> ca_head a = lc_head c'
       \<and> stands_for L G w' target (lc_head c') (lc_log c')
       \<and> (\<exists>head. fst (gt_head G (sequence_ref target) w) = Some head \<and> lc_head c' = head)" if "r = Inr (a, u)"
    using ends that h by auto
qed

end
