(* ===== verification/KernelSequence.thy ===== *)
theory KernelSequence
  imports KernelCache
begin

text \<open>
  A submission that returns a new commit: the commit it chained carries exactly the submitted event,
  every cold scan reads it back after the log it was judged against, and the cache that took it in
  is still the log it stands for.
\<close>

section \<open>Bytes and attachments of a request\<close>

text \<open>Lengths of Go slices and strings are ints, and a Go map holds a key once.\<close>

definition go_request :: "('l) kernel_lib_scheme \<Rightarrow> request \<Rightarrow> bool" where
  "go_request L rq \<longleftrightarrow>
     distinct (map fst (rq_attachments rq)) \<and> length (rq_payload rq) \<le> max_int
     \<and> (\<forall>(n, c)\<in>set (rq_attachments rq). length c \<le> max_int)
     \<and> (\<forall>i. verify_signed L (rq_signed rq) = Inr i
          \<longrightarrow> length (envelope (rq_signed rq) (in_rests_on i)) \<le> max_int)"

lemma go_request_addressable:
  assumes "go_request L rq" "verify_signed L (rq_signed rq) = Inr i"
  shows "addressable (envelope (rq_signed rq) (in_rests_on i)) rq"
proof -
  have small: "n \<le> max_int \<Longrightarrow> n < 2 ^ 64" for n
    by (simp add: max_int_def)
  show ?thesis
    using assms small unfolding addressable_def go_request_def by fast
qed

lemma sorted_attachments_mset:
  assumes "distinct (map fst as)"
  shows "mset (sorted_attachments as) = mset as"
proof -
  have "mset (sort_strings (map fst as)) = mset (map fst as)"
    using set_eq_iff_mset_eq_distinct [OF distinct_sort_strings [OF assms] assms] by simp
  then have "mset (sorted_attachments as)
      = image_mset (\<lambda>n. (n, case map_of as n of None \<Rightarrow> [] | Some c \<Rightarrow> c)) (mset (map fst as))"
    by (simp add: sorted_attachments_def)
  also have "\<dots> = mset (map (\<lambda>nc. (fst nc, case map_of as (fst nc) of None \<Rightarrow> [] | Some c \<Rightarrow> c)) as)"
    by (simp add: image_mset.compositionality comp_def)
  also have "map (\<lambda>nc. (fst nc, case map_of as (fst nc) of None \<Rightarrow> [] | Some c \<Rightarrow> c)) as = as"
    using assms by (intro map_idI) (auto simp: map_of_eq_Some_iff)
  finally show ?thesis .
qed

lemma sorted_attachments_bytes:
  assumes "distinct (map fst as)"
  shows "sum_list (map (length \<circ> snd) (sorted_attachments as)) = attachment_bytes as"
proof -
  have "sum_mset (image_mset (length \<circ> snd) (mset (sorted_attachments as)))
      = sum_mset (image_mset (length \<circ> snd) (mset as))"
    by (simp add: sorted_attachments_mset [OF assms])
  then show ?thesis
    by (simp add: attachment_bytes_def sum_mset_sum_list [symmetric] del: sum_mset_sum_list)
qed

section \<open>What the checks before the loop establish\<close>

lemma split_three: "split_char c t = [a, b, d] \<Longrightarrow> t = a @ c # b @ c # d"
proof (induction t arbitrary: a)
  case (Cons x t)
  show ?case
  proof (cases "x = c")
    case True
    then show ?thesis
      using Cons.prems split_two by auto
  next
    case False
    then obtain v where "split_char c t = [v, b, d]" "a = x # v"
      using Cons.prems by (auto split: list.splits)
    then show ?thesis
      using Cons.IH by simp
  qed
qed simp

lemma typed_oid_parsed:
  assumes "parse_typed_oid t = Inr (f, oid)"
  shows "t = typed_oid f oid" "oid \<noteq> []"
proof -
  have "split_char (CHR '':'') t = [''git'', f, oid]" "oid \<noteq> []"
    using assms by (auto simp: parse_typed_oid_def split: list.splits if_splits)
  then show "t = typed_oid f oid" "oid \<noteq> []"
    using split_three by (fastforce simp: typed_oid_def)+
qed

lemma descriptor_kept:
  assumes "prints_objects L G format" "keeps_objects G w w'" "descriptor L G w genesis = Inr d"
  shows "descriptor L G w' genesis = Inr d"
proof -
  obtain m where m: "gt_show G genesis w = Some m"
    using assms(3) by (auto simp: descriptor_def commit_message_def and_then_Inr)
  then have "gt_show G genesis w' = Some m"
    using assms(1,2) unfolding prints_objects_def by blast
  then show ?thesis
    using assms(3) m by (simp add: descriptor_def commit_message_def)
qed

text \<open>Facts of a prepared submission that no later command takes away.\<close>

definition ready ::
  "('l) kernel_lib_scheme \<Rightarrow> 'w git \<Rightarrow> request \<Rightarrow> string \<Rightarrow> prepared \<Rightarrow> 'w \<Rightarrow> bool" where
  "ready L G rq format pp w \<longleftrightarrow>
     verify_signed L (rq_signed rq) = Inr (pp_intent pp) \<and> pp_target pp \<noteq> []
     \<and> in_target (pp_intent pp) = typed_oid format (pp_target pp)
     \<and> pp_message pp = envelope (rq_signed rq) (in_rests_on (pp_intent pp))
     \<and> parse_typed_oid (in_payload_tree (pp_intent pp)) = Inr (format, pp_tree pp)
     \<and> stored_payload L G w format (rq_payload rq) (rq_attachments rq) (pp_tree pp)
     \<and> (\<forall>(n, c)\<in>set (rq_attachments rq). attachment_name n)
     \<and> (\<exists>d. descriptor L G w (pp_target pp) = Inr d
          \<and> length (pp_message pp) + length (rq_payload rq) + attachment_bytes (rq_attachments rq)
             \<le> unat (gd_payload_ceiling d))"

lemma ready_kept:
  assumes "git_laws L G format" "keeps_objects G w w'" "ready L G rq format pp w"
  shows "ready L G rq format pp w'"
  using assms stored_payload_kept descriptor_kept unfolding ready_def git_laws_def by metis

lemma check_submission_steps:
  assumes "check_submission L G opts rq w = (Inr pp, w')"
  obtains h w1 d where "verify_signed L (rq_signed rq) = Inr (pp_intent pp)"
    "gt_format G w = Some (pp_format pp)"
    "parse_typed_oid (in_target (pp_intent pp)) = Inr (pp_format pp, pp_target pp)"
    "gt_head G (sequence_ref (pp_target pp)) w = (h, w1)"
    "pp_message pp = envelope (rq_signed rq) (in_rests_on (pp_intent pp))"
    "descriptor L G w1 (pp_target pp) = Inr d"
    "judge_size (measure_request (pp_message pp) rq) (gd_payload_ceiling d) = Inr ()"
    "parse_typed_oid (in_payload_tree (pp_intent pp)) = Inr (pp_format pp, pp_tree pp)"
    "write_payload_tree G (rq_payload rq) (rq_attachments rq) w1 = (Inr (pp_tree pp), w')"
proof -
  obtain i format target where first: "verify_signed L (rq_signed rq) = Inr i" "gt_format G w = Some format"
    "parse_typed_oid (in_target i) = Inr (format, target)"
    and rest: "check_submission L G opts rq w = (case store_head G (sequence_ref target) w of
             (Inl _, w) \<Rightarrow> (Inl UnknownLog, w)
           | (Inr _, w) \<Rightarrow>
               (let message = envelope (rq_signed rq) (in_rests_on i);
                    ad = \<lparr>ad_intent = i, ad_actor_key = sg_actor_key (rq_signed rq),
                          ad_capability_proof = rq_capability_proof rq\<rparr> in
                case (and_then (git_res (commit_message G target w)) (\<lambda>genesis.
                      and_then (genesis_res (parse_genesis_message L genesis)) (\<lambda>d.
                      and_then (judge_size (measure_request message rq) (gd_payload_ceiling d)) (\<lambda>_.
                      and_then (require (\<not> hook_refuses (op_pre_append opts) ad) PreAppendRefused) (\<lambda>_.
                      and_then (git_res (parse_typed_oid (in_payload_tree i)))
                        (\<lambda>(payload_format, tree).
                      and_then (require (payload_format = format) FormatDiffers) (\<lambda>_. Inr tree))))))) of
                  Inl e \<Rightarrow> (Inl e, w)
                | Inr tree \<Rightarrow>
                    (case write_payload_tree G (rq_payload rq) (rq_attachments rq) w of
                       (Inl e, w') \<Rightarrow> (Inl (GitError e), w')
                     | (Inr written, w') \<Rightarrow>
                         if written \<noteq> tree then (Inl PayloadTreeMismatch, w')
                         else (Inr \<lparr>pp_intent = i, pp_format = format, pp_target = target,
                                   pp_message = message, pp_tree = written\<rparr>, w'))))"
    using assms unfolding check_submission_def
    by (auto simp: and_then_Inr split: sum.splits prod.splits)
  show thesis
    using assms unfolding rest store_head_def
    by (auto simp: and_then_Inr Let_def descriptor_def split: sum.splits prod.splits if_splits option.splits
        intro!: that first)
qed

lemma check_submission_ready:
  assumes laws: "git_laws L G format" and bytes: "go_request L rq"
    and checked: "check_submission L G opts rq w = (Inr pp, w')"
  shows "keeps_objects G w w'" "ready L G rq format pp w'"
proof -
  obtain h w1 d where verified: "verify_signed L (rq_signed rq) = Inr (pp_intent pp)"
    and format: "gt_format G w = Some (pp_format pp)"
    and target: "parse_typed_oid (in_target (pp_intent pp)) = Inr (pp_format pp, pp_target pp)"
    and head: "gt_head G (sequence_ref (pp_target pp)) w = (h, w1)"
    and message: "pp_message pp = envelope (rq_signed rq) (in_rests_on (pp_intent pp))"
    and d: "descriptor L G w1 (pp_target pp) = Inr d"
    and judged: "judge_size (measure_request (pp_message pp) rq) (gd_payload_ceiling d) = Inr ()"
    and tree: "parse_typed_oid (in_payload_tree (pp_intent pp)) = Inr (pp_format pp, pp_tree pp)"
    and written: "write_payload_tree G (rq_payload rq) (rq_attachments rq) w1 = (Inr (pp_tree pp), w')"
    using checked by (rule check_submission_steps)
  have pp_format: "pp_format pp = format"
    using laws format by (simp add: git_laws_def one_format_def)
  have git: "blobs_written L G format" "trees_written L G format" "objects_kept G" "prints_objects L G format"
    using laws by (simp_all add: git_laws_def)
  have stored: "keeps_objects G w1 w' \<and> stored_payload L G w' format (rq_payload rq) (rq_attachments rq) (pp_tree pp)
      \<and> (\<forall>(n, c)\<in>set (rq_attachments rq). attachment_name n)"
    using bytes by (intro write_payload_tree_stored [OF git(1-3) written]) (auto simp: go_request_def)
  then show "keeps_objects G w w'"
    using keeps_trans [OF objects_keptD(4) [OF git(3) head]] by simp
  have "addressable (pp_message pp) rq"
    using go_request_addressable [OF bytes verified] message by simp
  then have "length (pp_message pp) + length (rq_payload rq) + attachment_bytes (rq_attachments rq)
      \<le> unat (gd_payload_ceiling d)"
    using judged judge_exact by blast
  moreover have "descriptor L G w' (pp_target pp) = Inr d"
    using descriptor_kept [OF git(4) _ d] stored by blast
  ultimately show "ready L G rq format pp w'"
    using verified message tree stored typed_oid_parsed [OF target] unfolding ready_def pp_format
    by (intro conjI exI [of _ d]) simp_all
qed

section \<open>The log an attempt judges against\<close>

abbreviation coherent_in :: "('l) kernel_lib_scheme \<Rightarrow> 'w git \<Rightarrow> 'w \<Rightarrow> log_cache option \<Rightarrow> bool" where
  "coherent_in L G w cache \<equiv> \<forall>c. cache = Some c \<longrightarrow> coherent_cache L G w c"

lemma current_log_stands:
  assumes laws: "git_laws L G format" and coherent: "coherent_in L G w cache" and target: "target \<noteq> []"
    and went: "current_log L G target cache w = (r, cache', w')"
  shows "keeps_objects G w w'" "coherent_in L G w' cache'"
    "r = Inr (head, log) \<Longrightarrow> stands_for L G w' target head log
       \<and> (\<forall>c. cache' = Some c \<longrightarrow> lc_target c = target \<and> lc_log c = log)"
proof -
  have kept: "gt_head G ref w = (h, v) \<Longrightarrow> keeps_objects G w v" for ref h v
    using laws by (auto simp: git_laws_def dest: objects_keptD(4))
  have all: "keeps_objects G w w' \<and> coherent_in L G w' cache' \<and> (r = Inr (head, log) \<longrightarrow> stands_for L G w' target head log
       \<and> (\<forall>c. cache' = Some c \<longrightarrow> lc_target c = target \<and> lc_log c = log))"
  proof (cases cache)
    case None
    then show ?thesis
      using went kept
      by (auto simp: current_log_def store_head_def and_then_Inr stands_for_def split: prod.splits sum.splits)
  next
    case (Some c)
    obtain ra c' v where a: "advance L G target False None () c w = (ra, c', v)"
      by (cases "advance L G target False None () c w")
    have "coherent_cache L G w c"
      using coherent Some by simp
    note stands = advance_stands [OF laws this target a]
    show ?thesis
    proof (cases ra)
      case (Inl e)
      then show ?thesis
        using went a Some stands(1,2) by (auto simp: current_log_def)
    next
      case (Inr au)
      obtain x u where au: "au = (x, u)"
        by (cases au)
      show ?thesis
        using went a Some Inr stands(1,2) stands(3) [of x u] by (auto simp: current_log_def au)
    qed
  qed
  then show "keeps_objects G w w'" "coherent_in L G w' cache'" by blast+
  show "stands_for L G w' target head log \<and> (\<forall>c. cache' = Some c \<longrightarrow> lc_target c = target \<and> lc_log c = log)"
    if "r = Inr (head, log)"
    using all that by blast
qed

section \<open>Chaining the commit\<close>

lemma chain_commit_ok:
  assumes laws: "git_laws L G format" and went: "chain_commit G ref head key cr w = (r, w')"
    and message: "cr_parent cr \<noteq> []" "cr_message cr \<noteq> []" "last (cr_message cr) = newline"
  shows "keeps_objects G w w'"
    "r = Inr (Some (commit, ts)) \<Longrightarrow> \<exists>c. read_commit L G w' format commit = Inr c \<and> cx_tree c = cr_tree cr
       \<and> cx_parents c = [cr_parent cr] \<and> cx_timestamp c = ts \<and> cx_message c = cr_message cr
       \<and> verify_ssh_signature L c key = Inr ()"
proof -
  have git: "objects_kept G" "commits_written L G format" "verification_agrees L G format"
    using laws by (simp_all add: git_laws_def)
  note kept = objects_keptD [OF git(1)]
  show keeps: "keeps_objects G w w'"
    using went unfolding chain_commit_def store_head_def
    by (auto split: prod.splits option.splits sum.splits bool.splits if_splits
        intro: keeps_trans [OF kept(3) keeps_trans [OF kept(5) kept(4)]] keeps_trans [OF kept(3) kept(5)] kept(3))
  show "\<exists>c. read_commit L G w' format commit = Inr c \<and> cx_tree c = cr_tree cr
       \<and> cx_parents c = [cr_parent cr] \<and> cx_timestamp c = ts \<and> cx_message c = cr_message cr
       \<and> verify_ssh_signature L c key = Inr ()" if ok: "r = Inr (Some (commit, ts))"
  proof -
    obtain w1 where written: "gt_commit G cr w = (Some (commit, ts), w1)"
      and checked: "verify_ssh_commit G commit ''sequencer'' key w1 = Inr ()"
      and swapped: "gt_update_ref G ref commit head w1 = (True, w')"
      using went ok unfolding chain_commit_def
      by (auto split: prod.splits option.splits sum.splits bool.splits if_splits)
    obtain c where c: "read_commit L G w1 format commit = Inr c" "cx_tree c = cr_tree cr"
      "cx_parents c = [cr_parent cr]" "cx_timestamp c = ts" "cx_message c = cr_message cr"
      using git(2) message written unfolding commits_written_def by fastforce
    have "verify_ssh_signature L c key = Inr ()"
      using git(3) checked c(1) unfolding verification_agrees_def by blast
    moreover have "read_commit L G w' format commit = Inr c"
      by (rule read_commit_kept [OF kept(5) [OF swapped] c(1)])
    ultimately show ?thesis
      using c by blast
  qed
qed

lemma chain_commit_head:
  assumes "git_laws L G format" "chain_commit G ref head key cr w = (Inr (Some (commit, ts)), w')"
  shows "fst (gt_head G ref w') = Some commit"
proof -
  obtain w1 where "gt_update_ref G ref commit head w1 = (True, w')"
    using assms(2) unfolding chain_commit_def
    by (auto split: prod.splits option.splits sum.splits bool.splits if_splits)
  then show ?thesis
    using assms(1) unfolding git_laws_def refs_updated_def by blast
qed

section \<open>An accepted attempt\<close>

definition sequenced_event :: "request \<Rightarrow> prepared \<Rightarrow> submission_result \<Rightarrow> event" where
  "sequenced_event rq pp r =
     \<lparr>ev_commit = sb_commit r, ev_timestamp = sb_timestamp r, ev_intent = pp_intent pp,
      ev_signed = rq_signed rq, ev_payload_tree = in_payload_tree (pp_intent pp),
      ev_payload = [], ev_attachments = []\<rparr>"

text \<open>What an accepted submission leaves behind.\<close>

definition sequenced ::
  "('l) kernel_lib_scheme \<Rightarrow> 'w git \<Rightarrow> request \<Rightarrow> prepared \<Rightarrow> submission_result \<Rightarrow> 'w \<Rightarrow> bool" where
  "sequenced L G rq pp r w \<longleftrightarrow>
     fst (gt_head G (sequence_ref (pp_target pp)) w) = Some (sb_commit r)
     \<and> (\<exists>log. scan_head L G w (pp_target pp) (sb_base_head r) False = Inr log
        \<and> scan_head L G w (pp_target pp) (sb_commit r) False = Inr (extended L (sequenced_event rq pp r) log))"

lemma payload_readable:
  assumes laws: "git_laws L G format" and bytes: "go_request L rq" and ready: "ready L G rq format pp w"
    and d: "descriptor L G w (pp_target pp) = Inr d"
  shows "payload_tree L G w format (pp_tree pp) (unat (gd_payload_ceiling d) - length (pp_message pp)) load
      = Inr (if load then (rq_payload rq, sorted_attachments (rq_attachments rq)) else ([], []))"
    "length (pp_message pp) \<le> unat (gd_payload_ceiling d)"
proof -
  have room: "length (pp_message pp) + length (rq_payload rq) + attachment_bytes (rq_attachments rq)
      \<le> unat (gd_payload_ceiling d)"
    using ready d by (auto simp: ready_def)
  have "distinct (map fst (rq_attachments rq))"
    using bytes by (simp add: go_request_def)
  then show "payload_tree L G w format (pp_tree pp) (unat (gd_payload_ceiling d) - length (pp_message pp)) load
      = Inr (if load then (rq_payload rq, sorted_attachments (rq_attachments rq)) else ([], []))"
    using laws ready room sorted_attachments_bytes
    by (intro payload_tree_stored) (auto simp: git_laws_def ready_def)
  show "length (pp_message pp) \<le> unat (gd_payload_ceiling d)"
    using room by simp
qed

lemma loaded_submission:
  assumes laws: "git_laws L G format" and bytes: "go_request L rq" and ready: "ready L G rq format pp w"
    and survives: "survives (in_rests_on (pp_intent pp))"
    and d: "descriptor L G w (pp_target pp) = Inr d" "gd_object_format d = format"
    and c: "read_commit L G w format (sb_commit r) = Inr c" "cx_tree c = pp_tree pp"
      "cx_timestamp c = sb_timestamp r" "cx_message c = pp_message pp"
  shows "load_commit L G w format d (pp_target pp) c False = Inr (LoadedEvent (sequenced_event rq pp r))"
proof -
  note payload = payload_readable [OF laws bytes ready d(1)]
  have "load_commit L G w format d (pp_target pp) c False =
    Inr (LoadedEvent \<lparr>ev_commit = cx_oid c, ev_timestamp = cx_timestamp c, ev_intent = pp_intent pp,
      ev_signed = rq_signed rq, ev_payload_tree = in_payload_tree (pp_intent pp), ev_payload = [], ev_attachments = []\<rparr>)"
    using ready c d payload(2) payload(1) [of False]
    by (intro load_envelope [OF _ survives]) (auto simp: ready_def)
  then show ?thesis
    using read_commit_named(2) [OF c(1)] c(3) by (simp add: sequenced_event_def)
qed

lemma cache_append_coherent:
  assumes "scan_head L G w (lc_target c) (ev_commit e) False = Inr (extended L (event_without_payload e) full)"
    and "without_events (lc_log c) = without_events full" "sl_events (lc_log c) = []"
  shows "coherent_cache L G w (cache_append (retry_key L e) e c)"
proof -
  have key: "retry_key L (event_without_payload e) = retry_key L e" "ev_commit (event_without_payload e) = ev_commit e"
    "event_without_payload (event_without_payload e) = event_without_payload e"
    by (simp_all add: retry_key_def event_without_payload_def)
  have "lc_log c = without_events full"
    using assms(2,3) by (metis scanned_log.surjective scanned_log.update_convs(5) without_events_def)
  then have "without_events (lc_log (cache_append (retry_key L e) e c))
      = without_events (extended L (event_without_payload e) full)"
    by (simp add: cache_append_def extended_def enter_event_def without_events_def key Let_def)
  then show ?thesis
    using assms(1,3) by (auto simp: coherent_cache_def stands_for_def cache_append_def Let_def)
qed

lemma judge_attempt_decides:
  "judge_attempt opts rq pp key attempt head log w = Inr None \<Longrightarrow> sl_dedup log key = None"
  "judge_attempt opts rq pp key attempt head log w = Inr (Some r) \<Longrightarrow> sb_replay r"
  by (auto simp: judge_attempt_def dedup_prior_def and_then_Inr split: option.splits if_splits)

lemma ready_message:
  assumes "ready L G rq format pp w"
  shows "pp_message pp \<noteq> []" "last (pp_message pp) = newline"
proof -
  have "pp_message pp = envelope (rq_signed rq) (in_rests_on (pp_intent pp))"
    using assms by (simp add: ready_def)
  then show "pp_message pp \<noteq> []" "last (pp_message pp) = newline"
    by (simp_all add: envelope_def)
qed

lemma chained_submission:
  assumes laws: "git_laws L G format" and bytes: "go_request L rq" and ready: "ready L G rq format pp w"
    and key: "dedup_key L (rq_signed rq) = Inr key" and survives: "survives (in_rests_on (pp_intent pp))"
    and here: "stands_for L G w (pp_target pp) (sb_base_head r) log" and free: "sl_dedup log key = None"
    and cr: "cr_tree cr = pp_tree pp" "cr_parent cr = sb_base_head r" "cr_message cr = pp_message pp"
    and went: "chain_commit G ref (sb_base_head r) (sl_sequencer_key log) cr w = (Inr (Some (sb_commit r, sb_timestamp r)), w')"
  obtains full where "scan_head L G w' (pp_target pp) (sb_base_head r) False = Inr full"
    "without_events log = without_events full"
    "scan_head L G w' (pp_target pp) (sb_commit r) False = Inr (extended L (sequenced_event rq pp r) full)"
proof -
  obtain full where full: "scan_head L G w (pp_target pp) (sb_base_head r) False = Inr full"
    and same: "without_events log = without_events full"
    using here by (auto simp: stands_for_def)
  have head: "sb_base_head r \<noteq> []"
    using scan_head_named(2) [OF full] .
  note chained = chain_commit_ok [OF laws went, unfolded cr, OF head ready_message [OF ready]]
  obtain c where c: "read_commit L G w' format (sb_commit r) = Inr c" "cx_tree c = pp_tree pp"
    "cx_parents c = [sb_base_head r]" "cx_timestamp c = sb_timestamp r" "cx_message c = pp_message pp"
    "verify_ssh_signature L c (sl_sequencer_key log) = Inr ()"
    using chained(2) by blast
  have now: "scan_head L G w' (pp_target pp) (sb_base_head r) False = Inr full"
    by (rule scan_head_kept [OF laws chained(1) full])
  obtain d where d: "descriptor L G w' (pp_target pp) = Inr d" "gd_object_format d = format"
    using scanned_descriptor [OF laws now] .
  have loaded: "load_commit L G w' format d (pp_target pp) c False = Inr (LoadedEvent (sequenced_event rq pp r))"
    using loaded_submission [OF laws bytes ready_kept [OF laws chained(1) ready] survives d c(1,2,4,5)] .
  have fields: "sl_sequencer_key full = sl_sequencer_key log" "sl_dedup full = sl_dedup log"
    using arg_cong [OF same, of sl_sequencer_key] arg_cong [OF same, of sl_dedup] by (simp_all add: without_events_def)
  have "retry_key L (sequenced_event rq pp r) = key"
    using key by (simp add: retry_key_def sequenced_event_def)
  then have "scan_head L G w' (pp_target pp) (sb_commit r) False = Inr (extended L (sequenced_event rq pp r) full)"
    using c free by (intro scan_head_extended [OF laws now d c(1,3) _ loaded]) (simp_all add: fields)
  then show thesis
    using that now same by blast
qed

definition accepted_result :: "nat \<Rightarrow> string \<Rightarrow> string \<Rightarrow> int \<Rightarrow> submission_result" where
  "accepted_result attempt head commit ts =
     \<lparr>sb_commit = commit, sb_head = commit, sb_replay = False, sb_cas_retries = attempt,
      sb_base_head = head, sb_timestamp = ts\<rparr>"

lemma accepted_result_simps [simp]:
  "sb_commit (accepted_result n head commit ts) = commit" "sb_base_head (accepted_result n head commit ts) = head"
  "sb_timestamp (accepted_result n head commit ts) = ts" "\<not> sb_replay (accepted_result n head commit ts)"
  by (simp_all add: accepted_result_def)

definition submitted_commit ::
  "('l) kernel_lib_scheme \<Rightarrow> 'w options \<Rightarrow> request \<Rightarrow> prepared \<Rightarrow> string \<Rightarrow> commit_request" where
  "submitted_commit L opts rq pp head =
     \<lparr>cr_tree = pp_tree pp, cr_parent = head, cr_message = pp_message pp,
      cr_signing_key = op_signing_key opts, cr_identity = actor_identity L (sg_actor_key (rq_signed rq))\<rparr>"

lemma submitted_commit_simps [simp]:
  "cr_tree (submitted_commit L opts rq pp head) = pp_tree pp"
  "cr_parent (submitted_commit L opts rq pp head) = head"
  "cr_message (submitted_commit L opts rq pp head) = pp_message pp"
  by (simp_all add: submitted_commit_def)

text \<open>An attempt that chained a commit, seen from the log it was judged against.\<close>

definition attempt_chained ::
  "('l) kernel_lib_scheme \<Rightarrow> 'w git \<Rightarrow> 'w options \<Rightarrow> request \<Rightarrow> prepared \<Rightarrow> string \<Rightarrow> submission_result
   \<Rightarrow> log_cache option \<Rightarrow> 'w \<Rightarrow> log_cache option \<Rightarrow> 'w \<Rightarrow> bool" where
  "attempt_chained L G opts rq pp key r cache1 w1 cache' w' \<longleftrightarrow>
     (\<exists>lg. stands_for L G w1 (pp_target pp) (sb_base_head r) lg \<and> sl_dedup lg key = None
        \<and> coherent_in L G w1 cache1 \<and> (\<forall>c. cache1 = Some c \<longrightarrow> lc_target c = pp_target pp \<and> lc_log c = lg)
        \<and> chain_commit G (sequence_ref (pp_target pp)) (sb_base_head r) (sl_sequencer_key lg)
             (submitted_commit L opts rq pp (sb_base_head r)) w1 = (Inr (Some (sb_commit r, sb_timestamp r)), w')
        \<and> cache' = map_option (cache_append key (submitted_event rq pp (sb_commit r) (sb_timestamp r))) cache1)"

lemma attempt_cases:
  assumes laws: "git_laws L G format" and ready: "ready L G rq format pp w" and coherent: "coherent_in L G w cache"
    and went: "submit_attempt L G opts rq pp key attempt cache w = (x, cache', w')"
  shows "keeps_objects G w w' \<and>
    (coherent_in L G w' cache' \<and> (\<forall>r. x = Inr (Some r) \<longrightarrow> sb_replay r)
     \<or> (\<exists>r cache1 w1. x = Inr (Some r) \<and> keeps_objects G w w1 \<and> attempt_chained L G opts rq pp key r cache1 w1 cache' w'))"
proof -
  have target: "pp_target pp \<noteq> []"
    using ready by (simp add: ready_def)
  obtain hl cache1 w1 where current: "current_log L G (pp_target pp) cache w = (hl, cache1, w1)"
    by (cases "current_log L G (pp_target pp) cache w")
  note log = current_log_stands [OF laws coherent target current]
  show ?thesis
  proof (cases hl)
    case (Inl e)
    then show ?thesis
      using went current log(1,2) by (auto simp: submit_attempt_def)
  next
    case (Inr hl')
    obtain head lg where hl: "hl = Inr (head, lg)"
      using Inr by (cases hl') simp
    note here = log(3) [OF hl]
    let ?cr = "submitted_commit L opts rq pp head"
    obtain y w2 where chain: "chain_commit G (sequence_ref (pp_target pp)) head (sl_sequencer_key lg) ?cr w1 = (y, w2)"
      by (cases "chain_commit G (sequence_ref (pp_target pp)) head (sl_sequencer_key lg) ?cr w1")
    obtain lg0 where "scan_head L G w1 (pp_target pp) head False = Inr lg0"
      using here by (auto simp: stands_for_def)
    then have kept: "keeps_objects G w1 w2"
      using chain_commit_ok(1) [OF laws chain] ready_message [OF ready] scan_head_named(2) by fastforce
    have step: "(case judge_attempt opts rq pp key attempt head lg w1 of
        Inl e \<Rightarrow> (Inl e, cache1, w1)
      | Inr (Some r) \<Rightarrow> (Inr (Some r), cache1, w1)
      | Inr None \<Rightarrow> (case y of
            Inl e \<Rightarrow> (Inl e, cache1, w2) | Inr None \<Rightarrow> (Inr None, cache1, w2)
          | Inr (Some (commit, ts)) \<Rightarrow> (Inr (Some (accepted_result attempt head commit ts)),
              map_option (cache_append key (submitted_event rq pp commit ts)) cache1, w2)))
      = (x, cache', w')"
      using went current hl chain
      by (auto simp: submit_attempt_def submitted_commit_def accepted_result_def split: sum.splits option.splits)
    show ?thesis
    proof (cases "judge_attempt opts rq pp key attempt head lg w1 = Inr None \<and> (\<exists>z. y = Inr (Some z))")
      case False
      have "cache' = cache1 \<and> (w' = w1 \<or> w' = w2) \<and> (\<forall>r. x = Inr (Some r) \<longrightarrow> sb_replay r)"
      proof (cases "judge_attempt opts rq pp key attempt head lg w1")
        case (Inr m)
        then show ?thesis
          using step False judge_attempt_decides(2) by (cases m) (auto split: sum.splits option.splits)
      qed (use step in auto)
      then show ?thesis
        using log(1,2) kept keeps_trans [OF log(1) kept] coherent_kept [OF laws kept] by auto
    next
      case True
      then obtain commit ts where y: "y = Inr (Some (commit, ts))" by auto
      let ?r = "accepted_result attempt head commit ts"
      have x: "x = Inr (Some ?r)" "w' = w2"
        and cache': "cache' = map_option (cache_append key (submitted_event rq pp commit ts)) cache1"
        using step True y by auto
      have free: "sl_dedup lg key = None"
        using judge_attempt_decides(1) [OF conjunct1 [OF True]] .
      have "attempt_chained L G opts rq pp key ?r cache1 w1 cache' w'"
        unfolding attempt_chained_def using here log(2) free chain y cache' x
        by (intro exI [of _ lg]) simp
      then show ?thesis
        using x log(1) keeps_trans [OF log(1) kept] by blast
    qed
  qed
qed

lemma accepted_attempt:
  assumes laws: "git_laws L G format" and bytes: "go_request L rq" and ready: "ready L G rq format pp w1"
    and key: "dedup_key L (rq_signed rq) = Inr key" and survives: "survives (in_rests_on (pp_intent pp))"
    and chained: "attempt_chained L G opts rq pp key r cache1 w1 cache' w'"
  shows "coherent_in L G w' cache' \<and> sequenced L G rq pp r w'"
proof
  obtain lg where here: "stands_for L G w1 (pp_target pp) (sb_base_head r) lg" and free: "sl_dedup lg key = None"
    and before: "coherent_in L G w1 cache1" "\<forall>c. cache1 = Some c \<longrightarrow> lc_target c = pp_target pp \<and> lc_log c = lg"
    and chain: "chain_commit G (sequence_ref (pp_target pp)) (sb_base_head r) (sl_sequencer_key lg)
        (submitted_commit L opts rq pp (sb_base_head r)) w1 = (Inr (Some (sb_commit r, sb_timestamp r)), w')"
    and cache': "cache' = map_option (cache_append key (submitted_event rq pp (sb_commit r) (sb_timestamp r))) cache1"
    using chained by (auto simp: attempt_chained_def)
  obtain full where full: "scan_head L G w' (pp_target pp) (sb_base_head r) False = Inr full"
    "without_events lg = without_events full"
    "scan_head L G w' (pp_target pp) (sb_commit r) False = Inr (extended L (sequenced_event rq pp r) full)"
    by (rule chained_submission [OF laws bytes ready key survives here free _ _ _ chain]) simp_all
  show "sequenced L G rq pp r w'"
    using full chain_commit_head [OF laws chain] by (auto simp: sequenced_def)
  show "coherent_in L G w' cache'"
  proof (intro allI impI)
    fix c'
    assume "cache' = Some c'"
    let ?e = "submitted_event rq pp (sb_commit r) (sb_timestamp r)"
    obtain c where c: "cache1 = Some c" "c' = cache_append key ?e c"
      using cache' \<open>cache' = Some c'\<close> by (cases cache1) auto
    have cached: "lc_target c = pp_target pp" "lc_log c = lg" "coherent_cache L G w1 c"
      using before c by auto
    have e: "event_without_payload ?e = sequenced_event rq pp r" "ev_commit ?e = sb_commit r" "retry_key L ?e = key"
      using key by (simp_all add: event_without_payload_def submitted_event_def sequenced_event_def retry_key_def)
    have "sl_events (lc_log c) = []"
      using cached ready by (auto simp: coherent_cache_def ready_def)
    then have "coherent_cache L G w' (cache_append (retry_key L ?e) ?e c)"
      using full cached by (intro cache_append_coherent [of L G w' c _ full]) (simp_all add: e)
    then show "coherent_cache L G w' c'"
      by (simp add: c e)
  qed
qed

section \<open>A whole submission\<close>

lemma submit_loop_cases:
  assumes laws: "git_laws L G format"
  shows "ready L G rq format pp w \<Longrightarrow> coherent_in L G w cache \<Longrightarrow>
      submit_loop L G opts rq pp key attempt left cache w = (x, cache', w') \<Longrightarrow>
      keeps_objects G w w' \<and>
      (coherent_in L G w' cache' \<and> (\<forall>r. x = Inr r \<longrightarrow> sb_replay r)
       \<or> (\<exists>r cache1 w1. x = Inr r \<and> keeps_objects G w w1 \<and> attempt_chained L G opts rq pp key r cache1 w1 cache' w'))"
proof (induction left arbitrary: attempt cache w)
  case 0
  then show ?case
    by (auto simp: keeps_objects_def)
next
  case (Suc left)
  obtain y cache1 w1 where attempt: "submit_attempt L G opts rq pp key attempt cache w = (y, cache1, w1)"
    by (cases "submit_attempt L G opts rq pp key attempt cache w")
  note one = attempt_cases [OF laws Suc.prems(1,2) attempt]
  show ?case
  proof (cases "y = Inr None")
    case True
    then have rest: "submit_loop L G opts rq pp key (attempt + 1) left cache1 w1 = (x, cache', w')"
      using Suc.prems(3) attempt by simp
    have kept: "keeps_objects G w w1" "coherent_in L G w1 cache1"
      using one True by auto
    have "ready L G rq format pp w1"
      by (rule ready_kept [OF laws kept(1) Suc.prems(1)])
    from Suc.IH [OF this kept(2) rest] show ?thesis
      using keeps_trans [OF kept(1)] by blast
  next
    case False
    then have "cache' = cache1 \<and> w' = w1 \<and> (\<forall>r. (x = Inr r) = (y = Inr (Some r)))"
      using Suc.prems(3) attempt by (auto split: sum.splits option.splits)
    then show ?thesis
      using one by auto
  qed
qed

text \<open>Every submission keeps the objects; one that is no replay is an attempt that chained.\<close>

lemma submit_cases:
  assumes laws: "git_laws L G format" and bytes: "go_request L rq" and coherent: "coherent_in L G w cache"
    and went: "submit L G rq opts cache w = (Inr r, cache', w')" "\<not> sb_replay r"
  obtains pp key cache1 w1 where "ready L G rq format pp w1" "dedup_key L (rq_signed rq) = Inr key"
    "attempt_chained L G opts rq pp key r cache1 w1 cache' w'" "ready L G rq format pp w'"
proof -
  obtain pp w1 where checked: "check_submission L G opts rq w = (Inr pp, w1)"
    using went(1) by (auto simp: submit_def split: prod.splits sum.splits)
  note ready = check_submission_ready [OF laws bytes checked]
  obtain key where key: "dedup_key L (rq_signed rq) = Inr key"
    using went(1) checked by (auto simp: submit_def split: sum.splits)
  have coherent1: "coherent_in L G w1 cache"
    using coherent coherent_kept [OF laws ready(1)] by blast
  have "submit_loop L G opts rq pp key 0 (nat (retry_limit (op_max_retries opts))) cache w1 = (Inr r, cache', w')"
    using went(1) checked key by (simp add: submit_def)
  from submit_loop_cases [OF laws ready(2) coherent1 this] went(2)
  obtain cache2 w2 where kept: "keeps_objects G w1 w'" "keeps_objects G w1 w2"
    and chained: "attempt_chained L G opts rq pp key r cache2 w2 cache' w'"
    by auto
  show thesis
    using that [OF ready_kept [OF laws kept(2) ready(2)] key chained ready_kept [OF laws kept(1) ready(2)]] .
qed

lemma submit_sequenced:
  assumes laws: "git_laws L G format" and bytes: "go_request L rq" and coherent: "coherent_in L G w cache"
    and verified: "verify_signed L (rq_signed rq) = Inr i" and survives: "survives (in_rests_on i)"
    and went: "submit L G rq opts cache w = (Inr r, cache', w')" "\<not> sb_replay r"
  obtains pp where "pp_intent pp = i" "ready L G rq format pp w'" "sequenced L G rq pp r w'"
    "coherent_in L G w' cache'"
proof -
  obtain pp key cache1 w1 where ready: "ready L G rq format pp w1" and key: "dedup_key L (rq_signed rq) = Inr key"
    and chained: "attempt_chained L G opts rq pp key r cache1 w1 cache' w'" and after_ready: "ready L G rq format pp w'"
    by (rule submit_cases [OF laws bytes coherent went])
  have i: "pp_intent pp = i"
    using ready verified by (simp add: ready_def)
  have "coherent_in L G w' cache' \<and> sequenced L G rq pp r w'"
    using accepted_attempt [OF laws bytes ready key _ chained] survives i by simp
  then show thesis
    using that i after_ready by blast
qed

text \<open>What an auditor finds at the head after it.\<close>

lemma sequenced_verifies:
  assumes laws: "git_laws L G format" and left: "sequenced L G rq pp r w"
  obtains log w' where "scan_head L G w (pp_target pp) (sb_base_head r) False = Inr log"
    "verify_log L G (pp_target pp) w = (Inr (extended L (sequenced_event rq pp r) log), w')"
proof -
  obtain log where log: "scan_head L G w (pp_target pp) (sb_base_head r) False = Inr log"
    "scan_head L G w (pp_target pp) (sb_commit r) False = Inr (extended L (sequenced_event rq pp r) log)"
    using left by (auto simp: sequenced_def)
  obtain w' where head: "gt_head G (sequence_ref (pp_target pp)) w = (Some (sb_commit r), w')"
    using left by (cases "gt_head G (sequence_ref (pp_target pp)) w") (auto simp: sequenced_def)
  have "keeps_objects G w w'"
    using laws objects_keptD(4) [OF _ head] by (simp add: git_laws_def)
  then have "scan_head L G w' (pp_target pp) (sb_commit r) False = Inr (extended L (sequenced_event rq pp r) log)"
    using log(2) by (rule scan_head_kept [OF laws])
  then show thesis
    using that log(1) head by (simp add: verify_log_def store_head_def)
qed

end
