(* ===== verification/KernelAfter.thy ===== *)
theory KernelAfter
  imports KernelSequence
begin

text \<open>
  What later submissions and scans see: an event the log holds is replayed and never sequenced again,
  a submission without contention does not run out of attempts, and the one accepted submission a
  scan can not read back.
\<close>

section \<open>A message that does not come back\<close>

lemma audits_loads:
  assumes "audits L G w format d genesis load key prior oids es key'" "oid \<in> set oids"
  shows "\<exists>c l. read_commit L G w format oid = Inr c \<and> load_commit L G w format d genesis c load = Inr l"
  using assms
proof (induction rule: audits.induct)
  case (audits_event key prior oid' c e oids es key')
  then show ?case
    by (cases "oid = oid'") (auto simp: sealed_commit_def)
next
  case (audits_rotation key prior oid' c successor oids es key')
  then show ?case
    by (cases "oid = oid'") (auto simp: sealed_commit_def)
qed simp

lemma scanned_commit_loads:
  assumes laws: "git_laws L G format" and scanned: "scan_head L G w genesis head load = Inr log"
    and listed: "gt_rev_list G head w = Some l" "oid \<in> set l"
    and c: "read_commit L G w format oid = Inr c" "cx_parents c \<noteq> []"
  shows "\<exists>d l. load_commit L G w format d genesis c load = Inr l"
proof -
  obtain rest d es key where list: "gt_rev_list G head w = Some (genesis # rest)" and genesis: "sound_genesis L G w genesis d"
    and chain: "audits L G w (gd_object_format d) d genesis load (gd_sequencer_key d) genesis rest es key"
    using scanned unfolding scan_decides audited_log_def by blast
  obtain d' where "descriptor L G w genesis = Inr d'" "gd_object_format d' = format"
    using scanned_descriptor [OF laws scanned] .
  moreover obtain c0 where c0: "read_commit L G w (gd_object_format d) genesis = Inr c0" "cx_parents c0 = []"
    "parse_genesis_message L (normalize_genesis_message (cx_message c0)) = Inr d"
    using genesis by (auto simp: sound_genesis_def sealed_commit_def)
  moreover have "descriptor L G w genesis = Inr d"
    using laws c0 by (auto simp: git_laws_def prints_objects_def shows_messages_def descriptor_def)
  ultimately have format: "gd_object_format d = format"
    by simp
  have "oid \<noteq> genesis"
    using c c0 by (auto simp: format)
  then have "oid \<in> set rest"
    using list listed by simp
  from audits_loads [OF chain this] show ?thesis
    using c(1) by (auto simp: format)
qed

lemma lost_reference:
  assumes laws: "git_laws L G format" and bytes: "go_request L rq" and coherent: "coherent_in L G w cache"
    and verified: "verify_signed L (rq_signed rq) = Inr i" and lost: "\<not> survives (in_rests_on i)"
    and went: "submit L G rq opts cache w = (Inr r, cache', w')" "\<not> sb_replay r"
    and target: "in_target i = typed_oid format target"
  shows "fst (gt_head G (sequence_ref target) w') = Some (sb_commit r)"
    and "keeps_objects G w' v \<Longrightarrow> gt_rev_list G head v = Some l \<Longrightarrow> sb_commit r \<in> set l
      \<Longrightarrow> scan_head L G v target head load \<noteq> Inr log"
proof -
  obtain pp key cache1 w1 where ready: "ready L G rq format pp w1"
    and chained: "attempt_chained L G opts rq pp key r cache1 w1 cache' w'"
    by (rule submit_cases [OF laws bytes coherent went])
  have pp: "pp_intent pp = i" "pp_target pp = target" "pp_message pp = envelope (rq_signed rq) (in_rests_on i)"
    using ready verified target by (auto simp: ready_def typed_oid_def)
  obtain lg where here: "stands_for L G w1 (pp_target pp) (sb_base_head r) lg"
    and chain: "chain_commit G (sequence_ref (pp_target pp)) (sb_base_head r) (sl_sequencer_key lg)
        (submitted_commit L opts rq pp (sb_base_head r)) w1 = (Inr (Some (sb_commit r, sb_timestamp r)), w')"
    using chained by (auto simp: attempt_chained_def)
  obtain full where "scan_head L G w1 (pp_target pp) (sb_base_head r) False = Inr full"
    using here by (auto simp: stands_for_def)
  note base = scan_head_named(2) [OF this]
  obtain c where c: "read_commit L G w' format (sb_commit r) = Inr c" "cx_parents c = [sb_base_head r]"
    "cx_message c = pp_message pp"
    using chain_commit_ok(2) [OF laws chain] base ready_message [OF ready] by auto
  show "fst (gt_head G (sequence_ref target) w') = Some (sb_commit r)"
    using chain_commit_head [OF laws chain] pp(2) by simp
  assume kept: "keeps_objects G w' v" and listed: "gt_rev_list G head v = Some l" "sb_commit r \<in> set l"
  show "scan_head L G v target head load \<noteq> Inr log"
  proof
    assume "scan_head L G v target head load = Inr log"
    then obtain d l' where "load_commit L G v format d target c load = Inr l'"
      using scanned_commit_loads [OF laws _ listed read_commit_kept [OF kept c(1)]] c(2) by fastforce
    moreover have "load_commit L G v format d target c load \<noteq> Inr l'"
      by (rule load_envelope_refused [OF verified lost]) (simp add: c(3) pp(3))
    ultimately show False by contradiction
  qed
qed

text \<open>Verification from the reference, where it still names the commit.\<close>

lemma unscannable_unverified:
  assumes laws: "git_laws L G format" and head: "fst (gt_head G (sequence_ref target) w) = Some oid"
    and never: "\<And>v l load log. keeps_objects G w v \<Longrightarrow> gt_rev_list G oid v = Some l \<Longrightarrow> oid \<in> set l
      \<Longrightarrow> scan_head L G v target oid load \<noteq> Inr log"
  shows "fst (verify_log L G target w) \<noteq> Inr log"
proof
  obtain v where v: "gt_head G (sequence_ref target) w = (Some oid, v)"
    using head by (cases "gt_head G (sequence_ref target) w") auto
  assume "fst (verify_log L G target w) = Inr log"
  then have scanned: "scan_head L G v target oid False = Inr log"
    using v by (auto simp: verify_log_def store_head_def)
  then obtain rest where "gt_rev_list G oid v = Some (target # rest)" "last (target # rest) = oid"
    by (auto simp: scan_decides audited_log_def)
  moreover from this have "oid \<in> set (target # rest)"
    by (metis last_in_set list.discI)
  moreover have "keeps_objects G w v"
    using laws objects_keptD(4) [OF _ v] by (simp add: git_laws_def)
  ultimately show False
    using never scanned by blast
qed

section \<open>Replays\<close>

lemma indexed_event:
  assumes "distinct (map (retry_key L) es)" "e \<in> set es"
  shows "retry_index L es (retry_key L e) = Some (event_without_payload e)"
  using assms unfolding retry_index_def
  by (intro map_of_is_SomeI) (auto simp: comp_def image_iff)

lemma held_event_found:
  assumes "scan_head L G w genesis head load = Inr log" "e \<in> set (sl_events log)"
  shows "sl_dedup log (retry_key L e) = Some (event_without_payload e)"
  using assms indexed_event by (auto simp: scan_decides audited_log_def log_of_def)

lemma held_event_replayed:
  assumes scanned: "scan_head L G w genesis head load = Inr log" and held: "e \<in> set (sl_events log)"
    and key: "dedup_key L (rq_signed rq) = Inr key" "key = retry_key L e"
  shows "judge_attempt opts rq pp key attempt head log w' =
    (if ev_signed e = rq_signed rq
     then Inr (Some \<lparr>sb_commit = ev_commit e, sb_head = ev_commit e, sb_replay = True,
            sb_cas_retries = attempt, sb_base_head = head, sb_timestamp = ev_timestamp e\<rparr>)
     else Inl IdempotencyConflict)"
proof -
  have "sl_dedup log key = Some (event_without_payload e)"
    using held_event_found [OF scanned held] key(2) by simp
  moreover have "signed_equal s t \<longleftrightarrow> s = t" for s t
    by (cases s; cases t) (auto simp: signed_equal_def)
  ultimately show ?thesis
    by (simp add: judge_attempt_def dedup_prior_def event_without_payload_def)
qed

end
