(* ===== verification/KernelMachine.thy ===== *)
theory KernelMachine
  imports KernelSequence Machines
begin

text \<open>
  The resident submitter as a machine: a state is the submitter with the repository as it stands, an
  input is a request. Through every run the cache stands for its log, and what verified once verifies
  again with the same log.
\<close>

section \<open>Every outcome of a submission\<close>

lemma write_blobs_keeps:
  assumes "objects_kept G"
  shows "write_blobs G files out w = (r, w') \<Longrightarrow> keeps_objects G w w'"
proof (induction files arbitrary: out w)
  case (Cons nc files)
  obtain name content where nc: "nc = (name, content)"
    by (cases nc)
  obtain oid w1 where one: "gt_hash_object G content w = (oid, w1)"
    by (cases "gt_hash_object G content w")
  note kept = objects_keptD(1) [OF assms one]
  show ?case
    using Cons.prems one kept Cons.IH keeps_trans [OF kept] by (cases oid) (auto simp: nc)
qed (simp add: keeps_refl)

lemma write_payload_tree_keeps:
  assumes laws: "objects_kept G" and written: "write_payload_tree G event files w = (r, w')"
  shows "keeps_objects G w w'"
proof -
  obtain oid w1 where one: "gt_hash_object G event w = (oid, w1)"
    by (cases "gt_hash_object G event w")
  note kept = objects_keptD(1) [OF laws one]
  note tree = objects_keptD(2) [OF laws]
  note step = keeps_trans [OF kept]
  have "keeps_objects G w1 w'" if "oid = Some o'" for o'
  proof (cases "files = [] \<or> (\<exists>nc. List.find (\<lambda>(n, c). \<not> attachment_name n) files = Some nc)")
    case True
    then show ?thesis
      using written one that keeps_refl
      by (auto simp: write_payload_tree_def Let_def dest: tree split: option.splits prod.splits if_splits)
  next
    case False
    have named: "files \<noteq> []" "List.find (\<lambda>(n, c). \<not> attachment_name n) files = None"
      by (use False in blast) (use False in \<open>cases "List.find (\<lambda>(n, c). \<not> attachment_name n) files"; blast\<close>)
    obtain nested w2 where blobs: "write_blobs G (sorted_attachments files) [] w1 = (nested, w2)"
      by (cases "write_blobs G (sorted_attachments files) [] w1")
    note kept2 = write_blobs_keeps [OF laws blobs]
    show ?thesis
    proof (cases nested)
      case (Inl e)
      then show ?thesis
        using written one that named blobs kept2 by (simp add: write_payload_tree_def)
    next
      case (Inr listing)
      obtain sub w3 where sub: "gt_mktree G listing w2 = (sub, w3)"
        by (cases "gt_mktree G listing w2")
      note kept3 = keeps_trans [OF kept2 tree [OF sub]]
      show ?thesis
        using written one that named blobs Inr sub kept3
        by (auto simp: write_payload_tree_def dest: keeps_trans [OF kept3 tree] split: option.splits prod.splits)
    qed
  qed
  then show ?thesis
    using written one kept step by (cases oid) (auto simp: write_payload_tree_def)
qed

lemma check_submission_keeps:
  assumes laws: "objects_kept G" and checked: "check_submission L G opts rq w = (r, w')"
  shows "keeps_objects G w w'"
proof -
  have "keeps_objects G w w' \<or> (\<exists>target h w1. gt_head G (sequence_ref target) w = (h, w1)
      \<and> (w' = w1 \<or> (\<exists>x. write_payload_tree G (rq_payload rq) (rq_attachments rq) w1 = (x, w'))))"
    using checked keeps_refl unfolding check_submission_def store_head_def
    by (auto simp: Let_def split: sum.splits prod.splits if_splits)
  then show ?thesis
    using objects_keptD(4) [OF laws] write_payload_tree_keeps [OF laws] keeps_trans by metis
qed

lemma submit_outcome:
  assumes laws: "git_laws L G format" and bytes: "go_request L rq" and coherent: "coherent_in L G w cache"
    and survives: "\<And>i. verify_signed L (rq_signed rq) = Inr i \<Longrightarrow> survives (in_rests_on i)"
    and went: "submit L G rq opts cache w = (x, cache', w')"
  shows "keeps_objects G w w' \<and> coherent_in L G w' cache'"
proof -
  have objects: "objects_kept G"
    using laws by (simp add: git_laws_def)
  obtain y w1 where checked: "check_submission L G opts rq w = (y, w1)"
    by (cases "check_submission L G opts rq w")
  have kept: "keeps_objects G w w1"
    by (rule check_submission_keeps [OF objects checked])
  have coherent1: "coherent_in L G w1 cache"
    using coherent coherent_kept [OF laws kept] by blast
  show ?thesis
  proof (cases "\<exists>pp key. y = Inr pp \<and> dedup_key L (rq_signed rq) = Inr key")
    case False
    then have "cache' = cache" "w' = w1"
      using went checked by (auto simp: submit_def split: sum.splits)
    then show ?thesis
      using kept coherent1 by simp
  next
    case True
    then obtain pp key where y: "y = Inr pp" and key: "dedup_key L (rq_signed rq) = Inr key"
      by blast
    have ready: "ready L G rq format pp w1"
      using check_submission_ready(2) [OF laws bytes] checked y by blast
    have loop: "submit_loop L G opts rq pp key 0 (nat (retry_limit (op_max_retries opts))) cache w1 = (x, cache', w')"
      using went checked y key by (simp add: submit_def)
    note cases = submit_loop_cases [OF laws ready coherent1 loop]
    have "coherent_in L G w' cache'"
    proof (cases "coherent_in L G w' cache'")
      case False
      then obtain r cache2 w2 where kept2: "keeps_objects G w1 w2"
        and chained: "attempt_chained L G opts rq pp key r cache2 w2 cache' w'"
        using cases by blast
      have ready2: "ready L G rq format pp w2"
        by (rule ready_kept [OF laws kept2 ready])
      have "survives (in_rests_on (pp_intent pp))"
        using survives ready by (simp add: ready_def)
      then show ?thesis
        using accepted_attempt [OF laws bytes ready2 key _ chained] by blast
    qed
    then show ?thesis
      using cases keeps_trans [OF kept] by blast
  qed
qed

section \<open>The machine\<close>

definition resident_step ::
  "('l) kernel_lib_scheme \<Rightarrow> 'w git \<Rightarrow> submitter \<times> 'w \<Rightarrow> request \<times> 'w options \<Rightarrow> (submitter \<times> 'w) option" where
  "resident_step L G s e =
     (case locked_submit L G (snd e) (fst e) (fst s) (snd s) of (_, sm, w) \<Rightarrow> Some (sm, w))"

definition resident_inv ::
  "('l) kernel_lib_scheme \<Rightarrow> 'w git \<Rightarrow> string \<Rightarrow> submitter \<times> 'w \<Rightarrow> bool" where
  "resident_inv L G format s \<longleftrightarrow> git_laws L G format \<and> coherent_cache L G (snd s) (sm_cache (fst s))"

definition resident_fits :: "('l) kernel_lib_scheme \<Rightarrow> request \<times> 'w options \<Rightarrow> bool" where
  "resident_fits L e \<longleftrightarrow> go_request L (fst e)
     \<and> (\<forall>i. verify_signed L (rq_signed (fst e)) = Inr i \<longrightarrow> survives (in_rests_on i))"

text \<open>What verified before verifies after, as the same log.\<close>

definition history_kept ::
  "('l) kernel_lib_scheme \<Rightarrow> 'w git \<Rightarrow> string \<Rightarrow> submitter \<times> 'w \<Rightarrow> submitter \<times> 'w \<Rightarrow> bool" where
  "history_kept L G format s s' \<longleftrightarrow>
     (\<forall>genesis head load log. scan_head L G (snd s) genesis head load = Inr log
        \<longrightarrow> scan_head L G (snd s') genesis head load = Inr log)"

lemma resident_step_keeps:
  assumes "resident_inv L G format s" "resident_fits L e" "resident_step L G s e = Some s'"
  shows "keeps_objects G (snd s) (snd s') \<and> coherent_cache L G (snd s') (sm_cache (fst s'))"
proof -
  obtain x cache' w' where went: "submit L G (fst e) (snd e) (Some (sm_cache (fst s))) (snd s) = (x, cache', w')"
    by (cases "submit L G (fst e) (snd e) (Some (sm_cache (fst s))) (snd s)")
  have laws: "git_laws L G format" and bytes: "go_request L (fst e)"
    using assms(1,2) by (simp_all add: resident_inv_def resident_fits_def)
  have outcome: "keeps_objects G (snd s) w' \<and> coherent_in L G w' cache'"
    by (rule submit_outcome [OF laws bytes _ _ went]) (use assms(1,2) in \<open>auto simp: resident_inv_def resident_fits_def\<close>)
  have before: "coherent_cache L G (snd s) (sm_cache (fst s))"
    using assms(1) by (simp add: resident_inv_def)
  show ?thesis
  proof (cases cache')
    case (Some c)
    then show ?thesis
      using outcome went assms(3) by (auto simp: resident_step_def locked_submit_def)
  next
    case None
    then show ?thesis
      using outcome went assms(3) coherent_kept [OF laws _ before] by (auto simp: resident_step_def locked_submit_def)
  qed
qed

interpretation resident: tracking_machine "resident_step L G" "resident_inv L G format" "resident_fits L"
    "history_kept L G format" for L :: "('l) kernel_lib_scheme" and G format
proof
  show "resident_inv L G format s'"
    if "resident_inv L G format s" "resident_fits L e" "resident_step L G s e = Some s'" for s e s'
    using resident_step_keeps [OF that] that(1) by (simp add: resident_inv_def)
  show "history_kept L G format s s'"
    if "resident_inv L G format s" "resident_fits L e" "resident_step L G s e = Some s'" for s e s'
  proof -
    have "git_laws L G format" "keeps_objects G (snd s) (snd s')"
      using resident_step_keeps [OF that] that(1) by (auto simp: resident_inv_def)
    then show ?thesis
      unfolding history_kept_def by (intro allI impI) (rule scan_head_kept)
  qed
qed (auto simp: history_kept_def)

interpretation resident_returns: total_machine "resident_step L G" "resident_inv L G format" "resident_fits L"
  for L :: "('l) kernel_lib_scheme" and G format
  by unfold_locales (simp add: resident_step_def split: prod.splits)

end
