(* ===== verification/KernelReading.thy ===== *)
theory KernelReading
  imports KernelAfter KernelMachine
begin

text \<open>
  What readers of the log rest on: the shape of every log a scan returns, the answer of a resident
  cache about a replay, and the decision of a submission that loses fewer
  races than it may retry.
\<close>

section \<open>Every scanned log is well formed\<close>

lemma audits_events_loaded:
  assumes "audits L G w format d genesis load key prior oids es key'"
  shows "length es \<le> length oids"
    "\<forall>e\<in>set es. \<exists>c :: audited_commit. load_commit L G w format d genesis c load = Inr (LoadedEvent e)"
  using assms by (induction rule: audits.induct) auto

definition well_formed_log :: "('l) kernel_lib_scheme \<Rightarrow> scanned_log \<Rightarrow> bool" where
  "well_formed_log L log \<longleftrightarrow>
     sl_count log = length (sl_events log) \<and> sl_count log \<le> sl_depth log
     \<and> (\<forall>e\<in>set (sl_events log). verify_signed L (ev_signed e) = Inr (ev_intent e)
          \<and> (\<exists>format. in_target (ev_intent e) = typed_oid format (sl_genesis log))
          \<and> ev_payload_tree e = in_payload_tree (ev_intent e) \<and> ev_commit e \<in> sl_positions log)
     \<and> distinct (map (retry_key L) (sl_events log))
     \<and> sl_dedup log = map_of (map (\<lambda>e. (retry_key L e, event_without_payload e)) (sl_events log))
     \<and> sl_genesis log \<in> sl_positions log"

lemma scanned_well_formed:
  assumes "scan_head L G w genesis head load = Inr log"
  shows "well_formed_log L log"
proof -
  obtain rest d es key where
    chain: "audits L G w (gd_object_format d) d genesis load (gd_sequencer_key d) genesis rest es key"
    and distinct: "distinct (map (retry_key L) es)" and log: "log = log_of L genesis head (length rest) es key"
    using assms by (auto simp: scan_decides audited_log_def)
  note loaded = audits_events_loaded [OF chain]
  have "verify_signed L (ev_signed e) = Inr (ev_intent e)
      \<and> (\<exists>format. in_target (ev_intent e) = typed_oid format genesis)
      \<and> ev_payload_tree e = in_payload_tree (ev_intent e)" if "e \<in> set es" for e
  proof -
    obtain c where c: "load_commit L G w (gd_object_format d) d genesis (c :: audited_commit) load = Inr (LoadedEvent e)"
      using loaded(2) \<open>e \<in> set es\<close> by blast
    show ?thesis
      using load_commit_event(1,3,4) [OF c] by blast
  qed
  then show ?thesis
    using loaded(1) distinct by (auto simp: well_formed_log_def log log_of_def retry_index_def)
qed

section \<open>Replays answered by a cache\<close>

lemma cached_replay:
  assumes laws: "git_laws L G format" and coherent: "coherent_cache L G w c"
    and head: "gt_head G (sequence_ref target) w = (Some head, w')"
    and target: "verify_signed L (rq_signed rq) = Inr i" "in_target i = typed_oid format target"
      "parse_typed_oid (in_target i) = Inr (format, target)"
    and answer: "replay_at L c head rq = Some x"
  shows "check_replay L G rq w = (x, w')"
proof -
  have stands: "lc_target c = target" "lc_head c = head" "target \<noteq> []"
    using answer target typed_oid_parsed(2) [OF target(3)]
    by (auto simp: replay_at_def stands_at_def dedup_key_def split: if_splits)
  have kept: "keeps_objects G w w'"
    using laws objects_keptD(4) [OF _ head] by (simp add: git_laws_def)
  have "stands_for L G w target head (lc_log c)"
    using coherent stands by (auto simp: coherent_cache_def)
  then obtain full where full: "scan_head L G w target head False = Inr full"
    and same: "without_events (lc_log c) = without_events full"
    by (auto simp: stands_for_def)
  have "sl_dedup full = sl_dedup (lc_log c)"
    using arg_cong [OF same, of sl_dedup] by (simp add: without_events_def)
  moreover have "scan_head L G w' target head False = Inr full"
    by (rule scan_head_kept [OF laws kept full])
  moreover have "gt_format G w = Some format"
    using laws by (simp add: git_laws_def one_format_def)
  ultimately show ?thesis
    using answer target head stands
    by (auto simp: check_replay_def replay_at_def target_of_def store_head_def dedup_key_def split: if_splits)
qed

section \<open>Contention\<close>

text \<open>
  \<open>rivals\<close> bounds the moves of references that other writers still have to make. While a command of this
  process runs that moves no reference itself, a reference changes only by such a move, which
  uses one up. That holds of a failed compare-and-swap too, whatever it was given.
\<close>

definition quiet :: "'w git \<Rightarrow> ('w \<Rightarrow> nat) \<Rightarrow> 'w \<Rightarrow> 'w \<Rightarrow> bool" where
  "quiet G rivals w w' \<longleftrightarrow> rivals w' \<le> rivals w
     \<and> (rivals w' = rivals w \<longrightarrow> (\<forall>ref. fst (gt_head G ref w') = fst (gt_head G ref w)))"

definition contended :: "'w git \<Rightarrow> ('w \<Rightarrow> nat) \<Rightarrow> bool" where
  "contended G rivals \<longleftrightarrow>
     (\<forall>ref w. quiet G rivals w (snd (gt_head G ref w)))
     \<and> (\<forall>cr w. quiet G rivals w (snd (gt_commit G cr w)))
     \<and> (\<forall>ref new old w w'. gt_update_ref G ref new old w = (False, w') \<longrightarrow> quiet G rivals w w')"

lemma contendedD:
  assumes "contended G rivals"
  shows "gt_head G ref w = (h, w') \<Longrightarrow> quiet G rivals w w'"
    "gt_commit G cr w = (x, w') \<Longrightarrow> quiet G rivals w w'"
    "gt_update_ref G ref new old w = (False, w') \<Longrightarrow> quiet G rivals w w'"
  using assms unfolding contended_def by (metis snd_conv)+

lemma quiet_trans: "quiet G rivals u v \<Longrightarrow> quiet G rivals v w \<Longrightarrow> quiet G rivals u w"
  unfolding quiet_def by (metis le_antisym le_trans)

text \<open>A lost race: the reference no longer names the head the attempt began with.\<close>

lemma lost_race:
  assumes "contended G rivals" and began: "gt_head G ref w = (Some head, w1)"
    and lost: "chain_commit G ref head key cr w1 = (Inr None, w')"
  shows "rivals w' < rivals w"
proof -
  obtain commit ts w2 w3 current where steps: "gt_commit G cr w1 = (Some (commit, ts), w2)"
    "gt_update_ref G ref commit head w2 = (False, w3)" and now: "gt_head G ref w3 = (Some current, w')"
    and moved: "current \<noteq> head"
    using lost unfolding chain_commit_def store_head_def
    by (auto split: prod.splits option.splits sum.splits bool.splits if_splits)
  note calm = contendedD [OF assms(1)]
  have until: "quiet G rivals w w3"
    by (rule quiet_trans [OF quiet_trans [OF calm(1) [OF began] calm(2) [OF steps(1)]] calm(3) [OF steps(2)]])
  have "rivals w3 \<noteq> rivals w"
  proof
    assume "rivals w3 = rivals w"
    then have "fst (gt_head G ref w3) = fst (gt_head G ref w)"
      using until by (simp add: quiet_def)
    then show False
      using began now moved by simp
  qed
  moreover have "rivals w3 \<le> rivals w" "rivals w' \<le> rivals w3"
    using until calm(1) [OF now] by (simp_all add: quiet_def)
  ultimately show ?thesis
    by linarith
qed

lemma current_log_head:
  assumes laws: "git_laws L G format" and coherent: "coherent_in L G w cache" and target: "target \<noteq> []"
    and went: "current_log L G target cache w = (Inr (head, log), cache', w')"
  shows "gt_head G (sequence_ref target) w = (Some head, w')"
proof (cases cache)
  case None
  then show ?thesis
    using went by (auto simp: current_log_def store_head_def and_then_Inr of_option_def
        split: prod.splits sum.splits option.splits)
next
  case (Some c)
  then obtain a u c' where a: "advance L G target False None () c w = (Inr (a, u), c', w')" and head: "head = ca_head a"
    using went by (auto simp: current_log_def split: prod.splits sum.splits)
  have "coherent_cache L G w c"
    using coherent Some by simp
  from advance_stands(3) [OF laws this target a] have "fst (gt_head G (sequence_ref target) w) = Some head"
    using head by auto
  moreover have "snd (gt_head G (sequence_ref target) w) = w'"
    using a by (auto simp: advance_def store_head_def of_option_def
        split: prod.splits option.splits sum.splits if_splits)
  ultimately show ?thesis
    by (metis prod.collapse)
qed

definition submittable :: "prepared \<Rightarrow> bool" where
  "submittable pp \<longleftrightarrow> pp_target pp \<noteq> [] \<and> pp_message pp \<noteq> [] \<and> last (pp_message pp) = newline"

lemma checked_submittable:
  assumes "check_submission L G opts rq w = (Inr pp, w')"
  shows "submittable pp"
proof -
  obtain "parse_typed_oid (in_target (pp_intent pp)) = Inr (pp_format pp, pp_target pp)"
    "pp_message pp = envelope (rq_signed rq) (in_rests_on (pp_intent pp))"
    using assms by (rule check_submission_steps)
  then show ?thesis
    using typed_oid_parsed(2) by (auto simp: submittable_def envelope_def)
qed

lemma attempt_lost:
  assumes laws: "git_laws L G format" and rivals: "contended G rivals" and coherent: "coherent_in L G w cache"
    and pp: "submittable pp"
    and went: "submit_attempt L G opts rq pp key attempt cache w = (Inr None, cache', w')"
  shows "rivals w' < rivals w \<and> coherent_in L G w' cache'"
proof -
  obtain head log w1 where
    now: "current_log L G (pp_target pp) cache w = (Inr (head, log), cache', w1)"
    and lost: "chain_commit G (sequence_ref (pp_target pp)) head (sl_sequencer_key log)
      (submitted_commit L opts rq pp head) w1 = (Inr None, w')"
    using went unfolding submit_attempt_def submitted_commit_def
    by (auto split: sum.splits option.splits prod.splits)
  have target: "pp_target pp \<noteq> []" and message: "pp_message pp \<noteq> []" "last (pp_message pp) = newline"
    using pp by (simp_all add: submittable_def)
  note stands = current_log_stands [OF laws coherent target now]
  obtain full where "scan_head L G w1 (pp_target pp) head False = Inr full"
    using stands(3) by (auto simp: stands_for_def)
  note named = scan_head_named(2) [OF this]
  have "keeps_objects G w1 w'"
    using chain_commit_ok(1) [OF laws lost] named message by (simp add: submitted_commit_def)
  then have "coherent_in L G w' cache'"
    using stands(2) coherent_kept [OF laws] by blast
  then show ?thesis
    using lost_race [OF rivals current_log_head [OF laws coherent target now] lost] by blast
qed

lemma loop_decided:
  assumes laws: "git_laws L G format" and rivals: "contended G rivals" and pp: "submittable pp"
  shows "coherent_in L G w cache \<Longrightarrow> rivals w < left \<Longrightarrow>
    \<exists>k c v x c' w'. submit_attempt L G opts rq pp key k c v = (x, c', w') \<and> x \<noteq> Inr None
    \<and> k < attempt + left \<and> submit_loop L G opts rq pp key attempt left cache w = (map_sum (\<lambda>e. e) the x, c', w')"
proof (induction left arbitrary: attempt cache w)
  case (Suc left)
  obtain x c' w' where x: "submit_attempt L G opts rq pp key attempt cache w = (x, c', w')"
    by (cases "submit_attempt L G opts rq pp key attempt cache w")
  show ?case
  proof (cases "x = Inr None")
    case True
    then have "coherent_in L G w' c'" "rivals w' < left"
      using attempt_lost [OF laws rivals Suc.prems(1) pp] x Suc.prems(2) by fastforce+
    from Suc.IH [OF this, of "attempt + 1"] show ?thesis
      using x True by auto
  next
    case False
    then have "submit_loop L G opts rq pp key attempt (Suc left) cache w = (map_sum (\<lambda>e. e) the x, c', w')"
      using x by (auto split: sum.splits option.splits)
    then show ?thesis
      using x False
      by - (rule exI [of _ attempt], rule exI [of _ cache], rule exI [of _ w], rule exI [of _ x],
        rule exI [of _ c'], rule exI [of _ w'], simp)
  qed
qed simp

end
