(* ===== verification/KernelFounding.thy ===== *)
theory KernelFounding
  imports KernelSequence
begin

text \<open>
  The founding of a log and the rotation of its sequencer key: the two messages are read back, a new
  log verifies as the empty log, and a rotation leaves a log that verifies under the new key.
\<close>

section \<open>Messages that carry a descriptor\<close>

text \<open>
  The documented behaviour of the deterministic CBOR encoding: no value is empty, the decoder inverts
  the encoder where every text field is valid UTF-8, and it refuses a text that is not. The encoder
  does not look.
\<close>

definition text_descriptor :: "genesis_descriptor \<Rightarrow> bool" where
  "text_descriptor d \<longleftrightarrow> utf8_valid (gd_object_format d) \<and> utf8_valid (gd_sequencer_key d)
     \<and> utf8_valid (gd_predecessor d) \<and> utf8_valid (gd_sealed_head d)"

definition canonical_cbor :: "('l) kernel_lib_scheme \<Rightarrow> bool" where
  "canonical_cbor L \<longleftrightarrow>
     (\<forall>d b. kl_genesis L d = Some b \<longrightarrow> b \<noteq> []
        \<and> kl_read_genesis L b = (if text_descriptor d then Some d else None))
     \<and> (\<forall>r b. kl_rotation L r = Some b \<longrightarrow> b \<noteq> []
        \<and> kl_read_rotation L b = (if utf8_valid (rd_sequencer_key r) then Some r else None))"

lemma valid_key_text:
  assumes "valid_ssh_public_key k"
  shows "utf8_valid k"
proof -
  obtain raw where k: "k = ''ssh-ed25519 '' @ b64_std_encode raw"
    using assms parse_ssh_public_key_ok(2) by (fastforce simp: valid_ssh_public_key_def split: sum.splits)
  have "byte_val c < 128" if "c \<in> set (b64_std_encode raw)" for c
    using that b64_groups_printable [of c False raw] by (auto simp: b64_std_encode_def split: if_splits)
  then show ?thesis
    by (intro utf8_valid_ascii) (simp add: k list_all_iff)
qed

text \<open>\<open>validateGenesisDescriptor\<close> leaves two text fields unread.\<close>

definition continues_text :: "genesis_descriptor \<Rightarrow> bool" where
  "continues_text d \<longleftrightarrow> utf8_valid (gd_predecessor d) \<and> utf8_valid (gd_sealed_head d)"

lemma valid_genesis_text: "validate_genesis d = None \<Longrightarrow> text_descriptor d \<longleftrightarrow> continues_text d"
  by (auto simp: validate_genesis_def text_descriptor_def continues_text_def valid_key_text split: if_splits)

definition descriptor_line :: "bytes \<Rightarrow> string" where
  "descriptor_line b = ''Descriptor: '' @ b64_encode b"

lemma descriptor_message_trimmed:
  assumes "marker = CHR ''g'' # rest" "b \<noteq> []"
  shows "trim_space (descriptor_message marker b) = marker @ newline # descriptor_line b"
    "normalize_genesis_message (descriptor_message marker b) = descriptor_message marker b"
    "normalize_event_message (descriptor_message marker b) = descriptor_message marker b"
proof -
  let ?s = "marker @ newline # descriptor_line b"
  have s: "descriptor_message marker b = ?s @ [newline]"
    by (simp add: descriptor_message_def descriptor_line_def)
  have ends: "32 < byte_val (last ?s)" "byte_val (last ?s) < 128"
    using last_b64 [OF assms(2), of "marker @ newline # ''Descriptor: ''"] by (simp_all add: descriptor_line_def)
  show trim: "trim_space (descriptor_message marker b) = ?s"
    unfolding s using ends by (intro trim_space_line) (simp_all add: assms(1))
  then show "normalize_genesis_message (descriptor_message marker b) = descriptor_message marker b"
    by (simp add: normalize_genesis_message_def s)
  have "trim_right (?s @ [newline]) = ?s"
    using ends by (subst trim_right_newline, intro trim_right_printable) (simp_all add: assms(1))
  then show "normalize_event_message (descriptor_message marker b) = descriptor_message marker b"
    by (simp add: normalize_event_message_def s)
qed

lemma descriptor_lines:
  assumes "newline \<notin> set marker"
  shows "split_char newline (marker @ newline # descriptor_line b) = [marker, descriptor_line b]"
proof -
  have "newline \<notin> set (descriptor_line b)"
    using b64_no_newline by (simp add: descriptor_line_def)
  then show ?thesis
    using assms by (simp add: split_char_Cons split_char_end)
qed

lemma descriptor_field:
  "has_prefix ''Descriptor: '' (descriptor_line b)"
  "b64_decode (trim_prefix ''Descriptor: '' (descriptor_line b)) = Some b"
  by (simp_all add: descriptor_line_def trim_prefix_def)

lemma genesis_message_read:
  assumes "canonical_cbor L" "genesis_message L d = Inr message"
  shows "parse_genesis_message L message = (if continues_text d then Inr d else Inl DescriptorNotDecodable)"
    "normalize_genesis_message message = message"
proof -
  obtain b where b: "kl_genesis L d = Some b" "validate_genesis d = None" "message = descriptor_message genesis_marker b"
    using assms(2) by (auto simp: genesis_message_def encode_genesis_def and_then_Inr split: option.splits)
  have read: "b \<noteq> []" "kl_read_genesis L b = (if continues_text d then Some d else None)"
    using assms(1) b(1) unfolding valid_genesis_text [OF b(2), symmetric] canonical_cbor_def by blast+
  have marker: "genesis_marker = CHR ''g'' # ''itseq-genesis-v0''" "newline \<notin> set genesis_marker"
    by (simp_all add: genesis_marker_def)
  note trimmed = descriptor_message_trimmed [OF marker(1) read(1)]
  show "parse_genesis_message L message = (if continues_text d then Inr d else Inl DescriptorNotDecodable)"
    unfolding parse_genesis_message_def b(3) trimmed(1) descriptor_lines [OF marker(2)]
    by (simp add: descriptor_field decode_genesis_def read(2) b(1,2))
  show "normalize_genesis_message message = message"
    unfolding b(3) by (rule trimmed(2))
qed

lemma rotation_round_trip:
  assumes "canonical_cbor L" "rotation_message L key = Inr message"
  shows "parse_rotation_message L message = Inr (Some key)" "normalize_event_message message = message"
    "message \<noteq> []" "last message = newline"
proof -
  obtain b where b: "kl_rotation L \<lparr>rd_version = 0, rd_sequencer_key = key\<rparr> = Some b" "valid_ssh_public_key key"
    "message = descriptor_message rotation_marker b"
    using assms(2) by (auto simp: rotation_message_def and_then_Inr split: if_splits)
  have read: "b \<noteq> []" "kl_read_rotation L b = Some \<lparr>rd_version = 0, rd_sequencer_key = key\<rparr>"
    using assms(1) b(1) valid_key_text [OF b(2)] by (auto simp: canonical_cbor_def)
  have marker: "rotation_marker = CHR ''g'' # ''itseq-rotation-v0''" "newline \<notin> set rotation_marker"
    by (simp_all add: rotation_marker_def)
  note trimmed = descriptor_message_trimmed [OF marker(1) read(1)]
  show "parse_rotation_message L message = Inr (Some key)"
    unfolding parse_rotation_message_def b(3) trimmed(1) descriptor_lines [OF marker(2)]
    by (simp add: descriptor_field read b)
  show "normalize_event_message message = message"
    unfolding b(3) by (rule trimmed(3))
  show "message \<noteq> []" "last message = newline"
    by (simp_all add: b(3) descriptor_message_def)
qed

section \<open>Founding\<close>

lemma stored_empty_tree:
  assumes laws: "git_laws L G format" and tree: "empty_tree G w = (Inr tree, w')"
  shows "tree_is_empty L G w' format tree = Inr True"
proof -
  have "gt_mktree G [] w = (Some tree, w')"
    using tree by (auto simp: empty_tree_def split: prod.splits)
  then have "stored_tree L G w' format [] tree"
    using laws unfolding git_laws_def trees_written_def by (elim conjE allE [of _ "[]"] allE impE) auto
  then have "stored L G w' format ''tree'' [] tree"
    by (simp add: stored_tree_def)
  then show ?thesis
    using laws read_stored [of L G w' format "''tree''" "[]" tree max_uint64]
    by (simp add: tree_is_empty_def git_laws_def)
qed

lemma written_commit:
  assumes laws: "git_laws L G format" and written: "gt_commit G cr w = (Some (oid, ts), w1)"
    and message: "cr_message cr \<noteq> []" "last (cr_message cr) = newline" and kept: "keeps_objects G w1 w2"
  obtains c where "read_commit L G w2 format oid = Inr c" "cx_tree c = cr_tree cr"
    "cx_parents c = (if cr_parent cr = [] then [] else [cr_parent cr])" "cx_message c = cr_message cr"
proof -
  have "commits_written L G format"
    using laws by (simp add: git_laws_def)
  then obtain c where c: "read_commit L G w1 format oid = Inr c" "cx_tree c = cr_tree cr"
    "cx_parents c = (if cr_parent cr = [] then [] else [cr_parent cr])" "cx_message c = cr_message cr"
    using written message unfolding commits_written_def by blast
  then show thesis
    using that read_commit_kept [OF kept c(1)] by blast
qed

definition founding_commit :: "string \<Rightarrow> string \<Rightarrow> string \<Rightarrow> commit_request" where
  "founding_commit tree message signing_key =
     \<lparr>cr_tree = tree, cr_parent = [], cr_message = message, cr_signing_key = signing_key,
      cr_identity = \<lparr>ci_author_name = ''gitseq genesis'', ci_author_email = ''genesis@gitseq.invalid'',
        ci_committer_name = ''gitseq sequencer'', ci_committer_email = ''sequencer@gitseq.invalid''\<rparr>\<rparr>"

lemma create_log_steps:
  assumes "create_log L G d signing_key w = (Inr genesis, w')"
  obtains w1 w2 tree message ts where "gt_format G w = Some (gd_object_format d)" "genesis_message L d = Inr message"
    "empty_tree G w = (Inr tree, w1)"
    "gt_commit G (founding_commit tree message signing_key) w1 = (Some (genesis, ts), w2)"
    "verify_ssh_commit G genesis ''sequencer'' (gd_sequencer_key d) w2 = Inr ()"
    "gt_update_ref G (sequence_ref genesis) genesis [] w2 = (True, w')"
  using assms unfolding create_log_def founding_commit_def
  by (auto split: option.splits prod.splits sum.splits bool.splits if_splits)

lemma founded_log:
  assumes laws: "git_laws L G format" and cbor: "canonical_cbor L"
    and founded: "create_log L G d signing_key w = (Inr genesis, w')"
  obtains w'' where "verify_log L G genesis w' =
    (if continues_text d then Inr (log_of L genesis genesis 0 [] (gd_sequencer_key d))
     else Inl (GenesisError DescriptorNotDecodable), w'')"
proof -
  obtain w1 w2 tree message ts where "gt_format G w = Some (gd_object_format d)"
    and message: "genesis_message L d = Inr message"
    and written: "gt_commit G (founding_commit tree message signing_key) w1 = (Some (genesis, ts), w2)"
    and checked: "verify_ssh_commit G genesis ''sequencer'' (gd_sequencer_key d) w2 = Inr ()"
    and swapped: "gt_update_ref G (sequence_ref genesis) genesis [] w2 = (True, w')"
    using founded by (rule create_log_steps)
  then have format: "gd_object_format d = format"
    using laws by (simp add: git_laws_def one_format_def)
  have "fst (gt_head G (sequence_ref genesis) w') = Some genesis"
    using laws swapped unfolding git_laws_def refs_updated_def by blast
  then obtain w3 where head: "gt_head G (sequence_ref genesis) w' = (Some genesis, w3)"
    by (cases "gt_head G (sequence_ref genesis) w'") auto
  have git: "objects_kept G" "verification_agrees L G format" "prints_objects L G format" "one_format G format"
    using laws by (simp_all add: git_laws_def)
  have kept: "keeps_objects G w2 w3"
    by (rule keeps_trans [OF objects_keptD(5) [OF git(1) swapped] objects_keptD(4) [OF git(1) head]])
  note trip = genesis_message_read [OF cbor message]
  have ends: "message \<noteq> []" "last message = newline"
    using message by (auto simp: genesis_message_def descriptor_message_def and_then_Inr)
  have keep_self: "keeps_objects G w2 w2"
    by (simp add: keeps_objects_def)
  obtain c where c: "read_commit L G w2 format genesis = Inr c" "cx_parents c = []" "cx_message c = message"
    using written_commit [OF laws written _ _ keep_self] ends by (auto simp: founding_commit_def)
  have c3: "read_commit L G w3 format genesis = Inr c"
    by (rule read_commit_kept [OF kept c(1)])
  have signed: "verify_ssh_signature L c (gd_sequencer_key d) = Inr ()"
    using git(2) checked c(1) unfolding verification_agrees_def by blast
  have list: "gt_rev_list G genesis w3 = Some [genesis]"
    using git(3) c3 c(2) unfolding prints_objects_def by blast
  obtain a where "gt_cat G genesis w3 = Some a"
    using c3 by (auto simp: read_commit_def read_object_def and_then_Inr split: option.splits if_splits)
  then obtain n where "object_bytes_of format = Some n" "length genesis = 2 * n"
    using git(4) unfolding one_format_def by blast
  then have named: "format_of_genesis genesis = Some format"
    by (auto simp: format_of_genesis_def object_bytes_of_def split: if_splits)
  have "gt_batch_ends G w3"
    using git(4) by (simp add: one_format_def)
  then have "scan_head L G w3 genesis genesis False =
      (if continues_text d then Inr (log_of L genesis genesis 0 [] (gd_sequencer_key d))
       else Inl (GenesisError DescriptorNotDecodable))"
    using list c3 c(2,3) signed trip named
    by (simp add: scan_head_def scan_head_into_def validate_sequence_bounds_def require_def scan_genesis_def
        validate_chain_parents_def fresh_log_def log_of_def retry_index_def format)
  then show thesis
    using that head by (simp add: verify_log_def store_head_def)
qed

section \<open>Rotation\<close>

definition rotated :: "string \<Rightarrow> string \<Rightarrow> scanned_log \<Rightarrow> scanned_log" where
  "rotated commit successor log = log\<lparr>sl_head := commit, sl_depth := sl_depth log + 1, sl_sequencer_key := successor\<rparr>"

lemma audits_rotated:
  assumes "audits L G w format d genesis load key prior oids es key'"
    and "sealed_commit L G w format key' [last (prior # oids)] oid c"
    and "load_commit L G w format d genesis c load = Inr (LoadedRotation successor)" "successor \<noteq> key'"
  shows "audits L G w format d genesis load key prior (oids @ [oid]) es successor"
  using assms
proof (induction rule: audits.induct)
  case audits_end
  then show ?case
    using audits.audits_rotation [OF _ _ _ audits.audits_end] by fastforce
next
  case audits_event
  then show ?case
    using audits.audits_event by (metis append_Cons last_ConsR list.discI)
next
  case audits_rotation
  then show ?case
    using audits.audits_rotation by (metis append_Cons last_ConsR list.discI)
qed

lemma scan_head_rotated:
  assumes laws: "git_laws L G format" and scanned: "scan_head L G w genesis head load = Inr log"
    and d: "descriptor L G w genesis = Inr d" "gd_object_format d = format"
    and c: "read_commit L G w format oid = Inr c" "cx_parents c = [head]"
      "verify_ssh_signature L c (sl_sequencer_key log) = Inr ()"
    and turn: "load_commit L G w format d genesis c load = Inr (LoadedRotation successor)"
      "successor \<noteq> sl_sequencer_key log"
  shows "scan_head L G w genesis oid load = Inr (rotated oid successor log)"
proof -
  obtain rest es key where revs: "gt_rev_list G head w = Some (genesis # rest)" "last (genesis # rest) = head"
    and genesis: "sound_genesis L G w genesis d"
    and chain: "audits L G w (gd_object_format d) d genesis load (gd_sequencer_key d) genesis rest es key"
    and distinct: "distinct (map (retry_key L) es)" and log: "log = log_of L genesis head (length rest) es key"
    by (rule scanned_chain [OF laws scanned d(1)])
  have "sealed_commit L G w format key [last (genesis # rest)] oid c"
    using c revs(2) by (simp add: sealed_commit_def log log_of_def)
  then have "audits L G w (gd_object_format d) d genesis load (gd_sequencer_key d) genesis (rest @ [oid]) es successor"
    using audits_rotated [OF chain] turn by (simp add: d(2) log log_of_def)
  moreover have "gt_batch_ends G w"
    using laws by (simp add: git_laws_def one_format_def)
  moreover have "rotated oid successor log = log_of L genesis oid (length (rest @ [oid])) es successor"
    by (simp add: rotated_def log log_of_def)
  ultimately show ?thesis
    unfolding scan_decides audited_log_def using genesis distinct listed_next [OF laws c(1,2) revs(1)]
    by (intro exI [of _ "rest @ [oid]"] exI [of _ d] exI [of _ es] exI [of _ successor] conjI) simp_all
qed

definition rotation_commit :: "'w options \<Rightarrow> string \<Rightarrow> string \<Rightarrow> string \<Rightarrow> commit_request" where
  "rotation_commit opts tree message head =
     \<lparr>cr_tree = tree, cr_parent = head, cr_message = message, cr_signing_key = op_signing_key opts,
      cr_identity = \<lparr>ci_author_name = ''gitseq rotation'', ci_author_email = ''rotation@gitseq.invalid'',
        ci_committer_name = ''gitseq sequencer'', ci_committer_email = ''sequencer@gitseq.invalid''\<rparr>\<rparr>"

lemma rotation_commit_simps [simp]:
  "cr_tree (rotation_commit opts tree message head) = tree"
  "cr_parent (rotation_commit opts tree message head) = head"
  "cr_message (rotation_commit opts tree message head) = message"
  by (simp_all add: rotation_commit_def)

text \<open>The attempt that won: the log it judged, and the commit it chained.\<close>

lemma rotate_loop_won:
  assumes laws: "git_laws L G format" and ends: "message \<noteq> []" "last message = newline"
  shows "rotate_loop L G opts genesis successor message tree attempt left w = (Inr r, w') \<Longrightarrow>
    \<exists>w1 log. keeps_objects G w w1 \<and> scan_head L G w1 genesis (sb_base_head r) False = Inr log
      \<and> sl_sequencer_key log \<noteq> successor
      \<and> chain_commit G (sequence_ref genesis) (sb_base_head r) (sl_sequencer_key log)
          (rotation_commit opts tree message (sb_base_head r)) w1 = (Inr (Some (sb_commit r, sb_timestamp r)), w')"
proof (induction left arbitrary: attempt w)
  case (Suc left)
  obtain h w1 where h: "gt_head G (sequence_ref genesis) w = (h, w1)"
    by (cases "gt_head G (sequence_ref genesis) w")
  have kept: "keeps_objects G w w1"
    using laws objects_keptD(4) [OF _ h] by (simp add: git_laws_def)
  obtain head log where head: "h = Some head" and log: "scan_head L G w1 genesis head False = Inr log"
    and key: "sl_sequencer_key log \<noteq> successor"
    using Suc.prems h by (auto simp: store_head_def split: option.splits sum.splits if_splits)
  obtain y w2 where y: "chain_commit G (sequence_ref genesis) head (sl_sequencer_key log)
      (rotation_commit opts tree message head) w1 = (y, w2)"
    by (cases "chain_commit G (sequence_ref genesis) head (sl_sequencer_key log) (rotation_commit opts tree message head) w1")
  show ?case
  proof (cases "y = Inr None")
    case True
    then have rest: "rotate_loop L G opts genesis successor message tree (attempt + 1) left w2 = (Inr r, w')"
      using Suc.prems h head log key y by (simp add: store_head_def rotation_commit_def)
    have "keeps_objects G w1 w2"
      using chain_commit_ok(1) [OF laws y] scan_head_named(2) [OF log] ends by simp
    then have "keeps_objects G w w2"
      by (rule keeps_trans [OF kept])
    with Suc.IH [OF rest] show ?thesis
      using keeps_trans [of G w w2] by blast
  next
    case False
    then obtain commit ts where "y = Inr (Some (commit, ts))" "w2 = w'"
      "r = \<lparr>sb_commit = commit, sb_head = commit, sb_replay = False, sb_cas_retries = attempt,
            sb_base_head = head, sb_timestamp = ts\<rparr>"
      using Suc.prems h head log key y by (auto simp: store_head_def rotation_commit_def split: sum.splits option.splits)
    then show ?thesis
      using kept log key y by (intro exI [of _ w1] exI [of _ log]) simp
  qed
qed simp

lemma rotated_log:
  assumes laws: "git_laws L G format" and cbor: "canonical_cbor L"
    and turned: "rotate L G genesis successor opts w = (Inr r, w')"
  obtains log w'' where "scan_head L G w' genesis (sb_base_head r) False = Inr log"
    "verify_log L G genesis w' = (Inr (rotated (sb_commit r) successor log), w'')"
    "sl_sequencer_key log \<noteq> successor"
proof -
  obtain message d tree w0 n where message: "rotation_message L successor = Inr message"
    and d: "descriptor L G w genesis = Inr d" and room: "length message \<le> unat (gd_payload_ceiling d)"
    and tree: "empty_tree G w = (Inr tree, w0)"
    and loop: "rotate_loop L G opts genesis successor message tree 0 n w0 = (Inr r, w')"
    using turned unfolding rotate_def
    by (auto simp: and_then_Inr split: sum.splits prod.splits if_splits)
  note trip = rotation_round_trip [OF cbor message]
  obtain w1 log where kept1: "keeps_objects G w0 w1" and scanned: "scan_head L G w1 genesis (sb_base_head r) False = Inr log"
    and key: "sl_sequencer_key log \<noteq> successor"
    and chain: "chain_commit G (sequence_ref genesis) (sb_base_head r) (sl_sequencer_key log)
        (rotation_commit opts tree message (sb_base_head r)) w1 = (Inr (Some (sb_commit r, sb_timestamp r)), w')"
    using rotate_loop_won [OF laws trip(3,4) loop] by blast
  have base: "sb_base_head r \<noteq> []"
    using scan_head_named(2) [OF scanned] .
  note chained = chain_commit_ok [OF laws chain, unfolded rotation_commit_simps, OF base trip(3,4)]
  obtain c where c: "read_commit L G w' format (sb_commit r) = Inr c" "cx_tree c = tree" "cx_parents c = [sb_base_head r]"
    "cx_message c = message" "verify_ssh_signature L c (sl_sequencer_key log) = Inr ()"
    using chained(2) by blast
  obtain w2 where head: "gt_head G (sequence_ref genesis) w' = (Some (sb_commit r), w2)"
    using chain_commit_head [OF laws chain] by (cases "gt_head G (sequence_ref genesis) w'") auto
  have git: "objects_kept G" "prints_objects L G format"
    using laws by (simp_all add: git_laws_def)
  have kept0: "keeps_objects G w w0"
    using tree objects_keptD(2) [OF git(1)] by (fastforce simp: empty_tree_def split: prod.splits)
  have kept2: "keeps_objects G w' w2"
    by (rule objects_keptD(4) [OF git(1) head])
  have kept: "keeps_objects G w0 w2" "keeps_objects G w w2"
    using keeps_trans [OF kept1 keeps_trans [OF chained(1) kept2]] keeps_trans [OF kept0] by blast+
  have here: "scan_head L G w2 genesis (sb_base_head r) False = Inr log"
    by (rule scan_head_kept [OF laws keeps_trans [OF chained(1) kept2] scanned])
  obtain d' where d': "descriptor L G w2 genesis = Inr d'" "gd_object_format d' = format"
    using scanned_descriptor [OF laws here] .
  then have dd: "d' = d"
    using descriptor_kept [OF git(2) kept(2) d] by simp
  have "tree_is_empty L G w2 format tree = Inr True"
    by (rule tree_is_empty_kept [OF kept(1) stored_empty_tree [OF laws tree]])
  then have "load_commit L G w2 format d genesis c False = Inr (LoadedRotation successor)"
    using room by (simp add: load_commit_def c(2,4) trip Let_def)
  then have "scan_head L G w2 genesis (sb_commit r) False = Inr (rotated (sb_commit r) successor log)"
    using key by (intro scan_head_rotated [OF laws here d' [unfolded dd] read_commit_kept [OF kept2 c(1)] c(3,5)]) simp_all
  moreover have "scan_head L G w' genesis (sb_base_head r) False = Inr log"
    by (rule scan_head_kept [OF laws chained(1) scanned])
  ultimately show thesis
    using that key head by (simp add: verify_log_def store_head_def)
qed

end
