(* ===== verification/PayloadHash.thy ===== *)
theory PayloadHash
  imports PayloadTrees
begin

text \<open>
  \<open>HashPayloadTree\<close> binds the payload: under a hash that does not collide on the objects at hand, two
  payloads with one tree name are the same payload with the same attachments.
\<close>

definition framed :: "string \<Rightarrow> bytes \<Rightarrow> bytes" where
  "framed kind content = kind @ CHR '' '' # format_uint (length content) @ zero_byte # content"

definition object_hash :: "('l) kernel_lib_scheme \<Rightarrow> string \<Rightarrow> bytes \<Rightarrow> bytes" where
  "object_hash L format = (if format = ''sha1'' then kl_sha1 L else kl_sha256 L)"

lemma git_hash_framed:
  "git_hash L format kind content = Inr oid \<longleftrightarrow>
     (format = ''sha1'' \<or> format = ''sha256'') \<and> oid = hex_encode (object_hash L format (framed kind content))"
  by (auto simp: git_hash_def object_hash_def framed_def Let_def)

lemma framed_inject:
  assumes "CHR '' '' \<notin> set kind" "CHR '' '' \<notin> set kind'" "framed kind content = framed kind' content'"
  shows "kind = kind' \<and> content = content'"
proof -
  have zero: "zero_byte \<notin> set (format_uint n)" for n
    using format_uint_digits [of zero_byte n] by auto
  have "cut_char (CHR '' '') (framed kind content) = cut_char (CHR '' '') (framed kind' content')"
    using assms(3) by simp
  then have "kind = kind'" and rest: "format_uint (length content) @ zero_byte # content
      = format_uint (length content') @ zero_byte # content'"
    using assms(1,2) by (auto simp: framed_def cut_char_at)
  then show ?thesis
    using zero_free_inject [OF zero zero rest] by simp
qed

text \<open>The objects whose names go into the name of a payload tree.\<close>

definition tree_frames :: "hash_entry list \<Rightarrow> bytes set" where
  "tree_frames es = {framed ''tree'' content |content. tree_content (sort_entries es) = Inr content}"

definition blob_frames :: "bytes set \<Rightarrow> bytes set" where
  "blob_frames contents = framed ''blob'' ` contents"

definition nested_entries :: "('l) kernel_lib_scheme \<Rightarrow> string \<Rightarrow> attachments \<Rightarrow> hash_entry list" where
  "nested_entries L format as =
     map (\<lambda>(n, c). blob_entry n (hex_encode (object_hash L format (framed ''blob'' c)))) (sorted_attachments as)"

definition root_entries ::
  "('l) kernel_lib_scheme \<Rightarrow> string \<Rightarrow> bytes \<Rightarrow> attachments \<Rightarrow> hash_entry list" where
  "root_entries L format event as =
     blob_entry ''event'' (hex_encode (object_hash L format (framed ''blob'' event)))
     # (if as = [] then [] else
          [attachments_entry (hex_encode (object_hash L format (framed ''tree''
             (projr (tree_content (sort_entries (nested_entries L format as)))))))])"

definition payload_frames ::
  "('l) kernel_lib_scheme \<Rightarrow> string \<Rightarrow> bytes \<Rightarrow> attachments \<Rightarrow> bytes set" where
  "payload_frames L format event as =
     blob_frames (insert event (snd ` set (sorted_attachments as)))
     \<union> tree_frames (nested_entries L format as) \<union> tree_frames (root_entries L format event as)"

lemma hash_blobs_entries:
  "hash_blobs L format as = Inr es \<Longrightarrow>
     es = map (\<lambda>(n, c). blob_entry n (hex_encode (object_hash L format (framed ''blob'' c)))) as"
  by (induction "as" arbitrary: es) (auto simp: and_then_Inr git_hash_framed blob_entry_def)

text \<open>What a computed name says: the format is known and the name is the hash of the root tree.\<close>

lemma hash_payload_tree_root:
  assumes "hash_payload_tree L format event as = Inr oid"
  shows "\<exists>content. tree_content (sort_entries (root_entries L format event as)) = Inr content
      \<and> oid = hex_encode (object_hash L format (framed ''tree'' content))
      \<and> (as \<noteq> [] \<longrightarrow> (\<exists>nested. tree_content (sort_entries (nested_entries L format as)) = Inr nested))"
proof -
  obtain event_oid sub where event: "git_hash L format ''blob'' event = Inr event_oid"
    and sub: "(if as = [] then Inr [] else (case List.find (\<lambda>(n, c). \<not> attachment_name n) as of
                  Some (n, c) \<Rightarrow> Inl (InvalidAttachmentName n)
                | None \<Rightarrow> and_then (hash_blobs L format (sorted_attachments as)) (\<lambda>entries.
                    and_then (hash_tree L format entries) (\<lambda>oid.
                      Inr [\<lparr>te_mode = ''40000'', te_name = ''attachments'', te_oid = oid,
                            he_directory = True\<rparr>])))) = Inr sub"
    and root: "hash_tree L format (blob_entry ''event'' event_oid # sub) = Inr oid"
    using assms unfolding hash_payload_tree_def and_then_Inr blob_entry_def [symmetric] by blast
  have oid: "event_oid = hex_encode (object_hash L format (framed ''blob'' event))"
    using event by (simp add: git_hash_framed)
  have nested: "\<exists>nested. tree_content (sort_entries (nested_entries L format as)) = Inr nested
      \<and> sub = [attachments_entry (hex_encode (object_hash L format (framed ''tree'' nested)))]" if nonempty: "as \<noteq> []"
  proof -
    obtain entries t where entries: "hash_blobs L format (sorted_attachments as) = Inr entries"
      and t: "hash_tree L format entries = Inr t" "sub = [attachments_entry t]"
      using sub nonempty by (auto simp: and_then_Inr attachments_entry_def split: option.splits)
    have "entries = nested_entries L format as"
      unfolding nested_entries_def by (rule hash_blobs_entries [OF entries])
    then show ?thesis
      using t by (auto simp: hash_tree_def and_then_Inr git_hash_framed)
  qed
  then have "blob_entry ''event'' event_oid # sub = root_entries L format event as"
    using sub oid by (auto simp: root_entries_def)
  then show ?thesis
    using root nested by (auto simp: hash_tree_def and_then_Inr git_hash_framed)
qed

lemma object_hash_size: "hash_sizes L \<Longrightarrow> length (object_hash L format s) = (if format = ''sha1'' then 20 else 32)"
  by (simp add: hash_sizes_def object_hash_def)

lemma proper_blob: "hash_sizes L \<Longrightarrow> n \<noteq> [] \<Longrightarrow> zero_byte \<notin> set n \<Longrightarrow>
    proper_entry (if format = ''sha1'' then 20 else 32) (blob_entry n (hex_encode (object_hash L format s)))"
  unfolding proper_entry_def blob_entry_simps
  by (intro conjI exI [of _ "object_hash L format s"]) (simp_all add: object_hash_size)

lemma proper_nested:
  assumes "hash_sizes L" "\<forall>(n, c)\<in>set as. attachment_name n"
  shows "\<forall>e\<in>set (nested_entries L format as). proper_entry (if format = ''sha1'' then 20 else 32) e"
proof -
  have "attachment_name n" if "(n, c) \<in> set (sorted_attachments as)" for n c
    using assms(2) that by (auto simp: sorted_attachments_def)
  then have "proper_entry (if format = ''sha1'' then 20 else 32)
      (blob_entry n (hex_encode (object_hash L format (framed ''blob'' c))))"
    if "(n, c) \<in> set (sorted_attachments as)" for n c
    using that attachment_name_clean by (intro proper_blob [OF assms(1)]) blast+
  then show ?thesis
    unfolding nested_entries_def set_map by fast
qed

lemma nested_hashes:
  "map (\<lambda>e. (te_name e, the (hex_decode (te_oid e)))) (map bare_entry (nested_entries L format as))
     = map (\<lambda>(n, c). (n, object_hash L format (framed ''blob'' c))) (sorted_attachments as)"
  by (simp add: nested_entries_def comp_def case_prod_unfold)

lemma proper_root:
  assumes "hash_sizes L"
  shows "\<forall>e\<in>set (root_entries L format event as). proper_entry (if format = ''sha1'' then 20 else 32) e"
  using proper_blob [OF assms, of "''event''"] object_hash_size [OF assms]
  by (auto simp: root_entries_def proper_entry_def)

lemma set_sort_entries [simp]: "set (sort_entries es) = set es"
proof -
  have "set (insert_entry x es) = insert x (set es)" for x es
    by (induction es) auto
  then show ?thesis
    by (induction es) auto
qed

lemma nested_order:
  assumes "distinct (map fst as)"
  shows "sort_entries (nested_entries L format as) = nested_entries L format as"
proof -
  have "map entry_key (nested_entries L format as) = sort_strings (map fst as)"
    by (simp add: nested_entries_def sorted_attachments_def comp_def)
  then show ?thesis
    using strictly_sorted_sort_strings [OF assms] by (intro sort_entries_sorted) (simp add: strictly_sorted_def)
qed

lemma same_frames:
  assumes "inj_on H F" "framed k c \<in> F" "framed k c' \<in> F" "H (framed k c) = H (framed k c')"
    and "CHR '' '' \<notin> set k"
  shows "c = c'"
  using inj_onD [OF assms(1,4,2,3)] framed_inject [OF assms(5,5)] by blast

lemma same_blobs:
  assumes "inj_on H F" "blob_frames (snd ` set xs) \<subseteq> F" "blob_frames (snd ` set ys) \<subseteq> F"
    and "map (\<lambda>(n, c). (n, H (framed ''blob'' c))) xs = map (\<lambda>(n, c). (n, H (framed ''blob'' c))) ys"
  shows "xs = ys"
  using assms(2-)
proof (induction xs arbitrary: ys)
  case (Cons x xs)
  then obtain y ys' where ys: "ys = y # ys'"
    by (cases ys) auto
  have "snd x = snd y"
    using Cons.prems ys
    by (intro same_frames [OF assms(1), of "''blob''"]) (auto simp: blob_frames_def split: prod.splits)
  moreover have "xs = ys'"
    using Cons.prems ys by (intro Cons.IH) (auto simp: blob_frames_def)
  ultimately show ?case
    using Cons.prems(3) ys by (auto split: prod.splits)
qed simp

lemma payload_framesI:
  "tree_content (sort_entries (root_entries L format event as)) = Inr c
     \<Longrightarrow> framed ''tree'' c \<in> payload_frames L format event as"
  "tree_content (sort_entries (nested_entries L format as)) = Inr m
     \<Longrightarrow> framed ''tree'' m \<in> payload_frames L format event as"
  "framed ''blob'' event \<in> payload_frames L format event as"
  "blob_frames (snd ` set (sorted_attachments as)) \<subseteq> payload_frames L format event as"
  unfolding payload_frames_def tree_frames_def blob_frames_def by blast+

lemma payload_tree_binds:
  assumes sizes: "hash_sizes L"
    and one: "hash_payload_tree L format event as = Inr oid"
    and two: "hash_payload_tree L format event' as' = Inr oid"
    and names: "\<forall>(n, c)\<in>set as. attachment_name n" "distinct (map fst as)"
      "\<forall>(n, c)\<in>set as'. attachment_name n" "distinct (map fst as')"
    and clean: "inj_on (object_hash L format) (payload_frames L format event as \<union> payload_frames L format event' as')"
  shows "event = event' \<and> sorted_attachments as = sorted_attachments as'"
proof -
  let ?F = "payload_frames L format event as \<union> payload_frames L format event' as'"
  let ?H = "object_hash L format"
  obtain c where c: "tree_content (sort_entries (root_entries L format event as)) = Inr c"
    "oid = hex_encode (?H (framed ''tree'' c))"
    and nested: "as \<noteq> [] \<Longrightarrow> \<exists>m. tree_content (sort_entries (nested_entries L format as)) = Inr m"
    using hash_payload_tree_root [OF one] by blast
  obtain c' where c': "tree_content (sort_entries (root_entries L format event' as')) = Inr c'"
    "oid = hex_encode (?H (framed ''tree'' c'))"
    and nested': "as' \<noteq> [] \<Longrightarrow> \<exists>m. tree_content (sort_entries (nested_entries L format as')) = Inr m"
    using hash_payload_tree_root [OF two] by blast
  have hashes: "?H (framed ''tree'' c) = ?H (framed ''tree'' c')"
    using trans [OF c(2) [symmetric] c'(2)] unfolding hex_encode_inject .
  have "c = c'"
    by (rule same_frames [OF clean UnI1 [OF payload_framesI(1) [OF c(1)]] UnI2 [OF payload_framesI(1) [OF c'(1)]] hashes])
      simp
  then have same: "tree_content (sort_entries (root_entries L format event' as')) = Inr c"
    using c'(1) by (simp only:)
  have roots: "map bare_entry (sort_entries (root_entries L format event as))
      = map bare_entry (sort_entries (root_entries L format event' as'))"
    using proper_root [OF sizes] by (intro tree_content_inject [OF c(1) same]) (simp_all only: set_sort_entries)
  have root: "map bare_entry (sort_entries (root_entries L format e a)) =
      (if a = [] then [] else [bare_entry (attachments_entry (hex_encode (?H (framed ''tree''
         (projr (tree_content (sort_entries (nested_entries L format a))))))))])
      @ [bare_entry (blob_entry ''event'' (hex_encode (?H (framed ''blob'' e))))]" for e a
    by (simp add: root_entries_def root_order)
  have events: "?H (framed ''blob'' event) = ?H (framed ''blob'' event')" and both: "as = [] \<longleftrightarrow> as' = []"
    using roots unfolding root by (auto simp: bare_entry_def blob_entry_def split: if_splits)
  have "event = event'"
    by (rule same_frames [OF clean UnI1 [OF payload_framesI(3)] UnI2 [OF payload_framesI(3)] events]) simp
  moreover have "sorted_attachments as = sorted_attachments as'"
  proof (cases "as = []")
    case True
    then show ?thesis
      using both by simp
  next
    case False
    obtain m where m: "tree_content (sort_entries (nested_entries L format as)) = Inr m"
      using nested [OF False] ..
    have "as' \<noteq> []"
      using False both by simp
    then obtain m' where m': "tree_content (sort_entries (nested_entries L format as')) = Inr m'"
      using nested' by blast
    have "?H (framed ''tree'' m) = ?H (framed ''tree'' m')"
      using roots False both unfolding root m m' by (simp add: bare_entry_def)
    then have "m = m'"
      by (rule same_frames [OF clean UnI1 [OF payload_framesI(2) [OF m]] UnI2 [OF payload_framesI(2) [OF m']]]) simp
    then have "map bare_entry (nested_entries L format as) = map bare_entry (nested_entries L format as')"
      using tree_content_inject [of "nested_entries L format as" m "nested_entries L format as'"] m m'
        proper_nested [OF sizes names(1)] proper_nested [OF sizes names(3)]
      unfolding nested_order [OF names(2)] nested_order [OF names(4)] by blast
    then have "map (\<lambda>(n, c). (n, ?H (framed ''blob'' c))) (sorted_attachments as)
        = map (\<lambda>(n, c). (n, ?H (framed ''blob'' c))) (sorted_attachments as')"
      unfolding nested_hashes [symmetric] by (rule arg_cong)
    then show ?thesis
      by (rule same_blobs [OF clean le_supI1 [OF payload_framesI(4)] le_supI2 [OF payload_framesI(4)]])
  qed
  ultimately show ?thesis
    by simp
qed

end
