(* ===== verification/KernelDemo.thy ===== *)
theory KernelDemo
  imports KernelAfter KernelFounding PayloadHash
begin

text \<open>
  A small repository in which everything the theorems ask of Git and of the libraries holds: a genesis,
  one payload and the three commits that may follow the genesis. The cryptography is a set of small
  functions of the documented sizes. The witnesses of the theorems about the kernel use it.
\<close>

section \<open>A library that behaves\<close>

text \<open>Objects of this repository differ in their lengths.\<close>

definition kd_digest :: "nat \<Rightarrow> bytes \<Rightarrow> bytes" where
  "kd_digest n s = replicate n (char_of (length s mod 256))"

definition kd_key :: bytes where "kd_key = replicate 32 (CHR ''k'')"
definition kd_mark :: bytes where "kd_mark = replicate 64 (CHR ''s'')"

definition kd_oid :: "nat \<Rightarrow> string" where "kd_oid n = hex_encode (replicate 20 (char_of n))"

abbreviation kd_genesis :: string where "kd_genesis \<equiv> kd_oid 129"
abbreviation kd_blob :: string where "kd_blob \<equiv> kd_oid 8"
abbreviation kd_tree :: string where "kd_tree \<equiv> kd_oid 41"
abbreviation kd_first :: string where "kd_first \<equiv> kd_oid 74"
abbreviation kd_lost :: string where "kd_lost \<equiv> kd_oid 89"
abbreviation kd_empty :: string where "kd_empty \<equiv> kd_oid 7"
abbreviation kd_turn :: string where "kd_turn \<equiv> kd_oid 178"

definition kd_successor :: string where "kd_successor = ssh_key_line (replicate 32 (CHR ''l''))"

definition kd_descriptor :: genesis_descriptor where
  "kd_descriptor = \<lparr>gd_version = 0, gd_object_format = ''sha1'', gd_payload_ceiling = 1000,
     gd_sequencer_key = ssh_key_line kd_key, gd_predecessor = [], gd_sealed_head = []\<rparr>"

definition kd_intent :: "string list \<Rightarrow> intent" where
  "kd_intent rests = \<lparr>in_version = 0, in_target = typed_oid ''sha1'' kd_genesis, in_schema = ''s'',
     in_envelope_version = 0, in_payload_tree = typed_oid ''sha1'' kd_tree, in_rests_on = rests,
     in_namespace = ''n'', in_key = ''k'', in_capability_hash = []\<rparr>"

definition kd_encoding :: "string list \<Rightarrow> bytes" where
  "kd_encoding rests = concat rests @ ''I''"

definition kd_rests :: "string list list" where "kd_rests = [[], [''a ''], [''a'']]"

definition kd_lib :: kernel_lib where
  "kd_lib =
     \<lparr>kl_sha1 = kd_digest 20, kl_sha256 = kd_digest 32, kl_sha512 = kd_digest 64,
      kl_ed25519_verify = (\<lambda>key m s. s = kd_mark), kl_ed25519_sign = (\<lambda>key m. kd_mark),
      kl_ed25519_public = take 32,
      kl_pem = (\<lambda>armor. if armor = ''A'' @ [newline] then
          Some \<lparr>pb_type = ''SSH SIGNATURE'', pb_headers = 0,
            pb_bytes = ssh_signature_blob (ssh_key_wire kd_key) ''sha512'' kd_mark, pb_rest = []\<rparr> else None),
      kl_intent = (\<lambda>i. if i \<in> set (map kd_intent kd_rests) then Some (kd_encoding (in_rests_on i)) else None),
      kl_read_intent = (\<lambda>b. map_of (map (\<lambda>r. (kd_encoding r, kd_intent r)) kd_rests) b),
      kl_genesis = (\<lambda>d. if d = kd_descriptor then Some ''D'' else None),
      kl_read_genesis = (\<lambda>b. if b = ''D'' then Some kd_descriptor else None),
      kl_rotation = (\<lambda>d. if d = \<lparr>rd_version = 0, rd_sequencer_key = kd_successor\<rparr> then Some ''R'' else None),
      kl_read_rotation = (\<lambda>b. if b = ''R'' then Some \<lparr>rd_version = 0, rd_sequencer_key = kd_successor\<rparr> else None)\<rparr>"

section \<open>The objects\<close>

definition kd_signed :: "string list \<Rightarrow> signed" where
  "kd_signed rests = \<lparr>sg_intent = kd_encoding rests, sg_actor_key = kd_key, sg_signature = kd_mark\<rparr>"

definition kd_event :: bytes where "kd_event = ''E''"

definition kd_tree_content :: bytes where
  "kd_tree_content = ''100644 event'' @ zero_byte # replicate 20 (char_of (8 :: nat))"

definition kd_message :: "string list \<Rightarrow> string" where
  "kd_message rests = envelope (kd_signed rests) rests"

definition kd_commit :: "string \<Rightarrow> string list \<Rightarrow> string \<Rightarrow> commit_parts" where
  "kd_commit tree parents message =
     \<lparr>cp_tree = tree, cp_parents = parents, cp_author = ''a'',
      cp_committer = [''c''], cp_time = 7, cp_zone = ''+0000'', cp_armor = [''A''], cp_message = message\<rparr>"

definition kd_genesis_parts :: commit_parts where
  "kd_genesis_parts = kd_commit kd_empty [] (descriptor_message genesis_marker ''D'')"

definition kd_first_parts :: commit_parts where
  "kd_first_parts = kd_commit kd_tree [kd_genesis] (kd_message [])"

definition kd_lost_parts :: commit_parts where
  "kd_lost_parts = kd_commit kd_tree [kd_genesis] (kd_message [''a ''])"

definition kd_turn_parts :: commit_parts where
  "kd_turn_parts = kd_commit kd_empty [kd_genesis] (descriptor_message rotation_marker ''R'')"

text \<open>What the batch reader answers.\<close>

definition kd_objects :: "(string \<times> bytes) list" where
  "kd_objects =
     [(kd_blob, cat_answer kd_blob ''blob'' kd_event), (kd_empty, cat_answer kd_empty ''tree'' []), (kd_tree, cat_answer kd_tree ''tree'' kd_tree_content),
      (kd_genesis, cat_answer kd_genesis ''commit'' (commit_object kd_genesis_parts)),
      (kd_first, cat_answer kd_first ''commit'' (commit_object kd_first_parts)),
      (kd_lost, cat_answer kd_lost ''commit'' (commit_object kd_lost_parts)),
      (kd_turn, cat_answer kd_turn ''commit'' (commit_object kd_turn_parts))]"

definition kd_lists :: "(string \<times> string list) list" where
  "kd_lists = [(kd_genesis, [kd_genesis]), (kd_first, [kd_genesis, kd_first]), (kd_lost, [kd_genesis, kd_lost]),
     (kd_turn, [kd_genesis, kd_turn])]"

definition kd_messages :: "(string \<times> string) list" where
  "kd_messages = [(kd_genesis, cp_message kd_genesis_parts), (kd_first, cp_message kd_first_parts),
     (kd_lost, cp_message kd_lost_parts), (kd_turn, cp_message kd_turn_parts)]"

definition kd_commits :: "((string \<times> string \<times> string) \<times> string) list" where
  "kd_commits = [((kd_empty, [], cp_message kd_genesis_parts), kd_genesis), ((kd_tree, kd_genesis, kd_message []), kd_first),
     ((kd_tree, kd_genesis, kd_message [''a '']), kd_lost), ((kd_empty, kd_genesis, cp_message kd_turn_parts), kd_turn)]"

text \<open>The world is the head of the one log.\<close>

definition kd_git :: "string git" where
  "kd_git =
     \<lparr>gt_format = (\<lambda>w. Some ''sha1''),
      gt_head = (\<lambda>ref w. (if ref = sequence_ref kd_genesis \<and> w \<noteq> [] then Some w else None, w)),
      gt_rev_list = (\<lambda>oid w. map_of kd_lists oid),
      gt_log_after = (\<lambda>h oid w. (filter (\<lambda>x. x \<noteq> h) (case map_of kd_lists oid of None \<Rightarrow> [] | Some l \<Rightarrow> l), True)),
      gt_show = (\<lambda>oid w. map_of kd_messages oid), gt_cat = (\<lambda>oid w. map_of kd_objects oid),
      gt_batch_ends = (\<lambda>w. True),
      gt_hash_object = (\<lambda>content w. (if content = kd_event then Some kd_blob else None, w)),
      gt_mktree = (\<lambda>listing w. (if listing = [] then Some kd_empty
         else if listing = listing_line (blob_entry ''event'' kd_blob) then Some kd_tree else None, w)),
      gt_commit = (\<lambda>cr w. (map_option (\<lambda>oid. (oid, 7)) (map_of kd_commits (cr_tree cr, cr_parent cr, cr_message cr)), w)),
      gt_verify_commit = (\<lambda>oid signers w. signers = ''sequencer '' @ ssh_key_line kd_key @ [newline]),
      gt_update_ref = (\<lambda>ref new old w.
         if ref = sequence_ref kd_genesis \<and> old = w \<and> new \<noteq> [] then (True, new) else (False, w))\<rparr>"

lemma kd_git_simps [simp]:
  "gt_format kd_git w = Some ''sha1''"
  "gt_head kd_git ref w = (if ref = sequence_ref kd_genesis \<and> w \<noteq> [] then Some w else None, w)"
  "gt_rev_list kd_git oid w = map_of kd_lists oid"
  "gt_show kd_git oid w = map_of kd_messages oid" "gt_cat kd_git oid w = map_of kd_objects oid"
  "gt_batch_ends kd_git w"
  "gt_hash_object kd_git content w = (if content = kd_event then Some kd_blob else None, w)"
  "gt_mktree kd_git listing w = (if listing = [] then Some kd_empty
         else if listing = listing_line (blob_entry ''event'' kd_blob) then Some kd_tree else None, w)"
  "gt_commit kd_git cr w = (map_option (\<lambda>oid. (oid, 7)) (map_of kd_commits (cr_tree cr, cr_parent cr, cr_message cr)), w)"
  "gt_verify_commit kd_git oid signers w \<longleftrightarrow> signers = ''sequencer '' @ ssh_key_line kd_key @ [newline]"
  "gt_update_ref kd_git ref new old w =
     (if ref = sequence_ref kd_genesis \<and> old = w \<and> new \<noteq> [] then (True, new) else (False, w))"
  by (simp_all add: kd_git_def)

lemma kd_lib_simps [simp]:
  "kl_sha1 kd_lib = kd_digest 20" "kl_sha256 kd_lib = kd_digest 32" "kl_sha512 kd_lib = kd_digest 64"
  "kl_ed25519_verify kd_lib key m s \<longleftrightarrow> s = kd_mark"
  by (simp_all add: kd_lib_def)

section \<open>Reading the objects\<close>

lemma kd_hash:
  "git_hash kd_lib ''sha1'' kind content = Inr (kd_oid (length (framed kind content) mod 256))"
  by (simp add: git_hash_def kd_digest_def kd_oid_def framed_def Let_def)

lemma kd_oid_inject: "m < 256 \<Longrightarrow> n < 256 \<Longrightarrow> kd_oid m = kd_oid n \<longleftrightarrow> m = n"
proof
  assume "m < 256" "n < 256" "kd_oid m = kd_oid n"
  then have "(char_of m :: char) = char_of n"
    using hex_decode_encode [of "replicate 20 (char_of m)"] hex_decode_encode [of "replicate 20 (char_of n)"]
    by (simp add: kd_oid_def)
  then show "m = n"
    using \<open>m < 256\<close> \<open>n < 256\<close> by (metis mod_less of_char_of)
qed simp

lemma kd_distinct [simp]:
  "kd_blob \<noteq> kd_tree" "kd_blob \<noteq> kd_genesis" "kd_blob \<noteq> kd_first" "kd_blob \<noteq> kd_lost"
  "kd_tree \<noteq> kd_genesis" "kd_tree \<noteq> kd_first" "kd_tree \<noteq> kd_lost"
  "kd_empty \<noteq> kd_blob" "kd_empty \<noteq> kd_tree" "kd_empty \<noteq> kd_genesis" "kd_empty \<noteq> kd_first" "kd_empty \<noteq> kd_lost"
  "kd_turn \<noteq> kd_blob" "kd_turn \<noteq> kd_tree" "kd_turn \<noteq> kd_genesis" "kd_turn \<noteq> kd_first" "kd_turn \<noteq> kd_lost"
  "kd_turn \<noteq> kd_empty"
  "kd_genesis \<noteq> kd_first" "kd_genesis \<noteq> kd_lost" "kd_first \<noteq> kd_lost"
  by (simp_all add: kd_oid_inject)

lemmas kd_distinct_symmetric [simp] = kd_distinct [symmetric]

lemma kd_width [simp]: "length (kd_oid n) = 40"
  by (simp add: kd_oid_def)

lemma kd_lengths:
  "length (commit_object kd_genesis_parts) = 118"
  "length (commit_object kd_first_parts) = 319"
  "length (commit_object kd_lost_parts) = 334"
  "length (commit_object kd_turn_parts) = 167"
  "length kd_tree_content = 33"
  by (simp_all add: kd_genesis_parts_def kd_first_parts_def kd_lost_parts_def kd_turn_parts_def rotation_marker_def
    kd_commit_def commit_object_def plain_headers_def
    signature_headers_def committer_line_def descriptor_message_def genesis_marker_def kd_message_def envelope_def
    kd_signed_def kd_encoding_def b64_encode_def length_b64_groups event_marker_def kd_key_def kd_mark_def print_int_def
    kd_tree_content_def format_uint.simps)

lemma kd_names:
  "git_hash kd_lib ''sha1'' ''blob'' kd_event = Inr kd_blob"
  "git_hash kd_lib ''sha1'' ''tree'' kd_tree_content = Inr kd_tree"
  "git_hash kd_lib ''sha1'' ''commit'' (commit_object kd_genesis_parts) = Inr kd_genesis"
  "git_hash kd_lib ''sha1'' ''commit'' (commit_object kd_first_parts) = Inr kd_first"
  "git_hash kd_lib ''sha1'' ''commit'' (commit_object kd_lost_parts) = Inr kd_lost"
  "git_hash kd_lib ''sha1'' ''commit'' (commit_object kd_turn_parts) = Inr kd_turn"
  "git_hash kd_lib ''sha1'' ''tree'' [] = Inr kd_empty"
  by (simp_all add: kd_hash framed_def kd_lengths kd_event_def format_uint.simps)

lemma kd_objects_stored [simp]:
  "stored kd_lib kd_git w ''sha1'' ''blob'' kd_event kd_blob"
  "stored kd_lib kd_git w ''sha1'' ''tree'' kd_tree_content kd_tree"
  "stored kd_lib kd_git w ''sha1'' ''commit'' (commit_object kd_genesis_parts) kd_genesis"
  "stored kd_lib kd_git w ''sha1'' ''commit'' (commit_object kd_first_parts) kd_first"
  "stored kd_lib kd_git w ''sha1'' ''commit'' (commit_object kd_lost_parts) kd_lost"
  "stored kd_lib kd_git w ''sha1'' ''commit'' (commit_object kd_turn_parts) kd_turn"
  "stored kd_lib kd_git w ''sha1'' ''tree'' [] kd_empty"
  by (simp_all add: stored_def kd_names kd_names(1) [unfolded kd_event_def] kd_objects_def kd_lengths kd_event_def max_int_def)

lemma kd_hash_sizes: "hash_sizes kd_lib"
  by (simp add: hash_sizes_def kd_digest_def)

lemma kd_proper: "proper_commit kd_genesis_parts" "proper_commit kd_first_parts" "proper_commit kd_lost_parts"
    "proper_commit kd_turn_parts"
proof -
  have "newline \<notin> set (kd_oid n)" for n
    using hex_printable [of newline] by (auto simp: kd_oid_def)
  moreover have "kd_oid n \<noteq> []" for n
    by (metis kd_width list.size(3) zero_neq_numeral)
  ultimately show "proper_commit kd_genesis_parts" "proper_commit kd_first_parts" "proper_commit kd_lost_parts"
    "proper_commit kd_turn_parts"
    by (simp_all add: proper_commit_def kd_genesis_parts_def kd_first_parts_def kd_lost_parts_def kd_turn_parts_def kd_commit_def plain_word_def)
qed

definition kd_parsed :: "string \<Rightarrow> commit_parts \<Rightarrow> audited_commit" where
  "kd_parsed oid p = \<lparr>cx_oid = oid, cx_tree = cp_tree p, cx_parents = cp_parents p, cx_timestamp = cp_time p,
     cx_message = cp_message p, ac_signed_content = unsigned_object p, ac_signature = ''A'' @ [newline]\<rparr>"

lemma kd_read:
  "read_commit kd_lib kd_git w ''sha1'' kd_genesis = Inr (kd_parsed kd_genesis kd_genesis_parts)"
  "read_commit kd_lib kd_git w ''sha1'' kd_first = Inr (kd_parsed kd_first kd_first_parts)"
  "read_commit kd_lib kd_git w ''sha1'' kd_lost = Inr (kd_parsed kd_lost kd_lost_parts)"
    "read_commit kd_lib kd_git w ''sha1'' kd_turn = Inr (kd_parsed kd_turn kd_turn_parts)"
proof -
  have read: "read_commit kd_lib kd_git w ''sha1'' oid = Inr (kd_parsed oid p)"
    if "stored kd_lib kd_git w ''sha1'' ''commit'' (commit_object p) oid" "proper_commit p"
      "length (commit_object p) \<le> max_uint64" "cp_armor p = [''A'']" for oid p
    using read_stored [OF kd_hash_sizes that(1,3)] parse_commit_object [OF that(2), of oid] that(4)
    by (simp add: read_commit_def kd_parsed_def)
  have "cp_armor kd_genesis_parts = [''A'']" "cp_armor kd_first_parts = [''A'']" "cp_armor kd_lost_parts = [''A'']"
    "cp_armor kd_turn_parts = [''A'']"
    by (simp_all add: kd_genesis_parts_def kd_first_parts_def kd_lost_parts_def kd_turn_parts_def kd_commit_def)
  then show "read_commit kd_lib kd_git w ''sha1'' kd_genesis = Inr (kd_parsed kd_genesis kd_genesis_parts)"
    "read_commit kd_lib kd_git w ''sha1'' kd_first = Inr (kd_parsed kd_first kd_first_parts)"
    "read_commit kd_lib kd_git w ''sha1'' kd_lost = Inr (kd_parsed kd_lost kd_lost_parts)"
    "read_commit kd_lib kd_git w ''sha1'' kd_turn = Inr (kd_parsed kd_turn kd_turn_parts)"
    using kd_proper by (simp_all add: read kd_lengths max_uint64_def)
qed

text \<open>No other object of the repository is read as a commit.\<close>

lemma read_other_kind:
  assumes cat: "gt_cat G oid w = Some (cat_answer oid kind content)" and clean: "newline \<notin> set oid" "CHR '' '' \<notin> set oid"
    and kind: "newline \<notin> set kind" "CHR '' '' \<notin> set kind" "kind \<noteq> want"
  shows "read_object L G w format oid want n \<noteq> Inr x"
proof -
  let ?line = "oid @ CHR '' '' # kind @ CHR '' '' # format_uint (length content)"
  have size: "newline \<notin> set (format_uint (length content))" "CHR '' '' \<notin> set (format_uint (length content))"
    using format_uint_digits [of _ "length content"] by force+
  have "cut_char newline (?line @ newline # content @ [newline]) = (?line, content @ [newline], True)"
    by (rule cut_char_at) (use clean kind size in auto)
  moreover have "split_char (CHR '' '') ?line = [oid, kind, format_uint (length content)]"
    using clean kind size by (simp add: split_char_Cons split_char_end)
  ultimately show ?thesis
    using cat kind(3) by (auto simp: read_object_def cat_answer_def parse_cat_file_header_def split: option.splits)
qed

lemma kd_read_only:
  assumes "read_commit kd_lib kd_git w format oid = Inr c"
  shows "format = ''sha1'' \<and> oid \<in> {kd_genesis, kd_first, kd_lost, kd_turn}"
proof -
  obtain content where read: "read_object kd_lib kd_git w format oid ''commit'' max_uint64 = Inr content"
    using assms by (auto simp: read_commit_def and_then_Inr)
  then obtain answer where answer: "map_of kd_objects oid = Some answer"
    by (auto simp: read_object_def split: option.splits if_splits)
  then have oid: "oid \<in> {kd_blob, kd_tree, kd_genesis, kd_first, kd_lost, kd_empty, kd_turn}"
    by (auto simp: kd_objects_def split: if_splits)
  obtain n where "object_bytes_of format = Some n" "length oid = n * 2"
    using read_object_ok(4) [OF read] by blast
  then have format: "format = ''sha1''"
    using oid by (auto simp: object_bytes_of_def split: if_splits)
  have clean: "newline \<notin> set (kd_oid n)" "CHR '' '' \<notin> set (kd_oid n)" for n
    using hex_printable [of newline] hex_printable [of "CHR '' ''"] by (auto simp: kd_oid_def)
  have blob: "oid \<noteq> kd_blob"
  proof
    assume "oid = kd_blob"
    then show False
      using read read_other_kind [OF _ clean, of kd_git 8 w "''blob''" kd_event "''commit''"] by (auto simp: kd_objects_def)
  qed
  have tree: "oid \<noteq> kd_tree"
  proof
    assume "oid = kd_tree"
    then show False
      using read read_other_kind [OF _ clean, of kd_git 41 w "''tree''" kd_tree_content "''commit''"]
      by (auto simp: kd_objects_def)
  qed
  have "oid \<noteq> kd_empty"
  proof
    assume "oid = kd_empty"
    then show False
      using read read_other_kind [OF _ clean, of kd_git 7 w "''tree''" "[]" "''commit''"] by (auto simp: kd_objects_def)
  qed
  then show ?thesis
    using oid format blob tree by simp
qed

section \<open>The laws hold\<close>

lemma kd_keeps [simp]: "keeps_objects kd_git w w'"
  by (simp add: keeps_objects_def)

lemma kd_blobs_written: "blobs_written kd_lib kd_git ''sha1''"
  by (auto simp: blobs_written_def split: if_splits)

lemma listing_tab: "\<exists>name oid. e = blob_entry name oid \<or> e = attachments_entry oid \<Longrightarrow> count_list (listing_line e) tab \<ge> 1"
  by (auto simp: listing_line_def blob_entry_def attachments_entry_def)

lemma kd_clean: "kd_oid n \<noteq> []" "tab \<notin> set (kd_oid n)" "newline \<notin> set (kd_oid n)" "zero_byte \<notin> set (kd_oid n)"
proof -
  show "kd_oid n \<noteq> []"
    by (metis kd_width list.size(3) zero_neq_numeral)
  show "tab \<notin> set (kd_oid n)" "newline \<notin> set (kd_oid n)" "zero_byte \<notin> set (kd_oid n)"
    using hex_printable [of tab] hex_printable [of newline] hex_printable [of zero_byte]
    by (auto simp: kd_oid_def)
qed

lemma kd_listing:
  assumes "\<forall>e\<in>set es. \<exists>name oid. e = blob_entry name oid \<or> e = attachments_entry oid"
    and "concat (map listing_line es) = listing_line (blob_entry ''event'' kd_blob)"
  shows "es = [blob_entry ''event'' kd_blob]"
proof -
  have one: "count_list (concat (map listing_line es)) tab = 1"
    using kd_clean(2) [of 8] unfolding assms(2) by (simp add: listing_line_def blob_entry_def count_list_0_iff)
  obtain e rest where es: "es = e # rest"
    using one by (cases es) auto
  have "rest = []"
  proof (cases rest)
    case (Cons f more)
    have "count_list (listing_line e) tab \<ge> 1" "count_list (listing_line f) tab \<ge> 1"
      using assms(1) listing_tab [of e] listing_tab [of f] by (simp_all add: es Cons)
    then show ?thesis
      using one by (simp add: es Cons)
  qed
  then have same: "listing_line e = listing_line (blob_entry ''event'' kd_blob)" and "count_list (listing_line e) tab = 1"
    using assms(2) one by (simp_all add: es)
  moreover obtain name oid where "e = blob_entry name oid"
    using assms(1) same by (auto simp: es listing_line_def blob_entry_def attachments_entry_def)
  ultimately have "e = blob_entry ''event'' kd_blob"
    using kd_clean(2) [of 8] by (auto simp: listing_line_def blob_entry_def count_list_0_iff append_Cons_eq_iff)
  then show ?thesis
    using \<open>rest = []\<close> es by simp
qed

lemma kd_trees_written: "trees_written kd_lib kd_git ''sha1''"
proof -
  have "tree_content (sort_entries [blob_entry ''event'' kd_blob]) = Inr kd_tree_content"
    by (simp add: blob_entry_def kd_oid_def kd_tree_content_def)
  then have "stored_tree kd_lib kd_git w ''sha1'' [blob_entry ''event'' kd_blob] kd_tree" for w
    unfolding stored_tree_def using kd_objects_stored(2) by blast
  moreover have "stored_tree kd_lib kd_git w ''sha1'' [] kd_empty" for w
    by (simp add: stored_tree_def)
  moreover have "concat (map listing_line es) = [] \<Longrightarrow> es = []" for es
    by (cases es) (auto simp: listing_line_def split: if_splits)
  ultimately show ?thesis
    using kd_listing by (auto simp: trees_written_def split: if_splits)
qed

lemma kd_commits_written: "commits_written kd_lib kd_git ''sha1''"
  using kd_read
  by (auto simp: commits_written_def kd_commits_def kd_parsed_def kd_genesis_parts_def kd_first_parts_def
      kd_lost_parts_def kd_turn_parts_def kd_commit_def kd_clean(1) split: if_splits)

lemma kd_sealed: "verify_ssh_signature kd_lib (kd_parsed oid p) (ssh_key_line kd_key) = Inr ()"
  by (rule verify_ssh_signature_printed [of _ kd_mark])
    (simp_all add: kd_key_def kd_mark_def key_size_def sig_size_def kd_parsed_def kd_lib_def)

lemma kd_read_cases:
  assumes "read_commit kd_lib kd_git w format oid = Inr c"
  obtains "format = ''sha1''" "oid = kd_genesis" "c = kd_parsed kd_genesis kd_genesis_parts"
  | "format = ''sha1''" "oid = kd_first" "c = kd_parsed kd_first kd_first_parts"
  | "format = ''sha1''" "oid = kd_lost" "c = kd_parsed kd_lost kd_lost_parts"
  | "format = ''sha1''" "oid = kd_turn" "c = kd_parsed kd_turn kd_turn_parts"
  using kd_read_only [OF assms] assms kd_read [of w] by auto

lemma key_line_trimmed:
  assumes "parse_ssh_public_key k = Inr rk"
  shows "trim_space k = k"
proof -
  obtain raw body where rk: "rk = (raw, body)"
    by (cases rk)
  have k: "k = ''ssh-ed25519 '' @ b64_std_encode raw"
    using assms parse_ssh_public_key_ok(2) unfolding rk by blast
  have "last k \<in> set (b64_std_encode raw) \<or> last k = CHR '' ''"
    by (cases "b64_std_encode raw = []") (auto simp: k)
  moreover have "raw \<noteq> []"
    using assms unfolding rk
    by (auto simp: parse_ssh_public_key_def ssh_wire_string_def split: list.splits if_splits option.splits)
  then have "b64_std_encode raw \<noteq> []"
    using groups_no_padding [of raw False] by (simp add: b64_std_encode_def)
  ultimately have "32 < byte_val (last k)" "byte_val (last k) < 128"
    using std_alphabet [of "last k" raw] by (auto simp: k)
  then show ?thesis
    by (simp add: trim_space_def trim_right_printable trim_left_printable k)
qed

lemma kd_verification_agrees: "verification_agrees kd_lib kd_git ''sha1''"
proof -
  have "verify_ssh_signature kd_lib c key = Inr ()"
    if verified: "verify_ssh_commit kd_git oid ''sequencer'' key w = Inr ()"
      and read: "read_commit kd_lib kd_git w ''sha1'' oid = Inr c" for oid key w c
  proof -
    obtain rk where "parse_ssh_public_key key = Inr rk" "trim_space key @ [newline] = ssh_key_line kd_key @ [newline]"
      using verified by (auto simp: verify_ssh_commit_def and_then_Inr)
    then have "key = ssh_key_line kd_key"
      using key_line_trimmed by simp
    then show ?thesis
      using read by (auto elim!: kd_read_cases intro!: kd_sealed)
  qed
  then show ?thesis
    unfolding verification_agrees_def by blast
qed

lemma kd_prints_objects: "prints_objects kd_lib kd_git ''sha1''"
proof -
  have "commit_message kd_git oid w = Inr (normalize_genesis_message (cx_message c))"
    if "read_commit kd_lib kd_git w format oid = Inr c" for oid c format w
    using that
    by (auto elim!: kd_read_cases simp: commit_message_def kd_messages_def normalize_genesis_message_def kd_parsed_def)
  then have "shows_messages kd_lib kd_git w" for w
    unfolding shows_messages_def by blast
  moreover have "map_of kd_lists oid = Some (l @ [oid])"
    if read: "read_commit kd_lib kd_git w ''sha1'' oid = Inr c" and "cx_parents c = [p]" "map_of kd_lists p = Some l"
    for oid c p l w
    using read
    by (rule kd_read_cases) (use that(2,3) in \<open>auto simp: kd_parsed_def kd_genesis_parts_def kd_first_parts_def
        kd_lost_parts_def kd_turn_parts_def kd_commit_def kd_lists_def\<close>)
  moreover have "map_of kd_lists oid = Some [oid]"
    if read: "read_commit kd_lib kd_git w ''sha1'' oid = Inr c" and "cx_parents c = []" for oid c w
    using read
    by (rule kd_read_cases) (use that(2) in \<open>auto simp: kd_parsed_def kd_genesis_parts_def kd_first_parts_def
        kd_lost_parts_def kd_turn_parts_def kd_commit_def kd_lists_def\<close>)
  ultimately show ?thesis
    unfolding prints_objects_def kd_git_simps by blast
qed

lemma kd_one_format: "one_format kd_git ''sha1''"
  by (auto simp: one_format_def object_bytes_of_def kd_objects_def split: if_splits)

lemma kd_laws: "git_laws kd_lib kd_git ''sha1''"
  using kd_hash_sizes kd_blobs_written kd_trees_written kd_commits_written kd_verification_agrees kd_prints_objects
    kd_one_format
  by (auto simp: git_laws_def objects_kept_def refs_updated_def split: if_splits)

end
