(* ===== verification/KernelRuns.thy ===== *)
theory KernelRuns
  imports KernelDemo
begin

text \<open>The runs of the small repository: a founding, two submissions and a rotation.\<close>

section \<open>The founding\<close>

lemma kd_key_line: "parse_ssh_public_key (ssh_key_line (replicate 32 c)) = Inr (ssh_key_wire (replicate 32 c), replicate 32 c)"
  by (rule parse_ssh_key_line) (simp add: key_size_def)

lemma kd_valid_key: "valid_ssh_public_key (ssh_key_line (replicate 32 c))"
  by (simp add: valid_ssh_public_key_def kd_key_line)

lemma kd_cbor: "canonical_cbor kd_lib"
  using valid_key_text [OF kd_valid_key [of "CHR ''k''"]] valid_key_text [OF kd_valid_key [of "CHR ''l''"]]
  by (simp add: canonical_cbor_def text_descriptor_def kd_lib_def kd_descriptor_def kd_successor_def kd_key_def)

lemma kd_continues: "continues_text kd_descriptor"
  by (simp add: continues_text_def kd_descriptor_def)

lemma kd_genesis_message: "genesis_message kd_lib kd_descriptor = Inr (cp_message kd_genesis_parts)"
  using kd_valid_key [of "CHR ''k''"]
  by (simp add: genesis_message_def encode_genesis_def validate_genesis_def kd_descriptor_def kd_lib_def kd_key_def
      kd_genesis_parts_def kd_commit_def)

lemma kd_verify_commit:
  "verify_ssh_commit kd_git oid ''sequencer'' (ssh_key_line kd_key) w = Inr ()"
  using kd_key_line [of "CHR ''k''"] key_line_trimmed by (simp add: verify_ssh_commit_def kd_key_def)

lemma kd_founded: "create_log kd_lib kd_git kd_descriptor ''s'' [] = (Inr kd_genesis, kd_genesis)"
proof -
  have d: "gd_object_format kd_descriptor = ''sha1''" "gd_sequencer_key kd_descriptor = ssh_key_line kd_key"
    by (simp_all add: kd_descriptor_def)
  show ?thesis
    using kd_clean(1)
    by (simp add: create_log_def d empty_tree_def kd_genesis_message kd_commits_def kd_verify_commit)
qed

lemma kd_scan_genesis:
  "scan_head kd_lib kd_git w kd_genesis kd_genesis False = Inr (log_of kd_lib kd_genesis kd_genesis 0 [] (ssh_key_line kd_key))"
proof -
  obtain w' where "verify_log kd_lib kd_git kd_genesis kd_genesis
      = (Inr (log_of kd_lib kd_genesis kd_genesis 0 [] (gd_sequencer_key kd_descriptor)), w')"
    using founded_log [OF kd_laws kd_cbor kd_founded] kd_continues by auto
  then have "scan_head kd_lib kd_git w' kd_genesis kd_genesis False
      = Inr (log_of kd_lib kd_genesis kd_genesis 0 [] (ssh_key_line kd_key))"
    using kd_clean(1) by (auto simp: verify_log_def store_head_def kd_descriptor_def)
  then show ?thesis
    by (rule scan_head_kept [OF kd_laws kd_keeps])
qed

section \<open>The submissions\<close>

definition kd_request :: "string list \<Rightarrow> request" where
  "kd_request rests = \<lparr>rq_signed = kd_signed rests, rq_payload = kd_event, rq_attachments = [], rq_capability_proof = []\<rparr>"

definition kd_options :: "string options" where
  "kd_options = \<lparr>op_signing_key = ''s'', op_max_retries = 0, op_pre_append = None, op_post_dedup = None,
     op_max_queue_depth = 0\<rparr>"

definition kd_prepared :: "string list \<Rightarrow> prepared" where
  "kd_prepared rests = \<lparr>pp_intent = kd_intent rests, pp_format = ''sha1'', pp_target = kd_genesis,
     pp_message = kd_message rests, pp_tree = kd_tree\<rparr>"

lemma kd_typed: "parse_typed_oid (typed_oid ''sha1'' (kd_oid n)) = Inr (''sha1'', kd_oid n)"
proof -
  have "CHR '':'' \<notin> set (kd_oid n)"
    using hex_encode_lower [of "replicate 20 (char_of n)"] by (force simp: kd_oid_def is_lower_hex_def list_all_iff)
  then show ?thesis
    using kd_clean(1) split_char_Cons [of "CHR '':''" "''git''"] split_char_Cons [of "CHR '':''" "''sha1''"]
    by (simp add: parse_typed_oid_def typed_oid_def split_char_end)
qed

lemma kd_bytes: "c \<in> set (kd_oid n) \<Longrightarrow> 48 \<le> byte_val c"
  using hex_printable [of c] by (simp add: kd_oid_def)

lemma kd_verified:
  assumes "rests \<in> set kd_rests"
  shows "verify_signed kd_lib (kd_signed rests) = Inr (kd_intent rests)"
proof -
  have target: "field_error (x, typed_oid ''sha1'' (kd_oid n)) = None" for x n
    by (auto simp: field_error_def typed_oid_def max_string_bytes_def contains_any_def list_ex_iff dest!: kd_bytes)
  have "field_error (x, [c]) = None" if "c = CHR ''s'' \<or> c = CHR ''n'' \<or> c = CHR ''k''" for x c
    using that by (auto simp: field_error_def max_string_bytes_def contains_any_def)
  moreover have "\<not> list_ex (\<lambda>r. \<not> valid_reference r) rests" "length rests \<le> max_causal_references"
    using assms
    by (auto simp: kd_rests_def valid_reference_def max_string_bytes_def max_causal_references_def contains_any_def)
  ultimately have "validate (kd_intent rests) = None"
    using target by (simp add: validate_def kd_intent_def intent_version_def)
  moreover have "kl_read_intent kd_lib (kd_encoding rests) = Some (kd_intent rests)"
    "kl_intent kd_lib (kd_intent rests) = Some (kd_encoding rests)"
    using assms by (auto simp: kd_lib_def kd_rests_def kd_encoding_def kd_intent_def)
  ultimately show ?thesis
    by (simp add: verify_signed_def kd_signed_def decode_intent_def signing_bytes_def key_size_def sig_size_def
        kd_key_def kd_mark_def)
qed

lemma kd_dedup:
  assumes "rests \<in> set kd_rests"
  shows "dedup_key kd_lib (kd_signed rests)
    = Inr (dedup_identity kd_lib (typed_oid ''sha1'' kd_genesis) kd_key ''n'' ''k'')"
  using kd_verified [OF assms] by (simp add: dedup_key_def kd_intent_def kd_signed_def)

lemma kd_descriptor_read: "descriptor kd_lib kd_git w kd_genesis = Inr kd_descriptor"
proof -
  note trip = genesis_message_read [OF kd_cbor kd_genesis_message]
  have "commit_message kd_git kd_genesis w = Inr (cp_message kd_genesis_parts)"
    using trip(2) by (simp add: commit_message_def kd_messages_def normalize_genesis_message_def)
  then show ?thesis
    using trip(1) kd_continues by (simp add: descriptor_def)
qed

lemma kd_message_length: "rests \<in> set kd_rests \<Longrightarrow> length (kd_message rests) \<le> 250"
  by (auto simp: kd_rests_def kd_message_def envelope_def kd_signed_def kd_encoding_def b64_encode_def length_b64_groups
      event_marker_def kd_key_def kd_mark_def)

lemma kd_go_request:
  assumes "rests \<in> set kd_rests"
  shows "go_request kd_lib (kd_request rests)"
  using kd_message_length [OF assms] kd_verified [OF assms]
  by (auto simp: go_request_def kd_request_def kd_event_def max_int_def kd_message_def kd_intent_def)

lemma kd_judged:
  assumes "rests \<in> set kd_rests"
  shows "judge_size (measure_request (kd_message rests) (kd_request rests)) (gd_payload_ceiling kd_descriptor) = Inr ()"
proof -
  have "addressable (kd_message rests) (kd_request rests)"
    using go_request_addressable [OF kd_go_request [OF assms], of "kd_intent rests"] kd_verified [OF assms]
    by (simp add: kd_request_def kd_message_def kd_intent_def)
  then show ?thesis
    using kd_message_length [OF assms]
    by (simp add: judge_exact kd_request_def kd_event_def attachment_bytes_def kd_descriptor_def)
qed

lemma kd_checked:
  assumes "rests \<in> set kd_rests" "w \<noteq> []"
  shows "check_submission kd_lib kd_git kd_options (kd_request rests) w = (Inr (kd_prepared rests), w)"
proof -
  have i: "in_target (kd_intent rests) = typed_oid ''sha1'' kd_genesis" "in_capability_hash (kd_intent rests) = []"
    "in_rests_on (kd_intent rests) = rests" "in_payload_tree (kd_intent rests) = typed_oid ''sha1'' kd_tree"
    by (simp_all add: kd_intent_def)
  have rq: "rq_signed (kd_request rests) = kd_signed rests" "rq_capability_proof (kd_request rests) = []"
    "rq_payload (kd_request rests) = kd_event" "rq_attachments (kd_request rests) = []"
    by (simp_all add: kd_request_def)
  obtain message where "commit_message kd_git kd_genesis w = Inr message" "parse_genesis_message kd_lib message = Inr kd_descriptor"
    using kd_descriptor_read [of w] by (auto simp: descriptor_def and_then_Inr)
  moreover have "write_payload_tree kd_git kd_event [] w = (Inr kd_tree, w)"
    using listing_tab [of "blob_entry ''event'' kd_blob"]
    by (simp add: write_payload_tree_def listing_line_def blob_entry_def)
  ultimately show ?thesis
    using assms(2) kd_judged [OF assms(1), unfolded kd_message_def] kd_verified [OF assms(1)]
    by (simp add: check_submission_def rq i capability_matches_def kd_typed store_head_def Let_def
        hook_refuses_def kd_options_def kd_prepared_def kd_message_def)
qed

definition kd_result :: "nat \<Rightarrow> submission_result" where
  "kd_result n = \<lparr>sb_commit = kd_oid n, sb_head = kd_oid n, sb_replay = False, sb_cas_retries = 0,
     sb_base_head = kd_genesis, sb_timestamp = 7\<rparr>"

lemma kd_prepared_simps [simp]:
  "pp_intent (kd_prepared rests) = kd_intent rests" "pp_format (kd_prepared rests) = ''sha1''"
  "pp_target (kd_prepared rests) = kd_genesis" "pp_message (kd_prepared rests) = kd_message rests"
  "pp_tree (kd_prepared rests) = kd_tree" "in_rests_on (kd_intent rests) = rests"
  "rq_signed (kd_request rests) = kd_signed rests"
  by (simp_all add: kd_prepared_def kd_intent_def kd_request_def)

abbreviation kd_founded_log :: scanned_log where
  "kd_founded_log \<equiv> log_of kd_lib kd_genesis kd_genesis 0 [] (ssh_key_line kd_key)"

lemma kd_attempt:
  assumes free: "resolve_references ''sha1'' kd_genesis kd_founded_log rests = Inr ()"
    and commit: "map_of kd_commits (kd_tree, kd_genesis, kd_message rests) = Some (kd_oid n)"
  shows "submit_attempt kd_lib kd_git kd_options (kd_request rests) (kd_prepared rests) key 0 None kd_genesis
    = (Inr (Some (kd_result n)), None, kd_oid n)"
proof -
  have fields: "sl_dedup kd_founded_log k = None" "sl_sequencer_key kd_founded_log = ssh_key_line kd_key" for k
    by (simp_all add: log_of_def retry_index_def)
  have current: "current_log kd_lib kd_git kd_genesis None kd_genesis = (Inr (kd_genesis, kd_founded_log), None, kd_genesis)"
    using kd_clean(1) kd_scan_genesis [of kd_genesis] by (simp add: current_log_def store_head_def)
  have judged: "judge_attempt kd_options (kd_request rests) (kd_prepared rests) key 0 kd_genesis kd_founded_log w = Inr None" for w
    using free by (simp add: judge_attempt_def fields dedup_prior_def hook_refuses_def kd_options_def)
  have "chain_commit kd_git (sequence_ref kd_genesis) kd_genesis (ssh_key_line kd_key)
      (submitted_commit kd_lib kd_options (kd_request rests) (kd_prepared rests) kd_genesis) kd_genesis
    = (Inr (Some (kd_oid n, 7)), kd_oid n)"
    using kd_clean(1) commit by (simp add: chain_commit_def kd_verify_commit)
  then show ?thesis
    by (simp only: submit_attempt_def kd_prepared_simps current judged fields submitted_commit_def [symmetric]
        prod.case sum.case option.case kd_result_def option.map)
      (simp add: submitted_commit_def)
qed

lemma kd_run:
  assumes "rests \<in> set kd_rests" "resolve_references ''sha1'' kd_genesis kd_founded_log rests = Inr ()"
    and "map_of kd_commits (kd_tree, kd_genesis, kd_message rests) = Some (kd_oid n)"
  shows "submit kd_lib kd_git (kd_request rests) kd_options None kd_genesis = (Inr (kd_result n), None, kd_oid n)"
proof -
  obtain k where "nat (retry_limit (op_max_retries kd_options)) = Suc k"
    by (rule that [of 31]) (simp add: retry_limit_def kd_options_def)
  then show ?thesis
    using kd_checked [OF assms(1) kd_clean(1)] kd_dedup [OF assms(1)] kd_attempt [OF assms(2,3)]
    by (simp add: submit_def)
qed

lemma kd_messages_differ: "kd_message [''a ''] \<noteq> kd_message []"
proof -
  have "length (kd_message [''a '']) \<noteq> length (kd_message [])"
    by (simp add: kd_message_def envelope_def kd_signed_def kd_encoding_def b64_encode_def length_b64_groups)
  then show ?thesis by metis
qed

lemma kd_submitted:
  "submit kd_lib kd_git (kd_request []) kd_options None kd_genesis = (Inr (kd_result 74), None, kd_first)"
  "submit kd_lib kd_git (kd_request [''a '']) kd_options None kd_genesis = (Inr (kd_result 89), None, kd_lost)"
  using kd_messages_differ kd_clean(1) by (auto intro!: kd_run simp: kd_rests_def kd_commits_def in_log_event_def)

lemma kd_survives: "survives []" "\<not> survives [''a '']"
proof -
  have "has_suffix [CHR '' ''] ''a ''"
    by (simp add: has_suffix_append)
  then show "\<not> survives [''a '']"
    using trim_right_fixed space_white by (fastforce simp: survives_def)
qed (simp add: survives_def)

section \<open>The rotation\<close>

lemma kd_rotated:
  "rotate kd_lib kd_git kd_genesis kd_successor kd_options kd_genesis = (Inr (kd_result 178), kd_turn)"
proof -
  have message: "rotation_message kd_lib kd_successor = Inr (cp_message kd_turn_parts)"
    using kd_valid_key [of "CHR ''l''"]
    by (simp add: rotation_message_def kd_lib_def kd_successor_def kd_turn_parts_def kd_commit_def)
  have room: "length (cp_message kd_turn_parts) \<le> unat (gd_payload_ceiling kd_descriptor)"
    by (simp add: kd_turn_parts_def kd_commit_def descriptor_message_def rotation_marker_def b64_encode_def
        length_b64_groups kd_descriptor_def)
  have key: "ssh_key_line kd_key \<noteq> kd_successor"
  proof
    assume "ssh_key_line kd_key = kd_successor"
    then have "parse_ssh_public_key (ssh_key_line kd_key) = parse_ssh_public_key kd_successor"
      by simp
    then show False
      by (simp add: kd_key_def kd_successor_def kd_key_line)
  qed
  have chain: "chain_commit kd_git (sequence_ref kd_genesis) kd_genesis (ssh_key_line kd_key)
      (rotation_commit kd_options kd_empty (cp_message kd_turn_parts) kd_genesis) kd_genesis
    = (Inr (Some (kd_turn, 7)), kd_turn)"
    using kd_clean(1) by (simp add: chain_commit_def kd_verify_commit kd_commits_def)
  obtain k where "nat (retry_limit (op_max_retries kd_options)) = Suc k"
    by (rule that [of 31]) (simp add: retry_limit_def kd_options_def)
  then show ?thesis
    using room key kd_clean(1) kd_scan_genesis [of kd_genesis] chain
    by (simp add: rotate_def message kd_descriptor_read empty_tree_def store_head_def log_of_def kd_result_def
        rotation_commit_def)
qed

end
