(* ===== verification/KernelQueue.thy ===== *)
theory KernelQueue
  imports KernelMachine "HOL-Library.Multiset"
begin

text \<open>
  Many callers of one resident submitter, in every interleaving of their atomic steps: how many can be
  inside at once, what the counter says, and that what they do to the log and to the cache is what
  some of their requests do one after the other.
\<close>

section \<open>Where a caller stands\<close>

fun inside :: "caller \<Rightarrow> bool" where
  "inside (Admitted rq) = True"
| "inside (Leaving r) = True"
| "inside c = False"

fun counted :: "caller \<Rightarrow> bool" where
  "counted (Counted rq depth) = True"
| "counted c = inside c"

text \<open>Inside, or sure to be.\<close>

fun passing :: "int \<Rightarrow> caller \<Rightarrow> bool" where
  "passing limit (Counted rq depth) = (depth \<le> limit)"
| "passing limit c = inside c"

fun pending :: "caller \<Rightarrow> request multiset" where
  "pending (Calling rq) = {#rq#}"
| "pending (Counted rq depth) = {#rq#}"
| "pending (Admitted rq) = {#rq#}"
| "pending c = {#}"

lemma inside_passing: "inside c \<Longrightarrow> passing limit c"
  by (cases c) simp_all

lemma passing_counted: "passing limit c \<Longrightarrow> counted c"
  by (cases c) simp_all

section \<open>Sums over the callers\<close>

lemma weight_update:
  "i < length xs \<Longrightarrow> sum_list (map f (xs[i := x])) + f (xs ! i) = sum_list (map f xs) + f x"
  for f :: "'a \<Rightarrow> 'b :: comm_monoid_add"
  by (induction xs arbitrary: i) (auto simp: ac_simps split: nat.split)

definition number :: "(caller \<Rightarrow> bool) \<Rightarrow> caller list \<Rightarrow> int" where
  "number P cs = sum_list (map (\<lambda>c. of_bool (P c)) cs)"

lemma number_length: "number P cs = int (length (filter P cs))"
  by (induction cs) (simp_all add: number_def)

lemma number_update:
  "i < length cs \<Longrightarrow> number P (cs[i := c]) = number P cs + of_bool (P c) - of_bool (P (cs ! i))"
  using weight_update [of i cs "\<lambda>c. of_bool (P c) :: int" c] by (simp add: number_def)

lemma number_mono: "(\<And>c. P c \<Longrightarrow> Q c) \<Longrightarrow> number P cs \<le> number Q cs"
  unfolding number_def by (intro sum_list_mono) auto

section \<open>One step\<close>

lemma locked_submit_parts:
  assumes "locked_submit L G opts rq sm w = (r, sm', w')"
  shows "sm_in_flight sm' = sm_in_flight sm"
    "sm_cache sm2 = sm_cache sm \<Longrightarrow> resident_step L G (sm2, w) (rq, opts) = Some (sm2\<lparr>sm_cache := sm_cache sm'\<rparr>, w')"
proof -
  obtain x c v where s: "submit L G rq opts (Some (sm_cache sm)) w = (x, c, v)"
    by (cases "submit L G rq opts (Some (sm_cache sm)) w")
  then show "sm_in_flight sm' = sm_in_flight sm"
    using assms by (cases c) (auto simp: locked_submit_def)
  assume "sm_cache sm2 = sm_cache sm"
  then show "resident_step L G (sm2, w) (rq, opts) = Some (sm2\<lparr>sm_cache := sm_cache sm'\<rparr>, w')"
    using assms s by (cases c) (auto simp: locked_submit_def resident_step_def)
qed

lemma caller_step_counts:
  assumes "0 < op_max_queue_depth opts" and "caller_step L G opts c sm w = (c', sm', w')"
  shows "sm_in_flight sm' = sm_in_flight sm + of_bool (counted c') - of_bool (counted c)"
    "passing (op_max_queue_depth opts) c' \<Longrightarrow> \<not> passing (op_max_queue_depth opts) c \<Longrightarrow>
      sm_in_flight sm' \<le> op_max_queue_depth opts"
  using assms locked_submit_parts(1)
  by (cases c; fastforce simp: add_in_flight_def Let_def split: if_splits prod.splits)+

lemma caller_step_effect:
  assumes "caller_step L G opts c sm w = (c', sm', w')"
  shows "(sm_cache sm' = sm_cache sm \<and> w' = w \<and> pending c' \<subseteq># pending c)
    \<or> (\<exists>rq r. c = Admitted rq \<and> c' = Leaving r \<and> locked_submit L G opts rq sm w = (r, sm', w'))"
  using assms by (cases c) (auto simp: add_in_flight_def Let_def split: if_splits prod.splits)

section \<open>Every schedule\<close>

definition queue_inv ::
  "('l) kernel_lib_scheme \<Rightarrow> 'w git \<Rightarrow> 'w options \<Rightarrow> request list \<Rightarrow> submitter \<times> 'w \<Rightarrow> caller list \<times> submitter \<times> 'w \<Rightarrow> bool"
where
  "queue_inv L G opts requests start s \<longleftrightarrow> (case s of (cs, sm, w) \<Rightarrow>
     sm_in_flight sm = number counted cs
     \<and> number (passing (op_max_queue_depth opts)) cs \<le> op_max_queue_depth opts
     \<and> (\<exists>served sm'. run_steps (resident_step L G) start (map (\<lambda>rq. (rq, opts)) served) = Some (sm', w)
          \<and> sm_cache sm' = sm_cache sm \<and> mset served + sum_list (map pending cs) \<subseteq># mset requests))"

lemma queue_inv_step:
  assumes limit: "0 < op_max_queue_depth opts" and inv: "queue_inv L G opts requests start (cs, sm, w)"
    and i: "i < length cs" and step: "caller_step L G opts (cs ! i) sm w = (c', sm', w')"
  shows "queue_inv L G opts requests start (cs[i := c'], sm', w')"
proof -
  let ?limit = "op_max_queue_depth opts"
  have count: "sm_in_flight sm = number counted cs" and few: "number (passing ?limit) cs \<le> ?limit"
    using inv by (simp_all add: queue_inv_def)
  obtain served sm2 where run: "run_steps (resident_step L G) start (map (\<lambda>rq. (rq, opts)) served) = Some (sm2, w)"
    and cache: "sm_cache sm2 = sm_cache sm" and from_them: "mset served + sum_list (map pending cs) \<subseteq># mset requests"
    using inv by (auto simp: queue_inv_def)
  note counts = caller_step_counts [OF limit step]
  have count': "sm_in_flight sm' = number counted (cs[i := c'])"
    using counts(1) count number_update [OF i] by simp
  have few': "number (passing ?limit) (cs[i := c']) \<le> ?limit"
  proof (cases "passing ?limit c' \<and> \<not> passing ?limit (cs ! i)")
    case True
    have "number (passing ?limit) (cs[i := c']) \<le> number counted (cs[i := c'])"
      by (rule number_mono) (rule passing_counted)
    then show ?thesis
      using counts(2) True count' by simp
  next
    case False
    then show ?thesis
      using few number_update [OF i, of "passing ?limit"] by auto
  qed
  note weight = weight_update [OF i, of pending c']
  have served': "\<exists>served sm2. run_steps (resident_step L G) start (map (\<lambda>rq. (rq, opts)) served) = Some (sm2, w')
      \<and> sm_cache sm2 = sm_cache sm' \<and> mset served + sum_list (map pending (cs[i := c'])) \<subseteq># mset requests"
    using caller_step_effect [OF step]
  proof (elim disjE exE conjE)
    assume same: "sm_cache sm' = sm_cache sm" "w' = w" and less: "pending c' \<subseteq># pending (cs ! i)"
    have "sum_list (map pending (cs[i := c'])) \<subseteq># sum_list (map pending cs)"
      using weight less by (metis subset_mset.add_le_cancel_right subset_mset.add_left_mono)
    then have "mset served + sum_list (map pending (cs[i := c'])) \<subseteq># mset requests"
      using from_them by (meson subset_mset.add_left_mono subset_mset.order_trans)
    then show ?thesis
      using run cache same by auto
  next
    fix rq r
    assume c: "cs ! i = Admitted rq" "c' = Leaving r" and locked: "locked_submit L G opts rq sm w = (r, sm', w')"
    have more: "run_steps (resident_step L G) start (map (\<lambda>rq. (rq, opts)) (served @ [rq]))
        = Some (sm2\<lparr>sm_cache := sm_cache sm'\<rparr>, w')"
      using run locked_submit_parts(2) [OF locked cache] by (simp add: run_steps_append)
    have "mset (served @ [rq]) + sum_list (map pending (cs[i := c'])) = mset served + sum_list (map pending cs)"
      using weight c by (simp add: ac_simps)
    then have "mset (served @ [rq]) + sum_list (map pending (cs[i := c'])) \<subseteq># mset requests"
      using from_them by (simp only:)
    with more show ?thesis
      by (intro exI [of _ "served @ [rq]"] exI [of _ "sm2\<lparr>sm_cache := sm_cache sm'\<rparr>"]) simp
  qed
  show ?thesis
    using count' few' served' by (simp add: queue_inv_def)
qed

lemma queue_inv_run:
  "0 < op_max_queue_depth opts \<Longrightarrow> queue_inv L G opts requests start s
    \<Longrightarrow> queue_inv L G opts requests start (queue_run L G opts schedule s)"
proof (induction L G opts schedule s rule: queue_run.induct)
  case (2 L G opts i schedule cs sm w)
  then show ?case
    using queue_inv_step [OF 2(2), of L G requests start cs sm w i] by (auto split: prod.split)
qed simp

lemma queue_inv_start:
  assumes "0 < op_max_queue_depth opts" "sm_in_flight sm = 0"
  shows "queue_inv L G opts requests (sm, w) (map Calling requests, sm, w)"
proof -
  have none: "number P (map Calling requests) = 0" if "\<And>rq. \<not> P (Calling rq)" for P
    using that by (simp add: number_def comp_def)
  have "sum_list (map pending (map Calling requests)) = mset requests"
    by (induction requests) simp_all
  then show ?thesis
    using assms none [of counted] none [of "passing (op_max_queue_depth opts)"]
    by (auto simp: queue_inv_def intro!: exI [of _ "[]"])
qed

end
