(* ===== verification/KernelProps.thy ===== *)
theory KernelProps
  imports KernelReading KernelRuns KernelQueue
begin

text \<open>The properties of the kernel, each with a run of the small repository as its witness.\<close>

section \<open>What a scan decides\<close>

text \<open>
  C21: The scan of a log decides exactly the declarative chain. It returns a log if and only if the
  commits listed from the head form one line from a signed genesis whose descriptor matches the format,
  every commit names its predecessor as its only parent and is signed by the sequencer key in force,
  every commit is a decoded event or a rotation to another key, and no retry identity stands twice; and
  the log it returns is the one of that chain.
\<close>

theorem scan_refines_chain:
  "scan_head L G w genesis head load = Inr log \<longleftrightarrow>
     (\<exists>rest d es key. gt_rev_list G head w = Some (genesis # rest) \<and> last (genesis # rest) = head
        \<and> gt_batch_ends G w \<and> sound_genesis L G w genesis d
        \<and> audits L G w (gd_object_format d) d genesis load (gd_sequencer_key d) genesis rest es key
        \<and> distinct (map (retry_key L) es) \<and> log = log_of L genesis head (length rest) es key)"
  unfolding scan_decides audited_log_def ..

section \<open>Submissions\<close>

text \<open>
  C22: What the sequencer accepts, every auditor accepts. When Git behaves as documented and a
  submission whose last reference does not end in white space returns a new commit, with or without a
  cache, then the log verifies at the head the submission left; that log is the one the submission was
  judged against with exactly the submitted event at its end; the payload reads back within the budget
  the envelope leaves; and the cache still stands for its log.
\<close>

theorem accepted_submission_verifies:
  assumes "git_laws L G format" and "go_request L rq" and "\<forall>c. cache = Some c \<longrightarrow> coherent_cache L G w c"
    and "verify_signed L (rq_signed rq) = Inr i" and "survives (in_rests_on i)"
    and "submit L G rq opts cache w = (Inr r, cache', w')" and "\<not> sb_replay r"
  shows "\<exists>target log w'' d tree. in_target i = typed_oid format target
    \<and> scan_head L G w' target (sb_base_head r) False = Inr log
    \<and> verify_log L G target w' = (Inr (extended L
         \<lparr>ev_commit = sb_commit r, ev_timestamp = sb_timestamp r, ev_intent = i, ev_signed = rq_signed rq,
          ev_payload_tree = in_payload_tree i, ev_payload = [], ev_attachments = []\<rparr> log), w'')
    \<and> descriptor L G w' target = Inr d \<and> parse_typed_oid (in_payload_tree i) = Inr (format, tree)
    \<and> payload_tree L G w' format tree
         (unat (gd_payload_ceiling d) - length (envelope (rq_signed rq) (in_rests_on i))) True
       = Inr (rq_payload rq, sorted_attachments (rq_attachments rq))
    \<and> (\<forall>c. cache' = Some c \<longrightarrow> coherent_cache L G w' c)"
proof -
  obtain pp where pp: "pp_intent pp = i" and ready: "ready L G rq format pp w'"
    and left: "sequenced L G rq pp r w'" and coherent: "coherent_in L G w' cache'"
    by (rule submit_sequenced [OF assms])
  obtain log w'' where log: "scan_head L G w' (pp_target pp) (sb_base_head r) False = Inr log"
    "verify_log L G (pp_target pp) w' = (Inr (extended L (sequenced_event rq pp r) log), w'')"
    by (rule sequenced_verifies [OF assms(1) left])
  obtain d where d: "descriptor L G w' (pp_target pp) = Inr d"
    using ready by (auto simp: ready_def)
  show ?thesis
    using log d coherent pp ready payload_readable(1) [OF assms(1,2) ready d, of True]
    by (intro exI [of _ "pp_target pp"] exI [of _ log] exI [of _ w''] exI [of _ d] exI [of _ "pp_tree pp"])
      (simp add: ready_def sequenced_event_def)
qed

lemma typed_oid_genesis: "typed_oid ''sha1'' kd_genesis = typed_oid format target \<Longrightarrow> format = ''sha1'' \<Longrightarrow> target = kd_genesis"
  by (simp add: typed_oid_def)

theorem accepted_submission_verifies_witness:
  "\<exists>log w''. scan_head kd_lib kd_git kd_first kd_genesis kd_genesis False = Inr log
    \<and> verify_log kd_lib kd_git kd_genesis kd_first = (Inr (extended kd_lib
         \<lparr>ev_commit = kd_first, ev_timestamp = 7, ev_intent = kd_intent [], ev_signed = kd_signed [],
          ev_payload_tree = typed_oid ''sha1'' kd_tree, ev_payload = [], ev_attachments = []\<rparr> log), w'')"
proof -
  have rests: "[] \<in> set kd_rests"
    by (simp add: kd_rests_def)
  have verified: "verify_signed kd_lib (rq_signed (kd_request [])) = Inr (kd_intent [])"
    using kd_verified [OF rests] by simp
  from accepted_submission_verifies [OF kd_laws kd_go_request [OF rests] _ verified _ kd_submitted(1)]
  show ?thesis
    by (auto simp: kd_survives kd_result_def kd_intent_def typed_oid_def kd_request_def)
qed

text \<open>
  C23: A submission is accepted and then refused by every reader. An intent whose last reference ends
  in white space is valid; when its submission returns a new commit, the reference names that commit,
  and the log verifies there no more, nor does a scan, with or without payloads, of any head whose
  history holds the commit, in that world or in any later one that keeps its objects: the reader trims
  the commit message before it parses the envelope and finds other references than the signed ones.
\<close>

theorem lost_reference_unverifiable:
  assumes "git_laws L G format" and "go_request L rq" and "\<forall>c. cache = Some c \<longrightarrow> coherent_cache L G w c"
    and "verify_signed L (rq_signed rq) = Inr i" and "\<not> survives (in_rests_on i)"
    and "submit L G rq opts cache w = (Inr r, cache', w')" and "\<not> sb_replay r"
    and "in_target i = typed_oid format target"
  shows "fst (gt_head G (sequence_ref target) w') = Some (sb_commit r)
    \<and> (\<forall>log. fst (verify_log L G target w') \<noteq> Inr log)
    \<and> (\<forall>v head l load log. keeps_objects G w' v \<and> gt_rev_list G head v = Some l \<and> sb_commit r \<in> set l
         \<longrightarrow> scan_head L G v target head load \<noteq> Inr log)"
  using lost_reference [OF assms] unscannable_unverified [OF assms(1)] by blast

theorem lost_reference_unverifiable_witness:
  "fst (submit kd_lib kd_git (kd_request [''a '']) kd_options None kd_genesis) = Inr (kd_result 89)
    \<and> (\<forall>log. fst (verify_log kd_lib kd_git kd_genesis kd_lost) \<noteq> Inr log)"
proof (intro conjI allI)
  fix log
  have rests: "[''a ''] \<in> set kd_rests"
    by (simp add: kd_rests_def)
  have verified: "verify_signed kd_lib (rq_signed (kd_request [''a ''])) = Inr (kd_intent [''a ''])"
    using kd_verified [OF rests] by simp
  show "fst (verify_log kd_lib kd_git kd_genesis kd_lost) \<noteq> Inr log"
    using lost_reference_unverifiable [OF kd_laws kd_go_request [OF rests] _ verified _ kd_submitted(2), of kd_genesis]
    by (simp add: kd_survives kd_result_def kd_intent_def)
qed (simp add: kd_submitted)

section \<open>The cache\<close>

lemma eventless: "sl_events log = [] \<Longrightarrow> log\<lparr>sl_events := []\<rparr> = log" for log :: scanned_log
  by (cases log) simp

text \<open>
  C24: The cache is never behind its own head. Whatever an advance does (an exact hit, a verified
  suffix, or the whole log again), whether it returns the payloads or drops them, keeps the events or
  hands them to a sink, the coherent cache it was given stays coherent, and is unchanged when it fails;
  when it succeeds, the cache stands at the head the reference named, and its log is, without the
  events, what a cold scan of that head returns.
\<close>

theorem cache_agrees_with_scan:
  assumes "git_laws L G format" and "coherent_cache L G w c" and "target \<noteq> []"
    and "advance L G target load sink s c w = (r, c', w')"
  shows "coherent_cache L G w' c' \<and> (isl r \<longrightarrow> c' = c)
    \<and> (\<not> isl r \<longrightarrow> lc_target c' = target \<and> fst (gt_head G (sequence_ref target) w) = Some (lc_head c')
        \<and> (\<exists>full. scan_head L G w' target (lc_head c') False = Inr full \<and> lc_log c' = full\<lparr>sl_events := []\<rparr>))"
proof -
  note stands = advance_stands [OF assms]
  have same: "c' = c" if "isl r"
    using assms(4) that unfolding advance_def store_head_def
    by (auto simp: of_option_def split: prod.splits option.splits sum.splits if_splits)
  have agrees: "lc_target c' = target \<and> fst (gt_head G (sequence_ref target) w) = Some (lc_head c')
      \<and> (\<exists>full. scan_head L G w' target (lc_head c') False = Inr full \<and> lc_log c' = full\<lparr>sl_events := []\<rparr>)"
    if there: "\<not> isl r"
  proof -
    obtain a u where "r = Inr (a, u)"
      using there by (cases r) auto
    then have here: "lc_target c' = target" "fst (gt_head G (sequence_ref target) w) = Some (lc_head c')"
      using stands(3) by auto
    have "stands_for L G w' target (lc_head c') (lc_log c') \<and> sl_events (lc_log c') = []"
      using stands(2) here(1) assms(3) by (simp add: coherent_cache_def)
    then obtain full where "scan_head L G w' target (lc_head c') False = Inr full"
      "without_events (lc_log c') = without_events full" "sl_events (lc_log c') = []"
      by (auto simp: stands_for_def)
    moreover from this have "lc_log c' = full\<lparr>sl_events := []\<rparr>"
      using eventless [of "lc_log c'"] by (simp add: without_events_def)
    ultimately show ?thesis
      using here by blast
  qed
  show ?thesis
    using stands(2) same agrees by blast
qed

theorem cache_agrees_with_scan_witness:
  "\<exists>c'. fst (snd (advance kd_lib kd_git kd_genesis False None () new_cache kd_genesis)) = c' \<and> lc_head c' = kd_genesis
    \<and> coherent_cache kd_lib kd_git kd_genesis c'"
proof -
  have head: "gt_head kd_git (sequence_ref kd_genesis) kd_genesis = (Some kd_genesis, kd_genesis)"
    by (simp add: kd_clean(1))
  have "scan_head_into kd_lib kd_git kd_genesis kd_genesis kd_genesis False None () = Inr (kd_founded_log, ())"
    using kd_scan_genesis [of kd_genesis] by (auto simp: scan_head_def and_then_Inr)
  then obtain a c' where went: "advance kd_lib kd_git kd_genesis False None () new_cache kd_genesis = (Inr (a, ()), c', kd_genesis)"
    using kd_clean(1) [of 129] by (auto simp: advance_def store_head_def head new_cache_def cached_delta_def)
  from cache_agrees_with_scan [OF kd_laws coherent_new kd_clean(1) went] show ?thesis
    using head went by simp
qed

text \<open>
  C25: The resident reader answers about a replay what a fresh scan answers. Asked about the head the
  reference holds at that moment, a coherent cache that answers at all gives the answer of CheckReplay: a
  replay, a new request, or the conflict of one retry identity with two signed intents.
\<close>

theorem cached_replay_agrees:
  assumes "git_laws L G format" and "coherent_cache L G w c"
    and "gt_head G (sequence_ref target) w = (Some head, w')"
    and "verify_signed L (rq_signed rq) = Inr i" and "in_target i = typed_oid format target"
    and "parse_typed_oid (in_target i) = Inr (format, target)"
    and "replay_at L c head rq = Some x"
  shows "check_replay L G rq w = (x, w')"
  by (rule cached_replay [OF assms])

theorem cached_replay_agrees_witness:
  "check_replay kd_lib kd_git (kd_request []) kd_genesis = (Inr False, kd_genesis)"
proof -
  have rests: "[] \<in> set kd_rests"
    by (simp add: kd_rests_def)
  have verified: "verify_signed kd_lib (rq_signed (kd_request [])) = Inr (kd_intent [])"
    using kd_verified [OF rests] by simp
  define c where "c = keep_log kd_genesis kd_genesis kd_founded_log new_cache"
  have coherent: "coherent_cache kd_lib kd_git kd_genesis c"
    unfolding c_def using kd_scan_genesis by (intro coherent_keep_log) (auto simp: stands_for_def)
  have target: "in_target (kd_intent []) = typed_oid ''sha1'' kd_genesis"
    by (simp add: kd_intent_def)
  have head: "gt_head kd_git (sequence_ref kd_genesis) kd_genesis = (Some kd_genesis, kd_genesis)"
    by (simp add: kd_clean(1))
  have "replay_at kd_lib c kd_genesis (kd_request []) = Some (Inr False)"
    using kd_verified [OF rests] kd_dedup [OF rests] kd_clean(1)
    by (simp add: replay_at_def target kd_typed stands_at_def c_def keep_log_def log_of_def retry_index_def dedup_prior_def)
  from cached_replay_agrees [OF kd_laws coherent head verified target _ this] show ?thesis
    by (simp add: target kd_typed)
qed

text \<open>
  C26: A suffix scan is a cold scan. When the earlier log verifies and Git lists the commits after it,
  scanning only those gives a log exactly when scanning everything does, and then the same log, whose
  events are the earlier events followed by the new ones.
\<close>

theorem suffix_scan_agrees:
  assumes "scan_head L G w genesis h0 load = Inr log0"
    and "gt_rev_list G h0 w = Some commits0" and "gt_rev_list G head w = Some (commits0 @ later)"
    and "gt_log_after G h0 head w = (later, True)" and "shows_messages L G w"
  shows "ok (scan_head L G w genesis head load) =
    map_option (\<lambda>log. log\<lparr>sl_events := sl_events log0 @ sl_events log\<rparr>)
      (ok (scan_after L G w (log0\<lparr>sl_events := []\<rparr>) head load))"
  using scan_after_suffix [OF assms] by (simp add: after_events_def [abs_def])

theorem suffix_scan_agrees_witness:
  "ok (scan_head kd_lib kd_git kd_first kd_genesis kd_first False) =
    ok (scan_after kd_lib kd_git kd_first kd_founded_log kd_first False)"
proof -
  have lists: "gt_rev_list kd_git kd_genesis kd_first = Some [kd_genesis]"
    "gt_rev_list kd_git kd_first kd_first = Some ([kd_genesis] @ [kd_first])"
    "gt_log_after kd_git kd_genesis kd_first kd_first = ([kd_first], True)"
    by (simp_all add: kd_lists_def) (simp add: kd_git_def kd_lists_def)
  have messages: "shows_messages kd_lib kd_git kd_first"
    using kd_laws by (simp add: git_laws_def prints_objects_def)
  have none: "sl_events kd_founded_log = []" "kd_founded_log\<lparr>sl_events := []\<rparr> = kd_founded_log"
    by (simp_all add: log_of_def)
  have same: "map_option (\<lambda>log. log\<lparr>sl_events := [] @ sl_events log\<rparr>) x = x" for x :: "scanned_log option"
    by (cases x) simp_all
  show ?thesis
    using suffix_scan_agrees [OF kd_scan_genesis lists messages] unfolding none same .
qed

section \<open>Founding and rotation\<close>

text \<open>
  C27: A founded log verifies exactly when its continuation fields are text. When Create returns a
  genesis, under the documented behaviour of Git and of the CBOR library (which encodes any byte string
  and refuses to decode a text that is not valid UTF-8), the log verifies at once: no events, depth zero,
  the head at the genesis, and the sequencer key of the descriptor in force. But the validation looks at
  neither the predecessor nor the sealed head: where one of them is not UTF-8, the log Create returned
  fails with a descriptor that can not be decoded.
\<close>

theorem founded_log_verifies:
  assumes "git_laws L G format" and "canonical_cbor L"
    and "create_log L G d signing_key w = (Inr genesis, w')"
  shows "\<exists>w''. verify_log L G genesis w' =
    (if utf8_valid (gd_predecessor d) \<and> utf8_valid (gd_sealed_head d)
     then Inr (log_of L genesis genesis 0 [] (gd_sequencer_key d))
     else Inl (GenesisError DescriptorNotDecodable), w'')"
  by (rule founded_log [OF assms]) (unfold continues_text_def, blast)

theorem founded_log_verifies_witness:
  "\<exists>w''. verify_log kd_lib kd_git kd_genesis kd_genesis = (Inr kd_founded_log, w'')"
  using founded_log_verifies [OF kd_laws kd_cbor kd_founded] by (simp add: kd_descriptor_def)

text \<open>
  C28: A rotation changes the key and nothing else. When Rotate returns, the log it read verified
  under another key, and the log at the head it left is that log with the rotation commit as its head,
  one position deeper, with the same events and retry index, under the successor key.
\<close>

theorem rotation_verifies:
  assumes "git_laws L G format" and "canonical_cbor L"
    and "rotate L G genesis successor opts w = (Inr r, w')"
  shows "\<exists>log w''. scan_head L G w' genesis (sb_base_head r) False = Inr log \<and> sl_sequencer_key log \<noteq> successor
    \<and> verify_log L G genesis w' = (Inr (log\<lparr>sl_head := sb_commit r, sl_depth := sl_depth log + 1,
          sl_sequencer_key := successor\<rparr>), w'')"
  by (rule rotated_log [OF assms]) (unfold rotated_def, blast)

theorem rotation_verifies_witness:
  "\<exists>w''. verify_log kd_lib kd_git kd_genesis kd_turn
    = (Inr (kd_founded_log\<lparr>sl_head := kd_turn, sl_depth := 1, sl_sequencer_key := kd_successor\<rparr>), w'')"
  using rotation_verifies [OF kd_laws kd_cbor kd_rotated] kd_scan_genesis [of kd_turn]
  by (auto simp: kd_result_def log_of_def)

section \<open>Retries\<close>

text \<open>
  C29: Nothing is sequenced twice. A request whose retry identity is that of an event the log holds is
  never chained: it returns that event as a replay when it carries the same signed intent, and the
  idempotency conflict otherwise, whatever hooks, references and payload it comes with.
\<close>

theorem held_request_replayed:
  assumes "scan_head L G w genesis head load = Inr log" and "e \<in> set (sl_events log)"
    and "dedup_key L (rq_signed rq) = Inr key" and "key = projr (dedup_key L (ev_signed e))"
  shows "judge_attempt opts rq pp key attempt head log w' =
    (if ev_signed e = rq_signed rq
     then Inr (Some \<lparr>sb_commit = ev_commit e, sb_head = ev_commit e, sb_replay = True,
            sb_cas_retries = attempt, sb_base_head = head, sb_timestamp = ev_timestamp e\<rparr>)
     else Inl IdempotencyConflict)"
  by (rule held_event_replayed [OF assms(1-3)]) (simp add: assms(4) retry_key_def)

lemma kd_scan_first: "scan_head kd_lib kd_git w kd_genesis kd_first False = Inr (extended kd_lib
   \<lparr>ev_commit = kd_first, ev_timestamp = 7, ev_intent = kd_intent [], ev_signed = kd_signed [],
    ev_payload_tree = typed_oid ''sha1'' kd_tree, ev_payload = [], ev_attachments = []\<rparr> kd_founded_log)"
proof -
  have rests: "[] \<in> set kd_rests"
    by (simp add: kd_rests_def)
  have verified: "verify_signed kd_lib (rq_signed (kd_request [])) = Inr (kd_intent [])"
    using kd_verified [OF rests] by simp
  have survives: "survives (in_rests_on (kd_intent []))"
    by (simp add: kd_survives)
  obtain pp where pp: "pp_intent pp = kd_intent []" "ready kd_lib kd_git (kd_request []) ''sha1'' pp kd_first"
    and left: "sequenced kd_lib kd_git (kd_request []) pp (kd_result 74) kd_first"
    by (rule submit_sequenced [OF kd_laws kd_go_request [OF rests] _ verified survives kd_submitted(1)])
      (simp_all add: kd_result_def)
  have "pp_target pp = kd_genesis"
    using pp by (auto simp: ready_def kd_intent_def typed_oid_def)
  then have "scan_head kd_lib kd_git kd_first kd_genesis kd_first False
      = Inr (extended kd_lib (sequenced_event (kd_request []) pp (kd_result 74)) kd_founded_log)"
    using left kd_scan_genesis [of kd_first] by (auto simp: sequenced_def kd_result_def)
  then have "scan_head kd_lib kd_git w kd_genesis kd_first False
      = Inr (extended kd_lib (sequenced_event (kd_request []) pp (kd_result 74)) kd_founded_log)"
    by (rule scan_head_kept [OF kd_laws kd_keeps])
  then show ?thesis
    using pp(1) by (simp add: sequenced_event_def kd_result_def kd_intent_def)
qed

theorem held_request_replayed_witness:
  "\<exists>log r key. scan_head kd_lib kd_git kd_first kd_genesis kd_first False = Inr log
    \<and> judge_attempt kd_options (kd_request []) (kd_prepared []) key 0 kd_first log kd_first = Inr (Some r)
    \<and> sb_commit r = kd_first \<and> sb_replay r"
proof -
  have rests: "[] \<in> set kd_rests"
    by (simp add: kd_rests_def)
  have key: "dedup_key kd_lib (rq_signed (kd_request [])) = Inr (projr (dedup_key kd_lib (kd_signed [])))"
    using kd_dedup [OF rests] by simp
  let ?e = "\<lparr>ev_commit = kd_first, ev_timestamp = 7, ev_intent = kd_intent [], ev_signed = kd_signed [],
    ev_payload_tree = typed_oid ''sha1'' kd_tree, ev_payload = [], ev_attachments = []\<rparr>"
  have held: "?e \<in> set (sl_events (extended kd_lib ?e kd_founded_log))"
    by (simp add: extended_def enter_event_def)
  have "judge_attempt kd_options (kd_request []) (kd_prepared []) (projr (dedup_key kd_lib (kd_signed []))) 0 kd_first
      (extended kd_lib ?e kd_founded_log) kd_first = Inr (Some \<lparr>sb_commit = kd_first, sb_head = kd_first,
        sb_replay = True, sb_cas_retries = 0, sb_base_head = kd_first, sb_timestamp = 7\<rparr>)"
    using held_request_replayed [OF kd_scan_first held key] by simp
  then show ?thesis
    using kd_scan_first by fastforce
qed

text \<open>
  C30: Two valid intents share a retry identity only when they name the same target, namespace and key
  and their actor keys have one hash; no choice of these strings makes one identity run into another.
\<close>

theorem retry_identity_injective:
  assumes "validate i = None" and "validate j = None"
    and "dedup_identity L (in_target i) k (in_namespace i) (in_key i)
       = dedup_identity L (in_target j) k' (in_namespace j) (in_key j)"
  shows "in_target i = in_target j \<and> kl_sha256 L k = kl_sha256 L k'
    \<and> in_namespace i = in_namespace j \<and> in_key i = in_key j"
  using dedup_identity_inject [OF assms] by blast

theorem retry_identity_injective_witness:
  "in_key (kd_intent []) = in_key (kd_intent [''a''])"
proof -
  have "validate (kd_intent rests) = None" if "rests \<in> set kd_rests" for rests
    using verified_valid [OF kd_verified [OF that]] .
  then have "validate (kd_intent []) = None" "validate (kd_intent [''a'']) = None"
    by (simp_all add: kd_rests_def)
  from retry_identity_injective [OF this, of kd_lib kd_key kd_key] show ?thesis
    by (simp add: kd_intent_def)
qed

section \<open>Sizes and payloads\<close>

text \<open>
  C31: The ceiling is exact. The accounting in 64-bit words, which saturates instead of wrapping, admits
  a request if and only if the bytes of its envelope, payload and attachments, added as natural numbers,
  do not exceed the ceiling.
\<close>

theorem size_judged_exactly:
  assumes "length env < 2 ^ 64" and "length (rq_payload rq) < 2 ^ 64"
    and "\<forall>(n, content)\<in>set (rq_attachments rq). length content < 2 ^ 64"
  shows "judge_size (measure_request env rq) ceiling = Inr () \<longleftrightarrow>
    length env + length (rq_payload rq) + sum_list (map (length \<circ> snd) (rq_attachments rq)) \<le> unat ceiling"
  using judge_exact [of env rq ceiling] assms by (simp add: addressable_def attachment_bytes_def)

theorem size_judged_exactly_witness:
  "judge_size (measure_request ''e'' (kd_request [])) 2 = Inr () \<and> judge_size (measure_request ''e'' (kd_request [])) 1 \<noteq> Inr ()"
  using size_judged_exactly [of "''e''" "kd_request []" 2] size_judged_exactly [of "''e''" "kd_request []" 1]
  by (simp add: kd_request_def kd_event_def)

text \<open>
  C32: The signed tree name binds the payload. When the hash does not collide on the objects of two
  payloads, HashPayloadTree gives them one name only if they are the same payload with the same
  attachments under the same names.
\<close>

theorem payload_tree_binds_content:
  assumes "hash_sizes L"
    and "hash_payload_tree L format event files = Inr oid" and "hash_payload_tree L format event' files' = Inr oid"
    and "\<forall>(n, c)\<in>set files. attachment_name n" and "distinct (map fst files)"
    and "\<forall>(n, c)\<in>set files'. attachment_name n" and "distinct (map fst files')"
    and "inj_on (object_hash L format) (payload_frames L format event files \<union> payload_frames L format event' files')"
  shows "event = event' \<and> sorted_attachments files = sorted_attachments files'"
  by (rule payload_tree_binds [OF assms])

theorem payload_tree_binds_content_witness:
  "hash_payload_tree kd_lib ''sha1'' kd_event [] = Inr kd_tree \<and> sorted_attachments [] = ([] :: attachments)"
proof
  have content: "tree_content (sort_entries [blob_entry ''event'' kd_blob]) = Inr kd_tree_content"
    by (simp add: blob_entry_def kd_oid_def kd_tree_content_def)
  show hash: "hash_payload_tree kd_lib ''sha1'' kd_event [] = Inr kd_tree"
    using kd_names(1,2) content by (simp add: hash_payload_tree_def hash_tree_def blob_entry_def)
  have root: "root_entries kd_lib ''sha1'' kd_event [] = [blob_entry ''event'' kd_blob]"
    using kd_names(1) by (auto simp: root_entries_def git_hash_framed)
  have "payload_frames kd_lib ''sha1'' kd_event []
      = {framed ''blob'' kd_event, framed ''tree'' [], framed ''tree'' kd_tree_content}"
    using content by (auto simp: payload_frames_def blob_frames_def tree_frames_def root nested_entries_def sorted_attachments_def)
  moreover have "object_hash kd_lib ''sha1'' (framed ''blob'' kd_event) \<noteq> object_hash kd_lib ''sha1'' (framed ''tree'' [])"
    "object_hash kd_lib ''sha1'' (framed ''blob'' kd_event) \<noteq> object_hash kd_lib ''sha1'' (framed ''tree'' kd_tree_content)"
    "object_hash kd_lib ''sha1'' (framed ''tree'' []) \<noteq> object_hash kd_lib ''sha1'' (framed ''tree'' kd_tree_content)"
    using kd_names(1,2,7) kd_distinct by (auto simp: git_hash_framed)
  ultimately have clean: "inj_on (object_hash kd_lib ''sha1'') (payload_frames kd_lib ''sha1'' kd_event []
      \<union> payload_frames kd_lib ''sha1'' kd_event [])"
    by (auto simp: inj_on_def)
  show "sorted_attachments [] = ([] :: attachments)"
    using payload_tree_binds_content [OF kd_hash_sizes hash hash _ _ _ _ clean] by (simp add: sorted_attachments_def)
qed

text \<open>
  C33: A written payload reads back. Under the documented behaviour of the writing commands, the tree
  that WritePayloadTree returns is read by the bounded reader as the same payload with the attachments
  in the order of their names, whenever together they fit the bound.
\<close>

theorem payload_tree_round_trip:
  assumes "hash_sizes L" and "blobs_written L G format" and "trees_written L G format" and "objects_kept G"
    and "write_payload_tree G event files w = (Inr tree, w')"
    and "length event \<le> max_int" and "\<forall>(n, c)\<in>set files. length c \<le> max_int" and "distinct (map fst files)"
    and "length event + sum_list (map (length \<circ> snd) files) \<le> ceiling"
  shows "payload_tree L G w' format tree ceiling True = Inr (event, sorted_attachments files)"
proof -
  have stored: "stored_payload L G w' format event files tree" "\<forall>(n, c)\<in>set files. attachment_name n"
    using write_payload_tree_stored [OF assms(2-8)] by blast+
  have "sum_list (map (length \<circ> snd) (sorted_attachments files)) = sum_list (map (length \<circ> snd) files)"
    using sorted_attachments_bytes [OF assms(8)] by (simp add: attachment_bytes_def)
  then show ?thesis
    using payload_tree_stored [OF assms(1) stored assms(8), of ceiling True] assms(9) by simp
qed

theorem payload_tree_round_trip_witness:
  "payload_tree kd_lib kd_git kd_genesis ''sha1'' kd_tree 1 True = Inr (kd_event, [])"
proof -
  have written: "write_payload_tree kd_git kd_event [] kd_genesis = (Inr kd_tree, kd_genesis)"
    using listing_tab [of "blob_entry ''event'' kd_blob"]
    by (simp add: write_payload_tree_def listing_line_def blob_entry_def)
  have kept: "objects_kept kd_git"
    using kd_laws by (simp add: git_laws_def)
  from payload_tree_round_trip [OF kd_hash_sizes kd_blobs_written kd_trees_written kept written, of 1] show ?thesis
    by (simp add: kd_event_def max_int_def sorted_attachments_def)
qed

text \<open>
  C34: The envelope round-trips. Parsing the commit message of a signed intent gives back the intent,
  the actor key, the signature and the references in order, for every references without line feeds and
  every bound the message keeps.
\<close>

theorem envelope_round_trip:
  assumes "\<forall>r\<in>set rests. newline \<notin> set r" and "length (envelope s rests) \<le> max_bytes"
  shows "parse_envelope (envelope s rests) max_bytes = Inr (s, rests)"
  by (rule parse_envelope_printed [OF assms])

theorem envelope_round_trip_witness:
  "parse_envelope (kd_message [''a '']) 250 = Inr (kd_signed [''a ''], [''a ''])"
  using envelope_round_trip [of "[''a '']" "kd_signed [''a '']" 250] kd_message_length [of "[''a '']"]
  by (simp add: kd_message_def kd_rests_def)

section \<open>Bounds and progress\<close>

text \<open>
  C35: The queue is bounded. However the steps of any number of concurrent calls of Submit interleave,
  never more of them than the configured depth are past the check (waiting for the lock, holding it, or
  about to leave); the counter, which a call about to be refused does raise for a moment, is the number
  of calls between their add and their subtraction; and what the calls have done to the log and to the
  cache is what some of their requests do one after the other.
\<close>

theorem queue_bounded:
  assumes "0 < op_max_queue_depth opts"
    and "queue_run L G opts schedule (map Calling requests, \<lparr>sm_in_flight = 0, sm_cache = c\<rparr>, w) = (cs, sm, w')"
  shows "int (length (filter inside cs)) \<le> op_max_queue_depth opts
    \<and> sm_in_flight sm = int (length (filter counted cs))
    \<and> (\<exists>served sm'. mset served \<subseteq># mset requests
        \<and> run_steps (resident_step L G) (\<lparr>sm_in_flight = 0, sm_cache = c\<rparr>, w) (map (\<lambda>rq. (rq, opts)) served) = Some (sm', w')
        \<and> sm_cache sm' = sm_cache sm)"
proof -
  let ?start = "(\<lparr>sm_in_flight = 0, sm_cache = c\<rparr>, w)"
  have inv: "queue_inv L G opts requests ?start (cs, sm, w')"
    using queue_inv_run [OF assms(1) queue_inv_start [OF assms(1)]] assms(2) by (metis submitter.select_convs(1))
  have "number inside cs \<le> number (passing (op_max_queue_depth opts)) cs"
    by (rule number_mono) (rule inside_passing)
  then have "number inside cs \<le> op_max_queue_depth opts"
    using inv by (simp add: queue_inv_def)
  moreover obtain served sm' where "run_steps (resident_step L G) ?start (map (\<lambda>rq. (rq, opts)) served) = Some (sm', w')"
    "sm_cache sm' = sm_cache sm" "mset served + sum_list (map pending cs) \<subseteq># mset requests"
    using inv by (auto simp: queue_inv_def)
  moreover have "sm_in_flight sm = number counted cs"
    using inv by (simp add: queue_inv_def)
  ultimately show ?thesis
    using subset_mset.order_trans [OF mset_subset_eq_add_left] by (fastforce simp: number_length)
qed

definition kd_submitter :: submitter where
  "kd_submitter = \<lparr>sm_in_flight = 0, sm_cache = new_cache\<rparr>"

text \<open>Two calls and one place: both are counted, the second is refused, and the counter falls back.\<close>

theorem queue_bounded_witness:
  "\<exists>cs sm. queue_run kd_lib kd_git (kd_options\<lparr>op_max_queue_depth := 1\<rparr>) [0, 1, 0, 1]
        (map Calling [kd_request [], kd_request []], kd_submitter, kd_genesis) = (cs, sm, kd_genesis)
     \<and> cs = [Admitted (kd_request []), Returned (Inl (BackPressure 1))]
     \<and> sm_in_flight sm = 1 \<and> length (filter inside cs) = 1"
proof -
  let ?opts = "kd_options\<lparr>op_max_queue_depth := 1\<rparr>" and ?rs = "[kd_request [], kd_request []]"
  let ?cs = "[Admitted (kd_request []), Returned (Inl (BackPressure 1))]"
  obtain sm where run: "queue_run kd_lib kd_git ?opts [0, 1, 0, 1] (map Calling ?rs, \<lparr>sm_in_flight = 0, sm_cache = new_cache\<rparr>, kd_genesis)
      = (?cs, sm, kd_genesis)"
    by (simp add: add_in_flight_def)
  from queue_bounded [OF _ run] have "int (length (filter inside ?cs)) \<le> 1" "sm_in_flight sm = int (length (filter counted ?cs))"
    by simp_all
  then show ?thesis
    using run by (simp add: kd_submitter_def)
qed

text \<open>
  C36: A submission that can not lose every race is decided. When a reference changes under an attempt
  only by a move of another writer, and fewer such moves remain than the submission may retry, the loop
  does not run out of attempts: one of its attempts, numbered below the limit, accepts, replays or
  refuses, and that is the result of the submission.
\<close>

theorem contention_decided:
  assumes "git_laws L G format" and "contended G rivals" and "\<forall>c. cache = Some c \<longrightarrow> coherent_cache L G w c"
    and "rivals w1 < nat (retry_limit (op_max_retries opts))"
    and "check_submission L G opts rq w = (Inr pp, w1)" and "dedup_key L (rq_signed rq) = Inr key"
  shows "\<exists>k c v x c' w'. submit_attempt L G opts rq pp key k c v = (x, c', w') \<and> x \<noteq> Inr None
    \<and> k < nat (retry_limit (op_max_retries opts))
    \<and> submit L G rq opts cache w = (map_sum (\<lambda>e. e) the x, c', w')"
proof -
  have "keeps_objects G w w1"
    using check_submission_keeps [OF _ assms(5)] assms(1) by (simp add: git_laws_def)
  then have "\<forall>c. cache = Some c \<longrightarrow> coherent_cache L G w1 c"
    using assms(3) coherent_kept [OF assms(1)] by blast
  from loop_decided [OF assms(1,2) checked_submittable [OF assms(5)] this assms(4), of opts rq key 0] show ?thesis
    using assms(5,6) by (simp add: submit_def)
qed

theorem contention_decided_witness:
  "\<exists>k c v x c' w'. submit_attempt kd_lib kd_git kd_options (kd_request []) (kd_prepared [])
      (projr (dedup_key kd_lib (kd_signed []))) k c v = (x, c', w') \<and> x \<noteq> Inr None \<and> k < 32
    \<and> submit kd_lib kd_git (kd_request []) kd_options None kd_genesis = (map_sum (\<lambda>e. e) the x, c', w')"
proof -
  have rests: "[] \<in> set kd_rests"
    by (simp add: kd_rests_def)
  have limit: "nat (retry_limit (op_max_retries kd_options)) = 32"
    by (simp add: retry_limit_def kd_options_def)
  have alone: "contended kd_git (\<lambda>w. 0)"
    by (auto simp: contended_def quiet_def kd_git_def split: if_splits)
  have key: "dedup_key kd_lib (rq_signed (kd_request [])) = Inr (projr (dedup_key kd_lib (kd_signed [])))"
    using kd_dedup [OF rests] by simp
  show ?thesis
    using contention_decided [OF kd_laws alone _ _ kd_checked [OF rests kd_clean(1)] key, of None] unfolding limit by simp
qed

section \<open>The shape of a scanned log\<close>

text \<open>
  C37: Every log a scan returns is well formed: its events are signed, verified, addressed to this log
  and name the trees they carry; the retry index holds exactly the retry identities of the events, each
  once; the positions hold the genesis and every event; and no log has more events than positions.
\<close>

theorem scanned_log_well_formed:
  assumes "scan_head L G w genesis head load = Inr log"
  shows "sl_count log = length (sl_events log) \<and> sl_count log \<le> sl_depth log
    \<and> (\<forall>e\<in>set (sl_events log). verify_signed L (ev_signed e) = Inr (ev_intent e)
          \<and> (\<exists>format. in_target (ev_intent e) = typed_oid format (sl_genesis log))
          \<and> ev_payload_tree e = in_payload_tree (ev_intent e) \<and> ev_commit e \<in> sl_positions log)
    \<and> distinct (map (\<lambda>e. projr (dedup_key L (ev_signed e))) (sl_events log))
    \<and> sl_dedup log = map_of (map (\<lambda>e. (projr (dedup_key L (ev_signed e)), event_without_payload e)) (sl_events log))
    \<and> sl_genesis log \<in> sl_positions log"
  using scanned_well_formed [OF assms] by (simp add: well_formed_log_def retry_key_def [abs_def])

theorem scanned_log_well_formed_witness:
  "\<exists>log. scan_head kd_lib kd_git kd_first kd_genesis kd_first False = Inr log \<and> sl_count log = length (sl_events log)
    \<and> length (sl_events log) = 1"
proof -
  note scanned = kd_scan_first [of kd_first]
  have "sl_count log = length (sl_events log)" if "scan_head kd_lib kd_git kd_first kd_genesis kd_first False = Inr log" for log
    using scanned_log_well_formed [OF that] by blast
  with scanned show ?thesis
    by (auto simp: extended_def enter_event_def log_of_def)
qed

section \<open>Runs of the resident submitter\<close>

text \<open>
  C38: History is kept through every run. Whatever sequence of requests a resident submitter handles,
  each addressable in memory and with a last reference that does not end in white space, and whether it
  accepts, replays or refuses them, it returns from all of them; its cache then still is, without
  events, the scan of its head; and every log that verified before the run verifies after it, as the
  same log.
\<close>

theorem resident_runs_sound:
  assumes "git_laws L G format" and "list_all (resident_fits L) requests"
  shows "\<exists>sm w'. run_steps (resident_step L G) (\<lparr>sm_in_flight = 0, sm_cache = new_cache\<rparr>, w) requests = Some (sm, w')
    \<and> coherent_cache L G w' (sm_cache sm)
    \<and> (\<forall>genesis head load log. scan_head L G w genesis head load = Inr log
         \<longrightarrow> scan_head L G w' genesis head load = Inr log)"
proof -
  let ?s = "(\<lparr>sm_in_flight = 0, sm_cache = new_cache\<rparr>, w)"
  have start: "resident_inv L G format ?s"
    using assms(1) by (simp add: resident_inv_def coherent_new)
  obtain sm w' where run: "run_steps (resident_step L G) ?s requests = Some (sm, w')"
    using resident_returns.run_total [OF start assms(2)] by auto
  show ?thesis
    using run resident.run_inv [OF start assms(2) run] resident.run_tracks [OF start assms(2) run]
    by (auto simp: resident_inv_def history_kept_def)
qed

theorem resident_runs_sound_witness:
  "\<exists>sm w'. run_steps (resident_step kd_lib kd_git) (\<lparr>sm_in_flight = 0, sm_cache = new_cache\<rparr>, kd_genesis)
      [(kd_request [], kd_options), (kd_request [], kd_options)] = Some (sm, w')
    \<and> scan_head kd_lib kd_git w' kd_genesis kd_genesis False = Inr kd_founded_log"
proof -
  have rests: "[] \<in> set kd_rests"
    by (simp add: kd_rests_def)
  have "resident_fits kd_lib (kd_request [], kd_options)"
    using kd_go_request [OF rests] kd_verified [OF rests] by (simp add: resident_fits_def kd_survives)
  then have "list_all (resident_fits kd_lib) [(kd_request [], kd_options), (kd_request [], kd_options)]"
    by simp
  from resident_runs_sound [OF kd_laws this, of kd_genesis] show ?thesis
    using kd_scan_genesis [of kd_genesis] by blast
qed

end
