(* ===== verification/Spec2Isabelle.thy ===== *)
theory Spec2Isabelle
  imports FoldHistory FoldIndex FoldMembership FoldVocabulary FoldRoster ProjectProps LiveProps KernelProps
begin

text \<open>
  gitseq keeps a shared work log as an event sequence in Git. Its parts, from the bottom:

  \<^item> the kernel (\<open>internal/intent\<close>, \<open>internal/kernel\<close>) admits signed intents as commits of one
    append-only ref per log;
  \<^item> the workroom fold (\<open>internal/workroom\<close>) reads the admitted records in order, decides each of them
    (statement, ratification, supersession), and keeps the indexes from which every view of the work
    is read: who holds which role, what is retired, what is stale, which commitments stand, where
    approved work lands;
  \<^item> the live hub (\<open>host/live\<close>) is the ephemeral side: sessions with leases, proof of possession,
    presence, signed conversations that never reach the log;
  \<^item> the application, the services and the commands (\<open>internal/app\<close>, \<open>internal/service\<close>, \<open>cmd\<close>) carry
    requests to these three and print what they answer.

  The development models all three of the first layers. A Go operation on a
  receiver is a HOL function on a record of the receiver's fields; a Go error is a constructor of an
  error datatype or \<open>None\<close>; a mutex around an operation makes the operation one step of a machine.

  \<^bold>\<open>Shared theories.\<close> \<open>Prelude\<close>: the Go \<open>strings\<close> operations, association maps, counting, collections of
  rewrite rules. \<open>GoLib\<close>: JSON values and Go's conversion of them. \<open>GoBytes\<close>: hexadecimal, decimal,
  UTF-8 and trimming of byte strings, with round trips. \<open>Machines\<close>: the interfaces between the
  components and their properties, as locales over a partial step: \<open>invariant_machine\<close> (an invariant
  every run keeps), \<open>total_machine\<close> (and every run returns), \<open>append_only\<close> (a log that only grows),
  \<open>preorder_machine\<close> (a relation every run keeps), \<open>tracking_machine\<close> (a relation kept under an
  invariant). Each is interpreted on the step of the fold (\<open>append_record\<close>) and of the hub
  (\<open>hub_step\<close>), and the properties are read off the interpretations.

  \<^bold>\<open>The fold.\<close>
  \<^item> \<open>WorkroomKinds\<close> (\<open>kinds.go\<close>): kind definitions, the starter catalog, decoding and validation of a
    declared definition. \<open>WorkroomSchema\<close> (\<open>schema.go\<close>): payloads, canonical form, payload rules.
  \<^item> \<open>WorkroomState\<close> (\<open>fold.go\<close>): the record \<open>fold_state\<close> with a field for every index of
    \<open>incrementalFold\<close>, and its readers. \<open>WorkroomRetire\<close>: \<open>changeRetirement\<close>. \<open>WorkroomRoles\<close>: grants,
    roles and the resolution of governance. \<open>WorkroomLanding\<close> (\<open>landing.go\<close>): request choices, targets,
    holds and release. \<open>WorkroomStale\<close>: staleness and receipt plans. \<open>WorkroomCommit\<close>: the commitment
    rows. \<open>WorkroomReceipt\<close>: merge receipts and left-live accounting. \<open>WorkroomDecide\<close>: the decision on
    each record. \<open>WorkroomFold\<close>: \<open>judge\<close>, \<open>append\<close>, the refresh of definitions, \<open>preview\<close> (\<open>preview.go\<close>).
  \<^item> \<open>WorkroomFrame\<close> says what one append may change, \<open>WorkroomCases\<close> reduces an append to four cases,
    \<open>WorkroomInv\<close> proves the invariant \<open>fold_inv\<close> (identifiers, positions, the supersession ledger,
    the counters) and interprets the machine locales.
  \<^item> \<open>FoldHistory\<close>, \<open>FoldIndex\<close>, \<open>FoldMembership\<close>, \<open>FoldVocabulary\<close> hold the properties: counters
    count live supersessions, indexes are selections of the log, decisions are final, folding
    returns, membership and founder guarantees, and the definition in force. \<open>WorkroomDemo\<close> is the
    concrete log their witnesses run on.
  \<^item> \<open>WorkroomProject\<close> (\<open>fold.go\<close>, from \<open>project\<close> on): the rows a display reads, built from a complete fold;
    the memo of receipt walks is threaded through as in the code, and \<open>ProjectFacts\<close> shows that it answers
    as a plain selection of the log. \<open>WorkroomViews\<close> (\<open>render.go\<close>, \<open>work.go\<close>, \<open>dead_bases.go\<close>,
    \<open>admission_profile.go\<close>): provenance, the populations of commitments, dead citations, the admission
    profile. \<open>EventRefs\<close> (\<open>internal/eventref\<close>, \<open>host/identifier.go\<close>): the classification and resolution of
    typed references, with \<open>EventFacts\<close>. \<open>FoldRoster\<close> shows that the displayed roster is the authority the
    fold enforces; \<open>ProjectProps\<close> the figures on artifact rows, the soundness of reviews, that printed
    numbers resolve, that one act reads the event set once, and that the populations of work partition
    the commitments; \<open>ProjectDemo\<close> holds their short logs.

  \<^bold>\<open>The live hub\<close> (\<open>host/live/live.go\<close>, with \<open>host/identifier.go\<close>).
  \<^item> \<open>LiveState\<close>: constants, wire data, the record \<open>hub\<close>, identifiers and normalization. \<open>LiveHub\<close>: the
    change log, leases, challenges, opening, renewal, departure. \<open>LiveFrames\<close>: drafts, signed frames,
    messages, inboxes, acknowledgement, \<open>VerifyChain\<close>. \<open>LiveView\<close>: snapshots, changes, observation,
    attention, and \<open>hub_step\<close>, every exported operation as one step.
  \<^item> \<open>LiveInv\<close>, \<open>LiveLease\<close>, \<open>LiveQuota\<close>, \<open>LiveSafe\<close> prove the invariant \<open>hub_inv\<close> operation by operation.
    \<open>LiveRelation\<close> proves relations between the hub before and after (locales \<open>hub_relation\<close> and
    \<open>submit_relation\<close>, each interpreted on several relations). \<open>LiveChain\<close>: retained frames verify.
    \<open>LiveReplay\<close>: the changes reproduce the snapshot. \<open>LiveFacts\<close>: contracts of single operations.
    \<open>LiveProps\<close> states the properties, \<open>LiveDemo\<close> the concrete hub of the witnesses.

  \<^bold>\<open>The kernel\<close> (\<open>internal/intent\<close>, \<open>internal/gitstore\<close>, \<open>internal/kernel/kernel.go\<close>).
  \<^item> \<open>GoCodec\<close>: errors as sums (\<open>and_then\<close>), base64, white space, decimal integers, with round trips.
    \<open>Intents\<close>: the intent, its validation and canonical encoding, signing and verification, the retry
    identity, the envelope; lemmas in \<open>IntentFacts\<close>. \<open>GitObjects\<close>: typed object names, the batch reader
    with its framing and hash check, commits, trees, payload trees read, written and hashed, OpenSSH
    keys and signatures; lemmas in \<open>GitFacts\<close>, \<open>PayloadTrees\<close> and \<open>PayloadHash\<close>.
  \<^item> \<open>KernelLog\<close>: the genesis and rotation messages, the size accounting, \<open>loadCommit\<close>, the cold scan and
    the scan of a suffix. \<open>KernelSubmit\<close>: the cache, \<open>Submit\<close> with its compare-and-swap loop, the resident
    submitter and the atomic steps of its concurrent callers, \<open>Rotate\<close>, \<open>Create\<close>, and the readers of a verified log. The world \<open>'w\<close> is the
    repository and everyone else who writes to it; each command of \<open>git\<close> returns the world it leaves, so
    races are part of the model.
  \<^item> \<open>KernelScan\<close>: a suffix scan is the cold scan. \<open>KernelMessages\<close>: what trimming leaves of an envelope.
    \<open>KernelChain\<close>: the declarative chain (\<open>audits\<close>, \<open>audited_log\<close>) the scan implements. \<open>KernelSizes\<close>: the
    accounting against natural numbers. \<open>KernelAccept\<close>: the laws of the Git program as named hypotheses
    (\<open>git_laws\<close>) and a log extended by one event. \<open>KernelCache\<close>: coherent caches, whether an advance loads
    payloads or not and whether it keeps the events or hands them to a sink. \<open>KernelSequence\<close>: what
    an accepted submission leaves behind. \<open>KernelAfter\<close>: replays, and the one message that does not come
    back. \<open>KernelFounding\<close>: founding (and the descriptor that is encoded but never decoded) and rotation.
    \<open>KernelMachine\<close> interprets the machine locales on the resident submitter. \<open>KernelQueue\<close>: every
    interleaving of its callers. \<open>KernelReading\<close>: readers and contention. \<open>KernelProps\<close> states the
    properties; \<open>KernelDemo\<close> and \<open>KernelRuns\<close> are the repository of the witnesses, in which \<open>git_laws\<close>
    is proved of concrete commands.

  \<^bold>\<open>Parameters.\<close> \<open>fold_lib\<close>: JSON parsing and printing, regular expressions. \<open>live_lib\<close>: Ed25519, SHA-256,
  CBOR and the JSON encoding of a message. \<open>kernel_lib\<close>: the hashes, Ed25519, the PEM reader and CBOR;
  \<open>git\<close>: the commands of the Git program. \<open>live_env\<close>: the clock, the draws of \<open>crypto/rand\<close> (finite
  lists, whose exhaustion is a failing draw), and the order in which \<open>range\<close> visits a map; an operation of
  the hub that reads the clock twice is given one value. Nothing is
  assumed of them except as a named hypothesis of a theorem (\<open>env_ok\<close>, \<open>crypto_ok\<close>, \<open>git_laws\<close>,
  \<open>canonical_cbor\<close>), and the witnesses instantiate them.

  \<^bold>\<open>Bounds and fuel.\<close> Go's \<open>int\<close> positions and counters are \<open>nat\<close> or \<open>int\<close>: they count records held in
  memory. Sequence numbers of frames are \<open>nat\<close> and bounded by 64 bits where they are parsed. The
  loops of the code that have no bound (the propagation of retirement, the resolution of governance)
  are \<open>partial_function\<close>s, so not returning is a value; \<open>fold_returns\<close> shows that they return whenever
  targets descend in some ranking, which holds in every log since an event can only name
  events that exist. Other loops recurse on a list, or on the bound the code has, such as the
  inheritance depth of 8. The attempts of a submission are counted down as the code does; \<open>contention_decided\<close>
  shows that they suffice when fewer races can be lost. Sizes and ceilings are 64-bit words.

  \<^bold>\<open>Not modelled.\<close> The Markdown and JSON text of \<open>render.go\<close> and \<open>RenderWork\<close>. Telemetry. Of the kernel: checkpoints (the cache is the
  one with zero \<open>CheckpointOptions\<close>, as in the public host), progress reports, contexts, failpoints for
  tests. Merge planning and the review guard: text and graph queries over a working tree. \<open>WaitComposite\<close>: a polling loop over \<open>observe\<close> and a callback. Identity
  providers, key custody, the commands, servers and connectors: input and output
  around the modelled core. String interning and memo tables of pure functions: storage only.
\<close>

end
